(* ===== verification/Prelude.thy ===== *)
theory Prelude
  imports Complex_Main "HOL-Library.AList" "HOL-Library.Char_ord" "HOL-Library.List_Lexorder"
    "HOL-Library.Sublist"
begin

text \<open>
  The prelude of the development: the Python values that every component of the gateway
  exchanges, and the string, dictionary and table operations of Python and SQL that the
  components share.

  A \<open>str\<close> of the source is a \<open>string\<close> whose characters are code points below 256 (HOL's
  \<open>char\<close>); a decoded JSON value is a \<open>json\<close>, whose objects keep Python's insertion order in
  an association list; a raise is the \<open>Inl\<close> side of a sum. Row lists stand for SQL tables.
\<close>

section \<open>Collections of simplification rules\<close>

named_theorems json_simps \<open>reading and writing JSON objects\<close>
named_theorems table_simps \<open>rows of the SQL tables\<close>
named_theorems string_simps \<open>Python string operations\<close>

section \<open>Results\<close>

fun rbind :: "'e + 'a \<Rightarrow> ('a \<Rightarrow> 'e + 'b) \<Rightarrow> 'e + 'b" where
  "rbind (Inl e) f = Inl e"
| "rbind (Inr a) f = f a"

definition require :: "bool \<Rightarrow> 'e \<Rightarrow> ('e + 'a) \<Rightarrow> 'e + 'a" where
  "require ok e k = (if ok then k else Inl e)"

lemma rbind_Inr_iff: "rbind m f = Inr b \<longleftrightarrow> (\<exists>a. m = Inr a \<and> f a = Inr b)"
  by (cases m) auto

lemma rbind_Inl_iff: "rbind m f = Inl e \<longleftrightarrow> m = Inl e \<or> (\<exists>a. m = Inr a \<and> f a = Inl e)"
  by (cases m) auto

lemma require_Inr_iff: "require ok e k = Inr b \<longleftrightarrow> ok \<and> k = Inr b"
  by (simp add: require_def)

lemma require_True [simp]: "require True e k = k"
  and require_False [simp]: "require False e k = Inl e"
  by (simp_all add: require_def)

lemmas result_iffs = rbind_Inr_iff rbind_Inl_iff require_Inr_iff

fun sum_error :: "'e + 'a \<Rightarrow> 'e option" where
  "sum_error (Inl e) = Some e"
| "sum_error (Inr a) = None"

section \<open>JSON values and Python dictionaries\<close>

datatype json =
    JNull
  | JBool bool
  | JInt int
  | JFloat rat
  | JStr string
  | JList "json list"
  | JObj "(string \<times> json) list"

type_synonym obj = "(string \<times> json) list"

text \<open>\<open>dict.get(k)\<close>: a missing key and a null value both read as \<open>None\<close>.\<close>

definition jget :: "obj \<Rightarrow> string \<Rightarrow> json" where
  "jget d k = (case map_of d k of None \<Rightarrow> JNull | Some v \<Rightarrow> v)"

text \<open>\<open>d[k] = v\<close> keeps the position of an existing key and appends a new one.\<close>

definition jset :: "string \<Rightarrow> json \<Rightarrow> obj \<Rightarrow> obj" where
  "jset k v d = AList.update k v d"

definition jpop :: "string \<Rightarrow> obj \<Rightarrow> obj" where
  "jpop k d = AList.delete k d"

text \<open>\<open>{**d, **e}\<close>.\<close>

fun jmerge :: "obj \<Rightarrow> obj \<Rightarrow> obj" where
  "jmerge d [] = d"
| "jmerge d ((k, v) # e) = jmerge (jset k v d) e"

text \<open>\<open>d.setdefault(k, v)\<close> writes only when the key is absent.\<close>

definition jsetdefault :: "string \<Rightarrow> json \<Rightarrow> obj \<Rightarrow> obj" where
  "jsetdefault k v d = (if map_of d k = None then jset k v d else d)"

fun truthy :: "json \<Rightarrow> bool" where
  "truthy JNull = False"
| "truthy (JBool b) = b"
| "truthy (JInt i) = (i \<noteq> 0)"
| "truthy (JFloat r) = (r \<noteq> 0)"
| "truthy (JStr s) = (s \<noteq> [])"
| "truthy (JList xs) = (xs \<noteq> [])"
| "truthy (JObj d) = (d \<noteq> [])"

text \<open>Python's \<open>a or b\<close>.\<close>

definition py_or :: "json \<Rightarrow> json \<Rightarrow> json" where
  "py_or a b = (if truthy a then a else b)"

text \<open>
  The \<open>isinstance\<close> tests of the source, as partial projections. \<open>bool\<close> is a subclass of
  \<open>int\<close>: \<open>as_pyint\<close> is \<open>isinstance(v, int)\<close>, \<open>as_int\<close> also excludes \<open>bool\<close>.
\<close>

fun as_str :: "json \<Rightarrow> string option" where
  "as_str (JStr s) = Some s"
| "as_str _ = None"

fun as_obj :: "json \<Rightarrow> obj option" where
  "as_obj (JObj d) = Some d"
| "as_obj _ = None"

fun as_list :: "json \<Rightarrow> json list option" where
  "as_list (JList xs) = Some xs"
| "as_list _ = None"

fun as_int :: "json \<Rightarrow> int option" where
  "as_int (JInt i) = Some i"
| "as_int _ = None"

fun as_pyint :: "json \<Rightarrow> int option" where
  "as_pyint (JInt i) = Some i"
| "as_pyint (JBool b) = Some (if b then 1 else 0)"
| "as_pyint _ = None"

fun opt_str :: "string option \<Rightarrow> json" where
  "opt_str None = JNull"
| "opt_str (Some s) = JStr s"

fun opt_int :: "int option \<Rightarrow> json" where
  "opt_int None = JNull"
| "opt_int (Some i) = JInt i"

lemma as_str_Some [simp]: "as_str v = Some s \<longleftrightarrow> v = JStr s"
  by (cases v) auto

lemma as_obj_Some [simp]: "as_obj v = Some d \<longleftrightarrow> v = JObj d"
  by (cases v) auto

lemma as_list_Some [simp]: "as_list v = Some xs \<longleftrightarrow> v = JList xs"
  by (cases v) auto

lemma as_int_Some [simp]: "as_int v = Some i \<longleftrightarrow> v = JInt i"
  by (cases v) auto

lemma jget_jset [json_simps, simp]: "jget (jset k v d) k' = (if k = k' then v else jget d k')"
  by (simp add: jget_def jset_def update_conv)

lemma jget_jpop [json_simps, simp]: "jget (jpop k d) k' = (if k = k' then JNull else jget d k')"
  by (simp add: jget_def jpop_def delete_conv)

lemma jget_Nil [json_simps, simp]: "jget [] k = JNull"
  by (simp add: jget_def)

lemma jget_Cons [json_simps, simp]: "jget ((k, v) # d) k' = (if k = k' then v else jget d k')"
  by (simp add: jget_def)

lemma jset_keys: "set (map fst (jset k v d)) = insert k (set (map fst d))"
  by (induction d) (auto simp: jset_def)

lemma distinct_jset [json_simps, simp]:
  "distinct (map fst d) \<Longrightarrow> distinct (map fst (jset k v d))"
  by (simp add: jset_def distinct_update)

lemma distinct_jmerge:
  "distinct (map fst d) \<Longrightarrow> distinct (map fst (jmerge d e))"
  by (induction d e rule: jmerge.induct) auto

lemma jget_jmerge_notin:
  "k \<notin> set (map fst e) \<Longrightarrow> jget (jmerge d e) k = jget d k"
  by (induction d e rule: jmerge.induct) auto

lemma jget_jmerge_in:
  "distinct (map fst e) \<Longrightarrow> k \<in> set (map fst e) \<Longrightarrow> jget (jmerge d e) k = jget e k"
proof (induction d e rule: jmerge.induct)
  case (1 d)
  then show ?case by simp
next
  case (2 d k' v e)
  then show ?case by (cases "k = k'") (simp_all add: jget_jmerge_notin)
qed

lemma jget_jsetdefault [json_simps]:
  "jget (jsetdefault k v d) k' = (if k = k' \<and> map_of d k = None then v else jget d k')"
  by (cases "map_of d k") (auto simp: jsetdefault_def)

text \<open>
  \<open>json.dumps(value, sort_keys=True)\<close> followed by \<open>json.loads\<close> yields the same value with the
  keys of every object in ascending order. Two dictionaries are equal in Python exactly when
  their sorted forms are.
\<close>

fun canon :: "json \<Rightarrow> json" where
  "canon (JList xs) = JList (map canon xs)"
| "canon (JObj d) = JObj (sort_key fst (map (\<lambda>(k, v). (k, canon v)) d))"
| "canon v = v"

definition canon_obj :: "obj \<Rightarrow> obj" where
  "canon_obj d = sort_key fst (map (\<lambda>(k, v). (k, canon v)) d)"

lemma map_of_map_snd: "map_of (map (\<lambda>(k, v). (k, f v)) d) k = map_option f (map_of d k)"
  by (induction d) auto

lemma map_of_sort_key_fst:
  assumes "distinct (map fst d)"
  shows "map_of (sort_key fst d) = map_of d"
proof (rule map_of_eqI)
  show "set (map fst (sort_key fst d)) = set (map fst d)" by simp
  have "distinct (map fst (sort_key fst d))"
    using assms by (metis distinct_map set_sort distinct_sort)
  then show "\<forall>k\<in>set (map fst (sort_key fst d)). map_of (sort_key fst d) k = map_of d k"
    using assms by (metis map_of_eq_Some_iff map_of_eq_None_iff option.exhaust set_map set_sort)
qed

lemma map_of_canon_sorted:
  assumes "distinct (map fst d)"
  shows "map_of (sort_key fst (map (\<lambda>(k, v). (k, canon v)) d)) k = map_option canon (map_of d k)"
proof -
  have "distinct (map fst (map (\<lambda>(k, v). (k, canon v)) d))"
    using assms by (simp add: comp_def split_def)
  then show ?thesis by (simp only: map_of_sort_key_fst map_of_map_snd)
qed

lemma jget_canon_obj:
  "distinct (map fst d) \<Longrightarrow> jget (canon_obj d) k = canon (jget d k)"
  by (simp only: jget_def canon_obj_def map_of_canon_sorted) (simp split: option.split)

text \<open>
  Python's \<open>==\<close> on decoded JSON: key order does not matter, and \<open>True == 1 == 1.0\<close>.
\<close>

fun py_norm :: "json \<Rightarrow> json" where
  "py_norm (JBool b) = JInt (if b then 1 else 0)"
| "py_norm (JFloat r) = (if r = of_int \<lfloor>r\<rfloor> then JInt \<lfloor>r\<rfloor> else JFloat r)"
| "py_norm (JList xs) = JList (map py_norm xs)"
| "py_norm (JObj d) = JObj (sort_key fst (map (\<lambda>(k, v). (k, py_norm v)) d))"
| "py_norm v = v"

definition py_eq :: "json \<Rightarrow> json \<Rightarrow> bool" where
  "py_eq a b \<longleftrightarrow> py_norm a = py_norm b"

lemma insort_key_map: "insort_key f (g x) (map g xs) = map g (insort_key (\<lambda>x. f (g x)) x xs)"
  by (induction xs) auto

lemma sort_key_map: "sort_key f (map g xs) = map g (sort_key (\<lambda>x. f (g x)) xs)"
  by (induction xs) (simp_all add: insort_key_map)

lemma sort_key_fst_map:
  "sort_key fst (map (\<lambda>(k, v). (k, h v)) d) = map (\<lambda>(k, v). (k, h v)) (sort_key fst d)"
  by (simp add: sort_key_map split_def)

text \<open>Sorting the keys does not change what a value is equal to.\<close>

lemma py_norm_canon: "py_norm (canon v) = py_norm v"
proof (induction v rule: canon.induct)
  case (2 d)
  have "map (\<lambda>(k, v). (k, py_norm (canon v))) d = map (\<lambda>(k, v). (k, py_norm v)) d"
    using 2 by (auto intro!: map_cong)
  moreover have "sort_key fst (map (\<lambda>(k, v). (k, py_norm v)) (sort_key fst (map (\<lambda>(k, v). (k, canon v)) d))) =
      sort_key fst (map (\<lambda>(k, v). (k, py_norm (canon v))) d)"
    by (simp only: sort_key_fst_map sort_key_id_if_sorted sorted_sort_key map_map)
      (simp add: comp_def split_def sort_key_map sort_key_id_if_sorted sorted_sort_key)
  ultimately show ?case by (simp only: canon.simps py_norm.simps)
qed auto

lemma canon_py_eq: "py_eq (JObj (canon_obj d)) (JObj d)"
  using py_norm_canon [of "JObj d"] by (simp add: py_eq_def canon_obj_def)

lemma py_eq_refl [simp]: "py_eq a a"
  by (simp add: py_eq_def)

section \<open>Strings\<close>

abbreviation dquote :: char where "dquote \<equiv> CHR 0x22"
abbreviation squote :: char where "squote \<equiv> CHR 0x27"

definition quoted :: "string \<Rightarrow> string" where
  "quoted s = squote # s @ [squote]"

definition starts_with :: "string \<Rightarrow> string \<Rightarrow> bool" where
  "starts_with p s \<longleftrightarrow> take (length p) s = p"

definition ends_with :: "string \<Rightarrow> string \<Rightarrow> bool" where
  "ends_with p s \<longleftrightarrow> starts_with (rev p) (rev s)"

definition removeprefix :: "string \<Rightarrow> string \<Rightarrow> string" where
  "removeprefix p s = (if starts_with p s then drop (length p) s else s)"

lemma starts_with_append [string_simps, simp]: "starts_with p (p @ s)"
  by (simp add: starts_with_def)

lemma starts_with_iff: "starts_with p s \<longleftrightarrow> (\<exists>r. s = p @ r)"
  by (metis append_eq_conv_conj append_take_drop_id starts_with_def)

lemma removeprefix_append [string_simps, simp]: "removeprefix p (p @ s) = s"
  by (simp add: removeprefix_def)

lemma removeprefix_starts: "starts_with p s \<Longrightarrow> p @ removeprefix p s = s"
  by (auto simp: starts_with_iff)

text \<open>\<open>s.split(c)\<close> for a one-character separator: never an empty list.\<close>

fun split_on :: "char \<Rightarrow> string \<Rightarrow> string list" where
  "split_on c [] = [[]]"
| "split_on c (x # s) =
     (if x = c then [] # split_on c s
      else (case split_on c s of [] \<Rightarrow> [[x]] | w # ws \<Rightarrow> (x # w) # ws))"

fun join_with :: "string \<Rightarrow> string list \<Rightarrow> string" where
  "join_with sep [] = []"
| "join_with sep [w] = w"
| "join_with sep (w # ws) = w @ sep @ join_with sep ws"

lemma split_on_nonempty [simp]: "split_on c s \<noteq> []"
  by (induction s) (auto split: list.splits)

lemma join_split_on: "join_with [c] (split_on c s) = s"
proof (induction s)
  case Nil
  then show ?case by simp
next
  case (Cons x s)
  then show ?case
    by (cases "split_on c s"; cases "tl (split_on c s)") auto
qed

lemma split_on_parts: "w \<in> set (split_on c s) \<Longrightarrow> c \<notin> set w"
proof (induction s arbitrary: w)
  case Nil
  then show ?case by simp
next
  case (Cons x s)
  then show ?case
    by (cases "split_on c s") (auto split: if_splits)
qed

lemma split_on_chars: "w \<in> set (split_on c s) \<Longrightarrow> set w \<subseteq> set s"
proof -
  have "\<forall>w\<in>set (split_on c s). set w \<subseteq> set s"
    by (induction s) (auto split: list.splits)
  then show "w \<in> set (split_on c s) \<Longrightarrow> set w \<subseteq> set s" by blast
qed

lemma split_on_no_sep: "c \<notin> set s \<Longrightarrow> split_on c s = [s]"
  by (induction s) auto

lemma split_on_append: "c \<notin> set a \<Longrightarrow> split_on c (a @ c # b) = a # split_on c b"
  by (induction a) auto

lemma split_join:
  assumes "ws \<noteq> []" and "\<forall>w\<in>set ws. c \<notin> set w"
  shows "split_on c (join_with [c] ws) = ws"
  using assms
proof (induction "[c]" ws rule: join_with.induct)
  case (3 w v vs)
  then show ?case by (simp add: split_on_append)
qed (auto simp: split_on_no_sep)

text \<open>
  \<open>str.splitlines()\<close>: the line boundaries of the code points below 256, which are all the characters of HOL. Python has
  two more, U+2028 and U+2029: no text of the model has them, so what is proved of lines says nothing about texts that do.
\<close>

abbreviation newline :: char where "newline \<equiv> CHR 10"

definition boundary :: "char \<Rightarrow> bool" where
  "boundary c \<longleftrightarrow> (let n = of_char c :: nat in (10 \<le> n \<and> n \<le> 13) \<or> (28 \<le> n \<and> n \<le> 30) \<or> n = 133)"

fun split_lines :: "string \<Rightarrow> string list" where
  "split_lines [] = []"
| "split_lines (c # s) =
     (if c = CHR 13 \<and> s \<noteq> [] \<and> hd s = newline then [] # split_lines (tl s)
      else if boundary c then [] # split_lines s
      else (case split_lines s of [] \<Rightarrow> [[c]] | w # ws \<Rightarrow> (c # w) # ws))"

text \<open>
  \<open>str.strip()\<close> and the class \<open>\s\<close> of \<open>re\<close>: the white space of the code points below 256.
\<close>

definition is_space :: "char \<Rightarrow> bool" where
  "is_space c \<longleftrightarrow> (let n = of_char c :: nat in (9 \<le> n \<and> n \<le> 13) \<or> (28 \<le> n \<and> n \<le> 32) \<or> n = 133 \<or> n = 160)"

definition lstrip :: "(char \<Rightarrow> bool) \<Rightarrow> string \<Rightarrow> string" where
  "lstrip p s = dropWhile p s"

definition rstrip :: "(char \<Rightarrow> bool) \<Rightarrow> string \<Rightarrow> string" where
  "rstrip p s = rev (dropWhile p (rev s))"

definition strip_chars :: "(char \<Rightarrow> bool) \<Rightarrow> string \<Rightarrow> string" where
  "strip_chars p s = rstrip p (lstrip p s)"

definition strip :: "string \<Rightarrow> string" where
  "strip s = strip_chars is_space s"

lemma rstrip_set: "set (rstrip p s) \<subseteq> set s"
  using set_dropWhileD by (fastforce simp: rstrip_def)

lemma lstrip_set: "set (lstrip p s) \<subseteq> set s"
  using set_dropWhileD by (fastforce simp: lstrip_def)

lemma strip_set: "set (strip s) \<subseteq> set s"
  using rstrip_set lstrip_set unfolding strip_def strip_chars_def by fastforce

lemma rstrip_prefix: "\<exists>t. s = rstrip p s @ t"
proof -
  have "rev s = takeWhile p (rev s) @ dropWhile p (rev s)" by simp
  then have "s = rstrip p s @ rev (takeWhile p (rev s))"
    by (metis rev_append rev_rev_ident rstrip_def)
  then show ?thesis by blast
qed

text \<open>The character classes of the regular expressions.\<close>

definition is_digit :: "char \<Rightarrow> bool" where
  "is_digit c \<longleftrightarrow> (let n = of_char c :: nat in 48 \<le> n \<and> n \<le> 57)"

definition is_upper :: "char \<Rightarrow> bool" where
  "is_upper c \<longleftrightarrow> (let n = of_char c :: nat in 65 \<le> n \<and> n \<le> 90)"

definition is_lower :: "char \<Rightarrow> bool" where
  "is_lower c \<longleftrightarrow> (let n = of_char c :: nat in 97 \<le> n \<and> n \<le> 122)"

definition is_hex :: "char \<Rightarrow> bool" where
  "is_hex c \<longleftrightarrow> is_digit c \<or> (let n = of_char c :: nat in 97 \<le> n \<and> n \<le> 102)"

definition is_word_dash :: "char \<Rightarrow> bool" where
  "is_word_dash c \<longleftrightarrow> is_digit c \<or> is_upper c \<or> is_lower c \<or> c = CHR ''_'' \<or> c = CHR ''-''"

text \<open>
  \<open>str.lower()\<close> on the code points below 256: the ASCII capitals and the Latin-1 capitals
  (\<open>0xC0\<close> to \<open>0xDE\<close> without the multiplication sign) move up by 32.
\<close>

definition lower_char :: "char \<Rightarrow> char" where
  "lower_char c = (let n = of_char c :: nat in
     if (65 \<le> n \<and> n \<le> 90) \<or> (192 \<le> n \<and> n \<le> 222 \<and> n \<noteq> 215) then char_of (n + 32) else c)"

definition lower :: "string \<Rightarrow> string" where
  "lower s = map lower_char s"

text \<open>\<open>re.fullmatch(prefix + "[a-f0-9]{32}", s)\<close> and \<open>re.fullmatch("[A-Za-z0-9_-]{1,128}", s)\<close>.\<close>

definition prefixed_hex :: "string \<Rightarrow> nat \<Rightarrow> string \<Rightarrow> bool" where
  "prefixed_hex p n s \<longleftrightarrow>
     starts_with p s \<and> length s = length p + n \<and> list_all is_hex (drop (length p) s)"

definition valid_message_id :: "string \<Rightarrow> bool" where
  "valid_message_id s \<longleftrightarrow> 1 \<le> length s \<and> length s \<le> 128 \<and> list_all is_word_dash s"

lemma valid_message_id_chars:
  "valid_message_id s \<Longrightarrow> c \<in> set s \<Longrightarrow> c \<noteq> CHR ''/'' \<and> c \<noteq> CHR ''.''"
  by (auto simp: valid_message_id_def is_word_dash_def is_digit_def is_upper_def is_lower_def
      list_all_iff)

text \<open>\<open>str(n)\<close> of an integer.\<close>

fun show_nat :: "nat \<Rightarrow> string" where
  "show_nat n = (if n < 10 then [char_of (48 + n)] else show_nat (n div 10) @ [char_of (48 + n mod 10)])"

declare show_nat.simps [simp del]

definition show_int :: "int \<Rightarrow> string" where
  "show_int i = (if i < 0 then CHR ''-'' # show_nat (nat (- i)) else show_nat (nat i))"

text \<open>\<open>int(s)\<close> of a string: white space, a sign, and digits with single underscores between them.\<close>

fun digits_value :: "int \<Rightarrow> bool \<Rightarrow> string \<Rightarrow> int option" where
  "digits_value v after_digit [] = (if after_digit then Some v else None)"
| "digits_value v after_digit (c # cs) =
     (if is_digit c then digits_value (10 * v + int (of_char c - 48)) True cs
      else if c = CHR ''_'' \<and> after_digit then digits_value v False cs
      else None)"

definition py_int :: "string \<Rightarrow> int option" where
  "py_int s =
     (case strip s of
        CHR ''-'' # cs \<Rightarrow> map_option uminus (digits_value 0 False cs)
      | CHR ''+'' # cs \<Rightarrow> digits_value 0 False cs
      | cs \<Rightarrow> digits_value 0 False cs)"

text \<open>\<open>list(dict.fromkeys(xs))\<close>: the first occurrence of every element, in order.\<close>

fun fromkeys_acc :: "'a list \<Rightarrow> 'a list \<Rightarrow> 'a list" where
  "fromkeys_acc seen [] = []"
| "fromkeys_acc seen (x # xs) =
     (if x \<in> set seen then fromkeys_acc seen xs else x # fromkeys_acc (x # seen) xs)"

definition fromkeys :: "'a list \<Rightarrow> 'a list" where
  "fromkeys xs = fromkeys_acc [] xs"

lemma set_fromkeys_acc: "set (fromkeys_acc seen xs) = set xs - set seen"
  by (induction seen xs rule: fromkeys_acc.induct) auto

lemma set_fromkeys [simp]: "set (fromkeys xs) = set xs"
  by (simp add: fromkeys_def set_fromkeys_acc)

lemma distinct_fromkeys_acc: "distinct (fromkeys_acc seen xs)"
  by (induction seen xs rule: fromkeys_acc.induct) (auto simp: set_fromkeys_acc)

lemma distinct_fromkeys [simp]: "distinct (fromkeys xs)"
  by (simp add: fromkeys_def distinct_fromkeys_acc)

section \<open>Tables: rows, selections and updates\<close>

text \<open>
  A table is the list of its rows in rowid order. \<open>select_one\<close> is a \<open>SELECT\<close> on a unique
  column followed by \<open>fetchone\<close>; \<open>update_rows\<close> is \<open>UPDATE .. WHERE p\<close>, whose row count is
  \<open>row_count\<close>; \<open>delete_rows\<close> is \<open>DELETE .. WHERE p\<close>.
\<close>

definition select_one :: "('r \<Rightarrow> bool) \<Rightarrow> 'r list \<Rightarrow> 'r option" where
  "select_one p rows = find p rows"

definition update_rows :: "('r \<Rightarrow> bool) \<Rightarrow> ('r \<Rightarrow> 'r) \<Rightarrow> 'r list \<Rightarrow> 'r list" where
  "update_rows p f rows = map (\<lambda>r. if p r then f r else r) rows"

definition row_count :: "('r \<Rightarrow> bool) \<Rightarrow> 'r list \<Rightarrow> nat" where
  "row_count p rows = length (filter p rows)"

definition delete_rows :: "('r \<Rightarrow> bool) \<Rightarrow> 'r list \<Rightarrow> 'r list" where
  "delete_rows p rows = filter (\<lambda>r. \<not> p r) rows"

lemma select_one_Some: "select_one p rows = Some r \<Longrightarrow> r \<in> set rows \<and> p r"
  by (auto simp: select_one_def find_Some_iff)

lemma select_one_None: "select_one p rows = None \<longleftrightarrow> (\<forall>r\<in>set rows. \<not> p r)"
  by (auto simp: select_one_def find_None_iff)

lemma select_one_append [table_simps]:
  "select_one p (rows @ more) = (case select_one p rows of None \<Rightarrow> select_one p more | Some r \<Rightarrow> Some r)"
  by (induction rows) (simp_all add: select_one_def)

lemma select_one_single [table_simps]: "select_one p [r] = (if p r then Some r else None)"
  by (simp add: select_one_def)

lemma select_one_key:
  assumes "distinct (map key rows)" and "r \<in> set rows"
  shows "select_one (\<lambda>x. key x = key r) rows = Some r"
  using assms by (induction rows) (auto simp: select_one_def)

lemma select_one_key_iff:
  assumes "distinct (map key rows)"
  shows "select_one (\<lambda>x. key x = k) rows = Some r \<longleftrightarrow> r \<in> set rows \<and> key r = k"
  using assms select_one_key[of key rows r] select_one_Some[of "\<lambda>x. key x = k" rows r] by auto

lemma map_update_rows:
  "(\<And>r. key (f r) = key r) \<Longrightarrow> map key (update_rows p f rows) = map key rows"
  by (simp add: update_rows_def)

lemma image_update_rows:
  "(\<And>r. key (f r) = key r) \<Longrightarrow> key ` set (update_rows p f rows) = key ` set rows"
  by (metis map_update_rows set_map)

lemma set_update_rows:
  "set (update_rows p f rows) = {r \<in> set rows. \<not> p r} \<union> f ` {r \<in> set rows. p r}"
  by (auto simp: update_rows_def)

lemma select_one_update_rows:
  assumes "\<And>r. key (f r) = key r"
  shows "select_one (\<lambda>x. key x = k) (update_rows p f rows) =
    map_option (\<lambda>r. if p r then f r else r) (select_one (\<lambda>x. key x = k) rows)"
  using assms by (induction rows) (auto simp: select_one_def update_rows_def)

lemma set_delete_rows: "set (delete_rows p rows) = {r \<in> set rows. \<not> p r}"
  by (auto simp: delete_rows_def)

lemma select_one_delete_rows:
  "x \<noteq> k \<Longrightarrow> select_one (\<lambda>r. key r = k) (delete_rows (\<lambda>r. key r = x) rows) = select_one (\<lambda>r. key r = k) rows"
  by (induction rows) (auto simp: select_one_def delete_rows_def)

lemma refs_delete_rows:
  "key ` set rows \<subseteq> pk ` set W \<Longrightarrow>
     key ` set (delete_rows (\<lambda>r. key r = x) rows) \<subseteq> pk ` set (delete_rows (\<lambda>w. pk w = x) W)"
  by (auto simp: set_delete_rows image_iff subset_iff)

lemma distinct_delete_rows: "distinct (map key rows) \<Longrightarrow> distinct (map key (delete_rows p rows))"
  by (simp add: delete_rows_def distinct_map_filter)

lemma row_count_key:
  assumes "distinct (map key rows)"
  shows "row_count (\<lambda>x. key x = k \<and> q x) rows =
    (case select_one (\<lambda>x. key x = k) rows of None \<Rightarrow> 0 | Some r \<Rightarrow> if q r then 1 else 0)"
  using assms
proof (induction rows)
  case (Cons a rows)
  show ?case
  proof (cases "key a = k")
    case True
    with Cons.prems have "filter (\<lambda>x. key x = k \<and> q x) rows = []"
      by (fastforce simp: filter_empty_conv image_iff)
    with True show ?thesis by (simp add: row_count_def select_one_def)
  next
    case False
    with Cons show ?thesis by (simp add: row_count_def select_one_def)
  qed
qed (simp add: row_count_def select_one_def)

lemma distinct_key_eq:
  "distinct (map key rows) \<Longrightarrow> x \<in> set rows \<Longrightarrow> y \<in> set rows \<Longrightarrow> key x = key y \<Longrightarrow> x = y"
  by (metis select_one_key option.inject)

lemma row_count_0: "row_count p rows = 0 \<longleftrightarrow> (\<forall>r\<in>set rows. \<not> p r)"
  by (auto simp: row_count_def filter_empty_conv)

end
