(* ===== verification/State.thy ===== *)
theory State
  imports Prelude
begin

text \<open>
  The control state of the Sandbox Manager, \<open>src/src/sandbox_manager/state.py\<close>: the five SQLite
  tables as lists of rows and one definition per method of \<open>StateStore\<close>.

  A method's body runs on the open database and returns the new database with its result, or the
  exception it raises; \<open>transaction\<close> adds the \<open>BEGIN IMMEDIATE\<close> .. \<open>COMMIT\<close>/\<open>ROLLBACK\<close> bracket,
  so an \<open>Inl\<close> leaves the database as it was. \<open>json.dumps\<close> followed by \<open>json.loads\<close> on the two JSON
  columns is \<open>canon_obj\<close>. The clock is an argument of every method.
\<close>

section \<open>Records\<close>

datatype ws_kind = Ephemeral | Recoverable

datatype ws_status =
    WsRunning | WsDetachedDirty | WsCheckpointing | WsDetachedClean | WsRemoteOnly
  | WsRestoring | WsDeleting | WsDeleted

datatype sb_status = SbStarting | SbRunning | SbFailed | SbTerminated

datatype op_status = OpPending | OpRunning | OpSucceeded | OpFailed

datatype op_phase = PhCapturing | PhCaptured | PhUploading

datatype op_name = Checkout | Publish | Checkpoint | Restore | Retire

fun ws_status_text :: "ws_status \<Rightarrow> string" where
  "ws_status_text WsRunning = ''running''"
| "ws_status_text WsDetachedDirty = ''detached_dirty''"
| "ws_status_text WsCheckpointing = ''checkpointing''"
| "ws_status_text WsDetachedClean = ''detached_clean''"
| "ws_status_text WsRemoteOnly = ''remote_only''"
| "ws_status_text WsRestoring = ''restoring''"
| "ws_status_text WsDeleting = ''deleting''"
| "ws_status_text WsDeleted = ''deleted''"

record workspace_row =
  ws_id :: string
  ws_kind :: ws_kind
  ws_status :: ws_status
  ws_volume :: string
  ws_generation :: int
  ws_head :: "string option"
  ws_active :: "string option"
  ws_created :: int
  ws_updated :: int
  ws_delete_after :: "int option"

record sandbox_row =
  sb_id :: string
  sb_workspace :: string
  sb_host :: string
  sb_container :: string
  sb_status :: sb_status
  sb_created :: int
  sb_expires :: "int option"

record operation_row =
  op_id :: string
  op_name :: op_name
  op_status :: op_status
  op_phase :: "op_phase option"
  op_workspace :: string
  op_sandbox :: "string option"
  op_key :: string
  op_input :: obj
  op_result :: "obj option"
  op_error :: "string option"
  op_created :: int
  op_updated :: int

record revision_row =
  rv_id :: string
  rv_workspace :: string
  rv_snapshot :: string
  rv_created :: int

record nonce_row =
  nc_nonce :: string
  nc_expires :: int
  nc_consumed :: int

record db =
  workspaces :: "workspace_row list"
  sandboxes :: "sandbox_row list"
  operations :: "operation_row list"
  revisions :: "revision_row list"
  nonces :: "nonce_row list"

definition empty_db :: db where
  "empty_db = \<lparr>workspaces = [], sandboxes = [], operations = [], revisions = [], nonces = []\<rparr>"

datatype state_error =
    StateNotFound string
  | StateConflict string
  | StateIntegrity
  | StateAssertion
  | StateNotStarted

section \<open>Connection and transactions\<close>

text \<open>\<open>None\<close> is a store that was not started or was closed.\<close>

type_synonym state_store = "db option"

definition store_startup :: "db \<Rightarrow> state_store \<Rightarrow> state_store" where
  "store_startup on_disk st = (case st of Some d \<Rightarrow> Some d | None \<Rightarrow> Some on_disk)"

definition store_close :: "state_store \<Rightarrow> state_store" where
  "store_close st = None"

definition transaction ::
    "state_store \<Rightarrow> (db \<Rightarrow> state_error + 'a \<times> db) \<Rightarrow> (state_error + 'a) \<times> state_store" where
  "transaction st body =
     (case st of
        None \<Rightarrow> (Inl StateNotStarted, None)
      | Some d \<Rightarrow> (case body d of Inl e \<Rightarrow> (Inl e, Some d) | Inr (a, d') \<Rightarrow> (Inr a, Some d')))"

section \<open>Workspaces\<close>

definition find_ws :: "string \<Rightarrow> db \<Rightarrow> workspace_row option" where
  "find_ws wid d = select_one (\<lambda>w. ws_id w = wid) (workspaces d)"

definition find_sb :: "string \<Rightarrow> db \<Rightarrow> sandbox_row option" where
  "find_sb sid d = select_one (\<lambda>s. sb_id s = sid) (sandboxes d)"

definition find_op :: "string \<Rightarrow> db \<Rightarrow> operation_row option" where
  "find_op oid d = select_one (\<lambda>r. op_id r = oid) (operations d)"

definition named :: "string \<Rightarrow> string \<Rightarrow> string \<Rightarrow> string" where
  "named what i rest = what @ '' '' @ quoted i @ rest"

definition new_workspace :: "string \<Rightarrow> ws_kind \<Rightarrow> string \<Rightarrow> int \<Rightarrow> workspace_row" where
  "new_workspace wid kind vol now =
     \<lparr>ws_id = wid, ws_kind = kind, ws_status = WsDetachedClean, ws_volume = vol,
      ws_generation = 0, ws_head = None, ws_active = None, ws_created = now, ws_updated = now,
      ws_delete_after = None\<rparr>"

definition create_workspace ::
    "db \<Rightarrow> string \<Rightarrow> ws_kind \<Rightarrow> string \<Rightarrow> int \<Rightarrow> state_error + workspace_row \<times> db" where
  "create_workspace d wid kind vol now =
     rbind
       (if find_ws wid d \<noteq> None then Inr d
        else if list_ex (\<lambda>w. ws_volume w = vol) (workspaces d) then Inl StateIntegrity
        else Inr (d\<lparr>workspaces := workspaces d @ [new_workspace wid kind vol now]\<rparr>))
       (\<lambda>d'. case find_ws wid d' of
          None \<Rightarrow> Inl StateAssertion
        | Some row \<Rightarrow>
            require (\<not> (ws_kind row \<noteq> kind \<or> ws_volume row \<noteq> vol))
              (StateConflict (named ''Workspace'' wid '' already exists''))
              (Inr (row, d')))"

definition get_workspace :: "db \<Rightarrow> string \<Rightarrow> state_error + workspace_row" where
  "get_workspace d wid =
     (case find_ws wid d of
        None \<Rightarrow> Inl (StateNotFound (named ''Workspace'' wid '' was not found''))
      | Some w \<Rightarrow> Inr w)"

definition new_sandbox ::
    "string \<Rightarrow> string \<Rightarrow> string \<Rightarrow> string \<Rightarrow> int \<Rightarrow> int \<Rightarrow> sandbox_row" where
  "new_sandbox sid wid host container created expires =
     \<lparr>sb_id = sid, sb_workspace = wid, sb_host = host, sb_container = container,
      sb_status = SbStarting, sb_created = created, sb_expires = Some expires\<rparr>"

definition claimed_row :: "string \<Rightarrow> int \<Rightarrow> workspace_row \<Rightarrow> workspace_row" where
  "claimed_row sid now w =
     w\<lparr>ws_status := WsRunning, ws_active := Some sid, ws_generation := ws_generation w + 1,
       ws_updated := now, ws_delete_after := None\<rparr>"

definition unmountable :: "ws_status list" where
  "unmountable = [WsCheckpointing, WsRestoring, WsDeleting, WsDeleted]"

definition claim_workspace ::
    "db \<Rightarrow> string \<Rightarrow> string \<Rightarrow> string \<Rightarrow> string \<Rightarrow> int \<Rightarrow> int
      \<Rightarrow> state_error + (workspace_row \<times> sandbox_row) \<times> db" where
  "claim_workspace d wid sid host container created expires =
     (case find_ws wid d of
        None \<Rightarrow> Inl (StateNotFound (named ''Workspace'' wid '' was not found''))
      | Some row \<Rightarrow>
          require (ws_active row = None \<or> ws_active row = Some sid)
            (StateConflict (named ''Workspace'' wid '' already has a writer''))
          (require (ws_status row \<notin> set unmountable)
            (StateConflict (named ''Workspace'' wid
               ('' is not mountable while '' @ ws_status_text (ws_status row))))
          (require (find_sb sid d = None) StateIntegrity
            (let d' = d\<lparr>sandboxes := sandboxes d @ [new_sandbox sid wid host container created expires],
                        workspaces := update_rows (\<lambda>w. ws_id w = wid) (claimed_row sid created)
                          (workspaces d)\<rparr>
             in (case (find_ws wid d', find_sb sid d') of
                   (Some w, Some s) \<Rightarrow> Inr ((w, s), d')
                 | _ \<Rightarrow> Inl StateAssertion)))))"

section \<open>Sandboxes\<close>

definition mark_sandbox_running :: "db \<Rightarrow> string \<Rightarrow> int \<Rightarrow> state_error + unit \<times> db" where
  "mark_sandbox_running d sid now =
     (let p = (\<lambda>s. sb_id s = sid \<and> sb_status s = SbStarting)
      in require (row_count p (sandboxes d) = 1)
           (StateConflict (named ''Sandbox'' sid '' is not starting''))
           (Inr ((), d\<lparr>sandboxes := update_rows p (\<lambda>s. s\<lparr>sb_status := SbRunning\<rparr>) (sandboxes d),
                       workspaces := update_rows (\<lambda>w. ws_active w = Some sid)
                         (\<lambda>w. w\<lparr>ws_updated := now\<rparr>) (workspaces d)\<rparr>)))"

definition get_sandbox :: "db \<Rightarrow> string \<Rightarrow> state_error + sandbox_row" where
  "get_sandbox d sid =
     (case find_sb sid d of
        None \<Rightarrow> Inl (StateNotFound (named ''Sandbox'' sid '' was not found''))
      | Some s \<Rightarrow> Inr s)"

definition sb_live :: "sandbox_row \<Rightarrow> bool" where
  "sb_live s \<longleftrightarrow> sb_status s \<in> {SbStarting, SbRunning}"

definition active_sandboxes :: "db \<Rightarrow> sandbox_row list" where
  "active_sandboxes d = filter sb_live (sandboxes d)"

definition renew_sandbox :: "db \<Rightarrow> string \<Rightarrow> int \<Rightarrow> state_error + sandbox_row \<times> db" where
  "renew_sandbox d sid expires =
     (let p = (\<lambda>s. sb_id s = sid \<and> sb_status s = SbRunning);
          d' = d\<lparr>sandboxes := update_rows p (\<lambda>s. s\<lparr>sb_expires := Some expires\<rparr>) (sandboxes d)\<rparr>
      in require (row_count p (sandboxes d) = 1)
           (StateConflict (named ''Sandbox'' sid '' is not running''))
           (case find_sb sid d' of None \<Rightarrow> Inl StateAssertion | Some s \<Rightarrow> Inr (s, d')))"

definition finish_sandbox ::
    "db \<Rightarrow> string \<Rightarrow> sb_status \<Rightarrow> ws_status \<Rightarrow> int \<Rightarrow> state_error + workspace_row \<times> db" where
  "finish_sandbox d sid status workspace_status now =
     (case find_sb sid d of
        None \<Rightarrow> Inl (StateNotFound (named ''Sandbox'' sid '' was not found''))
      | Some sandbox \<Rightarrow>
          (let d' = d\<lparr>sandboxes := update_rows (\<lambda>s. sb_id s = sid)
                        (\<lambda>s. s\<lparr>sb_status := status, sb_expires := None\<rparr>) (sandboxes d),
                      workspaces := update_rows
                        (\<lambda>w. ws_id w = sb_workspace sandbox \<and> ws_active w = Some sid)
                        (\<lambda>w. w\<lparr>ws_status := workspace_status, ws_active := None, ws_updated := now\<rparr>)
                        (workspaces d)\<rparr>
           in (case find_ws (sb_workspace sandbox) d' of
                 None \<Rightarrow> Inl StateAssertion
               | Some w \<Rightarrow> Inr (w, d'))))"

section \<open>Workspace deletion and transitions\<close>

definition delete_workspace :: "db \<Rightarrow> string \<Rightarrow> state_error + unit \<times> db" where
  "delete_workspace d wid =
     (case find_ws wid d of
        None \<Rightarrow> Inr ((), d)
      | Some row \<Rightarrow>
          require (ws_active row = None)
            (StateConflict (named ''Workspace'' wid '' still has a writer''))
            (Inr ((), d\<lparr>operations := delete_rows (\<lambda>r. op_workspace r = wid) (operations d),
                        revisions := delete_rows (\<lambda>r. rv_workspace r = wid) (revisions d),
                        sandboxes := delete_rows (\<lambda>s. sb_workspace s = wid) (sandboxes d),
                        workspaces := delete_rows (\<lambda>w. ws_id w = wid) (workspaces d)\<rparr>)))"

definition schedule_workspace_delete ::
    "db \<Rightarrow> string \<Rightarrow> int \<Rightarrow> int \<Rightarrow> state_error + workspace_row \<times> db" where
  "schedule_workspace_delete d wid delete_after now =
     (let p = (\<lambda>w. ws_id w = wid \<and> ws_kind w = Recoverable);
          d' = d\<lparr>workspaces := update_rows p
                 (\<lambda>w. w\<lparr>ws_delete_after := Some delete_after, ws_updated := now\<rparr>) (workspaces d)\<rparr>
      in require (row_count p (workspaces d) = 1)
           (StateNotFound (named ''Recoverable Workspace'' wid '' was not found''))
           (case find_ws wid d' of None \<Rightarrow> Inl StateAssertion | Some w \<Rightarrow> Inr (w, d')))"

definition transition_workspace ::
    "db \<Rightarrow> string \<Rightarrow> ws_status list \<Rightarrow> ws_status \<Rightarrow> int \<Rightarrow> state_error + workspace_row \<times> db" where
  "transition_workspace d wid expected status now =
     (case find_ws wid d of
        None \<Rightarrow> Inl (StateNotFound (named ''Workspace'' wid '' was not found''))
      | Some row \<Rightarrow>
          require (ws_status row \<in> set expected)
            (StateConflict (named ''Workspace'' wid ('' cannot transition from '' @
               ws_status_text (ws_status row) @ '' to '' @ ws_status_text status)))
          (require (\<not> (ws_active row \<noteq> None \<and> status \<noteq> WsRunning))
            (StateConflict (named ''Workspace'' wid '' still has a writer''))
            (let d' = d\<lparr>workspaces := update_rows (\<lambda>w. ws_id w = wid)
                         (\<lambda>w. w\<lparr>ws_status := status, ws_updated := now\<rparr>) (workspaces d)\<rparr>
             in (case find_ws wid d' of None \<Rightarrow> Inl StateAssertion | Some w \<Rightarrow> Inr (w, d')))))"

definition commit_revision ::
    "db \<Rightarrow> string \<Rightarrow> string \<Rightarrow> string \<Rightarrow> int \<Rightarrow> obj \<Rightarrow> int
      \<Rightarrow> state_error + (workspace_row \<times> operation_row) \<times> db" where
  "commit_revision d wid oid rid generation result now =
     (case find_ws wid d of
        None \<Rightarrow> Inl (StateNotFound (named ''Workspace'' wid '' was not found''))
      | Some w \<Rightarrow>
          require (\<not> (ws_status w \<noteq> WsCheckpointing \<or> ws_active w \<noteq> None \<or> ws_generation w \<noteq> generation))
            (StateConflict (named ''Workspace'' wid '' changed during checkpoint''))
          (rbind
            (if list_ex (\<lambda>r. rv_workspace r = wid \<and> rv_snapshot r = rid) (revisions d)
             then Inr (revisions d)
             else if list_ex (\<lambda>r. rv_id r = rid) (revisions d) then Inl StateIntegrity
             else Inr (revisions d @
               [\<lparr>rv_id = rid, rv_workspace = wid, rv_snapshot = rid, rv_created = now\<rparr>]))
            (\<lambda>revs.
              let d' = d\<lparr>revisions := revs,
                         workspaces := update_rows (\<lambda>w. ws_id w = wid)
                           (\<lambda>w. w\<lparr>ws_head := Some rid, ws_status := WsDetachedClean, ws_updated := now\<rparr>)
                           (workspaces d),
                         operations := update_rows (\<lambda>r. op_id r = oid)
                           (\<lambda>r. r\<lparr>op_status := OpSucceeded, op_result := Some (canon_obj result),
                                  op_error := None, op_updated := now\<rparr>)
                           (operations d)\<rparr>
              in (case (find_ws wid d', find_op oid d') of
                    (Some w', Some r') \<Rightarrow> Inr ((w', r'), d')
                  | _ \<Rightarrow> Inl StateAssertion))))"

section \<open>Selections\<close>

definition op_open :: "operation_row \<Rightarrow> bool" where
  "op_open r \<longleftrightarrow> op_status r \<in> {OpPending, OpRunning}"

definition cleanup_candidates :: "db \<Rightarrow> int \<Rightarrow> workspace_row list" where
  "cleanup_candidates d updated_before =
     filter (\<lambda>w. ws_kind w = Recoverable \<and> ws_status w = WsDetachedClean \<and> ws_head w \<noteq> None
        \<and> ws_active w = None \<and> ws_updated w \<le> updated_before
        \<and> \<not> list_ex (\<lambda>r. op_workspace r = ws_id w \<and> op_open r) (operations d))
       (workspaces d)"

definition retire_candidates :: "db \<Rightarrow> int \<Rightarrow> workspace_row list" where
  "retire_candidates d now =
     filter (\<lambda>w. ws_kind w = Recoverable
        \<and> ws_status w \<in> {WsDetachedClean, WsRemoteOnly, WsDeleting} \<and> ws_active w = None
        \<and> (case ws_delete_after w of None \<Rightarrow> False | Some t \<Rightarrow> t \<le> now)
        \<and> \<not> list_ex (\<lambda>r. op_workspace r = ws_id w \<and> op_open r) (operations d))
       (workspaces d)"

definition workspaces_with_status :: "db \<Rightarrow> ws_status list \<Rightarrow> workspace_row list" where
  "workspaces_with_status d statuses = filter (\<lambda>w. ws_status w \<in> set statuses) (workspaces d)"

definition incomplete_operations :: "db \<Rightarrow> operation_row list" where
  "incomplete_operations d = filter op_open (operations d)"

section \<open>Nonces\<close>

definition consume_nonce :: "db \<Rightarrow> string \<Rightarrow> int \<Rightarrow> int \<Rightarrow> db \<times> bool" where
  "consume_nonce d nonce expires now =
     (let kept = delete_rows (\<lambda>r. nc_expires r \<le> now) (nonces d)
      in if list_ex (\<lambda>r. nc_nonce r = nonce) kept then (d\<lparr>nonces := kept\<rparr>, False)
         else (d\<lparr>nonces := kept @ [\<lparr>nc_nonce = nonce, nc_expires = expires, nc_consumed = now\<rparr>]\<rparr>,
               True))"

section \<open>Operations\<close>

definition new_operation ::
    "string \<Rightarrow> op_name \<Rightarrow> string \<Rightarrow> string option \<Rightarrow> string \<Rightarrow> obj \<Rightarrow> int \<Rightarrow> operation_row" where
  "new_operation oid name wid sid key input now =
     \<lparr>op_id = oid, op_name = name, op_status = OpPending, op_phase = None, op_workspace = wid,
      op_sandbox = sid, op_key = key, op_input = canon_obj input, op_result = None,
      op_error = None, op_created = now, op_updated = now\<rparr>"

definition create_operation ::
    "db \<Rightarrow> string \<Rightarrow> op_name \<Rightarrow> string \<Rightarrow> string option \<Rightarrow> string \<Rightarrow> obj \<Rightarrow> int
      \<Rightarrow> state_error + (operation_row \<times> bool) \<times> db" where
  "create_operation d oid name wid sid key input now =
     (case select_one (\<lambda>r. op_key r = key) (operations d) of
        Some existing \<Rightarrow> Inr ((existing, False), d)
      | None \<Rightarrow>
          require (find_op oid d = None \<and> find_ws wid d \<noteq> None) StateIntegrity
            (let d' = d\<lparr>operations := operations d @ [new_operation oid name wid sid key input now]\<rparr>
             in (case find_op oid d' of
                   None \<Rightarrow> Inl StateAssertion
                 | Some r \<Rightarrow> Inr ((r, True), d'))))"

definition get_operation :: "db \<Rightarrow> string \<Rightarrow> state_error + operation_row" where
  "get_operation d oid =
     (case find_op oid d of
        None \<Rightarrow> Inl (StateNotFound (named ''Operation'' oid '' was not found''))
      | Some r \<Rightarrow> Inr r)"

definition set_operation ::
    "op_status \<Rightarrow> op_phase option \<Rightarrow> obj option \<Rightarrow> string option \<Rightarrow> int
      \<Rightarrow> operation_row \<Rightarrow> operation_row" where
  "set_operation status phase result err now r =
     r\<lparr>op_status := status, op_phase := phase, op_result := map_option canon_obj result,
       op_error := err, op_updated := now\<rparr>"

definition update_operation ::
    "db \<Rightarrow> string \<Rightarrow> op_status \<Rightarrow> op_phase option \<Rightarrow> obj option \<Rightarrow> string option \<Rightarrow> int
      \<Rightarrow> state_error + operation_row \<times> db" where
  "update_operation d oid status phase result err now =
     (let d' = d\<lparr>operations := update_rows (\<lambda>r. op_id r = oid)
                 (set_operation status phase result err now) (operations d)\<rparr>
      in require (row_count (\<lambda>r. op_id r = oid) (operations d) = 1)
           (StateNotFound (named ''Operation'' oid '' was not found''))
           (case find_op oid d' of None \<Rightarrow> Inl StateAssertion | Some r \<Rightarrow> Inr (r, d')))"

end
