(* ===== verification/Codec.thy ===== *)
theory Codec
  imports Prelude "HOL-Library.Word"
begin

text \<open>
  The byte-level encodings of \<open>src/src/sandbox_api/grants.py\<close>: UTF-8 of the code points below
  256, and the unpadded URL-safe base64 of \<open>_encode\<close> and \<open>_decode\<close>. Decoding follows
  \<open>binascii.a2b_base64\<close> in its default, non-strict mode: characters outside the alphabet are
  skipped, a completed padding ends the input, and an incomplete quad is an error.
\<close>

type_synonym bytes = "8 word list"

section \<open>The interface of a codec\<close>

text \<open>
  What a client of an encoding relies on: whatever was encoded decodes to itself, so no two
  values share an encoding.
\<close>

locale codec =
  fixes enc :: "'a \<Rightarrow> 'b"
    and dec :: "'b \<Rightarrow> 'a option"
  assumes dec_enc: "dec (enc x) = Some x"
begin

lemma enc_inject: "enc x = enc y \<longleftrightarrow> x = y"
  using dec_enc by (metis option.inject)

lemma enc_injective: "inj enc"
  by (simp add: inj_on_def enc_inject)

lemma dec_total_on_range: "b \<in> range enc \<Longrightarrow> \<exists>x. dec b = Some x \<and> enc x = b"
  using dec_enc by auto

end

section \<open>UTF-8\<close>

definition utf8_char :: "char \<Rightarrow> bytes" where
  "utf8_char c = (let n = of_char c :: nat in
     if n < 128 then [word_of_nat n]
     else [word_of_nat (192 + n div 64), word_of_nat (128 + n mod 64)])"

definition utf8 :: "string \<Rightarrow> bytes" where
  "utf8 s = concat (map utf8_char s)"

section \<open>Base64\<close>

text \<open>The URL-safe alphabet, as the character of a sextet and the sextet of a character.\<close>

definition b64_char :: "nat \<Rightarrow> char" where
  "b64_char n = char_of
     (if n < 26 then 65 + n
      else if n < 52 then 71 + n
      else if n < 62 then n - 4
      else if n = 62 then 45 else 95)"

text \<open>
  \<open>urlsafe_b64decode\<close> translates \<open>-_\<close> to \<open>+/\<close> before it decodes, so it accepts both spellings.
\<close>

definition b64_value :: "char \<Rightarrow> nat option" where
  "b64_value c = (let n = of_char c :: nat in
     if 65 \<le> n \<and> n \<le> 90 then Some (n - 65)
     else if 97 \<le> n \<and> n \<le> 122 then Some (n - 71)
     else if 48 \<le> n \<and> n \<le> 57 then Some (n + 4)
     else if n = 45 \<or> n = 43 then Some 62
     else if n = 95 \<or> n = 47 then Some 63
     else None)"

text \<open>\<open>_encode\<close>: base64 without the trailing padding.\<close>

fun b64_encode :: "bytes \<Rightarrow> string" where
  "b64_encode [] = []"
| "b64_encode [a] =
     [b64_char (unat a div 4), b64_char (unat a mod 4 * 16)]"
| "b64_encode [a, b] =
     [b64_char (unat a div 4), b64_char (unat a mod 4 * 16 + unat b div 16),
      b64_char (unat b mod 16 * 4)]"
| "b64_encode (a # b # c # r) =
     b64_char (unat a div 4) # b64_char (unat a mod 4 * 16 + unat b div 16) #
     b64_char (unat b mod 16 * 4 + unat c div 64) # b64_char (unat c mod 64) # b64_encode r"

text \<open>
  The scan of \<open>a2b_base64\<close>: position in the quad, the bits left over from the last character
  and the number of padding characters in a row. \<open>None\<close> is \<open>binascii.Error\<close>.
\<close>

fun a2b :: "nat \<Rightarrow> nat \<Rightarrow> nat \<Rightarrow> string \<Rightarrow> bytes option" where
  "a2b quad left pads [] = (if quad = 0 then Some [] else None)"
| "a2b quad left pads (c # s) =
     (if c = CHR ''='' then
        (if 2 \<le> quad \<and> 4 \<le> quad + (pads + 1) then Some []
         else a2b quad left (if 2 \<le> quad then pads + 1 else pads) s)
      else (case b64_value c of
        None \<Rightarrow> a2b quad left pads s
      | Some v \<Rightarrow>
          (if quad = 0 then a2b 1 v 0 s
           else if quad = 1 then map_option ((#) (word_of_nat (left * 4 + v div 16))) (a2b 2 (v mod 16) 0 s)
           else if quad = 2 then map_option ((#) (word_of_nat (left * 16 + v div 4))) (a2b 3 (v mod 4) 0 s)
           else map_option ((#) (word_of_nat (left * 64 + v))) (a2b 0 0 0 s))))"

text \<open>
  \<open>_decode\<close> pads the text to a multiple of four. A character outside ASCII is a \<open>ValueError\<close>.
\<close>

definition b64_padding :: "string \<Rightarrow> string" where
  "b64_padding s = replicate ((4 - length s mod 4) mod 4) (CHR ''='')"

definition b64_decode :: "string \<Rightarrow> bytes option" where
  "b64_decode s =
     (if list_all (\<lambda>c. (of_char c :: nat) < 128) s then a2b 0 0 0 (s @ b64_padding s) else None)"

lemma b64_value_char: "n < 64 \<Longrightarrow> b64_value (b64_char n) = Some n"
  by (auto simp: b64_value_def b64_char_def Let_def)

lemma b64_char_not_pad: "n < 64 \<Longrightarrow> b64_char n \<noteq> CHR ''=''"
  using b64_value_char[of n] by (auto simp: b64_value_def Let_def)

lemma b64_char_ascii: "n < 64 \<Longrightarrow> (of_char (b64_char n) :: nat) < 128"
  by (auto simp: b64_char_def)

lemma b64_char_no_dot: "n < 64 \<Longrightarrow> b64_char n \<noteq> CHR ''.''"
  using b64_value_char[of n] by (auto simp: b64_value_def Let_def)

lemma unat_byte: "unat (b :: 8 word) < 256"
  using unsigned_less [of b] by simp

lemma quad_split:
  fixes x y :: nat
  shows "y < 16 \<Longrightarrow> (x * 16 + y) div 16 = x" and "y < 16 \<Longrightarrow> (x * 16 + y) mod 16 = y"
    and "y < 4 \<Longrightarrow> (x * 4 + y) div 4 = x" and "y < 4 \<Longrightarrow> (x * 4 + y) mod 4 = y"
  by simp_all

lemma byte_parts:
  fixes a :: "8 word"
  shows "unat a div 4 < 64" "unat a div 16 < 16" "unat a div 64 < 4"
  using unat_byte [of a] by (simp_all add: less_mult_imp_div_less)

lemma sextet_bounds [simp]:
  fixes a b c :: "8 word"
  shows "unat a div 4 < 64" and "unat a mod 4 * 16 < 64"
    and "unat a mod 4 * 16 + unat b div 16 < 64"
    and "unat b mod 16 * 4 < 64" and "unat b mod 16 * 4 + unat c div 64 < 64"
    and "unat c mod 64 < 64"
proof -
  have r: "unat a mod 4 < 4" "unat b mod 16 < 16" by simp_all
  note p = byte_parts [of a] byte_parts [of b] byte_parts [of c] r
  show "unat a div 4 < 64" by (rule p)
  show "unat a mod 4 * 16 < 64" using p by linarith
  show "unat a mod 4 * 16 + unat b div 16 < 64" using p by linarith
  show "unat b mod 16 * 4 < 64" using p by linarith
  show "unat b mod 16 * 4 + unat c div 64 < 64" using p by linarith
  show "unat c mod 64 < 64" by simp
qed

lemma sextets_rejoin:
  fixes a b c :: "8 word"
  shows "word_of_nat (unat a div 4 * 4 + (unat a mod 4 * 16 + unat b div 16) div 16) = a"
    and "word_of_nat (unat a div 4 * 4 + (unat a mod 4 * 16) div 16) = a"
    and "word_of_nat ((unat a mod 4 * 16 + unat b div 16) mod 16 * 16
      + (unat b mod 16 * 4 + unat c div 64) div 4) = b"
    and "word_of_nat ((unat a mod 4 * 16 + unat b div 16) mod 16 * 16 + (unat b mod 16 * 4) div 4) = b"
    and "word_of_nat ((unat b mod 16 * 4 + unat c div 64) mod 4 * 64 + unat c mod 64) = c"
  using byte_parts [of b] byte_parts [of c]
  by (simp_all add: quad_split del: of_nat_add of_nat_mult)

lemma a2b_char:
  assumes "n < 64"
  shows "a2b 0 left pads (b64_char n # s) = a2b 1 n 0 s"
    and "a2b 1 left pads (b64_char n # s) =
      map_option ((#) (word_of_nat (left * 4 + n div 16))) (a2b 2 (n mod 16) 0 s)"
    and "a2b 2 left pads (b64_char n # s) =
      map_option ((#) (word_of_nat (left * 16 + n div 4))) (a2b 3 (n mod 4) 0 s)"
    and "a2b 3 left pads (b64_char n # s) =
      map_option ((#) (word_of_nat (left * 64 + n))) (a2b 0 0 0 s)"
  using assms by (simp_all add: b64_value_char b64_char_not_pad)

lemma b64_padding_Cons4:
  "b64_padding (a # b # c # d # s) = b64_padding s"
  by (simp add: b64_padding_def mod_Suc)

lemma b64_padding_2: "length s = 2 \<Longrightarrow> b64_padding s = [CHR ''='', CHR ''='']"
  and b64_padding_3: "length s = 3 \<Longrightarrow> b64_padding s = [CHR ''='']"
  by (simp_all add: b64_padding_def numeral_2_eq_2)

lemma a2b_pad1: "a2b 3 left 0 [CHR ''=''] = Some []"
  and a2b_pad2: "a2b 2 left 0 [CHR ''='', CHR ''=''] = Some []"
  by simp_all

lemmas a2b_quad = b64_encode.simps append.simps a2b_char [OF sextet_bounds(1)]
  a2b_char [OF sextet_bounds(2)] a2b_char [OF sextet_bounds(3)] a2b_char [OF sextet_bounds(4)]
  a2b_char [OF sextet_bounds(5)] a2b_char [OF sextet_bounds(6)] a2b_pad1 a2b_pad2
  sextets_rejoin option.map

lemma a2b_encode: "a2b 0 0 0 (b64_encode bs @ b64_padding (b64_encode bs)) = Some bs"
proof (induction bs rule: b64_encode.induct)
  case 1
  then show ?case by (simp add: b64_padding_def)
next
  case (2 a)
  have "b64_padding (b64_encode [a]) = [CHR ''='', CHR ''='']"
    by (simp add: b64_padding_2)
  then show ?case by (simp only: a2b_quad)
next
  case (3 a b)
  have "b64_padding (b64_encode [a, b]) = [CHR ''='']"
    by (simp add: b64_padding_3)
  then show ?case by (simp only: a2b_quad)
next
  case (4 a b c r)
  then show ?case by (simp only: a2b_quad b64_padding_Cons4)
qed

lemma b64_encode_ascii: "list_all (\<lambda>c. (of_char c :: nat) < 128) (b64_encode bs)"
  by (induction bs rule: b64_encode.induct) (simp_all add: b64_char_ascii)

lemma b64_roundtrip: "b64_decode (b64_encode bs) = Some bs"
  by (simp add: b64_decode_def b64_encode_ascii a2b_encode)

lemma b64_encode_no_dot: "CHR ''.'' \<notin> set (b64_encode bs)"
  by (induction bs rule: b64_encode.induct) (simp_all add: b64_char_no_dot [symmetric])

interpretation b64: codec b64_encode b64_decode
  by unfold_locales (rule b64_roundtrip)

end
