(* ===== verification/Grants.thy ===== *)
theory Grants
  imports Codec
begin

text \<open>
  Signed operation grants, \<open>src/src/sandbox_api/grants.py\<close>, and the contract of the tables of
  consumed nonces that make a grant single use.

  HMAC-SHA256 and the JSON codec of the standard library are the parameter \<open>grant_env\<close> of the
  model. \<open>json_dumps\<close> stands for \<open>json.dumps(v, sort_keys=True, separators=(",", ":"))\<close> and
  \<open>json_loads\<close> for \<open>json.loads\<close> on bytes, \<open>None\<close> where it raises. The clock is an argument.
\<close>

record grant_env =
  hmac_sha256 :: "bytes \<Rightarrow> bytes \<Rightarrow> bytes"
  json_dumps :: "json \<Rightarrow> string"
  json_loads :: "bytes \<Rightarrow> json option"

datatype grant_error =
    InvalidGrant
  | InvalidGrantSignature
  | InvalidGrantPayload
  | GrantTimestampsRequired
  | GrantExpiredOrNotActive
  | GrantLifetimeInvalid
  | GrantAudienceMismatch
  | GrantOperationMismatch
  | GrantIdentityInvalid

fun grant_error_message :: "grant_error \<Rightarrow> string" where
  "grant_error_message InvalidGrant = ''invalid grant''"
| "grant_error_message InvalidGrantSignature = ''invalid grant signature''"
| "grant_error_message InvalidGrantPayload = ''invalid grant payload''"
| "grant_error_message GrantTimestampsRequired = ''grant timestamps are required''"
| "grant_error_message GrantExpiredOrNotActive = ''grant is expired or not active''"
| "grant_error_message GrantLifetimeInvalid = ''grant lifetime is invalid''"
| "grant_error_message GrantAudienceMismatch = ''grant audience does not match''"
| "grant_error_message GrantOperationMismatch = ''grant operation does not match''"
| "grant_error_message GrantIdentityInvalid = ''grant identity is invalid''"

section \<open>Issuing\<close>

text \<open>
  The payload of \<open>issue_grant\<close>: \<open>nonce\<close> is the given one or the fresh \<open>uuid4\<close> of the call,
  and the extra claims are merged last, so they may override the fixed ones.
\<close>

definition grant_payload ::
    "string \<Rightarrow> string \<Rightarrow> string \<Rightarrow> int \<Rightarrow> int \<Rightarrow> string \<Rightarrow> obj \<Rightarrow> obj" where
  "grant_payload issuer audience operation expires_in now nonce claims =
     jmerge
       [(''iss'', JStr issuer), (''aud'', JStr audience), (''operation'', JStr operation),
        (''iat'', JInt now), (''exp'', JInt (now + expires_in)), (''nonce'', JStr nonce)]
       claims"

definition grant_signature :: "grant_env \<Rightarrow> string \<Rightarrow> string \<Rightarrow> bytes" where
  "grant_signature E secret encoded = hmac_sha256 E (utf8 secret) (utf8 encoded)"

definition sign_payload :: "grant_env \<Rightarrow> string \<Rightarrow> obj \<Rightarrow> string" where
  "sign_payload E secret payload =
     (let encoded = b64_encode (utf8 (json_dumps E (JObj payload)))
      in encoded @ ''.'' @ b64_encode (grant_signature E secret encoded))"

definition issue_grant ::
    "grant_env \<Rightarrow> string \<Rightarrow> string \<Rightarrow> string \<Rightarrow> string \<Rightarrow> int \<Rightarrow> int \<Rightarrow> string \<Rightarrow> obj \<Rightarrow> string" where
  "issue_grant E secret issuer audience operation expires_in now nonce claims =
     sign_payload E secret (grant_payload issuer audience operation expires_in now nonce claims)"

section \<open>Verification\<close>

text \<open>\<open>token.split(".", 1)\<close>, which cannot be unpacked when there is no dot.\<close>

definition split_token :: "string \<Rightarrow> (string \<times> string) option" where
  "split_token token =
     (case dropWhile (\<lambda>c. c \<noteq> CHR ''.'') token of
        [] \<Rightarrow> None
      | _ # rest \<Rightarrow> Some (takeWhile (\<lambda>c. c \<noteq> CHR ''.'') token, rest))"

definition check_claims ::
    "obj \<Rightarrow> string \<Rightarrow> string option \<Rightarrow> int \<Rightarrow> int \<Rightarrow> grant_error + obj" where
  "check_claims payload audience operation now max_lifetime =
     (case (as_pyint (jget payload ''iat''), as_pyint (jget payload ''exp'')) of
        (Some issued_at, Some expires_at) \<Rightarrow>
          require (\<not> (issued_at > now + 30 \<or> expires_at \<le> now)) GrantExpiredOrNotActive
          (require (\<not> (expires_at - issued_at \<le> 0 \<or> expires_at - issued_at > max_lifetime))
             GrantLifetimeInvalid
          (require (jget payload ''aud'' = JStr audience) GrantAudienceMismatch
          (require (case operation of None \<Rightarrow> True | Some op \<Rightarrow> jget payload ''operation'' = JStr op)
             GrantOperationMismatch
          (require (as_str (jget payload ''iss'') \<noteq> None
              \<and> (case as_str (jget payload ''nonce'') of None \<Rightarrow> False | Some n \<Rightarrow> n \<noteq> []))
             GrantIdentityInvalid
             (Inr payload)))))
      | _ \<Rightarrow> Inl GrantTimestampsRequired)"

definition verify_grant ::
    "grant_env \<Rightarrow> string \<Rightarrow> string \<Rightarrow> string \<Rightarrow> string option \<Rightarrow> int \<Rightarrow> int \<Rightarrow> grant_error + obj" where
  "verify_grant E token secret audience operation now max_lifetime =
     require (\<not> (token = [] \<or> length token > 64 * 1024)) InvalidGrant
       (case split_token token of
          None \<Rightarrow> Inl InvalidGrant
        | Some (encoded, supplied) \<Rightarrow>
            (case b64_decode supplied of
               None \<Rightarrow> Inl InvalidGrant
             | Some signature \<Rightarrow>
                 require (signature = grant_signature E secret encoded) InvalidGrantSignature
                   (case b64_decode encoded of
                      None \<Rightarrow> Inl InvalidGrantPayload
                    | Some raw \<Rightarrow>
                        (case json_loads E raw of
                           None \<Rightarrow> Inl InvalidGrantPayload
                         | Some v \<Rightarrow>
                             (case as_obj v of
                                None \<Rightarrow> Inl InvalidGrantPayload
                              | Some payload \<Rightarrow>
                                  check_claims payload audience operation now max_lifetime)))))"

section \<open>What a verified grant guarantees\<close>

lemma dot_split:
  "CHR ''.'' \<notin> set a \<Longrightarrow> dropWhile (\<lambda>c. c \<noteq> CHR ''.'') (a @ CHR ''.'' # b) = CHR ''.'' # b"
  "CHR ''.'' \<notin> set a \<Longrightarrow> takeWhile (\<lambda>c. c \<noteq> CHR ''.'') (a @ CHR ''.'' # b) = a"
  by (induction a) auto

lemma split_token_append:
  "CHR ''.'' \<notin> set a \<Longrightarrow> split_token (a @ ''.'' @ b) = Some (a, b)"
  by (simp add: split_token_def dot_split)

lemma check_claims_Inr:
  "check_claims payload audience operation now max_lifetime = Inr p \<longleftrightarrow>
     p = payload \<and>
     (\<exists>iat exp. as_pyint (jget payload ''iat'') = Some iat \<and> as_pyint (jget payload ''exp'') = Some exp \<and>
        iat \<le> now + 30 \<and> now < exp \<and> 0 < exp - iat \<and> exp - iat \<le> max_lifetime) \<and>
     jget payload ''aud'' = JStr audience \<and>
     (\<forall>op. operation = Some op \<longrightarrow> jget payload ''operation'' = JStr op) \<and>
     (\<exists>iss. jget payload ''iss'' = JStr iss) \<and>
     (\<exists>n. jget payload ''nonce'' = JStr n \<and> n \<noteq> [])"
  unfolding check_claims_def
  by (cases "as_pyint (jget payload ''iat'')"; cases "as_pyint (jget payload ''exp'')";
      cases "as_str (jget payload ''nonce'')"; cases operation)
    (auto simp: result_iffs not_None_eq linorder_not_less linorder_not_le)

lemma verify_grant_Inr:
  "verify_grant E token secret audience operation now max_lifetime = Inr p \<longleftrightarrow>
     token \<noteq> [] \<and> length token \<le> 64 * 1024 \<and>
     (\<exists>encoded supplied raw.
        split_token token = Some (encoded, supplied) \<and>
        b64_decode supplied = Some (grant_signature E secret encoded) \<and>
        b64_decode encoded = Some raw \<and> json_loads E raw = Some (JObj p) \<and>
        check_claims p audience operation now max_lifetime = Inr p)"
  by (auto simp: verify_grant_def result_iffs check_claims_Inr split: option.splits prod.splits)

text \<open>
  A token that one secret signed verifies exactly when its payload passes the checks, whatever
  the payload: the envelope adds nothing but the size limit.
\<close>

lemma verify_sign_payload:
  assumes "json_loads E (utf8 (json_dumps E (JObj payload))) = Some (JObj payload')"
    and "length (sign_payload E secret payload) \<le> 64 * 1024"
  shows "verify_grant E (sign_payload E secret payload) secret audience operation now max_lifetime =
    check_claims payload' audience operation now max_lifetime"
proof -
  let ?encoded = "b64_encode (utf8 (json_dumps E (JObj payload)))"
  have "split_token (sign_payload E secret payload) =
      Some (?encoded, b64_encode (grant_signature E secret ?encoded))"
    unfolding sign_payload_def Let_def by (rule split_token_append [OF b64_encode_no_dot])
  moreover have "sign_payload E secret payload \<noteq> []"
    by (simp add: sign_payload_def Let_def)
  ultimately show ?thesis
    using assms by (simp add: verify_grant_def b64_roundtrip)
qed

text \<open>Where the extra claims leave the fixed ones alone, the payload carries them.\<close>

abbreviation reserved_claims :: "string set" where
  "reserved_claims \<equiv> {''iss'', ''aud'', ''operation'', ''iat'', ''exp'', ''nonce''}"

lemma grant_payload_fixed:
  assumes "reserved_claims \<inter> set (map fst claims) = {}"
  shows "jget (grant_payload i a op ttl now n claims) ''iss'' = JStr i"
    and "jget (grant_payload i a op ttl now n claims) ''aud'' = JStr a"
    and "jget (grant_payload i a op ttl now n claims) ''operation'' = JStr op"
    and "jget (grant_payload i a op ttl now n claims) ''iat'' = JInt now"
    and "jget (grant_payload i a op ttl now n claims) ''exp'' = JInt (now + ttl)"
    and "jget (grant_payload i a op ttl now n claims) ''nonce'' = JStr n"
  using assms by (simp_all add: grant_payload_def jget_jmerge_notin)

lemma distinct_grant_payload: "distinct (map fst (grant_payload i a op ttl now n claims))"
  by (simp add: grant_payload_def distinct_jmerge)

lemma check_issued_claims:
  assumes "reserved_claims \<inter> set (map fst claims) = {}"
    and "0 < ttl" and "ttl \<le> max_lifetime" and "now \<le> t + 30" and "t < now + ttl"
    and "n \<noteq> []" and "operation = None \<or> operation = Some op"
  shows "check_claims (canon_obj (grant_payload i a op ttl now n claims)) a operation t max_lifetime =
    Inr (canon_obj (grant_payload i a op ttl now n claims))"
  using assms
  by (auto simp: check_claims_Inr jget_canon_obj [OF distinct_grant_payload] grant_payload_fixed)

section \<open>Nonce ledgers\<close>

text \<open>
  Every verifier that makes grants single use keeps a table of consumed nonces. The interface:
  \<open>consume s n e now\<close> tries to record nonce \<open>n\<close> with expiry \<open>e\<close> at time \<open>now\<close>, and \<open>live s n t\<close>
  says that the ledger still holds \<open>n\<close> for a clock that reads \<open>t\<close>.
\<close>

fun run_ledger ::
    "('s \<Rightarrow> string \<Rightarrow> int \<Rightarrow> int \<Rightarrow> 's \<times> bool) \<Rightarrow> 's \<Rightarrow> (string \<times> int \<times> int) list \<Rightarrow> bool list" where
  "run_ledger consume s [] = []"
| "run_ledger consume s ((n, e, now) # calls) =
     snd (consume s n e now) # run_ledger consume (fst (consume s n e now)) calls"

fun clock_ok :: "int \<Rightarrow> (string \<times> int \<times> int) list \<Rightarrow> bool" where
  "clock_ok t [] = True"
| "clock_ok t ((n, e, now) # calls) = (t \<le> now \<and> clock_ok now calls)"

locale nonce_ledger =
  fixes consume :: "'s \<Rightarrow> string \<Rightarrow> int \<Rightarrow> int \<Rightarrow> 's \<times> bool"
    and live :: "'s \<Rightarrow> string \<Rightarrow> int \<Rightarrow> bool"
  assumes consume_iff: "snd (consume s n e now) \<longleftrightarrow> \<not> live s n now"
    and consume_records: "snd (consume s n e now) \<Longrightarrow> t < e \<Longrightarrow> live (fst (consume s n e now)) n t"
    and consume_keeps: "live s m t \<Longrightarrow> now \<le> t \<Longrightarrow> live (fst (consume s n e now)) m t"
    and live_antimono: "live s m t \<Longrightarrow> t' \<le> t \<Longrightarrow> live s m t'"
begin

lemma live_run_fails:
  assumes "live s n t" and "clock_ok t0 calls" and "i < length calls"
    and "calls ! i = (n, e, now)" and "\<forall>c\<in>set (take (Suc i) calls). snd (snd c) \<le> t"
  shows "\<not> run_ledger consume s calls ! i"
  using assms
proof (induction calls arbitrary: s i t0)
  case Nil
  then show ?case by simp
next
  case (Cons c calls)
  obtain m f w where c: "c = (m, f, w)" by (cases c)
  have w: "w \<le> t" using Cons.prems(5) c by simp
  show ?case
  proof (cases i)
    case 0
    then have "m = n" using Cons.prems(4) c by simp
    then have "live s m w" using Cons.prems(1) w live_antimono by blast
    then show ?thesis using 0 c consume_iff by simp
  next
    case (Suc j)
    let ?s = "fst (consume s m f w)"
    have "live ?s n t" using Cons.prems(1) w by (rule consume_keeps)
    moreover have "clock_ok w calls" using Cons.prems(2) c by simp
    moreover have "\<forall>c\<in>set (take (Suc j) calls). snd (snd c) \<le> t" using Cons.prems(5) Suc by simp
    moreover have "j < length calls" "calls ! j = (n, e, now)" using Cons.prems(3,4) Suc c by simp_all
    ultimately have "\<not> run_ledger consume ?s calls ! j" using Cons.IH by blast
    then show ?thesis using Suc c by simp
  qed
qed

lemma clock_ok_le:
  "clock_ok t calls \<Longrightarrow> i \<le> j \<Longrightarrow> j < length calls \<Longrightarrow>
     t \<le> snd (snd (calls ! i)) \<and> snd (snd (calls ! i)) \<le> snd (snd (calls ! j))"
proof (induction calls arbitrary: t i j)
  case Nil
  then show ?case by simp
next
  case (Cons c calls)
  obtain m f w where c: "c = (m, f, w)" by (cases c)
  show ?case
  proof (cases i)
    case 0
    show ?thesis
    proof (cases j)
      case 0
      with \<open>i = 0\<close> Cons.prems c show ?thesis by simp
    next
      case (Suc j')
      with Cons.prems c Cons.IH [of w j' j'] \<open>i = 0\<close> show ?thesis by auto
    qed
  next
    case (Suc i')
    then obtain j' where j': "j = Suc j'" using Cons.prems by (cases j) auto
    then have "w \<le> snd (snd (calls ! i'))" "snd (snd (calls ! i')) \<le> snd (snd (calls ! j'))"
      using Cons.prems c Suc Cons.IH [of w i' j'] by auto
    then show ?thesis using Suc j' Cons.prems c by simp
  qed
qed

text \<open>The contract's use: a nonce that was consumed once is refused until it has expired.\<close>

lemma consumed_once:
  assumes "clock_ok t0 calls" and "i < j" and "j < length calls"
    and "calls ! i = (n, e, now)" and "calls ! j = (n, e', now')"
    and "run_ledger consume s calls ! i" and "now' < e"
  shows "\<not> run_ledger consume s calls ! j"
  using assms
proof (induction calls arbitrary: s i j t0)
  case Nil
  then show ?case by simp
next
  case (Cons c calls)
  obtain m f w where c: "c = (m, f, w)" by (cases c)
  obtain j' where j': "j = Suc j'" using Cons.prems by (cases j) auto
  have clock: "clock_ok w calls" using Cons.prems(1) c by simp
  show ?case
  proof (cases i)
    case 0
    then have m: "m = n" "f = e" using Cons.prems(4) c by simp_all
    let ?s = "fst (consume s m f w)"
    have "live ?s n now'" using Cons.prems(6,7) 0 c m consume_records by simp
    moreover have "\<forall>c\<in>set (take (Suc j') calls). snd (snd c) \<le> now'"
    proof
      fix x assume "x \<in> set (take (Suc j') calls)"
      then obtain k where k: "k \<le> j'" "x = calls ! k"
        by (metis in_set_conv_nth length_take less_Suc_eq_le min_less_iff_conj nth_take)
      have "snd (snd (calls ! k)) \<le> snd (snd (calls ! j'))"
        using clock_ok_le [OF clock, of k j'] k Cons.prems(3) j' by simp
      then show "snd (snd x) \<le> now'" using k Cons.prems(5) j' by simp
    qed
    ultimately have "\<not> run_ledger consume ?s calls ! j'"
      using live_run_fails [of ?s n now' w calls j' e' now'] clock Cons.prems(3,5) j' by simp
    then show ?thesis using j' c by simp
  next
    case (Suc i')
    then have "\<not> run_ledger consume (fst (consume s m f w)) calls ! j'"
      using Cons.IH [of w i' j' "fst (consume s m f w)"] Cons.prems clock j' c by simp
    then show ?thesis using j' c by simp
  qed
qed

end

end
