(* ===== verification/State_Invariants.thy ===== *)
theory State_Invariants
  imports State Grants
begin

text \<open>
  What the control state of the Sandbox Manager maintains: key and reference integrity, the
  agreement between a Workspace's writer column and the Sandbox rows, and recorded heads. Every
  sequence of calls of \<open>StateStore\<close> with the statuses its callers pass keeps these, so a
  Workspace never has two live Sandboxes; the claim of a Workspace is an exclusive lock, an
  idempotency key names one operation, and a nonce is consumed once.
\<close>

section \<open>The invariant\<close>

definition ws_keys :: "workspace_row list \<Rightarrow> bool" where
  "ws_keys W \<longleftrightarrow> distinct (map ws_id W) \<and> distinct (map ws_volume W)"

definition op_keys :: "operation_row list \<Rightarrow> bool" where
  "op_keys O' \<longleftrightarrow> distinct (map op_id O') \<and> distinct (map op_key O')"

definition rv_keys :: "revision_row list \<Rightarrow> bool" where
  "rv_keys R \<longleftrightarrow>
     distinct (map rv_id R) \<and> distinct (map (\<lambda>r. (rv_workspace r, rv_snapshot r)) R)"

definition keys_ok :: "db \<Rightarrow> bool" where
  "keys_ok d \<longleftrightarrow>
     ws_keys (workspaces d) \<and> distinct (map sb_id (sandboxes d)) \<and> op_keys (operations d)
     \<and> rv_keys (revisions d) \<and> distinct (map nc_nonce (nonces d))"

definition refs_ok :: "db \<Rightarrow> bool" where
  "refs_ok d \<longleftrightarrow>
     sb_workspace ` set (sandboxes d) \<subseteq> ws_id ` set (workspaces d)
     \<and> op_workspace ` set (operations d) \<subseteq> ws_id ` set (workspaces d)
     \<and> rv_workspace ` set (revisions d) \<subseteq> ws_id ` set (workspaces d)"

text \<open>
  A Workspace is running exactly while it has a writer, its writer is a live Sandbox of its own,
  a live Sandbox is the writer of its Workspace, and exactly the live Sandboxes have an expiry.
\<close>

definition status_ok :: "workspace_row \<Rightarrow> bool" where
  "status_ok w \<longleftrightarrow> (ws_active w = None \<longleftrightarrow> ws_status w \<noteq> WsRunning)"

definition expiry_ok :: "sandbox_row \<Rightarrow> bool" where
  "expiry_ok s \<longleftrightarrow> (sb_live s \<longleftrightarrow> sb_expires s \<noteq> None)"

definition writes :: "sandbox_row \<Rightarrow> workspace_row \<Rightarrow> bool" where
  "writes s w \<longleftrightarrow> sb_workspace s = ws_id w \<and> ws_active w = Some (sb_id s)"

definition writers_ok :: "workspace_row list \<Rightarrow> sandbox_row list \<Rightarrow> bool" where
  "writers_ok W S \<longleftrightarrow>
     (\<forall>w\<in>set W. status_ok w) \<and> (\<forall>s\<in>set S. expiry_ok s)
     \<and> (\<forall>w\<in>set W. ws_active w \<noteq> None \<longrightarrow> (\<exists>s\<in>set S. writes s w \<and> sb_live s))
     \<and> (\<forall>s\<in>set S. sb_live s \<longrightarrow> (\<exists>w\<in>set W. writes s w))"

definition heads_ok :: "workspace_row list \<Rightarrow> revision_row list \<Rightarrow> bool" where
  "heads_ok W R \<longleftrightarrow>
     (\<forall>w\<in>set W. \<forall>h. ws_head w = Some h \<longrightarrow>
        (\<exists>r\<in>set R. rv_workspace r = ws_id w \<and> rv_snapshot r = h))"

definition state_ok :: "db \<Rightarrow> bool" where
  "state_ok d \<longleftrightarrow>
     keys_ok d \<and> refs_ok d \<and> writers_ok (workspaces d) (sandboxes d) \<and> heads_ok (workspaces d) (revisions d)"

lemmas state_parts = state_ok_def keys_ok_def refs_ok_def
lemmas state_defs = state_parts ws_keys_def op_keys_def rv_keys_def writers_ok_def heads_ok_def

lemma state_ok_empty: "state_ok empty_db"
  by (simp add: state_defs empty_db_def)

section \<open>Calls and traces\<close>

datatype db_call =
    CreateWorkspace string ws_kind string int
  | ClaimWorkspace string string string string int int
  | MarkSandboxRunning string int
  | RenewSandbox string int
  | FinishSandbox string sb_status ws_status int
  | DeleteWorkspace string
  | ScheduleDelete string int int
  | TransitionWorkspace string "ws_status list" ws_status int
  | CommitRevision string string string int obj int
  | ConsumeNonce string int int
  | CreateOperation string op_name string "string option" string obj int
  | UpdateOperation string op_status "op_phase option" "obj option" "string option" int

fun committed :: "db \<Rightarrow> state_error + 'a \<times> db \<Rightarrow> db \<times> bool" where
  "committed d (Inl e) = (d, False)"
| "committed d (Inr (a, d')) = (d', True)"

fun apply_call :: "db \<Rightarrow> db_call \<Rightarrow> db \<times> bool" where
  "apply_call d (CreateWorkspace wid kind vol now) = committed d (create_workspace d wid kind vol now)"
| "apply_call d (ClaimWorkspace wid sid host container created expires) =
     committed d (claim_workspace d wid sid host container created expires)"
| "apply_call d (MarkSandboxRunning sid now) = committed d (mark_sandbox_running d sid now)"
| "apply_call d (RenewSandbox sid expires) = committed d (renew_sandbox d sid expires)"
| "apply_call d (FinishSandbox sid status wstatus now) =
     committed d (finish_sandbox d sid status wstatus now)"
| "apply_call d (DeleteWorkspace wid) = committed d (delete_workspace d wid)"
| "apply_call d (ScheduleDelete wid after now) =
     committed d (schedule_workspace_delete d wid after now)"
| "apply_call d (TransitionWorkspace wid expected status now) =
     committed d (transition_workspace d wid expected status now)"
| "apply_call d (CommitRevision wid oid rid generation result now) =
     committed d (commit_revision d wid oid rid generation result now)"
| "apply_call d (ConsumeNonce n e now) = consume_nonce d n e now"
| "apply_call d (CreateOperation oid name wid sid key input now) =
     committed d (create_operation d oid name wid sid key input now)"
| "apply_call d (UpdateOperation oid status phase result err now) =
     committed d (update_operation d oid status phase result err now)"

text \<open>
  The arguments the callers in \<open>docker_backend.py\<close> pass: a Sandbox finishes as failed or
  terminated, and no caller sets a Workspace to running except the claim.
\<close>

fun wf_call :: "db_call \<Rightarrow> bool" where
  "wf_call (FinishSandbox sid status wstatus now) \<longleftrightarrow>
     status \<in> {SbFailed, SbTerminated} \<and> wstatus \<noteq> WsRunning"
| "wf_call (TransitionWorkspace wid expected status now) \<longleftrightarrow> status \<noteq> WsRunning"
| "wf_call _ \<longleftrightarrow> True"

fun run_calls :: "db \<Rightarrow> db_call list \<Rightarrow> db" where
  "run_calls d [] = d"
| "run_calls d (c # cs) = run_calls (fst (apply_call d c)) cs"

section \<open>Selections in a consistent state\<close>

lemma find_ws_Some:
  "state_ok d \<Longrightarrow> find_ws wid d = Some w \<longleftrightarrow> w \<in> set (workspaces d) \<and> ws_id w = wid"
  by (simp add: find_ws_def state_parts ws_keys_def select_one_key_iff)

lemma find_sb_Some:
  "state_ok d \<Longrightarrow> find_sb sid d = Some s \<longleftrightarrow> s \<in> set (sandboxes d) \<and> sb_id s = sid"
  by (simp add: find_sb_def state_parts select_one_key_iff)

lemma find_op_Some:
  "state_ok d \<Longrightarrow> find_op oid d = Some r \<longleftrightarrow> r \<in> set (operations d) \<and> op_id r = oid"
  by (simp add: find_op_def state_parts op_keys_def select_one_key_iff)

lemma find_None [table_simps]:
  "find_ws wid d = None \<longleftrightarrow> wid \<notin> ws_id ` set (workspaces d)"
  "find_sb sid d = None \<longleftrightarrow> sid \<notin> sb_id ` set (sandboxes d)"
  "find_op oid d = None \<longleftrightarrow> oid \<notin> op_id ` set (operations d)"
  by (auto simp: find_ws_def find_sb_def find_op_def select_one_None)

lemma ws_eq: "state_ok d \<Longrightarrow> w \<in> set (workspaces d) \<Longrightarrow> v \<in> set (workspaces d) \<Longrightarrow> ws_id w = ws_id v \<Longrightarrow> w = v"
  by (auto simp: state_parts ws_keys_def dest: distinct_key_eq)

lemma sb_eq: "state_ok d \<Longrightarrow> s \<in> set (sandboxes d) \<Longrightarrow> v \<in> set (sandboxes d) \<Longrightarrow> sb_id s = sb_id v \<Longrightarrow> s = v"
  by (auto simp: state_parts dest: distinct_key_eq)

text \<open>In a consistent state "some row with this id" is "the row found".\<close>

lemma ex_ws: "state_ok d \<Longrightarrow>
    (\<exists>w\<in>set (workspaces d). ws_id w = wid \<and> P w) \<longleftrightarrow> (\<exists>w. find_ws wid d = Some w \<and> P w)"
  by (auto simp: find_ws_Some)

lemma ex_sb: "state_ok d \<Longrightarrow>
    (\<exists>s\<in>set (sandboxes d). sb_id s = sid \<and> P s) \<longleftrightarrow> (\<exists>s. find_sb sid d = Some s \<and> P s)"
  by (auto simp: find_sb_Some)

lemma ex_op: "state_ok d \<Longrightarrow>
    (\<exists>r\<in>set (operations d). op_id r = oid \<and> P r) \<longleftrightarrow> (\<exists>r. find_op oid d = Some r \<and> P r)"
  by (auto simp: find_op_Some)

lemma find_ids: "find_ws wid d = Some w \<Longrightarrow> ws_id w = wid" "find_sb sid d = Some s \<Longrightarrow> sb_id s = sid"
  "find_op oid d = Some r \<Longrightarrow> op_id r = oid"
  by (auto simp: find_ws_def find_sb_def find_op_def dest: select_one_Some)

text \<open>A Sandbox id is the writer of one Workspace only, that of its own row.\<close>

lemma writer_row:
  assumes "state_ok d" and "w \<in> set (workspaces d)" and "ws_active w = Some sid"
    and "s \<in> set (sandboxes d)" and "sb_id s = sid"
  shows "sb_workspace s = ws_id w" and "sb_live s"
proof -
  obtain s' where "s' \<in> set (sandboxes d)" "writes s' w" "sb_live s'"
    using assms(1-3) by (fastforce simp: state_ok_def writers_ok_def)
  moreover have "sb_id s' = sb_id s" using calculation assms(3,5) by (simp add: writes_def)
  ultimately show "sb_workspace s = ws_id w" "sb_live s"
    using assms(1,4) sb_eq by (auto simp: writes_def)
qed

section \<open>Preservation\<close>

lemma ws_keys_update:
  "ws_keys W \<Longrightarrow> (\<And>w. ws_id (f w) = ws_id w) \<Longrightarrow> (\<And>w. ws_volume (f w) = ws_volume w) \<Longrightarrow>
     ws_keys (update_rows p f W)"
  by (simp add: ws_keys_def map_update_rows)

text \<open>A change of Workspace rows that keeps ids, heads and the writer columns keeps the invariant.\<close>

lemma writers_ok_ws_update:
  assumes "writers_ok W S" and "\<And>w. ws_id (f w) = ws_id w \<and> ws_active (f w) = ws_active w"
    and "\<And>w. p w \<Longrightarrow> w \<in> set W \<Longrightarrow> status_ok (f w)"
  shows "writers_ok (update_rows p f W) S"
proof -
  have writes: "writes s (f w) = writes s w" for s w using assms(2) by (simp add: writes_def)
  show ?thesis
    unfolding writers_ok_def
  proof (intro conjI ballI impI)
    fix s assume "s \<in> set S" "sb_live s"
    then obtain w where w: "w \<in> set W" "writes s w" using assms(1) by (auto simp: writers_ok_def)
    then have "(if p w then f w else w) \<in> set (update_rows p f W)" by (simp add: update_rows_def)
    then show "\<exists>w\<in>set (update_rows p f W). writes s w"
      by (rule bexI [rotated]) (simp add: w writes)
  qed (use assms in \<open>auto simp: writers_ok_def set_update_rows writes\<close>)
qed

lemma heads_ok_ws_update:
  "heads_ok W R \<Longrightarrow> (\<And>w. ws_id (f w) = ws_id w \<and> ws_head (f w) = ws_head w) \<Longrightarrow>
     heads_ok (update_rows p f W) R"
  by (auto simp: heads_ok_def set_update_rows)

lemma state_ok_ws_update:
  assumes "state_ok d"
    and "\<And>w. ws_id (f w) = ws_id w \<and> ws_volume (f w) = ws_volume w \<and> ws_head (f w) = ws_head w
            \<and> ws_active (f w) = ws_active w"
    and "\<And>w. p w \<Longrightarrow> w \<in> set (workspaces d) \<Longrightarrow> status_ok (f w)"
  shows "state_ok (d\<lparr>workspaces := update_rows p f (workspaces d)\<rparr>)"
proof -
  have "ws_id ` set (update_rows p f (workspaces d)) = ws_id ` set (workspaces d)"
    using assms(2) by (intro image_update_rows) blast
  with assms show ?thesis
    by (simp add: state_parts ws_keys_update writers_ok_ws_update heads_ok_ws_update)
qed

lemma op_keys_update:
  "op_keys P \<Longrightarrow> (\<And>r. op_id (h r) = op_id r) \<Longrightarrow> (\<And>r. op_key (h r) = op_key r) \<Longrightarrow>
     op_keys (update_rows p h P)"
  by (simp add: op_keys_def map_update_rows)

lemma state_ok_ops:
  assumes "state_ok d"
    and "\<And>r. op_id (h r) = op_id r \<and> op_key (h r) = op_key r \<and> op_workspace (h r) = op_workspace r"
  shows "state_ok (d\<lparr>operations := update_rows p h (operations d)\<rparr>)"
proof -
  have "op_workspace ` set (update_rows p h (operations d)) = op_workspace ` set (operations d)"
    using assms(2) by (intro image_update_rows) blast
  with assms show ?thesis by (simp add: state_parts op_keys_update)
qed

lemma state_ok_nonces:
  "state_ok d \<Longrightarrow> distinct (map nc_nonce ns) \<Longrightarrow> state_ok (d\<lparr>nonces := ns\<rparr>)"
  by (simp add: state_parts)

lemma distinct_nonces: "state_ok d \<Longrightarrow> distinct (map nc_nonce (nonces d))"
  by (simp add: state_ok_def keys_ok_def)

lemma create_workspace_Inr:
  "create_workspace d wid kind vol now = Inr (w, d') \<longleftrightarrow>
     ws_kind w = kind \<and> ws_volume w = vol \<and>
     (find_ws wid d = Some w \<and> d' = d
      \<or> find_ws wid d = None \<and> vol \<notin> ws_volume ` set (workspaces d)
        \<and> w = new_workspace wid kind vol now \<and> d' = d\<lparr>workspaces := workspaces d @ [w]\<rparr>)"
proof (cases "find_ws wid d")
  case None
  have new: "ws_id (new_workspace wid kind vol now) = wid" "ws_kind (new_workspace wid kind vol now) = kind"
      "ws_volume (new_workspace wid kind vol now) = vol"
    by (simp_all add: new_workspace_def)
  then have "find_ws wid (d\<lparr>workspaces := workspaces d @ [new_workspace wid kind vol now]\<rparr>) =
      Some (new_workspace wid kind vol now)"
    using None by (simp add: find_ws_def table_simps)
  then show ?thesis
    using None new by (auto simp: create_workspace_def list_ex_iff)
next
  case (Some r)
  then show ?thesis by (auto simp: create_workspace_def require_Inr_iff)
qed

lemma writers_ok_new_ws:
  "writers_ok W S \<Longrightarrow> status_ok w \<Longrightarrow> ws_active w = None \<Longrightarrow> writers_ok (W @ [w]) S"
  by (auto simp: writers_ok_def)

lemma create_workspace_ok:
  assumes "state_ok d" and "create_workspace d wid kind vol now = Inr (w, d')"
  shows "state_ok d'"
proof (cases "find_ws wid d")
  case None
  then have new: "wid \<notin> ws_id ` set (workspaces d)" "vol \<notin> ws_volume ` set (workspaces d)"
      "w = new_workspace wid kind vol now" and d': "d' = d\<lparr>workspaces := workspaces d @ [w]\<rparr>"
    using assms(2) unfolding create_workspace_Inr by (auto simp flip: find_None)
  have w: "ws_id w = wid" "ws_volume w = vol" "ws_active w = None" "ws_head w = None" "status_ok w"
    by (simp_all add: new(3) new_workspace_def status_ok_def)
  have "ws_keys (workspaces d @ [w])" "heads_ok (workspaces d @ [w]) (revisions d)"
    using assms(1) new w by (simp_all add: state_parts ws_keys_def heads_ok_def)
  then show ?thesis
    using assms(1) w unfolding d' by (auto simp: state_parts intro: writers_ok_new_ws)
next
  case (Some r)
  then show ?thesis
    using assms by (auto simp: create_workspace_Inr)
qed

text \<open>What a successful claim did: the row had no writer and the Sandbox id was new.\<close>

lemma claimed_row_simps [simp]:
  "ws_id (claimed_row sid now w) = ws_id w" "ws_volume (claimed_row sid now w) = ws_volume w"
  "ws_head (claimed_row sid now w) = ws_head w" "ws_active (claimed_row sid now w) = Some sid"
  "ws_status (claimed_row sid now w) = WsRunning"
  by (simp_all add: claimed_row_def)

lemma touched_row [simp]:
  "status_ok (w\<lparr>ws_updated := now\<rparr>) = status_ok w"
  "status_ok (w\<lparr>ws_delete_after := x\<rparr>) = status_ok w"
  by (simp_all add: status_ok_def)

lemma new_sandbox_simps [simp]:
  "sb_id (new_sandbox sid wid host container created expires) = sid"
  "sb_workspace (new_sandbox sid wid host container created expires) = wid"
  "sb_live (new_sandbox sid wid host container created expires)"
  "expiry_ok (new_sandbox sid wid host container created expires)"
  by (simp_all add: new_sandbox_def sb_live_def expiry_ok_def)

definition claim_state :: "db \<Rightarrow> string \<Rightarrow> sandbox_row \<Rightarrow> int \<Rightarrow> db" where
  "claim_state d wid s now =
     d\<lparr>sandboxes := sandboxes d @ [s],
       workspaces := update_rows (\<lambda>w. ws_id w = wid) (claimed_row (sb_id s) now) (workspaces d)\<rparr>"

lemma claim_workspace_eq:
  assumes "find_ws wid d = Some row"
    and "ws_active row = None \<or> ws_active row = Some sid" and "ws_status row \<notin> set unmountable"
    and "find_sb sid d = None"
  shows "claim_workspace d wid sid host container created expires =
    (let s = new_sandbox sid wid host container created expires
     in Inr ((claimed_row sid created row, s), claim_state d wid s created))"
proof -
  have id: "ws_id row = wid" using assms(1) select_one_Some by (fastforce simp: find_ws_def)
  let ?s = "new_sandbox sid wid host container created expires"
  have "find_ws wid (claim_state d wid ?s created) = Some (claimed_row sid created row)"
    using assms(1) id by (simp add: find_ws_def claim_state_def select_one_update_rows)
  moreover have "find_sb sid (claim_state d wid ?s created) = Some ?s"
    using assms(4) by (simp add: find_sb_def claim_state_def table_simps)
  ultimately show ?thesis
    using assms by (simp add: claim_workspace_def Let_def claim_state_def)
qed

text \<open>The claim succeeds exactly on an unowned, mountable Workspace with a new Sandbox id.\<close>

lemma claim_workspace_Inr:
  assumes "state_ok d"
  shows "claim_workspace d wid sid host container created expires = Inr r \<longleftrightarrow>
    (\<exists>row\<in>set (workspaces d). ws_id row = wid \<and> ws_active row = None
       \<and> ws_status row \<notin> set unmountable \<and> sid \<notin> sb_id ` set (sandboxes d)
       \<and> (let s = new_sandbox sid wid host container created expires
          in r = ((claimed_row sid created row, s), claim_state d wid s created)))"
    (is "?claim = Inr r \<longleftrightarrow> ?rhs")
proof
  assume claim: "?claim = Inr r"
  then obtain row where row: "find_ws wid d = Some row"
    by (auto simp: claim_workspace_def split: option.splits)
  have guards: "ws_active row = None \<or> ws_active row = Some sid" "ws_status row \<notin> set unmountable"
      "find_sb sid d = None"
    using claim row by (auto simp: claim_workspace_def require_Inr_iff)
  have row': "row \<in> set (workspaces d)" "ws_id row = wid" using assms row by (simp_all add: find_ws_Some)
  have new: "sid \<notin> sb_id ` set (sandboxes d)" using guards(3) by (simp add: find_None)
  have "ws_active row \<noteq> Some sid"
    using assms row' new by (fastforce simp: state_ok_def writers_ok_def writes_def)
  then have "ws_active row = None" using guards(1) by simp
  then show ?rhs
    using claim claim_workspace_eq [OF row guards] row' guards(2) new by (auto simp: Let_def)
next
  assume ?rhs
  then obtain row where row: "row \<in> set (workspaces d)" "ws_id row = wid" "ws_active row = None"
      "ws_status row \<notin> set unmountable" "sid \<notin> sb_id ` set (sandboxes d)"
    and r: "r = (let s = new_sandbox sid wid host container created expires
                 in ((claimed_row sid created row, s), claim_state d wid s created))"
    by (auto simp: Let_def)
  have "find_ws wid d = Some row" "find_sb sid d = None"
    using assms row by (simp_all add: find_ws_Some find_None)
  then show "?claim = Inr r" using claim_workspace_eq row(3,4) by (simp add: r Let_def)
qed

lemma claim_state_ok:
  assumes "state_ok d" and row: "row \<in> set (workspaces d)" "ws_id row = sb_workspace s" "ws_active row = None"
    and s: "sb_id s \<notin> sb_id ` set (sandboxes d)" "sb_live s" "expiry_ok s"
  shows "state_ok (claim_state d (sb_workspace s) s now)"
proof -
  let ?p = "\<lambda>w. ws_id w = sb_workspace s" and ?f = "claimed_row (sb_id s) now"
  let ?W = "update_rows ?p ?f (workspaces d)"
  have old: "writers_ok (workspaces d) (sandboxes d)" using assms(1) by (simp add: state_ok_def)
  have other: "w = row" if "w \<in> set (workspaces d)" "ws_id w = sb_workspace s" for w
    using ws_eq [OF assms(1) that(1) row(1)] that(2) row(2) by simp
  have mem: "w \<in> set ?W \<longleftrightarrow> w = ?f row \<or> w \<in> set (workspaces d) \<and> ws_id w \<noteq> sb_workspace s" for w
  proof -
    have "{w \<in> set (workspaces d). ?p w} = {row}" using row other by blast
    then show ?thesis by (simp only: set_update_rows) auto
  qed
  have "writers_ok ?W (sandboxes d @ [s])"
    unfolding writers_ok_def
  proof (intro conjI ballI impI)
    fix w assume "w \<in> set ?W" "ws_active w \<noteq> None"
    then consider "w = ?f row" | "w \<in> set (workspaces d)" using mem by blast
    then show "\<exists>x\<in>set (sandboxes d @ [s]). writes x w \<and> sb_live x"
      using old row(2) s(2) \<open>ws_active w \<noteq> None\<close> by cases (auto simp: writers_ok_def writes_def)
  next
    fix x assume x: "x \<in> set (sandboxes d @ [s])" "sb_live x"
    show "\<exists>w\<in>set ?W. writes x w"
    proof (cases "x = s")
      case True
      then show ?thesis using row mem by (intro bexI [of _ "?f row"]) (simp_all add: writes_def)
    next
      case False
      then obtain w where w: "w \<in> set (workspaces d)" "writes x w"
        using x old by (auto simp: writers_ok_def)
      then have "w \<noteq> row" using row(3) by (auto simp: writes_def)
      then show ?thesis using w other mem by blast
    qed
  next
    fix w assume "w \<in> set ?W"
    then consider "w = ?f row" | "w \<in> set (workspaces d)" using mem by blast
    then show "status_ok w" using old by cases (auto simp: writers_ok_def status_ok_def)
  qed (use old s in \<open>auto simp: writers_ok_def\<close>)
  moreover have "ws_id ` set ?W = ws_id ` set (workspaces d)" by (intro image_update_rows) simp
  moreover have "sb_workspace s \<in> ws_id ` set (workspaces d)" using row by (metis imageI)
  moreover have "ws_keys ?W" "heads_ok ?W (revisions d)"
    using assms(1) by (auto simp: state_parts intro: ws_keys_update heads_ok_ws_update)
  ultimately show ?thesis
    using assms(1) row s by (auto simp: state_parts claim_state_def)
qed

lemma claim_workspace_ok:
  "state_ok d \<Longrightarrow> claim_workspace d wid sid host container created expires = Inr (r, d') \<Longrightarrow> state_ok d'"
  using claim_state_ok [of d _ "new_sandbox sid wid host container created expires" created]
  by (auto simp: claim_workspace_Inr Let_def)

text \<open>A change of Sandbox rows that keeps ids, Workspaces and liveness keeps the invariant.\<close>

lemma writers_ok_sb_update:
  assumes "writers_ok W S" and "\<And>s. sb_id (g s) = sb_id s \<and> sb_workspace (g s) = sb_workspace s"
    and "\<And>s. q s \<Longrightarrow> s \<in> set S \<Longrightarrow> sb_live (g s) = sb_live s \<and> expiry_ok (g s)"
  shows "writers_ok W (update_rows q g S)"
proof -
  have writes: "writes (g s) w = writes s w" for s w using assms(2) by (simp add: writes_def)
  show ?thesis
    unfolding writers_ok_def
  proof (intro conjI ballI impI)
    fix w assume "w \<in> set W" "ws_active w \<noteq> None"
    then obtain s where s: "s \<in> set S" "writes s w" "sb_live s" using assms(1) by (auto simp: writers_ok_def)
    then have "(if q s then g s else s) \<in> set (update_rows q g S)" by (simp add: update_rows_def)
    then show "\<exists>s\<in>set (update_rows q g S). writes s w \<and> sb_live s"
      by (rule bexI [rotated]) (simp add: s writes assms(3))
  qed (use assms in \<open>auto simp: writers_ok_def set_update_rows writes\<close>)
qed

lemma state_ok_sb_update:
  assumes "state_ok d" and "\<And>s. sb_id (g s) = sb_id s \<and> sb_workspace (g s) = sb_workspace s"
    and "\<And>s. q s \<Longrightarrow> s \<in> set (sandboxes d) \<Longrightarrow> sb_live (g s) = sb_live s \<and> expiry_ok (g s)"
  shows "state_ok (d\<lparr>sandboxes := update_rows q g (sandboxes d)\<rparr>)"
proof -
  have "sb_workspace ` set (update_rows q g (sandboxes d)) = sb_workspace ` set (sandboxes d)"
    using assms(2) by (intro image_update_rows) blast
  with assms show ?thesis by (simp add: state_parts writers_ok_sb_update map_update_rows)
qed

lemma mark_sandbox_running_ok:
  assumes "state_ok d" and "mark_sandbox_running d sid now = Inr (u, d')"
  shows "state_ok d'"
proof -
  let ?p = "\<lambda>s. sb_id s = sid \<and> sb_status s = SbStarting"
  let ?d = "d\<lparr>sandboxes := update_rows ?p (\<lambda>s. s\<lparr>sb_status := SbRunning\<rparr>) (sandboxes d)\<rparr>"
  have "expiry_ok s" if "s \<in> set (sandboxes d)" for s
    using assms(1) that by (simp add: state_ok_def writers_ok_def)
  then have d: "state_ok ?d"
    using assms(1) by (intro state_ok_sb_update) (auto simp: sb_live_def expiry_ok_def)
  have "status_ok w" if "w \<in> set (workspaces d)" for w
    using assms(1) that by (simp add: state_ok_def writers_ok_def)
  then have "state_ok (?d\<lparr>workspaces := update_rows (\<lambda>w. ws_active w = Some sid)
      (\<lambda>w. w\<lparr>ws_updated := now\<rparr>) (workspaces ?d)\<rparr>)"
    using d by (intro state_ok_ws_update) simp_all
  then show ?thesis
    using assms(2) by (auto simp: mark_sandbox_running_def require_Inr_iff Let_def)
qed

lemma renew_sandbox_ok:
  assumes "state_ok d" and "renew_sandbox d sid expires = Inr (u, d')"
  shows "state_ok d'"
proof -
  have "d' = d\<lparr>sandboxes := update_rows (\<lambda>s. sb_id s = sid \<and> sb_status s = SbRunning)
      (\<lambda>s. s\<lparr>sb_expires := Some expires\<rparr>) (sandboxes d)\<rparr>"
    using assms(2) by (auto simp: renew_sandbox_def require_Inr_iff Let_def split: option.splits)
  then show ?thesis
    using assms(1) by (auto intro!: state_ok_sb_update simp: sb_live_def expiry_ok_def)
qed

definition finished_row :: "sb_status \<Rightarrow> sandbox_row \<Rightarrow> sandbox_row" where
  "finished_row status s = s\<lparr>sb_status := status, sb_expires := None\<rparr>"

definition released_row :: "ws_status \<Rightarrow> int \<Rightarrow> workspace_row \<Rightarrow> workspace_row" where
  "released_row status now w = w\<lparr>ws_status := status, ws_active := None, ws_updated := now\<rparr>"

definition finish_state :: "db \<Rightarrow> sandbox_row \<Rightarrow> sb_status \<Rightarrow> ws_status \<Rightarrow> int \<Rightarrow> db" where
  "finish_state d s status wstatus now =
     d\<lparr>sandboxes := update_rows (\<lambda>x. sb_id x = sb_id s) (finished_row status) (sandboxes d),
       workspaces := update_rows (\<lambda>w. ws_id w = sb_workspace s \<and> ws_active w = Some (sb_id s))
         (released_row wstatus now) (workspaces d)\<rparr>"

lemma finished_row_simps [simp]:
  "sb_id (finished_row status s) = sb_id s" "sb_workspace (finished_row status s) = sb_workspace s"
  "sb_expires (finished_row status s) = None" "sb_status (finished_row status s) = status"
  by (simp_all add: finished_row_def)

lemma released_row_simps [simp]:
  "ws_id (released_row status now w) = ws_id w" "ws_volume (released_row status now w) = ws_volume w"
  "ws_head (released_row status now w) = ws_head w" "ws_active (released_row status now w) = None"
  "ws_status (released_row status now w) = status"
  by (simp_all add: released_row_def)

lemma finish_sandbox_Inr:
  assumes "state_ok d"
  shows "finish_sandbox d sid status wstatus now = Inr (w, d') \<longleftrightarrow>
    (\<exists>s\<in>set (sandboxes d). sb_id s = sid \<and> d' = finish_state d s status wstatus now
       \<and> find_ws (sb_workspace s) d' = Some w)"
proof (cases "find_sb sid d")
  case None
  then show ?thesis by (simp add: finish_sandbox_def ex_sb [OF assms])
next
  case (Some s)
  then have s: "sb_id s = sid" by (rule find_ids)
  have "finish_sandbox d sid status wstatus now =
      (case find_ws (sb_workspace s) (finish_state d s status wstatus now) of
         None \<Rightarrow> Inl StateAssertion | Some w \<Rightarrow> Inr (w, finish_state d s status wstatus now))"
    using Some s by (simp add: finish_sandbox_def finish_state_def finished_row_def [abs_def]
        released_row_def [abs_def] Let_def cong: option.case_cong)
  then show ?thesis using Some by (auto simp: ex_sb [OF assms] split: option.splits)
qed

lemma finish_state_ok:
  assumes "state_ok d" and "s \<in> set (sandboxes d)"
    and status: "status \<in> {SbFailed, SbTerminated}" and wstatus: "wstatus \<noteq> WsRunning"
  shows "state_ok (finish_state d s status wstatus now)"
proof -
  let ?q = "\<lambda>x. sb_id x = sb_id s" and ?p = "\<lambda>w. ws_id w = sb_workspace s \<and> ws_active w = Some (sb_id s)"
  let ?S = "update_rows ?q (finished_row status) (sandboxes d)"
    and ?W = "update_rows ?p (released_row wstatus now) (workspaces d)"
  have old: "writers_ok (workspaces d) (sandboxes d)" using assms(1) by (simp add: state_ok_def)
  have dead: "\<not> sb_live (finished_row status x)" for x using status by (auto simp: sb_live_def)
  have keep_s: "x \<in> set ?S" if "x \<in> set (sandboxes d)" "sb_id x \<noteq> sb_id s" for x
    using that by (simp add: set_update_rows)
  have keep_w: "w \<in> set ?W" if "w \<in> set (workspaces d)" "\<not> ?p w" for w
    using that by (simp add: set_update_rows)
  have "writers_ok ?W ?S"
    unfolding writers_ok_def
  proof (intro conjI ballI impI)
    fix w assume w: "w \<in> set ?W" "ws_active w \<noteq> None"
    then have w': "w \<in> set (workspaces d)" "\<not> ?p w" by (auto simp: set_update_rows)
    then obtain x where x: "x \<in> set (sandboxes d)" "writes x w" "sb_live x"
      using old w(2) by (auto simp: writers_ok_def)
    then have "sb_id x \<noteq> sb_id s"
      using w'(2) sb_eq [OF assms(1) x(1) assms(2)] by (auto simp: writes_def)
    then show "\<exists>x\<in>set ?S. writes x w \<and> sb_live x" using x keep_s by blast
  next
    fix x assume x: "x \<in> set ?S" "sb_live x"
    then have x': "x \<in> set (sandboxes d)" "sb_id x \<noteq> sb_id s"
      using dead by (auto simp: set_update_rows)
    then obtain w where w: "w \<in> set (workspaces d)" "writes x w" using old x(2) by (auto simp: writers_ok_def)
    then have "\<not> ?p w" using x'(2) by (auto simp: writes_def)
    then show "\<exists>w\<in>set ?W. writes x w" using w keep_w by blast
  next
    fix w assume "w \<in> set ?W"
    then show "status_ok w" using old wstatus by (auto simp: writers_ok_def set_update_rows status_ok_def)
  next
    fix x assume "x \<in> set ?S"
    then show "expiry_ok x" using old dead by (auto simp: writers_ok_def set_update_rows expiry_ok_def)
  qed
  moreover have "ws_id ` set ?W = ws_id ` set (workspaces d)" by (intro image_update_rows) simp
  moreover have "sb_workspace ` set ?S = sb_workspace ` set (sandboxes d)" by (intro image_update_rows) simp
  moreover have "ws_keys ?W" "heads_ok ?W (revisions d)"
    using assms(1) by (auto simp: state_parts intro: ws_keys_update heads_ok_ws_update)
  ultimately show ?thesis
    using assms(1) by (simp add: state_parts finish_state_def map_update_rows)
qed

lemma finish_sandbox_ok:
  "state_ok d \<Longrightarrow> finish_sandbox d sid status wstatus now = Inr (w, d') \<Longrightarrow>
     status \<in> {SbFailed, SbTerminated} \<Longrightarrow> wstatus \<noteq> WsRunning \<Longrightarrow> state_ok d'"
  using finish_state_ok by (auto simp: finish_sandbox_Inr)

lemma delete_workspace_Inr:
  "delete_workspace d wid = Inr ((), d') \<longleftrightarrow>
     (case find_ws wid d of
        None \<Rightarrow> d' = d
      | Some w \<Rightarrow> ws_active w = None \<and>
          d' = d\<lparr>operations := delete_rows (\<lambda>r. op_workspace r = wid) (operations d),
                 revisions := delete_rows (\<lambda>r. rv_workspace r = wid) (revisions d),
                 sandboxes := delete_rows (\<lambda>s. sb_workspace s = wid) (sandboxes d),
                 workspaces := delete_rows (\<lambda>w. ws_id w = wid) (workspaces d)\<rparr>)"
  by (auto simp: delete_workspace_def require_Inr_iff split: option.splits)

lemma delete_workspace_ok:
  assumes "state_ok d" and "delete_workspace d wid = Inr ((), d')"
  shows "state_ok d'"
proof (cases "find_ws wid d")
  case None
  then show ?thesis using assms by (simp add: delete_workspace_Inr)
next
  case (Some w)
  let ?W = "delete_rows (\<lambda>w. ws_id w = wid) (workspaces d)" and ?S = "delete_rows (\<lambda>s. sb_workspace s = wid) (sandboxes d)"
  let ?O = "delete_rows (\<lambda>r. op_workspace r = wid) (operations d)" and ?R = "delete_rows (\<lambda>r. rv_workspace r = wid) (revisions d)"
  have d': "d' = d\<lparr>operations := ?O, revisions := ?R, sandboxes := ?S, workspaces := ?W\<rparr>"
    using Some assms(2) by (simp add: delete_workspace_Inr)
  have old: "writers_ok (workspaces d) (sandboxes d)" using assms(1) by (simp add: state_ok_def)
  have "writers_ok ?W ?S"
    unfolding writers_ok_def
  proof (intro conjI ballI impI)
    fix w assume w: "w \<in> set ?W" "ws_active w \<noteq> None"
    then obtain s where "s \<in> set (sandboxes d)" "writes s w" "sb_live s"
      using old by (auto simp: writers_ok_def set_delete_rows)
    then show "\<exists>s\<in>set ?S. writes s w \<and> sb_live s"
      using w(1) by (intro bexI [of _ s]) (auto simp: set_delete_rows writes_def)
  next
    fix s assume s: "s \<in> set ?S" "sb_live s"
    then obtain w where "w \<in> set (workspaces d)" "writes s w"
      using old by (auto simp: writers_ok_def set_delete_rows)
    then show "\<exists>w\<in>set ?W. writes s w"
      using s(1) by (intro bexI [of _ w]) (auto simp: set_delete_rows writes_def)
  qed (use old in \<open>auto simp: writers_ok_def set_delete_rows\<close>)
  moreover have "heads_ok ?W ?R"
    unfolding heads_ok_def
  proof (intro ballI allI impI)
    fix w h assume w: "w \<in> set ?W" "ws_head w = Some h"
    then obtain r where "r \<in> set (revisions d)" "rv_workspace r = ws_id w" "rv_snapshot r = h"
      using assms(1) by (auto simp: state_ok_def heads_ok_def set_delete_rows)
    then show "\<exists>r\<in>set ?R. rv_workspace r = ws_id w \<and> rv_snapshot r = h"
      using w(1) by (intro bexI [of _ r]) (auto simp: set_delete_rows)
  qed
  moreover have "refs_ok d'"
    using assms(1) by (simp add: state_ok_def refs_ok_def d' refs_delete_rows)
  ultimately show ?thesis
    using assms(1)
    by (simp add: d' state_ok_def keys_ok_def ws_keys_def op_keys_def rv_keys_def distinct_delete_rows)
qed

lemma schedule_workspace_delete_ok:
  assumes "state_ok d" and "schedule_workspace_delete d wid after now = Inr (w, d')"
  shows "state_ok d'"
proof -
  have "status_ok w" if "w \<in> set (workspaces d)" for w
    using assms(1) that by (simp add: state_ok_def writers_ok_def)
  then show ?thesis
    using assms by (auto simp: schedule_workspace_delete_def require_Inr_iff Let_def
        split: option.splits intro!: state_ok_ws_update)
qed

definition moved_row :: "ws_status \<Rightarrow> int \<Rightarrow> workspace_row \<Rightarrow> workspace_row" where
  "moved_row status now w = w\<lparr>ws_status := status, ws_updated := now\<rparr>"

lemma transition_workspace_Inr:
  assumes "state_ok d"
  shows "transition_workspace d wid expected status now = Inr (w, d') \<longleftrightarrow>
    (\<exists>row\<in>set (workspaces d). ws_id row = wid \<and> ws_status row \<in> set expected
       \<and> (ws_active row = None \<or> status = WsRunning) \<and> w = moved_row status now row
       \<and> d' = d\<lparr>workspaces := update_rows (\<lambda>w. ws_id w = wid) (moved_row status now) (workspaces d)\<rparr>)"
proof (cases "find_ws wid d")
  case None
  then show ?thesis by (simp add: transition_workspace_def ex_ws [OF assms])
next
  case (Some row)
  then have "find_ws wid (d\<lparr>workspaces := update_rows (\<lambda>w. ws_id w = wid)
      (\<lambda>w. w\<lparr>ws_status := status, ws_updated := now\<rparr>) (workspaces d)\<rparr>) = Some (moved_row status now row)"
    using find_ids(1) [OF Some] by (simp add: find_ws_def select_one_update_rows moved_row_def)
  then show ?thesis
    using Some by (auto simp: transition_workspace_def require_Inr_iff Let_def moved_row_def [abs_def]
        ex_ws [OF assms])
qed

lemma transition_workspace_ok:
  assumes "state_ok d" and "transition_workspace d wid expected status now = Inr (w, d')"
    and "status \<noteq> WsRunning"
  shows "state_ok d'"
proof -
  obtain row where row: "row \<in> set (workspaces d)" "ws_id row = wid" "ws_active row = None"
    and d': "d' = d\<lparr>workspaces := update_rows (\<lambda>w. ws_id w = wid) (moved_row status now) (workspaces d)\<rparr>"
    using assms by (auto simp: transition_workspace_Inr)
  have "status_ok (moved_row status now v)" if "v \<in> set (workspaces d)" "ws_id v = wid" for v
  proof -
    have "v = row" using assms(1) row(1,2) that ws_eq by blast
    then show ?thesis using row(3) assms(3) by (simp add: status_ok_def moved_row_def)
  qed
  then show ?thesis
    using assms(1) unfolding d' by (intro state_ok_ws_update) (simp_all add: moved_row_def)
qed

definition head_row :: "string \<Rightarrow> int \<Rightarrow> workspace_row \<Rightarrow> workspace_row" where
  "head_row rid now w = w\<lparr>ws_head := Some rid, ws_status := WsDetachedClean, ws_updated := now\<rparr>"

definition done_row :: "obj \<Rightarrow> int \<Rightarrow> operation_row \<Rightarrow> operation_row" where
  "done_row result now r =
     r\<lparr>op_status := OpSucceeded, op_result := Some (canon_obj result), op_error := None, op_updated := now\<rparr>"

definition commit_state :: "db \<Rightarrow> string \<Rightarrow> string \<Rightarrow> string \<Rightarrow> obj \<Rightarrow> int \<Rightarrow> db" where
  "commit_state d wid oid rid result now =
     d\<lparr>revisions :=
          (if list_ex (\<lambda>r. rv_workspace r = wid \<and> rv_snapshot r = rid) (revisions d) then revisions d
           else revisions d @ [\<lparr>rv_id = rid, rv_workspace = wid, rv_snapshot = rid, rv_created = now\<rparr>]),
       workspaces := update_rows (\<lambda>w. ws_id w = wid) (head_row rid now) (workspaces d),
       operations := update_rows (\<lambda>r. op_id r = oid) (done_row result now) (operations d)\<rparr>"

text \<open>
  A commit succeeds exactly for an idle checkpointing Workspace of the expected generation whose
  operation exists and whose revision id no other Workspace uses.
\<close>

lemma commit_revision_eq:
  assumes "find_ws wid d = Some w"
  shows "commit_revision d wid oid rid generation result now =
    require (ws_status w = WsCheckpointing \<and> ws_active w = None \<and> ws_generation w = generation)
      (StateConflict (named ''Workspace'' wid '' changed during checkpoint''))
      (require (\<forall>v\<in>set (revisions d). rv_id v = rid \<longrightarrow>
            (\<exists>u\<in>set (revisions d). rv_workspace u = wid \<and> rv_snapshot u = rid)) StateIntegrity
        (case find_op oid d of
           None \<Rightarrow> Inl StateAssertion
         | Some r \<Rightarrow> Inr ((head_row rid now w, done_row result now r), commit_state d wid oid rid result now)))"
proof -
  let ?d = "commit_state d wid oid rid result now"
  let ?seen = "list_ex (\<lambda>r. rv_workspace r = wid \<and> rv_snapshot r = rid) (revisions d)"
  have fw: "find_ws wid ?d = Some (head_row rid now w)"
    using assms find_ids(1) [OF assms]
    by (simp add: find_ws_def select_one_update_rows commit_state_def head_row_def)
  have fo: "find_op oid ?d = map_option (done_row result now) (find_op oid d)"
    by (cases "find_op oid d") (auto dest: select_one_Some
        simp: find_op_def select_one_update_rows commit_state_def done_row_def)
  have "commit_revision d wid oid rid generation result now =
      require (\<not> (ws_status w \<noteq> WsCheckpointing \<or> ws_active w \<noteq> None \<or> ws_generation w \<noteq> generation))
        (StateConflict (named ''Workspace'' wid '' changed during checkpoint''))
        (if \<not> ?seen \<and> list_ex (\<lambda>r. rv_id r = rid) (revisions d) then Inl StateIntegrity
         else (case (find_ws wid ?d, find_op oid ?d) of
                 (Some w', Some r') \<Rightarrow> Inr ((w', r'), ?d) | _ \<Rightarrow> Inl StateAssertion))"
    by (cases ?seen; cases "list_ex (\<lambda>r. rv_id r = rid) (revisions d)")
      (simp_all add: commit_revision_def assms commit_state_def head_row_def [abs_def]
        done_row_def [abs_def] Let_def cong: option.case_cong)
  also have "\<dots> = require (ws_status w = WsCheckpointing \<and> ws_active w = None \<and> ws_generation w = generation)
        (StateConflict (named ''Workspace'' wid '' changed during checkpoint''))
        (require (?seen \<or> \<not> list_ex (\<lambda>r. rv_id r = rid) (revisions d)) StateIntegrity
        (case find_op oid d of
           None \<Rightarrow> Inl StateAssertion
         | Some r \<Rightarrow> Inr ((head_row rid now w, done_row result now r), ?d)))"
    by (simp add: fw fo require_def split: option.split)
  finally show ?thesis by (simp add: list_ex_iff require_def) blast
qed

lemma commit_revision_Inr:
  assumes "state_ok d"
  shows "commit_revision d wid oid rid generation result now = Inr x \<longleftrightarrow>
    (\<exists>w\<in>set (workspaces d). ws_id w = wid \<and>
      (\<exists>r\<in>set (operations d). op_id r = oid
       \<and> ws_status w = WsCheckpointing \<and> ws_active w = None \<and> ws_generation w = generation
       \<and> (\<forall>v\<in>set (revisions d). rv_id v = rid \<longrightarrow>
            (\<exists>u\<in>set (revisions d). rv_workspace u = wid \<and> rv_snapshot u = rid))
       \<and> x = ((head_row rid now w, done_row result now r), commit_state d wid oid rid result now)))"
proof (cases "find_ws wid d")
  case None
  then show ?thesis by (simp add: commit_revision_def ex_ws [OF assms])
next
  case (Some w)
  then show ?thesis
    by (cases "find_op oid d") (auto simp: commit_revision_eq require_Inr_iff ex_ws [OF assms] ex_op [OF assms])
qed

lemma commit_state_ok:
  assumes "state_ok d" and w: "w \<in> set (workspaces d)" "ws_id w = wid" "ws_active w = None"
    and "\<forall>v\<in>set (revisions d). rv_id v = rid \<longrightarrow>
            (\<exists>u\<in>set (revisions d). rv_workspace u = wid \<and> rv_snapshot u = rid)"
  shows "state_ok (commit_state d wid oid rid result now)"
proof -
  let ?d = "commit_state d wid oid rid result now"
  let ?W = "update_rows (\<lambda>w. ws_id w = wid) (head_row rid now) (workspaces d)"
  let ?O = "update_rows (\<lambda>r. op_id r = oid) (done_row result now) (operations d)"
  have rows: "workspaces ?d = ?W" "operations ?d = ?O" "sandboxes ?d = sandboxes d" "nonces ?d = nonces d"
    by (simp_all add: commit_state_def)
  have R: "rv_keys (revisions ?d)" "rv_workspace ` set (revisions ?d) \<subseteq> ws_id ` set (workspaces d)"
      "set (revisions d) \<subseteq> set (revisions ?d)"
      "\<exists>r\<in>set (revisions ?d). rv_workspace r = wid \<and> rv_snapshot r = rid"
    using assms by (auto simp: state_parts rv_keys_def commit_state_def list_ex_iff)
  have only: "v = w" if "v \<in> set (workspaces d)" "ws_id v = wid" for v using assms(1) w that ws_eq by blast
  have "writers_ok ?W (sandboxes d)"
  proof (rule writers_ok_ws_update)
    show "status_ok (head_row rid now v)" if "ws_id v = wid" "v \<in> set (workspaces d)" for v
      using only [OF that(2,1)] w(3) by (simp add: status_ok_def head_row_def)
  qed (use assms(1) in \<open>simp_all add: state_ok_def head_row_def\<close>)
  moreover have "heads_ok ?W (revisions ?d)"
    using assms(1) R(3,4) by (fastforce simp: state_ok_def heads_ok_def set_update_rows head_row_def)
  moreover have "ws_id ` set ?W = ws_id ` set (workspaces d)" "op_workspace ` set ?O = op_workspace ` set (operations d)"
    by (simp_all add: image_update_rows head_row_def done_row_def)
  moreover have "ws_keys ?W" "op_keys ?O"
    using assms(1) by (auto simp: state_parts head_row_def done_row_def intro: ws_keys_update op_keys_update)
  ultimately show ?thesis using assms(1) R by (simp add: state_parts rows)
qed

lemma commit_revision_ok:
  "state_ok d \<Longrightarrow> commit_revision d wid oid rid generation result now = Inr (x, d') \<Longrightarrow> state_ok d'"
  using commit_state_ok by (fastforce simp: commit_revision_Inr)

lemma consume_nonce_ok: "state_ok d \<Longrightarrow> state_ok (fst (consume_nonce d n e now))"
  by (auto simp: consume_nonce_def Let_def list_ex_iff distinct_nonces distinct_delete_rows
      intro!: state_ok_nonces)

lemma new_operation_simps [simp]:
  "op_id (new_operation oid name wid sid key input now) = oid"
  "op_key (new_operation oid name wid sid key input now) = key"
  "op_workspace (new_operation oid name wid sid key input now) = wid"
  by (simp_all add: new_operation_def)

lemma create_operation_Inr:
  "create_operation d oid name wid sid key input now = Inr ((r, created), d') \<longleftrightarrow>
     (case select_one (\<lambda>r. op_key r = key) (operations d) of
        Some existing \<Rightarrow> r = existing \<and> \<not> created \<and> d' = d
      | None \<Rightarrow> find_op oid d = None \<and> find_ws wid d \<noteq> None \<and> created
          \<and> r = new_operation oid name wid sid key input now
          \<and> d' = d\<lparr>operations := operations d @ [r]\<rparr>)"
proof -
  have "find_op oid (d\<lparr>operations := operations d @ [new_operation oid name wid sid key input now]\<rparr>) =
      Some (new_operation oid name wid sid key input now)" if "find_op oid d = None"
    using that by (simp add: find_op_def table_simps)
  then show ?thesis
    by (auto simp: create_operation_def require_Inr_iff Let_def split: option.split)
qed

lemma create_operation_ok:
  assumes "state_ok d" and "create_operation d oid name wid sid key input now = Inr ((r, created), d')"
  shows "state_ok d'"
proof (cases "select_one (\<lambda>r. op_key r = key) (operations d)")
  case None
  then have "find_op oid d = None" "find_ws wid d \<noteq> None" and r: "r = new_operation oid name wid sid key input now"
    and d': "d' = d\<lparr>operations := operations d @ [r]\<rparr>"
    using assms(2) by (simp_all add: create_operation_Inr)
  then have "oid \<notin> op_id ` set (operations d)" "key \<notin> op_key ` set (operations d)"
      "wid \<in> ws_id ` set (workspaces d)" "op_id r = oid" "op_key r = key" "op_workspace r = wid"
    using None by (auto simp: select_one_None find_None)
  then show ?thesis
    using assms(1) unfolding d' by (auto simp: state_parts op_keys_def)
next
  case (Some x)
  then show ?thesis using assms by (simp add: create_operation_Inr)
qed

lemma update_operation_Inr:
  assumes "state_ok d"
  shows "update_operation d oid status phase result err now = Inr (r', d') \<longleftrightarrow>
    (\<exists>r\<in>set (operations d). op_id r = oid \<and> r' = set_operation status phase result err now r
       \<and> d' = d\<lparr>operations := update_rows (\<lambda>r. op_id r = oid) (set_operation status phase result err now)
                (operations d)\<rparr>)"
proof (cases "find_op oid d")
  case None
  then have "row_count (\<lambda>r. op_id r = oid) (operations d) = 0" by (auto simp: find_None row_count_0)
  then show ?thesis using None by (simp add: update_operation_def Let_def ex_op [OF assms])
next
  case (Some r)
  have "row_count (\<lambda>r. op_id r = oid) (operations d) = 1"
    using row_count_key [of op_id "operations d" oid "\<lambda>r. True"] assms Some
    by (simp add: find_op_def state_parts op_keys_def)
  moreover have "find_op oid (d\<lparr>operations := update_rows (\<lambda>r. op_id r = oid)
      (set_operation status phase result err now) (operations d)\<rparr>) = Some (set_operation status phase result err now r)"
    using Some find_ids(3) [OF Some] by (simp add: find_op_def select_one_update_rows set_operation_def)
  ultimately show ?thesis using Some by (auto simp: update_operation_def Let_def ex_op [OF assms])
qed

lemma update_operation_ok:
  assumes "state_ok d" and "update_operation d oid status phase result err now = Inr (r, d')"
  shows "state_ok d'"
proof -
  have "d' = d\<lparr>operations := update_rows (\<lambda>r. op_id r = oid) (set_operation status phase result err now) (operations d)\<rparr>"
    using assms(2) by (auto simp: update_operation_def require_Inr_iff Let_def split: option.splits)
  then show ?thesis
    using assms(1) by (auto intro!: state_ok_ops simp: set_operation_def)
qed

lemma committed_ok:
  "state_ok d \<Longrightarrow> (\<And>a d'. m = Inr (a, d') \<Longrightarrow> state_ok d') \<Longrightarrow> state_ok (fst (committed d m))"
  by (cases m) auto

lemmas call_ok = create_workspace_ok claim_workspace_ok mark_sandbox_running_ok renew_sandbox_ok
  finish_sandbox_ok delete_workspace_ok schedule_workspace_delete_ok transition_workspace_ok
  commit_revision_ok consume_nonce_ok create_operation_ok update_operation_ok

lemma apply_call_ok:
  assumes "state_ok d" and "wf_call c"
  shows "state_ok (fst (apply_call d c))"
  using assms by (cases c) (auto intro!: committed_ok consume_nonce_ok dest: call_ok)

lemma run_calls_ok: "state_ok d \<Longrightarrow> \<forall>c\<in>set cs. wf_call c \<Longrightarrow> state_ok (run_calls d cs)"
  by (induction cs arbitrary: d) (simp_all add: apply_call_ok)

end
