(* ===== verification/State_Safety.thy ===== *)
theory State_Safety
  imports State_Invariants
begin

text \<open>
  What the Manager relies on across calls of \<open>StateStore\<close>: the interface of an exclusive lock with
  its history property, interpreted on the claim and the release of a Workspace; single use of
  nonces; idempotency keys; the frame of a deletion and the atomicity of a commit.
\<close>

section \<open>Exclusive locks\<close>

text \<open>
  \<open>step s c\<close> performs call \<open>c\<close> and says whether it succeeded; \<open>acquires c\<close> is the resource and
  the holder of an acquiring call, \<open>releases c\<close> the holder that a call releases.
\<close>

definition state_at :: "('s \<Rightarrow> 'c \<Rightarrow> 's \<times> bool) \<Rightarrow> 's \<Rightarrow> 'c list \<Rightarrow> nat \<Rightarrow> 's" where
  "state_at step s cs i = foldl (\<lambda>s c. fst (step s c)) s (take i cs)"

definition done_at :: "('s \<Rightarrow> 'c \<Rightarrow> 's \<times> bool) \<Rightarrow> 's \<Rightarrow> 'c list \<Rightarrow> nat \<Rightarrow> bool" where
  "done_at step s cs i = snd (step (state_at step s cs i) (cs ! i))"

lemma state_at_Suc:
  "i < length cs \<Longrightarrow> state_at step s cs (Suc i) = fst (step (state_at step s cs i) (cs ! i))"
  by (simp add: state_at_def take_Suc_conv_app_nth)

locale exclusive_lock =
  fixes ok :: "'s \<Rightarrow> bool" and legal :: "'c \<Rightarrow> bool" and step :: "'s \<Rightarrow> 'c \<Rightarrow> 's \<times> bool"
    and acquires :: "'c \<Rightarrow> ('r \<times> 'h) option" and releases :: "'c \<Rightarrow> 'h option"
    and owner :: "'s \<Rightarrow> 'r \<Rightarrow> 'h option"
  assumes ok_step: "ok s \<Longrightarrow> legal c \<Longrightarrow> ok (fst (step s c))"
    and acquire: "ok s \<Longrightarrow> acquires c = Some (r, h) \<Longrightarrow> snd (step s c) \<Longrightarrow>
      owner s r = None \<and> owner (fst (step s c)) r = Some h"
    and keep: "ok s \<Longrightarrow> legal c \<Longrightarrow> owner s r = Some h \<Longrightarrow> \<not> (releases c = Some h \<and> snd (step s c)) \<Longrightarrow>
      owner (fst (step s c)) r = Some h"
begin

lemma ok_at: "ok s \<Longrightarrow> \<forall>c\<in>set cs. legal c \<Longrightarrow> i \<le> length cs \<Longrightarrow> ok (state_at step s cs i)"
  by (induction i) (simp_all add: state_at_Suc ok_step, simp add: state_at_def)

text \<open>Between two successful acquisitions of a resource its first holder has released it.\<close>

lemma released_between:
  assumes "ok s" and "\<forall>c\<in>set cs. legal c" and "i < j" and "j < length cs"
    and "acquires (cs ! i) = Some (r, h)" and "done_at step s cs i"
    and "acquires (cs ! j) = Some (r, h')" and "done_at step s cs j"
  shows "\<exists>k. i < k \<and> k < j \<and> releases (cs ! k) = Some h \<and> done_at step s cs k"
proof (rule ccontr)
  assume no: "\<not> ?thesis"
  have "i + Suc n \<le> j \<Longrightarrow> owner (state_at step s cs (i + Suc n)) r = Some h" for n
  proof (induction n)
    case 0
    have "ok (state_at step s cs i)" using assms by (intro ok_at) simp_all
    then show ?case
      using acquire [of "state_at step s cs i" "cs ! i" r h] assms(3-6) by (simp add: state_at_Suc done_at_def)
  next
    case (Suc n)
    let ?k = "i + Suc n"
    have k: "?k < length cs" "ok (state_at step s cs ?k)"
      using Suc.prems assms by (simp_all add: ok_at)
    moreover have "\<not> (releases (cs ! ?k) = Some h \<and> done_at step s cs ?k)"
      using no Suc.prems by (metis Suc_le_lessD add_Suc_right less_add_Suc1)
    ultimately have "owner (fst (step (state_at step s cs ?k) (cs ! ?k))) r = Some h"
      using Suc assms(2) by (intro keep) (simp_all add: done_at_def)
    then show ?case using k(1) by (simp add: state_at_Suc)
  qed
  from this [of "j - Suc i"] have "owner (state_at step s cs j) r = Some h" using assms(3) by simp
  moreover have "ok (state_at step s cs j)" using assms by (intro ok_at) simp_all
  ultimately show False
    using acquire [of "state_at step s cs j" "cs ! j" r h'] assms(7,8) by (simp add: done_at_def)
qed

end

section \<open>The writer of a Workspace\<close>

definition writer_of :: "db \<Rightarrow> string \<Rightarrow> string option" where
  "writer_of d wid = (case find_ws wid d of None \<Rightarrow> None | Some w \<Rightarrow> ws_active w)"

fun claim_of :: "db_call \<Rightarrow> (string \<times> string) option" where
  "claim_of (ClaimWorkspace wid sid host container created expires) = Some (wid, sid)"
| "claim_of _ = None"

fun finish_of :: "db_call \<Rightarrow> string option" where
  "finish_of (FinishSandbox sid status wstatus now) = Some sid"
| "finish_of _ = None"

lemma writer_update:
  assumes "workspaces d' = update_rows p f (workspaces d)" and "\<And>w. ws_id (f w) = ws_id w"
    and "\<And>w. w \<in> set (workspaces d) \<Longrightarrow> p w \<Longrightarrow> ws_id w = wid \<Longrightarrow> ws_active w = Some sid \<Longrightarrow>
           ws_active (f w) = Some sid"
    and "writer_of d wid = Some sid"
  shows "writer_of d' wid = Some sid"
proof -
  obtain w where w: "find_ws wid d = Some w" "ws_active w = Some sid"
    using assms(4) by (auto simp: writer_of_def split: option.splits)
  then have "w \<in> set (workspaces d)" "ws_id w = wid" by (auto simp: find_ws_def dest: select_one_Some)
  moreover have "find_ws wid d' = Some (if p w then f w else w)"
    using w(1) assms(1,2) by (simp add: find_ws_def select_one_update_rows)
  ultimately show ?thesis using assms(3) w(2) by (simp add: writer_of_def)
qed

lemma committed_failed: "\<not> snd (committed d m) \<Longrightarrow> fst (committed d m) = d"
  by (cases m) auto

lemma writer_same: "workspaces d' = workspaces d \<Longrightarrow> writer_of d' wid = writer_of d wid"
  by (simp add: writer_of_def find_ws_def)

lemma claim_writer:
  assumes "state_ok d" and "claim_of c = Some (wid, sid)" and "snd (apply_call d c)"
  shows "writer_of d wid = None \<and> writer_of (fst (apply_call d c)) wid = Some sid"
proof -
  obtain host container created expires where c: "c = ClaimWorkspace wid sid host container created expires"
    using assms(2) by (cases c) auto
  then obtain x d' where m: "claim_workspace d wid sid host container created expires = Inr (x, d')"
    and d': "fst (apply_call d c) = d'"
    using assms(3) by (cases "claim_workspace d wid sid host container created expires") auto
  then obtain row where row: "find_ws wid d = Some row" "ws_active row = None"
    and eq: "d' = claim_state d wid (new_sandbox sid wid host container created expires) created"
    using assms(1) by (auto simp: claim_workspace_Inr Let_def find_ws_Some)
  then have "find_ws wid d' = Some (claimed_row sid created row)"
    using find_ids(1) [OF row(1)] by (simp add: find_ws_def claim_state_def select_one_update_rows)
  then show ?thesis using row d' by (simp add: writer_of_def)
qed

lemma writer_kept:
  assumes "state_ok d" and "wf_call c" and owned: "writer_of d wid = Some sid"
    and "\<not> (finish_of c = Some sid \<and> snd (apply_call d c))"
  shows "writer_of (fst (apply_call d c)) wid = Some sid"
proof (cases "snd (apply_call d c) \<or> (\<exists>n e t. c = ConsumeNonce n e t)")
  case False
  then have "fst (apply_call d c) = d"
    by (cases c) (simp_all add: committed_failed)
  then show ?thesis using owned by simp
next
  case True
  note sn = writer_same [THEN trans, OF _ owned]
  show ?thesis
  proof (cases c)
    case (ClaimWorkspace w s host container created expires)
    then obtain x d' where m: "claim_workspace d w s host container created expires = Inr (x, d')"
      using True by (cases "claim_workspace d w s host container created expires") auto
    have "wid \<noteq> w"
      using owned claim_writer [OF assms(1), of c w s] True ClaimWorkspace by fastforce
    moreover have "workspaces d' = update_rows (\<lambda>v. ws_id v = w) (claimed_row s created) (workspaces d)"
      using m by (auto simp: claim_workspace_Inr [OF assms(1)] Let_def claim_state_def)
    ultimately have "writer_of d' wid = Some sid" using owned by - (rule writer_update [where d = d], assumption, auto)
    then show ?thesis using m ClaimWorkspace by simp
  next
    case (FinishSandbox s status wstatus now)
    then obtain w d' where m: "finish_sandbox d s status wstatus now = Inr (w, d')"
      using True by (cases "finish_sandbox d s status wstatus now") auto
    then obtain row where row: "sb_id row = s" "d' = finish_state d row status wstatus now"
      using assms(1) by (auto simp: finish_sandbox_Inr)
    moreover have "s \<noteq> sid" using assms(4) True FinishSandbox by auto
    ultimately have "writer_of d' wid = Some sid"
      using owned by - (rule writer_update [where d = d], simp add: finish_state_def, auto)
    then show ?thesis using m FinishSandbox by simp
  next
    case (DeleteWorkspace w)
    then obtain d' where m: "delete_workspace d w = Inr ((), d')"
      using True by (cases "delete_workspace d w") auto
    have "find_ws wid d' = find_ws wid d"
    proof (cases "find_ws w d")
      case None
      then show ?thesis using m by (simp add: delete_workspace_Inr)
    next
      case (Some row)
      then have "ws_active row = None" "workspaces d' = delete_rows (\<lambda>v. ws_id v = w) (workspaces d)"
        using m by (simp_all add: delete_workspace_Inr)
      then have "wid \<noteq> w" using owned Some by (auto simp: writer_of_def)
      then show ?thesis
        by (simp add: find_ws_def \<open>workspaces d' = _\<close> select_one_delete_rows)
    qed
    then have "writer_of d' wid = Some sid" using owned by (simp add: writer_of_def)
    then show ?thesis using m DeleteWorkspace by simp
  next
    case (CreateWorkspace w kind vol now)
    then obtain x d' where m: "create_workspace d w kind vol now = Inr (x, d')"
      using True by (cases "create_workspace d w kind vol now") auto
    then have "writer_of d' wid = Some sid"
      using owned by (auto simp: create_workspace_Inr writer_of_def find_ws_def table_simps split: option.splits)
    then show ?thesis using m CreateWorkspace by simp
  next
    case (TransitionWorkspace w expected status now)
    then obtain x d' where m: "transition_workspace d w expected status now = Inr (x, d')"
      using True by (cases "transition_workspace d w expected status now") auto
    then have "workspaces d' = update_rows (\<lambda>v. ws_id v = w) (moved_row status now) (workspaces d)"
      using assms(1) by (auto simp: transition_workspace_Inr)
    then have "writer_of d' wid = Some sid"
      using owned by - (rule writer_update [where d = d], assumption, auto simp: moved_row_def)
    then show ?thesis using m TransitionWorkspace by simp
  next
    case (CommitRevision w oid rid generation result now)
    then obtain x d' where m: "commit_revision d w oid rid generation result now = Inr (x, d')"
      using True by (cases "commit_revision d w oid rid generation result now") auto
    then have "workspaces d' = update_rows (\<lambda>v. ws_id v = w) (head_row rid now) (workspaces d)"
      using assms(1) by (auto simp: commit_revision_Inr commit_state_def)
    then have "writer_of d' wid = Some sid"
      using owned by - (rule writer_update [where d = d], assumption, auto simp: head_row_def)
    then show ?thesis using m CommitRevision by simp
  next
    case (MarkSandboxRunning s now)
    have "writer_of (d\<lparr>sandboxes := S, workspaces := update_rows (\<lambda>w. ws_active w = Some s)
        (\<lambda>w. w\<lparr>ws_updated := now\<rparr>) (workspaces d)\<rparr>) wid = Some sid" for S
      using owned by - (rule writer_update [where d = d], simp, auto)
    then show ?thesis using MarkSandboxRunning owned by (simp add: mark_sandbox_running_def require_def Let_def)
  next
    case (ScheduleDelete w after now)
    have "writer_of (d\<lparr>workspaces := update_rows (\<lambda>v. ws_id v = w \<and> ws_kind v = Recoverable)
        (\<lambda>w. w\<lparr>ws_delete_after := Some after, ws_updated := now\<rparr>) (workspaces d)\<rparr>) wid = Some sid"
      using owned by - (rule writer_update [where d = d], simp, auto)
    then show ?thesis using ScheduleDelete owned
      by (simp add: schedule_workspace_delete_def require_def Let_def split: option.split)
  qed (rule sn, simp add: renew_sandbox_def create_operation_def update_operation_def
        consume_nonce_def require_def Let_def split: option.split)+
qed

interpretation writer: exclusive_lock state_ok wf_call apply_call claim_of finish_of writer_of
  by unfold_locales (auto simp: apply_call_ok claim_writer writer_kept)

lemma live_writer:
  "state_ok d \<Longrightarrow> s \<in> set (sandboxes d) \<Longrightarrow> sb_live s \<Longrightarrow> \<exists>w. w \<in> set (workspaces d) \<and> writes s w"
  by (simp add: state_ok_def writers_ok_def) blast

text \<open>
  C1. Whatever calls the Manager makes on a fresh store, in whatever order, and whether they
  succeed or fail: keys stay unique, references stay valid, every recorded head is a revision of
  its Workspace, and a Workspace is running exactly while it names a live Sandbox of its own.
\<close>

theorem reachable_state_ok:
  assumes "\<forall>c\<in>set calls. wf_call c"
  shows "state_ok (run_calls empty_db calls)"
  using run_calls_ok [OF state_ok_empty assms] .

definition sample_calls :: "db_call list" where
  "sample_calls =
     [CreateWorkspace ''w'' Recoverable ''v'' 1, ClaimWorkspace ''w'' ''s1'' ''h'' ''c1'' 2 9,
      ClaimWorkspace ''w'' ''s2'' ''h'' ''c2'' 3 9, MarkSandboxRunning ''s1'' 3,
      FinishSandbox ''s1'' SbTerminated WsDetachedDirty 4, ClaimWorkspace ''w'' ''s3'' ''h'' ''c3'' 5 9]"

lemma sample_calls_wf: "\<forall>c\<in>set sample_calls. wf_call c"
  by (simp add: sample_calls_def)

lemma reachable_state_ok_witness: "state_ok (run_calls empty_db sample_calls)"
  using reachable_state_ok [of sample_calls] by (simp add: sample_calls_wf)

text \<open>
  A Workspace never has two live Sandboxes: after any calls, two starting or running Sandbox
  rows of one Workspace are the same row.
\<close>

theorem single_live_sandbox:
  assumes "\<forall>c\<in>set calls. wf_call c"
    and "s \<in> set (active_sandboxes (run_calls empty_db calls))"
    and "s' \<in> set (active_sandboxes (run_calls empty_db calls))"
    and "sb_workspace s = sb_workspace s'"
  shows "s = s'"
proof -
  let ?d = "run_calls empty_db calls"
  have ok: "state_ok ?d" by (rule run_calls_ok [OF state_ok_empty assms(1)])
  have "s \<in> set (sandboxes ?d)" "sb_live s" "s' \<in> set (sandboxes ?d)" "sb_live s'"
    using assms(2,3) by (auto simp: active_sandboxes_def)
  then obtain w w' where w: "w \<in> set (workspaces ?d)" "writes s w" "w' \<in> set (workspaces ?d)" "writes s' w'"
    using live_writer [OF ok] by meson
  then have "w = w'" using ws_eq [OF ok] assms(4) by (simp add: writes_def)
  then have "sb_id s = sb_id s'" using w by (simp add: writes_def)
  then show ?thesis using sb_eq [OF ok] \<open>s \<in> set (sandboxes ?d)\<close> \<open>s' \<in> set (sandboxes ?d)\<close> by simp
qed

lemma single_live_sandbox_witness:
  "\<exists>s. s \<in> set (active_sandboxes (run_calls empty_db sample_calls)) \<and> sb_id s = ''s3''
     \<and> (\<forall>s'\<in>set (active_sandboxes (run_calls empty_db sample_calls)). sb_workspace s' = ''w'' \<longrightarrow> s' = s)"
proof -
  have live: "active_sandboxes (run_calls empty_db sample_calls) = [new_sandbox ''s3'' ''w'' ''h'' ''c3'' 5 9]"
    by code_simp
  let ?s = "new_sandbox ''s3'' ''w'' ''h'' ''c3'' 5 9"
  have "s' = ?s" if "s' \<in> set (active_sandboxes (run_calls empty_db sample_calls))" "sb_workspace s' = ''w''" for s'
    by (rule single_live_sandbox [OF sample_calls_wf that(1)]) (simp_all add: live that(2))
  then show ?thesis by (intro exI [of _ ?s]) (simp add: live)
qed

text \<open>
  C2. The claim is an exclusive lock over the life of the store: between two successful claims of
  one Workspace the Sandbox of the first has been finished, whatever else happened in between.
\<close>

theorem claim_exclusive:
  assumes "state_ok d" and "\<forall>c\<in>set calls. wf_call c" and "i < j" and "j < length calls"
    and "calls ! i = ClaimWorkspace wid sid host container created expires" and "done_at apply_call d calls i"
    and "calls ! j = ClaimWorkspace wid sid' host' container' created' expires'" and "done_at apply_call d calls j"
  shows "\<exists>k status wstatus now. i < k \<and> k < j \<and> calls ! k = FinishSandbox sid status wstatus now
    \<and> done_at apply_call d calls k"
proof -
  obtain k where k: "i < k" "k < j" "finish_of (calls ! k) = Some sid" "done_at apply_call d calls k"
    using writer.released_between [OF assms(1-4), of wid sid sid'] assms(5-8) by auto
  then obtain status wstatus now where "calls ! k = FinishSandbox sid status wstatus now"
    by (cases "calls ! k") auto
  then show ?thesis using k by blast
qed

lemma claim_exclusive_witness:
  "\<exists>k status wstatus now. 1 < k \<and> k < 5 \<and> sample_calls ! k = FinishSandbox ''s1'' status wstatus now
     \<and> done_at apply_call empty_db sample_calls k"
proof (rule claim_exclusive [OF state_ok_empty sample_calls_wf])
  show "done_at apply_call empty_db sample_calls 1" "done_at apply_call empty_db sample_calls 5"
    by code_simp+
qed (simp_all add: sample_calls_def)

definition commit_effect :: "db \<Rightarrow> string \<Rightarrow> string \<Rightarrow> string \<Rightarrow> int \<Rightarrow> obj \<Rightarrow> db \<Rightarrow> bool" where
  "commit_effect d wid oid rid generation result d' \<longleftrightarrow>
     (\<exists>w w' r r'. find_ws wid d = Some w \<and> ws_status w = WsCheckpointing \<and> ws_active w = None
        \<and> ws_generation w = generation
        \<and> find_ws wid d' = Some w' \<and> ws_head w' = Some rid \<and> ws_status w' = WsDetachedClean
        \<and> ws_generation w' = generation
        \<and> find_op oid d = Some r \<and> find_op oid d' = Some r'
        \<and> op_status r' = OpSucceeded \<and> op_result r' = Some (canon_obj result) \<and> op_error r' = None)
     \<and> (\<exists>v\<in>set (revisions d'). rv_workspace v = wid \<and> rv_snapshot v = rid)
     \<and> set (revisions d) \<subseteq> set (revisions d')
     \<and> (\<forall>x. x \<noteq> wid \<longrightarrow> find_ws x d' = find_ws x d) \<and> (\<forall>x. x \<noteq> oid \<longrightarrow> find_op x d' = find_op x d)
     \<and> sandboxes d' = sandboxes d \<and> nonces d' = nonces d"

text \<open>
  C3. A checkpoint commits as a whole or not at all. When \<open>commit_revision\<close> returns, the Workspace
  was checkpointing, unowned and of the expected generation; its head is the new revision, which is
  recorded; the operation has succeeded with the result; no other Workspace, operation, Sandbox or
  nonce changed and no revision was lost. When it raises, the store is what it was.
\<close>

theorem commit_revision_atomic:
  assumes "state_ok d"
  shows "case transaction (Some d) (\<lambda>d. commit_revision d wid oid rid generation result now) of
      (Inr x, Some d') \<Rightarrow> commit_effect d wid oid rid generation result d'
    | (Inl e, st) \<Rightarrow> st = Some d
    | _ \<Rightarrow> False"
proof (cases "commit_revision d wid oid rid generation result now")
  case (Inl e)
  then show ?thesis by (simp add: transaction_def)
next
  case (Inr x)
  then obtain w r where w: "find_ws wid d = Some w" and r: "find_op oid d = Some r"
    and guards: "ws_status w = WsCheckpointing" "ws_active w = None" "ws_generation w = generation"
    and x: "x = ((head_row rid now w, done_row result now r), commit_state d wid oid rid result now)"
    using assms by (auto simp: commit_revision_Inr find_ws_Some find_op_Some)
  let ?d = "commit_state d wid oid rid result now"
  have "find_ws y ?d = (if y = wid then Some (head_row rid now w) else find_ws y d)" for y
    using w find_ids(1) [OF w]
    by (auto simp: find_ws_def commit_state_def select_one_update_rows head_row_def
        dest!: select_one_Some intro: option.map_ident_strong)
  moreover have "find_op y ?d = (if y = oid then Some (done_row result now r) else find_op y d)" for y
    using r find_ids(3) [OF r]
    by (auto simp: find_op_def commit_state_def select_one_update_rows done_row_def
        dest!: select_one_Some intro: option.map_ident_strong)
  moreover have "set (revisions d) \<subseteq> set (revisions ?d)" "sandboxes ?d = sandboxes d" "nonces ?d = nonces d"
      "\<exists>v\<in>set (revisions ?d). rv_workspace v = wid \<and> rv_snapshot v = rid"
    by (auto simp: commit_state_def list_ex_iff)
  ultimately have "commit_effect d wid oid rid generation result ?d"
    using w r guards unfolding commit_effect_def
    by (intro conjI) (auto simp: head_row_def done_row_def)
  then show ?thesis using Inr x by (simp add: transaction_def)
qed

definition checkpoint_db :: db where
  "checkpoint_db = run_calls empty_db
     [CreateWorkspace ''w'' Recoverable ''v'' 1, ClaimWorkspace ''w'' ''s1'' ''h'' ''c1'' 2 9,
      FinishSandbox ''s1'' SbTerminated WsDetachedDirty 4,
      CreateOperation ''o'' Checkpoint ''w'' None ''checkpoint:w:1'' [] 5,
      TransitionWorkspace ''w'' [WsDetachedDirty] WsCheckpointing 5]"

lemma checkpoint_db_ok: "state_ok checkpoint_db"
  unfolding checkpoint_db_def by (rule run_calls_ok [OF state_ok_empty]) simp

lemma checkpoint_db_commits:
  "\<not> isl (fst (transaction (Some checkpoint_db) (\<lambda>d. commit_revision d ''w'' ''o'' ''r'' 1 [] 6)))"
  by code_simp

lemma commit_revision_atomic_witness:
  "\<exists>x d'. transaction (Some checkpoint_db) (\<lambda>d. commit_revision d ''w'' ''o'' ''r'' 1 [] 6) = (Inr x, Some d')
     \<and> commit_effect checkpoint_db ''w'' ''o'' ''r'' 1 [] d'"
  using commit_revision_atomic [OF checkpoint_db_ok, of "''w''" "''o''" "''r''" 1 "[]" 6] checkpoint_db_commits
  by (auto split: prod.splits sum.splits option.splits)

section \<open>Idempotency keys\<close>

text \<open>The columns of an operation row that no update touches.\<close>

definition op_identity ::
    "operation_row \<Rightarrow> string \<times> op_name \<times> string \<times> string option \<times> string \<times> obj \<times> int" where
  "op_identity r =
     (op_id r, op_name r, op_workspace r, op_sandbox r, op_key r, op_input r, op_created r)"

lemma op_rows_kept:
  assumes "\<And>r. op_identity (h r) = op_identity r" and "r \<in> set rows"
  shows "\<exists>r'\<in>set (update_rows p h rows). op_identity r' = op_identity r"
  using assms by (intro bexI [of _ "if p r then h r else r"]) (auto simp: update_rows_def)

lemma operation_row_kept:
  assumes "r \<in> set (operations d)" and "c \<noteq> DeleteWorkspace (op_workspace r)"
  shows "\<exists>r'\<in>set (operations (fst (apply_call d c))). op_identity r' = op_identity r"
proof (cases "operations (fst (apply_call d c)) = operations d")
  case True
  then show ?thesis using assms(1) by auto
next
  case False
  show ?thesis
  proof (cases c)
    case (CommitRevision wid oid rid generation result now)
    then have "operations (fst (apply_call d c)) = update_rows (\<lambda>r. op_id r = oid) (done_row result now) (operations d)"
    proof (cases "find_ws wid d")
      case None
      then show ?thesis using False CommitRevision by (simp add: commit_revision_def)
    next
      case (Some w)
      then show ?thesis using False CommitRevision
        by (auto simp: commit_revision_eq [OF Some] require_def commit_state_def split: option.splits if_splits)
    qed
    then show ?thesis using op_rows_kept [of "done_row result now"] assms(1) by (simp add: op_identity_def done_row_def)
  next
    case (UpdateOperation oid status phase result err now)
    then have "operations (fst (apply_call d c)) =
        update_rows (\<lambda>r. op_id r = oid) (set_operation status phase result err now) (operations d)"
      using False by (auto simp: update_operation_def require_def Let_def split: option.splits if_splits)
    then show ?thesis using op_rows_kept [of "set_operation status phase result err now"] assms(1)
      by (simp add: op_identity_def set_operation_def)
  next
    case (CreateOperation oid name wid sid key input now)
    then have "\<exists>x. operations (fst (apply_call d c)) = operations d @ [x]"
      using False by (auto simp: create_operation_def require_def Let_def split: option.splits if_splits)
    then show ?thesis using assms(1) by auto
  next
    case (DeleteWorkspace wid)
    then have "operations (fst (apply_call d c)) = delete_rows (\<lambda>r. op_workspace r = wid) (operations d)"
      using False by (auto simp: delete_workspace_def require_def split: option.splits if_splits)
    then show ?thesis using assms DeleteWorkspace by (auto simp: set_delete_rows)
  qed (use False in \<open>auto simp: create_workspace_def claim_workspace_def mark_sandbox_running_def
      renew_sandbox_def finish_sandbox_def schedule_workspace_delete_def transition_workspace_def
      consume_nonce_def require_def Let_def split: option.splits if_splits\<close>)
qed

lemma operation_row_kept_run:
  "r \<in> set (operations d) \<Longrightarrow> DeleteWorkspace (op_workspace r) \<notin> set cs \<Longrightarrow>
     \<exists>r'\<in>set (operations (run_calls d cs)). op_identity r' = op_identity r"
proof (induction cs arbitrary: d r)
  case (Cons c cs)
  then obtain r1 where "r1 \<in> set (operations (fst (apply_call d c)))" "op_identity r1 = op_identity r"
    using operation_row_kept [of r d c] by auto
  moreover then have "op_workspace r1 = op_workspace r" by (simp add: op_identity_def)
  ultimately show ?case using Cons.IH [of r1 "fst (apply_call d c)"] Cons.prems(2) by auto
qed auto

lemma kept_key:
  assumes ok: "state_ok d" and calls: "\<forall>c\<in>set calls. wf_call c \<and> c \<noteq> DeleteWorkspace (op_workspace r)"
    and r: "r \<in> set (operations d)"
  shows "\<exists>r'. select_one (\<lambda>x. op_key x = op_key r) (operations (run_calls d calls)) = Some r' \<and> op_identity r' = op_identity r"
proof -
  have "DeleteWorkspace (op_workspace r) \<notin> set calls" using calls by blast
  with r obtain r' where r': "r' \<in> set (operations (run_calls d calls))" "op_identity r' = op_identity r"
    using operation_row_kept_run by blast
  have "state_ok (run_calls d calls)" using ok calls by (intro run_calls_ok) auto
  then have "select_one (\<lambda>x. op_key x = op_key r') (operations (run_calls d calls)) = Some r'"
    using r'(1) by (intro select_one_key) (simp_all add: state_parts op_keys_def)
  then show ?thesis using r'(2) by (auto simp: op_identity_def)
qed

text \<open>
  An idempotency key names one operation for the life of its Workspace: after a call created
  it, a later creation with the same key, whatever its other arguments and whatever happened in
  between short of deleting the Workspace, changes nothing and returns the first operation.
\<close>

theorem create_operation_idempotent:
  assumes "state_ok d" and "create_operation d oid name wid sid key input now = Inr ((r, created), d1)"
    and "\<forall>c\<in>set calls. wf_call c \<and> c \<noteq> DeleteWorkspace (op_workspace r)"
  shows "\<exists>r'. create_operation (run_calls d1 calls) oid' name' wid' sid' key input' now' =
      Inr ((r', False), run_calls d1 calls) \<and> op_identity r' = op_identity r"
proof -
  have "r \<in> set (operations d1) \<and> op_key r = key"
    using assms(2) by (auto simp: create_operation_Inr split: option.splits dest: select_one_Some)
  then show ?thesis
    using kept_key [OF create_operation_ok [OF assms(1,2)] assms(3)] by (auto simp: create_operation_Inr)
qed

definition sample_db :: db where
  "sample_db = run_calls empty_db [CreateWorkspace ''w'' Recoverable ''v'' 1]"

lemma sample_db_ok: "state_ok sample_db"
  unfolding sample_db_def by (rule run_calls_ok [OF state_ok_empty]) simp

lemma create_operation_idempotent_witness:
  "\<exists>r d1 r'. create_operation sample_db ''o1'' Checkpoint ''w'' None ''k'' [] 2 = Inr ((r, True), d1)
     \<and> create_operation (run_calls d1 [UpdateOperation ''o1'' OpFailed None None None 3])
          ''o2'' Restore ''w'' None ''k'' [(''a'', JNull)] 4
        = Inr ((r', False), run_calls d1 [UpdateOperation ''o1'' OpFailed None None None 3])
     \<and> op_identity r' = op_identity r"
proof -
  obtain r d1 where m: "create_operation sample_db ''o1'' Checkpoint ''w'' None ''k'' [] 2 = Inr ((r, True), d1)"
  proof -
    let ?r = "new_operation ''o1'' Checkpoint ''w'' None ''k'' [] 2"
    have "create_operation sample_db ''o1'' Checkpoint ''w'' None ''k'' [] 2 =
        Inr ((?r, True), sample_db\<lparr>operations := [?r]\<rparr>)"
      by code_simp
    then show thesis by (rule that)
  qed
  have "\<forall>c\<in>set [UpdateOperation ''o1'' OpFailed None None None 3]. wf_call c \<and> c \<noteq> DeleteWorkspace (op_workspace r)"
    by simp
  from create_operation_idempotent [OF sample_db_ok m this, of "''o2''" Restore "''w''" None "[(''a'', JNull)]" 4] m
  show ?thesis by blast
qed

section \<open>Deleting a Workspace\<close>

text \<open>
  C4. A deletion that returns leaves no row that refers to the Workspace in any table, removed no
  live Sandbox, and kept every row of the other Workspaces; it raises only when the Workspace
  has a writer, and then nothing changed.
\<close>

theorem delete_workspace_complete:
  assumes "state_ok d"
  shows "case delete_workspace d wid of
      Inr (u, d') \<Rightarrow>
        wid \<notin> ws_id ` set (workspaces d') \<and> wid \<notin> sb_workspace ` set (sandboxes d')
        \<and> wid \<notin> op_workspace ` set (operations d') \<and> wid \<notin> rv_workspace ` set (revisions d')
        \<and> active_sandboxes d' = active_sandboxes d
        \<and> (\<forall>x. x \<noteq> wid \<longrightarrow> find_ws x d' = find_ws x d)
        \<and> (\<forall>r\<in>set (operations d). op_workspace r \<noteq> wid \<longrightarrow> r \<in> set (operations d'))
        \<and> (\<forall>r\<in>set (revisions d). rv_workspace r \<noteq> wid \<longrightarrow> r \<in> set (revisions d'))
    | Inl e \<Rightarrow> writer_of d wid \<noteq> None"
proof (cases "find_ws wid d")
  case None
  then have absent: "wid \<notin> ws_id ` set (workspaces d)" by (simp add: find_None)
  moreover have "wid \<notin> sb_workspace ` set (sandboxes d)" "wid \<notin> op_workspace ` set (operations d)"
      "wid \<notin> rv_workspace ` set (revisions d)"
    using assms absent by (auto simp: state_ok_def refs_ok_def)
  ultimately show ?thesis using None by (simp add: delete_workspace_def)
next
  case (Some w)
  show ?thesis
  proof (cases "ws_active w")
    case None
    have dead: "\<not> sb_live s" if "s \<in> set (sandboxes d)" "sb_workspace s = wid" for s
    proof
      assume "sb_live s"
      then obtain v where v: "v \<in> set (workspaces d)" "writes s v" using live_writer [OF assms \<open>s \<in> set (sandboxes d)\<close>] by blast
      then have "find_ws wid d = Some v" using assms that(2) by (simp add: find_ws_Some writes_def)
      then show False using Some None v(2) by (simp add: writes_def)
    qed
    have "active_sandboxes (d\<lparr>operations := P, revisions := R,
        sandboxes := delete_rows (\<lambda>s. sb_workspace s = wid) (sandboxes d), workspaces := W\<rparr>) = active_sandboxes d"
      for P R W
      unfolding active_sandboxes_def delete_rows_def
      by (simp add: filter_filter) (rule filter_cong, use dead in auto)
    then show ?thesis
      using Some None by (auto simp: delete_workspace_def set_delete_rows find_ws_def select_one_delete_rows)
  next
    case (Some s)
    then show ?thesis using \<open>find_ws wid d = Some w\<close> by (simp add: delete_workspace_def writer_of_def)
  qed
qed

lemma delete_workspace_complete_witness:
  "\<exists>d'. delete_workspace sample_db ''w'' = Inr ((), d') \<and> active_sandboxes d' = active_sandboxes sample_db"
proof -
  have "\<not> isl (delete_workspace sample_db ''w'')" by code_simp
  then obtain d' where "delete_workspace sample_db ''w'' = Inr ((), d')" by (cases "delete_workspace sample_db ''w''") auto
  with delete_workspace_complete [OF sample_db_ok, of "''w''"] show ?thesis by simp
qed

section \<open>Consumed nonces\<close>

definition nonce_live :: "db \<Rightarrow> string \<Rightarrow> int \<Rightarrow> bool" where
  "nonce_live d n t \<longleftrightarrow> (\<exists>r\<in>set (nonces d). nc_nonce r = n \<and> t < nc_expires r)"

interpretation manager_nonces: nonce_ledger consume_nonce nonce_live
proof
  show "snd (consume_nonce d n e now) \<longleftrightarrow> \<not> nonce_live d n now" for d n e now
    by (auto simp: consume_nonce_def nonce_live_def Let_def list_ex_iff set_delete_rows)
  show "nonce_live (fst (consume_nonce d n e now)) n t" if "snd (consume_nonce d n e now)" "t < e" for d n e now t
    using that by (auto simp: consume_nonce_def nonce_live_def Let_def split: if_splits)
  show "nonce_live (fst (consume_nonce d n e now)) m t" if "nonce_live d m t" "now \<le> t" for d n e now m t
    using that by (fastforce simp: consume_nonce_def nonce_live_def Let_def set_delete_rows)
  show "nonce_live d m t'" if "nonce_live d m t" "t' \<le> t" for d m t t'
    using that by (fastforce simp: nonce_live_def)
qed

text \<open>
  A nonce is accepted once: in any sequence of calls whose clock does not go back, after a
  nonce was accepted with expiry \<open>e\<close> it is refused as long as the clock reads less than \<open>e\<close>,
  also when other calls purged expired rows in between.
\<close>

theorem nonce_single_use:
  assumes "clock_ok t0 calls" and "i < j" and "j < length calls"
    and "calls ! i = (n, e, now)" and "run_ledger consume_nonce d calls ! i"
    and "calls ! j = (n, e', now')" and "now' < e"
  shows "\<not> run_ledger consume_nonce d calls ! j"
  using manager_nonces.consumed_once [OF assms(1-4,6,5,7)] .

lemma nonce_single_use_witness:
  "\<not> run_ledger consume_nonce empty_db [(''n'', 10, 1), (''m'', 3, 4), (''n'', 20, 9)] ! 2"
proof (rule nonce_single_use [where i = 0 and n = "''n''" and e = 10 and now = 1 and e' = 20 and now' = 9
      and ?t0.0 = 0])
  show "run_ledger consume_nonce empty_db [(''n'', 10, 1), (''m'', 3, 4), (''n'', 20, 9)] ! 0" by code_simp
qed simp_all

end
