(* ===== verification/Urls.thy ===== *)
theory Urls
  imports Prelude
begin

text \<open>
  \<open>urllib.parse.urlsplit\<close> as far as the gateway uses it: the scheme, the network location and the
  host name of a URL. \<open>None\<close> stands for the \<open>ValueError\<close> on a malformed IPv6 location; whether a
  bracketed location is acceptable is decided by \<open>ipaddress\<close> and is the argument \<open>bracket_ok\<close>.
\<close>

definition is_alpha :: "char \<Rightarrow> bool" where
  "is_alpha c \<longleftrightarrow> is_upper c \<or> is_lower c"

definition is_scheme_char :: "char \<Rightarrow> bool" where
  "is_scheme_char c \<longleftrightarrow> is_alpha c \<or> is_digit c \<or> c \<in> set ''+-.''"

text \<open>Leading C0 controls and spaces are dropped, tabs and line ends removed everywhere.\<close>

definition clean_url :: "string \<Rightarrow> string" where
  "clean_url url =
     filter (\<lambda>c. c \<notin> {CHR 0x09, CHR 0x0A, CHR 0x0D}) (dropWhile (\<lambda>c. (of_char c :: nat) \<le> 32) url)"

definition url_scheme :: "string \<Rightarrow> string \<times> string" where
  "url_scheme url =
     (let s = takeWhile (\<lambda>c. c \<noteq> CHR '':'') url; rest = drop (length s) url
      in if rest \<noteq> [] \<and> s \<noteq> [] \<and> is_alpha (hd s) \<and> list_all is_scheme_char s
         then (lower s, tl rest) else ([], url))"

definition url_netloc :: "string \<Rightarrow> string" where
  "url_netloc rest =
     (if starts_with ''//'' rest then takeWhile (\<lambda>c. c \<notin> {CHR ''/'', CHR ''?'', CHR ''#''}) (drop 2 rest)
      else [])"

definition urlsplit :: "(string \<Rightarrow> bool) \<Rightarrow> string \<Rightarrow> (string \<times> string) option" where
  "urlsplit bracket_ok url =
     (let (scheme, rest) = url_scheme (clean_url url); netloc = url_netloc rest
      in if (CHR ''['' \<in> set netloc) \<noteq> (CHR '']'' \<in> set netloc) then None
         else if CHR ''['' \<in> set netloc \<and> \<not> bracket_ok netloc then None
         else Some (scheme, netloc))"

text \<open>\<open>SplitResult.hostname\<close>, the empty string for \<open>None\<close> (the callers only test its truth value).\<close>

definition url_hostname :: "string \<Rightarrow> string" where
  "url_hostname netloc =
     (let info = last (split_on CHR ''@'' netloc)
      in if CHR ''['' \<in> set info
         then takeWhile (\<lambda>c. c \<noteq> CHR '']'') (tl (dropWhile (\<lambda>c. c \<noteq> CHR ''['') info))
         else takeWhile (\<lambda>c. c \<noteq> CHR '':'') info)"

definition is_http_url :: "(string \<Rightarrow> bool) \<Rightarrow> string \<Rightarrow> bool option" where
  "is_http_url bracket_ok url =
     map_option (\<lambda>(scheme, netloc). scheme \<in> {''http'', ''https''} \<and> url_hostname netloc \<noteq> [])
       (urlsplit bracket_ok url)"

end
