(* ===== verification/Manager_Requests.thy ===== *)
theory Manager_Requests
  imports State Grants Urls
begin

text \<open>
  The synchronous entry of the Sandbox Manager, \<open>src/src/sandbox_manager/docker_backend.py\<close>: the
  authorization of a grant and \<open>create_operation\<close>, which runs without a suspension point from the
  grant to the scheduled task.

  The \<open>ValueError\<close> of \<open>urlsplit\<close> and the database errors that the handlers do not translate are
  values of \<open>mgr_error\<close> of their own.
\<close>

record mgr_cfg =
  signing_secret :: string
  grant_issuer :: string
  transfer_base :: string
  storage_enabled :: bool
  has_runner :: bool
  delete_grace :: int
  local_retention :: int
  execution_ttl :: int
  bracket_ok :: "string \<Rightarrow> bool"
  sha256_hex :: "string \<Rightarrow> string"

datatype mgr_error =
    AuthorizationError string
  | BackendError string
  | ConflictError string
  | WorkspaceNotFound string
  | SandboxNotFound string
  | OperationNotFound string
  | UncaughtState state_error
  | UncaughtValueError

fun state_message :: "state_error \<Rightarrow> string" where
  "state_message (StateNotFound m) = m"
| "state_message (StateConflict m) = m"
| "state_message StateIntegrity = ''IntegrityError''"
| "state_message StateAssertion = []"
| "state_message StateNotStarted = ''State store is not started''"

section \<open>Authorization\<close>

text \<open>
  The two clock readings are separate: \<open>verify_grant\<close> and \<open>consume_nonce\<close> each call \<open>time.time()\<close>.
  \<open>expires_at\<close> is bound to an INTEGER column, where a Python bool is its integer.
\<close>

definition authorize ::
    "grant_env \<Rightarrow> mgr_cfg \<Rightarrow> db \<Rightarrow> string \<Rightarrow> string option \<Rightarrow> string option \<Rightarrow> int \<Rightarrow> int
      \<Rightarrow> (mgr_error + obj) \<times> db" where
  "authorize E cfg d token operation wid verified_at consumed_at =
     (case verify_grant E token (signing_secret cfg) ''sandbox-manager'' operation verified_at 900 of
        Inl e \<Rightarrow> (Inl (AuthorizationError (grant_error_message e)), d)
      | Inr payload \<Rightarrow>
          if jget payload ''iss'' \<noteq> JStr (grant_issuer cfg) then
            (Inl (AuthorizationError ''Workspace grant issuer does not match''), d)
          else if \<not> (case wid of None \<Rightarrow> True | Some w \<Rightarrow> jget payload ''workspace_id'' = JStr w) then
            (Inl (AuthorizationError ''Workspace grant binding does not match''), d)
          else (case (as_str (jget payload ''nonce''), as_pyint (jget payload ''exp'')) of
             (Some nonce, Some expires) \<Rightarrow>
               (let (d', fresh) = consume_nonce d nonce expires consumed_at
                in if fresh then (Inr payload, d')
                   else (Inl (AuthorizationError ''Workspace grant was already consumed''), d'))
           | _ \<Rightarrow> (Inl UncaughtValueError, d)))"

section \<open>Claims\<close>

definition mgr_get_workspace :: "db \<Rightarrow> string \<Rightarrow> mgr_error + workspace_row" where
  "mgr_get_workspace d wid =
     (case get_workspace d wid of
        Inl e \<Rightarrow> Inl (case e of StateNotFound m \<Rightarrow> WorkspaceNotFound m | _ \<Rightarrow> UncaughtState e)
      | Inr w \<Rightarrow> Inr w)"

definition required_claim :: "obj \<Rightarrow> string \<Rightarrow> mgr_error + string" where
  "required_claim claims name =
     (case as_str (jget claims name) of
        Some v \<Rightarrow> require (\<not> (v = [] \<or> length v > 8192))
          (AuthorizationError (''Operation '' @ name @ '' is invalid'')) (Inr v)
      | None \<Rightarrow> Inl (AuthorizationError (''Operation '' @ name @ '' is invalid'')))"

definition idempotency_claim :: "obj \<Rightarrow> string \<Rightarrow> mgr_error + string" where
  "idempotency_claim claims operation =
     (let v = (if jget claims ''idempotency_key'' = JNull then jget claims ''nonce''
               else jget claims ''idempotency_key'')
      in case as_str v of
           Some s \<Rightarrow> require (\<not> (s = [] \<or> length s > 256))
             (AuthorizationError ''Operation idempotency_key is invalid'') (Inr (operation @ '':'' @ s))
         | None \<Rightarrow> Inl (AuthorizationError ''Operation idempotency_key is invalid''))"

definition message_id_claim :: "obj \<Rightarrow> string \<Rightarrow> mgr_error + string" where
  "message_id_claim claims name =
     rbind (required_claim claims name)
       (\<lambda>v. require (valid_message_id v) (AuthorizationError (''Operation '' @ name @ '' is invalid'')) (Inr v))"

definition safe_output_relative :: "string \<Rightarrow> mgr_error + string" where
  "safe_output_relative value =
     (let parts = split_on CHR ''/'' value
      in require (\<not> (starts_with ''/'' value \<or> parts = []
              \<or> list_ex (\<lambda>p. p \<in> {[], ''.'', ''..''}) parts \<or> CHR 0x00 \<in> set value))
           (AuthorizationError ''Operation output_relative_path is invalid'')
           (Inr (join_with ''/'' parts)))"

definition validate_transfer_url :: "mgr_cfg \<Rightarrow> string \<Rightarrow> mgr_error + unit" where
  "validate_transfer_url cfg url =
     (case is_http_url (bracket_ok cfg) url of
        None \<Rightarrow> Inl UncaughtValueError
      | Some http \<Rightarrow>
          require (http \<and> (url = transfer_base cfg \<or> starts_with (transfer_base cfg @ ''/'') url))
            (AuthorizationError ''Operation transfer_url is not allowed'') (Inr ()))"

abbreviation max_artifact_bytes :: int where
  "max_artifact_bytes \<equiv> 10 * 1024 ^ 3"

text \<open>One item of \<open>_checkout_artifacts\<close>: the checks of the loop body, in order.\<close>

definition checkout_artifact ::
    "mgr_cfg \<Rightarrow> string list \<Rightarrow> string list \<Rightarrow> json \<Rightarrow> mgr_error + (string \<times> string \<times> obj)" where
  "checkout_artifact cfg ids names raw =
     (case as_obj raw of
        None \<Rightarrow> Inl (AuthorizationError ''Operation Artifact is invalid'')
      | Some item \<Rightarrow>
          rbind (required_claim item ''artifact_id'') (\<lambda>aid.
          rbind (required_claim item ''filename'') (\<lambda>filename.
          rbind (required_claim item ''sha256'') (\<lambda>sha.
          rbind (required_claim item ''url'') (\<lambda>url.
          rbind (required_claim item ''token'') (\<lambda>token.
          require (prefixed_hex ''artifact_'' 32 aid) (AuthorizationError ''Operation artifact_id is invalid'')
          (require (\<not> (length filename > 255 \<or> filename \<in> {''.'', ''..''} \<or> CHR ''/'' \<in> set filename
                \<or> CHR 0x5C \<in> set filename \<or> CHR 0x00 \<in> set filename))
             (AuthorizationError ''Operation Artifact filename is invalid'')
          (require (prefixed_hex [] 64 (lower sha)) (AuthorizationError ''Operation Artifact sha256 is invalid'')
          (case as_int (jget item ''size'') of
             None \<Rightarrow> Inl (AuthorizationError ''Operation Artifact size is invalid'')
           | Some n \<Rightarrow>
               require (0 \<le> n) (AuthorizationError ''Operation Artifact size is invalid'')
               (case as_int (jget item ''max_bytes'') of
                  None \<Rightarrow> Inl (AuthorizationError ''Operation Artifact max_bytes is invalid'')
                | Some max_bytes \<Rightarrow>
                    require (\<not> (max_bytes < n \<or> max_bytes > max_artifact_bytes))
                      (AuthorizationError ''Operation Artifact max_bytes is invalid'')
                    (require (\<not> (aid \<in> set ids \<or> filename \<in> set names))
                      (AuthorizationError ''Operation Artifact ids and filenames must be unique'')
                    (rbind (validate_transfer_url cfg url) (\<lambda>u.
                      Inr (aid, filename,
                        [(''artifact_id'', JStr aid), (''filename'', JStr filename), (''size'', JInt n),
                         (''sha256'', JStr (lower sha)), (''max_bytes'', JInt max_bytes),
                         (''url'', JStr url), (''token'', JStr token)]))))))))))))))"

fun checkout_items ::
    "mgr_cfg \<Rightarrow> string list \<Rightarrow> string list \<Rightarrow> json list \<Rightarrow> mgr_error + obj list" where
  "checkout_items cfg ids names [] = Inr []"
| "checkout_items cfg ids names (raw # raws) =
     rbind (checkout_artifact cfg ids names raw) (\<lambda>(aid, filename, item).
     rbind (checkout_items cfg (aid # ids) (filename # names) raws) (\<lambda>items.
       Inr (item # items)))"

definition checkout_artifacts :: "mgr_cfg \<Rightarrow> json \<Rightarrow> mgr_error + obj list" where
  "checkout_artifacts cfg v =
     (case as_list v of
        None \<Rightarrow> Inl (AuthorizationError ''Operation artifacts cannot contain more than 32 items'')
      | Some raws \<Rightarrow>
          require (\<not> length raws > 32)
            (AuthorizationError ''Operation artifacts cannot contain more than 32 items'')
            (checkout_items cfg [] [] raws))"

section \<open>Requests for operations\<close>

record op_request =
  rq_name :: op_name
  rq_sandbox :: "string option"
  rq_input :: obj
  rq_key :: string
  rq_claims :: obj

definition operation_names :: "(string \<times> op_name) list" where
  "operation_names =
     [(''artifact_checkout'', Checkout), (''artifact_publish'', Publish),
      (''workspace_checkpoint'', Checkpoint), (''workspace_restore'', Restore)]"

text \<open>The Sandbox that a checkout or a publish is bound to.\<close>

definition bound_sandbox :: "db \<Rightarrow> obj \<Rightarrow> workspace_row \<Rightarrow> mgr_error + string" where
  "bound_sandbox d claims ws =
     rbind
       (case jget claims ''sandbox_id'' of
          JNull \<Rightarrow>
            (case ws_active ws of
               None \<Rightarrow> Inl (AuthorizationError ''Operation Workspace has no active Sandbox'')
             | Some sid \<Rightarrow> Inr sid)
        | JStr sid \<Rightarrow> require (sid \<noteq> []) (AuthorizationError ''Operation sandbox_id is invalid'') (Inr sid)
        | _ \<Rightarrow> Inl (AuthorizationError ''Operation sandbox_id is invalid''))
       (\<lambda>sid.
          case get_sandbox d sid of
            Inl e \<Rightarrow> Inl (AuthorizationError ''Operation Sandbox does not exist'')
          | Inr sandbox \<Rightarrow>
              require (\<not> (sb_workspace sandbox \<noteq> ws_id ws \<or> sb_status sandbox \<noteq> SbRunning
                    \<or> ws_active ws \<noteq> Some sid))
                (AuthorizationError ''Operation Sandbox binding is not active'') (Inr sid))"

definition artifact_input :: "obj \<Rightarrow> json" where
  "artifact_input item =
     JObj (map (\<lambda>k. (k, jget item k)) [''artifact_id'', ''filename'', ''size'', ''sha256'', ''max_bytes''])"

definition checkout_request :: "mgr_cfg \<Rightarrow> obj \<Rightarrow> string \<Rightarrow> string \<Rightarrow> mgr_error + op_request" where
  "checkout_request cfg claims requested sid =
     rbind (message_id_claim claims ''user_message_id'') (\<lambda>user.
     rbind (message_id_claim claims ''assistant_message_id'') (\<lambda>assistant.
     rbind (checkout_artifacts cfg (jget claims ''artifacts'')) (\<lambda>artifacts.
     let claims' = jset ''artifacts'' (JList (map JObj artifacts)) claims
     in rbind (idempotency_claim claims' requested) (\<lambda>key.
          Inr \<lparr>rq_name = Checkout, rq_sandbox = Some sid,
               rq_input = [(''user_message_id'', JStr user), (''assistant_message_id'', JStr assistant),
                           (''artifacts'', JList (map artifact_input artifacts))],
               rq_key = key, rq_claims = claims'\<rparr>))))"

text \<open>The optional upload target of a publish: all of its three claims or none.\<close>

definition upload_target :: "mgr_cfg \<Rightarrow> obj \<Rightarrow> mgr_error + unit" where
  "upload_target cfg claims =
     (if list_all (\<lambda>k. jget claims k = JNull) [''artifact_id'', ''upload_url'', ''upload_token'']
      then Inr ()
      else (case (as_str (jget claims ''artifact_id''), as_str (jget claims ''upload_url''),
                  as_str (jget claims ''upload_token'')) of
              (Some aid, Some url, Some token) \<Rightarrow>
                require (aid \<noteq> [] \<and> url \<noteq> [] \<and> token \<noteq> [])
                  (AuthorizationError ''Artifact upload target is incomplete'')
                (require (prefixed_hex ''artifact_'' 32 aid)
                  (AuthorizationError ''Operation artifact_id is invalid'')
                (validate_transfer_url cfg url))
            | _ \<Rightarrow> Inl (AuthorizationError ''Artifact upload target is incomplete'')))"

definition publish_request :: "mgr_cfg \<Rightarrow> obj \<Rightarrow> string \<Rightarrow> string \<Rightarrow> mgr_error + op_request" where
  "publish_request cfg claims requested sid =
     rbind (message_id_claim claims ''assistant_message_id'') (\<lambda>assistant.
     rbind (required_claim claims ''response_id'') (\<lambda>response.
     require (prefixed_hex ''resp_'' 32 response) (AuthorizationError ''Operation response_id is invalid'')
     (rbind (rbind (required_claim claims ''output_relative_path'') safe_output_relative) (\<lambda>path.
     case as_pyint (jget claims ''max_bytes'') of
       None \<Rightarrow> Inl (AuthorizationError ''Operation max_bytes is invalid'')
     | Some max_bytes \<Rightarrow>
         require (0 < max_bytes \<and> max_bytes \<le> max_artifact_bytes)
           (AuthorizationError ''Operation max_bytes is invalid'')
         (rbind (upload_target cfg claims) (\<lambda>u.
          rbind (idempotency_claim claims requested) (\<lambda>key.
            Inr \<lparr>rq_name = Publish, rq_sandbox = Some sid,
                 rq_input = [(''assistant_message_id'', JStr assistant), (''response_id'', JStr response),
                             (''output_relative_path'', JStr path),
                             (''workspace_path'', JStr (''outputs/'' @ assistant @ ''/'' @ path)),
                             (''max_bytes'', jget claims ''max_bytes'')],
                 rq_key = key, rq_claims = claims\<rparr>)))))))"

definition checkpoint_request :: "obj \<Rightarrow> workspace_row \<Rightarrow> mgr_error + op_request" where
  "checkpoint_request claims ws =
     require (ws_active ws = None) (ConflictError (named ''Workspace'' (ws_id ws) '' still has a writer''))
     (require (ws_status ws \<in> {WsDetachedDirty, WsDetachedClean})
       (ConflictError (named ''Workspace'' (ws_id ws)
          ('' cannot checkpoint while '' @ ws_status_text (ws_status ws))))
     (Inr \<lparr>rq_name = Checkpoint, rq_sandbox = None,
           rq_input = [(''generation'', JInt (ws_generation ws))],
           rq_key = ''checkpoint:'' @ ws_id ws @ '':'' @ show_int (ws_generation ws),
           rq_claims = claims\<rparr>))"

definition restore_request :: "obj \<Rightarrow> workspace_row \<Rightarrow> mgr_error + op_request" where
  "restore_request claims ws =
     (case as_str (py_or (jget claims ''revision_id'') (opt_str (ws_head ws))) of
        None \<Rightarrow> Inl (AuthorizationError ''Restore revision is not the Workspace head'')
      | Some rid \<Rightarrow>
          require (ws_head ws = Some rid) (AuthorizationError ''Restore revision is not the Workspace head'')
          (require (ws_active ws = None)
            (ConflictError (named ''Workspace'' (ws_id ws) '' still has a writer''))
          (require (ws_status ws \<in> {WsRemoteOnly, WsDetachedClean})
            (ConflictError (named ''Workspace'' (ws_id ws)
               ('' cannot restore while '' @ ws_status_text (ws_status ws))))
          (Inr \<lparr>rq_name = Restore, rq_sandbox = None, rq_input = [(''revision_id'', JStr rid)],
                rq_key = ''restore:'' @ ws_id ws @ '':'' @ rid, rq_claims = claims\<rparr>))))"

definition operation_request ::
    "mgr_cfg \<Rightarrow> db \<Rightarrow> obj \<Rightarrow> mgr_error + (workspace_row \<times> op_request)" where
  "operation_request cfg d claims =
     (case as_str (jget claims ''operation'') of
        None \<Rightarrow> Inl (AuthorizationError ''Operation grant has an unsupported operation'')
      | Some requested \<Rightarrow>
          (case map_of operation_names requested of
             None \<Rightarrow> Inl (AuthorizationError ''Operation grant has an unsupported operation'')
           | Some name \<Rightarrow>
               require (has_runner cfg) (BackendError ''Storage operations are disabled'')
               (rbind (required_claim claims ''workspace_id'') (\<lambda>wid.
                rbind (mgr_get_workspace d wid) (\<lambda>ws.
                rbind
                  (case name of
                     Checkout \<Rightarrow> rbind (bound_sandbox d claims ws) (checkout_request cfg claims requested)
                   | Publish \<Rightarrow> rbind (bound_sandbox d claims ws) (publish_request cfg claims requested)
                   | Checkpoint \<Rightarrow> checkpoint_request claims ws
                   | _ \<Rightarrow> restore_request claims ws)
                  (\<lambda>rq. Inr (ws, rq)))))))"

text \<open>The background task that a request schedules.\<close>

datatype job =
    CheckpointJob string
  | RestoreJob operation_row
  | FileJob operation_row obj
  | RetireJob string

definition request_job :: "op_request \<Rightarrow> workspace_row \<Rightarrow> operation_row \<Rightarrow> job" where
  "request_job rq ws record =
     (case rq_name rq of
        Checkpoint \<Rightarrow> CheckpointJob (ws_id ws)
      | Restore \<Rightarrow> RestoreJob record
      | _ \<Rightarrow> FileJob record (rq_claims rq))"

definition same_request :: "op_request \<Rightarrow> workspace_row \<Rightarrow> operation_row \<Rightarrow> bool" where
  "same_request rq ws record \<longleftrightarrow>
     op_name record = rq_name rq \<and> op_workspace record = ws_id ws \<and> op_sandbox record = rq_sandbox rq
     \<and> py_eq (JObj (op_input record)) (JObj (rq_input rq))"

definition start_operation ::
    "db \<Rightarrow> workspace_row \<Rightarrow> op_request \<Rightarrow> string \<Rightarrow> int
      \<Rightarrow> (mgr_error + operation_row) \<times> db \<times> job list" where
  "start_operation d ws rq uuid now =
     (case create_operation d (''operation_'' @ uuid) (rq_name rq) (ws_id ws) (rq_sandbox rq) (rq_key rq)
             (rq_input rq) now of
        Inl (StateConflict m) \<Rightarrow> (Inl (ConflictError m), d, [])
      | Inl e \<Rightarrow> (Inl (UncaughtState e), d, [])
      | Inr ((record, created), d1) \<Rightarrow>
          if \<not> same_request rq ws record then
            (Inl (ConflictError ''Operation idempotency key is bound to another request''), d1, [])
          else if rq_name rq = Checkpoint \<and> ws_status ws = WsDetachedClean then
            (case update_operation d1 (op_id record) OpSucceeded None
                    (Some [(''revision_id'', opt_str (ws_head ws)), (''already_clean'', JBool True)]) None now of
               Inl e \<Rightarrow> (Inl (UncaughtState e), d1, [])
             | Inr (record', d2) \<Rightarrow> (Inr record', d2, []))
          else if created then (Inr record, d1, [request_job rq ws record])
          else if op_status record = OpFailed
               \<or> (rq_name rq = Publish \<and> op_status record = OpRunning \<and> op_phase record = Some PhCaptured
                   \<and> as_str (jget (rq_claims rq) ''upload_url'') \<noteq> None) then
            (case update_operation d1 (op_id record) OpPending (op_phase record) (op_result record) None now of
               Inl e \<Rightarrow> (Inl (UncaughtState e), d1, [])
             | Inr (record', d2) \<Rightarrow> (Inr record', d2, [request_job rq ws record']))
          else (Inr record, d1, []))"

definition create_operation_request ::
    "grant_env \<Rightarrow> mgr_cfg \<Rightarrow> db \<Rightarrow> string \<Rightarrow> string \<Rightarrow> int \<Rightarrow> int
      \<Rightarrow> (mgr_error + operation_row) \<times> db \<times> job list" where
  "create_operation_request E cfg d grant uuid verified_at now =
     (case authorize E cfg d grant None None verified_at now of
        (Inl e, d1) \<Rightarrow> (Inl e, d1, [])
      | (Inr claims, d1) \<Rightarrow>
          (case operation_request cfg d1 claims of
             Inl e \<Rightarrow> (Inl e, d1, [])
           | Inr (ws, rq) \<Rightarrow> start_operation d1 ws rq uuid now))"

end
