(* ===== verification/Manager.thy ===== *)
theory Manager
  imports Manager_Requests
begin

text \<open>
  The coroutines of \<open>DockerSandboxBackend\<close>, \<open>src/src/sandbox_manager/docker_backend.py\<close>.

  A coroutine is a \<open>proc\<close>: it is finished with a reply, or it waits and then runs its next segment
  up to the following \<open>await\<close>. A segment gets the answer of the environment (the clock, a fresh
  \<open>uuid4\<close>, the outcome of the awaited call to Docker or to the operation runner) and the state of
  the Manager; it is \<open>None\<close> while the awaited lock is held by another coroutine. Between two
  segments any other coroutine may run. Docker is seen through the set of existing volumes and the
  outcomes of its calls; the timestamps of one segment are one reading of the clock, apart from the
  two readings of the authorization.
\<close>

section \<open>State, environment and coroutines\<close>

datatype exn =
    MgrExn mgr_error
  | PyExn string string

datatype outcome =
    Okay obj
  | Raised exn

record env =
  e_now :: int
  e_later :: int
  e_uuid :: string
  e_out :: outcome

record sb_record =
  rc_sandbox :: string
  rc_workspace :: string
  rc_volume :: string
  rc_recoverable :: bool
  rc_host :: string
  rc_created :: int
  rc_expires :: int

record mgr =
  m_db :: db
  m_volumes :: "string list"
  m_records :: "(string \<times> sb_record) list"
  m_locks :: "string list"
  m_jobs :: "job list"

record sandbox_info =
  si_id :: string
  si_status :: sb_status
  si_created :: int
  si_expires :: "int option"
  si_worker :: "string option"
  si_workspace :: string
  si_recoverable :: bool

datatype reply =
    UnitReply
  | WorkspaceReply workspace_row
  | OperationReply operation_row
  | SandboxReply sandbox_info
  | ErrorReply exn

datatype proc =
    Finished reply
  | Await "env \<Rightarrow> mgr \<Rightarrow> (mgr \<times> proc) option"

type_synonym segment = "env \<Rightarrow> mgr \<Rightarrow> mgr \<times> proc"

definition await :: "segment \<Rightarrow> proc" where
  "await g = Await (\<lambda>e s. Some (g e s))"

definition with_lock :: "string \<Rightarrow> segment \<Rightarrow> proc" where
  "with_lock wid g =
     Await (\<lambda>e s. if wid \<in> set (m_locks s) then None else Some (g e (s\<lparr>m_locks := wid # m_locks s\<rparr>)))"

definition unlock :: "string \<Rightarrow> mgr \<Rightarrow> mgr" where
  "unlock wid s = s\<lparr>m_locks := removeAll wid (m_locks s)\<rparr>"

definition schedule_operation :: "job \<Rightarrow> mgr \<Rightarrow> mgr" where
  "schedule_operation j s = s\<lparr>m_jobs := m_jobs s @ [j]\<rparr>"

definition finish :: "reply \<Rightarrow> mgr \<Rightarrow> mgr \<times> proc" where
  "finish r s = (s, Finished r)"

text \<open>A call of the state store, and one whose \<open>StateConflictError\<close>/\<open>StateNotFoundError\<close> is suppressed.\<close>

definition state_call :: "(db \<Rightarrow> state_error + 'a \<times> db) \<Rightarrow> mgr \<Rightarrow> (state_error + 'a) \<times> mgr" where
  "state_call f s = (case f (m_db s) of Inl e \<Rightarrow> (Inl e, s) | Inr (a, d) \<Rightarrow> (Inr a, s\<lparr>m_db := d\<rparr>))"

definition suppressed :: "(db \<Rightarrow> state_error + 'a \<times> db) \<Rightarrow> mgr \<Rightarrow> mgr" where
  "suppressed f s = snd (state_call f s)"

abbreviation state_exn :: "state_error \<Rightarrow> exn" where
  "state_exn e \<equiv> MgrExn (UncaughtState e)"

fun exn_class :: "exn \<Rightarrow> string" where
  "exn_class (PyExn c m) = c"
| "exn_class (MgrExn (AuthorizationError m)) = ''SandboxAuthorizationError''"
| "exn_class (MgrExn (BackendError m)) = ''SandboxBackendError''"
| "exn_class (MgrExn (ConflictError m)) = ''SandboxConflictError''"
| "exn_class (MgrExn (WorkspaceNotFound m)) = ''WorkspaceNotFoundError''"
| "exn_class (MgrExn (SandboxNotFound m)) = ''SandboxNotFoundError''"
| "exn_class (MgrExn (OperationNotFound m)) = ''OperationNotFoundError''"
| "exn_class (MgrExn (UncaughtState (StateNotFound m))) = ''StateNotFoundError''"
| "exn_class (MgrExn (UncaughtState (StateConflict m))) = ''StateConflictError''"
| "exn_class (MgrExn (UncaughtState StateIntegrity)) = ''IntegrityError''"
| "exn_class (MgrExn (UncaughtState StateAssertion)) = ''AssertionError''"
| "exn_class (MgrExn (UncaughtState StateNotStarted)) = ''RuntimeError''"
| "exn_class (MgrExn UncaughtValueError) = ''ValueError''"

fun exn_text :: "exn \<Rightarrow> string" where
  "exn_text (PyExn c m) = m"
| "exn_text (MgrExn (AuthorizationError m)) = m"
| "exn_text (MgrExn (BackendError m)) = m"
| "exn_text (MgrExn (ConflictError m)) = m"
| "exn_text (MgrExn (WorkspaceNotFound m)) = m"
| "exn_text (MgrExn (SandboxNotFound m)) = ''Sandbox not found: '' @ m"
| "exn_text (MgrExn (OperationNotFound m)) = m"
| "exn_text (MgrExn (UncaughtState e)) = state_message e"
| "exn_text (MgrExn UncaughtValueError) = ''Invalid IPv6 URL''"

definition operation_error :: "exn \<Rightarrow> string" where
  "operation_error x =
     (let message = strip (exn_text x) in take 1000 (if message = [] then exn_class x else message))"

definition workspace_volume :: "mgr_cfg \<Rightarrow> string \<Rightarrow> string" where
  "workspace_volume cfg wid = ''agent-workspace-'' @ take 32 (sha256_hex cfg wid)"

definition runtime_state_volume :: "string \<Rightarrow> string" where
  "runtime_state_volume sid = ''sandbox-runtime-'' @ sid"

section \<open>Docker calls\<close>

definition volume_exists :: "string \<Rightarrow> (exn + bool \<Rightarrow> segment) \<Rightarrow> proc" where
  "volume_exists name k = await (\<lambda>e s.
     case e_out e of
       Okay _ \<Rightarrow> k (Inr (name \<in> set (m_volumes s))) e s
     | Raised x \<Rightarrow>
         k (Inl (MgrExn (BackendError (''Failed to inspect Workspace volume '' @ quoted name @ '': '' @ exn_text x)))) e s)"

definition ensure_workspace_volume :: "workspace_row \<Rightarrow> (exn + unit \<Rightarrow> segment) \<Rightarrow> proc" where
  "ensure_workspace_volume ws k = await (\<lambda>e s.
     case e_out e of
       Okay _ \<Rightarrow> k (Inr ()) e (s\<lparr>m_volumes := List.insert (ws_volume ws) (m_volumes s)\<rparr>)
     | Raised x \<Rightarrow>
         k (Inl (MgrExn (BackendError
             (''Failed to create Workspace volume '' @ quoted (ws_volume ws) @ '': '' @ exn_text x)))) e s)"

definition drop_volume :: "string \<Rightarrow> mgr \<Rightarrow> mgr" where
  "drop_volume name s = s\<lparr>m_volumes := removeAll name (m_volumes s)\<rparr>"

text \<open>\<open>_remove_volume\<close> suppresses every exception of its two calls.\<close>

definition remove_volume :: "string \<Rightarrow> segment \<Rightarrow> proc" where
  "remove_volume name k = await (\<lambda>e s.
     case e_out e of
       Raised x \<Rightarrow> k e s
     | Okay _ \<Rightarrow>
         if name \<notin> set (m_volumes s) then k e s
         else (s, await (\<lambda>e s. case e_out e of Raised x \<Rightarrow> k e s | Okay _ \<Rightarrow> k e (drop_volume name s))))"

definition remove_volume_checked :: "string \<Rightarrow> (exn + unit \<Rightarrow> segment) \<Rightarrow> proc" where
  "remove_volume_checked name k = await (\<lambda>e s.
     case e_out e of
       Raised x \<Rightarrow> k (Inl x) e s
     | Okay _ \<Rightarrow>
         if name \<notin> set (m_volumes s) then k (Inr ()) e s
         else (s, await (\<lambda>e s.
           case e_out e of
             Raised x \<Rightarrow>
               k (Inl (MgrExn (BackendError (''Failed to remove Workspace volume '' @ quoted name @ '': '' @ exn_text x)))) e s
           | Okay _ \<Rightarrow> k (Inr ()) e (drop_volume name s))))"

text \<open>\<open>_remove_container\<close>: a missing container counts as removed (the outcome \<open>Okay\<close>).\<close>

definition remove_container :: "string option \<Rightarrow> (exn + unit \<Rightarrow> segment) \<Rightarrow> proc" where
  "remove_container sid k = await (\<lambda>e s.
     case e_out e of
       Okay _ \<Rightarrow> k (Inr ()) e s
     | Raised x \<Rightarrow>
         k (Inl (MgrExn (BackendError
            (''Failed to remove'' @ (case sid of Some i \<Rightarrow> '' Sandbox '' @ quoted i | None \<Rightarrow> '' managed Sandbox'')
              @ '': '' @ exn_text x)))) e s)"

text \<open>\<open>_status\<close>: running and healthy, or failed; the two attributes come with the outcome.\<close>

definition container_status :: "obj \<Rightarrow> sb_status" where
  "container_status attrs =
     (if jget attrs ''status'' = JStr ''running'' \<and> jget attrs ''health'' = JStr ''healthy''
      then SbRunning else SbFailed)"

text \<open>
  \<open>_wait_for_worker\<close> on the observations of its loop until the deadline: \<open>last_health\<close> is at
  first \<open>starting\<close>, and \<open>logs\<close> the tail of the container's log.
\<close>

fun wait_for_worker :: "string \<Rightarrow> string \<Rightarrow> (string \<times> string) list \<Rightarrow> exn option" where
  "wait_for_worker logs last_health [] =
     Some (MgrExn (BackendError (''Sandbox worker did not become ready: health='' @ last_health)))"
| "wait_for_worker logs last_health ((status, health) # seen) =
     (if status \<in> {''exited'', ''dead''}
      then Some (MgrExn (BackendError (''Sandbox worker exited during startup: '' @ logs)))
      else if status = ''running'' \<and> health = ''healthy'' then None
      else if health = ''unhealthy'' then Some (MgrExn (BackendError (''Sandbox worker is unhealthy: '' @ logs)))
      else wait_for_worker logs health seen)"

section \<open>Checkpoints\<close>

definition checkpoint_failed :: "string \<Rightarrow> string \<Rightarrow> exn \<Rightarrow> segment" where
  "checkpoint_failed wid oid x e s =
     finish UnitReply (unlock wid
       (suppressed (\<lambda>d. transition_workspace d wid [WsCheckpointing] WsDetachedDirty (e_now e))
         (suppressed (\<lambda>d. update_operation d oid OpFailed None None (Some (operation_error x)) (e_now e)) s)))"

definition checkpoint_finished :: "string \<Rightarrow> string \<Rightarrow> int \<Rightarrow> segment" where
  "checkpoint_finished wid oid generation e s =
     (case e_out e of
        Raised x \<Rightarrow> checkpoint_failed wid oid x e s
      | Okay result \<Rightarrow>
          (case as_str (jget result ''revision_id'') of
             Some (c # cs) \<Rightarrow>
               (case state_call (\<lambda>d. commit_revision d wid oid (c # cs) generation result (e_now e)) s of
                  (Inl err, s') \<Rightarrow> checkpoint_failed wid oid (state_exn err) e s'
                | (Inr _, s') \<Rightarrow> finish UnitReply (unlock wid s'))
           | _ \<Rightarrow> checkpoint_failed wid oid
               (PyExn ''OperationExecutionError'' ''checkpoint returned no revision_id'') e s))"

definition checkpoint_begin :: "string \<Rightarrow> segment" where
  "checkpoint_begin wid e s =
     (case mgr_get_workspace (m_db s) wid of
        Inl x \<Rightarrow> finish (ErrorReply (MgrExn x)) (unlock wid s)
      | Inr ws \<Rightarrow>
          if ws_active ws \<noteq> None \<or> ws_status ws \<noteq> WsDetachedDirty then finish UnitReply (unlock wid s)
          else (case state_call (\<lambda>d. create_operation d (''operation_'' @ e_uuid e) Checkpoint wid None
                   (''checkpoint:'' @ wid @ '':'' @ show_int (ws_generation ws))
                   [(''generation'', JInt (ws_generation ws))] (e_now e)) s of
             (Inl err, s1) \<Rightarrow> finish (ErrorReply (state_exn err)) (unlock wid s1)
           | (Inr (operation, _), s1) \<Rightarrow>
               if op_status operation = OpSucceeded then finish UnitReply (unlock wid s1)
               else (case state_call (\<lambda>d. transition_workspace d wid [WsDetachedDirty] WsCheckpointing (e_now e)) s1 of
                  (Inl err, s2) \<Rightarrow> checkpoint_failed wid (op_id operation) (state_exn err) e s2
                | (Inr ws', s2) \<Rightarrow>
                    (case state_call (\<lambda>d. update_operation d (op_id operation) OpRunning None None None (e_now e)) s2 of
                       (Inl err, s3) \<Rightarrow> checkpoint_failed wid (op_id operation) (state_exn err) e s3
                     | (Inr _, s3) \<Rightarrow>
                         (s3, await (checkpoint_finished wid (op_id operation) (ws_generation ws')))))))"

definition checkpoint_workspace :: "mgr_cfg \<Rightarrow> string \<Rightarrow> proc" where
  "checkpoint_workspace cfg wid =
     (if \<not> has_runner cfg then Finished UnitReply else with_lock wid (checkpoint_begin wid))"

section \<open>Preparing a Workspace: local volume or restore\<close>

text \<open>
  The continuation receives the Workspace or the exception, after the lock has been released, and
  goes on in the same segment.
\<close>

type_synonym 'a cont = "exn + 'a \<Rightarrow> segment"

definition restore_rollback :: "workspace_row \<Rightarrow> string \<Rightarrow> exn \<Rightarrow> workspace_row cont \<Rightarrow> segment" where
  "restore_rollback ws oid x k e s =
     (let s1 = suppressed (\<lambda>d. update_operation d oid OpFailed None None (Some (operation_error x)) (e_now e)) s;
          s2 = suppressed (\<lambda>d. transition_workspace d (ws_id ws) [WsRestoring] WsRemoteOnly (e_now e)) s1
      in k (Inl (case x of
              MgrExn (BackendError m) \<Rightarrow> x
            | _ \<Rightarrow> MgrExn (BackendError (''Failed to restore Workspace '' @ quoted (ws_id ws) @ '': '' @ operation_error x))))
           e (unlock (ws_id ws) s2))"

definition restore_failed :: "workspace_row \<Rightarrow> string \<Rightarrow> exn \<Rightarrow> workspace_row cont \<Rightarrow> segment" where
  "restore_failed ws oid x k e s = (s, remove_volume (ws_volume ws) (restore_rollback ws oid x k))"

definition restore_finished :: "workspace_row \<Rightarrow> string \<Rightarrow> workspace_row cont \<Rightarrow> segment" where
  "restore_finished ws oid k e s =
     (case e_out e of
        Raised x \<Rightarrow> restore_failed ws oid x k e s
      | Okay result \<Rightarrow>
          (case state_call (\<lambda>d. update_operation d oid OpSucceeded None (Some result) None (e_now e)) s of
             (Inl err, s1) \<Rightarrow> restore_failed ws oid (state_exn err) k e s1
           | (Inr _, s1) \<Rightarrow>
               (case state_call (\<lambda>d. transition_workspace d (ws_id ws) [WsRestoring] WsDetachedClean (e_now e)) s1 of
                  (Inl err, s2) \<Rightarrow> restore_failed ws oid (state_exn err) k e s2
                | (Inr ws', s2) \<Rightarrow> k (Inr ws') e (unlock (ws_id ws) s2))))"

definition restore_begin :: "workspace_row \<Rightarrow> string \<Rightarrow> workspace_row cont \<Rightarrow> segment" where
  "restore_begin ws rid k e s =
     (case state_call (\<lambda>d. create_operation d (''operation_'' @ e_uuid e) Restore (ws_id ws) None
              (''restore:'' @ ws_id ws @ '':'' @ rid) [(''revision_id'', JStr rid)] (e_now e)) s of
        (Inl err, s1) \<Rightarrow> k (Inl (state_exn err)) e (unlock (ws_id ws) s1)
      | (Inr (operation, _), s1) \<Rightarrow>
          (case state_call (\<lambda>d. transition_workspace d (ws_id ws) [WsRemoteOnly] WsRestoring (e_now e)) s1 of
             (Inl err, s2) \<Rightarrow> restore_failed ws (op_id operation) (state_exn err) k e s2
           | (Inr ws', s2) \<Rightarrow>
               (case state_call (\<lambda>d. update_operation d (op_id operation) OpRunning None None None (e_now e)) s2 of
                  (Inl err, s3) \<Rightarrow> restore_failed ws' (op_id operation) (state_exn err) k e s3
                | (Inr _, s3) \<Rightarrow> (s3, await (restore_finished ws' (op_id operation) k)))))"

definition prepare_fresh :: "workspace_row \<Rightarrow> string \<Rightarrow> workspace_row cont \<Rightarrow> segment" where
  "prepare_fresh ws rid k e s =
     (s, ensure_workspace_volume ws (\<lambda>r e s.
        case r of Inl x \<Rightarrow> k (Inl x) e (unlock (ws_id ws) s) | Inr _ \<Rightarrow> restore_begin ws rid k e s))"

definition prepare_restore :: "mgr_cfg \<Rightarrow> workspace_row \<Rightarrow> workspace_row cont \<Rightarrow> segment" where
  "prepare_restore cfg ws k e s =
     (if ws_status ws \<noteq> WsRemoteOnly then k (Inr ws) e (unlock (ws_id ws) s)
      else if \<not> storage_enabled cfg \<or> \<not> has_runner cfg \<or> ws_head ws = None then
        k (Inl (MgrExn (BackendError (named ''Workspace'' (ws_id ws) '' requires object-storage restore''))))
          e (unlock (ws_id ws) s)
      else (s, volume_exists (ws_volume ws) (\<lambda>r e s.
        case r of
          Inl x \<Rightarrow> k (Inl x) e (unlock (ws_id ws) s)
        | Inr True \<Rightarrow> (s, remove_volume (ws_volume ws) (prepare_fresh ws (the (ws_head ws)) k))
        | Inr False \<Rightarrow> prepare_fresh ws (the (ws_head ws)) k e s)))"

definition prepare_checked :: "mgr_cfg \<Rightarrow> workspace_row \<Rightarrow> workspace_row cont \<Rightarrow> exn + bool \<Rightarrow> segment" where
  "prepare_checked cfg ws k found e s =
     (case found of
        Inl x \<Rightarrow> k (Inl x) e (unlock (ws_id ws) s)
      | Inr exists \<Rightarrow>
          if ws_status ws \<noteq> WsRemoteOnly \<and> \<not> exists then
            (if ws_head ws \<noteq> None \<and> ws_active ws = None then
               (case state_call (\<lambda>d. transition_workspace d (ws_id ws) [WsDetachedClean] WsRemoteOnly (e_now e)) s of
                  (Inl (StateConflict m), s1) \<Rightarrow> k (Inl (MgrExn (ConflictError m))) e (unlock (ws_id ws) s1)
                | (Inl err, s1) \<Rightarrow> k (Inl (state_exn err)) e (unlock (ws_id ws) s1)
                | (Inr ws', s1) \<Rightarrow> prepare_restore cfg ws' k e s1)
             else if ws_status ws = WsDetachedDirty then
               k (Inl (MgrExn (BackendError (named ''Dirty Workspace'' (ws_id ws) '' has no local volume''))))
                 e (unlock (ws_id ws) s)
             else (s, ensure_workspace_volume ws (\<lambda>r e s.
                     case r of Inl x \<Rightarrow> k (Inl x) e (unlock (ws_id ws) s)
                       | Inr _ \<Rightarrow> k (Inr ws) e (unlock (ws_id ws) s))))
          else prepare_restore cfg ws k e s)"

definition prepare_workspace :: "mgr_cfg \<Rightarrow> string \<Rightarrow> workspace_row cont \<Rightarrow> proc" where
  "prepare_workspace cfg wid k = with_lock wid (\<lambda>e s.
     case mgr_get_workspace (m_db s) wid of
       Inl x \<Rightarrow> k (Inl (MgrExn x)) e (unlock wid s)
     | Inr ws \<Rightarrow> (s, volume_exists (ws_volume ws) (prepare_checked cfg ws k)))"

definition restore_requested :: "mgr_cfg \<Rightarrow> operation_row \<Rightarrow> proc" where
  "restore_requested cfg operation =
     (let fail = (\<lambda>x e s. finish UnitReply (suppressed (\<lambda>d. update_operation d (op_id operation) OpFailed None None
                    (Some (operation_error x)) (e_now e)) s))
      in await (\<lambda>e s.
        case mgr_get_workspace (m_db s) (op_workspace operation) of
          Inl x \<Rightarrow> fail (MgrExn x) e s
        | Inr ws \<Rightarrow>
            if ws_status ws = WsDetachedClean then
              (case state_call (\<lambda>d. update_operation d (op_id operation) OpSucceeded None
                      (Some [(''revision_id'', opt_str (ws_head ws)), (''already_materialized'', JBool True)])
                      None (e_now e)) s of
                 (Inl err, s1) \<Rightarrow> fail (state_exn err) e s1
               | (Inr _, s1) \<Rightarrow> finish UnitReply s1)
            else if ws_status ws \<noteq> WsRemoteOnly then
              fail (MgrExn (ConflictError (named ''Workspace'' (ws_id ws)
                 ('' cannot restore while '' @ ws_status_text (ws_status ws))))) e s
            else (s, prepare_workspace cfg (ws_id ws) (\<lambda>r e s.
                   case r of Inl x \<Rightarrow> fail x e s | Inr _ \<Rightarrow> finish UnitReply s))))"

end
