(* ===== verification/Manager_Sandboxes.thy ===== *)
theory Manager_Sandboxes
  imports Manager
begin

text \<open>
  The remaining coroutines of \<open>DockerSandboxBackend\<close>, \<open>src/src/sandbox_manager/docker_backend.py\<close>:
  checkouts and publishes, the life of a Sandbox, retirement and local cleanup of Workspaces, the
  reaper, and the startup that reconciles the store with Docker. A pool of coroutines interleaves
  them, and a crash may stop all of them between any two segments.
\<close>

section \<open>Checkouts and publishes\<close>

definition checkout_begin :: "operation_row \<Rightarrow> obj \<Rightarrow> workspace_row \<Rightarrow> segment" where
  "checkout_begin operation claims ws e s =
     (let oid = op_id operation;
          fail = (\<lambda>x e s. finish UnitReply (suppressed (\<lambda>d. update_operation d oid OpFailed None None
                   (Some (operation_error x)) (e_now e)) s))
      in (case state_call (\<lambda>d. update_operation d oid OpRunning None None None (e_now e)) s of
            (Inl err, s1) \<Rightarrow> fail (state_exn err) e s1
          | (Inr _, s1) \<Rightarrow>
              (s1, with_lock (ws_id ws) (\<lambda>e s.
                 if as_list (jget claims ''artifacts'') = None then
                   fail (PyExn ''AssertionError'' []) e (unlock (ws_id ws) s)
                 else (s, await (\<lambda>e s.
                 case e_out e of
                   Raised x \<Rightarrow> fail x e (unlock (ws_id ws) s)
                 | Okay result \<Rightarrow>
                     (case state_call (\<lambda>d. update_operation d oid OpSucceeded None (Some result) None (e_now e))
                             (unlock (ws_id ws) s) of
                        (Inl err, s2) \<Rightarrow> fail (state_exn err) e s2
                      | (Inr _, s2) \<Rightarrow> finish UnitReply s2)))))))"

definition publish_failed :: "operation_row \<Rightarrow> obj \<Rightarrow> obj option \<Rightarrow> exn \<Rightarrow> segment" where
  "publish_failed operation claims capture x e s =
     finish UnitReply (suppressed (\<lambda>d. update_operation d (op_id operation) OpFailed
       (Some (if capture \<noteq> None then PhCaptured else PhCapturing))
       (case capture of
          None \<Rightarrow> None
        | Some c \<Rightarrow> Some (if as_str (jget claims ''artifact_id'') \<noteq> None
            then [(''capture'', JObj c), (''target_artifact_id'', jget claims ''artifact_id'')]
            else [(''capture'', JObj c)]))
       (Some (operation_error x)) (e_now e)) s)"

definition publish_uploaded :: "operation_row \<Rightarrow> obj \<Rightarrow> obj \<Rightarrow> segment" where
  "publish_uploaded operation claims capture e s =
     (case e_out e of
        Raised x \<Rightarrow> publish_failed operation claims (Some capture) x e s
      | Okay result \<Rightarrow>
          if jget result ''artifact_id'' \<noteq> jget claims ''artifact_id'' then
            publish_failed operation claims (Some capture)
              (PyExn ''OperationExecutionError'' ''Artifact upload returned another artifact_id'') e s
          else (case state_call (\<lambda>d. update_operation d (op_id operation) OpSucceeded (Some PhUploading)
                   (Some [(''capture'', JObj capture), (''target_artifact_id'', jget claims ''artifact_id''),
                          (''artifact'', JObj result)]) None (e_now e)) s of
             (Inl err, s1) \<Rightarrow> publish_failed operation claims (Some capture) (state_exn err) e s1
           | (Inr _, s1) \<Rightarrow> finish UnitReply s1))"

text \<open>The row the coroutine was started with: \<open>operation.result\<close> is read from that snapshot.\<close>

definition previous_target :: "operation_row \<Rightarrow> json" where
  "previous_target operation =
     (case op_result operation of None \<Rightarrow> JNull | Some r \<Rightarrow> jget r ''target_artifact_id'')"

definition previous_capture :: "operation_row \<Rightarrow> obj option" where
  "previous_capture operation =
     (case op_result operation of None \<Rightarrow> None | Some r \<Rightarrow> as_obj (jget r ''capture''))"

definition nonempty_str :: "json \<Rightarrow> bool" where
  "nonempty_str v \<longleftrightarrow> as_str v \<noteq> None \<and> truthy v"

definition publish_upload :: "operation_row \<Rightarrow> obj \<Rightarrow> obj \<Rightarrow> segment" where
  "publish_upload operation claims capture e s =
     (if \<not> list_all (\<lambda>k. nonempty_str (jget claims k)) [''upload_url'', ''upload_token'', ''artifact_id'']
      then finish UnitReply s
      else if previous_target operation \<noteq> JNull \<and> previous_target operation \<noteq> jget claims ''artifact_id'' then
        publish_failed operation claims (Some capture)
          (PyExn ''OperationExecutionError'' ''Publish operation Artifact binding changed'') e s
      else (case state_call (\<lambda>d. update_operation d (op_id operation) OpRunning (Some PhUploading)
               (Some [(''capture'', JObj capture), (''target_artifact_id'', jget claims ''artifact_id'')])
               None (e_now e)) s of
         (Inl err, s1) \<Rightarrow> publish_failed operation claims (Some capture) (state_exn err) e s1
       | (Inr _, s1) \<Rightarrow> (s1, await (publish_uploaded operation claims capture))))"

definition publish_captured :: "operation_row \<Rightarrow> obj \<Rightarrow> workspace_row \<Rightarrow> segment" where
  "publish_captured operation claims ws e s =
     (case e_out e of
        Raised x \<Rightarrow> publish_failed operation claims (previous_capture operation) x e (unlock (ws_id ws) s)
      | Okay capture \<Rightarrow>
          (case state_call (\<lambda>d. update_operation d (op_id operation) OpRunning (Some PhCaptured)
                  (Some [(''capture'', JObj capture)]) None (e_now e)) s of
             (Inl err, s1) \<Rightarrow> publish_failed operation claims (Some capture) (state_exn err) e (unlock (ws_id ws) s1)
           | (Inr _, s1) \<Rightarrow> publish_upload operation claims capture e (unlock (ws_id ws) s1)))"

definition publish_begin :: "operation_row \<Rightarrow> obj \<Rightarrow> workspace_row \<Rightarrow> segment" where
  "publish_begin operation claims ws e s =
     (case state_call (\<lambda>d. update_operation d (op_id operation) OpRunning (Some PhCapturing)
             (map_option (\<lambda>c. [(''capture'', JObj c)]) (previous_capture operation)) None (e_now e)) s of
        (Inl err, s1) \<Rightarrow>
          publish_failed operation claims (previous_capture operation) (state_exn err) e (unlock (ws_id ws) s1)
      | (Inr _, s1) \<Rightarrow> (s1, await (publish_captured operation claims ws)))"

definition execute_file_operation :: "mgr_cfg \<Rightarrow> operation_row \<Rightarrow> obj \<Rightarrow> proc" where
  "execute_file_operation cfg operation claims = await (\<lambda>e s.
     if \<not> has_runner cfg then
       (case state_call (\<lambda>d. update_operation d (op_id operation) OpFailed None None
               (Some ''storage operations are disabled'') (e_now e)) s of
          (Inl err, s1) \<Rightarrow> finish (ErrorReply (state_exn err)) s1
        | (Inr _, s1) \<Rightarrow> finish UnitReply s1)
     else (case mgr_get_workspace (m_db s) (op_workspace operation) of
        Inl x \<Rightarrow> finish (ErrorReply (MgrExn x)) s
      | Inr ws \<Rightarrow>
          if op_name operation = Checkout then checkout_begin operation claims ws e s
          else (s, with_lock (ws_id ws) (publish_begin operation claims ws))))"

section \<open>Ending a Sandbox\<close>

text \<open>
  The records of the dictionary are shared objects that a renewal updates in place: the object a
  coroutine holds is the dictionary's unless its other fields differ.
\<close>

definition same_record :: "sb_record \<Rightarrow> sb_record \<Rightarrow> bool" where
  "same_record r x \<longleftrightarrow> r\<lparr>rc_expires := 0\<rparr> = x\<lparr>rc_expires := 0\<rparr>"

definition current_record :: "sb_record \<Rightarrow> mgr \<Rightarrow> sb_record" where
  "current_record r s =
     (case map_of (m_records s) (rc_sandbox r) of
        Some x \<Rightarrow> if same_record r x then x else r
      | None \<Rightarrow> r)"

definition info :: "sb_record \<Rightarrow> sb_status \<Rightarrow> sandbox_info" where
  "info r status =
     \<lparr>si_id = rc_sandbox r, si_status = status, si_created = rc_created r, si_expires = Some (rc_expires r),
      si_worker = (if status = SbRunning then Some (rc_host r) else None), si_workspace = rc_workspace r,
      si_recoverable = rc_recoverable r\<rparr>"

definition released_status :: "bool \<Rightarrow> ws_status" where
  "released_status recoverable = (if recoverable then WsDetachedDirty else WsDeleting)"

text \<open>The common end of a failed creation and of a Sandbox that startup does not adopt.\<close>

definition finish_failed :: "string \<Rightarrow> workspace_row \<Rightarrow> segment \<Rightarrow> segment" where
  "finish_failed sid ws k e s =
     (let s1 = suppressed (\<lambda>d. finish_sandbox d sid SbFailed (released_status (ws_kind ws = Recoverable)) (e_now e)) s
      in (s1, remove_volume (runtime_state_volume sid) (\<lambda>e s.
            if ws_kind ws = Ephemeral then
              (s, remove_volume (ws_volume ws) (\<lambda>e s. k e (suppressed (\<lambda>d. delete_workspace d (ws_id ws)) s)))
            else k e s)))"

definition terminate_finish :: "mgr_cfg \<Rightarrow> sb_record \<Rightarrow> sandbox_info cont \<Rightarrow> segment" where
  "terminate_finish cfg r k e s =
     (let s1 = suppressed (\<lambda>d. finish_sandbox d (rc_sandbox r) SbTerminated (released_status (rc_recoverable r)) (e_now e)) s;
          gone = (info r SbTerminated)\<lparr>si_expires := None\<rparr>
      in if \<not> rc_recoverable r then
           (s1, remove_volume (rc_volume r) (\<lambda>e s.
              k (Inr gone) e (suppressed (\<lambda>d. delete_workspace d (rc_workspace r)) s)))
         else if storage_enabled cfg then k (Inr gone) e (schedule_operation (CheckpointJob (rc_workspace r)) s1)
         else k (Inr gone) e s1)"

definition terminate_removed :: "mgr_cfg \<Rightarrow> sb_record \<Rightarrow> sandbox_info cont \<Rightarrow> segment" where
  "terminate_removed cfg r k e s =
     (let s1 = (if (case map_of (m_records s) (rc_sandbox r) of None \<Rightarrow> False | Some x \<Rightarrow> same_record r x)
                then s\<lparr>m_records := AList.delete (rc_sandbox r) (m_records s)\<rparr> else s)
      in (s1, remove_volume (runtime_state_volume (rc_sandbox r)) (terminate_finish cfg r k)))"

definition terminate :: "mgr_cfg \<Rightarrow> string \<Rightarrow> sandbox_info cont \<Rightarrow> proc" where
  "terminate cfg sid k = await (\<lambda>e s.
     case map_of (m_records s) sid of
       None \<Rightarrow> k (Inl (MgrExn (SandboxNotFound sid))) e s
     | Some r \<Rightarrow>
         (s, remove_container (Some sid) (\<lambda>res e s.
            case res of Inl x \<Rightarrow> k (Inl x) e s | Inr _ \<Rightarrow> terminate_removed cfg r k e s)))"

definition reply_with :: "('a \<Rightarrow> reply) \<Rightarrow> 'a cont" where
  "reply_with f r e s = finish (case r of Inl x \<Rightarrow> ErrorReply x | Inr a \<Rightarrow> f a) s"

definition terminate_request :: "mgr_cfg \<Rightarrow> string \<Rightarrow> proc" where
  "terminate_request cfg sid = terminate cfg sid (reply_with SandboxReply)"

section \<open>Creating a Sandbox\<close>

text \<open>The \<open>except BaseException\<close> handler around the container.\<close>

definition creation_failed :: "sb_record \<Rightarrow> workspace_row \<Rightarrow> bool \<Rightarrow> exn \<Rightarrow> segment" where
  "creation_failed r ws has_container x e s =
     (if has_container then
        (s, remove_container (Some (rc_sandbox r)) (\<lambda>res e s.
           case res of
             Inl y \<Rightarrow>
               finish (ErrorReply (MgrExn (BackendError
                   (''Sandbox creation failed and Worker cleanup failed: '' @ exn_text y))))
                 (s\<lparr>m_records := AList.update (rc_sandbox r) (r\<lparr>rc_expires := rc_created r\<rparr>) (m_records s)\<rparr>)
           | Inr _ \<Rightarrow> finish_failed (rc_sandbox r) ws (\<lambda>e. finish (ErrorReply x)) e s))
      else finish_failed (rc_sandbox r) ws (\<lambda>e. finish (ErrorReply x)) e s)"

definition observations :: "obj \<Rightarrow> (string \<times> string) list" where
  "observations attrs =
     (case jget attrs ''seen'' of
        JList xs \<Rightarrow> map (\<lambda>x. case x of JList [JStr status, JStr health] \<Rightarrow> (status, health) | _ \<Rightarrow> ([], ''missing'')) xs
      | _ \<Rightarrow> [])"

definition worker_logs :: "obj \<Rightarrow> string" where
  "worker_logs attrs = (case jget attrs ''logs'' of JStr t \<Rightarrow> t | _ \<Rightarrow> [])"

text \<open>The networks, the start and the wait are one outcome: each failure has the same handler.\<close>

definition creation_started :: "sb_record \<Rightarrow> workspace_row \<Rightarrow> segment" where
  "creation_started r ws e s =
     (case e_out e of
        Raised x \<Rightarrow> creation_failed r ws True x e s
      | Okay attrs \<Rightarrow>
          (case wait_for_worker (worker_logs attrs) ''starting'' (observations attrs) of
             Some x \<Rightarrow> creation_failed r ws True x e s
           | None \<Rightarrow>
               (case state_call (\<lambda>d. mark_sandbox_running d (rc_sandbox r) (e_now e)) s of
                  (Inl err, s1) \<Rightarrow> creation_failed r ws True (state_exn err) e s1
                | (Inr _, s1) \<Rightarrow>
                    finish (SandboxReply (info r SbRunning))
                      (s1\<lparr>m_records := AList.update (rc_sandbox r) r (m_records s1)\<rparr>))))"

text \<open>
  The runtime volume, the container, its networks and its start. Docker creates the volumes that a
  new container names and that do not exist.
\<close>

definition create_container :: "sb_record \<Rightarrow> workspace_row \<Rightarrow> segment" where
  "create_container r ws e s =
     (s, await (\<lambda>e s.
        case e_out e of
          Raised x \<Rightarrow> creation_failed r ws False x e s
        | Okay _ \<Rightarrow>
            (s\<lparr>m_volumes := List.insert (runtime_state_volume (rc_sandbox r)) (m_volumes s)\<rparr>, await (\<lambda>e s.
               case e_out e of
                 Raised x \<Rightarrow> creation_failed r ws False x e s
               | Okay _ \<Rightarrow>
                   (s\<lparr>m_volumes := List.insert (ws_volume ws) (m_volumes s)\<rparr>, await (creation_started r ws))))))"

definition create_claim :: "mgr_cfg \<Rightarrow> workspace_row \<Rightarrow> string option \<Rightarrow> segment" where
  "create_claim cfg ws requested e s =
     (let sid = (case requested of Some sid \<Rightarrow> sid | None \<Rightarrow> ''sandbox_'' @ e_uuid e);
          host = ''sandbox-worker-'' @ removeprefix ''sandbox_'' sid;
          expires = e_now e + execution_ttl cfg;
          r = \<lparr>rc_sandbox = sid, rc_workspace = ws_id ws, rc_volume = ws_volume ws,
               rc_recoverable = (ws_kind ws = Recoverable), rc_host = host, rc_created = e_now e,
               rc_expires = expires\<rparr>
      in case state_call (\<lambda>d. claim_workspace d (ws_id ws) sid host host (e_now e) expires) s of
           (Inr _, s1) \<Rightarrow> create_container r ws e s1
         | (Inl (StateConflict m), s1) \<Rightarrow>
             if ws_kind ws = Ephemeral then
               (s1, remove_volume (ws_volume ws) (\<lambda>e s.
                  case state_call (\<lambda>d. delete_workspace d (ws_id ws)) s of
                    (Inl err, s2) \<Rightarrow> finish (ErrorReply (state_exn err)) s2
                  | (Inr _, s2) \<Rightarrow> finish (ErrorReply (MgrExn (ConflictError m))) s2))
             else finish (ErrorReply (MgrExn (ConflictError m))) s1
         | (Inl err, s1) \<Rightarrow> finish (ErrorReply (state_exn err)) s1)"

definition create_abort :: "workspace_row \<Rightarrow> exn \<Rightarrow> segment" where
  "create_abort ws x e s =
     (if ws_kind ws = Ephemeral then
        (s, remove_volume (ws_volume ws) (\<lambda>e s.
           finish (ErrorReply x) (suppressed (\<lambda>d. delete_workspace d (ws_id ws)) s)))
      else finish (ErrorReply x) s)"

definition create_prepared :: "mgr_cfg \<Rightarrow> workspace_row \<Rightarrow> string option \<Rightarrow> workspace_row cont" where
  "create_prepared cfg ws requested r e s =
     (case r of
        Inl x \<Rightarrow> create_abort ws x e s
      | Inr ws' \<Rightarrow>
          if has_runner cfg then
            (s, await (\<lambda>e s.
               case e_out e of
                 Raised x \<Rightarrow> create_abort ws' x e s
               | Okay _ \<Rightarrow> create_claim cfg ws' requested e s))
          else create_claim cfg ws' requested e s)"

definition sandbox_claim :: "obj \<Rightarrow> mgr_error + string option" where
  "sandbox_claim claims =
     (case jget claims ''sandbox_id'' of
        JNull \<Rightarrow> Inr None
      | JStr sid \<Rightarrow> require (prefixed_hex ''sandbox_'' 32 sid)
          (AuthorizationError ''Workspace grant has an invalid sandbox_id'') (Inr (Some sid))
      | _ \<Rightarrow> Inl (AuthorizationError ''Workspace grant has an invalid sandbox_id''))"

definition select_workspace :: "db \<Rightarrow> obj \<Rightarrow> mgr_error + workspace_row \<times> string option" where
  "select_workspace d claims =
     (case as_str (jget claims ''workspace_id'') of
        None \<Rightarrow> Inl (AuthorizationError ''Workspace grant has no workspace_id'')
      | Some wid \<Rightarrow>
          rbind (mgr_get_workspace d wid) (\<lambda>ws.
          require (ws_kind ws = Recoverable)
            (AuthorizationError ''Workspace grant does not select a recoverable Workspace'')
          (rbind (sandbox_claim claims) (\<lambda>sid. Inr (ws, sid)))))"

definition create_sandbox :: "grant_env \<Rightarrow> mgr_cfg \<Rightarrow> string option \<Rightarrow> proc" where
  "create_sandbox E cfg grant = await (\<lambda>e s.
     case grant of
       None \<Rightarrow>
         (let wid = ''workspace_'' @ e_uuid e
          in case state_call (\<lambda>d. create_workspace d wid Ephemeral (workspace_volume cfg wid) (e_now e)) s of
               (Inl err, s1) \<Rightarrow> finish (ErrorReply (state_exn err)) s1
             | (Inr ws, s1) \<Rightarrow> (s1, prepare_workspace cfg wid (create_prepared cfg ws None)))
     | Some token \<Rightarrow>
         (case authorize E cfg (m_db s) token (Some ''sandbox_create'') None (e_now e) (e_later e) of
            (Inl x, d) \<Rightarrow> finish (ErrorReply (MgrExn x)) (s\<lparr>m_db := d\<rparr>)
          | (Inr claims, d) \<Rightarrow>
              (case select_workspace d claims of
                 Inl x \<Rightarrow> finish (ErrorReply (MgrExn x)) (s\<lparr>m_db := d\<rparr>)
               | Inr (ws, requested) \<Rightarrow>
                   (s\<lparr>m_db := d\<rparr>, prepare_workspace cfg (ws_id ws) (create_prepared cfg ws requested)))))"

section \<open>Inspecting and renewing\<close>

definition inspect_sandbox :: "string \<Rightarrow> proc" where
  "inspect_sandbox sid = await (\<lambda>e s.
     case map_of (m_records s) sid of
       None \<Rightarrow> finish (ErrorReply (MgrExn (SandboxNotFound sid))) s
     | Some r \<Rightarrow> (s, await (\<lambda>e s.
         case e_out e of
           Raised x \<Rightarrow> finish (ErrorReply x) s
         | Okay attrs \<Rightarrow> finish (SandboxReply (info (current_record r s) (container_status attrs))) s)))"

definition renew_record :: "sb_record \<Rightarrow> int \<Rightarrow> mgr \<Rightarrow> mgr" where
  "renew_record r expires s =
     (case map_of (m_records s) (rc_sandbox r) of
        Some x \<Rightarrow>
          if same_record r x
          then s\<lparr>m_records := AList.update (rc_sandbox r) (r\<lparr>rc_expires := expires\<rparr>) (m_records s)\<rparr> else s
      | None \<Rightarrow> s)"

definition renew :: "mgr_cfg \<Rightarrow> string \<Rightarrow> proc" where
  "renew cfg sid = await (\<lambda>e s.
     case map_of (m_records s) sid of
       None \<Rightarrow> finish (ErrorReply (MgrExn (SandboxNotFound sid))) s
     | Some r \<Rightarrow> (s, await (\<lambda>e s.
         case e_out e of
           Raised x \<Rightarrow> finish (ErrorReply x) s
         | Okay attrs \<Rightarrow>
             if container_status attrs = SbRunning then
               (let expires = e_now e + execution_ttl cfg
                in case state_call (\<lambda>d. renew_sandbox d sid expires) s of
                     (Inl (StateConflict m), s1) \<Rightarrow> finish (ErrorReply (MgrExn (ConflictError m))) s1
                   | (Inl err, s1) \<Rightarrow> finish (ErrorReply (state_exn err)) s1
                   | (Inr _, s1) \<Rightarrow>
                       finish (SandboxReply (info
                           (if map_of (m_records s1) sid = None then r else r\<lparr>rc_expires := expires\<rparr>) SbRunning))
                         (renew_record r expires s1))
             else finish (SandboxReply (info (current_record r s) SbFailed)) s)))"

section \<open>Workspaces: creation, release, retirement, local cleanup\<close>

definition create_workspace_request :: "grant_env \<Rightarrow> mgr_cfg \<Rightarrow> string \<Rightarrow> string \<Rightarrow> proc" where
  "create_workspace_request E cfg wid grant = await (\<lambda>e s.
     case authorize E cfg (m_db s) grant (Some ''workspace_create'') (Some wid) (e_now e) (e_later e) of
       (Inl x, d) \<Rightarrow> finish (ErrorReply (MgrExn x)) (s\<lparr>m_db := d\<rparr>)
     | (Inr _, d) \<Rightarrow>
         (let wrap = (\<lambda>x. MgrExn (BackendError (''Failed to create Workspace '' @ quoted wid @ '': '' @ exn_text x)))
          in case state_call (\<lambda>d. create_workspace d wid Recoverable (workspace_volume cfg wid) (e_later e))
                   (s\<lparr>m_db := d\<rparr>) of
               (Inl (StateConflict m), s1) \<Rightarrow> finish (ErrorReply (MgrExn (ConflictError m))) s1
             | (Inl err, s1) \<Rightarrow> finish (ErrorReply (wrap (state_exn err))) s1
             | (Inr ws, s1) \<Rightarrow> (s1, ensure_workspace_volume ws (\<lambda>r e s.
                 case r of Inl x \<Rightarrow> finish (ErrorReply (wrap x)) s | Inr _ \<Rightarrow> finish (WorkspaceReply ws) s))))"

definition inspect_workspace :: "grant_env \<Rightarrow> mgr_cfg \<Rightarrow> string \<Rightarrow> string \<Rightarrow> proc" where
  "inspect_workspace E cfg wid grant = await (\<lambda>e s.
     case authorize E cfg (m_db s) grant (Some ''workspace_inspect'') (Some wid) (e_now e) (e_later e) of
       (Inl x, d) \<Rightarrow> finish (ErrorReply (MgrExn x)) (s\<lparr>m_db := d\<rparr>)
     | (Inr _, d) \<Rightarrow> reply_with WorkspaceReply
         (case mgr_get_workspace d wid of Inl x \<Rightarrow> Inl (MgrExn x) | Inr ws \<Rightarrow> Inr ws) e (s\<lparr>m_db := d\<rparr>))"

definition schedule_delete :: "mgr_cfg \<Rightarrow> string \<Rightarrow> segment" where
  "schedule_delete cfg wid e s =
     (case state_call (\<lambda>d. schedule_workspace_delete d wid (e_now e + delete_grace cfg) (e_now e)) s of
        (Inl (StateNotFound m), s1) \<Rightarrow> finish (ErrorReply (MgrExn (WorkspaceNotFound m))) s1
      | (Inl err, s1) \<Rightarrow> finish (ErrorReply (state_exn err)) s1
      | (Inr ws, s1) \<Rightarrow> finish (WorkspaceReply ws) s1)"

definition release_workspace :: "grant_env \<Rightarrow> mgr_cfg \<Rightarrow> string \<Rightarrow> string \<Rightarrow> proc" where
  "release_workspace E cfg wid grant = await (\<lambda>e s.
     case authorize E cfg (m_db s) grant (Some ''workspace_release'') (Some wid) (e_now e) (e_later e) of
       (Inl x, d) \<Rightarrow> finish (ErrorReply (MgrExn x)) (s\<lparr>m_db := d\<rparr>)
     | (Inr _, d) \<Rightarrow>
         (case mgr_get_workspace d wid of
            Inl x \<Rightarrow> finish (ErrorReply (MgrExn x)) (s\<lparr>m_db := d\<rparr>)
          | Inr ws \<Rightarrow>
              (case ws_active ws of
                 None \<Rightarrow> schedule_delete cfg wid e (s\<lparr>m_db := d\<rparr>)
               | Some sid \<Rightarrow> (s\<lparr>m_db := d\<rparr>, terminate cfg sid (\<lambda>r e s.
                   case r of Inl x \<Rightarrow> finish (ErrorReply x) s | Inr _ \<Rightarrow> schedule_delete cfg wid e s)))))"

definition operation_create_request :: "grant_env \<Rightarrow> mgr_cfg \<Rightarrow> string \<Rightarrow> proc" where
  "operation_create_request E cfg grant = await (\<lambda>e s.
     case create_operation_request E cfg (m_db s) grant (e_uuid e) (e_now e) (e_later e) of
       (r, d, jobs) \<Rightarrow>
         finish (case r of Inl x \<Rightarrow> ErrorReply (MgrExn x) | Inr row \<Rightarrow> OperationReply row)
           (s\<lparr>m_db := d, m_jobs := m_jobs s @ jobs\<rparr>))"

definition inspect_operation :: "string \<Rightarrow> proc" where
  "inspect_operation oid = await (\<lambda>e s.
     finish (case get_operation (m_db s) oid of
         Inl (StateNotFound m) \<Rightarrow> ErrorReply (MgrExn (OperationNotFound m))
       | Inl err \<Rightarrow> ErrorReply (state_exn err)
       | Inr row \<Rightarrow> OperationReply row) s)"

definition retire_failed :: "string \<Rightarrow> string \<Rightarrow> exn \<Rightarrow> segment" where
  "retire_failed wid oid x e s =
     finish UnitReply (unlock wid
       (suppressed (\<lambda>d. update_operation d oid OpFailed None None (Some (operation_error x)) (e_now e)) s))"

definition retire_delete :: "workspace_row \<Rightarrow> string \<Rightarrow> obj \<Rightarrow> segment" where
  "retire_delete ws oid result e s =
     (case state_call (\<lambda>d. update_operation d oid OpSucceeded None (Some result) None (e_now e)) s of
        (Inl err, s1) \<Rightarrow> retire_failed (ws_id ws) oid (state_exn err) e s1
      | (Inr _, s1) \<Rightarrow> (s1, remove_volume_checked (ws_volume ws) (\<lambda>r e s.
          case r of
            Inl x \<Rightarrow> retire_failed (ws_id ws) oid x e s
          | Inr _ \<Rightarrow>
              (case state_call (\<lambda>d. delete_workspace d (ws_id ws)) s of
                 (Inl err, s2) \<Rightarrow> retire_failed (ws_id ws) oid (state_exn err) e s2
               | (Inr _, s2) \<Rightarrow> finish UnitReply (unlock (ws_id ws) s2)))))"

definition retire_run :: "workspace_row \<Rightarrow> string \<Rightarrow> segment" where
  "retire_run ws oid e s =
     (case state_call (\<lambda>d. update_operation d oid OpRunning None None None (e_now e)) s of
        (Inl err, s1) \<Rightarrow> retire_failed (ws_id ws) oid (state_exn err) e s1
      | (Inr _, s1) \<Rightarrow>
          if ws_head ws \<noteq> None then
            (s1, await (\<lambda>e s.
               case e_out e of
                 Raised x \<Rightarrow> retire_failed (ws_id ws) oid x e s
               | Okay result \<Rightarrow> retire_delete ws oid result e s))
          else retire_delete ws oid [(''objects_deleted'', JInt 0)] e s1)"

definition retire_begin :: "string \<Rightarrow> segment" where
  "retire_begin wid e s =
     (case find_ws wid (m_db s) of
        None \<Rightarrow> finish UnitReply (unlock wid s)
      | Some ws \<Rightarrow>
          if (case ws_delete_after ws of None \<Rightarrow> True | Some t \<Rightarrow> t > e_now e) \<or> ws_active ws \<noteq> None
             \<or> ws_status ws \<notin> {WsDetachedClean, WsRemoteOnly, WsDeleting}
          then finish UnitReply (unlock wid s)
          else (case state_call (\<lambda>d. create_operation d (''operation_'' @ e_uuid e) Retire wid None
                   (''retire:'' @ wid) [] (e_now e)) s of
             (Inl err, s1) \<Rightarrow> finish (ErrorReply (state_exn err)) (unlock wid s1)
           | (Inr (operation, _), s1) \<Rightarrow>
               if ws_status ws \<noteq> WsDeleting then
                 (case state_call (\<lambda>d. transition_workspace d wid [WsDetachedClean, WsRemoteOnly] WsDeleting (e_now e)) s1 of
                    (Inl err, s2) \<Rightarrow> retire_failed wid (op_id operation) (state_exn err) e s2
                  | (Inr ws', s2) \<Rightarrow> retire_run ws' (op_id operation) e s2)
               else retire_run ws (op_id operation) e s1))"

definition retire_workspace :: "mgr_cfg \<Rightarrow> string \<Rightarrow> proc" where
  "retire_workspace cfg wid =
     (if \<not> has_runner cfg then Finished UnitReply else with_lock wid (retire_begin wid))"

definition cleanup_local_workspace :: "mgr_cfg \<Rightarrow> string \<Rightarrow> unit cont \<Rightarrow> proc" where
  "cleanup_local_workspace cfg wid k = with_lock wid (\<lambda>e s.
     case mgr_get_workspace (m_db s) wid of
       Inl x \<Rightarrow> k (Inl (MgrExn x)) e (unlock wid s)
     | Inr ws \<Rightarrow>
         if ws_status ws \<noteq> WsDetachedClean \<or> ws_head ws = None \<or> ws_active ws \<noteq> None
            \<or> ws_updated ws > e_now e - local_retention cfg
         then k (Inr ()) e (unlock wid s)
         else (s, remove_volume_checked (ws_volume ws) (\<lambda>r e s.
           case r of
             Inl x \<Rightarrow> k (Inl x) e (unlock wid s)
           | Inr _ \<Rightarrow>
               (case state_call (\<lambda>d. transition_workspace d wid [WsDetachedClean] WsRemoteOnly (e_now e)) s of
                  (Inl err, s1) \<Rightarrow> k (Inl (state_exn err)) e (unlock wid s1)
                | (Inr _, s1) \<Rightarrow> k (Inr ()) e (unlock wid s1)))))"

section \<open>The reaper\<close>

fun reap_all :: "mgr_cfg \<Rightarrow> string list \<Rightarrow> segment \<Rightarrow> segment" where
  "reap_all cfg [] k = k"
| "reap_all cfg (sid # sids) k = (\<lambda>e s. (s, terminate cfg sid (\<lambda>r. reap_all cfg sids k)))"

fun cleanup_all :: "mgr_cfg \<Rightarrow> string list \<Rightarrow> segment \<Rightarrow> segment" where
  "cleanup_all cfg [] k = k"
| "cleanup_all cfg (wid # wids) k = (\<lambda>e s. (s, cleanup_local_workspace cfg wid (\<lambda>r. cleanup_all cfg wids k)))"

definition reaper_storage :: "mgr_cfg \<Rightarrow> int \<Rightarrow> segment" where
  "reaper_storage cfg now e s =
     (if \<not> storage_enabled cfg then finish UnitReply s
      else (let s1 = s\<lparr>m_jobs := m_jobs s
                  @ map (CheckpointJob \<circ> ws_id) (workspaces_with_status (m_db s) [WsDetachedDirty])
                  @ map (RetireJob \<circ> ws_id) (retire_candidates (m_db s) now)\<rparr>
            in cleanup_all cfg (map ws_id (cleanup_candidates (m_db s) (now - local_retention cfg)))
                 (\<lambda>e. finish UnitReply) e s1))"

definition reaper_tick :: "mgr_cfg \<Rightarrow> proc" where
  "reaper_tick cfg = await (\<lambda>e s.
     reap_all cfg (map fst (filter (\<lambda>(sid, r). rc_expires r \<le> e_now e) (m_records s)))
       (reaper_storage cfg (e_now e)) e s)"

section \<open>Startup\<close>

record docker_container =
  dc_role :: "string option"
  dc_sandbox :: "string option"
  dc_workspace :: "string option"
  dc_kind :: "string option"
  dc_operation :: "string option"

definition record_from_state :: "sandbox_row \<Rightarrow> workspace_row \<Rightarrow> sb_record" where
  "record_from_state sb ws =
     \<lparr>rc_sandbox = sb_id sb, rc_workspace = ws_id ws, rc_volume = ws_volume ws,
      rc_recoverable = (ws_kind ws = Recoverable), rc_host = sb_host sb, rc_created = sb_created sb,
      rc_expires = (case sb_expires sb of None \<Rightarrow> 0 | Some t \<Rightarrow> t)\<rparr>"

definition finish_reconciled :: "sandbox_row \<Rightarrow> segment \<Rightarrow> segment" where
  "finish_reconciled sb k e s =
     (case find_ws (sb_workspace sb) (m_db s) of
        None \<Rightarrow> k e s
      | Some ws \<Rightarrow> finish_failed (sb_id sb) ws k e s)"

fun finish_unseen :: "sandbox_row list \<Rightarrow> string list \<Rightarrow> segment \<Rightarrow> segment" where
  "finish_unseen [] seen k = k"
| "finish_unseen (sb # sbs) seen k =
     (if sb_id sb \<in> set seen then finish_unseen sbs seen k
      else finish_reconciled sb (finish_unseen sbs seen k))"

definition active_row :: "sandbox_row list \<Rightarrow> string option \<Rightarrow> sandbox_row option" where
  "active_row active sid = (case sid of None \<Rightarrow> None | Some i \<Rightarrow> find (\<lambda>r. sb_id r = i) active)"

text \<open>A running Worker that the store knows is taken over.\<close>

definition adopt :: "sandbox_row \<Rightarrow> (exn + unit \<Rightarrow> segment) \<Rightarrow> segment" where
  "adopt sb k e s =
     (case (if sb_status sb = SbStarting
            then (case state_call (\<lambda>d. mark_sandbox_running d (sb_id sb) (e_now e)) s of
                    (Inl err, s1) \<Rightarrow> (Inl err, s1)
                  | (Inr _, s1) \<Rightarrow> (get_sandbox (m_db s1) (sb_id sb), s1))
            else (Inr sb, s)) of
        (Inl err, s1) \<Rightarrow> k (Inl (state_exn err)) e s1
      | (Inr row, s1) \<Rightarrow>
          (case mgr_get_workspace (m_db s1) (sb_workspace row) of
             Inl x \<Rightarrow> k (Inl (MgrExn x)) e s1
           | Inr ws \<Rightarrow> k (Inr ()) e
               (s1\<lparr>m_records := AList.update (sb_id row) (record_from_state row ws) (m_records s1)\<rparr>)))"

text \<open>A container that is not taken over is removed with the volumes it leaves behind.\<close>

definition discard :: "mgr_cfg \<Rightarrow> docker_container \<Rightarrow> sandbox_row option \<Rightarrow> (exn + unit \<Rightarrow> segment) \<Rightarrow> segment" where
  "discard cfg c row k e s =
     (s, remove_container (dc_sandbox c) (\<lambda>r e s.
        case r of
          Inl x \<Rightarrow> k (Inl x) e s
        | Inr _ \<Rightarrow>
            (let rest = (\<lambda>e s.
               case (row, dc_workspace c) of
                 (Some sb, _) \<Rightarrow> finish_reconciled sb (k (Inr ())) e s
               | (None, Some wid) \<Rightarrow>
                   if dc_kind c = Some ''ephemeral'' then (s, remove_volume (workspace_volume cfg wid) (k (Inr ())))
                   else k (Inr ()) e s
               | (None, None) \<Rightarrow> k (Inr ()) e s)
             in case dc_sandbox c of
                  Some sid \<Rightarrow> (s, remove_volume (runtime_state_volume sid) rest)
                | None \<Rightarrow> rest e s)))"

definition with_seen :: "string list \<Rightarrow> exn + unit \<Rightarrow> exn + string list" where
  "with_seen seen r = (case r of Inl x \<Rightarrow> Inl x | Inr _ \<Rightarrow> Inr seen)"

text \<open>One container of the loop: the continuation gets the ids that are accounted for.\<close>

definition reconcile_one :: "mgr_cfg \<Rightarrow> sandbox_row list \<Rightarrow> int \<Rightarrow> docker_container \<Rightarrow> string list
    \<Rightarrow> string list cont \<Rightarrow> segment" where
  "reconcile_one cfg active now c seen k e s =
     (let role = (case dc_role c of None \<Rightarrow> ''worker'' | Some r \<Rightarrow> r)
      in if role = ''operation'' then (s, remove_container (dc_operation c) (\<lambda>r. k (with_seen seen r)))
         else if role \<noteq> ''worker'' then k (Inr seen) e s
         else (case active_row active (dc_sandbox c) of
            None \<Rightarrow> discard cfg c None (\<lambda>r. k (with_seen seen r)) e s
          | Some sb \<Rightarrow>
              if dc_workspace c = Some (sb_workspace sb)
                 \<and> (case sb_expires sb of None \<Rightarrow> False | Some t \<Rightarrow> t > now)
              then (s, await (\<lambda>e s.
                 case e_out e of
                   Raised x \<Rightarrow> k (Inl x) e s
                 | Okay attrs \<Rightarrow>
                     if container_status attrs = SbRunning
                     then adopt sb (\<lambda>r. k (with_seen (sb_id sb # seen) r)) e s
                     else discard cfg c (Some sb) (\<lambda>r. k (with_seen (sb_id sb # seen) r)) e s))
              else discard cfg c (Some sb) (\<lambda>r. k (with_seen (sb_id sb # seen) r)) e s))"

fun reconcile :: "mgr_cfg \<Rightarrow> sandbox_row list \<Rightarrow> int \<Rightarrow> docker_container list \<Rightarrow> string list
    \<Rightarrow> string list cont \<Rightarrow> segment" where
  "reconcile cfg active now [] seen k = k (Inr seen)"
| "reconcile cfg active now (c # cs) seen k =
     reconcile_one cfg active now c seen (\<lambda>r e s.
       case r of Inl x \<Rightarrow> k (Inl x) e s | Inr seen' \<Rightarrow> reconcile cfg active now cs seen' k e s)"

fun cleanup_orphans :: "workspace_row list \<Rightarrow> segment \<Rightarrow> segment" where
  "cleanup_orphans [] k = k"
| "cleanup_orphans (ws # wss) k =
     (if ws_kind ws \<noteq> Ephemeral \<or> ws_active ws \<noteq> None then cleanup_orphans wss k
      else (\<lambda>e s. (s, remove_volume (ws_volume ws) (\<lambda>e s.
              cleanup_orphans wss k e (suppressed (\<lambda>d. delete_workspace d (ws_id ws)) s)))))"

definition restart_error :: string where
  "restart_error = ''Manager restarted before the operation result was committed''"

fun recover_operations :: "operation_row list \<Rightarrow> int \<Rightarrow> db \<Rightarrow> state_error + unit \<times> db" where
  "recover_operations [] now d = Inr ((), d)"
| "recover_operations (r # rs) now d =
     (let phase = (if op_name r = Publish \<and> previous_capture r \<noteq> None then Some PhCaptured else op_phase r)
      in case update_operation d (op_id r) OpFailed phase (op_result r) (Some restart_error) now of
           Inl err \<Rightarrow> Inl err
         | Inr (_, d') \<Rightarrow> recover_operations rs now d')"

fun recover_checkpoints :: "workspace_row list \<Rightarrow> int \<Rightarrow> mgr \<Rightarrow> mgr" where
  "recover_checkpoints [] now s = s"
| "recover_checkpoints (ws # wss) now s =
     recover_checkpoints wss now
       (suppressed (\<lambda>d. transition_workspace d (ws_id ws) [WsCheckpointing] WsDetachedDirty now) s)"

fun recover_restores :: "workspace_row list \<Rightarrow> segment" where
  "recover_restores [] = (\<lambda>e. finish UnitReply)"
| "recover_restores (ws # wss) = (\<lambda>e s. (s, remove_volume (ws_volume ws) (\<lambda>e s.
     recover_restores wss e
       (suppressed (\<lambda>d. transition_workspace d (ws_id ws) [WsRestoring] WsRemoteOnly (e_now e)) s))))"

definition recover_incomplete :: segment where
  "recover_incomplete e s =
     (case state_call (recover_operations (incomplete_operations (m_db s)) (e_now e)) s of
        (Inl err, s1) \<Rightarrow> finish (ErrorReply (state_exn err)) s1
      | (Inr _, s1) \<Rightarrow>
          (let s2 = recover_checkpoints (workspaces_with_status (m_db s1) [WsCheckpointing]) (e_now e) s1
           in recover_restores (workspaces_with_status (m_db s2) [WsRestoring]) e s2))"

definition startup :: "mgr_cfg \<Rightarrow> docker_container list \<Rightarrow> proc" where
  "startup cfg containers = await (\<lambda>e s.
     let active = active_sandboxes (m_db s)
     in reconcile cfg active (e_now e) containers [] (\<lambda>r e s.
          case r of
            Inl x \<Rightarrow> finish (ErrorReply x) s
          | Inr seen \<Rightarrow> finish_unseen active seen (\<lambda>e s.
              cleanup_orphans (workspaces_with_status (m_db s) [WsDetachedClean]) recover_incomplete e s) e s) e s)"

section \<open>Interleaving\<close>

datatype request =
    CreateWorkspaceRequest string string
  | InspectWorkspaceRequest string string
  | ReleaseWorkspaceRequest string string
  | CreateOperationRequest string
  | InspectOperationRequest string
  | CreateSandboxRequest "string option"
  | InspectSandboxRequest string
  | RenewRequest string
  | TerminateRequest string

fun request_proc :: "grant_env \<Rightarrow> mgr_cfg \<Rightarrow> request \<Rightarrow> proc" where
  "request_proc E cfg (CreateWorkspaceRequest wid grant) = create_workspace_request E cfg wid grant"
| "request_proc E cfg (InspectWorkspaceRequest wid grant) = inspect_workspace E cfg wid grant"
| "request_proc E cfg (ReleaseWorkspaceRequest wid grant) = release_workspace E cfg wid grant"
| "request_proc E cfg (CreateOperationRequest grant) = operation_create_request E cfg grant"
| "request_proc E cfg (InspectOperationRequest oid) = inspect_operation oid"
| "request_proc E cfg (CreateSandboxRequest grant) = create_sandbox E cfg grant"
| "request_proc E cfg (InspectSandboxRequest sid) = inspect_sandbox sid"
| "request_proc E cfg (RenewRequest sid) = renew cfg sid"
| "request_proc E cfg (TerminateRequest sid) = terminate_request cfg sid"

fun job_proc :: "mgr_cfg \<Rightarrow> job \<Rightarrow> proc" where
  "job_proc cfg (CheckpointJob wid) = checkpoint_workspace cfg wid"
| "job_proc cfg (RestoreJob operation) = restore_requested cfg operation"
| "job_proc cfg (FileJob operation claims) = execute_file_operation cfg operation claims"
| "job_proc cfg (RetireJob wid) = retire_workspace cfg wid"

text \<open>
  One step of the Manager: a waiting coroutine runs a segment, a request arrives, a scheduled task
  starts, the reaper wakes up, Docker's volumes change from outside, or the process dies and starts
  again on the same database.
\<close>

inductive pool_step :: "grant_env \<Rightarrow> mgr_cfg \<Rightarrow> mgr \<times> proc list \<Rightarrow> mgr \<times> proc list \<Rightarrow> bool"
  for E cfg where
  run: "i < length ps \<Longrightarrow> ps ! i = Await f \<Longrightarrow> f e s = Some (s', p) \<Longrightarrow> pool_step E cfg (s, ps) (s', ps[i := p])"
| accept: "pool_step E cfg (s, ps) (s, ps @ [request_proc E cfg rq])"
| spawn: "m_jobs s = j # js \<Longrightarrow> pool_step E cfg (s, ps) (s\<lparr>m_jobs := js\<rparr>, ps @ [job_proc cfg j])"
| wake: "pool_step E cfg (s, ps) (s, ps @ [reaper_tick cfg])"
| docker: "pool_step E cfg (s, ps) (s\<lparr>m_volumes := vs\<rparr>, ps)"
| crash: "pool_step E cfg (s, ps) (s\<lparr>m_records := [], m_locks := [], m_jobs := []\<rparr>, [startup cfg containers])"

end
