(* ===== verification/Manager_Authorization.thy ===== *)
theory Manager_Authorization
  imports Manager_Requests State_Safety
begin

text \<open>
  What the synchronous entry of the Manager guarantees: which grants it accepts and how often,
  what an accepted checkout or publish request may name, and which requests schedule a task.
\<close>

section \<open>Grants\<close>

lemma authorize_Inr:
  "authorize E cfg d token operation wid t t' = (Inr claims, d') \<longleftrightarrow>
     verify_grant E token (signing_secret cfg) ''sandbox-manager'' operation t 900 = Inr claims
     \<and> jget claims ''iss'' = JStr (grant_issuer cfg)
     \<and> (\<forall>w. wid = Some w \<longrightarrow> jget claims ''workspace_id'' = JStr w)
     \<and> (\<exists>n e. jget claims ''nonce'' = JStr n \<and> as_pyint (jget claims ''exp'') = Some e
          \<and> consume_nonce d n e t' = (d', True))"
  unfolding authorize_def
  by (auto split: sum.splits option.splits prod.splits if_splits)

lemma nonce_live_call:
  assumes "nonce_live d n t" and "\<And>m e now. c = ConsumeNonce m e now \<Longrightarrow> now \<le> t"
  shows "nonce_live (fst (apply_call d c)) n t"
proof (cases "\<exists>m e now. c = ConsumeNonce m e now")
  case True
  then show ?thesis using assms manager_nonces.consume_keeps by auto
next
  case False
  have "nonces (fst (apply_call d c)) = nonces d"
  proof (cases c)
    case (CommitRevision wid oid rid generation result now)
    show ?thesis
    proof (cases "find_ws wid d")
      case None
      then show ?thesis using CommitRevision by (simp add: commit_revision_def)
    next
      case (Some w)
      then show ?thesis
        using CommitRevision by (auto simp: commit_revision_eq require_def commit_state_def split: option.split)
    qed
  qed (use False in \<open>auto simp: create_workspace_def claim_workspace_def mark_sandbox_running_def
      renew_sandbox_def finish_sandbox_def delete_workspace_def schedule_workspace_delete_def
      transition_workspace_def create_operation_def update_operation_def require_def Let_def
      split: option.split\<close>)
  then show ?thesis using assms(1) by (simp add: nonce_live_def)
qed

lemma nonce_live_run:
  "nonce_live d n t \<Longrightarrow> \<forall>m e now. ConsumeNonce m e now \<in> set cs \<longrightarrow> now \<le> t \<Longrightarrow> nonce_live (run_calls d cs) n t"
  by (induction cs arbitrary: d) (auto simp: nonce_live_call)

text \<open>
  C5. A grant is accepted only if the signing secret made it for this Manager, this operation and
  this Workspace, within its lifetime, and it is accepted once: after an accepted call, and
  whatever the store was asked in between, the same token is refused at every later time before
  the second of its expiry.
\<close>

theorem authorize_once:
  assumes "authorize E cfg d token operation wid v1 t1 = (Inr claims, d1)"
    and "\<forall>m e now. ConsumeNonce m e now \<in> set calls \<longrightarrow> now \<le> t2"
    and "\<forall>e. as_pyint (jget claims ''exp'') = Some e \<longrightarrow> t2 < e"
  shows "(\<exists>encoded supplied raw.
        split_token token = Some (encoded, supplied)
        \<and> b64_decode supplied = Some (grant_signature E (signing_secret cfg) encoded)
        \<and> b64_decode encoded = Some raw \<and> json_loads E raw = Some (JObj claims))
      \<and> jget claims ''aud'' = JStr ''sandbox-manager'' \<and> jget claims ''iss'' = JStr (grant_issuer cfg)
      \<and> (\<forall>op. operation = Some op \<longrightarrow> jget claims ''operation'' = JStr op)
      \<and> (\<forall>w. wid = Some w \<longrightarrow> jget claims ''workspace_id'' = JStr w)
      \<and> (\<exists>e. fst (authorize E cfg (run_calls d1 calls) token operation' wid' v2 t2) = Inl e)"
proof -
  have ok: "verify_grant E token (signing_secret cfg) ''sandbox-manager'' operation v1 900 = Inr claims"
    and "jget claims ''iss'' = JStr (grant_issuer cfg)"
    and "\<forall>w. wid = Some w \<longrightarrow> jget claims ''workspace_id'' = JStr w"
    using assms(1) by (simp_all add: authorize_Inr)
  moreover obtain n e where n: "jget claims ''nonce'' = JStr n" "as_pyint (jget claims ''exp'') = Some e"
      "consume_nonce d n e t1 = (d1, True)"
    using assms(1) by (auto simp: authorize_Inr)
  moreover have "\<exists>e. fst (authorize E cfg (run_calls d1 calls) token operation' wid' v2 t2) = Inl e"
  proof (rule ccontr)
    assume "\<not> ?thesis"
    then obtain claims' d2 where again: "authorize E cfg (run_calls d1 calls) token operation' wid' v2 t2 = (Inr claims', d2)"
      by (cases "authorize E cfg (run_calls d1 calls) token operation' wid' v2 t2") (auto split: sum.splits, metis sum.exhaust)
    then have "claims' = claims" using ok by (auto simp: authorize_Inr verify_grant_Inr)
    then have "snd (consume_nonce (run_calls d1 calls) n e t2)"
      using again n by (auto simp: authorize_Inr)
    moreover have "nonce_live d1 n t2"
      using manager_nonces.consume_records [of d n e t1 t2] n assms(3) by simp
    then have "nonce_live (run_calls d1 calls) n t2" using assms(2) nonce_live_run by blast
    ultimately show False using manager_nonces.consume_iff by blast
  qed
  ultimately show ?thesis by (auto simp: verify_grant_Inr check_claims_Inr)
qed

text \<open>
  The expiry check and the nonce table read the clock separately, so the last second of a grant
  is not covered: a token that was accepted and verifies again just before its expiry is accepted a
  second time when the nonce table is consulted at the expiry, because the purge has dropped the
  first entry.
\<close>

theorem authorize_replay_at_expiry:
  assumes "authorize E cfg d token operation wid v1 t1 = (Inr claims, d1)"
    and "verify_grant E token (signing_secret cfg) ''sandbox-manager'' operation v2 900 = Inr claims"
    and "as_pyint (jget claims ''exp'') = Some e" and "\<not> nonce_live d n e" and "jget claims ''nonce'' = JStr n"
  shows "\<exists>d2. authorize E cfg d1 token operation wid v2 e = (Inr claims, d2)"
proof -
  have "consume_nonce d n e t1 = (d1, True)" using assms(1,3,5) by (auto simp: authorize_Inr)
  then have "\<not> nonce_live d1 n e"
  proof -
    have "nonces d1 = delete_rows (\<lambda>r. nc_expires r \<le> t1) (nonces d)
        @ [\<lparr>nc_nonce = n, nc_expires = e, nc_consumed = t1\<rparr>]"
      using \<open>consume_nonce d n e t1 = (d1, True)\<close> by (auto simp: consume_nonce_def Let_def split: if_splits)
    then show ?thesis using assms(4) by (auto simp: nonce_live_def set_delete_rows)
  qed
  then have "snd (consume_nonce d1 n e e)" by (simp add: manager_nonces.consume_iff)
  then have "\<exists>d2. consume_nonce d1 n e e = (d2, True)" by (metis prod.collapse)
  then show ?thesis using assms by (auto simp: authorize_Inr)
qed

text \<open>A concrete environment: the key is prepended for the signature, and one payload is known.\<close>

definition sample_claims :: obj where
  "sample_claims =
     [(''aud'', JStr ''sandbox-manager''), (''exp'', JInt 160), (''iat'', JInt 100), (''iss'', JStr ''bff''),
      (''nonce'', JStr ''n1''), (''operation'', JStr ''artifact_publish''), (''workspace_id'', JStr ''w''),
      (''assistant_message_id'', JStr ''m1''),
      (''response_id'', JStr ''resp_0123456789abcdef0123456789abcdef''),
      (''output_relative_path'', JStr ''a/b.txt''), (''max_bytes'', JInt 1000)]"

definition sample_env :: grant_env where
  "sample_env = \<lparr>hmac_sha256 = (\<lambda>k m. k @ m), json_dumps = (\<lambda>v. ''payload''),
     json_loads = (\<lambda>b. Some (JObj sample_claims))\<rparr>"

definition sample_cfg :: mgr_cfg where
  "sample_cfg = \<lparr>signing_secret = ''key'', grant_issuer = ''bff'', transfer_base = ''http://artifacts/v1'',
     storage_enabled = True, has_runner = True, delete_grace = 3600, local_retention = 3600,
     execution_ttl = 1800, bracket_ok = (\<lambda>s. False), sha256_hex = (\<lambda>s. s)\<rparr>"

definition sample_token :: string where
  "sample_token = sign_payload sample_env ''key'' []"

lemma sample_verify:
  assumes "check_claims sample_claims ''sandbox-manager'' operation t 900 = Inr sample_claims"
  shows "verify_grant sample_env sample_token (signing_secret sample_cfg) ''sandbox-manager'' operation t 900 =
    Inr sample_claims"
proof -
  have "length (sign_payload sample_env ''key'' []) = 29" by code_simp
  then show ?thesis
    using assms verify_sign_payload [of sample_env "[]" sample_claims "''key''"]
    by (simp add: sample_env_def sample_token_def sample_cfg_def)
qed

lemma sample_verify_at: "verify_grant sample_env sample_token (signing_secret sample_cfg) ''sandbox-manager'' None t 900 =
    Inr sample_claims" if "100 \<le> t" "t < 160"
  by (rule sample_verify) (use that in \<open>simp add: check_claims_Inr sample_claims_def\<close>)

lemma sample_authorize:
  assumes "100 \<le> t" and "t < 160" and "snd (consume_nonce d ''n1'' 160 t')"
  shows "authorize sample_env sample_cfg d sample_token None None t t' =
    (Inr sample_claims, fst (consume_nonce d ''n1'' 160 t'))"
proof -
  have "consume_nonce d ''n1'' 160 t' = (fst (consume_nonce d ''n1'' 160 t'), True)"
    using assms(3) by (metis prod.collapse)
  moreover have "jget sample_claims ''iss'' = JStr (grant_issuer sample_cfg)"
      "jget sample_claims ''nonce'' = JStr ''n1''" "as_pyint (jget sample_claims ''exp'') = Some 160"
    by (simp_all add: sample_claims_def sample_cfg_def)
  ultimately show ?thesis using sample_verify_at [OF assms(1,2)] by (simp add: authorize_Inr)
qed

lemma authorize_once_witness:
  "\<exists>d1 e. authorize sample_env sample_cfg empty_db sample_token None None 110 110 = (Inr sample_claims, d1)
     \<and> fst (authorize sample_env sample_cfg (run_calls d1 [ConsumeNonce ''other'' 130 120]) sample_token None None 150 150) = Inl e"
proof -
  let ?d = "fst (consume_nonce empty_db ''n1'' 160 110)"
  have a: "authorize sample_env sample_cfg empty_db sample_token None None 110 110 = (Inr sample_claims, ?d)"
    by (rule sample_authorize) (simp_all add: consume_nonce_def empty_db_def delete_rows_def)
  have "as_pyint (jget sample_claims ''exp'') = Some 160" by (simp add: sample_claims_def)
  then show ?thesis
    using a authorize_once [OF a, of "[ConsumeNonce ''other'' 130 120]" 150 None None 150] by auto
qed

lemma authorize_replay_at_expiry_witness:
  "\<exists>d1 d2. authorize sample_env sample_cfg empty_db sample_token None None 110 110 = (Inr sample_claims, d1)
     \<and> authorize sample_env sample_cfg d1 sample_token None None 159 160 = (Inr sample_claims, d2)"
proof -
  let ?d = "fst (consume_nonce empty_db ''n1'' 160 110)"
  have a: "authorize sample_env sample_cfg empty_db sample_token None None 110 110 = (Inr sample_claims, ?d)"
    by (rule sample_authorize) (simp_all add: consume_nonce_def empty_db_def delete_rows_def)
  show ?thesis
    using a authorize_replay_at_expiry [OF a sample_verify_at [of 159], of 160 "''n1''"]
    by (auto simp: nonce_live_def empty_db_def sample_claims_def)
qed

end
