(* ===== verification/Manager_Operations.thy ===== *)
theory Manager_Operations
  imports Manager_Authorization
begin

text \<open>
  What \<open>create_operation\<close> of the Manager lets through: the paths, Sandboxes and transfers of an
  accepted checkout or publish, and the requests that schedule a task.
\<close>

section \<open>Accepted requests\<close>

lemma required_claim_Inr:
  "required_claim c k = Inr v \<longleftrightarrow> jget c k = JStr v \<and> v \<noteq> [] \<and> length v \<le> 8192"
  by (cases "as_str (jget c k)") (auto simp: required_claim_def require_Inr_iff)

lemma message_id_claim_Inr:
  "message_id_claim c k = Inr v \<longleftrightarrow> jget c k = JStr v \<and> valid_message_id v"
  by (auto simp: message_id_claim_def result_iffs required_claim_Inr valid_message_id_def)

lemma safe_output_relative_Inr:
  "safe_output_relative v = Inr p \<longleftrightarrow>
     p = v \<and> \<not> starts_with ''/'' v \<and> CHR 0x00 \<notin> set v \<and> (\<forall>q\<in>set (split_on CHR ''/'' v). q \<notin> {[], ''.'', ''..''})"
  by (auto simp: safe_output_relative_def require_Inr_iff join_split_on list_ex_iff Let_def)

lemma validate_transfer_url_Inr:
  "validate_transfer_url cfg url = Inr u \<longleftrightarrow>
     is_http_url (bracket_ok cfg) url = Some True
     \<and> (url = transfer_base cfg \<or> starts_with (transfer_base cfg @ ''/'') url)"
  by (cases "is_http_url (bracket_ok cfg) url") (auto simp: validate_transfer_url_def require_Inr_iff)

lemma bound_sandbox_Inr:
  "bound_sandbox d claims ws = Inr sid \<Longrightarrow>
     ws_active ws = Some sid \<and> (\<exists>s. find_sb sid d = Some s \<and> sb_workspace s = ws_id ws \<and> sb_status s = SbRunning)"
  by (auto simp: bound_sandbox_def result_iffs get_sandbox_def split: json.splits option.splits sum.splits)

lemma mgr_get_workspace_Inr: "mgr_get_workspace d wid = Inr ws \<longleftrightarrow> find_ws wid d = Some ws"
  by (auto simp: mgr_get_workspace_def get_workspace_def split: option.splits)

lemma operation_request_Inr:
  "operation_request cfg d claims = Inr (ws, rq) \<longleftrightarrow>
     (\<exists>requested name wid. jget claims ''operation'' = JStr requested
        \<and> map_of operation_names requested = Some name \<and> has_runner cfg
        \<and> required_claim claims ''workspace_id'' = Inr wid \<and> find_ws wid d = Some ws
        \<and> (case name of
             Checkout \<Rightarrow> rbind (bound_sandbox d claims ws) (checkout_request cfg claims requested)
           | Publish \<Rightarrow> rbind (bound_sandbox d claims ws) (publish_request cfg claims requested)
           | Checkpoint \<Rightarrow> checkpoint_request claims ws
           | _ \<Rightarrow> restore_request claims ws) = Inr rq)"
  by (cases "as_str (jget claims ''operation'')")
    (auto simp: operation_request_def result_iffs mgr_get_workspace_Inr split: option.splits)

lemma request_names:
  "checkout_request cfg claims requested sid = Inr rq \<Longrightarrow> rq_name rq = Checkout"
  "publish_request cfg claims requested sid = Inr rq \<Longrightarrow> rq_name rq = Publish"
  "checkpoint_request claims ws = Inr rq \<Longrightarrow> rq_name rq = Checkpoint"
  "restore_request claims ws = Inr rq \<Longrightarrow> rq_name rq = Restore"
  by (auto simp: checkout_request_def publish_request_def checkpoint_request_def restore_request_def
      result_iffs Let_def split: option.splits)

lemma operation_request_file:
  assumes "operation_request cfg d claims = Inr (ws, rq)" and "rq_name rq \<in> {Checkout, Publish}"
  obtains requested sid where "bound_sandbox d claims ws = Inr sid"
    and "(if rq_name rq = Checkout then checkout_request else publish_request) cfg claims requested sid = Inr rq"
proof -
  obtain requested name where m: "(case name of
             Checkout \<Rightarrow> rbind (bound_sandbox d claims ws) (checkout_request cfg claims requested)
           | Publish \<Rightarrow> rbind (bound_sandbox d claims ws) (publish_request cfg claims requested)
           | Checkpoint \<Rightarrow> checkpoint_request claims ws
           | _ \<Rightarrow> restore_request claims ws) = Inr rq"
    using assms(1) unfolding operation_request_Inr by blast
  then show thesis
    using assms(2) that by (cases name) (auto simp: result_iffs dest: request_names)
qed

text \<open>
  C6. A publish request that the Manager accepts names a file of the answer's own output
  directory: the path it stores is \<open>outputs/<message>/\<close> followed by at least one component, none
  of them empty, \<open>.\<close> or \<open>..\<close>; its Sandbox is the running writer of the Workspace, and its size
  limit lies between 1 byte and 10 GiB.
\<close>

theorem publish_request_confined:
  assumes "operation_request cfg d claims = Inr (ws, rq)" and "rq_name rq = Publish"
  shows "\<exists>sid message path parts n.
      rq_sandbox rq = Some sid \<and> ws_active ws = Some sid
      \<and> (\<exists>s. find_sb sid d = Some s \<and> sb_workspace s = ws_id ws \<and> sb_status s = SbRunning)
      \<and> jget claims ''assistant_message_id'' = JStr message
      \<and> jget (rq_input rq) ''workspace_path'' = JStr path
      \<and> split_on CHR ''/'' path = ''outputs'' # message # parts \<and> parts \<noteq> []
      \<and> (\<forall>p\<in>set (message # parts). p \<notin> {[], ''.'', ''..''} \<and> CHR 0x00 \<notin> set p)
      \<and> as_pyint (jget (rq_input rq) ''max_bytes'') = Some n \<and> 0 < n \<and> n \<le> max_artifact_bytes"
proof -
  obtain requested sid where sid: "bound_sandbox d claims ws = Inr sid"
    and "publish_request cfg claims requested sid = Inr rq"
    by (rule operation_request_file [OF assms(1)]) (simp_all add: assms(2))
  then obtain message rel n key where msg: "jget claims ''assistant_message_id'' = JStr message" "valid_message_id message"
    and rel: "safe_output_relative rel = Inr rel"
    and n: "as_pyint (jget claims ''max_bytes'') = Some n" "0 < n" "n \<le> max_artifact_bytes"
    and rq: "rq_sandbox rq = Some sid"
      "jget (rq_input rq) ''workspace_path'' = JStr (''outputs/'' @ message @ ''/'' @ rel)"
      "jget (rq_input rq) ''max_bytes'' = jget claims ''max_bytes''"
    by (auto simp: publish_request_def result_iffs message_id_claim_Inr safe_output_relative_Inr split: option.splits)
  have chars: "CHR ''/'' \<notin> set message" "CHR ''.'' \<notin> set message" "message \<noteq> []"
    using valid_message_id_chars [OF msg(2)] msg(2) by (auto simp: valid_message_id_def)
  have "CHR 0x00 \<notin> set message"
    using msg(2) by (auto simp: valid_message_id_def list_all_iff is_word_dash_def is_digit_def is_upper_def is_lower_def)
  then have message: "message \<notin> {[], ''.'', ''..''} \<and> CHR 0x00 \<notin> set message" using chars by auto
  have "split_on CHR ''/'' (''outputs/'' @ message @ ''/'' @ rel) = ''outputs'' # message # split_on CHR ''/'' rel"
    using split_on_append [of "CHR ''/''" "''outputs''" "message @ CHR ''/'' # rel"] chars
    by (simp add: split_on_append)
  moreover have "\<forall>p\<in>set (split_on CHR ''/'' rel). p \<notin> {[], ''.'', ''..''} \<and> CHR 0x00 \<notin> set p"
    using rel split_on_chars by (fastforce simp: safe_output_relative_Inr)
  ultimately have path: "split_on CHR ''/'' (''outputs/'' @ message @ ''/'' @ rel) =
        ''outputs'' # message # split_on CHR ''/'' rel"
    and parts: "\<forall>p\<in>set (message # split_on CHR ''/'' rel). p \<notin> {[], ''.'', ''..''} \<and> CHR 0x00 \<notin> set p"
    using message by simp_all
  obtain s where s: "find_sb sid d = Some s" "sb_workspace s = ws_id ws" "sb_status s = SbRunning"
    using bound_sandbox_Inr [OF sid] by blast
  show ?thesis
  proof (intro exI conjI)
    show "rq_sandbox rq = Some sid" by (rule rq)
    show "ws_active ws = Some sid" using bound_sandbox_Inr [OF sid] by blast
    show "find_sb sid d = Some s" "sb_workspace s = ws_id ws" "sb_status s = SbRunning" by (simp_all add: s)
    show "jget claims ''assistant_message_id'' = JStr message" by (rule msg)
    show "jget (rq_input rq) ''workspace_path'' = JStr (''outputs/'' @ message @ ''/'' @ rel)" by (rule rq)
    show "split_on CHR ''/'' (''outputs/'' @ message @ ''/'' @ rel) = ''outputs'' # message # split_on CHR ''/'' rel"
      by (rule path)
    show "split_on CHR ''/'' rel \<noteq> []" by simp
    show "\<forall>p\<in>set (message # split_on CHR ''/'' rel). p \<notin> {[], ''.'', ''..''} \<and> CHR 0x00 \<notin> set p"
      by (rule parts)
    show "as_pyint (jget (rq_input rq) ''max_bytes'') = Some n" using n(1) rq(3) by simp
  qed (use n in simp_all)
qed

section \<open>Artifacts of a checkout\<close>

definition artifact_ok :: "mgr_cfg \<Rightarrow> obj \<Rightarrow> bool" where
  "artifact_ok cfg item \<longleftrightarrow>
     (\<exists>aid filename sha url n m.
        jget item ''artifact_id'' = JStr aid \<and> prefixed_hex ''artifact_'' 32 aid
        \<and> jget item ''filename'' = JStr filename \<and> filename \<notin> {[], ''.'', ''..''}
        \<and> set filename \<inter> {CHR ''/'', CHR 0x5C, CHR 0x00} = {} \<and> length filename \<le> 255
        \<and> jget item ''sha256'' = JStr sha \<and> prefixed_hex [] 64 sha
        \<and> jget item ''url'' = JStr url \<and> is_http_url (bracket_ok cfg) url = Some True
        \<and> (url = transfer_base cfg \<or> starts_with (transfer_base cfg @ ''/'') url)
        \<and> jget item ''size'' = JInt n \<and> jget item ''max_bytes'' = JInt m
        \<and> 0 \<le> n \<and> n \<le> m \<and> m \<le> max_artifact_bytes)"

lemma checkout_artifact_Inr:
  assumes "checkout_artifact cfg ids names raw = Inr (aid, filename, item)"
  shows "aid \<notin> set ids" and "filename \<notin> set names" and "jget item ''artifact_id'' = JStr aid"
    and "jget item ''filename'' = JStr filename" and "artifact_ok cfg item"
proof -
  obtain src where src: "raw = JObj src"
    using assms by (cases "as_obj raw") (auto simp: checkout_artifact_def)
  obtain n where n: "jget src ''size'' = JInt n"
    using assms by (cases "as_int (jget src ''size'')") (auto simp: checkout_artifact_def src result_iffs)
  obtain m where m: "jget src ''max_bytes'' = JInt m"
    using assms by (cases "as_int (jget src ''max_bytes'')") (auto simp: checkout_artifact_def src n result_iffs)
  note parts = checkout_artifact_def src n m result_iffs required_claim_Inr validate_transfer_url_Inr
  obtain sha url token where item: "item =
        [(''artifact_id'', JStr aid), (''filename'', JStr filename), (''size'', JInt n),
         (''sha256'', JStr (lower sha)), (''max_bytes'', JInt m), (''url'', JStr url), (''token'', JStr token)]"
    and fresh: "aid \<notin> set ids" "filename \<notin> set names"
    and ok: "prefixed_hex ''artifact_'' 32 aid" "filename \<notin> {[], ''.'', ''..''}"
      "set filename \<inter> {CHR ''/'', CHR 0x5C, CHR 0x00} = {}" "length filename \<le> 255"
      "prefixed_hex [] 64 (lower sha)" "is_http_url (bracket_ok cfg) url = Some True"
      "url = transfer_base cfg \<or> starts_with (transfer_base cfg @ ''/'') url"
      "0 \<le> n" "n \<le> m" "m \<le> max_artifact_bytes"
    using assms by (auto simp: parts)
  show "aid \<notin> set ids" "filename \<notin> set names" by (rule fresh)+
  show "jget item ''artifact_id'' = JStr aid" "jget item ''filename'' = JStr filename" by (simp_all add: item)
  show "artifact_ok cfg item"
    unfolding artifact_ok_def using ok
    by (intro exI [of _ aid] exI [of _ filename] exI [of _ "lower sha"] exI [of _ url] exI [of _ n] exI [of _ m])
      (simp add: item)
qed

lemma checkout_items_Inr:
  "checkout_items cfg ids names raws = Inr items \<Longrightarrow>
     length items = length raws \<and> (\<forall>item\<in>set items. artifact_ok cfg item)
     \<and> distinct (map (\<lambda>i. jget i ''artifact_id'') items) \<and> distinct (map (\<lambda>i. jget i ''filename'') items)
     \<and> (\<forall>item\<in>set items. jget item ''artifact_id'' \<notin> JStr ` set ids \<and> jget item ''filename'' \<notin> JStr ` set names)"
proof (induction raws arbitrary: ids names items)
  case (Cons raw raws)
  then obtain aid filename item rest where item: "checkout_artifact cfg ids names raw = Inr (aid, filename, item)"
    and rest: "checkout_items cfg (aid # ids) (filename # names) raws = Inr rest" and items: "items = item # rest"
    by (auto simp: result_iffs)
  show ?case
    using Cons.IH [OF rest] checkout_artifact_Inr [OF item] unfolding items by auto
qed simp

text \<open>
  C7. A checkout request that the Manager accepts moves at most 32 files, each under its own
  Artifact id and its own plain file name (no separator, not a dot name), with a stated digest
  and size, from a URL below the configured transfer base. What is stored as the operation's
  input has neither the transfer URLs nor the transfer tokens.
\<close>

theorem checkout_request_safe:
  assumes "operation_request cfg d claims = Inr (ws, rq)" and "rq_name rq = Checkout"
  shows "\<exists>items stored.
      jget (rq_claims rq) ''artifacts'' = JList (map JObj items) \<and> length items \<le> 32
      \<and> (\<forall>item\<in>set items. artifact_ok cfg item)
      \<and> distinct (map (\<lambda>i. jget i ''artifact_id'') items) \<and> distinct (map (\<lambda>i. jget i ''filename'') items)
      \<and> jget (rq_input rq) ''artifacts'' = JList (map JObj stored) \<and> length stored = length items
      \<and> (\<forall>item\<in>set stored. jget item ''url'' = JNull \<and> jget item ''token'' = JNull)"
proof -
  obtain requested sid where "checkout_request cfg claims requested sid = Inr rq"
    by (rule operation_request_file [OF assms(1)]) (simp_all add: assms(2))
  then obtain artifacts where a: "checkout_artifacts cfg (jget claims ''artifacts'') = Inr artifacts"
    and rq: "jget (rq_claims rq) ''artifacts'' = JList (map JObj artifacts)"
      "jget (rq_input rq) ''artifacts'' = JList (map artifact_input artifacts)"
    by (auto simp: checkout_request_def result_iffs Let_def)
  obtain raws where "checkout_items cfg [] [] raws = Inr artifacts" "length raws \<le> 32"
    using a by (auto simp: checkout_artifacts_def result_iffs split: option.splits)
  note items = checkout_items_Inr [OF this(1)] this(2)
  let ?f = "\<lambda>item. map (\<lambda>k. (k, jget item k)) [''artifact_id'', ''filename'', ''size'', ''sha256'', ''max_bytes'']"
  have "map artifact_input artifacts = map JObj (map ?f artifacts)" by (simp add: artifact_input_def)
  then have stored: "jget (rq_input rq) ''artifacts'' = JList (map JObj (map ?f artifacts))" using rq(2) by simp
  show ?thesis
  proof (intro exI conjI)
    show "jget (rq_claims rq) ''artifacts'' = JList (map JObj artifacts)" by (rule rq)
    show "length artifacts \<le> 32" using items by simp
    show "\<forall>item\<in>set artifacts. artifact_ok cfg item" using items by blast
    show "distinct (map (\<lambda>i. jget i ''artifact_id'') artifacts)" "distinct (map (\<lambda>i. jget i ''filename'') artifacts)"
      using items by blast+
    show "jget (rq_input rq) ''artifacts'' = JList (map JObj (map ?f artifacts))" by (rule stored)
  qed simp_all
qed

text \<open>A Workspace with a running writer, and the claims of a checkout.\<close>

definition busy_db :: db where
  "busy_db = run_calls empty_db
     [CreateWorkspace ''w'' Recoverable ''v'' 1, ClaimWorkspace ''w'' ''s1'' ''h'' ''c'' 2 900,
      MarkSandboxRunning ''s1'' 3]"

definition checkout_claims :: obj where
  "checkout_claims =
     [(''operation'', JStr ''artifact_checkout''), (''workspace_id'', JStr ''w''), (''nonce'', JStr ''n2''),
      (''user_message_id'', JStr ''u1''), (''assistant_message_id'', JStr ''m1''),
      (''artifacts'', JList [JObj
        [(''artifact_id'', JStr ''artifact_0123456789abcdef0123456789abcdef''), (''filename'', JStr ''in.csv''),
         (''sha256'', JStr ''0123456789abcdef0123456789abcdef0123456789abcdef0123456789abcdef''),
         (''url'', JStr ''http://artifacts/v1/x''), (''token'', JStr ''t''), (''size'', JInt 5), (''max_bytes'', JInt 5)]])]"

lemma busy_db_eq: "busy_db =
   \<lparr>workspaces = [\<lparr>ws_id = ''w'', ws_kind = Recoverable, ws_status = WsRunning, ws_volume = ''v'',
      ws_generation = 1, ws_head = None, ws_active = Some ''s1'', ws_created = 1, ws_updated = 3, ws_delete_after = None\<rparr>],
    sandboxes = [\<lparr>sb_id = ''s1'', sb_workspace = ''w'', sb_host = ''h'', sb_container = ''c'', sb_status = SbRunning,
      sb_created = 2, sb_expires = Some 900\<rparr>],
    operations = [], revisions = [], nonces = []\<rparr>"
  by code_simp

lemmas request_eval = operation_request_def operation_names_def required_claim_def mgr_get_workspace_def
  get_workspace_def find_ws_def select_one_def bound_sandbox_def get_sandbox_def find_sb_def
  publish_request_def checkout_request_def message_id_claim_def valid_message_id_def
  prefixed_hex_def safe_output_relative_def upload_target_def idempotency_claim_def
  checkout_artifacts_def checkout_artifact_def validate_transfer_url_def starts_with_def
  is_word_dash_def is_hex_def is_digit_def is_upper_def is_lower_def is_alpha_def lower_def lower_char_def

lemma publish_request_confined_witness:
  "\<exists>ws rq path parts. operation_request sample_cfg busy_db sample_claims = Inr (ws, rq)
     \<and> jget (rq_input rq) ''workspace_path'' = JStr path \<and> split_on CHR ''/'' path = ''outputs'' # ''m1'' # parts"
proof -
  obtain ws rq where r: "operation_request sample_cfg busy_db sample_claims = Inr (ws, rq)" "rq_name rq = Publish"
    by (simp add: busy_db_eq sample_claims_def sample_cfg_def request_eval)
  have "jget sample_claims ''assistant_message_id'' = JStr ''m1''" by (simp add: sample_claims_def)
  then show ?thesis using publish_request_confined [OF r] r(1) by auto
qed

lemma checkout_request_safe_witness:
  "\<exists>ws rq items. operation_request sample_cfg busy_db checkout_claims = Inr (ws, rq)
     \<and> jget (rq_claims rq) ''artifacts'' = JList (map JObj items) \<and> (\<forall>item\<in>set items. artifact_ok sample_cfg item)"
proof -
  have http: "is_http_url (bracket_ok sample_cfg) ''http://artifacts/v1/x'' = Some True" by code_simp
  obtain ws rq where r: "operation_request sample_cfg busy_db checkout_claims = Inr (ws, rq)" "rq_name rq = Checkout"
    using http by (simp add: busy_db_eq checkout_claims_def sample_cfg_def request_eval)
  show ?thesis using checkout_request_safe [OF r] r(1) by blast
qed

section \<open>Starting an operation\<close>

lemma created_pending:
  "state_ok d \<Longrightarrow> create_operation d oid name wid sid key input now = Inr ((r, True), d') \<Longrightarrow>
     op_status r = OpPending \<and> r \<in> set (operations d')"
  by (auto simp: create_operation_Inr new_operation_def split: option.splits)

lemma existing_row:
  "create_operation d oid name wid sid key input now = Inr ((r, False), d') \<Longrightarrow> d' = d \<and> r \<in> set (operations d)"
  by (auto simp: create_operation_Inr split: option.splits dest: select_one_Some)

text \<open>
  C8. Starting an operation answers with a row of the store that has the requested kind, Workspace
  and Sandbox, and schedules at most one task, for that row and only when it is pending. When the
  key is that of an existing row, exactly one of three things happens. A checkpoint of a clean
  Workspace is recorded as succeeded at the current head, also when the row had succeeded before,
  and nothing is scheduled. A row that has failed, or a running publish whose file is captured and
  whose grant brings an upload URL, becomes pending again and is scheduled. Any other row is answered
  as it stands: no row changes and nothing is scheduled. A key that belongs to a different request
  is refused without any change.
\<close>

theorem start_operation_outcome:
  assumes "state_ok d" and "start_operation d ws rq uuid now = (res, d', jobs)"
  shows "case res of
      Inr r \<Rightarrow> r \<in> set (operations d') \<and> op_name r = rq_name rq \<and> op_workspace r = ws_id ws
        \<and> op_sandbox r = rq_sandbox rq
        \<and> (jobs = [] \<or> jobs = [request_job rq ws r] \<and> op_status r = OpPending)
        \<and> (\<forall>x. select_one (\<lambda>x. op_key x = rq_key rq) (operations d) = Some x \<longrightarrow>
             (if rq_name rq = Checkpoint \<and> ws_status ws = WsDetachedClean
              then r = set_operation OpSucceeded None
                  (Some [(''revision_id'', opt_str (ws_head ws)), (''already_clean'', JBool True)]) None now x \<and> jobs = []
              else if op_status x = OpFailed \<or> (rq_name rq = Publish \<and> op_status x = OpRunning
                  \<and> op_phase x = Some PhCaptured \<and> as_str (jget (rq_claims rq) ''upload_url'') \<noteq> None)
              then r = set_operation OpPending (op_phase x) (op_result x) None now x \<and> jobs = [request_job rq ws r]
              else r = x \<and> d' = d \<and> jobs = []))
    | Inl e \<Rightarrow> d' = d \<and> jobs = []"
proof (cases "create_operation d (''operation_'' @ uuid) (rq_name rq) (ws_id ws) (rq_sandbox rq) (rq_key rq) (rq_input rq) now")
  case (Inl e)
  then show ?thesis using assms(2) by (cases e) (auto simp: start_operation_def)
next
  case (Inr a)
  then obtain op created d1 where m: "create_operation d (''operation_'' @ uuid) (rq_name rq) (ws_id ws)
      (rq_sandbox rq) (rq_key rq) (rq_input rq) now = Inr ((op, created), d1)"
    by (cases a) auto
  have ok: "state_ok d1" by (rule create_operation_ok [OF assms(1) m])
  have row: "op \<in> set (operations d1)"
    using m by (cases created) (auto dest: existing_row created_pending [OF assms(1)])
  have update: "update_operation d1 (op_id op) st ph res None now =
      Inr (set_operation st ph res None now op, d1\<lparr>operations := update_rows (\<lambda>r. op_id r = op_id op)
                (set_operation st ph res None now) (operations d1)\<rparr>)" for st ph res
    using row update_operation_Inr [OF ok] by blast
  have mem: "f op \<in> set (update_rows (\<lambda>r. op_id r = op_id op) f (operations d1))" for f
    using row by (auto simp: set_update_rows)
  have fresh: "same_request rq ws op" if created
    using m that by (auto simp: create_operation_Inr same_request_def new_operation_def canon_py_eq split: option.splits)
  have first: "\<not> created \<and> d1 = d \<and> op = x" if "select_one (\<lambda>x. op_key x = rq_key rq) (operations d) = Some x" for x
    using m that by (simp add: create_operation_Inr)
  show ?thesis
  proof (cases "same_request rq ws op")
    case False
    then have "\<not> created" using fresh by blast
    then have "d1 = d" using m by (auto dest: existing_row)
    then show ?thesis using assms(2) m False by (auto simp: start_operation_def)
  next
    case True
    then have id: "op_name op = rq_name rq" "op_workspace op = ws_id ws" "op_sandbox op = rq_sandbox rq"
      by (simp_all add: same_request_def)
    let ?clean = "rq_name rq = Checkpoint \<and> ws_status ws = WsDetachedClean"
    let ?resume = "op_status op = OpFailed \<or> (rq_name rq = Publish \<and> op_status op = OpRunning
        \<and> op_phase op = Some PhCaptured \<and> as_str (jget (rq_claims rq) ''upload_url'') \<noteq> None)"
    note start = assms(2) [unfolded start_operation_def m sum.case prod.case, simplified True, simplified]
    have keep: "op_name (set_operation st ph r e now op) = rq_name rq" "op_workspace (set_operation st ph r e now op) = ws_id ws"
        "op_sandbox (set_operation st ph r e now op) = rq_sandbox rq" "op_status (set_operation st ph r e now op) = st"
      for st ph r e using id by (simp_all add: set_operation_def)
    consider (clean) ?clean | (new) "\<not> ?clean" created | (resume) "\<not> ?clean" "\<not> created" ?resume
      | (asis) "\<not> ?clean" "\<not> created" "\<not> ?resume" by blast
    then show ?thesis
    proof cases
      case clean
      then have "res = Inr (set_operation OpSucceeded None
            (Some [(''revision_id'', opt_str (ws_head ws)), (''already_clean'', JBool True)]) None now op)"
          "operations d' = update_rows (\<lambda>r. op_id r = op_id op) (set_operation OpSucceeded None
            (Some [(''revision_id'', opt_str (ws_head ws)), (''already_clean'', JBool True)]) None now) (operations d1)"
          "jobs = []"
        using start by (auto simp: update)
      then show ?thesis using clean keep mem first by auto
    next
      case new
      then have "res = Inr op" "d' = d1" "jobs = [request_job rq ws op]" using start by auto
      then show ?thesis using new row id m created_pending [OF assms(1)] first by auto
    next
      case resume
      let ?op = "set_operation OpPending (op_phase op) (op_result op) None now op"
      have "res = Inr ?op" "jobs = [request_job rq ws ?op]"
          "operations d' = update_rows (\<lambda>r. op_id r = op_id op)
             (set_operation OpPending (op_phase op) (op_result op) None now) (operations d1)"
        using start resume by (auto simp: update)
      then show ?thesis using resume keep mem first by auto
    next
      case asis
      then have "res = Inr op" "d' = d1" "jobs = []" using start by auto
      then show ?thesis using asis row id first by auto
    qed
  qed
qed

lemma start_operation_outcome_witness:
  "\<exists>r d' ws rq. operation_request sample_cfg busy_db sample_claims = Inr (ws, rq)
     \<and> start_operation busy_db ws rq ''77'' 5 = (Inr r, d', [request_job rq ws r]) \<and> r \<in> set (operations d')"
proof -
  obtain ws rq where r: "operation_request sample_cfg busy_db sample_claims = Inr (ws, rq)" "rq_name rq = Publish"
    by (simp add: busy_db_eq sample_claims_def sample_cfg_def request_eval)
  have ok: "state_ok busy_db" unfolding busy_db_def by (rule run_calls_ok [OF state_ok_empty]) simp
  have "ws \<in> set (workspaces busy_db)"
    using r(1) by (auto simp: operation_request_Inr find_ws_Some [OF ok])
  then have "ws_id ws = ''w''" by (simp add: busy_db_eq)
  let ?r = "new_operation (''operation_'' @ ''77'') (rq_name rq) ''w'' (rq_sandbox rq) (rq_key rq) (rq_input rq) 5"
  have start: "start_operation busy_db ws rq ''77'' 5 = (Inr ?r, busy_db\<lparr>operations := [?r]\<rparr>, [request_job rq ws ?r])"
    using r(2) \<open>ws_id ws = ''w''\<close>
    by (simp add: start_operation_def create_operation_def busy_db_eq select_one_def find_op_def find_ws_def
        same_request_def new_operation_def canon_py_eq Let_def)
  show ?thesis using r(1) start start_operation_outcome [OF ok start] by auto
qed

text \<open>
  An explicit restore is not repeatable: once a restore to the current head has succeeded, a
  later restore request for a Workspace whose local copy was dropped again answers with the old
  success, changes no row and schedules nothing, so the Workspace stays \<open>remote_only\<close>.
\<close>

theorem repeated_restore_noop:
  assumes "restore_request claims ws = Inr rq" and "ws_status ws = WsRemoteOnly"
    and "select_one (\<lambda>r. op_key r = rq_key rq) (operations d) = Some r" and "op_status r = OpSucceeded"
    and "same_request rq ws r"
  shows "start_operation d ws rq uuid now = (Inr r, d, [])"
  using assms request_names(4) [OF assms(1)]
  by (simp add: start_operation_def create_operation_def)

definition remote_row :: workspace_row where
  "remote_row = (new_workspace ''w'' Recoverable ''v'' 1)\<lparr>ws_status := WsRemoteOnly, ws_head := Some ''rev1''\<rparr>"

definition restored_op :: operation_row where
  "restored_op = (new_operation ''operation_1'' Restore ''w'' None ''restore:w:rev1'' [(''revision_id'', JStr ''rev1'')] 3)
     \<lparr>op_status := OpSucceeded\<rparr>"

lemma repeated_restore_noop_witness:
  "\<exists>rq. restore_request [] remote_row = Inr rq \<and>
     start_operation (empty_db\<lparr>workspaces := [remote_row], operations := [restored_op]\<rparr>) remote_row rq ''2'' 9 =
       (Inr restored_op, empty_db\<lparr>workspaces := [remote_row], operations := [restored_op]\<rparr>, [])"
proof -
  let ?rq = "\<lparr>rq_name = Restore, rq_sandbox = None, rq_input = [(''revision_id'', JStr ''rev1'')],
      rq_key = ''restore:w:rev1'', rq_claims = []\<rparr>"
  have rq: "restore_request [] remote_row = Inr ?rq"
    by (simp add: restore_request_def remote_row_def new_workspace_def py_or_def)
  have "ws_status remote_row = WsRemoteOnly" by (simp add: remote_row_def)
  moreover have "select_one (\<lambda>r. op_key r = rq_key ?rq)
      (operations (empty_db\<lparr>workspaces := [remote_row], operations := [restored_op]\<rparr>)) = Some restored_op"
    by (simp add: restored_op_def new_operation_def select_one_def)
  moreover have "op_status restored_op = OpSucceeded" by (simp add: restored_op_def)
  moreover have "same_request ?rq remote_row restored_op"
    by (simp add: same_request_def restored_op_def new_operation_def remote_row_def new_workspace_def canon_py_eq)
  ultimately show ?thesis using rq repeated_restore_noop [OF rq] by blast
qed

end
