(* ===== verification/Manager_Invariant.thy ===== *)
theory Manager_Invariant
  imports Manager_Sandboxes Manager_Operations
begin

text \<open>
  The invariant of the store under every interleaving: whatever segments of whatever coroutines of
  the Manager run, in any order, with any answers of Docker, the operation runner and the clock,
  and with crashes anywhere, the database stays consistent.
\<close>

section \<open>Coroutines that keep the store consistent\<close>

definition mgr_ok :: "mgr \<Rightarrow> bool" where
  "mgr_ok s \<longleftrightarrow> state_ok (m_db s)"

inductive safe :: "proc \<Rightarrow> bool" where
  safe_finished: "safe (Finished r)"
| safe_await: "(\<And>e s s' p. mgr_ok s \<Longrightarrow> f e s = Some (s', p) \<Longrightarrow> mgr_ok s' \<and> safe p) \<Longrightarrow> safe (Await f)"

definition ok_step :: "mgr \<times> proc \<Rightarrow> bool" where
  "ok_step x \<longleftrightarrow> mgr_ok (fst x) \<and> safe (snd x)"

definition keeps :: "(db \<Rightarrow> state_error + 'a \<times> db) \<Rightarrow> bool" where
  "keeps f \<longleftrightarrow> (\<forall>d a d'. state_ok d \<longrightarrow> f d = Inr (a, d') \<longrightarrow> state_ok d')"

named_theorems safe_intros \<open>introduction rules for safe coroutines\<close>

lemma keeps_calls [simp]:
  "keeps (\<lambda>d. create_workspace d wid kind vol now)"
  "keeps (\<lambda>d. claim_workspace d wid sid host container created expires)"
  "keeps (\<lambda>d. mark_sandbox_running d sid now)"
  "keeps (\<lambda>d. renew_sandbox d sid expires)"
  "status \<in> {SbFailed, SbTerminated} \<Longrightarrow> wstatus \<noteq> WsRunning \<Longrightarrow> keeps (\<lambda>d. finish_sandbox d sid status wstatus now)"
  "keeps (\<lambda>d. delete_workspace d wid)"
  "keeps (\<lambda>d. schedule_workspace_delete d wid after now)"
  "wstatus \<noteq> WsRunning \<Longrightarrow> keeps (\<lambda>d. transition_workspace d wid expected wstatus now)"
  "keeps (\<lambda>d. commit_revision d wid oid rid generation result now)"
  "keeps (\<lambda>d. create_operation d oid name wid osid key input now)"
  "keeps (\<lambda>d. update_operation d oid ost phase res err now)"
  unfolding keeps_def by (auto dest: call_ok)

lemma ok_simps [simp]:
  "mgr_ok (unlock wid s) = mgr_ok s" "mgr_ok (drop_volume v s) = mgr_ok s" "mgr_ok (schedule_operation j s) = mgr_ok s"
  "mgr_ok (s\<lparr>m_volumes := vs\<rparr>) = mgr_ok s" "mgr_ok (s\<lparr>m_records := rs\<rparr>) = mgr_ok s" "mgr_ok (s\<lparr>m_locks := ls\<rparr>) = mgr_ok s"
  "mgr_ok (s\<lparr>m_jobs := js\<rparr>) = mgr_ok s" "mgr_ok (renew_record r expires s) = mgr_ok s"
  by (simp_all add: mgr_ok_def unlock_def drop_volume_def schedule_operation_def renew_record_def split: option.split)

lemma state_call_inv: "mgr_ok s \<Longrightarrow> keeps f \<Longrightarrow> state_call f s = (r, s') \<Longrightarrow> mgr_ok s'"
  by (auto simp: state_call_def keeps_def mgr_ok_def split: sum.splits)

lemma suppressed_inv [simp]: "mgr_ok s \<Longrightarrow> keeps f \<Longrightarrow> mgr_ok (suppressed f s)"
  by (auto simp: suppressed_def state_call_def keeps_def mgr_ok_def split: sum.splits)

lemma ok_finish [safe_intros]: "mgr_ok s \<Longrightarrow> ok_step (finish r s)"
  by (simp add: ok_step_def finish_def safe_finished)

lemma ok_pair [safe_intros]: "mgr_ok s \<Longrightarrow> safe p \<Longrightarrow> ok_step (s, p)"
  by (simp add: ok_step_def)

lemma safe_await_seg [safe_intros]: "(\<And>e s. mgr_ok s \<Longrightarrow> ok_step (g e s)) \<Longrightarrow> safe (await g)"
  unfolding await_def by (rule safe_await) (metis fst_conv ok_step_def option.inject snd_conv)

lemma safe_lock [safe_intros]:
  assumes "\<And>e s. mgr_ok s \<Longrightarrow> ok_step (g e s)"
  shows "safe (with_lock wid g)"
  unfolding with_lock_def
proof (rule safe_await)
  fix e s s' p
  assume "mgr_ok s" and step: "(if wid \<in> set (m_locks s) then None else Some (g e (s\<lparr>m_locks := wid # m_locks s\<rparr>))) = Some (s', p)"
  then have "g e (s\<lparr>m_locks := wid # m_locks s\<rparr>) = (s', p)" by (simp split: if_splits)
  moreover have "ok_step (g e (s\<lparr>m_locks := wid # m_locks s\<rparr>))" using assms \<open>mgr_ok s\<close> by simp
  ultimately show "mgr_ok s' \<and> safe p" by (simp add: ok_step_def)
qed

lemmas [safe_intros] = safe_finished

text \<open>A call of the store followed by the two branches of its result.\<close>

lemma ok_call [safe_intros]:
  assumes "mgr_ok s" and "keeps f" and "\<And>err s'. mgr_ok s' \<Longrightarrow> ok_step (g err s')" and "\<And>a s'. mgr_ok s' \<Longrightarrow> ok_step (h a s')"
  shows "ok_step (case state_call f s of (Inl err, s') \<Rightarrow> g err s' | (Inr a, s') \<Rightarrow> h a s')"
  using assms by (auto split: prod.split sum.split dest: state_call_inv)

section \<open>Docker calls\<close>

lemma volume_exists_safe [safe_intros]: "(\<And>r e s. mgr_ok s \<Longrightarrow> ok_step (k r e s)) \<Longrightarrow> safe (volume_exists v k)"
  unfolding volume_exists_def
  by (auto intro!: safe_intros split: outcome.split option.split sum.split)

lemma ensure_volume_safe [safe_intros]: "(\<And>r e s. mgr_ok s \<Longrightarrow> ok_step (k r e s)) \<Longrightarrow> safe (ensure_workspace_volume ws k)"
  unfolding ensure_workspace_volume_def
  by (auto intro!: safe_intros split: outcome.split option.split sum.split)

lemma remove_volume_safe [safe_intros]: "(\<And>e s. mgr_ok s \<Longrightarrow> ok_step (k e s)) \<Longrightarrow> safe (remove_volume v k)"
  unfolding remove_volume_def
  by (auto intro!: safe_intros split: outcome.split option.split sum.split)

lemma remove_checked_safe [safe_intros]: "(\<And>r e s. mgr_ok s \<Longrightarrow> ok_step (k r e s)) \<Longrightarrow> safe (remove_volume_checked v k)"
  unfolding remove_volume_checked_def
  by (auto intro!: safe_intros split: outcome.split option.split sum.split)

lemma remove_container_safe [safe_intros]: "(\<And>r e s. mgr_ok s \<Longrightarrow> ok_step (k r e s)) \<Longrightarrow> safe (remove_container sid k)"
  unfolding remove_container_def
  by (auto intro!: safe_intros split: outcome.split option.split sum.split)

section \<open>Checkpoints and restores\<close>

lemma checkpoint_failed_ok [safe_intros]: "mgr_ok s \<Longrightarrow> ok_step (checkpoint_failed wid oid x e s)"
  unfolding checkpoint_failed_def
  by (auto intro!: safe_intros split: outcome.split option.split sum.split)

lemma checkpoint_finished_ok [safe_intros]: "mgr_ok s \<Longrightarrow> ok_step (checkpoint_finished wid oid g e s)"
  unfolding checkpoint_finished_def
  by (auto intro!: safe_intros split: outcome.split option.split sum.split list.split)

lemma checkpoint_begin_ok [safe_intros]: "mgr_ok s \<Longrightarrow> ok_step (checkpoint_begin wid e s)"
  unfolding checkpoint_begin_def
  by (auto intro!: safe_intros split: outcome.split option.split sum.split)

lemma checkpoint_safe [safe_intros]: "safe (checkpoint_workspace cfg wid)"
  unfolding checkpoint_workspace_def
  by (auto intro!: safe_intros split: outcome.split option.split sum.split)

lemma restore_rollback_ok [safe_intros]: "(\<And>r e s. mgr_ok s \<Longrightarrow> ok_step (k r e s)) \<Longrightarrow> mgr_ok s \<Longrightarrow> ok_step (restore_rollback ws oid x k e s)"
  unfolding restore_rollback_def Let_def
  by (auto intro!: safe_intros split: outcome.split option.split sum.split)

lemma restore_failed_ok [safe_intros]: "(\<And>r e s. mgr_ok s \<Longrightarrow> ok_step (k r e s)) \<Longrightarrow> mgr_ok s \<Longrightarrow> ok_step (restore_failed ws oid x k e s)"
  unfolding restore_failed_def
  by (auto intro!: safe_intros split: outcome.split option.split sum.split)

lemma restore_finished_ok [safe_intros]: "(\<And>r e s. mgr_ok s \<Longrightarrow> ok_step (k r e s)) \<Longrightarrow> mgr_ok s \<Longrightarrow> ok_step (restore_finished ws oid k e s)"
  unfolding restore_finished_def
  by (auto intro!: safe_intros split: outcome.split option.split sum.split)

lemma restore_begin_ok [safe_intros]: "(\<And>r e s. mgr_ok s \<Longrightarrow> ok_step (k r e s)) \<Longrightarrow> mgr_ok s \<Longrightarrow> ok_step (restore_begin ws rid k e s)"
  unfolding restore_begin_def
  by (auto intro!: safe_intros split: outcome.split option.split sum.split)

lemma prepare_fresh_ok [safe_intros]: "(\<And>r e s. mgr_ok s \<Longrightarrow> ok_step (k r e s)) \<Longrightarrow> mgr_ok s \<Longrightarrow> ok_step (prepare_fresh ws rid k e s)"
  unfolding prepare_fresh_def
  by (auto intro!: safe_intros split: outcome.split option.split sum.split)

lemma prepare_restore_ok [safe_intros]: "(\<And>r e s. mgr_ok s \<Longrightarrow> ok_step (k r e s)) \<Longrightarrow> mgr_ok s \<Longrightarrow> ok_step (prepare_restore cfg ws k e s)"
  unfolding prepare_restore_def
  by (auto intro!: safe_intros split: outcome.split option.split sum.split bool.split)

lemma prepare_checked_ok [safe_intros]:
  "(\<And>r e s. mgr_ok s \<Longrightarrow> ok_step (k r e s)) \<Longrightarrow> mgr_ok s \<Longrightarrow> ok_step (prepare_checked cfg ws k r e s)"
  unfolding prepare_checked_def
  by (auto intro!: safe_intros split: outcome.split option.split sum.split state_error.split)

lemma prepare_workspace_safe [safe_intros]: "(\<And>r e s. mgr_ok s \<Longrightarrow> ok_step (k r e s)) \<Longrightarrow> safe (prepare_workspace cfg wid k)"
  unfolding prepare_workspace_def
  by (auto intro!: safe_intros split: outcome.split option.split sum.split)

lemma restore_requested_safe [safe_intros]: "safe (restore_requested cfg operation)"
  unfolding restore_requested_def Let_def
  by (auto intro!: safe_intros split: outcome.split option.split sum.split)

section \<open>Checkouts and publishes\<close>

lemma checkout_begin_ok [safe_intros]: "mgr_ok s \<Longrightarrow> ok_step (checkout_begin operation claims ws e s)"
  unfolding checkout_begin_def Let_def
  by (auto intro!: safe_intros split: outcome.split option.split sum.split)

lemma publish_failed_ok [safe_intros]: "mgr_ok s \<Longrightarrow> ok_step (publish_failed operation claims c x e s)"
  unfolding publish_failed_def
  by (auto intro!: safe_intros split: outcome.split option.split sum.split)

lemma publish_uploaded_ok [safe_intros]: "mgr_ok s \<Longrightarrow> ok_step (publish_uploaded operation claims c e s)"
  unfolding publish_uploaded_def
  by (auto intro!: safe_intros split: outcome.split option.split sum.split)

lemma publish_upload_ok [safe_intros]: "mgr_ok s \<Longrightarrow> ok_step (publish_upload operation claims c e s)"
  unfolding publish_upload_def
  by (auto intro!: safe_intros split: outcome.split option.split sum.split)

lemma publish_captured_ok [safe_intros]: "mgr_ok s \<Longrightarrow> ok_step (publish_captured operation claims ws e s)"
  unfolding publish_captured_def
  by (auto intro!: safe_intros split: outcome.split option.split sum.split)

lemma publish_begin_ok [safe_intros]: "mgr_ok s \<Longrightarrow> ok_step (publish_begin operation claims ws e s)"
  unfolding publish_begin_def
  by (auto intro!: safe_intros split: outcome.split option.split sum.split)

lemma file_operation_safe [safe_intros]: "safe (execute_file_operation cfg operation claims)"
  unfolding execute_file_operation_def
  by (auto intro!: safe_intros split: outcome.split option.split sum.split)

section \<open>Sandboxes\<close>

lemma released_status_simp [simp]: "released_status b \<noteq> WsRunning"
  by (simp add: released_status_def)

lemma finish_failed_ok [safe_intros]: "(\<And>e s. mgr_ok s \<Longrightarrow> ok_step (k e s)) \<Longrightarrow> mgr_ok s \<Longrightarrow> ok_step (finish_failed sid ws k e s)"
  unfolding finish_failed_def Let_def
  by (auto intro!: safe_intros split: outcome.split option.split sum.split)

lemma terminate_finish_ok [safe_intros]: "(\<And>r e s. mgr_ok s \<Longrightarrow> ok_step (k r e s)) \<Longrightarrow> mgr_ok s \<Longrightarrow> ok_step (terminate_finish cfg r0 k e s)"
  unfolding terminate_finish_def Let_def
  by (auto intro!: safe_intros split: outcome.split option.split sum.split)

lemma terminate_removed_ok [safe_intros]: "(\<And>r e s. mgr_ok s \<Longrightarrow> ok_step (k r e s)) \<Longrightarrow> mgr_ok s \<Longrightarrow> ok_step (terminate_removed cfg r0 k e s)"
  unfolding terminate_removed_def Let_def
  by (auto intro!: safe_intros split: outcome.split option.split sum.split)

lemma terminate_safe [safe_intros]: "(\<And>r e s. mgr_ok s \<Longrightarrow> ok_step (k r e s)) \<Longrightarrow> safe (terminate cfg sid k)"
  unfolding terminate_def
  by (auto intro!: safe_intros split: outcome.split option.split sum.split)

lemma reply_with_ok [safe_intros]: "mgr_ok s \<Longrightarrow> ok_step (reply_with f r e s)"
  by (simp add: reply_with_def ok_finish)

lemma terminate_request_safe [safe_intros]: "safe (terminate_request cfg sid)"
  unfolding terminate_request_def
  by (auto intro!: safe_intros split: outcome.split option.split sum.split)

lemma creation_failed_ok [safe_intros]: "mgr_ok s \<Longrightarrow> ok_step (creation_failed r0 ws b x e s)"
  unfolding creation_failed_def
  by (auto intro!: safe_intros split: outcome.split option.split sum.split)

lemma creation_started_ok [safe_intros]: "mgr_ok s \<Longrightarrow> ok_step (creation_started r0 ws e s)"
  unfolding creation_started_def
  by (auto intro!: safe_intros split: outcome.split option.split sum.split)

lemma create_container_ok [safe_intros]: "mgr_ok s \<Longrightarrow> ok_step (create_container r0 ws e s)"
  unfolding create_container_def
  by (auto intro!: safe_intros split: outcome.split option.split sum.split)

lemma create_claim_ok [safe_intros]: "mgr_ok s \<Longrightarrow> ok_step (create_claim cfg ws requested e s)"
  unfolding create_claim_def Let_def
  by (auto intro!: safe_intros split: outcome.split option.split sum.split state_error.split)

lemma create_abort_ok [safe_intros]: "mgr_ok s \<Longrightarrow> ok_step (create_abort ws x e s)"
  unfolding create_abort_def
  by (auto intro!: safe_intros split: outcome.split option.split sum.split)

lemma create_prepared_ok [safe_intros]: "mgr_ok s \<Longrightarrow> ok_step (create_prepared cfg ws requested r e s)"
  unfolding create_prepared_def
  by (auto intro!: safe_intros split: outcome.split option.split sum.split)

section \<open>Requests\<close>

lemma consume_pair: "state_ok d \<Longrightarrow> consume_nonce d n e t = (d', b) \<Longrightarrow> state_ok d'"
  by (metis consume_nonce_ok fst_conv)

lemma authorize_ok:
  "authorize E cfg d token operation wid t t' = (r, d') \<Longrightarrow> state_ok d \<Longrightarrow> state_ok d'"
  unfolding authorize_def
  by (auto split: sum.splits option.splits if_splits prod.splits dest: consume_pair)

lemma mgr_ok_db [simp]: "mgr_ok (s\<lparr>m_db := d\<rparr>) = state_ok d" "mgr_ok (s\<lparr>m_db := d, m_jobs := js\<rparr>) = state_ok d"
  by (simp_all add: mgr_ok_def)

lemma ok_authorize [safe_intros]:
  assumes "mgr_ok s" and "\<And>x d. state_ok d \<Longrightarrow> ok_step (g x d)" and "\<And>c d. state_ok d \<Longrightarrow> ok_step (h c d)"
  shows "ok_step (case authorize E cfg (m_db s) token operation wid t t' of (Inl x, d) \<Rightarrow> g x d | (Inr c, d) \<Rightarrow> h c d)"
  using assms by (auto simp: mgr_ok_def split: prod.split sum.split dest: authorize_ok)

lemma start_operation_ok:
  assumes "state_ok d" and "start_operation d ws rq uuid now = (r, d', jobs)"
  shows "state_ok d'"
proof (cases "create_operation d (''operation_'' @ uuid) (rq_name rq) (ws_id ws) (rq_sandbox rq) (rq_key rq) (rq_input rq) now")
  case (Inl e)
  then show ?thesis using assms by (cases e) (auto simp: start_operation_def)
next
  case (Inr a)
  then obtain row created d1 where a: "a = ((row, created), d1)" by (metis prod.collapse)
  then have "state_ok d1" using assms(1) Inr create_operation_ok by blast
  then show ?thesis
    using assms(2) Inr a
    by (auto simp: start_operation_def split: if_splits sum.splits dest: update_operation_ok)
qed

lemma create_operation_request_ok:
  "create_operation_request E cfg d grant uuid t now = (r, d', jobs) \<Longrightarrow> state_ok d \<Longrightarrow> state_ok d'"
  unfolding create_operation_request_def
  by (auto split: prod.splits sum.splits dest: authorize_ok start_operation_ok)

lemma create_sandbox_safe [safe_intros]: "safe (create_sandbox E cfg grant)"
  unfolding create_sandbox_def Let_def
  by (auto intro!: safe_intros split: outcome.split option.split sum.split)

lemma inspect_sandbox_safe [safe_intros]: "safe (inspect_sandbox sid)"
  unfolding inspect_sandbox_def
  by (auto intro!: safe_intros split: outcome.split option.split sum.split)

lemma renew_safe [safe_intros]: "safe (renew cfg sid)"
  unfolding renew_def Let_def
  by (auto intro!: safe_intros split: outcome.split option.split sum.split state_error.split)

lemma create_workspace_safe [safe_intros]: "safe (create_workspace_request E cfg wid grant)"
  unfolding create_workspace_request_def Let_def
  by (auto intro!: safe_intros split: outcome.split option.split sum.split state_error.split)

lemma inspect_workspace_safe [safe_intros]: "safe (inspect_workspace E cfg wid grant)"
  unfolding inspect_workspace_def
  by (auto intro!: safe_intros split: outcome.split option.split sum.split)

lemma schedule_delete_ok [safe_intros]: "mgr_ok s \<Longrightarrow> ok_step (schedule_delete cfg wid e s)"
  unfolding schedule_delete_def
  by (auto intro!: safe_intros split: outcome.split option.split sum.split state_error.split)

lemma release_workspace_safe [safe_intros]: "safe (release_workspace E cfg wid grant)"
  unfolding release_workspace_def
  by (auto intro!: safe_intros split: outcome.split option.split sum.split)

lemma operation_create_safe [safe_intros]: "safe (operation_create_request E cfg grant)"
  unfolding operation_create_request_def
  by (rule safe_await_seg)
    (auto simp: mgr_ok_def split: prod.split intro!: ok_finish intro: create_operation_request_ok)

lemma inspect_operation_safe [safe_intros]: "safe (inspect_operation oid)"
  unfolding inspect_operation_def
  by (auto intro!: safe_intros split: outcome.split option.split sum.split state_error.split)

section \<open>Retirement, cleanup, reaper\<close>

lemma retire_failed_ok [safe_intros]: "mgr_ok s \<Longrightarrow> ok_step (retire_failed wid oid x e s)"
  unfolding retire_failed_def
  by (auto intro!: safe_intros split: outcome.split option.split sum.split)

lemma retire_delete_ok [safe_intros]: "mgr_ok s \<Longrightarrow> ok_step (retire_delete ws oid result e s)"
  unfolding retire_delete_def
  by (auto intro!: safe_intros split: outcome.split option.split sum.split)

lemma retire_run_ok [safe_intros]: "mgr_ok s \<Longrightarrow> ok_step (retire_run ws oid e s)"
  unfolding retire_run_def
  by (auto intro!: safe_intros split: outcome.split option.split sum.split)

lemma retire_begin_ok [safe_intros]: "mgr_ok s \<Longrightarrow> ok_step (retire_begin wid e s)"
  unfolding retire_begin_def
  by (auto intro!: safe_intros split: outcome.split option.split sum.split)

lemma retire_safe [safe_intros]: "safe (retire_workspace cfg wid)"
  unfolding retire_workspace_def
  by (auto intro!: safe_intros split: outcome.split option.split sum.split)

lemma cleanup_local_safe [safe_intros]: "(\<And>r e s. mgr_ok s \<Longrightarrow> ok_step (k r e s)) \<Longrightarrow> safe (cleanup_local_workspace cfg wid k)"
  unfolding cleanup_local_workspace_def
  by (auto intro!: safe_intros split: outcome.split option.split sum.split)

lemma reap_all_ok [safe_intros]:
  "(\<And>e s. mgr_ok s \<Longrightarrow> ok_step (k e s)) \<Longrightarrow> mgr_ok s \<Longrightarrow> ok_step (reap_all cfg sids k e s)"
  by (induction sids arbitrary: e s) (auto intro!: safe_intros)

lemma cleanup_all_ok [safe_intros]:
  "(\<And>e s. mgr_ok s \<Longrightarrow> ok_step (k e s)) \<Longrightarrow> mgr_ok s \<Longrightarrow> ok_step (cleanup_all cfg wids k e s)"
  by (induction wids arbitrary: e s) (auto intro!: safe_intros)

lemma reaper_storage_ok [safe_intros]: "mgr_ok s \<Longrightarrow> ok_step (reaper_storage cfg now e s)"
  unfolding reaper_storage_def Let_def
  by (auto intro!: safe_intros split: outcome.split option.split sum.split)

lemma reaper_tick_safe [safe_intros]: "safe (reaper_tick cfg)"
  unfolding reaper_tick_def
  by (auto intro!: safe_intros split: outcome.split option.split sum.split)

section \<open>Startup\<close>

lemma finish_reconciled_ok [safe_intros]: "(\<And>e s. mgr_ok s \<Longrightarrow> ok_step (k e s)) \<Longrightarrow> mgr_ok s \<Longrightarrow> ok_step (finish_reconciled sb k e s)"
  unfolding finish_reconciled_def
  by (auto intro!: safe_intros split: outcome.split option.split sum.split)

lemma finish_unseen_ok [safe_intros]:
  "(\<And>e s. mgr_ok s \<Longrightarrow> ok_step (k e s)) \<Longrightarrow> mgr_ok s \<Longrightarrow> ok_step (finish_unseen sbs seen k e s)"
  by (induction sbs arbitrary: e s) (auto intro!: safe_intros)

lemma adopt_ok [safe_intros]:
  assumes "\<And>r e s. mgr_ok s \<Longrightarrow> ok_step (k r e s)" and "mgr_ok s"
  shows "ok_step (adopt sb k e s)"
  unfolding adopt_def using assms(2)
  by (auto intro!: assms(1) split: prod.split sum.split if_splits dest: state_call_inv [rotated 2])

lemma discard_ok [safe_intros]: "(\<And>r e s. mgr_ok s \<Longrightarrow> ok_step (k r e s)) \<Longrightarrow> mgr_ok s \<Longrightarrow> ok_step (discard cfg c row k e s)"
  unfolding discard_def Let_def
  by (auto intro!: safe_intros split: outcome.split option.split sum.split)

lemma reconcile_one_ok [safe_intros]:
  "(\<And>r e s. mgr_ok s \<Longrightarrow> ok_step (k r e s)) \<Longrightarrow> mgr_ok s \<Longrightarrow> ok_step (reconcile_one cfg active now c seen k e s)"
  unfolding reconcile_one_def Let_def
  by (auto intro!: safe_intros split: outcome.split option.split)

lemma reconcile_ok [safe_intros]:
  "(\<And>r e s. mgr_ok s \<Longrightarrow> ok_step (k r e s)) \<Longrightarrow> mgr_ok s \<Longrightarrow> ok_step (reconcile cfg active now cs seen k e s)"
  by (induction cs arbitrary: seen e s) (auto intro!: safe_intros split: sum.split)

lemma cleanup_orphans_ok [safe_intros]:
  "(\<And>e s. mgr_ok s \<Longrightarrow> ok_step (k e s)) \<Longrightarrow> mgr_ok s \<Longrightarrow> ok_step (cleanup_orphans wss k e s)"
  by (induction wss arbitrary: e s) (auto intro!: safe_intros)

lemma keeps_recover_operations [simp]: "keeps (recover_operations rs now)"
proof -
  have "state_ok d \<Longrightarrow> recover_operations rs now d = Inr (u, d') \<Longrightarrow> state_ok d'" for u d d'
    by (induction rs arbitrary: d) (auto simp: Let_def split: sum.splits dest: update_operation_ok)
  then show ?thesis by (auto simp: keeps_def)
qed

lemma recover_checkpoints_ok [simp]: "mgr_ok s \<Longrightarrow> mgr_ok (recover_checkpoints wss now s)"
  by (induction wss arbitrary: s) simp_all

lemma recover_restores_ok [safe_intros]: "mgr_ok s \<Longrightarrow> ok_step (recover_restores wss e s)"
  by (induction wss arbitrary: e s) (auto intro!: safe_intros)

lemma recover_incomplete_ok [safe_intros]: "mgr_ok s \<Longrightarrow> ok_step (recover_incomplete e s)"
  unfolding recover_incomplete_def Let_def
  by (auto intro!: safe_intros split: outcome.split option.split sum.split)

lemma startup_safe [safe_intros]: "safe (startup cfg containers)"
  unfolding startup_def Let_def
  by (auto intro!: safe_intros split: outcome.split option.split sum.split)

section \<open>Every interleaving\<close>

definition pool_ok :: "mgr \<times> proc list \<Rightarrow> bool" where
  "pool_ok c \<longleftrightarrow> mgr_ok (fst c) \<and> (\<forall>p\<in>set (snd c). safe p)"

lemma request_safe: "safe (request_proc E cfg rq)"
  by (cases rq) (auto intro!: safe_intros)

lemma job_safe: "safe (job_proc cfg j)"
  by (cases j) (auto intro!: safe_intros)

inductive_cases safe_awaitE: "safe (Await f)"

lemma pool_step_ok: "pool_step E cfg c c' \<Longrightarrow> pool_ok c \<Longrightarrow> pool_ok c'"
proof (induction rule: pool_step.induct)
  case (run i ps f e s s' p)
  have "safe (Await f)" using run(1,2,4) by (metis nth_mem pool_ok_def snd_conv)
  then have "mgr_ok s' \<and> safe p" using run(3,4) by (auto elim!: safe_awaitE simp: pool_ok_def)
  then show ?case using run(4) set_update_subset_insert [of ps i p] by (auto simp: pool_ok_def)
qed (auto simp: pool_ok_def mgr_ok_def request_safe job_safe intro: safe_intros)

text \<open>
  C9. From a consistent database, whatever requests, tasks, reaper runs, outcomes of Docker and
  crashes follow, and however the segments of the coroutines interleave, the database is
  consistent after every segment; in particular no Workspace ever has two live Sandboxes and the
  writer column always names a live Sandbox of the Workspace.
\<close>

theorem manager_state_ok:
  assumes "state_ok (m_db s)" and "(pool_step E cfg)\<^sup>*\<^sup>* (s, []) (s', ps)"
  shows "state_ok (m_db s')"
proof -
  have "pool_ok (s', ps)"
    using assms(2)
  proof (induction rule: rtranclp_induct)
    case base
    then show ?case using assms(1) by (simp add: pool_ok_def mgr_ok_def)
  next
    case (step c c')
    then show ?case using pool_step_ok by blast
  qed
  then show ?thesis by (simp add: pool_ok_def mgr_ok_def)
qed

definition empty_mgr :: mgr where
  "empty_mgr = \<lparr>m_db = empty_db, m_volumes = [], m_records = [], m_locks = [], m_jobs = []\<rparr>"

text \<open>A request to create an ephemeral Sandbox that gets as far as its claim.\<close>

lemma manager_state_ok_witness:
  "\<exists>s' ps. (pool_step sample_env sample_cfg)\<^sup>*\<^sup>* (empty_mgr, []) (s', ps) \<and> state_ok (m_db s') \<and> workspaces (m_db s') \<noteq> []"
proof -
  let ?p = "create_sandbox sample_env sample_cfg None"
  let ?e = "\<lparr>e_now = 5, e_later = 5, e_uuid = ''77'', e_out = Okay []\<rparr>"
  let ?w = "new_workspace ''workspace_77'' Ephemeral (workspace_volume sample_cfg ''workspace_77'') 5"
  have created: "create_workspace empty_db ''workspace_77'' Ephemeral (workspace_volume sample_cfg ''workspace_77'') 5 =
      Inr (?w, empty_db\<lparr>workspaces := [?w]\<rparr>)"
    by (simp add: create_workspace_Inr find_ws_def empty_db_def select_one_def new_workspace_def)
  obtain f where f: "?p = Await f" and run: "f ?e empty_mgr =
      Some (empty_mgr\<lparr>m_db := empty_db\<lparr>workspaces := [?w]\<rparr>\<rparr>,
        prepare_workspace sample_cfg ''workspace_77'' (create_prepared sample_cfg ?w None))"
    using created by (simp add: create_sandbox_def await_def state_call_def empty_mgr_def Let_def)
  let ?s = "empty_mgr\<lparr>m_db := empty_db\<lparr>workspaces := [?w]\<rparr>\<rparr>"
  let ?q = "prepare_workspace sample_cfg ''workspace_77'' (create_prepared sample_cfg ?w None)"
  have "pool_step sample_env sample_cfg (empty_mgr, []) (empty_mgr, [] @ [request_proc sample_env sample_cfg (CreateSandboxRequest None)])"
    by (rule pool_step.accept)
  then have "pool_step sample_env sample_cfg (empty_mgr, []) (empty_mgr, [?p])" by simp
  moreover have "pool_step sample_env sample_cfg (empty_mgr, [?p]) (?s, [?p][0 := ?q])"
    by (rule pool_step.run [where f = f and e = ?e]) (simp_all add: f run)
  ultimately have steps: "(pool_step sample_env sample_cfg)\<^sup>*\<^sup>* (empty_mgr, []) (?s, [?q])" by simp
  have "state_ok (m_db empty_mgr)" by (simp add: empty_mgr_def state_ok_empty)
  have "state_ok (m_db ?s)" by (rule manager_state_ok [OF \<open>state_ok (m_db empty_mgr)\<close> steps])
  moreover have "workspaces (m_db ?s) \<noteq> []" by (simp add: empty_mgr_def)
  ultimately show ?thesis using steps by blast
qed

end
