(* ===== verification/Manager_Flows.thy ===== *)
theory Manager_Flows
  imports Manager_Invariant
begin

text \<open>
  What single coroutines of the Manager achieve when they run alone: a checkpoint either moves the
  head or leaves the Workspace dirty, startup clears what a crash left open; and two places where
  the order of segments or of attempts defeats a check.
\<close>

section \<open>Running a coroutine alone\<close>

fun run_alone :: "proc \<Rightarrow> env list \<Rightarrow> mgr \<Rightarrow> (mgr \<times> reply) option" where
  "run_alone (Finished r) es s = Some (s, r)"
| "run_alone (Await f) [] s = None"
| "run_alone (Await f) (e # es) s = (case f e s of None \<Rightarrow> None | Some (s', p) \<Rightarrow> run_alone p es s')"

lemma run_await [simp]: "run_alone (await g) (e # es) s = (case g e s of (s', p) \<Rightarrow> run_alone p es s')"
  by (simp add: await_def)

lemma run_lock [simp]:
  "run_alone (with_lock wid g) (e # es) s =
     (if wid \<in> set (m_locks s) then None
      else (case g e (s\<lparr>m_locks := wid # m_locks s\<rparr>) of (s', p) \<Rightarrow> run_alone p es s'))"
  by (simp add: with_lock_def)

lemma run_finish [simp]: "run_alone (snd (finish r s)) es s' = Some (s', r)" "fst (finish r s) = s"
  by (simp_all add: finish_def)

lemma run_finish_pair [simp]: "(case finish r s of (s', p) \<Rightarrow> run_alone p es s') = Some (s, r)"
  by (simp add: finish_def)

lemma unlock_lock [simp]: "wid \<notin> set (m_locks s) \<Longrightarrow> unlock wid (s\<lparr>m_locks := wid # m_locks s\<rparr>) = s"
  by (simp add: unlock_def)

section \<open>Checkpoints\<close>

text \<open>The columns of a Workspace that a checkpoint attempt may leave: still dirty, or the new head.\<close>

definition attempt_ok :: "mgr \<Rightarrow> string \<Rightarrow> outcome \<Rightarrow> mgr \<Rightarrow> bool" where
  "attempt_ok s wid out s' \<longleftrightarrow>
     m_volumes s' = m_volumes s \<and> m_locks s' = m_locks s
     \<and> (\<exists>w w'. find_ws wid (m_db s) = Some w \<and> find_ws wid (m_db s') = Some w'
          \<and> ws_active w' = None \<and> ws_generation w' = ws_generation w
          \<and> (ws_status w' = WsDetachedDirty \<and> ws_head w' = ws_head w
             \<or> ws_status w' = WsDetachedClean
                \<and> (\<exists>result rid. out = Okay result \<and> jget result ''revision_id'' = JStr rid \<and> ws_head w' = Some rid)))"

lemma find_ws_ops [simp]: "find_ws wid (d\<lparr>operations := P\<rparr>) = find_ws wid d"
  by (simp add: find_ws_def)

lemma update_operation_ws: "update_operation d oid st ph res err now = Inr (r, d') \<Longrightarrow> find_ws wid d' = find_ws wid d"
  by (auto simp: update_operation_def require_Inr_iff Let_def split: option.splits)

lemma create_operation_ws: "create_operation d oid name w sid key input now = Inr (r, d') \<Longrightarrow> find_ws wid d' = find_ws wid d"
  by (cases r) (auto simp: create_operation_Inr split: option.splits)

definition moved_db :: "db \<Rightarrow> string \<Rightarrow> ws_status \<Rightarrow> int \<Rightarrow> db" where
  "moved_db d wid status now = d\<lparr>workspaces := update_rows (\<lambda>w. ws_id w = wid) (moved_row status now) (workspaces d)\<rparr>"

lemma find_moved: "find_ws wid d = Some w \<Longrightarrow> find_ws wid (moved_db d wid status now) = Some (moved_row status now w)"
  using find_ids(1) [of wid d w] by (simp add: find_ws_def moved_db_def select_one_update_rows moved_row_def)

lemma moved_row_simps [simp]:
  "ws_status (moved_row status now w) = status" "ws_active (moved_row status now w) = ws_active w"
  "ws_head (moved_row status now w) = ws_head w" "ws_generation (moved_row status now w) = ws_generation w"
  "ws_id (moved_row status now w) = ws_id w" "ws_volume (moved_row status now w) = ws_volume w"
  by (simp_all add: moved_row_def)

lemma transition_eq:
  assumes "find_ws wid d = Some w" and "ws_status w \<in> set expected" and "ws_active w = None"
  shows "transition_workspace d wid expected status now = Inr (moved_row status now w, moved_db d wid status now)"
  using assms find_moved [OF assms(1), of status now]
  by (simp add: transition_workspace_def moved_db_def moved_row_def [abs_def] Let_def)

lemma checkpoint_failed_attempt:
  assumes "find_ws wid (m_db s) = Some w" and "ws_status w = WsCheckpointing" and "ws_active w = None"
  shows "\<exists>s' w'. checkpoint_failed wid oid x e s = finish UnitReply s' \<and> m_volumes s' = m_volumes s
    \<and> m_locks s' = removeAll wid (m_locks s) \<and> find_ws wid (m_db s') = Some w'
    \<and> ws_status w' = WsDetachedDirty \<and> ws_active w' = None \<and> ws_head w' = ws_head w \<and> ws_generation w' = ws_generation w"
proof -
  let ?s1 = "suppressed (\<lambda>d. update_operation d oid OpFailed None None (Some (operation_error x)) (e_now e)) s"
  have f1: "find_ws wid (m_db ?s1) = Some w"
  proof (cases "update_operation (m_db s) oid OpFailed None None (Some (operation_error x)) (e_now e)")
    case (Inr a)
    then obtain r d' where "update_operation (m_db s) oid OpFailed None None (Some (operation_error x)) (e_now e) = Inr (r, d')"
      by (cases a) auto
    then show ?thesis using update_operation_ws assms(1) by (simp add: suppressed_def state_call_def)
  qed (use assms(1) in \<open>simp add: suppressed_def state_call_def\<close>)
  have "m_volumes ?s1 = m_volumes s" "m_locks ?s1 = m_locks s"
    by (auto simp: suppressed_def state_call_def split: sum.split)
  moreover have "suppressed (\<lambda>d. transition_workspace d wid [WsCheckpointing] WsDetachedDirty (e_now e)) ?s1 =
      ?s1\<lparr>m_db := moved_db (m_db ?s1) wid WsDetachedDirty (e_now e)\<rparr>"
    using transition_eq [OF f1, of "[WsCheckpointing]" WsDetachedDirty "e_now e"] assms(2,3)
    by (simp add: suppressed_def state_call_def)
  ultimately show ?thesis
    using find_moved [OF f1, of WsDetachedDirty "e_now e"] assms(3)
    by (simp add: checkpoint_failed_def unlock_def finish_def)
qed

lemma commit_ws:
  assumes "state_ok d" and "commit_revision d wid oid rid generation result now = Inr (x, d')"
  shows "\<exists>w. find_ws wid d = Some w \<and> find_ws wid d' = Some (head_row rid now w)"
proof -
  obtain w where w: "find_ws wid d = Some w" and d': "d' = commit_state d wid oid rid result now"
    using assms by (auto simp: commit_revision_Inr find_ws_Some)
  then show ?thesis using find_ids(1) [OF w]
    by (simp add: find_ws_def commit_state_def select_one_update_rows head_row_def)
qed

lemma checkpoint_finished_attempt:
  assumes "state_ok (m_db s)" and "find_ws wid (m_db s) = Some w" and "ws_status w = WsCheckpointing" and "ws_active w = None"
  shows "\<exists>s' w'. checkpoint_finished wid oid g e s = finish UnitReply s' \<and> m_volumes s' = m_volumes s
    \<and> m_locks s' = removeAll wid (m_locks s) \<and> find_ws wid (m_db s') = Some w' \<and> ws_active w' = None
    \<and> ws_generation w' = ws_generation w
    \<and> (ws_status w' = WsDetachedDirty \<and> ws_head w' = ws_head w
       \<or> ws_status w' = WsDetachedClean \<and> (\<exists>result rid. e_out e = Okay result
            \<and> jget result ''revision_id'' = JStr rid \<and> ws_head w' = Some rid))"
    (is "?goal (checkpoint_finished wid oid g e s)")
proof -
  have failed: "?goal (checkpoint_failed wid oid x e s)" for x
    using checkpoint_failed_attempt [OF assms(2-4), of oid x e] by blast
  show ?thesis
  proof (cases "e_out e")
    case (Raised x)
    then show ?thesis using failed by (simp add: checkpoint_finished_def)
  next
    case (Okay result)
    show ?thesis
    proof (cases "\<exists>c cs. jget result ''revision_id'' = JStr (c # cs)")
      case False
      then have "checkpoint_finished wid oid g e s =
          checkpoint_failed wid oid (PyExn ''OperationExecutionError'' ''checkpoint returned no revision_id'') e s"
        using Okay by (auto simp: checkpoint_finished_def split: option.split list.split)
      then show ?thesis using failed by simp
    next
      case True
      then obtain c cs where rid: "jget result ''revision_id'' = JStr (c # cs)" by blast
      show ?thesis
      proof (cases "commit_revision (m_db s) wid oid (c # cs) g result (e_now e)")
        case (Inl err)
        then show ?thesis using failed Okay rid by (simp add: checkpoint_finished_def state_call_def)
      next
        case (Inr a)
        obtain x d' where a: "a = (x, d')" by fastforce
        have "find_ws wid d' = Some (head_row (c # cs) (e_now e) w)"
          using commit_ws [OF assms(1) Inr [unfolded a]] assms(2) by simp
        moreover have "checkpoint_finished wid oid g e s = finish UnitReply (unlock wid (s\<lparr>m_db := d'\<rparr>))"
          using Inr a Okay rid by (simp add: checkpoint_finished_def state_call_def)
        ultimately show ?thesis
          using Okay rid assms(4)
          by (intro exI [of _ "unlock wid (s\<lparr>m_db := d'\<rparr>)"] exI [of _ "head_row (c # cs) (e_now e) w"])
            (simp add: unlock_def head_row_def)
      qed
    qed
  qed
qed

text \<open>
  C10. A checkpoint attempt ends and cannot lose the Workspace: when the task of a dirty, detached
  Workspace runs, whatever the operation runner answers and at whichever step something fails,
  it finishes after at most two segments, the Workspace lock is free again, no volume was touched,
  and the Workspace is either still dirty with its old head or clean at exactly the revision that
  the runner returned.
\<close>

theorem checkpoint_all_or_nothing:
  assumes "state_ok (m_db s)" and "has_runner cfg" and "wid \<notin> set (m_locks s)"
    and "find_ws wid (m_db s) = Some w" and "ws_status w = WsDetachedDirty"
  shows "\<exists>s' r. run_alone (checkpoint_workspace cfg wid) [e1, e2] s = Some (s', r) \<and> attempt_ok s wid (e_out e2) s'"
proof -
  let ?l = "s\<lparr>m_locks := wid # m_locks s\<rparr>"
  have active: "ws_active w = None"
    using assms(1,4,5) by (auto simp: state_ok_def writers_ok_def status_ok_def find_ws_Some [OF assms(1)])
  have same: "attempt_ok s wid out (s\<lparr>m_db := d\<rparr>)" if "find_ws wid d = Some w" for d out
    using that assms(4,5) active by (simp add: attempt_ok_def)
  have start: "run_alone (checkpoint_workspace cfg wid) [e1, e2] s =
      (case checkpoint_begin wid e1 ?l of (s', p) \<Rightarrow> run_alone p [e2] s')"
    using assms(2,3) by (simp add: checkpoint_workspace_def)
  have unlocked: "unlock wid (?l\<lparr>m_db := d\<rparr>) = s\<lparr>m_db := d\<rparr>" for d
    using assms(3) by (simp add: unlock_def)
  let ?create = "create_operation (m_db s) (''operation_'' @ e_uuid e1) Checkpoint wid None
      (''checkpoint:'' @ wid @ '':'' @ show_int (ws_generation w)) [(''generation'', JInt (ws_generation w))] (e_now e1)"
  have gw: "mgr_get_workspace (m_db s) wid = Inr w" using assms(4) by (simp add: mgr_get_workspace_Inr)
  show ?thesis
  proof (cases ?create)
    case (Inl err)
    then have "checkpoint_begin wid e1 ?l = finish (ErrorReply (state_exn err)) (unlock wid ?l)"
      using gw active assms(5) by (simp add: checkpoint_begin_def state_call_def)
    then show ?thesis using start same [OF assms(4)] assms(3) by simp
  next
    case (Inr a)
    then obtain op created d1 where create: "?create = Inr ((op, created), d1)" by (metis prod.collapse)
    have w1: "find_ws wid d1 = Some w" using create_operation_ws [OF create] assms(4) by simp
    have ok1: "state_ok d1" using create_operation_ok [OF assms(1) create] .
    show ?thesis
    proof (cases "op_status op = OpSucceeded")
      case True
      then have "checkpoint_begin wid e1 ?l = finish UnitReply (unlock wid (?l\<lparr>m_db := d1\<rparr>))"
        using gw active assms(5) create by (simp add: checkpoint_begin_def state_call_def)
      then show ?thesis using start same [OF w1] unlocked by simp
    next
      case False
      let ?d2 = "moved_db d1 wid WsCheckpointing (e_now e1)"
      let ?w2 = "moved_row WsCheckpointing (e_now e1) w"
      have move: "transition_workspace d1 wid [WsDetachedDirty] WsCheckpointing (e_now e1) = Inr (?w2, ?d2)"
        using transition_eq [OF w1] assms(5) active by simp
      have w2: "find_ws wid ?d2 = Some ?w2" by (rule find_moved [OF w1])
      have ok2: "state_ok ?d2" by (rule transition_workspace_ok [OF ok1 move]) simp
      let ?start = "\<lambda>s3. run_alone (await (checkpoint_finished wid (op_id op) (ws_generation w))) [e2] s3"
      show ?thesis
      proof (cases "update_operation ?d2 (op_id op) OpRunning None None None (e_now e1)")
        case (Inl err)
        then have b: "checkpoint_begin wid e1 ?l = checkpoint_failed wid (op_id op) (state_exn err) e1 (?l\<lparr>m_db := ?d2\<rparr>)"
          using gw active assms(5) create False move by (simp add: checkpoint_begin_def state_call_def)
        obtain s' w' where "checkpoint_begin wid e1 ?l = finish UnitReply s'" "m_volumes s' = m_volumes s"
            "m_locks s' = m_locks s" "find_ws wid (m_db s') = Some w'" "ws_status w' = WsDetachedDirty"
            "ws_active w' = None" "ws_head w' = ws_head w" "ws_generation w' = ws_generation w"
          using checkpoint_failed_attempt [of wid "?l\<lparr>m_db := ?d2\<rparr>" ?w2 "op_id op" "state_exn err" e1]
            w2 active assms(3) b by auto
        then show ?thesis using start assms(4) by (auto simp: attempt_ok_def)
      next
        case (Inr b)
        then obtain op' d3 where upd: "update_operation ?d2 (op_id op) OpRunning None None None (e_now e1) = Inr (op', d3)"
          by (cases b) auto
        have w3: "find_ws wid d3 = Some ?w2" using update_operation_ws [OF upd] w2 by simp
        have ok3: "state_ok d3" by (rule update_operation_ok [OF ok2 upd])
        have "run_alone (checkpoint_workspace cfg wid) [e1, e2] s =
            (case checkpoint_finished wid (op_id op) (ws_generation w) e2 (?l\<lparr>m_db := d3\<rparr>) of
               (s', p) \<Rightarrow> run_alone p [] s')"
          using start gw active assms(5) create False move upd by (simp add: checkpoint_begin_def state_call_def)
        moreover obtain s' w' where "checkpoint_finished wid (op_id op) (ws_generation w) e2 (?l\<lparr>m_db := d3\<rparr>) = finish UnitReply s'"
            "m_volumes s' = m_volumes s" "m_locks s' = m_locks s" "find_ws wid (m_db s') = Some w'" "ws_active w' = None"
            "ws_generation w' = ws_generation w"
            "ws_status w' = WsDetachedDirty \<and> ws_head w' = ws_head w
             \<or> ws_status w' = WsDetachedClean \<and> (\<exists>result rid. e_out e2 = Okay result
                \<and> jget result ''revision_id'' = JStr rid \<and> ws_head w' = Some rid)"
          using checkpoint_finished_attempt [of "?l\<lparr>m_db := d3\<rparr>" wid ?w2 "op_id op" "ws_generation w" e2]
            ok3 w3 active assms(3) by auto
        ultimately show ?thesis using assms(4) by (auto simp: attempt_ok_def)
      qed
    qed
  qed
qed

text \<open>A dirty Workspace after its Sandbox ended.\<close>

definition dirty_mgr :: mgr where
  "dirty_mgr = \<lparr>m_db = run_calls empty_db
       [CreateWorkspace ''w'' Recoverable ''v'' 1, ClaimWorkspace ''w'' ''s1'' ''h'' ''c'' 2 900,
        MarkSandboxRunning ''s1'' 3, FinishSandbox ''s1'' SbTerminated WsDetachedDirty 4],
     m_volumes = [''v''], m_records = [], m_locks = [], m_jobs = []\<rparr>"

lemma dirty_mgr_ok: "state_ok (m_db dirty_mgr)"
  unfolding dirty_mgr_def mgr.select_convs by (rule run_calls_ok [OF state_ok_empty]) simp

lemma dirty_row: "\<exists>w. find_ws ''w'' (m_db dirty_mgr) = Some w \<and> ws_status w = WsDetachedDirty"
proof -
  have "map_option ws_status (find_ws ''w'' (m_db dirty_mgr)) = Some WsDetachedDirty" by code_simp
  then show ?thesis by auto
qed

lemma checkpoint_all_or_nothing_witness:
  "\<exists>s' r. run_alone (checkpoint_workspace sample_cfg ''w'')
       [\<lparr>e_now = 5, e_later = 5, e_uuid = ''7'', e_out = Okay []\<rparr>,
        \<lparr>e_now = 6, e_later = 6, e_uuid = ''8'', e_out = Okay [(''revision_id'', JStr ''rev1'')]\<rparr>] dirty_mgr = Some (s', r)
     \<and> attempt_ok dirty_mgr ''w'' (Okay [(''revision_id'', JStr ''rev1'')]) s'"
proof -
  obtain w where w: "find_ws ''w'' (m_db dirty_mgr) = Some w" "ws_status w = WsDetachedDirty" using dirty_row by blast
  have "has_runner sample_cfg" "''w'' \<notin> set (m_locks dirty_mgr)" by (simp_all add: sample_cfg_def dirty_mgr_def)
  from checkpoint_all_or_nothing [OF dirty_mgr_ok this w,
      of "\<lparr>e_now = 5, e_later = 5, e_uuid = ''7'', e_out = Okay []\<rparr>"
        "\<lparr>e_now = 6, e_later = 6, e_uuid = ''8'', e_out = Okay [(''revision_id'', JStr ''rev1'')]\<rparr>"]
  show ?thesis by simp
qed

section \<open>Recovery at startup\<close>

lemma recover_operations_spec:
  assumes "state_ok d" and "\<forall>r\<in>set rs. op_id r \<in> op_id ` set (operations d)"
  shows "\<exists>d'. recover_operations rs now d = Inr ((), d') \<and> state_ok d' \<and> workspaces d' = workspaces d
    \<and> (\<forall>x\<in>set (operations d'). op_open x \<longrightarrow> x \<in> set (operations d) \<and> op_id x \<notin> op_id ` set rs)"
  using assms
proof (induction rs arbitrary: d)
  case Nil
  then show ?case by simp
next
  case (Cons r rs)
  let ?phase = "if op_name r = Publish \<and> previous_capture r \<noteq> None then Some PhCaptured else op_phase r"
  let ?set = "set_operation OpFailed ?phase (op_result r) (Some restart_error) now"
  let ?d = "d\<lparr>operations := update_rows (\<lambda>x. op_id x = op_id r) ?set (operations d)\<rparr>"
  have ids: "op_id ` set (operations ?d) = op_id ` set (operations d)"
    by (simp add: image_update_rows set_operation_def)
  obtain x where "x \<in> set (operations d)" "op_id x = op_id r" using Cons.prems(2) by auto
  then have "update_operation d (op_id r) OpFailed ?phase (op_result r) (Some restart_error) now = Inr (?set x, ?d)"
    unfolding update_operation_Inr [OF Cons.prems(1)] by blast
  note update = this
  then have "state_ok ?d" using Cons.prems(1) update_operation_ok by blast
  with Cons.prems(2) ids Cons.IH [of ?d] obtain d' where d': "recover_operations rs now ?d = Inr ((), d')" "state_ok d'"
      "workspaces d' = workspaces d"
      "\<forall>x\<in>set (operations d'). op_open x \<longrightarrow> x \<in> set (operations ?d) \<and> op_id x \<notin> op_id ` set rs"
    by auto
  have old: "x \<in> set (operations d) \<and> op_id x \<noteq> op_id r" if "x \<in> set (operations ?d)" "op_open x" for x
    using that by (auto simp: set_update_rows op_open_def set_operation_def)
  have "recover_operations (r # rs) now d = Inr ((), d')" using update d'(1) by (simp add: Let_def)
  moreover have "\<forall>x\<in>set (operations d'). op_open x \<longrightarrow> x \<in> set (operations d) \<and> op_id x \<notin> op_id ` set (r # rs)"
  proof (intro ballI impI)
    fix x assume x: "x \<in> set (operations d')" "op_open x"
    then have "x \<in> set (operations ?d)" "op_id x \<notin> op_id ` set rs" using d'(4) by blast+
    then show "x \<in> set (operations d) \<and> op_id x \<notin> op_id ` set (r # rs)"
      using old [OF _ x(2)] by simp
  qed
  ultimately show ?case using d'(2,3) by blast
qed

text \<open>One suppressed transition out of \<open>st\<close>.\<close>

lemma suppressed_transition:
  fixes s :: mgr and wid :: string and now :: int
  assumes "state_ok (m_db s)" and "st \<noteq> WsRunning" and "st' \<noteq> WsRunning" and "st' \<noteq> st"
  defines "s' \<equiv> suppressed (\<lambda>d. transition_workspace d wid [st] st' now) s"
  shows "state_ok (m_db s')" and "operations (m_db s') = operations (m_db s)"
    and "\<forall>w\<in>set (workspaces (m_db s')). ws_status w = st \<longrightarrow> w \<in> set (workspaces (m_db s)) \<and> ws_id w \<noteq> wid"
    and "\<forall>w\<in>set (workspaces (m_db s')). ws_status w \<noteq> st' \<longrightarrow> w \<in> set (workspaces (m_db s))"
proof -
  show "state_ok (m_db s')"
    using suppressed_inv [of s "\<lambda>d. transition_workspace d wid [st] st' now"] assms by (simp add: mgr_ok_def)
  have shape: "s' = s \<and> (\<forall>w\<in>set (workspaces (m_db s)). ws_status w = st \<longrightarrow> ws_id w \<noteq> wid)
      \<or> s' = s\<lparr>m_db := moved_db (m_db s) wid st' now\<rparr>"
  proof (cases "find_ws wid (m_db s)")
    case None
    then have "transition_workspace (m_db s) wid [st] st' now = Inl (StateNotFound (named ''Workspace'' wid '' was not found''))"
      by (simp add: transition_workspace_def)
    then show ?thesis using None by (auto simp: s'_def suppressed_def state_call_def find_None)
  next
    case (Some w)
    then have w: "w \<in> set (workspaces (m_db s))" "ws_id w = wid" using assms(1) by (simp_all add: find_ws_Some)
    have only: "v = w" if "v \<in> set (workspaces (m_db s))" "ws_id v = wid" for v using ws_eq [OF assms(1)] w that by simp
    show ?thesis
    proof (cases "ws_status w = st")
      case True
      then have "ws_active w = None"
        using w assms(1,2) by (auto simp: state_ok_def writers_ok_def status_ok_def)
      then show ?thesis
        using transition_eq [OF Some, of "[st]" st' now] True by (simp add: s'_def suppressed_def state_call_def)
    next
      case False
      then have "transition_workspace (m_db s) wid [st] st' now =
          Inl (StateConflict (named ''Workspace'' wid ('' cannot transition from '' @ ws_status_text (ws_status w) @ '' to '' @ ws_status_text st')))"
        using Some by (simp add: transition_workspace_def)
      then show ?thesis using only False by (auto simp: s'_def suppressed_def state_call_def)
    qed
  qed
  then consider (same) "s' = s" "\<forall>w\<in>set (workspaces (m_db s)). ws_status w = st \<longrightarrow> ws_id w \<noteq> wid"
    | (moved) "m_db s' = moved_db (m_db s) wid st' now" by fastforce
  note cases = this
  have rows: "set (workspaces (moved_db (m_db s) wid st' now)) =
      {w \<in> set (workspaces (m_db s)). ws_id w \<noteq> wid} \<union> moved_row st' now ` {w \<in> set (workspaces (m_db s)). ws_id w = wid}"
    by (simp add: moved_db_def set_update_rows)
  show "operations (m_db s') = operations (m_db s)" using cases by cases (simp_all add: moved_db_def)
  show "\<forall>w\<in>set (workspaces (m_db s')). ws_status w = st \<longrightarrow> w \<in> set (workspaces (m_db s)) \<and> ws_id w \<noteq> wid"
    using cases
  proof cases
    case moved
    then show ?thesis using assms(4) by (auto simp only: rows moved_row_simps)
  qed simp
  show "\<forall>w\<in>set (workspaces (m_db s')). ws_status w \<noteq> st' \<longrightarrow> w \<in> set (workspaces (m_db s))"
    using cases
  proof cases
    case moved
    then show ?thesis by (auto simp only: rows moved_row_simps)
  qed simp
qed

lemma recover_checkpoints_spec:
  assumes "state_ok (m_db s)"
  shows "state_ok (m_db (recover_checkpoints wss now s)) \<and> operations (m_db (recover_checkpoints wss now s)) = operations (m_db s)
    \<and> (\<forall>w\<in>set (workspaces (m_db (recover_checkpoints wss now s))).
         ws_status w = WsCheckpointing \<longrightarrow> w \<in> set (workspaces (m_db s)) \<and> ws_id w \<notin> ws_id ` set wss)"
  using assms
proof (induction wss arbitrary: s)
  case Nil
  then show ?case by simp
next
  case (Cons ws wss)
  let ?s = "suppressed (\<lambda>d. transition_workspace d (ws_id ws) [WsCheckpointing] WsDetachedDirty now) s"
  have step: "state_ok (m_db ?s)" "operations (m_db ?s) = operations (m_db s)"
      "\<forall>w\<in>set (workspaces (m_db ?s)). ws_status w = WsCheckpointing \<longrightarrow> w \<in> set (workspaces (m_db s)) \<and> ws_id w \<noteq> ws_id ws"
    using suppressed_transition [OF Cons.prems, of WsCheckpointing WsDetachedDirty "ws_id ws" now] by simp_all
  show ?case using Cons.IH [OF step(1)] step(2,3) by auto
qed

lemma transition_length:
  "transition_workspace d wid expected status now = Inr (w, d') \<Longrightarrow> length (workspaces d') = length (workspaces d)"
  by (auto simp: transition_workspace_def require_Inr_iff Let_def update_rows_def split: option.splits)

lemma recover_checkpoints_length:
  "length (workspaces (m_db (recover_checkpoints wss now s))) = length (workspaces (m_db s))"
proof (induction wss arbitrary: s)
  case (Cons ws wss)
  have "length (workspaces (m_db (suppressed (\<lambda>d. transition_workspace d wid expected st now) s))) = length (workspaces (m_db s))"
    for wid expected st
    by (auto simp: suppressed_def state_call_def split: sum.split dest: transition_length)
  then show ?case using Cons by simp
qed simp

lemma run_remove_volume:
  assumes "length es \<ge> 2"
  shows "\<exists>e es' s'. run_alone (remove_volume v k) es s = (case k e s' of (s1, p) \<Rightarrow> run_alone p es' s1)
    \<and> length es' \<ge> length es - 2 \<and> m_db s' = m_db s"
proof -
  obtain e1 e2 es' where es: "es = e1 # e2 # es'" using assms by (metis Suc_le_length_iff numeral_2_eq_2)
  consider (raised) x where "e_out e1 = Raised x" | (absent) r where "e_out e1 = Okay r" "v \<notin> set (m_volumes s)"
    | (kept) r x where "e_out e1 = Okay r" "v \<in> set (m_volumes s)" "e_out e2 = Raised x"
    | (removed) r r' where "e_out e1 = Okay r" "v \<in> set (m_volumes s)" "e_out e2 = Okay r'"
    by (metis outcome.exhaust)
  then show ?thesis
  proof cases
    case raised
    then show ?thesis unfolding es remove_volume_def by (intro exI [of _ e1] exI [of _ "e2 # es'"] exI [of _ s]) simp
  next
    case absent
    then show ?thesis unfolding es remove_volume_def by (intro exI [of _ e1] exI [of _ "e2 # es'"] exI [of _ s]) simp
  next
    case kept
    then show ?thesis unfolding es remove_volume_def by (intro exI [of _ e2] exI [of _ es'] exI [of _ s]) simp
  next
    case removed
    then show ?thesis unfolding es remove_volume_def
      by (intro exI [of _ e2] exI [of _ es'] exI [of _ "drop_volume v s"]) (simp add: drop_volume_def)
  qed
qed

definition recovered :: "db \<Rightarrow> bool" where
  "recovered d \<longleftrightarrow> incomplete_operations d = [] \<and> workspaces_with_status d [WsCheckpointing, WsRestoring] = []"

lemma recover_restores_spec:
  assumes "state_ok (m_db s)" and "length es \<ge> 2 * length wss"
    and "\<forall>r\<in>set (operations (m_db s)). \<not> op_open r" and "\<forall>w\<in>set (workspaces (m_db s)). ws_status w \<noteq> WsCheckpointing"
    and "\<forall>w\<in>set (workspaces (m_db s)). ws_status w = WsRestoring \<longrightarrow> ws_id w \<in> ws_id ` set wss"
  shows "\<exists>s'. (case recover_restores wss e s of (s1, p) \<Rightarrow> run_alone p es s1) = Some (s', UnitReply) \<and> recovered (m_db s')"
  using assms
proof (induction wss arbitrary: e s es)
  case Nil
  then have "recovered (m_db s)"
    by (auto simp: recovered_def incomplete_operations_def workspaces_with_status_def filter_empty_conv)
  then show ?case by simp
next
  case (Cons ws wss)
  let ?k = "\<lambda>e s. recover_restores wss e
      (suppressed (\<lambda>d. transition_workspace d (ws_id ws) [WsRestoring] WsRemoteOnly (e_now e)) s)"
  have "length es \<ge> 2" using Cons.prems(2) by simp
  then obtain e' es' s1 where run: "run_alone (remove_volume (ws_volume ws) ?k) es s = (case ?k e' s1 of (s2, p) \<Rightarrow> run_alone p es' s2)"
    and es': "length es' \<ge> length es - 2" and db: "m_db s1 = m_db s"
    using run_remove_volume [of es "ws_volume ws" ?k s] by blast
  let ?s2 = "suppressed (\<lambda>d. transition_workspace d (ws_id ws) [WsRestoring] WsRemoteOnly (e_now e')) s1"
  have step: "state_ok (m_db ?s2)" "operations (m_db ?s2) = operations (m_db s)"
      "\<forall>w\<in>set (workspaces (m_db ?s2)). ws_status w = WsRestoring \<longrightarrow> w \<in> set (workspaces (m_db s)) \<and> ws_id w \<noteq> ws_id ws"
      "\<forall>w\<in>set (workspaces (m_db ?s2)). ws_status w \<noteq> WsRemoteOnly \<longrightarrow> w \<in> set (workspaces (m_db s))"
    using suppressed_transition [of s1 WsRestoring WsRemoteOnly "ws_id ws" "e_now e'"] Cons.prems(1) db by simp_all
  have "\<exists>s'. (case recover_restores wss e' ?s2 of (s1, p) \<Rightarrow> run_alone p es' s1) = Some (s', UnitReply) \<and> recovered (m_db s')"
  proof (rule Cons.IH [OF step(1)])
    show "\<forall>w\<in>set (workspaces (m_db ?s2)). ws_status w \<noteq> WsCheckpointing" using step(4) Cons.prems(4) by fastforce
    show "\<forall>w\<in>set (workspaces (m_db ?s2)). ws_status w = WsRestoring \<longrightarrow> ws_id w \<in> ws_id ` set wss"
      using step(3) Cons.prems(5) by fastforce
  qed (use step(2) Cons.prems(2,3) es' in auto)
  then show ?case using run by simp
qed

text \<open>
  C11. Recovery completes and closes everything a crash left open: from any consistent database,
  with any outcomes of Docker, the recovery of startup ends after finitely many segments, and then
  no operation is pending or running and no Workspace is checkpointing or restoring.
\<close>

theorem recovery_closes_everything:
  assumes "state_ok (m_db s)"
    and "length es \<ge> 1 + 2 * length (workspaces (m_db s))"
  shows "\<exists>s'. run_alone (await recover_incomplete) es s = Some (s', UnitReply) \<and> recovered (m_db s')"
proof -
  obtain e es' where es: "es = e # es'" using assms(2) by (cases es) auto
  let ?open = "incomplete_operations (m_db s)"
  have "\<forall>r\<in>set ?open. op_id r \<in> op_id ` set (operations (m_db s))" by (auto simp: incomplete_operations_def)
  then obtain d1 where d1: "recover_operations ?open (e_now e) (m_db s) = Inr ((), d1)" "state_ok d1"
      "workspaces d1 = workspaces (m_db s)"
      "\<forall>x\<in>set (operations d1). op_open x \<longrightarrow> x \<in> set (operations (m_db s)) \<and> op_id x \<notin> op_id ` set ?open"
    using recover_operations_spec [OF assms(1)] by blast
  then have closed: "\<forall>x\<in>set (operations d1). \<not> op_open x" by (auto simp: incomplete_operations_def)
  let ?s1 = "s\<lparr>m_db := d1\<rparr>"
  let ?s2 = "recover_checkpoints (workspaces_with_status d1 [WsCheckpointing]) (e_now e) ?s1"
  have s2: "state_ok (m_db ?s2)" "operations (m_db ?s2) = operations d1"
      "\<forall>w\<in>set (workspaces (m_db ?s2)). ws_status w \<noteq> WsCheckpointing"
    using recover_checkpoints_spec [of ?s1 "workspaces_with_status d1 [WsCheckpointing]" "e_now e"] d1(2)
    by (auto simp: workspaces_with_status_def)
  have "length (workspaces (m_db ?s2)) = length (workspaces d1)"
    by (simp add: recover_checkpoints_length)
  moreover have "length (workspaces_with_status (m_db ?s2) [WsRestoring]) \<le> length (workspaces (m_db ?s2))"
    by (simp add: workspaces_with_status_def)
  ultimately have len: "length es' \<ge> 2 * length (workspaces_with_status (m_db ?s2) [WsRestoring])"
    using assms(2) es d1(3) by simp
  have "run_alone (await recover_incomplete) es s =
      (case recover_restores (workspaces_with_status (m_db ?s2) [WsRestoring]) e ?s2 of (s', p) \<Rightarrow> run_alone p es' s')"
    using d1(1) by (simp add: es recover_incomplete_def state_call_def Let_def)
  moreover have "\<exists>s'. (case recover_restores (workspaces_with_status (m_db ?s2) [WsRestoring]) e ?s2 of
      (s1, p) \<Rightarrow> run_alone p es' s1) = Some (s', UnitReply) \<and> recovered (m_db s')"
  proof (rule recover_restores_spec [OF s2(1) len _ s2(3)])
    show "\<forall>r\<in>set (operations (m_db ?s2)). \<not> op_open r" using s2(2) closed by simp
    show "\<forall>w\<in>set (workspaces (m_db ?s2)). ws_status w = WsRestoring \<longrightarrow>
        ws_id w \<in> ws_id ` set (workspaces_with_status (m_db ?s2) [WsRestoring])"
      by (simp add: workspaces_with_status_def)
  qed
  ultimately show ?thesis by simp
qed

definition fine :: "int \<Rightarrow> env" where
  "fine t = \<lparr>e_now = t, e_later = t, e_uuid = ''77'', e_out = Okay []\<rparr>"

lemma fine_simps [simp]: "e_now (fine t) = t" "e_out (fine t) = Okay []" "e_uuid (fine t) = ''77''"
  by (simp_all add: fine_def)

lemma recovery_closes_everything_witness:
  "\<exists>s'. run_alone (await recover_incomplete) (replicate 3 (fine 9)) dirty_mgr = Some (s', UnitReply) \<and> recovered (m_db s')"
proof -
  have "length (workspaces (m_db dirty_mgr)) = 1" by code_simp
  then show ?thesis using recovery_closes_everything [OF dirty_mgr_ok, of "replicate 3 (fine 9)"] by simp
qed

section \<open>Two orders that defeat a check\<close>

text \<open>A number of segments, one per answer of the environment.\<close>

fun advance :: "proc \<Rightarrow> env list \<Rightarrow> mgr \<Rightarrow> (mgr \<times> proc) option" where
  "advance p [] s = Some (s, p)"
| "advance (Finished r) (e # es) s = None"
| "advance (Await f) (e # es) s = (case f e s of None \<Rightarrow> None | Some (s', p) \<Rightarrow> advance p es s')"

lemma advance_await [simp]: "advance (await g) (e # es) s = (case g e s of (s', p) \<Rightarrow> advance p es s')"
  by (simp add: await_def)

lemma advance_lock [simp]:
  "advance (with_lock wid g) (e # es) s =
     (if wid \<in> set (m_locks s) then None
      else (case g e (s\<lparr>m_locks := wid # m_locks s\<rparr>) of (s', p) \<Rightarrow> advance p es s'))"
  by (simp add: with_lock_def)

lemma cleanup_run:
  assumes "find_ws wid (m_db s) = Some w" and "ws_status w = WsDetachedClean" and "ws_head w = Some rid"
    and "ws_active w = None" and "ws_updated w \<le> t - local_retention cfg" and "wid \<notin> set (m_locks s)"
    and "ws_volume w \<in> set (m_volumes s)"
  shows "run_alone (cleanup_local_workspace cfg wid (reply_with (\<lambda>u. UnitReply))) [fine t, fine t, fine t] s =
    Some (s\<lparr>m_db := moved_db (m_db s) wid WsRemoteOnly t, m_volumes := removeAll (ws_volume w) (m_volumes s)\<rparr>, UnitReply)"
proof -
  have "mgr_get_workspace (m_db s) wid = Inr w" using assms(1) by (simp add: mgr_get_workspace_Inr)
  moreover have "transition_workspace (m_db s) wid [WsDetachedClean] WsRemoteOnly t =
      Inr (moved_row WsRemoteOnly t w, moved_db (m_db s) wid WsRemoteOnly t)"
    using transition_eq [OF assms(1)] assms(2,4) by simp
  ultimately show ?thesis
    using assms
    by (simp add: cleanup_local_workspace_def remove_volume_checked_def reply_with_def state_call_def drop_volume_def unlock_def)
qed

lemma prepare_run:
  assumes "find_ws wid (m_db s) = Some w" and "ws_status w = WsDetachedClean" and "wid \<notin> set (m_locks s)"
    and "ws_volume w \<in> set (m_volumes s)" and "has_runner cfg"
  shows "advance (prepare_workspace cfg wid (create_prepared cfg w requested)) [fine t, fine t] s =
    Some (s, await (\<lambda>e s. case e_out e of Raised x \<Rightarrow> create_abort w x e s | Okay _ \<Rightarrow> create_claim cfg w requested e s))"
proof -
  have "mgr_get_workspace (m_db s) wid = Inr w" using assms(1) by (simp add: mgr_get_workspace_Inr)
  moreover have "ws_id w = wid" by (rule find_ids(1) [OF assms(1)])
  ultimately show ?thesis
    using assms by (simp add: prepare_workspace_def volume_exists_def prepare_checked_def prepare_restore_def create_prepared_def)
qed

lemma claim_run:
  assumes "state_ok (m_db s)" and "find_ws (ws_id w) (m_db s) = Some v" and "ws_active v = None"
    and "ws_status v \<notin> set unmountable" and "sid \<notin> sb_id ` set (sandboxes (m_db s))"
  shows "\<exists>d q. create_claim cfg w (Some sid) e s = (s\<lparr>m_db := d\<rparr>, q)
    \<and> find_ws (ws_id w) d = Some (claimed_row sid (e_now e) v)"
proof -
  let ?host = "''sandbox-worker-'' @ removeprefix ''sandbox_'' sid"
  let ?s = "new_sandbox sid (ws_id w) ?host ?host (e_now e) (e_now e + execution_ttl cfg)"
  have v: "v \<in> set (workspaces (m_db s))" "ws_id v = ws_id w" using assms(1,2) by (simp_all add: find_ws_Some)
  have "claim_workspace (m_db s) (ws_id w) sid ?host ?host (e_now e) (e_now e + execution_ttl cfg) =
      Inr ((claimed_row sid (e_now e) v, ?s), claim_state (m_db s) (ws_id w) ?s (e_now e))"
    unfolding claim_workspace_Inr [OF assms(1)] using v assms(3-5) by (auto simp: Let_def)
  moreover have "find_ws (ws_id w) (claim_state (m_db s) (ws_id w) ?s (e_now e)) = Some (claimed_row sid (e_now e) v)"
    using assms(2) v(2) by (simp add: find_ws_def claim_state_def select_one_update_rows)
  moreover have "\<exists>q. create_claim cfg w (Some sid) e s = (s\<lparr>m_db := claim_state (m_db s) (ws_id w) ?s (e_now e)\<rparr>, q)"
    unfolding create_claim_def Let_def option.case state_call_def calculation(1)
    by (simp add: create_container_def)
  ultimately show ?thesis by blast
qed

text \<open>
  C12. The creation of a Sandbox gives the Workspace lock back before it claims the Workspace, and
  the claim does not exclude \<open>remote_only\<close>. When the local cleanup runs in between, the claim
  succeeds on a Workspace whose volume has been removed: it is running, its head revision was not
  restored, and the container will start on an empty volume.
\<close>

theorem create_races_cleanup:
  assumes "state_ok (m_db s)" and "find_ws wid (m_db s) = Some w" and "ws_status w = WsDetachedClean"
    and "ws_head w = Some rid" and "ws_volume w \<in> set (m_volumes s)" and "wid \<notin> set (m_locks s)"
    and "ws_updated w \<le> t - local_retention cfg" and "has_runner cfg" and "sid \<notin> sb_id ` set (sandboxes (m_db s))"
  shows "\<exists>p s1 s2 q v.
      advance (prepare_workspace cfg wid (create_prepared cfg w (Some sid))) [fine t, fine t] s = Some (s, p)
      \<and> run_alone (cleanup_local_workspace cfg wid (reply_with (\<lambda>u. UnitReply))) [fine t, fine t, fine t] s = Some (s1, UnitReply)
      \<and> advance p [fine t] s1 = Some (s2, q)
      \<and> find_ws wid (m_db s2) = Some v \<and> ws_status v = WsRunning \<and> ws_active v = Some sid \<and> ws_head v = Some rid
      \<and> ws_volume v \<notin> set (m_volumes s2)"
proof -
  have id: "ws_id w = wid" by (rule find_ids(1) [OF assms(2)])
  have active: "ws_active w = None"
    using assms(1-3) by (auto simp: state_ok_def writers_ok_def status_ok_def find_ws_Some [OF assms(1)])
  let ?d = "moved_db (m_db s) wid WsRemoteOnly t"
  let ?s1 = "s\<lparr>m_db := ?d, m_volumes := removeAll (ws_volume w) (m_volumes s)\<rparr>"
  have ok: "state_ok (m_db ?s1)"
    using transition_workspace_ok [OF assms(1), of wid "[WsDetachedClean]" WsRemoteOnly t] transition_eq [OF assms(2)] assms(3) active
    by simp
  have row: "find_ws (ws_id w) (m_db ?s1) = Some (moved_row WsRemoteOnly t w)"
    using find_moved [OF assms(2), of WsRemoteOnly t] id by simp
  have "sid \<notin> sb_id ` set (sandboxes (m_db ?s1))" using assms(9) by (simp add: moved_db_def)
  then obtain d q where claim: "create_claim cfg w (Some sid) (fine t) ?s1 = (?s1\<lparr>m_db := d\<rparr>, q)"
      "find_ws (ws_id w) d = Some (claimed_row sid t (moved_row WsRemoteOnly t w))"
    using claim_run [OF ok row, of sid cfg "fine t"] active by (auto simp: unmountable_def)
  let ?p = "await (\<lambda>e s. case e_out e of Raised x \<Rightarrow> create_abort w x e s | Okay _ \<Rightarrow> create_claim cfg w (Some sid) e s)"
  have "advance ?p [fine t] ?s1 = Some (?s1\<lparr>m_db := d\<rparr>, q)" using claim(1) by simp
  moreover have "advance (prepare_workspace cfg wid (create_prepared cfg w (Some sid))) [fine t, fine t] s = Some (s, ?p)"
    by (rule prepare_run [OF assms(2,3,6,5,8)])
  moreover have "run_alone (cleanup_local_workspace cfg wid (reply_with (\<lambda>u. UnitReply))) [fine t, fine t, fine t] s =
      Some (?s1, UnitReply)"
    by (rule cleanup_run [OF assms(2,3,4) active assms(7,6,5)])
  ultimately show ?thesis
    using claim(2) id assms(4)
    by (intro exI [of _ ?p] exI [of _ ?s1] exI [of _ "?s1\<lparr>m_db := d\<rparr>"] exI [of _ q]
        exI [of _ "claimed_row sid t (moved_row WsRemoteOnly t w)"]) simp
qed

definition clean_mgr :: mgr where
  "clean_mgr = dirty_mgr\<lparr>m_db := run_calls (m_db dirty_mgr)
     [CreateOperation ''o1'' Checkpoint ''w'' None ''k'' [] 5, TransitionWorkspace ''w'' [WsDetachedDirty] WsCheckpointing 5,
      CommitRevision ''w'' ''o1'' ''rev1'' 1 [] 6]\<rparr>"

lemma create_races_cleanup_witness:
  "\<exists>w p s1 s2 q v. find_ws ''w'' (m_db clean_mgr) = Some w
     \<and> advance (prepare_workspace sample_cfg ''w'' (create_prepared sample_cfg w (Some ''s9''))) [fine 9000, fine 9000] clean_mgr = Some (clean_mgr, p)
     \<and> run_alone (cleanup_local_workspace sample_cfg ''w'' (reply_with (\<lambda>u. UnitReply))) [fine 9000, fine 9000, fine 9000] clean_mgr = Some (s1, UnitReply)
     \<and> advance p [fine 9000] s1 = Some (s2, q)
     \<and> find_ws ''w'' (m_db s2) = Some v \<and> ws_status v = WsRunning \<and> ws_volume v \<notin> set (m_volumes s2)"
proof -
  have ok: "state_ok (m_db clean_mgr)"
    using run_calls_ok [OF dirty_mgr_ok, of "[CreateOperation ''o1'' Checkpoint ''w'' None ''k'' [] 5,
        TransitionWorkspace ''w'' [WsDetachedDirty] WsCheckpointing 5, CommitRevision ''w'' ''o1'' ''rev1'' 1 [] 6]"]
    by (simp add: clean_mgr_def)
  have "map_option (\<lambda>w. (ws_status w, ws_head w, ws_volume w, ws_updated w)) (find_ws ''w'' (m_db clean_mgr)) =
      Some (WsDetachedClean, Some ''rev1'', ''v'', 6)"
    by code_simp
  then obtain w where w: "find_ws ''w'' (m_db clean_mgr) = Some w" "ws_status w = WsDetachedClean"
      "ws_head w = Some ''rev1''" "ws_volume w = ''v''" "ws_updated w = 6"
    by auto
  have "map sb_id (sandboxes (m_db clean_mgr)) = [''s1'']" by code_simp
  then have "set (map sb_id (sandboxes (m_db clean_mgr))) = {''s1''}" by (simp only: list.set)
  then have new: "''s9'' \<notin> sb_id ` set (sandboxes (m_db clean_mgr))" by simp
  have state: "ws_volume w \<in> set (m_volumes clean_mgr)" "''w'' \<notin> set (m_locks clean_mgr)"
      "ws_updated w \<le> 9000 - local_retention sample_cfg" "has_runner sample_cfg"
    using w(4,5) by (simp_all add: clean_mgr_def dirty_mgr_def sample_cfg_def)
  show ?thesis using create_races_cleanup [OF ok w(1,2,3) state new] w(1) by blast
qed

lemma update_row:
  assumes "state_ok d" and "find_op oid d = Some r"
  shows "\<exists>d'. update_operation d oid st ph res err now = Inr (set_operation st ph res err now r, d')
    \<and> find_op oid d' = Some (set_operation st ph res err now r) \<and> state_ok d'"
proof -
  let ?d = "d\<lparr>operations := update_rows (\<lambda>r. op_id r = oid) (set_operation st ph res err now) (operations d)\<rparr>"
  have "r \<in> set (operations d)" "op_id r = oid" using assms by (simp_all add: find_op_Some)
  then have u: "update_operation d oid st ph res err now = Inr (set_operation st ph res err now r, ?d)"
    unfolding update_operation_Inr [OF assms(1)] by blast
  moreover have "find_op oid ?d = Some (set_operation st ph res err now r)"
    using assms(2) find_ids(3) [OF assms(2)] by (simp add: find_op_def select_one_update_rows set_operation_def)
  ultimately show ?thesis using update_operation_ok [OF assms(1)] by blast
qed

lemma canon_target: "jget (canon_obj [(''capture'', JObj c), (''target_artifact_id'', JStr b)]) ''target_artifact_id'' = JStr b"
  by (subst jget_canon_obj) simp_all

text \<open>
  The check that a publish keeps its Artifact holds for one attempt only. An attempt with
  another Artifact than the one recorded is refused, but the refusal records the new Artifact as
  the target, so that the next attempt with it passes the check and uploads.
\<close>

theorem publish_target_rebinds:
  assumes "state_ok (m_db s)" and "find_op (op_id r) (m_db s) = Some r"
    and "previous_target r = JStr a" and "a \<noteq> b"
    and "jget claims ''artifact_id'' = JStr b" and "b \<noteq> []"
    and "nonempty_str (jget claims ''upload_url'')" and "nonempty_str (jget claims ''upload_token'')"
  shows "\<exists>s' r' s''. publish_upload r claims capture e s = finish UnitReply s'
      \<and> find_op (op_id r) (m_db s') = Some r' \<and> op_status r' = OpFailed
      \<and> publish_upload r' claims capture e' s' = (s'', await (publish_uploaded r' claims capture))"
proof -
  have parts: "list_all (\<lambda>k. nonempty_str (jget claims k)) [''upload_url'', ''upload_token'', ''artifact_id'']"
    using assms(5-8) by (simp add: nonempty_str_def)
  let ?res = "Some [(''capture'', JObj capture), (''target_artifact_id'', JStr b)]"
  let ?err = "Some (operation_error (PyExn ''OperationExecutionError'' ''Publish operation Artifact binding changed''))"
  let ?r = "set_operation OpFailed (Some PhCaptured) ?res ?err (e_now e) r"
  obtain d' where d': "update_operation (m_db s) (op_id r) OpFailed (Some PhCaptured) ?res ?err (e_now e) = Inr (?r, d')"
      "find_op (op_id r) d' = Some ?r" "state_ok d'"
    using update_row [OF assms(1,2)] by blast
  have first: "publish_upload r claims capture e s = finish UnitReply (s\<lparr>m_db := d'\<rparr>)"
    using parts assms(3-5) d'(1)
    by (simp add: publish_upload_def publish_failed_def suppressed_def state_call_def)
  have id: "op_id ?r = op_id r" by (simp add: set_operation_def)
  have "previous_target ?r = JStr b" by (simp add: previous_target_def set_operation_def canon_target)
  moreover obtain r2 d'' where "update_operation d' (op_id r) OpRunning (Some PhUploading) ?res None (e_now e') = Inr (r2, d'')"
    using update_row [OF d'(3,2)] by blast
  ultimately have "publish_upload ?r claims capture e' (s\<lparr>m_db := d'\<rparr>) =
      (s\<lparr>m_db := d''\<rparr>, await (publish_uploaded ?r claims capture))"
    using parts assms(5) id by (simp add: publish_upload_def state_call_def)
  moreover have "op_status ?r = OpFailed" by (simp add: set_operation_def)
  ultimately show ?thesis using first d'(2) by (intro exI conjI) auto
qed

definition publish_mgr :: mgr where
  "publish_mgr = dirty_mgr\<lparr>m_db := run_calls (m_db dirty_mgr)
     [CreateOperation ''o1'' Publish ''w'' None ''k'' [] 5,
      UpdateOperation ''o1'' OpFailed (Some PhCaptured)
        (Some [(''capture'', JObj []), (''target_artifact_id'', JStr ''artifact_a'')]) None 6]\<rparr>"

lemma publish_target_rebinds_witness:
  "\<exists>r s' s'' r' claims. find_op ''o1'' (m_db publish_mgr) = Some r \<and> jget claims ''artifact_id'' = JStr ''artifact_b''
     \<and> publish_upload r claims [] (fine 7) publish_mgr = finish UnitReply s'
     \<and> publish_upload r' claims [] (fine 8) s' = (s'', await (publish_uploaded r' claims []))"
proof -
  let ?claims = "[(''artifact_id'', JStr ''artifact_b''), (''upload_url'', JStr ''u''), (''upload_token'', JStr ''t'')]"
  have ok: "state_ok (m_db publish_mgr)"
    using run_calls_ok [OF dirty_mgr_ok, of "[CreateOperation ''o1'' Publish ''w'' None ''k'' [] 5,
      UpdateOperation ''o1'' OpFailed (Some PhCaptured)
        (Some [(''capture'', JObj []), (''target_artifact_id'', JStr ''artifact_a'')]) None 6]"]
    by (simp add: publish_mgr_def)
  have "map_option (\<lambda>r. (op_id r, previous_target r)) (find_op ''o1'' (m_db publish_mgr)) = Some (''o1'', JStr ''artifact_a'')"
    by code_simp
  then obtain r where r: "find_op ''o1'' (m_db publish_mgr) = Some r" "op_id r = ''o1''" "previous_target r = JStr ''artifact_a''"
    by auto
  have "find_op (op_id r) (m_db publish_mgr) = Some r" using r by simp
  from publish_target_rebinds [OF ok this r(3), of "''artifact_b''" ?claims "[]" "fine 7" "fine 8"]
  have "\<exists>s' r' s''. publish_upload r ?claims [] (fine 7) publish_mgr = finish UnitReply s'
      \<and> find_op (op_id r) (m_db s') = Some r' \<and> op_status r' = OpFailed
      \<and> publish_upload r' ?claims [] (fine 8) s' = (s'', await (publish_uploaded r' ?claims []))"
    by (simp add: nonempty_str_def)
  moreover have "jget ?claims ''artifact_id'' = JStr ''artifact_b''" by simp
  ultimately show ?thesis using r(1) by blast
qed

end
