(* ===== verification/Containers.thy ===== *)
theory Containers
  imports Manager
begin

text \<open>
  The containers that the Manager starts: \<open>build_container_spec\<close> of
  \<open>src/src/sandbox_manager/docker_backend.py\<close> for a Sandbox, and \<open>DockerOperationRunner\<close> of
  \<open>src/src/sandbox_manager/operation_runner.py\<close> for the storage operations, with the session policy
  of \<open>src/src/sandbox_manager/sts.py\<close> that limits the credentials of an operation.

  A container is described by the record \<open>container_spec\<close>, the keyword arguments of
  \<open>containers.create\<close>. What Docker, the object store and the STS endpoint answer is an argument.
\<close>

section \<open>Settings and container descriptions\<close>

record ops_cfg =
  docker_runtime :: string
  rpc_network :: string
  egress_proxy_url :: string
  internal_no_proxy :: string
  worker_port :: int
  codex_command :: string
  codex_model :: "string option"
  mcp_apps_enabled :: bool
  codex_auth_file :: "string option"
  codex_config_file :: "string option"
  resolv_conf_file :: "string option"
  container_user :: string
  memory_limit :: string
  nano_cpus :: int
  pids_limit :: int
  tmpfs_limit :: string
  operation_runtime :: string
  storage_network :: string
  operation_container_user :: string
  publish_spool_volume :: string
  agent_uid :: int
  agent_gid :: int
  object_store_endpoint :: string
  object_store_region :: string
  use_sts :: bool
  parent_access_key :: string
  parent_secret_key :: string
  workspace_bucket :: string
  workspace_prefix :: string
  restic_password_file :: string

datatype mount_mode = MountRO | MountRW

record container_spec =
  cs_name :: string
  cs_hostname :: "string option"
  cs_init :: bool
  cs_command :: "string list"
  cs_runtime :: string
  cs_network :: string
  cs_environment :: "(string \<times> string) list"
  cs_volumes :: "(string \<times> string \<times> mount_mode) list"
  cs_labels :: "(string \<times> string) list"
  cs_privileged :: bool
  cs_cap_drop :: "string list"
  cs_cap_add :: "string list"
  cs_security_opt :: "string list"
  cs_read_only :: bool
  cs_user :: string
  cs_mem_limit :: string
  cs_nano_cpus :: int
  cs_pids_limit :: int
  cs_tmpfs :: "(string \<times> string) list"

definition label :: "string \<Rightarrow> string" where
  "label name = ''io.litellm-codex-gateway.'' @ name"

definition str_bool :: "bool \<Rightarrow> string" where
  "str_bool b = (if b then ''True'' else ''False'')"

section \<open>The container of a Sandbox\<close>

definition internal_no_proxy_names :: "ops_cfg \<Rightarrow> string list" where
  "internal_no_proxy_names cfg =
     filter (\<lambda>n. n \<noteq> []) (map strip (split_on CHR '','' (internal_no_proxy cfg)))"

text \<open>A file that the settings name is added under its own path; a later key replaces an earlier one.\<close>

definition mount_file :: "string option \<Rightarrow> string \<Rightarrow> (string \<times> string \<times> mount_mode) list
    \<Rightarrow> (string \<times> string \<times> mount_mode) list" where
  "mount_file file bind vs = (case file of None \<Rightarrow> vs | Some f \<Rightarrow> AList.update f (bind, MountRO) vs)"

definition sandbox_volumes :: "ops_cfg \<Rightarrow> string \<Rightarrow> string \<Rightarrow> (string \<times> string \<times> mount_mode) list" where
  "sandbox_volumes cfg sid volume =
     mount_file (resolv_conf_file cfg) ''/etc/resolv.conf''
       (mount_file (codex_config_file cfg) ''/home/agent/.codex/config.toml''
         (mount_file (codex_auth_file cfg) ''/home/agent/.codex/auth.json''
           (AList.update (runtime_state_volume sid) (''/home/agent/.codex'', MountRW)
              [(volume, (''/workspace'', MountRW))])))"

definition sandbox_environment :: "ops_cfg \<Rightarrow> string \<Rightarrow> (string \<times> string) list" where
  "sandbox_environment cfg key =
     [(''SANDBOX_WORKER_API_KEY'', key), (''SANDBOX_WORKER_HOST'', ''0.0.0.0''),
      (''SANDBOX_WORKER_PORT'', show_int (worker_port cfg)), (''SANDBOX_WORKER_CODEX_COMMAND'', codex_command cfg),
      (''SANDBOX_WORKER_CODEX_WORKDIR'', ''/workspace/work''),
      (''SANDBOX_WORKER_CODEX_MODEL'', (case codex_model cfg of None \<Rightarrow> [] | Some m \<Rightarrow> m)),
      (''SANDBOX_WORKER_MCP_APPS_ENABLED'', lower (str_bool (mcp_apps_enabled cfg))),
      (''HTTP_PROXY'', egress_proxy_url cfg), (''HTTPS_PROXY'', egress_proxy_url cfg),
      (''ALL_PROXY'', egress_proxy_url cfg),
      (''NO_PROXY'', join_with '','' ([''127.0.0.1'', ''localhost''] @ internal_no_proxy_names cfg))]"

definition legacy_workspace_volume :: "string \<Rightarrow> string" where
  "legacy_workspace_volume sid = ''sandbox-workspace-'' @ sid"

definition or_default :: "string option \<Rightarrow> string \<Rightarrow> string" where
  "or_default v fallback = (case v of Some (c # cs) \<Rightarrow> c # cs | _ \<Rightarrow> fallback)"

definition build_container_spec ::
    "ops_cfg \<Rightarrow> string \<Rightarrow> string \<Rightarrow> string \<Rightarrow> string option \<Rightarrow> string option \<Rightarrow> bool \<Rightarrow> int \<Rightarrow> container_spec" where
  "build_container_spec cfg sid host key wid volume recoverable now =
     \<lparr>cs_name = host, cs_hostname = Some host, cs_init = True, cs_command = [],
      cs_runtime = docker_runtime cfg, cs_network = rpc_network cfg,
      cs_environment = sandbox_environment cfg key,
      cs_volumes = sandbox_volumes cfg sid (or_default volume (legacy_workspace_volume sid)),
      cs_labels =
        [(label ''managed'', ''true''), (label ''role'', ''worker''), (label ''sandbox-id'', sid),
         (label ''workspace-id'', or_default wid sid),
         (label ''workspace-kind'', if recoverable then ''recoverable'' else ''ephemeral''),
         (label ''created-at'', show_int now), (label ''worker-host'', host)],
      cs_privileged = False, cs_cap_drop = [''ALL''], cs_cap_add = [],
      cs_security_opt = [''no-new-privileges:true''], cs_read_only = True, cs_user = container_user cfg,
      cs_mem_limit = memory_limit cfg, cs_nano_cpus = nano_cpus cfg, cs_pids_limit = pids_limit cfg,
      cs_tmpfs = [(''/tmp'', ''rw,nosuid,nodev,size='' @ tmpfs_limit cfg), (''/run'', ''rw,nosuid,nodev,size=16m'')]\<rparr>"

section \<open>Credentials of the object store\<close>

record statement =
  st_actions :: "string list"
  st_resources :: "string list"
  st_prefixes :: "string list option"

datatype access_mode = ReadAccess | WriteAccess | DeleteAccess

abbreviation strip_slashes :: "string \<Rightarrow> string" where
  "strip_slashes \<equiv> strip_chars (\<lambda>c. c = CHR ''/'')"

fun object_actions :: "access_mode \<Rightarrow> string list" where
  "object_actions ReadAccess = [''s3:GetObject'']"
| "object_actions WriteAccess = [''s3:GetObject'', ''s3:PutObject'', ''s3:DeleteObject'']"
| "object_actions DeleteAccess = [''s3:DeleteObject'']"

definition bucket_arn :: "string \<Rightarrow> string" where
  "bucket_arn bucket = ''arn:aws:s3:::'' @ bucket"

definition workspace_session_policy :: "string \<Rightarrow> string \<Rightarrow> access_mode \<Rightarrow> statement list" where
  "workspace_session_policy bucket path mode =
     (let normalized = strip_slashes path
      in [\<lparr>st_actions = [''s3:ListBucket''], st_resources = [bucket_arn bucket],
           st_prefixes = Some [normalized, normalized @ ''/*'']\<rparr>,
          \<lparr>st_actions = object_actions mode, st_resources = [bucket_arn bucket @ ''/'' @ normalized @ ''/*''],
           st_prefixes = None\<rparr>])"

definition statement_json :: "statement \<Rightarrow> json" where
  "statement_json st = JObj
     ([(''Effect'', JStr ''Allow''), (''Action'', JList (map JStr (st_actions st))),
       (''Resource'', JList (map JStr (st_resources st)))]
      @ (case st_prefixes st of
           None \<Rightarrow> []
         | Some ps \<Rightarrow> [(''Condition'', JObj [(''StringLike'', JObj [(''s3:prefix'', JList (map JStr ps))])])]))"

definition policy_json :: "statement list \<Rightarrow> json" where
  "policy_json sts = JObj [(''Version'', JStr ''2012-10-17''), (''Statement'', JList (map statement_json sts))]"

record credentials =
  cr_access_key :: string
  cr_secret_key :: string
  cr_session_token :: "string option"

definition repository_prefix :: "ops_cfg \<Rightarrow> workspace_row \<Rightarrow> string" where
  "repository_prefix cfg ws = strip_slashes (workspace_prefix cfg) @ ''/'' @ ws_id ws"

text \<open>
  The policy that \<open>_repository_access\<close> asks the STS endpoint for; the credentials of the answer, or
  the parent credentials without STS, go into the environment.
\<close>

definition requested_policy :: "ops_cfg \<Rightarrow> workspace_row \<Rightarrow> access_mode \<Rightarrow> statement list option" where
  "requested_policy cfg ws mode =
     (if use_sts cfg then Some (workspace_session_policy (workspace_bucket cfg) (repository_prefix cfg ws) mode)
      else None)"

definition session_credentials :: "ops_cfg \<Rightarrow> credentials \<Rightarrow> credentials" where
  "session_credentials cfg granted =
     (if use_sts cfg then granted
      else \<lparr>cr_access_key = parent_access_key cfg, cr_secret_key = parent_secret_key cfg, cr_session_token = None\<rparr>)"

definition repository_environment :: "ops_cfg \<Rightarrow> workspace_row \<Rightarrow> credentials \<Rightarrow> (string \<times> string) list" where
  "repository_environment cfg ws granted =
     (let cr = session_credentials cfg granted
      in [(''AWS_ACCESS_KEY_ID'', cr_access_key cr), (''AWS_SECRET_ACCESS_KEY'', cr_secret_key cr),
          (''AWS_DEFAULT_REGION'', object_store_region cfg),
          (''RESTIC_REPOSITORY'', ''s3:'' @ object_store_endpoint cfg @ ''/'' @ workspace_bucket cfg @ ''/''
             @ repository_prefix cfg ws),
          (''RESTIC_PASSWORD_FILE'', ''/run/secrets/restic-password''),
          (''RESTIC_CACHE_DIR'', ''/tmp/restic-cache'')]
         @ (case cr_session_token cr of None \<Rightarrow> [] | Some t \<Rightarrow> [(''AWS_SESSION_TOKEN'', t)]))"

definition password_mount :: "ops_cfg \<Rightarrow> (string \<times> string \<times> mount_mode) list" where
  "password_mount cfg = [(restic_password_file cfg, (''/run/secrets/restic-password'', MountRO))]"

section \<open>The containers of the storage operations\<close>

datatype runner_op =
    RunCheckpoint
  | RunRestore string
  | RunRetire
  | RunCheckout string string "json list"
  | RunPrepare
  | RunCapture string int
  | RunUpload string string

fun role :: "runner_op \<Rightarrow> string" where
  "role RunCheckpoint = ''workspace-checkpoint''"
| "role (RunRestore revision) = ''workspace-restore''"
| "role RunRetire = ''workspace-retire''"
| "role (RunCheckout user assistant artifacts) = ''artifact-checkout''"
| "role RunPrepare = ''workspace-prepare''"
| "role (RunCapture source max_bytes) = ''artifact-capture''"
| "role (RunUpload url token) = ''artifact-upload''"

definition operation_capabilities :: "string \<Rightarrow> string list" where
  "operation_capabilities r =
     (if r \<in> {''workspace-prepare'', ''artifact-checkout''} then [''CHOWN'', ''FOWNER'']
      else if r \<in> {''artifact-capture'', ''workspace-checkpoint''} then [''DAC_READ_SEARCH'']
      else if r = ''workspace-restore'' then [''CHOWN'', ''DAC_OVERRIDE'', ''FOWNER'']
      else [])"

definition agent_args :: "ops_cfg \<Rightarrow> string list" where
  "agent_args cfg = [''--agent-uid'', show_int (agent_uid cfg), ''--agent-gid'', show_int (agent_gid cfg)]"

fun runner_command :: "grant_env \<Rightarrow> ops_cfg \<Rightarrow> string \<Rightarrow> workspace_row \<Rightarrow> runner_op \<Rightarrow> string list" where
  "runner_command E cfg oid ws RunCheckpoint = [''checkpoint'', ''--workspace-id'', ws_id ws]"
| "runner_command E cfg oid ws (RunRestore revision) = [''restore'', ''--revision'', revision]"
| "runner_command E cfg oid ws RunRetire =
     [''retire'', ''--endpoint'', object_store_endpoint cfg, ''--bucket'', workspace_bucket cfg,
      ''--prefix'', repository_prefix cfg ws]"
| "runner_command E cfg oid ws (RunCheckout user assistant artifacts) =
     [''checkout-batch'', ''--operation-id'', oid, ''--user-message-id'', user,
      ''--assistant-message-id'', assistant, ''--artifacts'', json_dumps E (JList artifacts)] @ agent_args cfg"
| "runner_command E cfg oid ws RunPrepare = ''prepare'' # agent_args cfg"
| "runner_command E cfg oid ws (RunCapture source max_bytes) =
     [''capture'', ''--operation-id'', oid, ''--source'', source, ''--max-bytes'', show_int max_bytes]"
| "runner_command E cfg oid ws (RunUpload url token) =
     [''upload-capture'', ''--operation-id'', oid, ''--url'', url, ''--token'', token]"

fun access_of :: "runner_op \<Rightarrow> access_mode option" where
  "access_of RunCheckpoint = Some WriteAccess"
| "access_of (RunRestore revision) = Some ReadAccess"
| "access_of RunRetire = Some DeleteAccess"
| "access_of _ = None"

fun workspace_mount :: "runner_op \<Rightarrow> (string \<times> mount_mode) option" where
  "workspace_mount RunCheckpoint = Some (''/workspace'', MountRO)"
| "workspace_mount (RunRestore revision) = Some (''/restore'', MountRW)"
| "workspace_mount RunRetire = None"
| "workspace_mount (RunCheckout user assistant artifacts) = Some (''/workspace'', MountRW)"
| "workspace_mount RunPrepare = Some (''/workspace'', MountRW)"
| "workspace_mount (RunCapture source max_bytes) = Some (''/workspace'', MountRO)"
| "workspace_mount (RunUpload url token) = None"

fun runner_environment :: "ops_cfg \<Rightarrow> workspace_row \<Rightarrow> credentials \<Rightarrow> runner_op \<Rightarrow> (string \<times> string) list" where
  "runner_environment cfg ws granted RunCheckpoint = repository_environment cfg ws granted"
| "runner_environment cfg ws granted (RunRestore revision) = repository_environment cfg ws granted"
| "runner_environment cfg ws granted RunRetire =
     filter (\<lambda>(n, v). n \<notin> {''RESTIC_REPOSITORY'', ''RESTIC_PASSWORD_FILE'', ''RESTIC_CACHE_DIR''})
       (repository_environment cfg ws granted)"
| "runner_environment cfg ws granted _ = []"

fun extra_volumes :: "ops_cfg \<Rightarrow> runner_op \<Rightarrow> (string \<times> string \<times> mount_mode) list" where
  "extra_volumes cfg RunCheckpoint = password_mount cfg"
| "extra_volumes cfg (RunRestore revision) = password_mount cfg"
| "extra_volumes cfg (RunCapture source max_bytes) = [(publish_spool_volume cfg, (''/spool'', MountRW))]"
| "extra_volumes cfg (RunUpload url token) = [(publish_spool_volume cfg, (''/spool'', MountRW))]"
| "extra_volumes cfg _ = []"

text \<open>\<open>prepare\<close> runs under an id of its own, made from the Workspace.\<close>

fun runner_operation_id :: "string \<Rightarrow> workspace_row \<Rightarrow> runner_op \<Rightarrow> string" where
  "runner_operation_id oid ws RunPrepare = ''prepare_'' @ removeprefix ''workspace_'' (ws_id ws)"
| "runner_operation_id oid ws _ = oid"

definition operation_spec ::
    "grant_env \<Rightarrow> ops_cfg \<Rightarrow> string \<Rightarrow> workspace_row \<Rightarrow> credentials \<Rightarrow> runner_op \<Rightarrow> container_spec" where
  "operation_spec E cfg oid ws granted rop =
     (let i = runner_operation_id oid ws rop
      in \<lparr>cs_name = role rop @ ''-'' @ take 24 (removeprefix ''operation_'' i), cs_hostname = None, cs_init = False,
          cs_command = runner_command E cfg i ws rop, cs_runtime = operation_runtime cfg,
          cs_network = storage_network cfg, cs_environment = runner_environment cfg ws granted rop,
          cs_volumes = (case workspace_mount rop of
             None \<Rightarrow> extra_volumes cfg rop
           | Some m \<Rightarrow> AList.update (ws_volume ws) m (extra_volumes cfg rop)),
          cs_labels =
            [(label ''managed'', ''true''), (label ''role'', ''operation''), (label ''operation-id'', i),
             (label ''workspace-id'', ws_id ws), (label ''created-at'', show_int (ws_updated ws))],
          cs_privileged = False, cs_cap_drop = [''ALL''], cs_cap_add = operation_capabilities (role rop),
          cs_security_opt = [''no-new-privileges:true''], cs_read_only = True,
          cs_user = operation_container_user cfg, cs_mem_limit = ''512m'', cs_nano_cpus = 1000000000,
          cs_pids_limit = 128, cs_tmpfs = [(''/tmp'', ''rw,nosuid,nodev,size=256m'')]\<rparr>)"

section \<open>Running an operation\<close>

text \<open>What an awaited Docker call ends in; \<open>Cancelled\<close> is a \<open>CancelledError\<close>, no \<open>Exception\<close>.\<close>

datatype 'a answer = Answer 'a | TimedOut | Failing string | Cancelled

record run_script =
  rs_created :: "unit answer"
  rs_started :: "unit answer"
  rs_waited :: "int option answer"
  rs_logs :: "string answer"
  rs_removed :: "unit answer"

datatype docker_call = CreateCall container_spec | StartCall | WaitCall | LogsCall | RemoveCall

datatype run_error = OperationExecutionError string | RunCancelled

text \<open>\<open>str.splitlines()\<close>: every line ends with its separator, of which \<open>\r\n\<close> is one.\<close>

definition is_line_end :: "char \<Rightarrow> bool" where
  "is_line_end c \<longleftrightarrow> (let n = of_char c :: nat in (10 \<le> n \<and> n \<le> 13) \<or> (28 \<le> n \<and> n \<le> 30) \<or> n = 133)"

fun splitlines_acc :: "string \<Rightarrow> string \<Rightarrow> string list" where
  "splitlines_acc cur [] = (if cur = [] then [] else [rev cur])"
| "splitlines_acc cur (c # cs) =
     (if is_line_end c
      then rev cur # splitlines_acc [] (if c = CHR 0x0D \<and> take 1 cs = [CHR 0x0A] then drop 1 cs else cs)
      else splitlines_acc (c # cur) cs)"

definition splitlines :: "string \<Rightarrow> string list" where
  "splitlines s = splitlines_acc [] s"

fun first_object :: "grant_env \<Rightarrow> string list \<Rightarrow> obj option" where
  "first_object E [] = None"
| "first_object E (line # lines) =
     (case json_loads E (utf8 line) of
        Some (JObj v) \<Rightarrow> Some v
      | _ \<Rightarrow> first_object E lines)"

definition last_json_object :: "grant_env \<Rightarrow> string \<Rightarrow> run_error + obj" where
  "last_json_object E out =
     (case first_object E (rev (splitlines out)) of
        Some v \<Rightarrow> Inr v
      | None \<Rightarrow> Inl (OperationExecutionError ''operation did not return a JSON result''))"

text \<open>
  The end of a container: its status code, an integer of Docker's answer or missing, and its output.
\<close>

definition show_status :: "int option \<Rightarrow> string" where
  "show_status status = (case status of None \<Rightarrow> ''None'' | Some n \<Rightarrow> show_int n)"

definition run_outcome :: "grant_env \<Rightarrow> int option \<Rightarrow> string \<Rightarrow> run_error + obj" where
  "run_outcome E status out =
     (let detail = splitlines (strip out)
      in if status \<noteq> Some 0
         then Inl (OperationExecutionError
           (if detail = [] then ''operation exited with '' @ show_status status else take 1000 (last detail)))
         else last_json_object E out)"

fun after :: "'a answer \<Rightarrow> docker_call list \<Rightarrow> ('a \<Rightarrow> (run_error + obj) \<times> docker_call list)
    \<Rightarrow> (run_error + obj) \<times> docker_call list" where
  "after (Answer a) done k = (case k a of (r, calls) \<Rightarrow> (r, done @ calls))"
| "after TimedOut done k = (Inl (OperationExecutionError ''operation timed out''), done)"
| "after (Failing m) done k = (Inl (OperationExecutionError (''operation failed: '' @ m)), done)"
| "after Cancelled done k = (Inl RunCancelled, done)"

text \<open>
  \<open>_run\<close> with the calls it makes. The \<open>finally\<close> block removes the container when there is one, and a
  failing removal is suppressed.
\<close>

definition run_container :: "grant_env \<Rightarrow> run_script \<Rightarrow> (run_error + obj) \<times> docker_call list" where
  "run_container E sc =
     after (rs_started sc) [StartCall] (\<lambda>_.
       after (rs_waited sc) [WaitCall] (\<lambda>status.
         after (rs_logs sc) [LogsCall] (\<lambda>out. (run_outcome E status out, []))))"

definition run_operation :: "grant_env \<Rightarrow> run_script \<Rightarrow> container_spec \<Rightarrow> (run_error + obj) \<times> docker_call list" where
  "run_operation E sc spec =
     after (rs_created sc) [CreateCall spec] (\<lambda>_.
       case run_container E sc of
         (r, calls) \<Rightarrow>
           (case rs_removed sc of Cancelled \<Rightarrow> Inl RunCancelled | _ \<Rightarrow> r, calls @ [RemoveCall]))"

end
