(* ===== verification/Containers_Safety.thy ===== *)
theory Containers_Safety
  imports Containers Manager_Sandboxes Manager_Authorization
begin

text \<open>
  What the containers of the Manager may do: their mounts, capabilities and credentials, the labels
  by which a restarted Manager finds them again, the removal of every operation container, and the
  isolation of the Workspaces in the object store.
\<close>

section \<open>Mounts\<close>

lemma set_update_sub: "set (AList.update k v al) \<subseteq> insert (k, v) (set al)"
  by (induction al) auto

lemma mount_file_writable:
  "(h, b, MountRW) \<in> set (mount_file f bind vs) \<Longrightarrow> (h, b, MountRW) \<in> set vs"
  using set_update_sub by (fastforce simp: mount_file_def split: option.splits)

text \<open>
  C13. The container of a storage operation is unprivileged, read-only and keeps at most four
  capabilities. It sees no volume but the one of its Workspace, the publish spool and the read-only
  password file; only restore, checkout and prepare may write to the Workspace volume. Object-store
  credentials go to checkpoint, restore and retire only, so no container has both a transfer token
  and credentials, and an upload container does not see the Workspace at all.
\<close>

theorem operation_container_confined:
  assumes "spec = operation_spec E cfg oid ws granted rop" and "ws_volume ws \<noteq> publish_spool_volume cfg"
    and "ws_volume ws \<noteq> restic_password_file cfg"
  shows "\<not> cs_privileged spec \<and> cs_read_only spec \<and> cs_cap_drop spec = [''ALL'']
    \<and> set (cs_cap_add spec) \<subseteq> {''CHOWN'', ''FOWNER'', ''DAC_OVERRIDE'', ''DAC_READ_SEARCH''}
    \<and> (\<forall>(host, bind, mode)\<in>set (cs_volumes spec).
        (host = ws_volume ws \<and> workspace_mount rop = Some (bind, mode))
        \<or> (host = publish_spool_volume cfg \<and> bind = ''/spool'')
        \<or> (host = restic_password_file cfg \<and> mode = MountRO))
    \<and> ((\<exists>bind. (ws_volume ws, bind, MountRW) \<in> set (cs_volumes spec)) \<longrightarrow>
        (\<exists>revision user assistant artifacts. rop \<in> {RunRestore revision, RunCheckout user assistant artifacts, RunPrepare}))
    \<and> (cs_environment spec \<noteq> [] \<longrightarrow> access_of rop \<noteq> None)
    \<and> (\<forall>url token. rop = RunUpload url token \<longrightarrow> ws_volume ws \<notin> fst ` set (cs_volumes spec) \<and> cs_environment spec = [])"
  unfolding assms(1) operation_spec_def Let_def using assms(2,3)
  by (cases rop) (auto simp: operation_capabilities_def password_mount_def)

definition sample_ops :: ops_cfg where
  "sample_ops =
     \<lparr>docker_runtime = ''runsc'', rpc_network = ''agent-rpc'', egress_proxy_url = ''http://egress-proxy:3128'',
      internal_no_proxy = ''adapter, ,manager'', worker_port = 8091, codex_command = ''codex app-server --stdio'',
      codex_model = None, mcp_apps_enabled = True, codex_auth_file = Some ''/etc/codex/auth.json'',
      codex_config_file = None, resolv_conf_file = None, container_user = ''10001:10001'', memory_limit = ''4g'',
      nano_cpus = 2000000000, pids_limit = 512, tmpfs_limit = ''256m'', operation_runtime = ''runc'',
      storage_network = ''agent-storage'', operation_container_user = ''0:0'',
      publish_spool_volume = ''agent-publish-spool'', agent_uid = 10001, agent_gid = 10001,
      object_store_endpoint = ''http://rustfs:9000'', object_store_region = ''us-east-1'', use_sts = True,
      parent_access_key = ''parent'', parent_secret_key = ''parent-secret'', workspace_bucket = ''agent'',
      workspace_prefix = ''/repositories/'', restic_password_file = ''/run/restic-password''\<rparr>"

definition sample_credentials :: credentials where
  "sample_credentials = \<lparr>cr_access_key = ''k'', cr_secret_key = ''s'', cr_session_token = Some ''t''\<rparr>"

lemma operation_container_confined_witness:
  "cs_environment (operation_spec sample_env sample_ops ''operation_1'' (new_workspace ''w'' Recoverable ''v'' 1)
       sample_credentials (RunCapture ''outputs/m/a'' 10)) = []
   \<and> \<not> cs_privileged (operation_spec sample_env sample_ops ''operation_1'' (new_workspace ''w'' Recoverable ''v'' 1)
       sample_credentials (RunCapture ''outputs/m/a'' 10))"
  using operation_container_confined [OF refl, of "new_workspace ''w'' Recoverable ''v'' 1" sample_ops sample_env
      "''operation_1''" sample_credentials "RunCapture ''outputs/m/a'' 10"]
  by (simp add: sample_ops_def new_workspace_def operation_spec_def)

section \<open>Sandbox containers and their labels\<close>

text \<open>What \<open>_reconcile_managed_containers\<close> reads from the labels of a container.\<close>

definition container_of_labels :: "(string \<times> string) list \<Rightarrow> docker_container" where
  "container_of_labels labels =
     \<lparr>dc_role = map_of labels (label ''role''), dc_sandbox = map_of labels (label ''sandbox-id''),
      dc_workspace = map_of labels (label ''workspace-id''), dc_kind = map_of labels (label ''workspace-kind''),
      dc_operation = map_of labels (label ''operation-id'')\<rparr>"

lemma label_inj [simp]: "label a = label b \<longleftrightarrow> a = b"
  by (simp add: label_def)

lemma sandbox_mounts:
  "{h. \<exists>b. (h, b, MountRW) \<in> set (sandbox_volumes cfg sid vol)} \<subseteq> {vol, runtime_state_volume sid}"
proof
  fix h assume "h \<in> {h. \<exists>b. (h, b, MountRW) \<in> set (sandbox_volumes cfg sid vol)}"
  then obtain b where "(h, b, MountRW) \<in> set (AList.update (runtime_state_volume sid) (''/home/agent/.codex'', MountRW)
      [(vol, (''/workspace'', MountRW))])"
    unfolding sandbox_volumes_def by (auto dest!: mount_file_writable)
  then show "h \<in> {vol, runtime_state_volume sid}" by (auto split: if_splits)
qed

lemma sandbox_variables:
  "list_all (\<lambda>(n, x). \<not> starts_with ''AWS_'' n \<and> \<not> starts_with ''RESTIC_'' n) (sandbox_environment cfg key)"
  "list_all (\<lambda>n. map_of (sandbox_environment cfg key) n = Some (egress_proxy_url cfg)) [''HTTP_PROXY'', ''HTTPS_PROXY'', ''ALL_PROXY'']"
  by (simp_all add: sandbox_environment_def starts_with_def)

lemma worker_labels:
  "container_of_labels (cs_labels (build_container_spec cfg sid host key (Some (c # wid)) vol recoverable now)) =
     \<lparr>dc_role = Some ''worker'', dc_sandbox = Some sid, dc_workspace = Some (c # wid),
      dc_kind = Some (if recoverable then ''recoverable'' else ''ephemeral''), dc_operation = None\<rparr>"
  by (simp add: build_container_spec_def container_of_labels_def or_default_def)

lemma operation_labels:
  "dc_role (container_of_labels (cs_labels (operation_spec E cfg oid ws granted rop))) = Some ''operation''"
  "dc_operation (container_of_labels (cs_labels (operation_spec E cfg oid ws granted rop))) =
     Some (runner_operation_id oid ws rop)"
  by (simp_all add: operation_spec_def container_of_labels_def Let_def)

text \<open>
  C14. The container of a Sandbox is unprivileged and read-only apart from its Workspace volume and
  its own runtime volume, has no object-store variable in its environment, and reaches the network
  through the egress proxy only; and the labels it gets are the ones by which a restarted Manager
  recognises it, so that the reconciliation reads back the Sandbox, the Workspace and its kind. An
  operation container is read back as one, with its operation.
\<close>

theorem sandbox_container_confined:
  "let spec = build_container_spec cfg sid host key (Some (c # wid)) (Some (v # vol)) recoverable now
   in \<not> cs_privileged spec \<and> cs_read_only spec \<and> cs_cap_drop spec = [''ALL''] \<and> cs_cap_add spec = []
    \<and> {h. \<exists>b. (h, b, MountRW) \<in> set (cs_volumes spec)} \<subseteq> {v # vol, runtime_state_volume sid}
    \<and> list_all (\<lambda>(n, x). \<not> starts_with ''AWS_'' n \<and> \<not> starts_with ''RESTIC_'' n) (cs_environment spec)
    \<and> list_all (\<lambda>n. map_of (cs_environment spec) n = Some (egress_proxy_url cfg)) [''HTTP_PROXY'', ''HTTPS_PROXY'', ''ALL_PROXY'']
    \<and> container_of_labels (cs_labels spec) =
        \<lparr>dc_role = Some ''worker'', dc_sandbox = Some sid, dc_workspace = Some (c # wid),
         dc_kind = Some (if recoverable then ''recoverable'' else ''ephemeral''), dc_operation = None\<rparr>
    \<and> dc_role (container_of_labels (cs_labels (operation_spec E cfg oid ws granted rop))) = Some ''operation''
    \<and> dc_operation (container_of_labels (cs_labels (operation_spec E cfg oid ws granted rop))) =
        Some (runner_operation_id oid ws rop)"
  unfolding Let_def worker_labels operation_labels
  by (intro conjI refl) (simp_all only: build_container_spec_def container_spec.select_convs or_default_def
      option.case list.case sandbox_mounts sandbox_variables not_False_eq_True)

section \<open>Operation containers do not stay behind\<close>

lemma after_calls:
  "after a done k = (r, calls) \<Longrightarrow>
     (\<exists>x rest. a = Answer x \<and> k x = (r, rest) \<and> calls = done @ rest) \<or> (\<not> (\<exists>x. a = Answer x) \<and> calls = done \<and> isl r)"
  by (cases a) (auto split: prod.splits)

lemma first_object_Some:
  "first_object E lines = Some v \<Longrightarrow> \<exists>pre line post. lines = pre @ line # post \<and> json_loads E (utf8 line) = Some (JObj v)
     \<and> (\<forall>l\<in>set pre. \<not> (\<exists>w. json_loads E (utf8 l) = Some (JObj w)))"
proof (induction lines)
  case (Cons line lines)
  show ?case
  proof (cases "\<exists>w. json_loads E (utf8 line) = Some (JObj w)")
    case True
    then have "json_loads E (utf8 line) = Some (JObj v)" using Cons.prems by auto
    then show ?thesis by (intro exI [of _ "[]"] exI [of _ line] exI [of _ lines]) simp
  next
    case False
    then have "first_object E lines = Some v" using Cons.prems by (auto split: option.splits json.splits)
    then obtain pre l post where "lines = pre @ l # post" "json_loads E (utf8 l) = Some (JObj v)"
        "\<forall>l\<in>set pre. \<not> (\<exists>w. json_loads E (utf8 l) = Some (JObj w))"
      using Cons.IH by blast
    then show ?thesis using False by (intro exI [of _ "line # pre"] exI [of _ l] exI [of _ post]) auto
  qed
qed simp

lemma last_json_object_Inr:
  assumes "last_json_object E out = Inr v"
  shows "\<exists>pre line post. splitlines out = pre @ line # post \<and> json_loads E (utf8 line) = Some (JObj v)
     \<and> (\<forall>l\<in>set post. \<not> (\<exists>w. json_loads E (utf8 l) = Some (JObj w)))"
proof -
  have "first_object E (rev (splitlines out)) = Some v" using assms by (auto simp: last_json_object_def split: option.splits)
  then obtain pre line post where "rev (splitlines out) = pre @ line # post" "json_loads E (utf8 line) = Some (JObj v)"
      "\<forall>l\<in>set pre. \<not> (\<exists>w. json_loads E (utf8 l) = Some (JObj w))"
    using first_object_Some by blast
  then show ?thesis by (intro exI [of _ "rev post"] exI [of _ line] exI [of _ "rev pre"]) (simp add: rev_swap)
qed

lemma run_container_result:
  "run_container E sc = (r, calls) \<Longrightarrow> RemoveCall \<notin> set calls \<and> (\<forall>spec. CreateCall spec \<notin> set calls)
     \<and> (\<forall>v. r = Inr v \<longrightarrow> (\<exists>out. rs_waited sc = Answer (Some 0) \<and> rs_logs sc = Answer out \<and> last_json_object E out = Inr v))"
  unfolding run_container_def
  by (cases "rs_started sc"; cases "rs_waited sc"; cases "rs_logs sc")
    (auto simp: run_outcome_def Let_def split: if_splits)

text \<open>
  C15. No operation container stays behind: however the calls to Docker end, also when the task is
  cancelled, a container that was created is removed exactly once, by the last call. The operation
  has a result only if the container ended with status 0, and then the result is the last line of
  its output that is a JSON object.
\<close>

theorem operation_container_removed:
  assumes "run_operation E sc spec = (r, calls)"
  shows "(if rs_created sc = Answer ()
       then \<exists>mid. calls = CreateCall spec # mid @ [RemoveCall] \<and> RemoveCall \<notin> set mid \<and> (\<forall>x. CreateCall x \<notin> set mid)
       else calls = [CreateCall spec] \<and> isl r)
    \<and> (\<forall>v. r = Inr v \<longrightarrow> rs_waited sc = Answer (Some 0)
        \<and> (\<exists>out pre line post. rs_logs sc = Answer out \<and> splitlines out = pre @ line # post
            \<and> json_loads E (utf8 line) = Some (JObj v) \<and> (\<forall>l\<in>set post. \<not> (\<exists>w. json_loads E (utf8 l) = Some (JObj w)))))"
proof (cases "rs_created sc = Answer ()")
  case True
  obtain r1 mid where run: "run_container E sc = (r1, mid)" by fastforce
  then have res: "r = (case rs_removed sc of Cancelled \<Rightarrow> Inl RunCancelled | _ \<Rightarrow> r1)"
      "calls = CreateCall spec # mid @ [RemoveCall]"
    using assms True by (auto simp: run_operation_def)
  have mid: "RemoveCall \<notin> set mid" "\<forall>x. CreateCall x \<notin> set mid" using run_container_result [OF run] by blast+
  have "rs_waited sc = Answer (Some 0) \<and> (\<exists>out pre line post. rs_logs sc = Answer out \<and> splitlines out = pre @ line # post
      \<and> json_loads E (utf8 line) = Some (JObj v) \<and> (\<forall>l\<in>set post. \<not> (\<exists>w. json_loads E (utf8 l) = Some (JObj w))))"
    if "r = Inr v" for v
  proof -
    have "r1 = Inr v" using res(1) that by (cases "rs_removed sc") auto
    then obtain out where out: "rs_waited sc = Answer (Some 0)" "rs_logs sc = Answer out" "last_json_object E out = Inr v"
      using run_container_result [OF run] by blast
    then show ?thesis using last_json_object_Inr [OF out(3)] by blast
  qed
  then show ?thesis using True res(2) mid by auto
next
  case False
  then show ?thesis using assms by (cases "rs_created sc") (auto simp: run_operation_def)
qed

definition sample_script :: run_script where
  "sample_script = \<lparr>rs_created = Answer (), rs_started = Answer (), rs_waited = Cancelled, rs_logs = TimedOut,
     rs_removed = Failing ''gone''\<rparr>"

definition sample_spec :: container_spec where
  "sample_spec =
     operation_spec sample_env sample_ops ''operation_1'' (new_workspace ''w'' Recoverable ''v'' 1) sample_credentials RunPrepare"

lemma operation_container_removed_witness:
  "\<exists>mid. snd (run_operation sample_env sample_script sample_spec) = CreateCall sample_spec # mid @ [RemoveCall]
     \<and> fst (run_operation sample_env sample_script sample_spec) = Inl RunCancelled"
proof -
  let ?run = "run_operation sample_env sample_script sample_spec"
  have "rs_created sample_script = Answer ()" by (simp add: sample_script_def)
  then obtain mid where "snd ?run = CreateCall sample_spec # mid @ [RemoveCall]"
    using operation_container_removed [of sample_env sample_script sample_spec "fst ?run" "snd ?run"] by auto
  moreover have "fst ?run = Inl RunCancelled" by (simp add: run_operation_def run_container_def sample_script_def)
  ultimately show ?thesis by blast
qed

section \<open>Isolation of the Workspaces in the object store\<close>

text \<open>
  How the object store reads a policy: \<open>matches\<close> compares a pattern with a value. Documented is that a
  pattern without wildcards matches itself only, and one that ends in its only wildcard \<open>*\<close> matches
  what begins with the rest.
\<close>

definition plain :: "string \<Rightarrow> bool" where
  "plain p \<longleftrightarrow> CHR ''*'' \<notin> set p \<and> CHR ''?'' \<notin> set p \<and> CHR ''$'' \<notin> set p"

definition reads_patterns :: "(string \<Rightarrow> string \<Rightarrow> bool) \<Rightarrow> bool" where
  "reads_patterns matches \<longleftrightarrow>
     (\<forall>p s. plain p \<longrightarrow> (matches p s \<longleftrightarrow> s = p) \<and> (matches (p @ ''*'') s \<longleftrightarrow> starts_with p s))"

definition policy_allows ::
    "(string \<Rightarrow> string \<Rightarrow> bool) \<Rightarrow> statement list \<Rightarrow> string \<Rightarrow> string \<Rightarrow> string \<Rightarrow> bool" where
  "policy_allows matches policy action resource listed \<longleftrightarrow>
     list_ex (\<lambda>st. action \<in> set (st_actions st) \<and> list_ex (\<lambda>p. matches p resource) (st_resources st)
       \<and> (case st_prefixes st of None \<Rightarrow> True | Some ps \<Rightarrow> list_ex (\<lambda>p. matches p listed) ps)) policy"

lemma lstrip_plain: "plain s \<Longrightarrow> plain (lstrip q s)" and rstrip_plain: "plain s \<Longrightarrow> plain (rstrip q s)"
  using lstrip_set rstrip_set unfolding plain_def by fast+

lemma plain_append [simp]: "plain (a @ b) \<longleftrightarrow> plain a \<and> plain b"
  by (auto simp: plain_def)

lemma plain_Cons [simp]: "plain (c # s) \<longleftrightarrow> c \<noteq> CHR ''*'' \<and> c \<noteq> CHR ''?'' \<and> c \<noteq> CHR ''$'' \<and> plain s"
  by (auto simp: plain_def)

lemma plain_Nil [simp]: "plain []"
  by (simp add: plain_def)

lemma plain_slash [simp]: "plain ''/''" and plain_arn [simp]: "plain ''arn:aws:s3:::''"
  by (simp_all add: plain_def)

lemma rstrip_id: "s \<noteq> [] \<Longrightarrow> \<not> q (last s) \<Longrightarrow> rstrip q s = s"
  by (cases s rule: rev_cases) (simp_all add: rstrip_def)

lemma lstrip_app: "\<exists>x\<in>set s. \<not> q x \<Longrightarrow> lstrip q (s @ t) = lstrip q s @ t"
  unfolding lstrip_def by (induction s) auto

lemma lstrip_all: "\<forall>x\<in>set s. q x \<Longrightarrow> lstrip q (s @ t) = lstrip q t"
  unfolding lstrip_def by (induction s) auto

text \<open>The normalized prefix of a Workspace: the stripped setting, a slash and the id, or the id alone.\<close>

lemma repository_prefix_normal:
  assumes "ws_id ws \<noteq> []" and "CHR ''/'' \<notin> set (ws_id ws)"
  shows "strip_slashes (repository_prefix cfg ws) =
    (if strip_slashes (workspace_prefix cfg) = [] then [] else strip_slashes (workspace_prefix cfg) @ ''/'') @ ws_id ws"
proof -
  let ?p = "strip_slashes (workspace_prefix cfg)"
  have w: "lstrip (\<lambda>c. c = CHR ''/'') (ws_id ws) = ws_id ws"
    using assms by (cases "ws_id ws") (auto simp: lstrip_def)
  have r: "rstrip (\<lambda>c. c = CHR ''/'') (x @ ws_id ws) = x @ ws_id ws" for x
    using assms by (intro rstrip_id) (auto dest: last_in_set)
  have p: "lstrip (\<lambda>c. c = CHR ''/'') ?p = ?p"
  proof -
    let ?l = "lstrip (\<lambda>c. c = CHR ''/'') (workspace_prefix cfg)"
    have hd: "?l = [] \<or> hd ?l \<noteq> CHR ''/''" using hd_dropWhile unfolding lstrip_def by blast
    obtain t where t: "?l = ?p @ t" using rstrip_prefix [of ?l "\<lambda>c. c = CHR ''/''"] by (auto simp: strip_chars_def)
    show ?thesis
    proof (cases ?p)
      case (Cons c cs)
      then have "c \<noteq> CHR ''/''" using hd t by simp
      then show ?thesis using Cons by (simp add: lstrip_def)
    qed (simp add: lstrip_def)
  qed
  show ?thesis
  proof (cases ?p)
    case Nil
    then show ?thesis using w r [of "[]"] by (simp add: repository_prefix_def strip_chars_def lstrip_def)
  next
    case (Cons c cs)
    have "dropWhile (\<lambda>c. c = CHR ''/'') ?p = ?p" using p by (simp add: lstrip_def)
    then have "hd ?p \<noteq> CHR ''/''" using Cons hd_dropWhile [of "\<lambda>c. c = CHR ''/''" ?p] by simp
    then have "c \<noteq> CHR ''/''" using Cons by simp
    then have "lstrip (\<lambda>c. c = CHR ''/'') (?p @ ''/'' @ ws_id ws) = ?p @ ''/'' @ ws_id ws" using Cons by (simp add: lstrip_def)
    then show ?thesis using Cons r [of "?p @ ''/''"] by (simp add: repository_prefix_def strip_chars_def [of _ "c # _"])
  qed
qed

lemma prefix_conflict:
  assumes "starts_with (p @ a @ ''/'') key" and "starts_with (p @ b @ ''/'') key"
    and "CHR ''/'' \<notin> set a" and "CHR ''/'' \<notin> set b"
  shows "a = b"
proof -
  obtain r where r: "key = (p @ a @ ''/'') @ r" using assms(1) unfolding starts_with_iff by blast
  obtain t where t: "key = (p @ b @ ''/'') @ t" using assms(2) unfolding starts_with_iff by blast
  from r t have "takeWhile (\<lambda>c. c \<noteq> CHR ''/'') (a @ ''/'' @ r) = takeWhile (\<lambda>c. c \<noteq> CHR ''/'') (b @ ''/'' @ t)" by simp
  moreover have "takeWhile (\<lambda>c. c \<noteq> CHR ''/'') (a @ ''/'' @ r) = a" "takeWhile (\<lambda>c. c \<noteq> CHR ''/'') (b @ ''/'' @ t) = b"
    using assms(3,4) by (auto simp: takeWhile_append)
  ultimately show ?thesis by simp
qed

definition workspace_key :: "ops_cfg \<Rightarrow> workspace_row \<Rightarrow> string \<Rightarrow> bool" where
  "workspace_key cfg ws key \<longleftrightarrow> starts_with (strip_slashes (repository_prefix cfg ws) @ ''/'') key"

text \<open>
  C16. The credentials that an operation asks for reach one Workspace only: they allow an action on
  an object only if the object is in the bucket below the Workspace's own prefix and the action is one
  of the access mode, so a restore cannot write or delete; no object of another Workspace is ever
  allowed. A listing must ask for that prefix or for something below it.
\<close>

theorem workspace_policy_isolated:
  assumes "reads_patterns matches" and "plain (workspace_bucket cfg)" and "plain (workspace_prefix cfg)"
    and "plain (ws_id ws)" and "CHR ''/'' \<notin> set (ws_id ws)" and "ws_id ws \<noteq> []"
    and "requested_policy cfg ws mode = Some policy"
  shows "(policy_allows matches policy action (bucket_arn (workspace_bucket cfg) @ ''/'' @ key) listed \<longrightarrow>
        workspace_key cfg ws key \<and> action \<in> set (object_actions mode)
        \<and> (\<forall>ws'. ws_id ws' \<noteq> ws_id ws \<and> ws_id ws' \<noteq> [] \<and> CHR ''/'' \<notin> set (ws_id ws') \<longrightarrow> \<not> workspace_key cfg ws' key))
    \<and> (policy_allows matches policy ''s3:ListBucket'' (bucket_arn (workspace_bucket cfg)) listed \<longrightarrow>
        listed = strip_slashes (repository_prefix cfg ws) \<or> workspace_key cfg ws listed)"
proof -
  let ?b = "workspace_bucket cfg" and ?n = "strip_slashes (repository_prefix cfg ws)"
  define base where "base = (if strip_slashes (workspace_prefix cfg) = [] then [] else strip_slashes (workspace_prefix cfg) @ ''/'')"
  have norm: "strip_slashes (repository_prefix cfg w) = base @ ws_id w" if "ws_id w \<noteq> []" "CHR ''/'' \<notin> set (ws_id w)" for w
    unfolding base_def by (rule repository_prefix_normal [OF that])
  have "plain (strip_slashes (workspace_prefix cfg))" using assms(3) by (simp add: strip_chars_def lstrip_plain rstrip_plain)
  then have "plain base" by (simp add: base_def plain_def)
  then have n: "plain ?n" using assms(4) by (simp add: norm [OF assms(6,5)])
  have literal: "plain p \<Longrightarrow> matches p s \<longleftrightarrow> s = p" and star: "plain p \<Longrightarrow> matches (p @ ''*'') s \<longleftrightarrow> starts_with p s" for p s
    using assms(1) by (auto simp: reads_patterns_def)
  have arn: "plain (bucket_arn ?b)" using assms(2) by (simp add: bucket_arn_def plain_def)
  have objects: "matches (bucket_arn ?b @ ''/'' @ ?n @ ''/*'') (bucket_arn ?b @ ''/'' @ key) \<longleftrightarrow> workspace_key cfg ws key"
    using star [of "bucket_arn ?b @ ''/'' @ ?n @ ''/''" "bucket_arn ?b @ ''/'' @ key"] arn n
    by (simp add: workspace_key_def starts_with_iff)
  have pol: "policy = workspace_session_policy ?b (repository_prefix cfg ws) mode"
    using assms(7) by (simp add: requested_policy_def split: if_splits)
  have other: "\<not> workspace_key cfg ws' key"
    if "workspace_key cfg ws key" "ws_id ws' \<noteq> ws_id ws" "ws_id ws' \<noteq> []" "CHR ''/'' \<notin> set (ws_id ws')" for ws'
    using prefix_conflict [of base "ws_id ws" key "ws_id ws'"] that assms(5) norm [OF assms(6,5)] norm [OF that(3,4)]
    by (auto simp: workspace_key_def)
  have list_match: "matches ?n listed \<or> matches (?n @ ''/*'') listed \<Longrightarrow> listed = ?n \<or> workspace_key cfg ws listed"
    using literal [OF n, of listed] star [of "?n @ ''/''" listed] n by (auto simp: workspace_key_def)
  have no_arn: "\<not> matches (bucket_arn ?b) (bucket_arn ?b @ ''/'' @ key)" using literal [OF arn] by simp
  show ?thesis
    using objects other list_match no_arn unfolding pol workspace_session_policy_def Let_def policy_allows_def
    by (cases mode) auto
qed

text \<open>A reading of patterns of the documented kind: exact, or a prefix before a final star.\<close>

definition simple_match :: "string \<Rightarrow> string \<Rightarrow> bool" where
  "simple_match p s \<longleftrightarrow> (if p \<noteq> [] \<and> last p = CHR ''*'' then starts_with (butlast p) s else s = p)"

lemma workspace_policy_isolated_witness:
  "reads_patterns simple_match
   \<and> workspace_key sample_ops (new_workspace ''w1'' Recoverable ''v'' 1) ''repositories/w1/data/x''
   \<and> \<not> policy_allows simple_match (workspace_session_policy ''agent'' ''repositories/w1'' ReadAccess)
        ''s3:GetObject'' (bucket_arn ''agent'' @ ''/'' @ ''repositories/w2/data/x'') []"
proof -
  have m: "reads_patterns simple_match"
    by (auto simp: reads_patterns_def simple_match_def plain_def dest: last_in_set)
  let ?w = "new_workspace ''w1'' Recoverable ''v'' 1"
  have "requested_policy sample_ops ?w ReadAccess = Some (workspace_session_policy ''agent'' ''repositories/w1'' ReadAccess)"
    by code_simp
  moreover have "\<not> workspace_key sample_ops ?w ''repositories/w2/data/x''" by code_simp
  moreover have "workspace_key sample_ops ?w ''repositories/w1/data/x''" by code_simp
  moreover have "workspace_bucket sample_ops = ''agent''" by (simp add: sample_ops_def)
  moreover have "plain (workspace_prefix sample_ops)" "plain (ws_id ?w)" "plain ''agent''" "CHR ''/'' \<notin> set (ws_id ?w)" "ws_id ?w \<noteq> []"
    by code_simp+
  ultimately show ?thesis using workspace_policy_isolated [OF m, of sample_ops ?w ReadAccess] m by metis
qed

end
