(* ===== verification/Artifact_Store.thy ===== *)
theory Artifact_Store
  imports Grants
begin

text \<open>
  The Artifact store, \<open>src/src/artifact_service/store.py\<close>: the commit protocol of \<open>S3ArtifactStore\<close>
  over an S3 bucket.

  A coroutine of the service is a \<open>task\<close>: it is done, or it waits for one call to S3. The call acts on
  the bucket and answers in one step; between two calls any other coroutine may act. A call can fail
  without effect (\<open>Refused\<close>, a \<open>ClientError\<close>) or after it took effect (\<open>Lost\<close>). The parts of a
  multipart upload become visible when the upload is completed. A manifest is stored as its
  descriptor, since \<open>model_dump_json\<close> and \<open>model_validate_json\<close> of pydantic are inverse to each other.
\<close>

section \<open>Data\<close>

record store_cfg =
  s3_prefix :: string
  sha256_bytes :: "bytes \<Rightarrow> string"

record descriptor =
  ad_artifact :: string
  ad_owner :: string
  ad_filename :: string
  ad_media :: string
  ad_size :: int
  ad_sha256 :: string
  ad_created :: int

datatype s3_object = ManifestObject descriptor | BytesObject bytes

type_synonym bucket = "string \<rightharpoonup> s3_object"

datatype art_error =
    ArtifactNotFound string
  | ArtifactConflict string
  | ArtifactInvalid string
  | StorageFailed
  | BodyFailed

datatype s3_answer = Served | Refused | Lost

text \<open>
  What an answer carries: the clock after it, whether a field that the code checks is present
  (\<open>UploadId\<close>, \<open>ETag\<close>, no \<open>Errors\<close>), and the keys that a rejected deletion removed all the same.
\<close>

record s3_env =
  sa_answer :: s3_answer
  sa_now :: int
  sa_valid :: bool
  sa_gone :: "string list"

datatype 'r task = Done 'r | Call "s3_env \<Rightarrow> bucket \<Rightarrow> bucket \<times> 'r task"

definition store_key :: "store_cfg \<Rightarrow> string \<Rightarrow> string" where
  "store_key cfg path = s3_prefix cfg @ ''/'' @ path"

definition manifest_key :: "store_cfg \<Rightarrow> string \<Rightarrow> string" where
  "manifest_key cfg aid = store_key cfg (''manifests/'' @ aid @ ''.json'')"

definition content_key :: "store_cfg \<Rightarrow> string \<Rightarrow> string \<Rightarrow> string" where
  "content_key cfg aid sha = store_key cfg (''content/'' @ aid @ ''/'' @ sha)"

definition staging_key :: "store_cfg \<Rightarrow> string \<Rightarrow> string \<Rightarrow> string" where
  "staging_key cfg aid uid = store_key cfg (''staging/'' @ aid @ ''/'' @ uid)"

definition match_existing :: "descriptor \<Rightarrow> string \<Rightarrow> string \<Rightarrow> string \<Rightarrow> string option \<Rightarrow> art_error + unit" where
  "match_existing d owner filename media expected =
     require (ad_owner d = owner \<and> ad_filename d = filename \<and> ad_media d = media
         \<and> (case expected of None \<Rightarrow> True | Some sha \<Rightarrow> ad_sha256 d = sha))
       (ArtifactConflict ''Artifact id is already committed with different metadata'') (Inr ())"

section \<open>Streaming the body into parts\<close>

definition part_size :: nat where
  "part_size = 8 * 1024 * 1024"

text \<open>The inner \<open>while\<close> loop: full parts leave the front of the buffer.\<close>

function take_parts :: "nat \<Rightarrow> bytes \<Rightarrow> bytes list \<times> bytes" where
  "take_parts n buf =
     (if 0 < n \<and> n \<le> length buf
      then (case take_parts n (drop n buf) of (parts, rest) \<Rightarrow> (take n buf # parts, rest))
      else ([], buf))"
  by pat_completeness auto
termination by (relation "measure (\<lambda>(n, buf). length buf)") auto

declare take_parts.simps [simp del]

text \<open>
  The \<open>async for\<close> loop over the chunks of the body: the parts that become full, in order, and how the
  loop ends, with the limit error or with the rest of the buffer and the size.
\<close>

fun stream_body :: "nat \<Rightarrow> int \<Rightarrow> bytes list \<Rightarrow> bytes \<Rightarrow> int \<Rightarrow> bytes list \<times> (art_error + bytes \<times> int)" where
  "stream_body n limit [] buf received = ([], Inr (buf, received))"
| "stream_body n limit (chunk # chunks) buf received =
     (if chunk = [] then stream_body n limit chunks buf received
      else if received + int (length chunk) > limit
      then ([], Inl (ArtifactInvalid ''Artifact exceeds the upload limit''))
      else (case take_parts n (buf @ chunk) of
          (parts, rest) \<Rightarrow>
            (case stream_body n limit chunks rest (received + int (length chunk)) of
               (later, r) \<Rightarrow> (parts @ later, r))))"

section \<open>Reading\<close>

definition inspect_then :: "store_cfg \<Rightarrow> string \<Rightarrow> (art_error + descriptor \<Rightarrow> 'r task) \<Rightarrow> 'r task" where
  "inspect_then cfg aid k = Call (\<lambda>e b.
     (b, case sa_answer e of
           Served \<Rightarrow>
             (case b (manifest_key cfg aid) of
                None \<Rightarrow> k (Inl (ArtifactNotFound aid))
              | Some (ManifestObject d) \<Rightarrow> k (Inr d)
              | Some (BytesObject raw) \<Rightarrow> k (Inl (ArtifactConflict ''Artifact manifest is invalid'')))
         | _ \<Rightarrow> k (Inl StorageFailed)))"

definition inspect :: "store_cfg \<Rightarrow> string \<Rightarrow> (art_error + descriptor) task" where
  "inspect cfg aid = inspect_then cfg aid Done"

definition open_download :: "store_cfg \<Rightarrow> string \<Rightarrow> (art_error + descriptor \<times> bytes) task" where
  "open_download cfg aid = inspect_then cfg aid (\<lambda>r.
     case r of
       Inl x \<Rightarrow> Done (Inl x)
     | Inr d \<Rightarrow> Call (\<lambda>e b.
         (b, case sa_answer e of
               Served \<Rightarrow>
                 (case b (content_key cfg aid (ad_sha256 d)) of
                    Some (BytesObject raw) \<Rightarrow> Done (Inr (d, raw))
                  | _ \<Rightarrow> Done (Inl (ArtifactConflict ''Committed Artifact content is missing'')))
             | Refused \<Rightarrow> Done (Inl (ArtifactConflict ''Committed Artifact content is missing''))
             | Lost \<Rightarrow> Done (Inl StorageFailed))))"

section \<open>Committing\<close>

text \<open>A suppressed deletion of one key.\<close>

definition discard_key :: "string \<Rightarrow> 'r task \<Rightarrow> 'r task" where
  "discard_key key k = Call (\<lambda>e b. (case sa_answer e of Refused \<Rightarrow> b | _ \<Rightarrow> b(key := None), k))"

definition match_descriptor :: "descriptor \<Rightarrow> descriptor \<Rightarrow> art_error + unit" where
  "match_descriptor existing d =
     match_existing existing (ad_owner d) (ad_filename d) (ad_media d) (Some (ad_sha256 d))"

text \<open>Another upload committed first: its descriptor counts when it describes the same Artifact.\<close>

definition commit_conflict :: "store_cfg \<Rightarrow> descriptor \<Rightarrow> (art_error + descriptor \<Rightarrow> 'r task) \<Rightarrow> 'r task" where
  "commit_conflict cfg d k = inspect_then cfg (ad_artifact d) (\<lambda>r.
     case r of
       Inl x \<Rightarrow> k (Inl x)
     | Inr existing \<Rightarrow>
         (case match_descriptor existing d of
            Inr _ \<Rightarrow> k (Inr existing)
          | Inl x \<Rightarrow>
              if ad_sha256 existing \<noteq> ad_sha256 d
              then discard_key (content_key cfg (ad_artifact d) (ad_sha256 d)) (k (Inl x))
              else k (Inl x)))"

definition commit_manifest :: "store_cfg \<Rightarrow> descriptor \<Rightarrow> (art_error + descriptor \<Rightarrow> 'r task) \<Rightarrow> 'r task" where
  "commit_manifest cfg d k = Call (\<lambda>e b.
     let key = manifest_key cfg (ad_artifact d)
     in case sa_answer e of
          Served \<Rightarrow>
            if b key = None then (b(key := Some (ManifestObject d)), k (Inr d))
            else (b, commit_conflict cfg d k)
        | Refused \<Rightarrow> (b, k (Inl StorageFailed))
        | Lost \<Rightarrow> (if b key = None then b(key := Some (ManifestObject d)) else b, k (Inl StorageFailed)))"

definition commit_copy :: "store_cfg \<Rightarrow> string \<Rightarrow> descriptor \<Rightarrow> (art_error + descriptor \<Rightarrow> 'r task) \<Rightarrow> 'r task" where
  "commit_copy cfg staging d k = Call (\<lambda>e b.
     case b staging of
       Some (BytesObject raw) \<Rightarrow>
         (let copied = b(content_key cfg (ad_artifact d) (ad_sha256 d) := Some (BytesObject raw))
          in case sa_answer e of
               Served \<Rightarrow> (copied, commit_manifest cfg d k)
             | Refused \<Rightarrow> (b, k (Inl StorageFailed))
             | Lost \<Rightarrow> (copied, k (Inl StorageFailed)))
     | _ \<Rightarrow> (b, k (Inl StorageFailed)))"

definition commit :: "store_cfg \<Rightarrow> string \<Rightarrow> descriptor \<Rightarrow> (art_error + descriptor \<Rightarrow> 'r task) \<Rightarrow> 'r task" where
  "commit cfg staging d k = inspect_then cfg (ad_artifact d) (\<lambda>r.
     case r of
       Inr existing \<Rightarrow>
         (case match_descriptor existing d of Inr _ \<Rightarrow> k (Inr existing) | Inl x \<Rightarrow> k (Inl x))
     | Inl (ArtifactNotFound aid) \<Rightarrow> commit_copy cfg staging d k
     | Inl x \<Rightarrow> k (Inl x))"

section \<open>Uploading\<close>

record upload =
  up_artifact :: string
  up_upload :: string
  up_chunks :: "bytes list"
  up_ended :: bool
  up_owner :: string
  up_filename :: string
  up_media :: string
  up_limit :: int
  up_expected :: "string option"

type_synonym upload_task = "(art_error + descriptor) task"

definition upload_staging :: "store_cfg \<Rightarrow> upload \<Rightarrow> string" where
  "upload_staging cfg u = staging_key cfg (up_artifact u) (up_upload u)"

text \<open>The \<open>except BaseException\<close> block while the multipart upload is open.\<close>

definition abort_upload :: "art_error \<Rightarrow> upload_task" where
  "abort_upload x = Call (\<lambda>e b. (b, Done (Inl x)))"

fun upload_parts :: "bytes list \<Rightarrow> upload_task \<Rightarrow> upload_task" where
  "upload_parts [] k = k"
| "upload_parts (part # parts) k = Call (\<lambda>e b.
     (b, case sa_answer e of
           Served \<Rightarrow>
             if sa_valid e then upload_parts parts k
             else abort_upload (ArtifactConflict ''Object storage did not return an ETag'')
         | _ \<Rightarrow> abort_upload StorageFailed))"

definition upload_descriptor :: "store_cfg \<Rightarrow> upload \<Rightarrow> int \<Rightarrow> descriptor" where
  "upload_descriptor cfg u now =
     (let raw = concat (up_chunks u)
      in \<lparr>ad_artifact = up_artifact u, ad_owner = up_owner u, ad_filename = up_filename u, ad_media = up_media u,
          ad_size = int (length raw), ad_sha256 = sha256_bytes cfg raw, ad_created = now\<rparr>)"

text \<open>The commit and the \<open>finally\<close> block that drops the staging object.\<close>

definition upload_commit :: "store_cfg \<Rightarrow> upload \<Rightarrow> int \<Rightarrow> upload_task" where
  "upload_commit cfg u now =
     commit cfg (upload_staging cfg u) (upload_descriptor cfg u now)
       (\<lambda>r. discard_key (upload_staging cfg u) (Done r))"

definition complete_parts :: "store_cfg \<Rightarrow> upload \<Rightarrow> bytes list \<Rightarrow> upload_task" where
  "complete_parts cfg u parts = Call (\<lambda>e b.
     let done = b(upload_staging cfg u := Some (BytesObject (concat parts)))
     in case sa_answer e of
          Served \<Rightarrow> (done, upload_commit cfg u (sa_now e))
        | Refused \<Rightarrow> (b, abort_upload StorageFailed)
        | Lost \<Rightarrow> (done, abort_upload StorageFailed))"

definition complete_empty :: "store_cfg \<Rightarrow> upload \<Rightarrow> upload_task" where
  "complete_empty cfg u = Call (\<lambda>e b.
     (b, case sa_answer e of
           Served \<Rightarrow> Call (\<lambda>e b.
             let done = b(upload_staging cfg u := Some (BytesObject []))
             in case sa_answer e of
                  Served \<Rightarrow> (done, upload_commit cfg u (sa_now e))
                | Refused \<Rightarrow> (b, Done (Inl StorageFailed))
                | Lost \<Rightarrow> (done, Done (Inl StorageFailed)))
         | _ \<Rightarrow> abort_upload StorageFailed))"

text \<open>
  All parts of the body with what follows them: an error of the stream, or the last part, the digest
  check and the completion.
\<close>

definition upload_plan :: "store_cfg \<Rightarrow> nat \<Rightarrow> upload \<Rightarrow> bytes list \<times> (art_error + unit)" where
  "upload_plan cfg n u =
     (case stream_body n (up_limit u) (up_chunks u) [] 0 of
        (parts, Inl x) \<Rightarrow> (parts, Inl x)
      | (parts, Inr (rest, received)) \<Rightarrow>
          if \<not> up_ended u then (parts, Inl BodyFailed)
          else (parts @ (if rest = [] then [] else [rest]),
                require (case up_expected u of None \<Rightarrow> True | Some sha \<Rightarrow> sha256_bytes cfg (concat (up_chunks u)) = sha)
                  (ArtifactInvalid ''Artifact digest does not match'') (Inr ())))"

definition upload_stream :: "store_cfg \<Rightarrow> upload \<Rightarrow> upload_task" where
  "upload_stream cfg u =
     (case upload_plan cfg part_size u of
        (parts, Inl x) \<Rightarrow> upload_parts parts (abort_upload x)
      | (parts, Inr _) \<Rightarrow>
          upload_parts parts (if parts \<noteq> [] then complete_parts cfg u parts else complete_empty cfg u))"

definition upload_create :: "store_cfg \<Rightarrow> upload \<Rightarrow> upload_task" where
  "upload_create cfg u = Call (\<lambda>e b.
     (b, case sa_answer e of
           Served \<Rightarrow>
             if sa_valid e then upload_stream cfg u
             else Done (Inl (ArtifactConflict ''Object storage did not create a multipart upload''))
         | _ \<Rightarrow> Done (Inl StorageFailed)))"

definition upload_and_commit :: "store_cfg \<Rightarrow> upload \<Rightarrow> upload_task" where
  "upload_and_commit cfg u = inspect_then cfg (up_artifact u) (\<lambda>r.
     case r of
       Inr existing \<Rightarrow>
         (case match_existing existing (up_owner u) (up_filename u) (up_media u) (up_expected u) of
            Inr _ \<Rightarrow> Done (Inr existing)
          | Inl x \<Rightarrow> Done (Inl x))
     | Inl (ArtifactNotFound aid) \<Rightarrow> upload_create cfg u
     | Inl x \<Rightarrow> Done (Inl x))"

section \<open>Deleting\<close>

definition delete_artifact :: "store_cfg \<Rightarrow> string \<Rightarrow> (art_error + bool) task" where
  "delete_artifact cfg aid = inspect_then cfg aid (\<lambda>r.
     case r of
       Inl (ArtifactNotFound x) \<Rightarrow> Done (Inr False)
     | Inl x \<Rightarrow> Done (Inl x)
     | Inr d \<Rightarrow> Call (\<lambda>e b.
         let keys = {manifest_key cfg aid, content_key cfg aid (ad_sha256 d)};
             gone = (\<lambda>key. if key \<in> keys then None else b key);
             partial = (\<lambda>key. if key \<in> keys \<and> key \<in> set (sa_gone e) then None else b key)
         in case sa_answer e of
              Served \<Rightarrow>
                if sa_valid e then (gone, Done (Inr True))
                else (partial, Done (Inl (ArtifactConflict ''Object storage rejected Artifact deletion'')))
            | Refused \<Rightarrow> (b, Done (Inl StorageFailed))
            | Lost \<Rightarrow> (partial, Done (Inl StorageFailed))))"

section \<open>Interleaving\<close>

text \<open>
  The uploads of a running service: one of them takes its next step, or a new one arrives, with an
  upload id that no running upload uses (\<open>create_upload\<close> draws a fresh one for every capability).
\<close>

definition slash_free :: "string \<Rightarrow> bool" where
  "slash_free s \<longleftrightarrow> CHR ''/'' \<notin> set s"

inductive store_step :: "store_cfg \<Rightarrow> bucket \<times> (string \<times> upload_task) list \<Rightarrow> bucket \<times> (string \<times> upload_task) list \<Rightarrow> bool"
  for cfg where
  run: "i < length ts \<Longrightarrow> ts ! i = (key, Call f) \<Longrightarrow> f e b = (b', t) \<Longrightarrow>
    store_step cfg (b, ts) (b', ts[i := (key, t)])"
| accept: "slash_free (up_artifact u) \<Longrightarrow> upload_staging cfg u \<notin> fst ` set ts \<Longrightarrow>
    store_step cfg (b, ts) (b, ts @ [(upload_staging cfg u, upload_and_commit cfg u)])"

end
