(* ===== verification/Artifact_Safety.thy ===== *)
theory Artifact_Safety
  imports Artifact_Store
begin

text \<open>
  Correctness of the Artifact store: the parts of a streamed upload against a reference that cuts the
  whole body, and the commit protocol under any interleaving of uploads, by a rely-guarantee argument
  over the tasks. Last, the staging key that two runs of one capability share.
\<close>

section \<open>Parts of a body\<close>

function chunks_of :: "nat \<Rightarrow> 'a list \<Rightarrow> 'a list list" where
  "chunks_of n xs = (if n = 0 \<or> xs = [] then [] else take n xs # chunks_of n (drop n xs))"
  by pat_completeness auto
termination by (relation "measure (\<lambda>(n, xs). length xs)") auto

declare chunks_of.simps [simp del]

lemma chunks_of_parts:
  assumes "0 < n" and "\<forall>p\<in>set ps. length p = n" and "length rest < n"
  shows "chunks_of n (concat ps @ rest) = ps @ (if rest = [] then [] else [rest])"
  using assms(2)
proof (induction ps)
  case Nil
  then show ?case using assms by (simp add: chunks_of.simps [of n rest] chunks_of.simps [of n "[]"])
next
  case (Cons p ps)
  then have "p \<noteq> []" "length p = n" using assms(1) by auto
  then show ?case using Cons assms(1) by (simp add: chunks_of.simps [of n "p @ _"])
qed

lemma take_parts_spec:
  assumes "0 < n" and "take_parts n buf = (ps, rest)"
  shows "concat ps @ rest = buf \<and> length rest < n \<and> (\<forall>p\<in>set ps. length p = n)"
  using assms
proof (induction n buf arbitrary: ps rule: take_parts.induct)
  case (1 n buf)
  show ?case
  proof (cases "n \<le> length buf")
    case True
    obtain qs rest' where q: "take_parts n (drop n buf) = (qs, rest')" by fastforce
    then have "take_parts n buf = (take n buf # qs, rest')"
      using True 1(2) by (subst take_parts.simps) simp
    then have r: "ps = take n buf # qs" "rest' = rest" using 1(3) by simp_all
    have ih: "concat qs @ rest = drop n buf" "length rest < n" "\<forall>p\<in>set qs. length p = n"
      using 1(1) [OF _ 1(2), of qs] True 1(2) q r(2) by blast+
    have "concat ps @ rest = take n buf @ (concat qs @ rest)" by (simp only: r concat.simps append_assoc)
    then have "concat ps @ rest = buf" by (simp only: ih(1) append_take_drop_id)
    then show ?thesis using ih r True by auto
  next
    case False
    then have "take_parts n buf = ([], buf)" by (subst take_parts.simps) simp
    then show ?thesis using 1(3) False by simp
  qed
qed

text \<open>How the loop ends depends on the length of the body only.\<close>

lemma stream_body_spec:
  assumes "0 < n" and "length buf < n" and "stream_body n limit cs buf received = (parts, r)"
  shows "(\<forall>p\<in>set parts. length p = n)
    \<and> (case r of
        Inl x \<Rightarrow> concat cs \<noteq> [] \<and> limit < received + int (length (concat cs))
          \<and> x = ArtifactInvalid ''Artifact exceeds the upload limit''
          \<and> (\<exists>post. concat parts @ post = buf @ concat cs)
          \<and> (received \<le> limit \<longrightarrow> int (length (concat parts)) + received \<le> limit + int (length buf))
      | Inr (rest, sz) \<Rightarrow> concat parts @ rest = buf @ concat cs \<and> length rest < n
          \<and> sz = received + int (length (concat cs)) \<and> (concat cs = [] \<or> sz \<le> limit))"
  using assms(2,3)
proof (induction cs arbitrary: buf received parts r)
  case (Cons c cs)
  show ?case
  proof (cases "c = []")
    case True
    then show ?thesis using Cons.IH [of buf received parts r] Cons.prems by (auto split: sum.splits)
  next
    case False
    show ?thesis
    proof (cases "received + int (length c) > limit")
      case True
      then show ?thesis using Cons.prems False by auto
    next
      case fits: False
      obtain ps rest where tp: "take_parts n (buf @ c) = (ps, rest)" by fastforce
      obtain qs where rest: "stream_body n limit cs rest (received + int (length c)) = (qs, r)" "parts = ps @ qs"
        using Cons.prems(2) False fits tp by (auto split: prod.splits)
      have t: "concat ps @ rest = buf @ c" "length rest < n" "\<forall>p\<in>set ps. length p = n"
        using take_parts_spec [OF assms(1) tp] by auto
      note ih = Cons.IH [OF t(2) rest(1)]
      show ?thesis
      proof (cases r)
        case (Inl x)
        then obtain post where post: "concat qs @ post = rest @ concat cs" using ih by auto
        then have "concat parts @ post = buf @ concat (c # cs)" using rest(2) t(1) by (simp flip: append_assoc) simp
        moreover have "int (length (concat parts)) + received \<le> limit + int (length buf)"
        proof -
          have "length (concat ps) + length rest = length buf + length c" using t(1) by (metis length_append)
          moreover have "int (length (concat qs)) + (received + int (length c)) \<le> limit + int (length rest)"
            using ih Inl fits by auto
          ultimately show ?thesis using rest(2) by simp
        qed
        ultimately show ?thesis using ih Inl rest(2) t(3) by (auto simp: False)
      next
        case (Inr x)
        obtain rest' sz where x: "x = (rest', sz)" by (cases x)
        have q: "concat qs @ rest' = rest @ concat cs" "length rest' < n" "\<forall>p\<in>set qs. length p = n"
            "sz = received + int (length c) + int (length (concat cs))" "concat cs = [] \<or> sz \<le> limit"
          using ih Inr x by auto
        have "concat parts @ rest' = (concat ps @ rest) @ concat cs" using rest(2) q(1) by simp
        moreover have "sz \<le> limit" using q(4,5) fits by (auto simp del: concat_eq_Nil_conv)
        ultimately show ?thesis using Inr x q rest(2) t by auto
      qed
    qed
  qed
qed auto

text \<open>
  C17. The streamed upload is equivalent to cutting the whole body: whatever chunks the network
  delivers, a plan that ends well consists of exactly the consecutive pieces of 8 MiB (any part size)
  of the body, the last one shorter. It fails exactly when the body is longer than the limit, when
  the connection breaks, or when the digest is not the expected one, and it never uploads more
  than the limit.
\<close>

theorem upload_plan_reference:
  assumes "0 < n" and "0 \<le> up_limit u" and "upload_plan cfg n u = (parts, r)"
  shows "(r = Inr () \<longrightarrow> parts = chunks_of n (concat (up_chunks u)))
    \<and> (isl r \<longleftrightarrow> up_limit u < int (length (concat (up_chunks u))) \<or> \<not> up_ended u
        \<or> (\<exists>sha. up_expected u = Some sha \<and> sha256_bytes cfg (concat (up_chunks u)) \<noteq> sha))
    \<and> (\<exists>post. concat parts @ post = concat (up_chunks u)) \<and> int (length (concat parts)) \<le> up_limit u"
proof -
  let ?body = "concat (up_chunks u)"
  obtain ps q where s: "stream_body n (up_limit u) (up_chunks u) [] 0 = (ps, q)" by fastforce
  note spec = stream_body_spec [OF assms(1) _ s, simplified, OF assms(1)]
  show ?thesis
  proof (cases q)
    case (Inl x)
    then have "parts = ps" "r = Inl x" using assms(3) s by (simp_all add: upload_plan_def)
    then show ?thesis using spec Inl assms(2) by auto
  next
    case (Inr y)
    obtain rest sz where y: "y = (rest, sz)" by (cases y)
    then have body: "concat ps @ rest = ?body" "length rest < n" "?body = [] \<or> int (length ?body) \<le> up_limit u"
      using spec Inr by auto
    have fits: "int (length ?body) \<le> up_limit u"
    proof (cases "?body = []")
      case True
      then show ?thesis using assms(2) by (simp only: list.size)
    qed (use body(3) in blast)
    have ps: "\<forall>p\<in>set ps. length p = n" using spec by blast
    have cut: "chunks_of n ?body = ps @ (if rest = [] then [] else [rest])"
      using chunks_of_parts [OF assms(1) ps body(2)] body(1) by simp
    have whole: "concat (ps @ (if rest = [] then [] else [rest])) = ?body" using body(1) by auto
    have "length (concat ps) \<le> length ?body" using body(1) by (metis le_add1 length_append)
    then have bound: "int (length (concat ps)) \<le> up_limit u" using fits by linarith
    show ?thesis
    proof (cases "up_ended u")
      case False
      then have "parts = ps" "r = Inl BodyFailed" using assms(3) s Inr y by (simp_all add: upload_plan_def)
      then show ?thesis using False body(1) bound by auto
    next
      case True
      then have "parts = ps @ (if rest = [] then [] else [rest])"
          "r = require (case up_expected u of None \<Rightarrow> True | Some sha \<Rightarrow> sha256_bytes cfg ?body = sha)
            (ArtifactInvalid ''Artifact digest does not match'') (Inr ())"
        using assms(3) s Inr y by (simp_all add: upload_plan_def)
      then have "parts = chunks_of n ?body" "concat parts = ?body"
          "isl r \<longleftrightarrow> (\<exists>sha. up_expected u = Some sha \<and> sha256_bytes cfg ?body \<noteq> sha)"
        using cut whole by (simp_all only:) (cases "up_expected u"; simp add: require_def)
      then show ?thesis using True fits by (metis append_Nil2 not_le)
    qed
  qed
qed

definition sample_store :: store_cfg where
  "sample_store = \<lparr>s3_prefix = ''artifacts'', sha256_bytes = (\<lambda>b. show_nat (length b))\<rparr>"

definition sample_upload :: "bytes list \<Rightarrow> upload" where
  "sample_upload cs =
     \<lparr>up_artifact = ''a'', up_upload = ''u'', up_chunks = cs, up_ended = True, up_owner = ''o'', up_filename = ''f'',
      up_media = ''text/plain'', up_limit = 9, up_expected = None\<rparr>"

lemma upload_plan_reference_witness:
  "upload_plan sample_store 2 (sample_upload [[1], [], [2, 3, 4], [5]]) = ([[1, 2], [3, 4], [5]], Inr ())
   \<and> chunks_of 2 (concat (up_chunks (sample_upload [[1], [], [2, 3, 4], [5]]))) = [[1, 2], [3, 4], [5]]"
proof -
  have "upload_plan sample_store 2 (sample_upload [[1], [], [2, 3, 4], [5]]) = ([[1, 2], [3, 4], [5]], Inr ())" by code_simp
  moreover have "0 \<le> up_limit (sample_upload [[1], [], [2, 3, 4], [5]])" by (simp add: sample_upload_def)
  ultimately show ?thesis using upload_plan_reference [of 2 "sample_upload [[1], [], [2, 3, 4], [5]]" sample_store] by auto
qed

section \<open>Keys\<close>

lemma split_slash: "slash_free a \<Longrightarrow> slash_free a' \<Longrightarrow> a @ CHR ''/'' # s = a' @ CHR ''/'' # s' \<longleftrightarrow> a = a' \<and> s = s'"
proof (induction a arbitrary: a')
  case Nil
  then show ?case by (cases a') (auto simp: slash_free_def)
next
  case (Cons c a)
  then show ?case by (cases a') (auto simp: slash_free_def)
qed

lemma manifest_key_inj [simp]: "manifest_key cfg a = manifest_key cfg a' \<longleftrightarrow> a = a'"
  by (simp add: manifest_key_def store_key_def)

lemma content_key_inj [simp]:
  "slash_free a \<Longrightarrow> slash_free a' \<Longrightarrow> content_key cfg a s = content_key cfg a' s' \<longleftrightarrow> a = a' \<and> s = s'"
  by (simp add: content_key_def store_key_def split_slash)

lemma keys_apart [simp]:
  "manifest_key cfg a \<noteq> content_key cfg a' s" "content_key cfg a' s \<noteq> manifest_key cfg a"
  "manifest_key cfg a \<noteq> staging_key cfg a' u" "staging_key cfg a' u \<noteq> manifest_key cfg a"
  "content_key cfg a s \<noteq> staging_key cfg a' u" "staging_key cfg a' u \<noteq> content_key cfg a s"
  by (simp_all add: manifest_key_def content_key_def staging_key_def store_key_def)

section \<open>Invariant, guarantee and stable facts\<close>

text \<open>Every committed Artifact has its content, with the recorded digest; the size is that of a body with this digest.\<close>

definition artifact_ok :: "store_cfg \<Rightarrow> bucket \<Rightarrow> string \<Rightarrow> descriptor \<Rightarrow> bool" where
  "artifact_ok cfg b a d \<longleftrightarrow> ad_artifact d = a
     \<and> (\<exists>raw. b (content_key cfg a (ad_sha256 d)) = Some (BytesObject raw) \<and> sha256_bytes cfg raw = ad_sha256 d)
     \<and> (\<exists>raw. sha256_bytes cfg raw = ad_sha256 d \<and> int (length raw) = ad_size d)"

definition bucket_ok :: "store_cfg \<Rightarrow> bucket \<Rightarrow> bool" where
  "bucket_ok cfg b \<longleftrightarrow> (\<forall>a obj. slash_free a \<longrightarrow> b (manifest_key cfg a) = Some obj \<longrightarrow>
     (\<exists>d. obj = ManifestObject d \<and> artifact_ok cfg b a d))"

text \<open>What a task may do to the bucket in one step, \<open>key\<close> being its staging key.\<close>

definition guar :: "store_cfg \<Rightarrow> string \<Rightarrow> bucket \<Rightarrow> bucket \<Rightarrow> bool" where
  "guar cfg key b b' \<longleftrightarrow>
     (\<forall>a. b (manifest_key cfg a) \<noteq> None \<longrightarrow> b' (manifest_key cfg a) = b (manifest_key cfg a))
     \<and> (\<forall>a u. staging_key cfg a u \<noteq> key \<longrightarrow> b' (staging_key cfg a u) = b (staging_key cfg a u))
     \<and> (\<forall>a s. slash_free a \<longrightarrow>
          b' (content_key cfg a s) = b (content_key cfg a s)
          \<or> (\<exists>raw. b' (content_key cfg a s) = Some (BytesObject raw) \<and> sha256_bytes cfg raw = s)
          \<or> (\<exists>d. b (manifest_key cfg a) = Some (ManifestObject d) \<and> ad_sha256 d \<noteq> s))"

definition stable :: "store_cfg \<Rightarrow> string \<Rightarrow> (bucket \<Rightarrow> bool) \<Rightarrow> bool" where
  "stable cfg key P \<longleftrightarrow> (\<forall>key' b b'. key' \<noteq> key \<longrightarrow> guar cfg key' b b' \<longrightarrow> P b \<longrightarrow> P b')"

lemma stableD: "stable cfg key P \<Longrightarrow> key' \<noteq> key \<Longrightarrow> guar cfg key' b b' \<Longrightarrow> P b \<Longrightarrow> P b'"
  unfolding stable_def by blast

definition committed :: "store_cfg \<Rightarrow> descriptor \<Rightarrow> bucket \<Rightarrow> bool" where
  "committed cfg d b \<longleftrightarrow> b (manifest_key cfg (ad_artifact d)) = Some (ManifestObject d)"

definition staged :: "string \<Rightarrow> bytes \<Rightarrow> bucket \<Rightarrow> bool" where
  "staged key raw b \<longleftrightarrow> b key = Some (BytesObject raw)"

definition copied :: "store_cfg \<Rightarrow> string \<Rightarrow> string \<Rightarrow> bucket \<Rightarrow> bool" where
  "copied cfg a s b \<longleftrightarrow> b (manifest_key cfg a) \<noteq> None
     \<or> (\<exists>raw. b (content_key cfg a s) = Some (BytesObject raw) \<and> sha256_bytes cfg raw = s)"

lemma guar_refl [simp]: "guar cfg key b b"
  by (simp add: guar_def)

lemma stable_True [simp]: "stable cfg key (\<lambda>b. True)"
  by (simp add: stable_def)

lemma stable_committed [simp]: "stable cfg key (committed cfg d)"
  by (simp add: stable_def committed_def guar_def)

lemma stable_staged [simp]: "stable cfg (staging_key cfg a u) (staged (staging_key cfg a u) raw)"
  by (auto simp: stable_def staged_def guar_def)

lemma stable_copied [simp]: "slash_free a \<Longrightarrow> stable cfg key (copied cfg a s)"
  unfolding stable_def copied_def guar_def by (metis option.distinct(1))

section \<open>Tasks that keep the guarantee\<close>

inductive good :: "store_cfg \<Rightarrow> string \<Rightarrow> (bucket \<Rightarrow> bool) \<Rightarrow> upload_task \<Rightarrow> bool" for cfg key where
  finished: "(\<And>d b. r = Inr d \<Longrightarrow> P b \<Longrightarrow> committed cfg d b) \<Longrightarrow> good cfg key P (Done r)"
| call: "(\<And>e b b' t. bucket_ok cfg b \<Longrightarrow> P b \<Longrightarrow> f e b = (b', t) \<Longrightarrow>
      bucket_ok cfg b' \<and> guar cfg key b b' \<and> (\<exists>Q. stable cfg key Q \<and> Q b' \<and> good cfg key Q t)) \<Longrightarrow>
    good cfg key P (Call f)"

inductive_cases good_DoneE: "good cfg key P (Done r)"

lemma good_Done: "good cfg key P (Done (Inr d)) \<Longrightarrow> P b \<Longrightarrow> committed cfg d b"
proof (erule good_DoneE)
  assume "P b" and step: "\<And>x c. (Inr d :: art_error + descriptor) = Inr x \<Longrightarrow> P c \<Longrightarrow> committed cfg x c"
  show "committed cfg d b" by (rule step [OF refl \<open>P b\<close>])
qed

definition ok_next :: "store_cfg \<Rightarrow> string \<Rightarrow> bucket \<Rightarrow> bucket \<times> upload_task \<Rightarrow> bool" where
  "ok_next cfg key b c \<longleftrightarrow> bucket_ok cfg (fst c) \<and> guar cfg key b (fst c)
     \<and> (\<exists>Q. stable cfg key Q \<and> Q (fst c) \<and> good cfg key Q (snd c))"

lemma good_call: "(\<And>e b. bucket_ok cfg b \<Longrightarrow> P b \<Longrightarrow> ok_next cfg key b (f e b)) \<Longrightarrow> good cfg key P (Call f)"
  by (rule good.call) (metis fst_conv ok_next_def snd_conv)

lemma ok_stay: "bucket_ok cfg b \<Longrightarrow> stable cfg key Q \<Longrightarrow> Q b \<Longrightarrow> good cfg key Q t \<Longrightarrow> ok_next cfg key b (b, t)"
  by (auto simp: ok_next_def)

lemma ok_move: "bucket_ok cfg b' \<Longrightarrow> guar cfg key b b' \<Longrightarrow> stable cfg key Q \<Longrightarrow> Q b' \<Longrightarrow> good cfg key Q t \<Longrightarrow> ok_next cfg key b (b', t)"
  by (auto simp: ok_next_def)

lemma good_error [simp]: "good cfg key P (Done (Inl x))"
  by (rule good.finished) simp

lemma good_abort [simp]: "good cfg key P (abort_upload x)"
  unfolding abort_upload_def by (rule good_call) (rule ok_stay [where Q = "\<lambda>b. True"], simp_all)

text \<open>Reading a manifest: what is found is committed, and stays so.\<close>

lemma good_inspect:
  assumes "slash_free a" and "stable cfg key P"
    and "\<And>d. ad_artifact d = a \<Longrightarrow> good cfg key (committed cfg d) (k (Inr d))" and "\<And>x. good cfg key P (k (Inl x))"
  shows "good cfg key P (inspect_then cfg a k)"
  unfolding inspect_then_def
proof (rule good_call)
  fix e b assume b: "bucket_ok cfg b" "P b"
  have err: "ok_next cfg key b (b, k (Inl x))" for x by (rule ok_stay [OF b(1) assms(2) b(2) assms(4)])
  have found: "ok_next cfg key b (b, k (Inr d))" if "b (manifest_key cfg a) = Some (ManifestObject d)" for d
  proof -
    have "ad_artifact d = a" using b(1) assms(1) that by (auto simp: bucket_ok_def artifact_ok_def)
    then show ?thesis using that by (intro ok_stay [OF b(1) stable_committed _ assms(3)]) (simp_all add: committed_def)
  qed
  show "ok_next cfg key b (b, case sa_answer e of Served \<Rightarrow>
      (case b (manifest_key cfg a) of None \<Rightarrow> k (Inl (ArtifactNotFound a)) | Some (ManifestObject d) \<Rightarrow> k (Inr d)
       | Some (BytesObject raw) \<Rightarrow> k (Inl (ArtifactConflict ''Artifact manifest is invalid'')))
     | _ \<Rightarrow> k (Inl StorageFailed))"
    using err found by (auto split: s3_answer.splits option.splits s3_object.splits)
qed

text \<open>Dropping the own staging object, and going on with what is stable without it.\<close>

lemma drop_staging:
  assumes "bucket_ok cfg b"
  shows "bucket_ok cfg (b(staging_key cfg a u := None))" "guar cfg (staging_key cfg a u) b (b(staging_key cfg a u := None))"
  using assms by (auto simp: bucket_ok_def artifact_ok_def guar_def)

definition returned :: "store_cfg \<Rightarrow> art_error + descriptor \<Rightarrow> bucket \<Rightarrow> bool" where
  "returned cfg r b \<longleftrightarrow> (case r of Inl x \<Rightarrow> True | Inr d \<Rightarrow> committed cfg d b)"

lemma stable_returned [simp]: "stable cfg key (returned cfg r)"
  by (cases r) (simp_all add: returned_def [abs_def])

lemma good_returned: "good cfg key (returned cfg r) (Done r)"
  by (rule good.finished) (simp add: returned_def)

lemma good_discard_staging:
  "good cfg (staging_key cfg a u) (returned cfg r) (discard_key (staging_key cfg a u) (Done r))"
  unfolding discard_key_def
proof (rule good_call)
  fix e b assume b: "bucket_ok cfg b" "returned cfg r b"
  have "returned cfg r (b(staging_key cfg a u := None))" using b(2) by (auto simp: returned_def committed_def split: sum.splits)
  then have "ok_next cfg (staging_key cfg a u) b (b(staging_key cfg a u := None), Done r)"
    by (intro ok_move [OF drop_staging [OF b(1)] stable_returned _ good_returned])
  moreover have "ok_next cfg (staging_key cfg a u) b (b, Done r)"
    by (rule ok_stay [OF b(1) stable_returned b(2) good_returned])
  ultimately show "ok_next cfg (staging_key cfg a u) b
      (case sa_answer e of Refused \<Rightarrow> b | _ \<Rightarrow> b(staging_key cfg a u := None), Done r)"
    by (cases "sa_answer e") simp_all
qed

text \<open>
  A continuation that is good for every result: it may assume that a descriptor it gets is committed.
  An error may be delivered whatever is known.
\<close>

definition good_cont :: "store_cfg \<Rightarrow> string \<Rightarrow> (art_error + descriptor \<Rightarrow> upload_task) \<Rightarrow> bool" where
  "good_cont cfg key k \<longleftrightarrow> (\<forall>r. good cfg key (returned cfg r) (k r))"

lemma good_weaken: "good cfg key Q t \<Longrightarrow> (\<And>b. P b \<Longrightarrow> Q b) \<Longrightarrow> good cfg key P t"
proof (erule good.cases)
  fix r P' assume "t = Done r" "Q = P'" "\<And>d b. r = Inr d \<Longrightarrow> P' b \<Longrightarrow> committed cfg d b" "\<And>b. P b \<Longrightarrow> Q b"
  then show "good cfg key P t" by (auto intro: good.finished)
next
  fix P' f assume t: "Q = P'" "t = Call f" and weak: "\<And>b. P b \<Longrightarrow> Q b"
    and next': "\<And>e b b' t. bucket_ok cfg b \<Longrightarrow> P' b \<Longrightarrow> f e b = (b', t) \<Longrightarrow>
      bucket_ok cfg b' \<and> guar cfg key b b' \<and> (\<exists>Q. stable cfg key Q \<and> Q b' \<and> good cfg key Q t)"
  show "good cfg key P t" unfolding t(2) by (rule good.call, rule next') (use weak t(1) in auto)
qed

lemma good_cont_err: "good_cont cfg key k \<Longrightarrow> good cfg key P (k (Inl x))"
  unfolding good_cont_def using good_weaken [of cfg key "returned cfg (Inl x)" "k (Inl x)" P] by (auto simp: returned_def)

lemma good_cont_ok: "good_cont cfg key k \<Longrightarrow> (\<And>b. P b \<Longrightarrow> committed cfg d b) \<Longrightarrow> good cfg key P (k (Inr d))"
  unfolding good_cont_def using good_weaken [of cfg key "returned cfg (Inr d)" "k (Inr d)" P] by (auto simp: returned_def)

section \<open>The commit keeps the guarantee\<close>

lemma discard_conflict:
  assumes "bucket_ok cfg b" and "slash_free (ad_artifact d)" and "committed cfg existing b"
    and "ad_artifact existing = ad_artifact d" and "ad_sha256 existing \<noteq> ad_sha256 d"
  shows "bucket_ok cfg (b(content_key cfg (ad_artifact d) (ad_sha256 d) := None))"
    and "guar cfg key b (b(content_key cfg (ad_artifact d) (ad_sha256 d) := None))"
proof -
  let ?k = "content_key cfg (ad_artifact d) (ad_sha256 d)"
  have m: "b (manifest_key cfg (ad_artifact d)) = Some (ManifestObject existing)"
    using assms(3,4) by (simp add: committed_def)
  have "artifact_ok cfg (b(?k := None)) a x" if "slash_free a" "b (manifest_key cfg a) = Some (ManifestObject x)" "artifact_ok cfg b a x" for a x
  proof -
    have "content_key cfg a (ad_sha256 x) \<noteq> ?k" using that(1,2) assms(2,5) m by auto
    then show ?thesis using that(3) by (simp add: artifact_ok_def)
  qed
  then show "bucket_ok cfg (b(?k := None))" using assms(1) by (fastforce simp: bucket_ok_def)
  show "guar cfg key b (b(?k := None))" unfolding guar_def
  proof (intro conjI allI impI)
    fix a s assume "slash_free a"
    then show "(b(?k := None)) (content_key cfg a s) = b (content_key cfg a s)
        \<or> (\<exists>raw. (b(?k := None)) (content_key cfg a s) = Some (BytesObject raw) \<and> sha256_bytes cfg raw = s)
        \<or> (\<exists>d. b (manifest_key cfg a) = Some (ManifestObject d) \<and> ad_sha256 d \<noteq> s)"
      using assms(2,5) m by (cases "content_key cfg a s = ?k") auto
  qed simp_all
qed

lemma good_commit_conflict:
  assumes "slash_free (ad_artifact d)" and "good_cont cfg key k"
  shows "good cfg key (\<lambda>b. True) (commit_conflict cfg d k)"
  unfolding commit_conflict_def
proof (rule good_inspect [OF assms(1)])
  fix existing :: descriptor assume same: "ad_artifact existing = ad_artifact d"
  have discard: "good cfg key (committed cfg existing) (discard_key (content_key cfg (ad_artifact d) (ad_sha256 d)) (k (Inl x)))"
    if "ad_sha256 existing \<noteq> ad_sha256 d" for x
    unfolding discard_key_def
  proof (rule good_call)
    fix e b assume b: "bucket_ok cfg b" "committed cfg existing b"
    let ?b = "b(content_key cfg (ad_artifact d) (ad_sha256 d) := None)"
    have "ok_next cfg key b (?b, k (Inl x))"
      by (rule ok_move [OF discard_conflict [OF b(1) assms(1) b(2) same that] stable_True _ good_cont_err [OF assms(2)]]) simp
    moreover have "ok_next cfg key b (b, k (Inl x))"
      by (rule ok_stay [OF b(1) stable_True _ good_cont_err [OF assms(2)]]) simp
    ultimately show "ok_next cfg key b (case sa_answer e of Refused \<Rightarrow> b | _ \<Rightarrow> ?b, k (Inl x))"
      by (cases "sa_answer e") simp_all
  qed
  show "good cfg key (committed cfg existing) (case Inr existing of Inl x \<Rightarrow> k (Inl x)
      | Inr existing \<Rightarrow> (case match_descriptor existing d of Inr _ \<Rightarrow> k (Inr existing)
          | Inl x \<Rightarrow> if ad_sha256 existing \<noteq> ad_sha256 d
              then discard_key (content_key cfg (ad_artifact d) (ad_sha256 d)) (k (Inl x)) else k (Inl x)))"
    using discard good_cont_err [OF assms(2)] good_cont_ok [OF assms(2)] by (auto split: sum.splits)
qed (simp_all add: good_cont_err [OF assms(2)])

text \<open>What a descriptor of an upload satisfies: its size is that of a body with its digest.\<close>

definition sized :: "store_cfg \<Rightarrow> descriptor \<Rightarrow> bool" where
  "sized cfg d \<longleftrightarrow> (\<exists>raw. sha256_bytes cfg raw = ad_sha256 d \<and> int (length raw) = ad_size d)"

lemma put_manifest:
  assumes "bucket_ok cfg b" and "copied cfg (ad_artifact d) (ad_sha256 d) b" and "sized cfg d"
    and "b (manifest_key cfg (ad_artifact d)) = None"
  shows "bucket_ok cfg (b(manifest_key cfg (ad_artifact d) := Some (ManifestObject d)))"
    and "guar cfg key b (b(manifest_key cfg (ad_artifact d) := Some (ManifestObject d)))"
  using assms by (auto simp: bucket_ok_def artifact_ok_def copied_def sized_def guar_def)

lemma good_commit_manifest:
  assumes "slash_free (ad_artifact d)" and "sized cfg d" and "good_cont cfg key k"
  shows "good cfg key (copied cfg (ad_artifact d) (ad_sha256 d)) (commit_manifest cfg d k)"
  unfolding commit_manifest_def Let_def
proof (rule good_call)
  fix e b assume b: "bucket_ok cfg b" "copied cfg (ad_artifact d) (ad_sha256 d) b"
  let ?m = "manifest_key cfg (ad_artifact d)"
  let ?b = "b(?m := Some (ManifestObject d))"
  have put: "ok_next cfg key b (?b, k r)" if "b ?m = None" "r = Inr d \<or> isl r" for r
  proof (rule ok_move [OF put_manifest [OF b assms(2) that(1)] stable_returned])
    show "returned cfg r ?b" using that(2) by (auto simp: returned_def committed_def split: sum.splits)
    show "good cfg key (returned cfg r) (k r)" using assms(3) by (simp add: good_cont_def)
  qed
  have stay: "ok_next cfg key b (b, k (Inl x))" for x
    by (rule ok_stay [OF b(1) stable_True _ good_cont_err [OF assms(3)]]) simp
  have conflict: "ok_next cfg key b (b, commit_conflict cfg d k)"
    by (rule ok_stay [OF b(1) stable_True _ good_commit_conflict [OF assms(1,3)]]) simp
  show "ok_next cfg key b (case sa_answer e of
      Served \<Rightarrow> if b ?m = None then (?b, k (Inr d)) else (b, commit_conflict cfg d k)
    | Refused \<Rightarrow> (b, k (Inl StorageFailed))
    | Lost \<Rightarrow> (if b ?m = None then ?b else b, k (Inl StorageFailed)))"
    using put stay conflict by (auto split: s3_answer.splits)
qed

lemma copy_content:
  assumes "bucket_ok cfg b" and "slash_free a" and "sha256_bytes cfg raw = s"
  shows "bucket_ok cfg (b(content_key cfg a s := Some (BytesObject raw)))"
    and "guar cfg key b (b(content_key cfg a s := Some (BytesObject raw)))"
proof -
  let ?b = "b(content_key cfg a s := Some (BytesObject raw))"
  have "artifact_ok cfg ?b a' x" if "slash_free a'" "artifact_ok cfg b a' x" for a' x
    using that assms(2,3) by (cases "content_key cfg a' (ad_sha256 x) = content_key cfg a s") (auto simp: artifact_ok_def)
  then show "bucket_ok cfg ?b" using assms(1) by (fastforce simp: bucket_ok_def)
  show "guar cfg key b ?b" using assms(2,3) by (auto simp: guar_def)
qed

lemma good_commit_copy:
  assumes "slash_free (ad_artifact d)" and "sized cfg d" and "sha256_bytes cfg raw = ad_sha256 d" and "good_cont cfg key k"
  shows "good cfg key (staged staging raw) (commit_copy cfg staging d k)"
  unfolding commit_copy_def Let_def
proof (rule good_call)
  fix e b assume b: "bucket_ok cfg b" "staged staging raw b"
  let ?b = "b(content_key cfg (ad_artifact d) (ad_sha256 d) := Some (BytesObject raw))"
  note cp = copy_content [OF b(1) assms(1,3)]
  have "ok_next cfg key b (?b, commit_manifest cfg d k)"
    by (rule ok_move [OF cp stable_copied [OF assms(1)] _ good_commit_manifest [OF assms(1,2,4)]])
      (simp add: copied_def assms(3))
  moreover have "ok_next cfg key b (?b, k (Inl x))" for x
    by (rule ok_move [OF cp stable_True _ good_cont_err [OF assms(4)]]) simp
  moreover have "ok_next cfg key b (b, k (Inl x))" for x
    by (rule ok_stay [OF b(1) stable_True _ good_cont_err [OF assms(4)]]) simp
  ultimately show "ok_next cfg key b (case b staging of
      Some (BytesObject raw) \<Rightarrow>
        (case sa_answer e of
           Served \<Rightarrow> (b(content_key cfg (ad_artifact d) (ad_sha256 d) := Some (BytesObject raw)), commit_manifest cfg d k)
         | Refused \<Rightarrow> (b, k (Inl StorageFailed))
         | Lost \<Rightarrow> (b(content_key cfg (ad_artifact d) (ad_sha256 d) := Some (BytesObject raw)), k (Inl StorageFailed)))
    | _ \<Rightarrow> (b, k (Inl StorageFailed)))"
    using b(2) by (auto simp: staged_def split: s3_answer.splits)
qed

lemma good_commit:
  assumes "slash_free (ad_artifact d)" and "sized cfg d" and "sha256_bytes cfg raw = ad_sha256 d"
    and "good_cont cfg (staging_key cfg a u) k"
  shows "good cfg (staging_key cfg a u) (staged (staging_key cfg a u) raw) (commit cfg (staging_key cfg a u) d k)"
  unfolding commit_def
proof (rule good_inspect [OF assms(1) stable_staged])
  fix existing :: descriptor
  show "good cfg (staging_key cfg a u) (committed cfg existing)
      (case Inr existing of Inr existing \<Rightarrow> (case match_descriptor existing d of Inr _ \<Rightarrow> k (Inr existing) | Inl x \<Rightarrow> k (Inl x))
       | Inl (ArtifactNotFound aid) \<Rightarrow> commit_copy cfg (staging_key cfg a u) d k | Inl x \<Rightarrow> k (Inl x))"
    using good_cont_err [OF assms(4)] good_cont_ok [OF assms(4)] by (auto split: sum.splits)
next
  fix x
  show "good cfg (staging_key cfg a u) (staged (staging_key cfg a u) raw)
      (case Inl x of Inr existing \<Rightarrow> (case match_descriptor existing d of Inr _ \<Rightarrow> k (Inr existing) | Inl x \<Rightarrow> k (Inl x))
       | Inl (ArtifactNotFound aid) \<Rightarrow> commit_copy cfg (staging_key cfg a u) d k | Inl x \<Rightarrow> k (Inl x))"
    using good_commit_copy [OF assms(1,2,3,4)] good_cont_err [OF assms(4)] by (cases x) simp_all
qed

section \<open>Uploads keep the guarantee\<close>

lemma stage_object:
  assumes "bucket_ok cfg b"
  shows "bucket_ok cfg (b(staging_key cfg a u := obj))" "guar cfg (staging_key cfg a u) b (b(staging_key cfg a u := obj))"
  using assms by (auto simp: bucket_ok_def artifact_ok_def guar_def)

lemma stable_upload: "stable cfg (upload_staging cfg u) (staged (upload_staging cfg u) raw)"
  by (simp add: upload_staging_def)

lemma good_upload_commit:
  assumes "slash_free (up_artifact u)"
  shows "good cfg (upload_staging cfg u) (staged (upload_staging cfg u) (concat (up_chunks u))) (upload_commit cfg u now)"
  unfolding upload_commit_def upload_staging_def
  by (rule good_commit)
    (use assms good_discard_staging in \<open>auto simp: upload_descriptor_def Let_def sized_def good_cont_def\<close>)

lemma good_complete_parts:
  assumes "slash_free (up_artifact u)" and "concat parts = concat (up_chunks u)"
  shows "good cfg (upload_staging cfg u) (\<lambda>b. True) (complete_parts cfg u parts)"
  unfolding complete_parts_def Let_def
proof (rule good_call)
  fix e b assume b: "bucket_ok cfg b"
  let ?key = "upload_staging cfg u"
  let ?b = "b(?key := Some (BytesObject (concat parts)))"
  note st = stage_object [OF b, of "up_artifact u" "up_upload u", folded upload_staging_def]
  have "ok_next cfg ?key b (?b, upload_commit cfg u (sa_now e))"
    by (rule ok_move [OF st stable_upload _ good_upload_commit [OF assms(1)]])
      (simp add: staged_def assms(2))
  moreover have "ok_next cfg ?key b (?b, abort_upload StorageFailed)"
    by (rule ok_move [OF st stable_True _ good_abort]) simp
  moreover have "ok_next cfg ?key b (b, abort_upload StorageFailed)"
    by (rule ok_stay [OF b stable_True _ good_abort]) simp
  ultimately show "ok_next cfg ?key b (case sa_answer e of Served \<Rightarrow> (?b, upload_commit cfg u (sa_now e))
      | Refused \<Rightarrow> (b, abort_upload StorageFailed) | Lost \<Rightarrow> (?b, abort_upload StorageFailed))"
    by (cases "sa_answer e") simp_all
qed

lemma good_silent:
  assumes "\<And>e. good cfg key (\<lambda>b. True) (g e)"
  shows "good cfg key (\<lambda>b. True) (Call (\<lambda>e b. (b, g e)))"
  by (rule good_call) (rule ok_stay [OF _ stable_True _ assms], simp_all)

lemma good_complete_empty:
  assumes "slash_free (up_artifact u)" and "concat (up_chunks u) = []"
  shows "good cfg (upload_staging cfg u) (\<lambda>b. True) (complete_empty cfg u)"
proof -
  let ?key = "upload_staging cfg u"
  have put: "good cfg ?key (\<lambda>b. True) (Call (\<lambda>e b.
      let done = b(?key := Some (BytesObject []))
      in case sa_answer e of Served \<Rightarrow> (done, upload_commit cfg u (sa_now e))
         | Refused \<Rightarrow> (b, Done (Inl StorageFailed)) | Lost \<Rightarrow> (done, Done (Inl StorageFailed))))"
    unfolding Let_def
  proof (rule good_call)
    fix e b assume b: "bucket_ok cfg b"
    let ?b = "b(?key := Some (BytesObject []))"
    note st = stage_object [OF b, of "up_artifact u" "up_upload u", folded upload_staging_def]
    have "ok_next cfg ?key b (?b, upload_commit cfg u (sa_now e))"
      by (rule ok_move [OF st stable_upload _ good_upload_commit [OF assms(1)]])
        (simp add: staged_def assms(2) del: concat_eq_Nil_conv)
    moreover have "ok_next cfg ?key b (?b, Done (Inl StorageFailed))"
      by (rule ok_move [OF st stable_True _ good_error]) simp
    moreover have "ok_next cfg ?key b (b, Done (Inl StorageFailed))"
      by (rule ok_stay [OF b stable_True _ good_error]) simp
    ultimately show "ok_next cfg ?key b (case sa_answer e of Served \<Rightarrow> (?b, upload_commit cfg u (sa_now e))
        | Refused \<Rightarrow> (b, Done (Inl StorageFailed)) | Lost \<Rightarrow> (?b, Done (Inl StorageFailed)))"
      by (cases "sa_answer e") simp_all
  qed
  show ?thesis unfolding complete_empty_def
    by (rule good_silent) (use put in \<open>auto split: s3_answer.splits\<close>)
qed

lemma good_upload_parts: "good cfg key (\<lambda>b. True) k \<Longrightarrow> good cfg key (\<lambda>b. True) (upload_parts parts k)"
proof (induction parts)
  case (Cons p parts)
  then show ?case unfolding upload_parts.simps by (intro good_silent) (auto split: s3_answer.splits)
qed simp

lemma upload_plan_body: "upload_plan cfg part_size u = (parts, Inr x) \<Longrightarrow> concat parts = concat (up_chunks u)"
proof -
  assume plan: "upload_plan cfg part_size u = (parts, Inr x)"
  obtain ps q where s: "stream_body part_size (up_limit u) (up_chunks u) [] 0 = (ps, q)" by fastforce
  have "0 < part_size" by (simp add: part_size_def)
  note spec = stream_body_spec [OF this _ s, simplified, OF this]
  obtain rest sz where "q = Inr (rest, sz)" "parts = ps @ (if rest = [] then [] else [rest])"
    using plan s by (auto simp: upload_plan_def split: sum.splits if_splits)
  then show ?thesis using spec by auto
qed

lemma good_upload_stream:
  assumes "slash_free (up_artifact u)"
  shows "good cfg (upload_staging cfg u) (\<lambda>b. True) (upload_stream cfg u)"
proof (cases "upload_plan cfg part_size u")
  case (Pair parts r)
  show ?thesis
  proof (cases r)
    case (Inl x)
    then show ?thesis using Pair by (simp add: upload_stream_def good_upload_parts)
  next
    case (Inr x)
    have body: "concat parts = concat (up_chunks u)" using upload_plan_body Pair Inr by blast
    have "good cfg (upload_staging cfg u) (\<lambda>b. True) (if parts \<noteq> [] then complete_parts cfg u parts else complete_empty cfg u)"
    proof (cases "parts = []")
      case True
      then have "concat (up_chunks u) = []" using body by (metis concat.simps(1))
      then show ?thesis using good_complete_empty [OF assms] True by simp
    qed (use good_complete_parts [OF assms body] in simp)
    then show ?thesis using Pair Inr by (simp only: upload_stream_def prod.case sum.case good_upload_parts)
  qed
qed

lemma good_upload:
  assumes "slash_free (up_artifact u)"
  shows "good cfg (upload_staging cfg u) (\<lambda>b. True) (upload_and_commit cfg u)"
  unfolding upload_and_commit_def
proof (rule good_inspect [OF assms stable_True])
  fix existing :: descriptor
  show "good cfg (upload_staging cfg u) (committed cfg existing) (case Inr existing of
        Inr existing \<Rightarrow> (case match_existing existing (up_owner u) (up_filename u) (up_media u) (up_expected u) of
            Inr _ \<Rightarrow> Done (Inr existing) | Inl x \<Rightarrow> Done (Inl x))
      | Inl (ArtifactNotFound aid) \<Rightarrow> upload_create cfg u | Inl x \<Rightarrow> Done (Inl x))"
    by (auto split: sum.splits intro: good.finished)
next
  fix x
  have "good cfg (upload_staging cfg u) (\<lambda>b. True) (upload_create cfg u)" unfolding upload_create_def
    by (rule good_silent) (use good_upload_stream [OF assms] in \<open>auto split: s3_answer.splits\<close>)
  then show "good cfg (upload_staging cfg u) (\<lambda>b. True) (case Inl x of
        Inr existing \<Rightarrow> (case match_existing existing (up_owner u) (up_filename u) (up_media u) (up_expected u) of
            Inr _ \<Rightarrow> Done (Inr existing) | Inl x \<Rightarrow> Done (Inl x))
      | Inl (ArtifactNotFound aid) \<Rightarrow> upload_create cfg u | Inl x \<Rightarrow> Done (Inl x))"
    by (cases x) simp_all
qed

section \<open>Any interleaving of uploads\<close>

definition pool_good :: "store_cfg \<Rightarrow> bucket \<times> (string \<times> upload_task) list \<Rightarrow> bool" where
  "pool_good cfg c \<longleftrightarrow> bucket_ok cfg (fst c) \<and> distinct (map fst (snd c))
     \<and> (\<forall>(key, t)\<in>set (snd c). \<exists>P. stable cfg key P \<and> P (fst c) \<and> good cfg key P t)"

lemma pool_good_task: "pool_good cfg (b, ts) \<Longrightarrow> (key, t) \<in> set ts \<Longrightarrow> \<exists>P. stable cfg key P \<and> P b \<and> good cfg key P t"
  unfolding pool_good_def fst_conv snd_conv by blast

lemma pool_good_nth:
  "pool_good cfg (b, ts) \<Longrightarrow> j < length ts \<Longrightarrow> ts ! j = (key, t) \<Longrightarrow> \<exists>P. stable cfg key P \<and> P b \<and> good cfg key P t"
  using pool_good_task by (metis nth_mem)

definition manifests_kept :: "store_cfg \<Rightarrow> bucket \<Rightarrow> bucket \<Rightarrow> bool" where
  "manifests_kept cfg b b' \<longleftrightarrow>
     (\<forall>a. b (manifest_key cfg a) \<noteq> None \<longrightarrow> b' (manifest_key cfg a) = b (manifest_key cfg a))"

lemma store_step_good:
  assumes "store_step cfg c c'" and "pool_good cfg c"
  shows "pool_good cfg c' \<and> manifests_kept cfg (fst c) (fst c')"
  using assms
proof (cases rule: store_step.cases)
  case (run i ts key f e b b' t)
  have len: "i < length ts" "ts ! i = (key, Call f)" using run by auto
  then have "(key, Call f) \<in> set ts" by (metis nth_mem)
  then obtain P where P: "stable cfg key P" "P b" "good cfg key P (Call f)"
    using assms(2) run(1) by (auto simp: pool_good_def)
  have ok: "bucket_ok cfg b" using assms(2) run(1) by (simp add: pool_good_def)
  have nxt: "bucket_ok cfg b' \<and> guar cfg key b b' \<and> (\<exists>Q. stable cfg key Q \<and> Q b' \<and> good cfg key Q t)"
    using P(3) by (rule good.cases) (use ok P(2) run(5) in blast)+
  have dist: "distinct (map fst ts)" using assms(2) run(1) by (simp add: pool_good_def)
  have keys: "map fst (ts[i := (key, t)]) = map fst ts" using len by (simp add: map_update list_update_same_conv)
  have "\<exists>Q. stable cfg key' Q \<and> Q b' \<and> good cfg key' Q t'" if mem: "(key', t') \<in> set (ts[i := (key, t)])" for key' t'
  proof -
    obtain j where j: "j < length ts" "ts[i := (key, t)] ! j = (key', t')" using mem by (auto simp: in_set_conv_nth)
    show ?thesis
    proof (cases "j = i")
      case True
      then show ?thesis using j nxt len by auto
    next
      case False
      then have tj: "ts ! j = (key', t')" using j by simp
      then obtain Q where Q: "stable cfg key' Q" "Q b" "good cfg key' Q t'"
        using pool_good_nth [of cfg b ts j] assms(2) run(1) j(1) by blast
      have ne: "key \<noteq> key'" using dist False j(1) len tj by (metis fst_conv length_map nth_eq_iff_index_eq nth_map)
      have "guar cfg key b b'" using nxt by (rule conjunct2 [THEN conjunct1])
      from stableD [OF Q(1) ne this Q(2)] have "Q b'" .
      then show ?thesis using Q(1,3) by blast
    qed
  qed
  then show ?thesis using run(1,2) nxt dist keys by (auto simp: pool_good_def manifests_kept_def guar_def)
next
  case (accept u ts b)
  let ?new = "(upload_staging cfg u, upload_and_commit cfg u)"
  have "\<exists>P. stable cfg key P \<and> P b \<and> good cfg key P t" if "(key, t) \<in> set (ts @ [?new])" for key t
  proof (cases "(key, t) = ?new")
    case True
    then show ?thesis using good_upload [OF accept(3), of cfg] by (intro exI [of _ "\<lambda>b. True"]) simp
  next
    case False
    then show ?thesis using that assms(2) accept(1) by (auto simp: pool_good_def)
  qed
  moreover have "bucket_ok cfg b" "distinct (map fst ts)" using assms(2) accept(1) by (simp_all add: pool_good_def)
  ultimately show ?thesis using accept by (auto simp: pool_good_def manifests_kept_def)
qed

text \<open>
  C18. As long as every running upload has a staging key of its own and no Artifact is deleted, uploads
  commit consistently, however their calls to S3 interleave and fail: every committed
  Artifact keeps its content with the digest of its manifest, a manifest that was once written never
  changes, and every upload that returns, returns the committed manifest, its own or that of the
  upload that came first. Both conditions are part of \<open>store_step\<close>; without the first the claim is
  false, as the end of this theory shows.
\<close>

theorem artifact_commit_consistent:
  assumes "bucket_ok cfg b0" and "(store_step cfg)\<^sup>*\<^sup>* (b0, []) (b, ts)"
  shows "bucket_ok cfg b \<and> manifests_kept cfg b0 b
    \<and> (\<forall>key d. (key, Done (Inr d)) \<in> set ts \<longrightarrow> b (manifest_key cfg (ad_artifact d)) = Some (ManifestObject d))"
proof -
  have "pool_good cfg (b, ts) \<and> manifests_kept cfg b0 b"
    using assms(2)
  proof (induction "(b, ts)" arbitrary: b ts rule: rtranclp_induct)
    case base
    then show ?case using assms(1) by (simp add: pool_good_def manifests_kept_def)
  next
    case (step c)
    then have "pool_good cfg c \<and> manifests_kept cfg b0 (fst c)" by (cases c) auto
    then show ?case using store_step_good [OF step(2)] by (simp add: manifests_kept_def)
  qed
  moreover have "committed cfg d b" if pool: "pool_good cfg (b, ts)" "(key, Done (Inr d)) \<in> set ts" for key d
  proof -
    obtain P where P: "stable cfg key P \<and> P b \<and> good cfg key P (Done (Inr d))" using pool_good_task [OF pool] ..
    show ?thesis by (rule good_Done [OF P [THEN conjunct2, THEN conjunct2] P [THEN conjunct2, THEN conjunct1]])
  qed
  ultimately show ?thesis unfolding pool_good_def committed_def fst_conv by blast
qed

text \<open>A schedule: which task takes the next step, and what S3 answers.\<close>

fun play :: "(nat \<times> s3_env) list \<Rightarrow> bucket \<times> (string \<times> upload_task) list \<Rightarrow> bucket \<times> (string \<times> upload_task) list" where
  "play [] c = c"
| "play ((i, e) # es) (b, ts) =
     (case snd (ts ! i) of
        Done r \<Rightarrow> play es (b, ts)
      | Call f \<Rightarrow> (case f e b of (b', t) \<Rightarrow> play es (b', ts[i := (fst (ts ! i), t)])))"

lemma play_reach:
  "\<forall>(i, e)\<in>set es. i < length ts \<Longrightarrow> (store_step cfg)\<^sup>*\<^sup>* (b, ts) (play es (b, ts))"
proof (induction es "(b, ts)" arbitrary: b ts rule: play.induct)
  case (2 i e es b ts)
  show ?case
  proof (cases "snd (ts ! i)")
    case (Done r)
    then show ?thesis using 2 by simp
  next
    case (Call f)
    obtain b' t where f: "f e b = (b', t)" by fastforce
    have "store_step cfg (b, ts) (b', ts[i := (fst (ts ! i), t)])"
      using 2(3) Call f by (intro store_step.run [where f = f and e = e]) (auto simp: prod_eq_iff)
    moreover have "(store_step cfg)\<^sup>*\<^sup>* (b', ts[i := (fst (ts ! i), t)]) (play es (b', ts[i := (fst (ts ! i), t)]))"
      using 2(2) [OF Call f [symmetric]] 2(3) by simp
    ultimately show ?thesis using Call f by (simp add: converse_rtranclp_into_rtranclp)
  qed
qed simp

definition served :: "int \<Rightarrow> s3_env" where
  "served now = \<lparr>sa_answer = Served, sa_now = now, sa_valid = True, sa_gone = []\<rparr>"

lemma upload_plan_single:
  assumes "up_chunks u = [raw]" and "raw \<noteq> []" and "length raw < n" and "int (length raw) \<le> up_limit u"
    and "up_ended u" and "up_expected u = None"
  shows "upload_plan cfg n u = ([raw], Inr ())"
proof -
  have "take_parts n raw = ([], raw)" using assms(3) by (subst take_parts.simps) simp
  then show ?thesis using assms by (simp add: upload_plan_def)
qed

lemma upload_descriptor_simps [simp]:
  "ad_artifact (upload_descriptor cfg u now) = up_artifact u"
  "ad_sha256 (upload_descriptor cfg u now) = sha256_bytes cfg (concat (up_chunks u))"
  "ad_size (upload_descriptor cfg u now) = int (length (concat (up_chunks u)))"
  by (simp_all add: upload_descriptor_def Let_def)

text \<open>The equations that run an upload step by step.\<close>

lemmas upload_run = served_def upload_and_commit_def inspect_then_def upload_create_def upload_stream_def
  complete_parts_def upload_commit_def commit_def commit_copy_def commit_manifest_def discard_key_def Let_def

definition sample_run :: "bucket \<times> (string \<times> upload_task) list" where
  "sample_run = play (replicate 8 (0, served 5))
     (Map.empty, [(upload_staging sample_store (sample_upload [[1, 2]]), upload_and_commit sample_store (sample_upload [[1, 2]]))])"

lemma sample_run_done: "\<exists>b key d. sample_run = (b, [(key, Done (Inr d))])"
proof -
  have plan: "upload_plan sample_store part_size (sample_upload [[1, 2]]) = ([[1, 2]], Inr ())"
    by (rule upload_plan_single) (simp_all add: sample_upload_def part_size_def)
  have st: "upload_staging sample_store (sample_upload [[1, 2]]) = staging_key sample_store ''a'' ''u''"
      "up_artifact (sample_upload [[1, 2]]) = ''a''"
    by (simp_all add: upload_staging_def sample_upload_def)
  show ?thesis by (simp add: sample_run_def numeral_eq_Suc upload_run plan st)
qed

lemma artifact_commit_consistent_witness:
  "\<exists>b key d. (store_step sample_store)\<^sup>*\<^sup>* (Map.empty, []) (b, [(key, Done (Inr d))]) \<and> bucket_ok sample_store b
     \<and> b (manifest_key sample_store (ad_artifact d)) = Some (ManifestObject d)"
proof -
  obtain b key d where run: "sample_run = (b, [(key, Done (Inr d))])" using sample_run_done by blast
  let ?u = "sample_upload [[1, 2]]"
  have "store_step sample_store (Map.empty, []) (Map.empty, [] @ [(upload_staging sample_store ?u, upload_and_commit sample_store ?u)])"
    by (rule store_step.accept) (simp_all add: sample_upload_def slash_free_def)
  moreover have "(store_step sample_store)\<^sup>*\<^sup>* (Map.empty, [(upload_staging sample_store ?u, upload_and_commit sample_store ?u)]) sample_run"
    unfolding sample_run_def by (rule play_reach) (simp add: set_replicate_conv_if)
  ultimately have "(store_step sample_store)\<^sup>*\<^sup>* (Map.empty, []) (b, [(key, Done (Inr d))])"
    using run by (simp add: converse_rtranclp_into_rtranclp)
  moreover have "bucket_ok sample_store Map.empty" by (simp add: bucket_ok_def)
  ultimately show ?thesis using artifact_commit_consistent [of sample_store Map.empty b "[(key, Done (Inr d))]"]
    by (intro exI [of _ b] exI [of _ key] exI [of _ d]) simp
qed

section \<open>One capability used twice at the same time\<close>

lemma not_bucket_ok:
  "slash_free a \<Longrightarrow> b (manifest_key cfg a) = Some (ManifestObject d) \<Longrightarrow>
     b (content_key cfg a (ad_sha256 d)) = Some (BytesObject raw) \<Longrightarrow> sha256_bytes cfg raw \<noteq> ad_sha256 d \<Longrightarrow>
     \<not> bucket_ok cfg b"
  by (auto simp: bucket_ok_def artifact_ok_def)

text \<open>
  C19. The staging key is made from the capability alone, so two requests that use one upload
  capability at the same time write the same staging object. When it was issued without an expected
  digest and the bodies differ, the first upload can copy the body of the second: it returns and
  commits a descriptor whose digest and size are those of its own body, while the content is the
  other one.
\<close>

theorem shared_staging_corrupts:
  assumes "b (manifest_key cfg (up_artifact u)) = None" and "up_ended u" and "up_expected u = None"
    and "x \<noteq> []" and "y \<noteq> []" and "length x < part_size" and "length y < part_size"
    and "int (length x) \<le> up_limit u" and "int (length y) \<le> up_limit u"
    and "sha256_bytes cfg x \<noteq> sha256_bytes cfg y" and "slash_free (up_artifact u)"
  shows "let one = u\<lparr>up_chunks := [x]\<rparr>; two = u\<lparr>up_chunks := [y]\<rparr>;
      (b', ts) = play (replicate 4 (0, served t) @ replicate 4 (1, served t) @ replicate 4 (0, served t))
        (b, [(upload_staging cfg one, upload_and_commit cfg one), (upload_staging cfg two, upload_and_commit cfg two)])
    in \<exists>d. snd (ts ! 0) = Done (Inr d) \<and> b' (manifest_key cfg (up_artifact u)) = Some (ManifestObject d)
      \<and> ad_sha256 d = sha256_bytes cfg x \<and> ad_size d = int (length x)
      \<and> b' (content_key cfg (up_artifact u) (ad_sha256 d)) = Some (BytesObject y) \<and> \<not> bucket_ok cfg b'"
proof -
  let ?one = "u\<lparr>up_chunks := [x]\<rparr>" and ?two = "u\<lparr>up_chunks := [y]\<rparr>"
  have plan: "upload_plan cfg part_size ?one = ([x], Inr ())" "upload_plan cfg part_size ?two = ([y], Inr ())"
    using assms by (simp_all add: upload_plan_single)
  have keys: "upload_staging cfg (u\<lparr>up_chunks := z\<rparr>) = staging_key cfg (up_artifact u) (up_upload u)" for z
    by (simp add: upload_staging_def)
  show ?thesis
    using assms by (simp add: numeral_eq_Suc upload_run plan keys not_bucket_ok)
qed

lemma shared_staging_corrupts_witness:
  "\<exists>b' ts d. play (replicate 4 (0, served 5) @ replicate 4 (1, served 5) @ replicate 4 (0, served 5))
        (Map.empty, [(staging_key sample_store ''a'' ''u'', upload_and_commit sample_store (sample_upload [[1]])),
           (staging_key sample_store ''a'' ''u'', upload_and_commit sample_store (sample_upload [[2, 3]]))]) = (b', ts)
      \<and> b' (manifest_key sample_store ''a'') = Some (ManifestObject d) \<and> ad_size d = 1
      \<and> b' (content_key sample_store ''a'' (ad_sha256 d)) = Some (BytesObject [2, 3])"
proof -
  let ?u = "sample_upload []"
  have u: "up_artifact ?u = ''a''" "up_ended ?u" "up_expected ?u = None" "up_limit ?u = 9" "slash_free (up_artifact ?u)"
      "?u\<lparr>up_chunks := [z]\<rparr> = sample_upload [z]" "upload_staging sample_store (sample_upload [z]) = staging_key sample_store ''a'' ''u''" for z
    by (simp_all add: sample_upload_def slash_free_def upload_staging_def)
  have "sha256_bytes sample_store [1] \<noteq> sha256_bytes sample_store [2, 3]" by code_simp
  from shared_staging_corrupts [OF _ u(2,3) _ _ _ _ _ _ this u(5), where t = 5 and b = Map.empty, unfolded u Let_def]
  show ?thesis by (auto simp: part_size_def split: prod.splits)
qed

end
