(* ===== verification/Artifact_App.thy ===== *)
theory Artifact_App
  imports Artifact_Store
begin

text \<open>
  The HTTP surface of the Artifact service, \<open>src/src/artifact_service/app.py\<close>: who may call a route,
  the capabilities that it issues for one upload or one download, and the checks of a transfer before
  the store is touched. A raised \<open>HTTPException\<close> is the status and detail on the \<open>Inl\<close> side.
\<close>

section \<open>Settings, requests and errors\<close>

record app_cfg =
  api_key :: string
  capability_secret :: string
  capability_ttl :: int
  max_file_bytes :: int
  transfer_base_url :: string

datatype http_error = HttpError int string | ServerError

record create_upload_request =
  cu_owner :: string
  cu_filename :: string
  cu_media :: string
  cu_max_bytes :: int
  cu_expected :: "string option"
  cu_artifact :: "string option"
  cu_subject :: "string option"
  cu_app :: "string option"

record upload_target =
  ut_artifact :: string
  ut_upload :: string
  ut_url :: string
  ut_token :: string
  ut_expires :: int

record download_target =
  dt_artifact :: string
  dt_url :: string
  dt_token :: string
  dt_expires :: int

section \<open>Authentication\<close>

definition bearer :: "string \<Rightarrow> string option" where
  "bearer authorization =
     (if starts_with ''Bearer '' authorization then Some (removeprefix ''Bearer '' authorization) else None)"

definition authenticate :: "app_cfg \<Rightarrow> string \<Rightarrow> string \<Rightarrow> bool" where
  "authenticate cfg path authorization \<longleftrightarrow>
     path \<in> {''/healthz'', ''/readyz''} \<or> starts_with ''/v1/transfers/'' path
     \<or> bearer authorization = Some (api_key cfg)"

definition capability :: "grant_env \<Rightarrow> app_cfg \<Rightarrow> string \<Rightarrow> string \<Rightarrow> int \<Rightarrow> http_error + obj" where
  "capability E cfg authorization operation now =
     (case bearer authorization of
        None \<Rightarrow> Inl (HttpError 401 ''Unauthorized'')
      | Some token \<Rightarrow>
          (case verify_grant E token (capability_secret cfg) ''artifact-transfer'' (Some operation) now 900 of
             Inl x \<Rightarrow> Inl (HttpError 403 ''Artifact capability is invalid'')
           | Inr claims \<Rightarrow>
               require (jget claims ''iss'' = JStr ''artifact-service''
                   \<and> (case as_pyint (jget claims ''exp'') of None \<Rightarrow> False | Some t \<Rightarrow> now < t))
                 (HttpError 403 ''Artifact capability is invalid'') (Inr claims)))"

definition claim_string :: "obj \<Rightarrow> string \<Rightarrow> http_error + string" where
  "claim_string claims name =
     (case jget claims name of
        JStr (c # cs) \<Rightarrow> Inr (c # cs)
      | _ \<Rightarrow> Inl (HttpError 403 (''Artifact capability '' @ name @ '' is invalid'')))"

section \<open>Uploads\<close>

definition upload_claims :: "create_upload_request \<Rightarrow> string \<Rightarrow> string \<Rightarrow> obj" where
  "upload_claims body aid uid =
     [(''artifact_id'', JStr aid), (''upload_id'', JStr uid), (''owner_id'', JStr (cu_owner body)),
      (''filename'', JStr (cu_filename body)), (''media_type'', JStr (cu_media body)),
      (''max_bytes'', JInt (cu_max_bytes body)), (''expected_sha256'', opt_str (cu_expected body)),
      (''subject_id'', opt_str (cu_subject body)), (''app_id'', opt_str (cu_app body))]"

text \<open>\<open>uuid1\<close>, \<open>uuid2\<close> and \<open>nonce\<close> are fresh values; the clock is read once for issuing and once for checking.\<close>

definition create_upload ::
    "grant_env \<Rightarrow> app_cfg \<Rightarrow> create_upload_request \<Rightarrow> string \<Rightarrow> string \<Rightarrow> string \<Rightarrow> int \<Rightarrow> int \<Rightarrow> http_error + upload_target" where
  "create_upload E cfg body uuid1 uuid2 nonce issued checked =
     require (cu_max_bytes body \<le> max_file_bytes cfg) (HttpError 413 ''Artifact exceeds the service limit'')
       (let aid = (case cu_artifact body of Some (c # cs) \<Rightarrow> c # cs | _ \<Rightarrow> ''artifact_'' @ uuid1);
            uid = ''upload_'' @ uuid2;
            token = issue_grant E (capability_secret cfg) ''artifact-service'' ''artifact-transfer'' ''artifact_upload''
              (capability_ttl cfg) issued nonce (upload_claims body aid uid)
        in case verify_grant E token (capability_secret cfg) ''artifact-transfer'' (Some ''artifact_upload'') checked 900 of
             Inl x \<Rightarrow> Inl ServerError
           | Inr claims \<Rightarrow>
               (case as_pyint (jget claims ''exp'') of
                  None \<Rightarrow> Inl ServerError
                | Some e \<Rightarrow> Inr \<lparr>ut_artifact = aid, ut_upload = uid,
                    ut_url = transfer_base_url cfg @ ''/v1/transfers/uploads/'' @ aid @ ''/'' @ uid,
                    ut_token = token, ut_expires = e\<rparr>))"

definition check_length :: "string option \<Rightarrow> int \<Rightarrow> http_error + unit" where
  "check_length content_length max_bytes =
     (case content_length of
        None \<Rightarrow> Inr ()
      | Some text \<Rightarrow>
          (case py_int text of
             None \<Rightarrow> Inl (HttpError 400 ''Content-Length is invalid'')
           | Some n \<Rightarrow>
               require (0 \<le> n) (HttpError 400 ''Content-Length is invalid'')
                 (require (n \<le> max_bytes) (HttpError 413 ''Artifact exceeds the upload limit'') (Inr ()))))"

text \<open>The checks of the PUT route; what passes is the upload that the store gets.\<close>

definition upload_request ::
    "grant_env \<Rightarrow> app_cfg \<Rightarrow> string \<Rightarrow> string \<Rightarrow> string \<Rightarrow> string option \<Rightarrow> int \<Rightarrow> bytes list \<Rightarrow> bool \<Rightarrow> http_error + upload" where
  "upload_request E cfg aid uid authorization content_length now chunks ended =
     rbind (capability E cfg authorization ''artifact_upload'' now) (\<lambda>claims.
       require (jget claims ''artifact_id'' = JStr aid \<and> jget claims ''upload_id'' = JStr uid)
         (HttpError 403 ''Upload capability binding does not match'')
         (case as_pyint (jget claims ''max_bytes'') of
            None \<Rightarrow> Inl (HttpError 403 ''Upload capability limit is invalid'')
          | Some limit \<Rightarrow>
              require (0 < limit) (HttpError 403 ''Upload capability limit is invalid'')
                (rbind (check_length content_length limit) (\<lambda>_.
                  rbind (claim_string claims ''owner_id'') (\<lambda>owner.
                    rbind (claim_string claims ''filename'') (\<lambda>filename.
                      rbind (claim_string claims ''media_type'') (\<lambda>media.
                        Inr \<lparr>up_artifact = aid, up_upload = uid, up_chunks = chunks, up_ended = ended,
                             up_owner = owner, up_filename = filename, up_media = media, up_limit = limit,
                             up_expected = as_str (jget claims ''expected_sha256'')\<rparr>)))))))"

section \<open>Downloads\<close>

definition create_download ::
    "grant_env \<Rightarrow> app_cfg \<Rightarrow> string \<Rightarrow> descriptor \<Rightarrow> string \<Rightarrow> string option \<Rightarrow> string \<Rightarrow> int \<Rightarrow> int \<Rightarrow> http_error + download_target" where
  "create_download E cfg aid d subject app nonce issued checked =
     (let token = issue_grant E (capability_secret cfg) ''artifact-service'' ''artifact-transfer'' ''artifact_download''
            (capability_ttl cfg) issued nonce
            [(''artifact_id'', JStr aid), (''subject_id'', JStr subject), (''app_id'', opt_str app),
             (''max_bytes'', JInt (ad_size d))]
      in case verify_grant E token (capability_secret cfg) ''artifact-transfer'' (Some ''artifact_download'') checked 900 of
           Inl x \<Rightarrow> Inl ServerError
         | Inr claims \<Rightarrow>
             (case as_pyint (jget claims ''exp'') of
                None \<Rightarrow> Inl ServerError
              | Some e \<Rightarrow> Inr \<lparr>dt_artifact = aid, dt_url = transfer_base_url cfg @ ''/v1/transfers/downloads/'' @ aid,
                  dt_token = token, dt_expires = e\<rparr>))"

definition download_request :: "grant_env \<Rightarrow> app_cfg \<Rightarrow> string \<Rightarrow> string \<Rightarrow> int \<Rightarrow> http_error + unit" where
  "download_request E cfg aid authorization now =
     rbind (capability E cfg authorization ''artifact_download'' now) (\<lambda>claims.
       require (jget claims ''artifact_id'' = JStr aid) (HttpError 403 ''Download capability binding does not match'')
         (Inr ()))"

text \<open>The exception handlers for the errors of the store; other exceptions are a server error.\<close>

fun artifact_status :: "art_error \<Rightarrow> http_error" where
  "artifact_status (ArtifactNotFound aid) = HttpError 404 ''Artifact not found''"
| "artifact_status (ArtifactConflict m) = HttpError 409 m"
| "artifact_status (ArtifactInvalid m) = HttpError 422 m"
| "artifact_status StorageFailed = ServerError"
| "artifact_status BodyFailed = ServerError"

section \<open>A capability is what its upload request says\<close>

lemma issued_verifies:
  assumes "json_loads E (utf8 (json_dumps E (JObj p))) = Some (JObj (canon_obj p))"
    and "p = grant_payload ''artifact-service'' ''artifact-transfer'' op ttl issued nonce claims"
    and "length (sign_payload E secret p) \<le> 64 * 1024" and "reserved_claims \<inter> set (map fst claims) = {}"
    and "0 < ttl" and "ttl \<le> 900" and "issued \<le> t + 30" and "t < issued + ttl" and "nonce \<noteq> []"
  shows "verify_grant E (sign_payload E secret p) secret ''artifact-transfer'' (Some op) t 900 = Inr (canon_obj p)"
    and "op' \<noteq> op \<Longrightarrow> \<exists>x. verify_grant E (sign_payload E secret p) secret ''artifact-transfer'' (Some op') t 900 = Inl x"
proof -
  note v = verify_sign_payload [OF assms(1,3)]
  show "verify_grant E (sign_payload E secret p) secret ''artifact-transfer'' (Some op) t 900 = Inr (canon_obj p)"
    by (simp only: v) (unfold assms(2), rule check_issued_claims, use assms in auto)
  assume "op' \<noteq> op"
  then have "check_claims (canon_obj p) ''artifact-transfer'' (Some op') t 900 \<noteq> Inr q" for q
    using grant_payload_fixed(3) [OF assms(4)] assms(2)
    by (auto simp: check_claims_Inr jget_canon_obj [OF distinct_grant_payload])
  then show "\<exists>x. verify_grant E (sign_payload E secret p) secret ''artifact-transfer'' (Some op') t 900 = Inl x"
    unfolding v by (cases "check_claims (canon_obj p) ''artifact-transfer'' (Some op') t 900") auto
qed

lemma claim_lookup:
  assumes "distinct (map fst claims)" and "k \<in> set (map fst claims)"
  shows "jget (grant_payload i a op ttl now n claims) k = jget claims k"
  unfolding grant_payload_def using jget_jmerge_in assms by blast

lemma bearer_token: "bearer (''Bearer '' @ token) = Some token"
  by (simp only: bearer_def starts_with_append removeprefix_append if_True)

lemmas bearer_token' [simp] = bearer_token [unfolded append.simps]

definition sent_ok :: "create_upload_request \<Rightarrow> bool" where
  "sent_ok body \<longleftrightarrow> cu_owner body \<noteq> [] \<and> cu_filename body \<noteq> [] \<and> cu_media body \<noteq> [] \<and> 0 < cu_max_bytes body"

text \<open>
  C20. The capability that \<open>create_upload\<close> returns is the request it was made for: until it expires, a
  PUT with it to its own URL reaches the store with exactly the owner, file name, media type, limit and
  digest of the request, while a PUT to any other Artifact or upload id is refused with 403, and so
  is every download with it.
\<close>

theorem upload_capability_roundtrip:
  assumes "create_upload E cfg body uuid1 uuid2 nonce issued checked = Inr target" and "sent_ok body"
    and "p = grant_payload ''artifact-service'' ''artifact-transfer'' ''artifact_upload'' (capability_ttl cfg) issued nonce
        (upload_claims body (ut_artifact target) (ut_upload target))"
    and "json_loads E (utf8 (json_dumps E (JObj p))) = Some (JObj (canon_obj p))"
    and "length (ut_token target) \<le> 64 * 1024"
    and "0 < capability_ttl cfg" and "capability_ttl cfg \<le> 900" and "nonce \<noteq> []"
    and "issued \<le> t + 30" and "t < issued + capability_ttl cfg"
  shows "upload_request E cfg (ut_artifact target) (ut_upload target) (''Bearer '' @ ut_token target) None t chunks ended =
        Inr \<lparr>up_artifact = ut_artifact target, up_upload = ut_upload target, up_chunks = chunks, up_ended = ended,
          up_owner = cu_owner body, up_filename = cu_filename body, up_media = cu_media body,
          up_limit = cu_max_bytes body, up_expected = cu_expected body\<rparr>
    \<and> (\<forall>a u. (a, u) \<noteq> (ut_artifact target, ut_upload target) \<longrightarrow>
        upload_request E cfg a u (''Bearer '' @ ut_token target) None t chunks ended =
          Inl (HttpError 403 ''Upload capability binding does not match''))
    \<and> download_request E cfg (ut_artifact target) (''Bearer '' @ ut_token target) t =
        Inl (HttpError 403 ''Artifact capability is invalid'')"
proof -
  let ?claims = "upload_claims body (ut_artifact target) (ut_upload target)"
  have token: "ut_token target = sign_payload E (capability_secret cfg) p"
    using assms(1) unfolding assms(3)
    by (auto simp: create_upload_def issue_grant_def Let_def require_Inr_iff split: sum.splits option.splits)
  have fixed: "reserved_claims \<inter> set (map fst ?claims) = {}" by (simp add: upload_claims_def)
  have dist: "distinct (map fst ?claims)" by (simp add: upload_claims_def)
  note v = issued_verifies [OF assms(4,3) _ fixed assms(6,7,9,10,8), of "capability_secret cfg"]
  have len: "length (sign_payload E (capability_secret cfg) p) \<le> 64 * 1024" using assms(5) token by simp
  have get: "jget (canon_obj p) k = canon (jget ?claims k)" if "k \<in> set (map fst ?claims)" for k
    unfolding assms(3) jget_canon_obj [OF distinct_grant_payload] claim_lookup [OF dist that] ..
  have std: "jget (canon_obj p) ''iss'' = JStr ''artifact-service''"
      "jget (canon_obj p) ''exp'' = JInt (issued + capability_ttl cfg)"
    unfolding assms(3) jget_canon_obj [OF distinct_grant_payload] grant_payload_fixed [OF fixed] by simp_all
  have cap: "capability E cfg (''Bearer '' @ ut_token target) ''artifact_upload'' t = Inr (canon_obj p)"
    using v(1) [OF len] token std assms(10) by (simp add: capability_def)
  have get_claims: "jget (canon_obj p) ''artifact_id'' = JStr (ut_artifact target)"
      "jget (canon_obj p) ''upload_id'' = JStr (ut_upload target)" "jget (canon_obj p) ''owner_id'' = JStr (cu_owner body)"
      "jget (canon_obj p) ''filename'' = JStr (cu_filename body)" "jget (canon_obj p) ''media_type'' = JStr (cu_media body)"
      "jget (canon_obj p) ''max_bytes'' = JInt (cu_max_bytes body)"
      "as_str (jget (canon_obj p) ''expected_sha256'') = cu_expected body"
    using get by (simp_all add: upload_claims_def) (cases "cu_expected body"; simp)
  have strings: "claim_string (canon_obj p) ''owner_id'' = Inr (cu_owner body)"
      "claim_string (canon_obj p) ''filename'' = Inr (cu_filename body)"
      "claim_string (canon_obj p) ''media_type'' = Inr (cu_media body)"
    using assms(2) get_claims by (auto simp: claim_string_def sent_ok_def split: list.splits)
  have down: "\<exists>x. verify_grant E (ut_token target) (capability_secret cfg) ''artifact-transfer'' (Some ''artifact_download'') t 900 = Inl x"
    unfolding token by (rule v(2) [OF len]) simp
  have ok: "0 < cu_max_bytes body" using assms(2) by (simp add: sent_ok_def)
  show ?thesis
    using cap get_claims strings ok down
    by (auto simp: upload_request_def check_length_def download_request_def capability_def)
qed

definition sample_body :: create_upload_request where
  "sample_body = \<lparr>cu_owner = ''o'', cu_filename = ''f.txt'', cu_media = ''text/plain'', cu_max_bytes = 10,
     cu_expected = None, cu_artifact = None, cu_subject = None, cu_app = None\<rparr>"

definition sample_payload :: obj where
  "sample_payload = grant_payload ''artifact-service'' ''artifact-transfer'' ''artifact_upload'' 300 100 ''n''
     (upload_claims sample_body ''artifact_1'' ''upload_2'')"

definition sample_codec :: grant_env where
  "sample_codec = \<lparr>hmac_sha256 = (\<lambda>k m. k @ m), json_dumps = (\<lambda>v. ''payload''),
     json_loads = (\<lambda>b. Some (JObj (canon_obj sample_payload)))\<rparr>"

definition sample_app :: app_cfg where
  "sample_app = \<lparr>api_key = ''key'', capability_secret = ''secret'', capability_ttl = 300, max_file_bytes = 100,
     transfer_base_url = ''http://artifacts''\<rparr>"

lemma sample_create:
  "create_upload sample_codec sample_app sample_body ''1'' ''2'' ''n'' 100 101 =
     Inr \<lparr>ut_artifact = ''artifact_1'', ut_upload = ''upload_2'',
       ut_url = ''http://artifacts/v1/transfers/uploads/artifact_1/upload_2'',
       ut_token = sign_payload sample_codec ''secret'' sample_payload, ut_expires = 400\<rparr>"
proof -
  have "length (sign_payload sample_codec ''secret'' sample_payload) = 33" by code_simp
  then have "verify_grant sample_codec (sign_payload sample_codec ''secret'' sample_payload) ''secret'' ''artifact-transfer''
      (Some ''artifact_upload'') 101 900 = Inr (canon_obj sample_payload)"
    by (intro issued_verifies(1) [OF _ sample_payload_def]) (auto simp: sample_codec_def upload_claims_def)
  moreover have "jget (canon_obj sample_payload) ''exp'' = JInt 400" by code_simp
  moreover have "cu_artifact sample_body = None" "cu_max_bytes sample_body = 10" by (simp_all add: sample_body_def)
  moreover have "capability_secret sample_app = ''secret''" "capability_ttl sample_app = 300" "max_file_bytes sample_app = 100"
      "transfer_base_url sample_app = ''http://artifacts''"
    by (simp_all add: sample_app_def)
  ultimately show ?thesis
    by (simp add: create_upload_def issue_grant_def Let_def flip: sample_payload_def)
qed

lemma upload_capability_roundtrip_witness:
  "upload_request sample_codec sample_app ''artifact_1'' ''upload_2''
      (''Bearer '' @ sign_payload sample_codec ''secret'' sample_payload) None 200 [[1], [2]] True =
     Inr \<lparr>up_artifact = ''artifact_1'', up_upload = ''upload_2'', up_chunks = [[1], [2]], up_ended = True, up_owner = ''o'',
       up_filename = ''f.txt'', up_media = ''text/plain'', up_limit = 10, up_expected = None\<rparr>"
proof -
  have "length (sign_payload sample_codec ''secret'' sample_payload) = 33" by code_simp
  then show ?thesis
    using upload_capability_roundtrip [OF sample_create, of sample_payload 200 "[[1], [2]]" True]
    by (simp add: sent_ok_def sample_payload_def sample_codec_def sample_app_def) (simp add: sample_body_def)
qed

end
