(* ===== verification/Responses.thy ===== *)
theory Responses
  imports Codec
begin

text \<open>
  The Responses of the adapter: the record of a response,
  \<open>src/src/codex_responses_adapter/models.py\<close>, and the builder that turns the notifications of the
  Codex app-server into the server-sent events of a response,
  \<open>src/src/codex_responses_adapter/events.py\<close>.

  An operation of the builder is a \<open>step\<close>: the events it emits and the builder after it, \<open>None\<close> for an
  uncaught \<open>ValueError\<close>. Nested values are copied where the source copies them (\<open>deepcopy\<close>), so no
  event changes by what happens to the record later; what the service changes in an event before it publishes it is
  \<open>bind_events\<close>. \<open>dumps\<close> is \<open>json.dumps\<close> with the separators of \<open>_json_string\<close>.
\<close>

section \<open>The record of a response\<close>

datatype response_status = RespInProgress | RespCompleted | RespFailed | RespIncomplete

fun response_status_text :: "response_status \<Rightarrow> string" where
  "response_status_text RespInProgress = ''in_progress''"
| "response_status_text RespCompleted = ''completed''"
| "response_status_text RespFailed = ''failed''"
| "response_status_text RespIncomplete = ''incomplete''"

record create_request =
  cq_model :: string
  cq_input :: json
  cq_instructions :: "string option"
  cq_previous :: "string option"
  cq_stream :: bool
  cq_background :: bool
  cq_metadata :: "obj option"
  cq_tools :: "obj list option"
  cq_store :: "bool option"
  cq_max_output :: "int option"
  cq_reasoning :: "obj option"
  cq_service_tier :: "string option"
  cq_extra :: obj

record response =
  rr_id :: string
  rr_model :: string
  rr_created :: int
  rr_status :: response_status
  rr_instructions :: "string option"
  rr_previous :: "string option"
  rr_metadata :: obj
  rr_input_items :: "obj list"
  rr_store :: bool
  rr_stream :: bool
  rr_reasoning :: "obj option"
  rr_service_tier :: "string option"
  rr_base_url :: string
  rr_sandbox :: "string option"
  rr_workspace :: "string option"
  rr_recoverable :: bool
  rr_thread :: "string option"
  rr_turn :: "string option"
  rr_message_id :: string
  rr_message_index :: "nat option"
  rr_text :: string
  rr_started :: bool
  rr_completed :: bool
  rr_items :: "obj list"
  rr_indexes :: "(string \<times> nat) list"
  rr_targets :: "(string \<times> obj) list"
  rr_error :: "obj option"
  rr_incomplete :: "obj option"
  rr_usage :: "obj option"

text \<open>\<open>rid\<close> and \<open>mid\<close> are the fresh \<open>resp_\<close> and \<open>msg_\<close> ids, \<open>now\<close> the clock.\<close>

definition create_response :: "create_request \<Rightarrow> obj list \<Rightarrow> string \<Rightarrow> string \<Rightarrow> string \<Rightarrow> int \<Rightarrow> response" where
  "create_response q items base rid mid now =
     \<lparr>rr_id = rid, rr_model = cq_model q, rr_created = now, rr_status = RespInProgress,
      rr_instructions = cq_instructions q, rr_previous = cq_previous q,
      rr_metadata = (case cq_metadata q of Some d \<Rightarrow> d | None \<Rightarrow> []), rr_input_items = items,
      rr_store = (cq_store q \<noteq> Some False), rr_stream = cq_stream q, rr_reasoning = cq_reasoning q,
      rr_service_tier = cq_service_tier q, rr_base_url = base, rr_sandbox = None, rr_workspace = None,
      rr_recoverable = False, rr_thread = None, rr_turn = None, rr_message_id = mid, rr_message_index = None,
      rr_text = [], rr_started = False, rr_completed = False, rr_items = [], rr_indexes = [],
      rr_targets = [], rr_error = None, rr_incomplete = None, rr_usage = None\<rparr>"

definition output_index :: "response \<Rightarrow> string \<Rightarrow> nat option" where
  "output_index r i = map_of (rr_indexes r) i"

text \<open>An item without an id is a \<open>ValueError\<close>; a known id keeps its place.\<close>

definition add_output_item :: "obj \<Rightarrow> response \<Rightarrow> (nat \<times> response) option" where
  "add_output_item item r =
     (case as_str (jget item ''id'') of
        None \<Rightarrow> None
      | Some i \<Rightarrow>
          if i = [] then None
          else (case output_index r i of
              Some k \<Rightarrow> Some (k, r\<lparr>rr_items := (rr_items r)[k := item]\<rparr>)
            | None \<Rightarrow>
                (let k = length (rr_items r)
                 in Some (k, r\<lparr>rr_indexes := AList.update i k (rr_indexes r), rr_items := rr_items r @ [item]\<rparr>))))"

definition get_output_item :: "response \<Rightarrow> string \<Rightarrow> obj option" where
  "get_output_item r i = map_option (\<lambda>k. rr_items r ! k) (output_index r i)"

definition message_item :: "response \<Rightarrow> obj" where
  "message_item r =
     [(''id'', JStr (rr_message_id r)), (''type'', JStr ''message''),
      (''status'', JStr (if rr_completed r then ''completed'' else ''in_progress'')),
      (''role'', JStr ''assistant''),
      (''content'', JList [JObj [(''type'', JStr ''output_text''), (''text'', JStr (rr_text r)), (''annotations'', JList [])]])]"

definition ensure_message :: "string option \<Rightarrow> response \<Rightarrow> (nat \<times> response) option" where
  "ensure_message item_id r =
     (case (rr_started r, rr_message_index r) of
        (True, Some k) \<Rightarrow> Some (k, r)
      | _ \<Rightarrow>
          (let r1 = r\<lparr>rr_message_id := (case item_id of Some i \<Rightarrow> if i = [] then rr_message_id r else i | None \<Rightarrow> rr_message_id r),
                      rr_started := True\<rparr>
           in map_option (\<lambda>(k, r2). (k, r2\<lparr>rr_message_index := Some k\<rparr>)) (add_output_item (message_item r1) r1)))"

definition sync_message :: "response \<Rightarrow> response option" where
  "sync_message r = (if rr_started r then map_option snd (add_output_item (message_item r) r) else Some r)"

definition register_mcp_app_target :: "string \<Rightarrow> obj \<Rightarrow> response \<Rightarrow> response" where
  "register_mcp_app_target cid target r = r\<lparr>rr_targets := AList.update cid target (rr_targets r)\<rparr>"

definition allowed_mcp_server :: "response \<Rightarrow> string \<Rightarrow> bool" where
  "allowed_mcp_server r server \<longleftrightarrow> list_ex (\<lambda>(c, t). jget t ''server'' = JStr server) (rr_targets r)"

fun opt_obj :: "obj option \<Rightarrow> json" where
  "opt_obj None = JNull"
| "opt_obj (Some d) = JObj d"

text \<open>Runtime reasons are not values of the Responses API.\<close>

definition public_incomplete :: "response \<Rightarrow> obj option" where
  "public_incomplete r =
     (case rr_incomplete r of
        Some d \<Rightarrow>
          if d \<noteq> [] \<and> jget d ''reason'' \<notin> {JStr ''max_output_tokens'', JStr ''content_filter''} then None else Some d
      | None \<Rightarrow> None)"

definition response_json :: "response \<Rightarrow> obj" where
  "response_json r =
     [(''id'', JStr (rr_id r)), (''object'', JStr ''response''), (''created_at'', JInt (rr_created r)),
      (''status'', JStr (response_status_text (rr_status r))), (''background'', JBool False),
      (''error'', opt_obj (rr_error r)), (''incomplete_details'', opt_obj (public_incomplete r)),
      (''instructions'', opt_str (rr_instructions r)), (''max_output_tokens'', JNull),
      (''model'', JStr (rr_model r)), (''output'', JList (map JObj (rr_items r))),
      (''parallel_tool_calls'', JBool True), (''previous_response_id'', opt_str (rr_previous r)),
      (''reasoning'', opt_obj (rr_reasoning r)), (''store'', JBool (rr_store r)),
      (''service_tier'', opt_str (rr_service_tier r)), (''temperature'', JNull),
      (''text'', JObj [(''format'', JObj [(''type'', JStr ''text'')])]), (''tool_choice'', JStr ''auto''),
      (''tools'', JList []), (''top_p'', JNull), (''truncation'', JStr ''disabled''),
      (''usage'', opt_obj (rr_usage r)), (''metadata'', JObj (rr_metadata r))]"

definition to_response :: "response \<Rightarrow> (obj \<times> response) option" where
  "to_response r = map_option (\<lambda>r1. (response_json r1, r1)) (sync_message r)"

section \<open>The values of notifications\<close>

definition nonempty :: "json \<Rightarrow> string option" where
  "nonempty v = (case v of JStr s \<Rightarrow> if s = [] then None else Some s | _ \<Rightarrow> None)"

lemma nonempty_Some: "nonempty v = Some s \<longleftrightarrow> v = JStr s \<and> s \<noteq> []"
  by (cases v) (auto simp: nonempty_def)

lemma nonempty_None: "nonempty v = None \<longleftrightarrow> (\<forall>s. v = JStr s \<longrightarrow> s = [])"
  by (cases v) (auto simp: nonempty_def)

definition or_else :: "'a option \<Rightarrow> 'a option \<Rightarrow> 'a option" where
  "or_else a b = (case a of None \<Rightarrow> b | Some x \<Rightarrow> Some x)"

text \<open>\<open>_status\<close>: spelling variants are merged, an unknown status stays.\<close>

definition status_names :: "(string \<times> string) list" where
  "status_names =
     [(''inprogress'', ''in_progress''), (''calling'', ''in_progress''), (''completed'', ''completed''),
      (''failed'', ''failed''), (''interrupted'', ''interrupted''), (''incomplete'', ''incomplete'')]"

definition status_of :: "json \<Rightarrow> string option" where
  "status_of v =
     map_option (\<lambda>s. let n = lower (filter (\<lambda>c. c \<noteq> CHR ''_'' \<and> c \<noteq> CHR ''-'') s)
       in case map_of status_names n of Some t \<Rightarrow> t | None \<Rightarrow> s) (as_str v)"

fun error_message_keys :: "string list \<Rightarrow> obj \<Rightarrow> string" where
  "error_message_keys [] d = ''Codex app-server execution failed''"
| "error_message_keys (k # ks) d =
     (case or_else (nonempty (jget d k)) (Option.bind (as_obj (jget d k)) (\<lambda>c. nonempty (jget c ''message''))) of
        Some m \<Rightarrow> m
      | None \<Rightarrow> error_message_keys ks d)"

definition error_message :: "obj \<Rightarrow> string" where
  "error_message d = error_message_keys [''message'', ''error'', ''detail''] d"

definition mcp_error :: "json \<Rightarrow> obj" where
  "mcp_error v =
     (case v of
        JObj d \<Rightarrow>
          (case as_int (jget d ''code'') of
             Some code \<Rightarrow>
               [(''type'', JStr ''mcp_protocol_error''), (''code'', JInt code), (''message'', JStr (error_message d))]
           | None \<Rightarrow> [(''type'', JStr ''mcp_tool_execution_error''), (''content'', v)])
      | JStr s \<Rightarrow> [(''type'', JStr ''mcp_tool_execution_error''), (''content'', v)]
      | _ \<Rightarrow> [(''type'', JStr ''mcp_tool_execution_error''), (''content'', JStr ''MCP tool call failed'')])"

definition json_string :: "(json \<Rightarrow> string) \<Rightarrow> json \<Rightarrow> string" where
  "json_string dumps v = (case v of JStr s \<Rightarrow> s | _ \<Rightarrow> dumps v)"

definition int_or_zero :: "json \<Rightarrow> int" where
  "int_or_zero v = (case as_int v of Some i \<Rightarrow> i | None \<Rightarrow> 0)"

definition usage_from_turn :: "obj \<Rightarrow> obj option" where
  "usage_from_turn turn =
     map_option (\<lambda>raw.
       let inp = int_or_zero (py_or (jget raw ''inputTokens'') (jget raw ''input_tokens''));
           cached = int_or_zero (py_or (jget raw ''cachedInputTokens'') (jget raw ''cached_input_tokens''));
           out = int_or_zero (py_or (jget raw ''outputTokens'') (jget raw ''output_tokens''))
       in [(''input_tokens'', JInt inp), (''input_tokens_details'', JObj [(''cached_tokens'', JInt cached)]),
           (''output_tokens'', JInt out), (''output_tokens_details'', JObj [(''reasoning_tokens'', JInt 0)]),
           (''total_tokens'', JInt (inp + out))])
     (as_obj (jget turn ''usage''))"

definition string_or_empty :: "json \<Rightarrow> string" where
  "string_or_empty v = (case as_str v of Some s \<Rightarrow> s | None \<Rightarrow> [])"

definition agent_message :: "json \<Rightarrow> (string \<times> string option) option" where
  "agent_message v =
     (case v of
        JObj item \<Rightarrow>
          if jget item ''type'' = JStr ''agentMessage''
          then Some (string_or_empty (jget item ''text''), as_str (jget item ''id'')) else None
      | _ \<Rightarrow> None)"

definition last_agent_message :: "obj \<Rightarrow> string \<times> string option" where
  "last_agent_message turn =
     (case as_list (jget turn ''items'') of
        None \<Rightarrow> ([], None)
      | Some items \<Rightarrow>
          (case List.map_filter agent_message (rev items) of [] \<Rightarrow> ([], None) | m # ms \<Rightarrow> m))"

definition resource_uri_from_result :: "json \<Rightarrow> string option" where
  "resource_uri_from_result v =
     Option.bind (as_obj v) (\<lambda>d. Option.bind (as_obj (jget d ''_meta'')) (\<lambda>meta.
       or_else (Option.bind (as_obj (jget meta ''ui'')) (\<lambda>ui. nonempty (jget ui ''resourceUri'')))
         (nonempty (jget meta ''ui/resourceUri''))))"

text \<open>\<open>urllib.parse.urlencode\<close>: the bytes of the UTF-8 form, a blank as plus.\<close>

definition hex_digit :: "nat \<Rightarrow> char" where
  "hex_digit n = (if n < 10 then char_of (48 + n) else char_of (55 + n))"

definition quote_byte :: "8 word \<Rightarrow> string" where
  "quote_byte w =
     (let n = unat w; c = char_of n :: char
      in if is_digit c \<or> is_upper c \<or> is_lower c \<or> c \<in> set ''_.-~'' then [c]
         else if c = CHR '' '' then ''+''
         else [CHR ''%'', hex_digit (n div 16), hex_digit (n mod 16)])"

definition quote_plus :: "string \<Rightarrow> string" where
  "quote_plus s = concat (map quote_byte (utf8 s))"

definition urlencode :: "(string \<times> string) list \<Rightarrow> string" where
  "urlencode query = join_with ''&'' (map (\<lambda>(k, v). quote_plus k @ ''='' @ quote_plus v) query)"

end
