(* ===== verification/Response_Events.thy ===== *)
theory Response_Events
  imports Responses
begin

text \<open>
  The builder of \<open>src/src/codex_responses_adapter/events.py\<close>: every method of
  \<open>ResponsesEventBuilder\<close> is a \<open>step\<close>, and \<open>run_builder\<close> feeds it notifications until it is terminal, as
  the driver of a response does.
\<close>

record builder =
  bd_record :: response
  bd_sequence :: nat
  bd_terminal :: bool
  bd_completed :: "string list"

type_synonym step = "builder \<Rightarrow> (obj list \<times> builder) option"

definition new_builder :: "response \<Rightarrow> builder" where
  "new_builder r = \<lparr>bd_record = r, bd_sequence = 0, bd_terminal = False, bd_completed = []\<rparr>"

definition no_events :: step where
  "no_events b = Some ([], b)"

definition then_step :: "step \<Rightarrow> step \<Rightarrow> step" where
  "then_step f g b =
     Option.bind (f b) (\<lambda>(es1, b1). map_option (\<lambda>(es2, b2). (es1 @ es2, b2)) (g b1))"

text \<open>A change of the record that emits nothing, and a choice by the current state.\<close>

definition on_record :: "(response \<Rightarrow> response) \<Rightarrow> step" where
  "on_record f b = Some ([], b\<lparr>bd_record := f (bd_record b)\<rparr>)"

definition sync_record :: step where
  "sync_record b = map_option (\<lambda>r. ([], b\<lparr>bd_record := r\<rparr>)) (sync_message (bd_record b))"

definition event_payload :: "nat \<Rightarrow> string \<Rightarrow> obj \<Rightarrow> obj" where
  "event_payload n t payload = (''type'', JStr t) # (''sequence_number'', JInt (int n)) # payload"

definition emit :: "string \<Rightarrow> obj \<Rightarrow> step" where
  "emit t payload b = Some ([event_payload (bd_sequence b) t payload], b\<lparr>bd_sequence := bd_sequence b + 1\<rparr>)"

text \<open>An event with the whole response; \<open>to_response\<close> brings the message item up to date first.\<close>

definition emit_response :: "string \<Rightarrow> step" where
  "emit_response t b =
     Option.bind (to_response (bd_record b)) (\<lambda>(v, r). emit t [(''response'', JObj v)] (b\<lparr>bd_record := r\<rparr>))"

definition initial_events :: step where
  "initial_events = then_step (emit_response ''response.created'') (emit_response ''response.in_progress'')"

section \<open>The message\<close>

definition message_position :: "response \<Rightarrow> json" where
  "message_position r = JInt (case rr_message_index r of Some k \<Rightarrow> int k | None \<Rightarrow> 0)"

definition text_part :: "string \<Rightarrow> json" where
  "text_part t = JObj [(''type'', JStr ''output_text''), (''text'', JStr t), (''annotations'', JList [])]"

definition start_message :: "string option \<Rightarrow> step" where
  "start_message item_id b =
     (if rr_started (bd_record b) then no_events b
      else Option.bind (ensure_message item_id (bd_record b)) (\<lambda>(k, r).
        then_step
          (emit ''response.output_item.added'' [(''output_index'', JInt (int k)), (''item'', JObj (message_item r))])
          (emit ''response.content_part.added''
             [(''item_id'', JStr (rr_message_id r)), (''output_index'', JInt (int k)), (''content_index'', JInt 0),
              (''part'', text_part [])])
          (b\<lparr>bd_record := r\<rparr>)))"

definition emit_delta :: "string \<Rightarrow> step" where
  "emit_delta d b =
     emit ''response.output_text.delta''
       [(''item_id'', JStr (rr_message_id (bd_record b))), (''output_index'', message_position (bd_record b)),
        (''content_index'', JInt 0), (''delta'', JStr d)] b"

definition extend_text :: "string \<Rightarrow> step" where
  "extend_text d =
     then_step (on_record (\<lambda>r. r\<lparr>rr_text := rr_text r @ d\<rparr>)) (then_step sync_record (emit_delta d))"

definition append_text :: "string \<Rightarrow> string option \<Rightarrow> step" where
  "append_text d item_id = then_step (start_message item_id) (extend_text d)"

definition sync_text :: "string \<Rightarrow> step" where
  "sync_text text b =
     (let shown = rr_text (bd_record b)
      in if text = [] \<or> text = shown then no_events b
         else if starts_with shown text then extend_text (drop (length shown) text) b
         else then_step (on_record (\<lambda>r. r\<lparr>rr_text := text\<rparr>)) sync_record b)"

definition sync_completed_message :: "string \<Rightarrow> string option \<Rightarrow> step" where
  "sync_completed_message text item_id = then_step (start_message item_id) (sync_text text)"

definition finish_events :: step where
  "finish_events b =
     (let r = bd_record b; m = rr_message_id r; k = message_position r
      in then_step
           (emit ''response.output_text.done''
              [(''item_id'', JStr m), (''output_index'', k), (''content_index'', JInt 0), (''text'', JStr (rr_text r))])
           (then_step
              (emit ''response.content_part.done''
                 [(''item_id'', JStr m), (''output_index'', k), (''content_index'', JInt 0), (''part'', text_part (rr_text r))])
              (emit ''response.output_item.done'' [(''output_index'', k), (''item'', JObj (message_item r))])) b)"

definition finish_message :: step where
  "finish_message b =
     (if \<not> rr_started (bd_record b) \<or> rr_completed (bd_record b) then no_events b
      else then_step (on_record (\<lambda>r. r\<lparr>rr_completed := True\<rparr>)) (then_step sync_record finish_events) b)"

section \<open>Tool calls\<close>

definition public_url :: "response \<Rightarrow> string \<Rightarrow> string" where
  "public_url r path = rstrip (\<lambda>c. c = CHR ''/'') (rr_base_url r) @ path"

definition mcp_descriptor :: "response \<Rightarrow> obj \<Rightarrow> obj \<Rightarrow> string \<Rightarrow> string \<Rightarrow> string \<Rightarrow> string \<Rightarrow> obj" where
  "mcp_descriptor r source ctx cid server tool uri =
     (let connector = nonempty (jget ctx ''connectorId'');
          link = nonempty (jget ctx ''linkId'');
          query = [(''server'', server), (''uri'', uri), (''origin_call_id'', cid)]
            @ (case connector of Some c \<Rightarrow> [(''connector_id'', c)] | None \<Rightarrow> []);
          base = ''/v1/mcp-apps/responses/'' @ rr_id r
      in [(''response_id'', JStr (rr_id r)), (''call_id'', JStr cid), (''server'', JStr server), (''tool'', JStr tool),
          (''resource_uri'', JStr uri),
          (''resource_url'', JStr (public_url r (base @ ''/resources?'' @ urlencode query))),
          (''events_url'', JStr (public_url r (base @ ''/events''))),
          (''state_url'', JStr (public_url r (base @ ''/state''))),
          (''tool_call_url'', JStr (public_url r (base @ ''/tools/call''))),
          (''connector_id'', opt_str connector), (''link_id'', opt_str link),
          (''app_id'', JStr (case or_else connector link of Some a \<Rightarrow> a | None \<Rightarrow> cid)),
          (''allowed_tools'', JList [])])"

definition mcp_meta :: "obj \<Rightarrow> string \<Rightarrow> string \<Rightarrow> string \<Rightarrow> response \<Rightarrow> obj \<times> response" where
  "mcp_meta source cid server tool r =
     (let ctx = (case as_obj (jget source ''appContext'') of Some c \<Rightarrow> c | None \<Rightarrow> [])
      in case or_else (nonempty (jget ctx ''resourceUri''))
             (or_else (nonempty (jget source ''mcpAppResourceUri'')) (resource_uri_from_result (jget source ''result''))) of
           None \<Rightarrow> (if ctx = [] then [] else [(''codex_app_context'', JObj ctx)], r)
         | Some uri \<Rightarrow>
             (let descriptor = mcp_descriptor r source ctx cid server tool uri
              in ([(''ui'', JObj [(''resourceUri'', JStr uri)]), (''mcp_app'', JObj descriptor),
                   (''codex_app_context'', JObj ctx)],
                  register_mcp_app_target cid descriptor r)))"

definition mcp_call_item :: "(json \<Rightarrow> string) \<Rightarrow> obj \<Rightarrow> bool \<Rightarrow> response \<Rightarrow> obj \<times> response" where
  "mcp_call_item dumps source finished r =
     (let cid = (case nonempty (jget source ''id'') of Some i \<Rightarrow> i | None \<Rightarrow> ''mcp_unknown'');
          server = (case nonempty (jget source ''server'') of Some s \<Rightarrow> s | None \<Rightarrow> ''unknown'');
          tool = (case nonempty (jget source ''tool'') of Some t \<Rightarrow> t | None \<Rightarrow> ''unknown'');
          args = jget source ''arguments'';
          err = jget source ''error'';
          result = jget source ''result'';
          is_error = (case as_obj result of Some d \<Rightarrow> jget d ''isError'' = JBool True | None \<Rightarrow> False);
          failed = (err \<noteq> JNull \<or> is_error \<or> status_of (jget source ''status'') = Some ''failed'');
          (meta, r1) = mcp_meta source cid server tool r;
          meta1 = meta @ (case Option.bind (as_obj result) (\<lambda>d. as_obj (jget d ''_meta'')) of
                            Some m \<Rightarrow> [(''mcp_result'', JObj m)] | None \<Rightarrow> [])
      in ([(''id'', JStr cid), (''type'', JStr ''mcp_call''),
           (''arguments'', JStr (json_string dumps (if args = JNull then JObj [] else args))),
           (''name'', JStr tool), (''server_label'', JStr server),
           (''status'', JStr (if failed then ''failed'' else if finished then ''completed'' else ''in_progress''))]
          @ (if finished \<and> result \<noteq> JNull then [(''output'', JStr (json_string dumps result))] else [])
          @ (if failed then [(''error'', JObj (mcp_error (if err \<noteq> JNull then err else result)))] else [])
          @ (if meta1 = [] then [] else [(''_meta'', JObj meta1)]),
          r1))"

definition with_item :: "(json \<Rightarrow> string) \<Rightarrow> obj \<Rightarrow> bool \<Rightarrow> (obj \<Rightarrow> nat \<Rightarrow> step) \<Rightarrow> step" where
  "with_item dumps source finished k b =
     (case mcp_call_item dumps source finished (bd_record b) of
        (item, r) \<Rightarrow> Option.bind (add_output_item item r) (\<lambda>(i, r1). k item i (b\<lparr>bd_record := r1\<rparr>)))"

definition start_mcp_call :: "(json \<Rightarrow> string) \<Rightarrow> obj \<Rightarrow> step" where
  "start_mcp_call dumps source b =
     (case nonempty (jget source ''id'') of
        None \<Rightarrow> no_events b
      | Some cid \<Rightarrow>
          if output_index (bd_record b) cid \<noteq> None then no_events b
          else with_item dumps source False (\<lambda>item i.
            then_step (emit ''response.output_item.added'' [(''output_index'', JInt (int i)), (''item'', JObj item)])
              (then_step
                 (emit ''response.mcp_call_arguments.done''
                    [(''item_id'', JStr cid), (''output_index'', JInt (int i)), (''arguments'', jget item ''arguments'')])
                 (emit ''response.mcp_call.in_progress'' [(''item_id'', JStr cid), (''output_index'', JInt (int i))]))) b)"

definition mark_call :: "string \<Rightarrow> step" where
  "mark_call cid b = Some ([], b\<lparr>bd_completed := cid # bd_completed b\<rparr>)"

definition finish_mcp_call :: "(json \<Rightarrow> string) \<Rightarrow> obj \<Rightarrow> string \<Rightarrow> step" where
  "finish_mcp_call dumps source cid =
     with_item dumps source True (\<lambda>item i.
       then_step
         (emit (if jget item ''status'' = JStr ''failed'' then ''response.mcp_call.failed'' else ''response.mcp_call.completed'')
            [(''item_id'', JStr cid), (''output_index'', JInt (int i))])
         (then_step
            (emit ''response.output_item.done'' [(''output_index'', JInt (int i)), (''item'', JObj item)])
            (mark_call cid)))"

definition complete_mcp_call :: "(json \<Rightarrow> string) \<Rightarrow> obj \<Rightarrow> step" where
  "complete_mcp_call dumps source b =
     (case nonempty (jget source ''id'') of
        None \<Rightarrow> no_events b
      | Some cid \<Rightarrow>
          if cid \<in> set (bd_completed b) then no_events b
          else then_step (if output_index (bd_record b) cid = None then start_mcp_call dumps source else no_events)
                 (finish_mcp_call dumps source cid) b)"

section \<open>The end of the turn\<close>

definition terminal_step :: "(response \<Rightarrow> response) \<Rightarrow> string \<Rightarrow> step" where
  "terminal_step f t b = emit_response t (b\<lparr>bd_record := f (bd_record b), bd_terminal := True\<rparr>)"

definition fail_step :: "string \<Rightarrow> string \<Rightarrow> step" where
  "fail_step code message =
     terminal_step (\<lambda>r. r\<lparr>rr_status := RespFailed,
       rr_error := Some [(''code'', JStr code), (''message'', JStr message)]\<rparr>) ''response.failed''"

definition incomplete_step :: "string \<Rightarrow> step" where
  "incomplete_step reason =
     terminal_step (\<lambda>r. r\<lparr>rr_status := RespIncomplete, rr_incomplete := Some [(''reason'', JStr reason)]\<rparr>)
       ''response.incomplete''"

definition fail :: "string \<Rightarrow> step" where
  "fail message b =
     (if bd_terminal b then no_events b
      else then_step finish_message (fail_step ''codex_execution_failed'' message) b)"

definition incomplete :: "string \<Rightarrow> step" where
  "incomplete reason b =
     (if bd_terminal b then no_events b else then_step finish_message (incomplete_step reason) b)"

fun complete_calls :: "(json \<Rightarrow> string) \<Rightarrow> json list \<Rightarrow> step" where
  "complete_calls dumps [] = no_events"
| "complete_calls dumps (v # vs) =
     then_step
       (case v of
          JObj item \<Rightarrow> if jget item ''type'' = JStr ''mcpToolCall'' then complete_mcp_call dumps item else no_events
        | _ \<Rightarrow> no_events)
       (complete_calls dumps vs)"

definition end_turn :: "obj \<Rightarrow> step" where
  "end_turn turn =
     (case status_of (jget turn ''status'') of
        Some s \<Rightarrow>
          if s = [] \<or> s = ''completed'' then terminal_step (\<lambda>r. r\<lparr>rr_status := RespCompleted\<rparr>) ''response.completed''
          else if s = ''interrupted'' then incomplete_step ''cancelled''
          else fail_step ''codex_turn_failed''
            (error_message (case as_obj (jget turn ''error'') of Some e \<Rightarrow> e | None \<Rightarrow> turn))
      | None \<Rightarrow> terminal_step (\<lambda>r. r\<lparr>rr_status := RespCompleted\<rparr>) ''response.completed'')"

definition complete_turn :: "(json \<Rightarrow> string) \<Rightarrow> obj \<Rightarrow> step" where
  "complete_turn dumps turn b =
     (if bd_terminal b then no_events b
      else then_step (complete_calls dumps (case as_list (jget turn ''items'') of Some vs \<Rightarrow> vs | None \<Rightarrow> []))
        (then_step (case last_agent_message turn of (text, item_id) \<Rightarrow>
             if text = [] then no_events else sync_completed_message text item_id)
          (then_step finish_message
            (then_step (on_record (\<lambda>r. r\<lparr>rr_usage := usage_from_turn turn\<rparr>)) (end_turn turn)))) b)"

section \<open>Notifications\<close>

definition consume_started :: "(json \<Rightarrow> string) \<Rightarrow> obj \<Rightarrow> step" where
  "consume_started dumps params =
     (case jget params ''item'' of
        JObj item \<Rightarrow> if jget item ''type'' = JStr ''mcpToolCall'' then start_mcp_call dumps item else no_events
      | _ \<Rightarrow> no_events)"

definition consume_delta :: "obj \<Rightarrow> step" where
  "consume_delta params =
     (case nonempty (jget params ''delta'') of
        None \<Rightarrow> no_events
      | Some d \<Rightarrow> append_text d (as_str (jget params ''itemId'')))"

definition consume_completed :: "(json \<Rightarrow> string) \<Rightarrow> obj \<Rightarrow> step" where
  "consume_completed dumps params =
     (case jget params ''item'' of
        JObj item \<Rightarrow>
          if jget item ''type'' = JStr ''agentMessage''
          then sync_completed_message (string_or_empty (jget item ''text'')) (as_str (jget item ''id''))
          else if jget item ''type'' = JStr ''mcpToolCall'' then complete_mcp_call dumps item
          else no_events
      | _ \<Rightarrow> no_events)"

definition consume :: "(json \<Rightarrow> string) \<Rightarrow> obj \<Rightarrow> step" where
  "consume dumps notification =
     (case (jget notification ''method'', jget notification ''params'') of
        (JStr m, JObj params) \<Rightarrow>
          if m = ''item/started'' then consume_started dumps params
          else if m = ''item/agentMessage/delta'' then consume_delta params
          else if m = ''item/completed'' then consume_completed dumps params
          else if m = ''turn/completed''
          then complete_turn dumps (case as_obj (jget params ''turn'') of Some t \<Rightarrow> t | None \<Rightarrow> [])
          else if m = ''error'' \<or> m = ''turn/error''
          then (if jget params ''willRetry'' = JBool True then no_events else fail (error_message params))
          else no_events
      | _ \<Rightarrow> no_events)"

text \<open>The driver stops feeding the builder once it is terminal.\<close>

fun run_builder :: "(json \<Rightarrow> string) \<Rightarrow> obj list \<Rightarrow> step" where
  "run_builder dumps [] = no_events"
| "run_builder dumps (n # ns) =
     then_step (consume dumps n) (\<lambda>b. if bd_terminal b then no_events b else run_builder dumps ns b)"

text \<open>The events about MCP Apps that a response event entails.\<close>

definition mcp_app_side_event :: "obj \<Rightarrow> (string \<times> obj) option" where
  "mcp_app_side_event e =
     (case jget e ''item'' of
        JObj item \<Rightarrow>
          if jget item ''type'' = JStr ''mcp_call''
             \<and> (case as_obj (jget item ''_meta'') of Some m \<Rightarrow> as_obj (jget m ''mcp_app'') \<noteq> None | None \<Rightarrow> False)
          then (let data = [(''item'', JObj item), (''output_index'', jget e ''output_index'')]
                in if jget e ''type'' = JStr ''response.output_item.added'' then Some (''mcp_app.available'', data)
                   else if jget e ''type'' = JStr ''response.output_item.done'' then Some (''mcp_app.tool.completed'', data)
                   else None)
          else None
      | _ \<Rightarrow> None)"

end
