(* ===== verification/Response_Safety.thy ===== *)
theory Response_Safety
  imports Response_Events
begin

text \<open>
  What the builder of a response promises: it never breaks off by an uncaught error, its
  events are numbered without a gap, exactly one terminal event ends them, and whoever keeps the
  items of these events ends with exactly the output of the terminal response. What the service makes of the events
  when it publishes them is \<open>Stream_Replay\<close>. The proofs compose
  triples \<open>streams\<close> of the steps of the builder.
\<close>

section \<open>What a client sees\<close>

definition item_event :: "obj \<Rightarrow> bool" where
  "item_event e \<longleftrightarrow> jget e ''type'' \<in> {JStr ''response.output_item.added'', JStr ''response.output_item.done''}"

definition terminal_event :: "obj \<Rightarrow> bool" where
  "terminal_event e \<longleftrightarrow>
     jget e ''type'' \<in> {JStr ''response.completed'', JStr ''response.failed'', JStr ''response.incomplete''}"

text \<open>A client keeps the item of every item event at its output index.\<close>

definition show_event :: "obj list \<Rightarrow> obj \<Rightarrow> obj list" where
  "show_event v e =
     (if item_event e
      then (case (jget e ''output_index'', jget e ''item'') of
          (JInt k, JObj item) \<Rightarrow> if nat k < length v then v[nat k := item] else v @ [item]
        | _ \<Rightarrow> v)
      else v)"

fun numbered_from :: "nat \<Rightarrow> obj list \<Rightarrow> bool" where
  "numbered_from n [] = True"
| "numbered_from n (e # es) = (jget e ''sequence_number'' = JInt (int n) \<and> numbered_from (Suc n) es)"

lemma numbered_from_append:
  "numbered_from n (xs @ ys) \<longleftrightarrow> numbered_from n xs \<and> numbered_from (n + length xs) ys"
  by (induction xs arbitrary: n) simp_all

text \<open>The ids of the tool calls and of the agent messages in a notification.\<close>

definition kind_id :: "string \<Rightarrow> json \<Rightarrow> string list" where
  "kind_id kind v =
     (case v of JObj item \<Rightarrow> if jget item ''type'' = JStr kind then (case nonempty (jget item ''id'') of Some i \<Rightarrow> [i] | None \<Rightarrow> []) else []
      | _ \<Rightarrow> [])"

definition turn_items :: "obj \<Rightarrow> json list" where
  "turn_items params =
     (case as_obj (jget params ''turn'') of
        Some t \<Rightarrow> (case as_list (jget t ''items'') of Some vs \<Rightarrow> vs | None \<Rightarrow> [])
      | None \<Rightarrow> [])"

definition notified_ids :: "string \<Rightarrow> obj \<Rightarrow> string list" where
  "notified_ids kind n =
     (case jget n ''params'' of
        JObj params \<Rightarrow> kind_id kind (jget params ''item'') @ concat (map (kind_id kind) (turn_items params))
          @ (if kind = ''agentMessage'' then (case nonempty (jget params ''itemId'') of Some i \<Rightarrow> [i] | None \<Rightarrow> []) else [])
      | _ \<Rightarrow> [])"

definition call_ids :: "obj \<Rightarrow> string list" where
  "call_ids n = notified_ids ''mcpToolCall'' n"

definition message_ids :: "obj \<Rightarrow> string list" where
  "message_ids n = notified_ids ''agentMessage'' n"

lemma kind_id_member:
  "jget item ''type'' = JStr kind \<Longrightarrow> jget item ''id'' = JStr i \<Longrightarrow> i \<noteq> [] \<Longrightarrow> i \<in> set (kind_id kind (JObj item))"
  by (simp add: kind_id_def nonempty_def)

lemma kind_id_nonempty: "list_all (\<lambda>i. i \<noteq> []) (kind_id kind v)"
proof (cases v)
  case (JObj item)
  then show ?thesis by (simp add: kind_id_def nonempty_Some split: option.split)
qed (simp_all add: kind_id_def)

lemma notified_ids_nonempty: "list_all (\<lambda>i. i \<noteq> []) (notified_ids kind n)"
proof -
  have "list_all (\<lambda>i. i \<noteq> []) (concat (map (kind_id kind) vs))" for vs
    by (induction vs) (simp_all add: kind_id_nonempty)
  then show ?thesis
    by (cases "jget n ''params''") (simp_all add: notified_ids_def kind_id_nonempty nonempty_Some split: option.split)
qed

section \<open>The builder stays consistent\<close>

definition builder_ok :: "string set \<Rightarrow> builder \<Rightarrow> bool" where
  "builder_ok calls b \<longleftrightarrow>
     (let r = bd_record b
      in distinct (map fst (rr_indexes r))
         \<and> (\<forall>(i, k)\<in>set (rr_indexes r). k < length (rr_items r) \<and> jget (rr_items r ! k) ''id'' = JStr i
              \<and> (i \<in> calls \<or> (rr_started r \<and> i = rr_message_id r)))
         \<and> rr_message_id r \<noteq> [] \<and> rr_message_id r \<notin> calls
         \<and> (if rr_started r
            then (\<exists>k. rr_message_index r = Some k \<and> map_of (rr_indexes r) (rr_message_id r) = Some k
                   \<and> rr_items r ! k = message_item r)
            else rr_message_index r = None \<and> \<not> rr_completed r))"

text \<open>The items of a client: all but that of the unfinished message are the items of the record.\<close>

definition shown :: "builder \<Rightarrow> obj list \<Rightarrow> bool" where
  "shown b v \<longleftrightarrow>
     (let r = bd_record b
      in length v = length (rr_items r)
         \<and> (\<forall>k < length v. v ! k = rr_items r ! k \<or> (rr_message_index r = Some k \<and> \<not> rr_completed r)))"

definition streams :: "string set \<Rightarrow> (builder \<Rightarrow> bool) \<Rightarrow> step \<Rightarrow> (builder \<Rightarrow> bool) \<Rightarrow> bool" where
  "streams calls P f Q \<longleftrightarrow>
     (\<forall>b. builder_ok calls b \<and> P b \<longrightarrow>
        (\<exists>es b'. f b = Some (es, b') \<and> builder_ok calls b' \<and> Q b'
           \<and> numbered_from (bd_sequence b) es \<and> bd_sequence b' = bd_sequence b + length es
           \<and> rr_id (bd_record b') = rr_id (bd_record b)
           \<and> (\<forall>v. shown b v \<longrightarrow> shown b' (foldl show_event v es))
           \<and> list_all (\<lambda>e. \<not> terminal_event e) es))"

definition going :: "builder \<Rightarrow> bool" where
  "going b \<longleftrightarrow> \<not> bd_terminal b \<and> \<not> rr_completed (bd_record b)"

definition message_finished :: "builder \<Rightarrow> bool" where
  "message_finished b \<longleftrightarrow> \<not> bd_terminal b \<and> (rr_started (bd_record b) \<longrightarrow> rr_completed (bd_record b))"

lemma streams_no_events: "streams calls P no_events P"
  by (simp add: streams_def no_events_def)

lemma streams_then:
  assumes "streams calls P f Q" and "streams calls Q g R"
  shows "streams calls P (then_step f g) R"
  unfolding streams_def
proof (intro allI impI)
  fix b assume "builder_ok calls b \<and> P b"
  then obtain es b1 where f: "f b = Some (es, b1)" "builder_ok calls b1" "Q b1" "numbered_from (bd_sequence b) es"
      "bd_sequence b1 = bd_sequence b + length es" "rr_id (bd_record b1) = rr_id (bd_record b)"
      "\<forall>v. shown b v \<longrightarrow> shown b1 (foldl show_event v es)" "list_all (\<lambda>e. \<not> terminal_event e) es"
    using assms(1) unfolding streams_def by blast
  then obtain es' b2 where g: "g b1 = Some (es', b2)" "builder_ok calls b2" "R b2" "numbered_from (bd_sequence b1) es'"
      "bd_sequence b2 = bd_sequence b1 + length es'" "rr_id (bd_record b2) = rr_id (bd_record b1)"
      "\<forall>v. shown b1 v \<longrightarrow> shown b2 (foldl show_event v es')" "list_all (\<lambda>e. \<not> terminal_event e) es'"
    using assms(2) unfolding streams_def by blast
  show "\<exists>es b'. then_step f g b = Some (es, b') \<and> builder_ok calls b' \<and> R b' \<and> numbered_from (bd_sequence b) es
      \<and> bd_sequence b' = bd_sequence b + length es \<and> rr_id (bd_record b') = rr_id (bd_record b)
      \<and> (\<forall>v. shown b v \<longrightarrow> shown b' (foldl show_event v es)) \<and> list_all (\<lambda>e. \<not> terminal_event e) es"
    using f g by (intro exI [of _ "es @ es'"] exI [of _ b2]) (simp add: then_step_def numbered_from_append)
qed

lemma streams_if:
  assumes "streams calls (\<lambda>b. P b \<and> c b) f Q" and "streams calls (\<lambda>b. P b \<and> \<not> c b) g Q"
  shows "streams calls P (\<lambda>b. if c b then f b else g b) Q"
  using assms unfolding streams_def by (metis (full_types))

lemma streams_either:
  assumes "streams calls P f Q" and "streams calls P g Q"
  shows "streams calls P (\<lambda>b. if c b then f b else g b) Q"
  using assms unfolding streams_def by (metis (full_types))

lemma streams_weaken:
  "streams calls P f Q \<Longrightarrow> (\<And>b. P' b \<Longrightarrow> P b) \<Longrightarrow> (\<And>b. Q b \<Longrightarrow> Q' b) \<Longrightarrow> streams calls P' f Q'"
  unfolding streams_def by meson

section \<open>Items\<close>

lemma index_Some:
  "builder_ok calls b \<Longrightarrow> map_of (rr_indexes (bd_record b)) i = Some k \<Longrightarrow>
     k < length (rr_items (bd_record b)) \<and> jget (rr_items (bd_record b) ! k) ''id'' = JStr i"
  by (auto simp: builder_ok_def Let_def dest: map_of_SomeD)

lemma index_inj:
  "builder_ok calls b \<Longrightarrow> map_of (rr_indexes (bd_record b)) i = Some k \<Longrightarrow>
     map_of (rr_indexes (bd_record b)) j = Some k \<Longrightarrow> i = j"
  using index_Some by (metis json.inject(4))

lemma message_item_id [simp]: "jget (message_item r) ''id'' = JStr (rr_message_id r)"
  by (simp add: message_item_def)

lemma sync_ok:
  assumes "builder_ok calls b" and "rr_started (bd_record b)"
  shows "\<exists>k. rr_message_index (bd_record b) = Some k \<and> k < length (rr_items (bd_record b))
    \<and> add_output_item (message_item (bd_record b)) (bd_record b) = Some (k, bd_record b)"
proof -
  obtain k where k: "rr_message_index (bd_record b) = Some k" "map_of (rr_indexes (bd_record b)) (rr_message_id (bd_record b)) = Some k"
      "rr_items (bd_record b) ! k = message_item (bd_record b)" "rr_message_id (bd_record b) \<noteq> []"
    using assms by (auto simp: builder_ok_def Let_def)
  then show ?thesis using index_Some [OF assms(1) k(2)]
    by (simp add: add_output_item_def output_index_def list_update_same_conv)
qed

lemma to_response_ok: "builder_ok calls b \<Longrightarrow> to_response (bd_record b) = Some (response_json (bd_record b), bd_record b)"
  using sync_ok by (cases "rr_started (bd_record b)") (force simp: to_response_def sync_message_def)+


lemma shown_item:
  assumes "shown b v" and "k \<le> length (rr_items (bd_record b))"
    and "rr_items (bd_record b') = (if k < length (rr_items (bd_record b)) then (rr_items (bd_record b))[k := item]
      else rr_items (bd_record b) @ [item])"
    and "\<And>j. j \<noteq> k \<Longrightarrow> rr_message_index (bd_record b) = Some j \<Longrightarrow> \<not> rr_completed (bd_record b) \<Longrightarrow>
      rr_message_index (bd_record b') = Some j \<and> \<not> rr_completed (bd_record b')"
    and "item_event e" and "jget e ''output_index'' = JInt (int k)" and "jget e ''item'' = JObj item"
  shows "shown b' (show_event v e)"
proof (cases "k < length (rr_items (bd_record b))")
  case True
  then show ?thesis using assms by (auto simp: shown_def show_event_def Let_def nth_list_update)
next
  case False
  then have "k = length v" "k = length (rr_items (bd_record b))" using assms(1,2) by (auto simp: shown_def Let_def)
  then show ?thesis using assms by (auto simp: shown_def show_event_def Let_def nth_append less_Suc_eq)
qed

lemma show_other [simp]: "\<not> item_event e \<Longrightarrow> show_event v e = v"
  by (simp add: show_event_def)

lemma event_payload_simps [simp]:
  "jget (event_payload n t d) ''type'' = JStr t"
  "jget (event_payload n t d) ''sequence_number'' = JInt (int n)"
  "jget (event_payload n t d) ''output_index'' = jget d ''output_index''"
  "jget (event_payload n t d) ''item'' = jget d ''item''"
  "jget (event_payload n t d) ''response'' = jget d ''response''"
  "jget (event_payload n t d) ''delta'' = jget d ''delta''"
  "item_event (event_payload n t d) \<longleftrightarrow> t = ''response.output_item.added'' \<or> t = ''response.output_item.done''"
  "terminal_event (event_payload n t d) \<longleftrightarrow>
     t = ''response.completed'' \<or> t = ''response.failed'' \<or> t = ''response.incomplete''"
  by (simp_all add: event_payload_def item_event_def terminal_event_def)

text \<open>A step that emits events of its own around one change of the items.\<close>

lemma streams_leaf:
  assumes "\<And>b. builder_ok calls b \<Longrightarrow> P b \<Longrightarrow> \<exists>es b'. f b = Some (es, b') \<and> builder_ok calls b' \<and> Q b'
      \<and> numbered_from (bd_sequence b) es \<and> bd_sequence b' = bd_sequence b + length es
      \<and> rr_id (bd_record b') = rr_id (bd_record b)
      \<and> (\<forall>v. shown b v \<longrightarrow> shown b' (foldl show_event v es)) \<and> list_all (\<lambda>e. \<not> terminal_event e) es"
  shows "streams calls P f Q"
  using assms by (simp add: streams_def)

lemma update_fresh: "x \<notin> fst ` set xs \<Longrightarrow> AList.update x y xs = xs @ [(x, y)]"
  by (induction xs) auto

lemma put_item:
  assumes "builder_ok calls b" and "cid \<in> calls" and "cid \<noteq> []" and "jget item ''id'' = JStr cid"
    and "r = bd_record b\<lparr>rr_targets := ts\<rparr>"
  shows "\<exists>k r'. add_output_item item r = Some (k, r') \<and> builder_ok calls (b\<lparr>bd_record := r'\<rparr>)
    \<and> k \<le> length (rr_items r) \<and> output_index r' cid = Some k
    \<and> rr_items r' = (if k < length (rr_items r) then (rr_items r)[k := item] else rr_items r @ [item])
    \<and> rr_message_index r' = rr_message_index r \<and> rr_completed r' = rr_completed r \<and> rr_started r' = rr_started r
    \<and> rr_id r' = rr_id r"
proof (cases "map_of (rr_indexes (bd_record b)) cid")
  case None
  let ?n = "length (rr_items (bd_record b))"
  let ?r = "r\<lparr>rr_indexes := rr_indexes r @ [(cid, ?n)], rr_items := rr_items r @ [item]\<rparr>"
  have fresh: "cid \<notin> fst ` set (rr_indexes (bd_record b))" using None by (simp add: map_of_eq_None_iff)
  have added: "add_output_item item r = Some (?n, ?r)"
    using assms(3-5) None fresh by (simp add: add_output_item_def output_index_def update_fresh Let_def)
  have same: "message_item ?r = message_item (bd_record b)" using assms(5) by (simp add: message_item_def)
  have found: "map_of (rr_indexes ?r) cid = Some ?n" using assms(5) None by (simp add: map_add_def)
  have old: "map_of (rr_indexes ?r) i = Some k" "rr_items ?r ! k = rr_items (bd_record b) ! k"
    if "map_of (rr_indexes (bd_record b)) i = Some k" for i k
    using that assms(5) index_Some [OF assms(1) that] by (auto simp: map_add_def nth_append)
  have "builder_ok calls (b\<lparr>bd_record := ?r\<rparr>)"
  proof -
    have "distinct (map fst (rr_indexes ?r))" using assms(1,5) fresh by (auto simp: builder_ok_def Let_def)
    moreover have "\<forall>(i, k)\<in>set (rr_indexes ?r). k < length (rr_items ?r) \<and> jget (rr_items ?r ! k) ''id'' = JStr i
        \<and> (i \<in> calls \<or> (rr_started ?r \<and> i = rr_message_id ?r))"
      using assms by (auto simp: builder_ok_def Let_def nth_append)
    ultimately show ?thesis using assms(1,5) old same by (auto simp: builder_ok_def Let_def)
  qed
  then show ?thesis using added found assms(5) by (simp add: output_index_def)
next
  case (Some k)
  let ?r = "r\<lparr>rr_items := (rr_items r)[k := item]\<rparr>"
  have k: "k < length (rr_items (bd_record b))" using index_Some [OF assms(1) Some] by simp
  have added: "add_output_item item r = Some (k, ?r)"
    using assms(3-5) Some by (simp add: add_output_item_def output_index_def)
  have same: "message_item ?r = message_item (bd_record b)" using assms(5) by (simp add: message_item_def)
  have other: "rr_items ?r ! l = rr_items (bd_record b) ! l"
    if "map_of (rr_indexes (bd_record b)) i = Some l" "i \<noteq> cid" for i l
    using that assms(5) index_inj [OF assms(1) Some] by (cases "l = k") auto
  have "builder_ok calls (b\<lparr>bd_record := ?r\<rparr>)"
  proof -
    have "jget (rr_items ?r ! l) ''id'' = JStr i" if "(i, l) \<in> set (rr_indexes (bd_record b))" for i l
    proof -
      have "map_of (rr_indexes (bd_record b)) i = Some l"
        using that assms(1) by (auto simp: builder_ok_def Let_def intro: map_of_is_SomeI)
      then show ?thesis using other index_Some [OF assms(1)] assms(4,5) Some k by (cases "i = cid") auto
    qed
    then have "\<forall>(i, l)\<in>set (rr_indexes ?r). l < length (rr_items ?r) \<and> jget (rr_items ?r ! l) ''id'' = JStr i
        \<and> (i \<in> calls \<or> (rr_started ?r \<and> i = rr_message_id ?r))"
      using assms(1,5) by (auto simp: builder_ok_def Let_def)
    moreover have "rr_message_id (bd_record b) \<noteq> cid" using assms(1,2) by (auto simp: builder_ok_def Let_def)
    ultimately show ?thesis using assms(1,5) other same by (auto simp: builder_ok_def Let_def)
  qed
  then show ?thesis using added Some k assms(5) by (simp add: output_index_def)
qed


section \<open>The steps of the message\<close>

lemma streams_start_message:
  assumes "\<And>i. item_id = Some i \<Longrightarrow> i \<notin> calls"
  shows "streams calls going (start_message item_id) (\<lambda>b. going b \<and> rr_started (bd_record b))"
proof (rule streams_leaf)
  fix b assume ok: "builder_ok calls b" and g: "going b"
  show "\<exists>es b'. start_message item_id b = Some (es, b') \<and> builder_ok calls b' \<and> (going b' \<and> rr_started (bd_record b'))
      \<and> numbered_from (bd_sequence b) es \<and> bd_sequence b' = bd_sequence b + length es
      \<and> rr_id (bd_record b') = rr_id (bd_record b)
      \<and> (\<forall>v. shown b v \<longrightarrow> shown b' (foldl show_event v es)) \<and> list_all (\<lambda>e. \<not> terminal_event e) es"
  proof (cases "rr_started (bd_record b)")
    case True
    then show ?thesis using ok g by (simp add: start_message_def no_events_def)
  next
    case False
    let ?r = "bd_record b" and ?n = "length (rr_items (bd_record b))"
    define m where "m = (case item_id of Some i \<Rightarrow> if i = [] then rr_message_id ?r else i | None \<Rightarrow> rr_message_id ?r)"
    define r1 where "r1 = ?r\<lparr>rr_message_id := m, rr_started := True\<rparr>"
    define r2 where "r2 = r1\<lparr>rr_indexes := rr_indexes ?r @ [(m, ?n)], rr_items := rr_items ?r @ [message_item r1], rr_message_index := Some ?n\<rparr>"
    have m: "m \<noteq> []" "m \<notin> calls" using ok assms by (auto simp: m_def builder_ok_def Let_def split: option.split)
    have keys: "\<forall>(i, k)\<in>set (rr_indexes ?r). i \<in> calls" using ok False by (auto simp: builder_ok_def Let_def)
    then have fresh: "m \<notin> fst ` set (rr_indexes ?r)" using m by auto
    then have unknown: "map_of (rr_indexes ?r) m = None" by (simp add: map_of_eq_None_iff)
    have item: "message_item r2 = message_item r1" by (simp add: r2_def message_item_def)
    have ensure: "ensure_message item_id ?r = Some (?n, r2)"
      using False m unknown fresh
      by (simp add: ensure_message_def add_output_item_def output_index_def update_fresh Let_def flip: m_def)
        (simp add: r2_def r1_def)
    have ok2: "builder_ok calls (b\<lparr>bd_record := r2, bd_sequence := q\<rparr>)" for q
    proof -
      have "map_of (rr_indexes r2) m = Some ?n" using unknown by (simp add: r2_def map_add_def)
      moreover have "rr_items r2 ! ?n = message_item r2" by (simp add: item) (simp add: r2_def)
      moreover have "\<forall>(i, k)\<in>set (rr_indexes r2). k < length (rr_items r2) \<and> jget (rr_items r2 ! k) ''id'' = JStr i
          \<and> (i \<in> calls \<or> i = m)"
        using ok keys by (auto simp: r2_def r1_def builder_ok_def Let_def nth_append)
      ultimately show ?thesis using ok m fresh by (auto simp: builder_ok_def Let_def r2_def r1_def)
    qed
    let ?e1 = "event_payload (bd_sequence b) ''response.output_item.added'' [(''output_index'', JInt (int ?n)), (''item'', JObj (message_item r2))]"
    let ?e2 = "event_payload (bd_sequence b + 1) ''response.content_part.added''
      [(''item_id'', JStr (rr_message_id r2)), (''output_index'', JInt (int ?n)), (''content_index'', JInt 0), (''part'', text_part [])]"
    let ?b = "b\<lparr>bd_record := r2, bd_sequence := bd_sequence b + 1 + 1\<rparr>"
    have step: "start_message item_id b = Some ([?e1, ?e2], ?b)"
      using False ensure by (simp add: start_message_def then_step_def emit_def)
    have "shown ?b (show_event v ?e1)" if "shown b v" for v
      by (rule shown_item [OF that, where k = ?n and item = "message_item r1"])
        (use False ok in \<open>simp_all add: item\<close>, simp_all add: r2_def r1_def builder_ok_def Let_def)
    then show ?thesis using step ok2 g by (simp add: going_def) (simp add: r2_def r1_def)
  qed
qed

lemma streams_set_text:
  "streams calls (\<lambda>b. going b \<and> rr_started (bd_record b)) (then_step (on_record (\<lambda>r. r\<lparr>rr_text := f r\<rparr>)) sync_record)
     (\<lambda>b. going b \<and> rr_started (bd_record b))"
proof (rule streams_leaf)
  fix b assume ok: "builder_ok calls b" and g: "going b \<and> rr_started (bd_record b)"
  let ?r = "bd_record b"
  obtain k where k: "rr_message_index ?r = Some k" "map_of (rr_indexes ?r) (rr_message_id ?r) = Some k" "rr_message_id ?r \<noteq> []"
    using ok g by (auto simp: builder_ok_def Let_def)
  define r1 where "r1 = ?r\<lparr>rr_text := f ?r\<rparr>"
  define r2 where "r2 = r1\<lparr>rr_items := (rr_items ?r)[k := message_item r1]\<rparr>"
  have item: "message_item r2 = message_item r1" by (simp add: r2_def message_item_def)
  have len: "k < length (rr_items ?r)" using index_Some [OF ok k(2)] by simp
  have add: "add_output_item (message_item r1) r1 = Some (k, r2)"
    using k by (simp add: add_output_item_def output_index_def r2_def) (simp add: r1_def)
  have step: "then_step (on_record (\<lambda>r. r\<lparr>rr_text := f r\<rparr>)) sync_record b = Some ([], b\<lparr>bd_record := r2\<rparr>)"
    using g add by (simp add: then_step_def on_record_def sync_record_def sync_message_def r1_def)
  have ok2: "builder_ok calls (b\<lparr>bd_record := r2\<rparr>)"
  proof -
    have "jget (rr_items r2 ! l) ''id'' = JStr i" if "(i, l) \<in> set (rr_indexes ?r)" for i l
    proof -
      have "map_of (rr_indexes ?r) i = Some l"
        using that ok by (auto simp: builder_ok_def Let_def intro: map_of_is_SomeI)
      then show ?thesis using index_Some [OF ok] index_inj [OF ok k(2)] len
        by (cases "l = k") (auto simp: r2_def r1_def)
    qed
    then show ?thesis using ok g k len item by (auto simp: builder_ok_def Let_def) (auto simp: r2_def r1_def)
  qed
  have "shown (b\<lparr>bd_record := r2\<rparr>) v" if "shown b v" for v
    using that k(1) g nth_list_update_neq [of k _ "rr_items ?r"]
    by (fastforce simp: shown_def Let_def r2_def r1_def going_def)
  then show "\<exists>es b'. then_step (on_record (\<lambda>r. r\<lparr>rr_text := f r\<rparr>)) sync_record b = Some (es, b') \<and> builder_ok calls b'
      \<and> (going b' \<and> rr_started (bd_record b')) \<and> numbered_from (bd_sequence b) es \<and> bd_sequence b' = bd_sequence b + length es
      \<and> rr_id (bd_record b') = rr_id (bd_record b)
      \<and> (\<forall>v. shown b v \<longrightarrow> shown b' (foldl show_event v es)) \<and> list_all (\<lambda>e. \<not> terminal_event e) es"
    using step ok2 g by (simp add: going_def) (simp add: r2_def r1_def)
qed


lemma then_step_assoc: "then_step f (then_step g h) = then_step (then_step f g) h"
proof (rule ext)
  fix b
  show "then_step f (then_step g h) b = then_step (then_step f g) h b"
  proof (cases "f b")
    case (Some x)
    then show ?thesis by (cases "g (snd x)") (auto simp: then_step_def option.map_comp comp_def split_def)
  qed (simp add: then_step_def)
qed

lemma extend_text_steps:
  "extend_text d = then_step (then_step (on_record (\<lambda>r. r\<lparr>rr_text := rr_text r @ d\<rparr>)) sync_record) (emit_delta d)"
  by (simp add: extend_text_def then_step_assoc)

lemma streams_emit:
  assumes "\<not> item_event (event_payload 0 t [])" and "\<not> terminal_event (event_payload 0 t [])"
    and "\<And>b. P (b\<lparr>bd_sequence := bd_sequence b + 1\<rparr>) \<longleftrightarrow> P b"
  shows "streams calls P (\<lambda>b. emit t (d b) b) P"
  by (rule streams_leaf) (use assms in \<open>auto simp: emit_def shown_def builder_ok_def Let_def\<close>)

lemma streams_delta: "streams calls (\<lambda>b. going b \<and> rr_started (bd_record b)) (emit_delta d) (\<lambda>b. going b \<and> rr_started (bd_record b))"
  unfolding emit_delta_def [abs_def] by (rule streams_emit) (simp_all add: going_def)

lemma streams_extend_text:
  "streams calls (\<lambda>b. going b \<and> rr_started (bd_record b)) (extend_text d) (\<lambda>b. going b \<and> rr_started (bd_record b))"
  unfolding extend_text_steps by (rule streams_then [OF streams_set_text streams_delta])

lemma streams_sync_text:
  "streams calls (\<lambda>b. going b \<and> rr_started (bd_record b)) (sync_text t) (\<lambda>b. going b \<and> rr_started (bd_record b))"
proof -
  have "sync_text t = (\<lambda>b. if t = [] \<or> t = rr_text (bd_record b) then no_events b
      else if starts_with (rr_text (bd_record b)) t then extend_text (drop (length (rr_text (bd_record b))) t) b
      else then_step (on_record (\<lambda>r. r\<lparr>rr_text := t\<rparr>)) sync_record b)"
    by (simp add: sync_text_def Let_def fun_eq_iff)
  moreover have "streams calls (\<lambda>b. going b \<and> rr_started (bd_record b))
      (\<lambda>b. extend_text (drop (length (rr_text (bd_record b))) t) b) (\<lambda>b. going b \<and> rr_started (bd_record b))"
    using streams_extend_text unfolding streams_def by blast
  ultimately show ?thesis using streams_no_events streams_set_text [where f = "\<lambda>r. t"]
    by (simp only:) (intro streams_either)
qed

lemma streams_message:
  assumes "\<And>i. mid = Some i \<Longrightarrow> i \<notin> calls"
  shows "streams calls going (append_text d mid) going" and "streams calls going (sync_completed_message d mid) going"
  unfolding append_text_def sync_completed_message_def
  by (rule streams_weaken [OF streams_then [OF streams_start_message [OF assms] streams_extend_text]]; simp)
    (rule streams_weaken [OF streams_then [OF streams_start_message [OF assms] streams_sync_text]]; simp)

lemma streams_finish_message: "streams calls going finish_message message_finished"
proof (rule streams_leaf)
  fix b assume ok: "builder_ok calls b" and g: "going b"
  let ?r = "bd_record b"
  show "\<exists>es b'. finish_message b = Some (es, b') \<and> builder_ok calls b' \<and> message_finished b'
      \<and> numbered_from (bd_sequence b) es \<and> bd_sequence b' = bd_sequence b + length es
      \<and> rr_id (bd_record b') = rr_id (bd_record b)
      \<and> (\<forall>v. shown b v \<longrightarrow> shown b' (foldl show_event v es)) \<and> list_all (\<lambda>e. \<not> terminal_event e) es"
  proof (cases "rr_started ?r")
    case False
    then show ?thesis using ok g by (simp add: finish_message_def no_events_def going_def message_finished_def)
  next
    case True
    obtain k where k: "rr_message_index ?r = Some k" "map_of (rr_indexes ?r) (rr_message_id ?r) = Some k" "rr_message_id ?r \<noteq> []"
      using ok True by (auto simp: builder_ok_def Let_def)
    define r1 where "r1 = ?r\<lparr>rr_completed := True\<rparr>"
    define r2 where "r2 = r1\<lparr>rr_items := (rr_items ?r)[k := message_item r1]\<rparr>"
    have item: "message_item r2 = message_item r1" by (simp add: r2_def message_item_def)
    have len: "k < length (rr_items ?r)" using index_Some [OF ok k(2)] by simp
    have add: "add_output_item (message_item r1) r1 = Some (k, r2)"
      using k by (simp add: add_output_item_def output_index_def r2_def) (simp add: r1_def)
    have position: "message_position r2 = JInt (int k)" using k(1) by (simp add: message_position_def r2_def r1_def)
    have ok2: "builder_ok calls (b\<lparr>bd_record := r2, bd_sequence := q\<rparr>)" for q
    proof -
      have "jget (rr_items r2 ! l) ''id'' = JStr i" if "(i, l) \<in> set (rr_indexes ?r)" for i l
      proof -
        have "map_of (rr_indexes ?r) i = Some l"
          using that ok by (auto simp: builder_ok_def Let_def intro: map_of_is_SomeI)
        then show ?thesis using index_Some [OF ok] index_inj [OF ok k(2)] len
          by (cases "l = k") (auto simp: r2_def r1_def)
      qed
      then show ?thesis using ok True k len item by (auto simp: builder_ok_def Let_def) (auto simp: r2_def r1_def)
    qed
    let ?q = "bd_sequence b"
    let ?e3 = "event_payload (?q + 1 + 1) ''response.output_item.done''
      [(''output_index'', JInt (int k)), (''item'', JObj (message_item r2))]"
    let ?b = "b\<lparr>bd_record := r2, bd_sequence := ?q + 1 + 1 + 1\<rparr>"
    obtain e1 e2 where e: "finish_message b = Some ([e1, e2, ?e3], ?b)" "\<not> item_event e1" "\<not> item_event e2"
        "\<not> terminal_event e1" "\<not> terminal_event e2" "numbered_from ?q [e1, e2]"
      using True g add position
      by (simp add: finish_message_def then_step_def on_record_def sync_record_def sync_message_def finish_events_def
          emit_def going_def Let_def flip: r1_def) (simp add: r1_def)
    have "shown ?b (show_event v ?e3)" if "shown b v" for v
      by (rule shown_item [OF that, where k = k and item = "message_item r2"])
        (use len k in \<open>simp_all add: item\<close>, simp_all add: r2_def r1_def)
    then show ?thesis using e ok2 g by (simp add: going_def message_finished_def) (simp add: r2_def r1_def)
  qed
qed


section \<open>The steps of a tool call\<close>

lemma mcp_call_item_frame:
  assumes "mcp_call_item dumps source fin r = (item, r1)" and "nonempty (jget source ''id'') = Some cid"
  shows "jget item ''id'' = JStr cid" and "\<exists>ts. r1 = r\<lparr>rr_targets := ts\<rparr>"
proof -
  have "snd (mcp_call_item dumps source fin r) = r1" "fst (mcp_call_item dumps source fin r) = item"
    by (simp_all add: assms(1))
  moreover have "\<exists>c server tool. snd (mcp_call_item dumps source fin r) = snd (mcp_meta source c server tool r)"
    unfolding mcp_call_item_def Let_def split_def snd_conv by blast
  moreover have "\<exists>ts. snd (mcp_meta source c server tool r) = r\<lparr>rr_targets := ts\<rparr>" for c server tool
    unfolding mcp_meta_def register_mcp_app_target_def Let_def
    by (rule exI [of _ "rr_targets (snd (mcp_meta source c server tool r))"])
      (simp add: mcp_meta_def register_mcp_app_target_def Let_def split: option.split)
  moreover have "jget (fst (mcp_call_item dumps source fin r)) ''id'' = JStr cid"
    unfolding mcp_call_item_def Let_def split_def fst_conv by (simp add: assms(2))
  ultimately show "jget item ''id'' = JStr cid" "\<exists>ts. r1 = r\<lparr>rr_targets := ts\<rparr>" by metis+
qed

lemma with_item_ok:
  assumes "builder_ok calls b" and "nonempty (jget source ''id'') = Some cid" and "cid \<in> calls"
  shows "\<exists>item k r'. with_item dumps source fin K b = K item k (b\<lparr>bd_record := r'\<rparr>)
    \<and> builder_ok calls (b\<lparr>bd_record := r'\<rparr>)
    \<and> k \<le> length (rr_items (bd_record b)) \<and> output_index r' cid = Some k
    \<and> rr_items r' = (if k < length (rr_items (bd_record b)) then (rr_items (bd_record b))[k := item] else rr_items (bd_record b) @ [item])
    \<and> rr_message_index r' = rr_message_index (bd_record b) \<and> rr_completed r' = rr_completed (bd_record b)
    \<and> rr_started r' = rr_started (bd_record b) \<and> rr_id r' = rr_id (bd_record b)"
proof -
  obtain item r1 where item: "mcp_call_item dumps source fin (bd_record b) = (item, r1)" by (cases "mcp_call_item dumps source fin (bd_record b)")
  obtain ts where ts: "r1 = bd_record b\<lparr>rr_targets := ts\<rparr>" using mcp_call_item_frame(2) [OF item assms(2)] by blast
  have cid: "cid \<noteq> []" using assms(2) by (auto simp: nonempty_def split: json.splits if_splits)
  from put_item [OF assms(1,3) cid mcp_call_item_frame(1) [OF item assms(2)] ts]
  obtain k r' where put: "add_output_item item r1 = Some (k, r')" "builder_ok calls (b\<lparr>bd_record := r'\<rparr>)"
      "k \<le> length (rr_items r1)" "output_index r' cid = Some k"
      "rr_items r' = (if k < length (rr_items r1) then (rr_items r1)[k := item] else rr_items r1 @ [item])"
      "rr_message_index r' = rr_message_index r1" "rr_completed r' = rr_completed r1" "rr_started r' = rr_started r1"
      "rr_id r' = rr_id r1" by blast
  have "with_item dumps source fin K b = K item k (b\<lparr>bd_record := r'\<rparr>)" using item put(1) by (simp add: with_item_def)
  then show ?thesis using put ts by (intro exI [of _ item] exI [of _ k] exI [of _ r']) simp
qed

lemma shown_sequence [simp]: "shown (b\<lparr>bd_sequence := q\<rparr>) v = shown b v" "shown (b\<lparr>bd_completed := c\<rparr>) v = shown b v"
  by (simp_all add: shown_def)

lemma builder_ok_frame [simp]:
  "builder_ok calls (b\<lparr>bd_sequence := q\<rparr>) = builder_ok calls b" "builder_ok calls (b\<lparr>bd_completed := c\<rparr>) = builder_ok calls b"
  by (simp_all add: builder_ok_def)

lemma streams_start_call:
  assumes "\<And>cid. nonempty (jget source ''id'') = Some cid \<Longrightarrow> cid \<in> calls"
  shows "streams calls going (start_mcp_call dumps source) going"
proof (rule streams_leaf)
  fix b assume ok: "builder_ok calls b" and g: "going b"
  show "\<exists>es b'. start_mcp_call dumps source b = Some (es, b') \<and> builder_ok calls b' \<and> going b'
      \<and> numbered_from (bd_sequence b) es \<and> bd_sequence b' = bd_sequence b + length es
      \<and> rr_id (bd_record b') = rr_id (bd_record b)
      \<and> (\<forall>v. shown b v \<longrightarrow> shown b' (foldl show_event v es)) \<and> list_all (\<lambda>e. \<not> terminal_event e) es"
  proof (cases "\<exists>cid. nonempty (jget source ''id'') = Some cid \<and> output_index (bd_record b) cid = None")
    case False
    then show ?thesis using ok g by (auto simp: start_mcp_call_def no_events_def split: option.split)
  next
    case True
    then obtain cid where cid: "nonempty (jget source ''id'') = Some cid" "output_index (bd_record b) cid = None" by blast
    let ?K = "\<lambda>item i. then_step (emit ''response.output_item.added'' [(''output_index'', JInt (int i)), (''item'', JObj item)])
              (then_step
                 (emit ''response.mcp_call_arguments.done''
                    [(''item_id'', JStr cid), (''output_index'', JInt (int i)), (''arguments'', jget item ''arguments'')])
                 (emit ''response.mcp_call.in_progress'' [(''item_id'', JStr cid), (''output_index'', JInt (int i))]))"
    obtain item k r' where w: "with_item dumps source False ?K b = ?K item k (b\<lparr>bd_record := r'\<rparr>)"
        "builder_ok calls (b\<lparr>bd_record := r'\<rparr>)" "k \<le> length (rr_items (bd_record b))"
        "rr_items r' = (if k < length (rr_items (bd_record b)) then (rr_items (bd_record b))[k := item] else rr_items (bd_record b) @ [item])"
        "rr_message_index r' = rr_message_index (bd_record b)" "rr_completed r' = rr_completed (bd_record b)" "rr_id r' = rr_id (bd_record b)"
      using with_item_ok [OF ok cid(1) assms [OF cid(1)], of dumps False ?K] by blast
    let ?e = "event_payload (bd_sequence b) ''response.output_item.added'' [(''output_index'', JInt (int k)), (''item'', JObj item)]"
    have "shown (b\<lparr>bd_record := r'\<rparr>) (show_event v ?e)" if "shown b v" for v
      by (rule shown_item [OF that w(3)]) (use w in simp_all)
    then show ?thesis using w cid g
      by (simp add: start_mcp_call_def then_step_def emit_def going_def)
  qed
qed

lemma streams_finish_call:
  assumes "nonempty (jget source ''id'') = Some cid" and "cid \<in> calls"
  shows "streams calls going (finish_mcp_call dumps source cid) going"
proof (rule streams_leaf)
  fix b assume ok: "builder_ok calls b" and g: "going b"
  let ?K = "\<lambda>item i. then_step
         (emit (if jget item ''status'' = JStr ''failed'' then ''response.mcp_call.failed'' else ''response.mcp_call.completed'')
            [(''item_id'', JStr cid), (''output_index'', JInt (int i))])
         (then_step (emit ''response.output_item.done'' [(''output_index'', JInt (int i)), (''item'', JObj item)]) (mark_call cid))"
  obtain item k r' where w: "with_item dumps source True ?K b = ?K item k (b\<lparr>bd_record := r'\<rparr>)"
      "builder_ok calls (b\<lparr>bd_record := r'\<rparr>)" "k \<le> length (rr_items (bd_record b))"
      "rr_items r' = (if k < length (rr_items (bd_record b)) then (rr_items (bd_record b))[k := item] else rr_items (bd_record b) @ [item])"
      "rr_message_index r' = rr_message_index (bd_record b)" "rr_completed r' = rr_completed (bd_record b)" "rr_id r' = rr_id (bd_record b)"
    using with_item_ok [OF ok assms, of dumps True ?K] by blast
  let ?e = "event_payload (Suc (bd_sequence b)) ''response.output_item.done'' [(''output_index'', JInt (int k)), (''item'', JObj item)]"
  have "shown (b\<lparr>bd_record := r'\<rparr>) (show_event v ?e)" if "shown b v" for v
    by (rule shown_item [OF that w(3)]) (use w in simp_all)
  then show "\<exists>es b'. finish_mcp_call dumps source cid b = Some (es, b') \<and> builder_ok calls b' \<and> going b'
      \<and> numbered_from (bd_sequence b) es \<and> bd_sequence b' = bd_sequence b + length es
      \<and> rr_id (bd_record b') = rr_id (bd_record b)
      \<and> (\<forall>v. shown b v \<longrightarrow> shown b' (foldl show_event v es)) \<and> list_all (\<lambda>e. \<not> terminal_event e) es"
    using w g by (simp add: finish_mcp_call_def then_step_def emit_def mark_call_def going_def)
qed

lemma streams_complete_call:
  assumes "\<And>cid. nonempty (jget source ''id'') = Some cid \<Longrightarrow> cid \<in> calls"
  shows "streams calls going (complete_mcp_call dumps source) going"
proof (cases "nonempty (jget source ''id'')")
  case None
  then show ?thesis using streams_no_events by (simp add: streams_def complete_mcp_call_def)
next
  case (Some cid)
  have "streams calls going
      (\<lambda>b. if cid \<in> set (bd_completed b) then no_events b
        else if output_index (bd_record b) cid = None
        then then_step (start_mcp_call dumps source) (finish_mcp_call dumps source cid) b
        else then_step no_events (finish_mcp_call dumps source cid) b) going"
    by (intro streams_either streams_no_events streams_then [OF streams_start_call streams_finish_call]
        streams_then [OF streams_no_events streams_finish_call] assms Some)
  moreover have "complete_mcp_call dumps source = (\<lambda>b. if cid \<in> set (bd_completed b) then no_events b
        else if output_index (bd_record b) cid = None
        then then_step (start_mcp_call dumps source) (finish_mcp_call dumps source cid) b
        else then_step no_events (finish_mcp_call dumps source cid) b)"
    using Some by (auto simp: complete_mcp_call_def fun_eq_iff)
  ultimately show ?thesis by simp
qed


section \<open>The end of the stream\<close>

definition stream_done :: "builder \<Rightarrow> obj list \<Rightarrow> builder \<Rightarrow> bool" where
  "stream_done b es b' \<longleftrightarrow>
     bd_terminal b' \<and> numbered_from (bd_sequence b) es \<and> es \<noteq> [] \<and> terminal_event (last es)
     \<and> list_all (\<lambda>e. \<not> terminal_event e) (butlast es)
     \<and> jget (last es) ''response'' = JObj (response_json (bd_record b'))
     \<and> to_response (bd_record b') = Some (response_json (bd_record b'), bd_record b')
     \<and> (\<forall>v. shown b v \<longrightarrow> foldl show_event v es = rr_items (bd_record b'))"

definition ends :: "string set \<Rightarrow> (builder \<Rightarrow> bool) \<Rightarrow> step \<Rightarrow> bool" where
  "ends calls P f \<longleftrightarrow> (\<forall>b. builder_ok calls b \<and> P b \<longrightarrow>
     (\<exists>es b'. f b = Some (es, b') \<and> stream_done b es b' \<and> builder_ok calls b'))"

definition serves :: "string set \<Rightarrow> step \<Rightarrow> bool" where
  "serves calls f \<longleftrightarrow> (\<forall>b. builder_ok calls b \<and> going b \<longrightarrow>
     streams calls (\<lambda>x. x = b) f going \<or> ends calls (\<lambda>x. x = b) f)"

lemma ends_then:
  assumes "streams calls P f Q" and "ends calls Q g"
  shows "ends calls P (then_step f g)"
  unfolding ends_def
proof (intro allI impI)
  fix b assume "builder_ok calls b \<and> P b"
  then obtain es b1 where f: "f b = Some (es, b1)" "builder_ok calls b1" "Q b1" "numbered_from (bd_sequence b) es"
      "bd_sequence b1 = bd_sequence b + length es" "\<forall>v. shown b v \<longrightarrow> shown b1 (foldl show_event v es)"
      "list_all (\<lambda>e. \<not> terminal_event e) es"
    using assms(1) unfolding streams_def by blast
  then obtain es' b2 where g: "g b1 = Some (es', b2)" "stream_done b1 es' b2" "builder_ok calls b2"
    using assms(2) unfolding ends_def by blast
  then show "\<exists>es b'. then_step f g b = Some (es, b') \<and> stream_done b es b' \<and> builder_ok calls b'"
    using f by (intro exI [of _ "es @ es'"] exI [of _ b2])
      (simp add: then_step_def stream_done_def numbered_from_append butlast_append)
qed

lemma ends_weaken: "ends calls P f \<Longrightarrow> (\<And>b. P' b \<Longrightarrow> P b) \<Longrightarrow> ends calls P' f"
  unfolding ends_def by blast

lemma serves_streams: "streams calls going f going \<Longrightarrow> serves calls f"
  unfolding serves_def streams_def by blast

lemma serves_ends: "ends calls going f \<Longrightarrow> serves calls f"
  unfolding serves_def ends_def by blast

text \<open>The changes of the record at the end do not touch the items.\<close>

definition outcome_only :: "(response \<Rightarrow> response) \<Rightarrow> bool" where
  "outcome_only f \<longleftrightarrow> (\<forall>r. rr_items (f r) = rr_items r \<and> rr_indexes (f r) = rr_indexes r \<and> rr_started (f r) = rr_started r
     \<and> rr_completed (f r) = rr_completed r \<and> rr_message_id (f r) = rr_message_id r
     \<and> rr_message_index (f r) = rr_message_index r \<and> rr_text (f r) = rr_text r \<and> rr_id (f r) = rr_id r)"

lemma outcome_frame:
  assumes "outcome_only f"
  shows "builder_ok calls (b\<lparr>bd_record := f (bd_record b)\<rparr>) = builder_ok calls b"
    and "shown (b\<lparr>bd_record := f (bd_record b)\<rparr>) v = shown b v"
    and "rr_items (f r) = rr_items r" and "rr_completed (f r) = rr_completed r" and "rr_started (f r) = rr_started r"
    and "rr_id (f r) = rr_id r"
  using assms by (simp_all add: outcome_only_def builder_ok_def shown_def message_item_def Let_def)

lemma streams_outcome: "outcome_only f \<Longrightarrow> streams calls message_finished (on_record f) message_finished"
  by (rule streams_leaf) (simp add: on_record_def outcome_frame message_finished_def)

lemma shown_finished:
  "shown b v \<Longrightarrow> builder_ok calls b \<Longrightarrow> message_finished b \<Longrightarrow> v = rr_items (bd_record b)"
  by (auto simp: shown_def builder_ok_def message_finished_def Let_def intro!: nth_equalityI split: if_splits)

lemma ends_terminal:
  assumes "outcome_only f" and "t \<in> {''response.completed'', ''response.failed'', ''response.incomplete''}"
  shows "ends calls message_finished (terminal_step f t)"
  unfolding ends_def
proof (intro allI impI)
  fix b assume ok: "builder_ok calls b \<and> message_finished b"
  let ?b = "b\<lparr>bd_record := f (bd_record b), bd_terminal := True\<rparr>"
  have same: "builder_ok calls (b\<lparr>bd_record := f (bd_record b)\<rparr>)" using ok outcome_frame(1) [OF assms(1)] by simp
  from to_response_ok [OF this] have response: "to_response (f (bd_record b)) = Some (response_json (f (bd_record b)), f (bd_record b))"
    by simp
  let ?e = "event_payload (bd_sequence b) t [(''response'', JObj (response_json (f (bd_record b))))]"
  have step: "terminal_step f t b = Some ([?e], ?b\<lparr>bd_sequence := bd_sequence b + 1\<rparr>)"
    using response by (simp add: terminal_step_def emit_response_def emit_def)
  have "\<not> item_event ?e" "terminal_event ?e" using assms(2) by auto
  moreover have "\<forall>v. shown b v \<longrightarrow> v = rr_items (f (bd_record b))"
    using ok shown_finished outcome_frame(3) [OF assms(1)] by metis
  moreover have "builder_ok calls (?b\<lparr>bd_sequence := bd_sequence b + 1\<rparr>)" using same by (simp add: builder_ok_def)
  ultimately show "\<exists>es b'. terminal_step f t b = Some (es, b') \<and> stream_done b es b' \<and> builder_ok calls b'"
    using step response by (simp add: stream_done_def)
qed

lemma outcomes [simp]:
  "outcome_only (\<lambda>r. r\<lparr>rr_status := st\<rparr>)" "outcome_only (\<lambda>r. r\<lparr>rr_usage := us\<rparr>)"
  "outcome_only (\<lambda>r. r\<lparr>rr_status := st, rr_error := er\<rparr>)" "outcome_only (\<lambda>r. r\<lparr>rr_status := st, rr_incomplete := inc\<rparr>)"
  by (simp_all add: outcome_only_def)


lemma streams_calls:
  assumes "\<And>v. v \<in> set vs \<Longrightarrow> set (kind_id ''mcpToolCall'' v) \<subseteq> calls"
  shows "streams calls going (complete_calls dumps vs) going"
  using assms
proof (induction vs)
  case Nil
  then show ?case using streams_no_events by simp
next
  case (Cons v vs)
  have "streams calls going (case v of
          JObj item \<Rightarrow> if jget item ''type'' = JStr ''mcpToolCall'' then complete_mcp_call dumps item else no_events
        | _ \<Rightarrow> no_events) going"
  proof (cases "\<exists>item. v = JObj item \<and> jget item ''type'' = JStr ''mcpToolCall''")
    case True
    then obtain item where v: "v = JObj item" "jget item ''type'' = JStr ''mcpToolCall''" by blast
    have "streams calls going (complete_mcp_call dumps item) going"
      by (rule streams_complete_call) (use Cons.prems [of v] v in \<open>simp add: kind_id_def\<close>)
    then show ?thesis using v by simp
  next
    case False
    then show ?thesis using streams_no_events by (auto split: json.split)
  qed
  then show ?case using Cons streams_then by simp
qed

lemma ends_status:
  "ends calls message_finished (terminal_step (\<lambda>r. r\<lparr>rr_status := RespCompleted\<rparr>) ''response.completed'')"
  "ends calls message_finished (incomplete_step m)" "ends calls message_finished (fail_step c m)"
  unfolding incomplete_step_def fail_step_def by (simp_all add: ends_terminal)

lemma ends_turn: "ends calls message_finished (end_turn turn)"
  using ends_status by (cases "status_of (jget turn ''status'')") (simp_all add: end_turn_def)

lemma agent_message_id:
  assumes "agent_message v = Some (t, Some i)" and "i \<noteq> []"
  shows "i \<in> set (kind_id ''agentMessage'' v)"
proof (cases v)
  case (JObj item)
  then show ?thesis using assms by (auto simp: agent_message_def intro: kind_id_member split: if_splits)
qed (use assms in \<open>simp_all add: agent_message_def\<close>)

lemma last_message_id:
  assumes "last_agent_message turn = (t, Some i)" and "i \<noteq> []"
  shows "\<exists>v\<in>set (case as_list (jget turn ''items'') of Some vs \<Rightarrow> vs | None \<Rightarrow> []). i \<in> set (kind_id ''agentMessage'' v)"
proof (cases "as_list (jget turn ''items'')")
  case None
  then show ?thesis using assms(1) by (simp add: last_agent_message_def)
next
  case (Some vs)
  then obtain ms where "List.map_filter agent_message (rev vs) = (t, Some i) # ms"
    using assms(1) by (cases "List.map_filter agent_message (rev vs)") (simp_all add: last_agent_message_def)
  then have "(t, Some i) \<in> set (List.map_filter agent_message (rev vs))" by simp
  then obtain v where "v \<in> set vs" "agent_message v = Some (t, Some i)"
    by (auto simp: List.map_filter_def)
  then show ?thesis using Some assms(2) agent_message_id by auto
qed

lemma ends_complete_turn:
  assumes "\<And>v. v \<in> set (case as_list (jget turn ''items'') of Some vs \<Rightarrow> vs | None \<Rightarrow> []) \<Longrightarrow>
      set (kind_id ''mcpToolCall'' v) \<subseteq> calls \<and> set (kind_id ''agentMessage'' v) \<inter> calls = {}"
    and "[] \<notin> calls"
  shows "ends calls going (complete_turn dumps turn)"
proof -
  have message: "streams calls going (case last_agent_message turn of (text, mid) \<Rightarrow>
      if text = [] then no_events else sync_completed_message text mid) going"
  proof (cases "last_agent_message turn")
    case (Pair t mid)
    have "i \<notin> calls" if "mid = Some i" for i
      using last_message_id [of turn t i] Pair that assms by fastforce
    then show ?thesis using Pair streams_no_events streams_message(2) by simp
  qed
  have "ends calls going (then_step (complete_calls dumps (case as_list (jget turn ''items'') of Some vs \<Rightarrow> vs | None \<Rightarrow> []))
        (then_step (case last_agent_message turn of (text, item_id) \<Rightarrow>
             if text = [] then no_events else sync_completed_message text item_id)
          (then_step finish_message
            (then_step (on_record (\<lambda>r. r\<lparr>rr_usage := usage_from_turn turn\<rparr>)) (end_turn turn)))))"
    by (rule ends_then [OF streams_calls ends_then [OF message ends_then [OF streams_finish_message
          ends_then [OF streams_outcome ends_turn]]]]) (use assms(1) in simp_all)
  then show ?thesis unfolding ends_def complete_turn_def by (simp add: going_def)
qed

lemma ends_driver:
  assumes "ends calls message_finished f"
  shows "ends calls going (\<lambda>b. if bd_terminal b then no_events b else then_step finish_message f b)"
  using ends_then [OF streams_finish_message assms] unfolding ends_def by (simp add: going_def)

lemma ends_fail: "ends calls going (fail m)"
  unfolding fail_def [abs_def] by (rule ends_driver [OF ends_status(3)])

lemma ends_incomplete: "ends calls going (incomplete m)"
  unfolding incomplete_def [abs_def] by (rule ends_driver [OF ends_status(2)])

lemma serves_consume:
  assumes "set (call_ids n) \<subseteq> calls" and "set (message_ids n) \<inter> calls = {}" and "[] \<notin> calls"
  shows "serves calls (consume dumps n)"
proof (cases "\<exists>m params. jget n ''method'' = JStr m \<and> jget n ''params'' = JObj params")
  case False
  then have "consume dumps n = no_events"
    by (cases "jget n ''method''"; cases "jget n ''params''") (simp_all add: consume_def)
  then show ?thesis using serves_streams streams_no_events by simp
next
  case True
  then obtain m params where n: "jget n ''method'' = JStr m" "jget n ''params'' = JObj params" by blast
  have ids: "set (kind_id ''mcpToolCall'' (jget params ''item'')) \<subseteq> calls"
      "set (kind_id ''agentMessage'' (jget params ''item'')) \<inter> calls = {}"
      "\<And>v. v \<in> set (turn_items params) \<Longrightarrow> set (kind_id ''mcpToolCall'' v) \<subseteq> calls \<and> set (kind_id ''agentMessage'' v) \<inter> calls = {}"
      "\<And>i. jget params ''itemId'' = JStr i \<Longrightarrow> i \<notin> calls"
    using assms n by (auto simp: call_ids_def message_ids_def notified_ids_def nonempty_def)
  have call: "cid \<in> calls" if "jget params ''item'' = JObj item" "jget item ''type'' = JStr ''mcpToolCall''"
      "nonempty (jget item ''id'') = Some cid" for item cid
    using ids(1) that by (simp add: kind_id_def)
  have message: "i \<notin> calls" if "jget params ''item'' = JObj item" "jget item ''type'' = JStr ''agentMessage''"
      "jget item ''id'' = JStr i" for item i
    using ids(2) that assms(3) by (cases "i = []") (auto simp: kind_id_def nonempty_def)
  have started: "serves calls (consume_started dumps params)"
    unfolding consume_started_def using call
    by (auto intro!: serves_streams streams_start_call streams_no_events split: json.split)
  have delta: "serves calls (consume_delta params)"
    unfolding consume_delta_def using ids(4)
    by (auto intro!: serves_streams streams_message(1) streams_no_events split: option.split)
  have completed: "serves calls (consume_completed dumps params)"
    unfolding consume_completed_def using call message
    by (auto intro!: serves_streams streams_message(2) streams_complete_call streams_no_events split: json.split)
  have turn: "serves calls (complete_turn dumps (case as_obj (jget params ''turn'') of Some t \<Rightarrow> t | None \<Rightarrow> []))"
    by (rule serves_ends [OF ends_complete_turn]) (use ids(3) assms(3) in \<open>auto simp: turn_items_def split: option.splits\<close>)
  have failed: "serves calls (if jget params ''willRetry'' = JBool True then no_events else fail (error_message params))"
    using serves_ends [OF ends_fail] serves_streams [OF streams_no_events] by simp
  show ?thesis using n started delta completed turn failed serves_streams [OF streams_no_events]
    by (simp add: consume_def)
qed


lemma serves_run:
  assumes "\<And>n. n \<in> set ns \<Longrightarrow> set (call_ids n) \<subseteq> calls \<and> set (message_ids n) \<inter> calls = {}" and "[] \<notin> calls"
  shows "serves calls (run_builder dumps ns)"
  using assms(1)
proof (induction ns)
  case Nil
  then show ?case using serves_streams streams_no_events by simp
next
  case (Cons n ns)
  let ?g = "\<lambda>b. if bd_terminal b then no_events b else run_builder dumps ns b"
  show ?case unfolding serves_def
  proof (intro allI impI)
    fix b assume ok: "builder_ok calls b \<and> going b"
    have "streams calls (\<lambda>x. x = b) (consume dumps n) going \<or> ends calls (\<lambda>x. x = b) (consume dumps n)"
      using serves_consume [of n calls dumps] Cons.prems assms(2) ok unfolding serves_def by simp
    then show "streams calls (\<lambda>x. x = b) (run_builder dumps (n # ns)) going \<or> ends calls (\<lambda>x. x = b) (run_builder dumps (n # ns))"
    proof
      assume "ends calls (\<lambda>x. x = b) (consume dumps n)"
      then obtain es b1 where "consume dumps n b = Some (es, b1)" "stream_done b es b1" "builder_ok calls b1"
        using ok unfolding ends_def by blast
      then show ?thesis by (simp add: ends_def then_step_def no_events_def stream_done_def)
    next
      assume f: "streams calls (\<lambda>x. x = b) (consume dumps n) going"
      then obtain es b1 where b1: "consume dumps n b = Some (es, b1)" "builder_ok calls b1" "going b1"
        using ok unfolding streams_def by blast
      have step: "run_builder dumps (n # ns) b = then_step (consume dumps n) (run_builder dumps ns) b"
        using b1 by (simp add: then_step_def going_def)
      have f': "streams calls (\<lambda>x. x = b) (consume dumps n) (\<lambda>x. x = b1)"
        using f b1 unfolding streams_def by fastforce
      have "streams calls (\<lambda>x. x = b1) (run_builder dumps ns) going \<or> ends calls (\<lambda>x. x = b1) (run_builder dumps ns)"
        using Cons b1 unfolding serves_def by simp
      then have "streams calls (\<lambda>x. x = b) (then_step (consume dumps n) (run_builder dumps ns)) going
          \<or> ends calls (\<lambda>x. x = b) (then_step (consume dumps n) (run_builder dumps ns))"
        using streams_then [OF f'] ends_then [OF f'] by blast
      then show ?thesis unfolding streams_def ends_def using step by simp
    qed
  qed
qed

section \<open>The whole stream\<close>

text \<open>How the driver of a response ends: with the turn, by a failure of its own, or by a cancellation.\<close>

datatype driver_end = TurnOver | DriverFailed string | DriverCancelled

fun end_step :: "driver_end \<Rightarrow> step" where
  "end_step TurnOver = no_events"
| "end_step (DriverFailed m) = fail m"
| "end_step DriverCancelled = incomplete ''cancelled''"

text \<open>
  The steps of the builder for a whole response. Between the steps the service binds the apps of the events
  (\<open>bind_events\<close>); that changes the items and their copies in the record, and is part of the published streams of
  \<open>Stream_Replay\<close>, not of this function.
\<close>

definition response_stream :: "(json \<Rightarrow> string) \<Rightarrow> obj list \<Rightarrow> driver_end \<Rightarrow> response \<Rightarrow> (obj list \<times> builder) option" where
  "response_stream dumps ns how r =
     then_step initial_events (then_step (run_builder dumps ns) (end_step how)) (new_builder r)"

definition ids_apart :: "obj list \<Rightarrow> string \<Rightarrow> bool" where
  "ids_apart ns mid \<longleftrightarrow> mid \<noteq> []
     \<and> list_all (\<lambda>n. list_all (\<lambda>m. list_all (\<lambda>i. i \<noteq> mid \<and> i \<notin> set (message_ids m)) (call_ids n)) ns) ns"

lemma call_ids_nonempty: "[] \<notin> set (call_ids n)"
  using notified_ids_nonempty [of "''mcpToolCall''" n] by (auto simp: call_ids_def list_all_iff)

lemma streams_initial: "streams calls going initial_events going"
proof -
  have "streams calls going (emit_response t) going" if "t \<in> {''response.created'', ''response.in_progress''}" for t
    by (rule streams_leaf) (use that to_response_ok in \<open>auto simp: emit_response_def emit_def going_def\<close>)
  then show ?thesis unfolding initial_events_def by (intro streams_then [where Q = going]) simp_all
qed

lemma new_builder_ok:
  assumes "mid \<noteq> []" and "mid \<notin> calls"
  shows "builder_ok calls (new_builder (create_response q items base rid mid now))"
    and "going (new_builder (create_response q items base rid mid now))"
    and "shown (new_builder (create_response q items base rid mid now)) []"
  using assms by (simp_all add: builder_ok_def new_builder_def create_response_def going_def shown_def)

lemma response_stream_outcome:
  assumes "ids_apart ns mid"
  shows "\<exists>es b. response_stream dumps ns how (create_response q items base rid mid now) = Some (es, b)
    \<and> numbered_from 0 es
    \<and> (if bd_terminal b
       then es \<noteq> [] \<and> terminal_event (last es) \<and> list_all (\<lambda>e. \<not> terminal_event e) (butlast es)
         \<and> jget (last es) ''response'' = JObj (response_json (bd_record b))
         \<and> to_response (bd_record b) = Some (response_json (bd_record b), bd_record b)
         \<and> foldl show_event [] es = rr_items (bd_record b)
       else how = TurnOver \<and> list_all (\<lambda>e. \<not> terminal_event e) es)"
proof -
  define calls where "calls = \<Union> (set ` call_ids ` set ns)"
  let ?b = "new_builder (create_response q items base rid mid now)"
  have apart: "mid \<noteq> []" "mid \<notin> calls" "[] \<notin> calls"
      "\<And>n. n \<in> set ns \<Longrightarrow> set (call_ids n) \<subseteq> calls \<and> set (message_ids n) \<inter> calls = {}"
    using assms call_ids_nonempty unfolding ids_apart_def calls_def list_all_iff by blast+
  note start = new_builder_ok [OF apart(1,2)]
  let ?f = "then_step initial_events (run_builder dumps ns)"
  have "serves calls ?f"
  proof -
    have "streams calls (\<lambda>x. x = b) ?f going \<or> ends calls (\<lambda>x. x = b) ?f" if b: "builder_ok calls b" "going b" for b
    proof -
      obtain es b1 where b1: "initial_events b = Some (es, b1)" "builder_ok calls b1" "going b1"
        using streams_initial [of calls] b unfolding streams_def by blast
      have f: "streams calls (\<lambda>x. x = b) initial_events (\<lambda>x. x = b1)"
        using streams_initial [of calls] b b1 unfolding streams_def by fastforce
      have "streams calls (\<lambda>x. x = b1) (run_builder dumps ns) going \<or> ends calls (\<lambda>x. x = b1) (run_builder dumps ns)"
        using serves_run [of ns calls dumps, OF apart(4,3)] b1 unfolding serves_def by simp
      then show ?thesis using streams_then [OF f] ends_then [OF f] by blast
    qed
    then show ?thesis by (simp add: serves_def)
  qed
  then consider "streams calls (\<lambda>x. x = ?b) ?f going" | "ends calls (\<lambda>x. x = ?b) ?f"
    using start unfolding serves_def by blast
  then show ?thesis
  proof cases
    case 1
    show ?thesis
    proof (cases how)
      case TurnOver
      then show ?thesis using 1 start
        by (auto simp: streams_def response_stream_def then_step_assoc then_step_def no_events_def going_def new_builder_def)
    next
      case (DriverFailed m)
      have "ends calls (\<lambda>x. x = ?b) (then_step ?f (fail m))" by (rule ends_then [OF 1 ends_fail])
      then show ?thesis using start DriverFailed
        by (fastforce simp: ends_def response_stream_def then_step_assoc stream_done_def new_builder_def)
    next
      case DriverCancelled
      have "ends calls (\<lambda>x. x = ?b) (then_step ?f (incomplete ''cancelled''))" by (rule ends_then [OF 1 ends_incomplete])
      then show ?thesis using start DriverCancelled
        by (fastforce simp: ends_def response_stream_def then_step_assoc stream_done_def new_builder_def)
    qed
  next
    case 2
    then obtain es b where b: "?f ?b = Some (es, b)" "stream_done ?b es b" using start unfolding ends_def by blast
    have "end_step how b = Some ([], b)"
      using b(2) by (cases how) (simp_all add: no_events_def fail_def incomplete_def stream_done_def)
    then show ?thesis using b start
      by (auto simp: response_stream_def then_step_assoc then_step_def [of ?f] stream_done_def new_builder_def)
  qed
qed


text \<open>
  C23. The events that the builder makes of a response end, and exactly once. As long as the ids of tool
  calls differ from the ids of messages and from the id that the adapter chose for its own message, the
  builder raises nothing, whatever else the app-server sends; its events carry the sequence numbers 0, 1, 2
  and so on; and one terminal event
  (completed, failed or incomplete) comes last once the turn is over, the driver fails or the
  response is cancelled, with no terminal event before it.
\<close>

theorem response_stream_ends_once:
  assumes "ids_apart ns mid"
  shows "\<exists>es b. response_stream dumps ns how (create_response q items base rid mid now) = Some (es, b)
    \<and> numbered_from 0 es
    \<and> (if bd_terminal b
       then es \<noteq> [] \<and> terminal_event (last es) \<and> list_all (\<lambda>e. \<not> terminal_event e) (butlast es)
       else how = TurnOver \<and> list_all (\<lambda>e. \<not> terminal_event e) es)"
  using response_stream_outcome [OF assms] by (fastforce split: if_splits)

section \<open>Two messages in one turn\<close>

definition sample_request :: create_request where
  "sample_request = \<lparr>cq_model = ''m'', cq_input = JStr ''hi'', cq_instructions = None, cq_previous = None, cq_stream = True,
     cq_background = False, cq_metadata = None, cq_tools = None, cq_store = None, cq_max_output = None, cq_reasoning = None,
     cq_service_tier = None, cq_extra = []\<rparr>"

definition notification :: "string \<Rightarrow> obj \<Rightarrow> obj" where
  "notification m params = [(''method'', JStr m), (''params'', JObj params)]"

definition message_delta :: "string \<Rightarrow> string \<Rightarrow> obj" where
  "message_delta mid t = notification ''item/agentMessage/delta'' [(''itemId'', JStr mid), (''delta'', JStr t)]"

definition message_completed :: "string \<Rightarrow> string \<Rightarrow> obj" where
  "message_completed mid t = notification ''item/completed''
     [(''item'', JObj [(''id'', JStr mid), (''type'', JStr ''agentMessage''), (''text'', JStr t)])]"

definition turn_completed :: obj where
  "turn_completed = notification ''turn/completed'' [(''turn'', JObj [(''status'', JStr ''completed'')])]"

definition delta_text :: "obj list \<Rightarrow> string" where
  "delta_text es =
     concat (map (\<lambda>e. if jget e ''type'' = JStr ''response.output_text.delta'' then string_or_empty (jget e ''delta'') else []) es)"

text \<open>
  When a turn has two agent messages, the text that was streamed is not the text of the response:
  the deltas of both are sent under one message, the completion of the second replaces the text by
  its own without a delta, and the terminal response has lost the first message.
\<close>

theorem second_message_overwrites:
  assumes "t1 \<noteq> []" and "t2 \<noteq> []" and "m1 \<noteq> []"
  shows "\<exists>es b. response_stream dumps [message_delta m1 t1, message_delta m2 t2, message_completed m2 t2, turn_completed]
      TurnOver (create_response q items base rid mid now) = Some (es, b)
    \<and> bd_terminal b \<and> delta_text es = t1 @ t2 \<and> rr_text (bd_record b) = t2 \<and> length (rr_items (bd_record b)) = 1"
proof -
  have other: "\<not> starts_with (t1 @ t2) t2" "t2 \<noteq> t1 @ t2" using assms by (auto simp: starts_with_iff dest: arg_cong [of _ _ length])
  have status: "status_of (JStr ''completed'') = Some ''completed''" by (simp add: status_of_def status_names_def lower_def lower_char_def)
  show ?thesis using assms other status
    by (simp add: response_stream_def then_step_def initial_events_def emit_response_def to_response_def sync_message_def emit_def
        consume_def message_delta_def message_completed_def turn_completed_def notification_def consume_delta_def nonempty_def
        append_text_def start_message_def ensure_message_def add_output_item_def output_index_def extend_text_def
        on_record_def sync_record_def emit_delta_def consume_completed_def string_or_empty_def sync_completed_message_def
        sync_text_def complete_turn_def last_agent_message_def finish_message_def finish_events_def end_turn_def
        terminal_step_def create_response_def new_builder_def no_events_def delta_text_def Let_def)
qed


section \<open>A sample stream\<close>

definition sample_notifications :: "obj list" where
  "sample_notifications = [message_delta ''m1'' ''a'', message_delta ''m2'' ''b'',
     notification ''item/completed'' [(''item'', JObj [(''id'', JStr ''c1''), (''type'', JStr ''mcpToolCall''), (''server'', JStr ''s''),
       (''tool'', JStr ''t''), (''status'', JStr ''completed''), (''result'', JObj [])])],
     message_completed ''m2'' ''b'', turn_completed]"

definition sample_response :: response where
  "sample_response = create_response sample_request [] [] ''resp_1'' ''msg_1'' 0"

lemma sample_ids: "ids_apart sample_notifications ''msg_1''"
  by code_simp

lemma sample_stream_done:
  "map_option (\<lambda>(es, b). (length es, bd_terminal b, length (rr_items (bd_record b))))
     (response_stream (\<lambda>v. ''{}'') sample_notifications TurnOver sample_response) = Some (15, True, 2)"
  by code_simp

lemma response_stream_ends_once_witness:
  "\<exists>es b. response_stream (\<lambda>v. ''{}'') sample_notifications TurnOver sample_response = Some (es, b)
     \<and> numbered_from 0 es \<and> length es = 15 \<and> terminal_event (last es)"
  using response_stream_ends_once [OF sample_ids, of "\<lambda>v. ''{}''" TurnOver sample_request "[]" "[]" "''resp_1''" 0]
    sample_stream_done by (auto simp flip: sample_response_def split: if_splits)

lemma second_message_overwrites_witness:
  "\<exists>es b. response_stream (\<lambda>v. ''{}'') [message_delta ''m1'' ''I will look. '', message_delta ''m2'' ''Done.'',
       message_completed ''m2'' ''Done.'', turn_completed] TurnOver sample_response = Some (es, b)
     \<and> delta_text es = ''I will look. Done.'' \<and> rr_text (bd_record b) = ''Done.''"
  using second_message_overwrites [of "''I will look. ''" "''Done.''" "''m1''" "\<lambda>v. ''{}''" "''m2''" sample_request "[]" "[]" "''resp_1''" "''msg_1''" 0]
  unfolding sample_response_def by auto

end
