(* ===== verification/Programs.thy ===== *)
theory Programs
  imports Prelude
begin

text \<open>
  Programs of the components that wait for something outside while others act: coroutines of the
  Responses adapter and of the Agent BFF, and the storage operations, each of whose system calls may fail
  or be the last one before the process is killed.

  A program ends with a value or an error, reads or writes the state of its process, or awaits something
  outside. Everything between two \<open>Await\<close>s is one atomic step; during an \<open>Await\<close> the others may change the
  state in any way. \<open>Stuck\<close> is a loop whose fuel has run out. The second half is a logic for programs in the
  manner of rely and guarantee, with a rule for every construct.
\<close>

section \<open>Programs\<close>

datatype ('e, 'q, 'r, 's, 'a) prog =
    Done 'a
  | Raise 'e
  | Stuck
  | Await 'q "'e + 'r \<Rightarrow> ('e, 'q, 'r, 's, 'a) prog"
  | ReadState "'s \<Rightarrow> ('e, 'q, 'r, 's, 'a) prog"
  | WriteState "'s \<Rightarrow> 's" "('e, 'q, 'r, 's, 'a) prog"

primrec bind_io :: "('e, 'q, 'r, 's, 'a) prog \<Rightarrow> ('a \<Rightarrow> ('e, 'q, 'r, 's, 'b) prog) \<Rightarrow> ('e, 'q, 'r, 's, 'b) prog" where
  "bind_io (Done a) f = f a"
| "bind_io (Raise e) f = Raise e"
| "bind_io Stuck f = Stuck"
| "bind_io (Await c k) f = Await c (\<lambda>r. bind_io (k r) f)"
| "bind_io (ReadState k) f = ReadState (\<lambda>s. bind_io (k s) f)"
| "bind_io (WriteState g p) f = WriteState g (bind_io p f)"

primrec catch_io :: "('e, 'q, 'r, 's, 'a) prog \<Rightarrow> ('e \<Rightarrow> ('e, 'q, 'r, 's, 'a) prog) \<Rightarrow> ('e, 'q, 'r, 's, 'a) prog" where
  "catch_io (Done a) h = Done a"
| "catch_io (Raise e) h = h e"
| "catch_io Stuck h = Stuck"
| "catch_io (Await c k) h = Await c (\<lambda>r. catch_io (k r) h)"
| "catch_io (ReadState k) h = ReadState (\<lambda>s. catch_io (k s) h)"
| "catch_io (WriteState g p) h = WriteState g (catch_io p h)"

definition lift_result :: "'e + 'a \<Rightarrow> ('e, 'q, 'r, 's, 'a) prog" where
  "lift_result r = (case r of Inl e \<Rightarrow> Raise e | Inr a \<Rightarrow> Done a)"

definition guard_io :: "bool \<Rightarrow> 'e \<Rightarrow> ('e, 'q, 'r, 's, 'a) prog \<Rightarrow> ('e, 'q, 'r, 's, 'a) prog" where
  "guard_io ok e p = (if ok then p else Raise e)"

text \<open>\<open>try: p finally: q\<close>: the error of \<open>q\<close> wins, otherwise \<open>p\<close> ends as it did.\<close>

definition finally_io :: "('e, 'q, 'r, 's, 'a) prog \<Rightarrow> ('e, 'q, 'r, 's, unit) prog \<Rightarrow> ('e, 'q, 'r, 's, 'a) prog" where
  "finally_io p q =
     bind_io (catch_io (bind_io p (\<lambda>a. Done (Inr a))) (\<lambda>e. Done (Inl e)))
       (\<lambda>r. bind_io q (\<lambda>u. lift_result r))"

primrec each_io :: "('x \<Rightarrow> ('e, 'q, 'r, 's, 'a) prog) \<Rightarrow> 'x list \<Rightarrow> ('e, 'q, 'r, 's, 'a list) prog" where
  "each_io f [] = Done []"
| "each_io f (x # xs) = bind_io (f x) (\<lambda>a. bind_io (each_io f xs) (\<lambda>as. Done (a # as)))"

section \<open>Runs\<close>

text \<open>
  The world answers each \<open>Await\<close> and tells what the others have done to the state meanwhile. The run is
  what was awaited, the outcome, \<open>None\<close> while the program waits, is stuck or was killed, and the state.
\<close>

record ('e, 'r, 's) world_step =
  wd_reply :: "'e + 'r"
  wd_others :: "'s \<Rightarrow> 's"

primrec run ::
  "('e, 'q, 'r, 's, 'a) prog \<Rightarrow> ('e, 'r, 's) world_step list \<Rightarrow> 's \<Rightarrow> 'q list \<times> ('e + 'a) option \<times> 's" where
  "run (Done a) w s = ([], Some (Inr a), s)"
| "run (Raise e) w s = ([], Some (Inl e), s)"
| "run Stuck w s = ([], None, s)"
| "run (Await c k) w s =
     (case w of
        [] \<Rightarrow> ([c], None, s)
      | x # xs \<Rightarrow> (case run (k (wd_reply x)) xs (wd_others x s) of (cs, r, t) \<Rightarrow> (c # cs, r, t)))"
| "run (ReadState k) w s = run (k s) w s"
| "run (WriteState g p) w s = run p w (g s)"

lemma run_bind:
  "run (bind_io p f) w s =
     (case run p w s of
        (cs, Some (Inr a), t) \<Rightarrow> (case run (f a) (drop (length cs) w) t of (cs', r, u) \<Rightarrow> (cs @ cs', r, u))
      | (cs, Some (Inl e), t) \<Rightarrow> (cs, Some (Inl e), t)
      | (cs, None, t) \<Rightarrow> (cs, None, t))"
proof (induction p arbitrary: w s)
  case (Await c k)
  show ?case
  proof (cases w)
    case (Cons x xs)
    obtain cs r t where "run (k (wd_reply x)) xs (wd_others x s) = (cs, r, t)" by (cases "run (k (wd_reply x)) xs (wd_others x s)") auto
    then show ?thesis using Await.IH [OF rangeI, of "wd_reply x" xs "wd_others x s"] Cons
      by (auto split: option.splits sum.splits prod.splits)
  qed simp
qed (auto split: prod.splits)

lemma run_catch:
  "run (catch_io p h) w s =
     (case run p w s of
        (cs, Some (Inl e), t) \<Rightarrow> (case run (h e) (drop (length cs) w) t of (cs', r, u) \<Rightarrow> (cs @ cs', r, u))
      | (cs, Some (Inr a), t) \<Rightarrow> (cs, Some (Inr a), t)
      | (cs, None, t) \<Rightarrow> (cs, None, t))"
proof (induction p arbitrary: w s)
  case (Await c k)
  show ?case
  proof (cases w)
    case (Cons x xs)
    obtain cs r t where "run (k (wd_reply x)) xs (wd_others x s) = (cs, r, t)" by (cases "run (k (wd_reply x)) xs (wd_others x s)") auto
    then show ?thesis using Await.IH [OF rangeI, of "wd_reply x" xs "wd_others x s"] Cons
      by (auto split: option.splits sum.splits prod.splits)
  qed simp
qed (auto split: prod.splits)

lemma run_length: "run p w s = (cs, Some r, t) \<Longrightarrow> length cs \<le> length w"
proof (induction p arbitrary: w s cs)
  case (Await c k)
  then show ?case by (cases w) (fastforce split: prod.splits)+
next
  case (ReadState k)
  then show ?case using ReadState.IH [OF rangeI, of s] by simp
qed auto

text \<open>A program all of whose awaits satisfy \<open>P\<close>.\<close>

primrec awaits :: "('q \<Rightarrow> bool) \<Rightarrow> ('e, 'q, 'r, 's, 'a) prog \<Rightarrow> bool" where
  "awaits P (Done a) = True"
| "awaits P (Raise e) = True"
| "awaits P Stuck = True"
| "awaits P (Await c k) = (P c \<and> (\<forall>r. awaits P (k r)))"
| "awaits P (ReadState k) = (\<forall>s. awaits P (k s))"
| "awaits P (WriteState g p) = awaits P p"

lemma run_awaits: "awaits P p \<Longrightarrow> run p w s = (cs, r, t) \<Longrightarrow> list_all P cs"
proof (induction p arbitrary: w s cs)
  case (Await c k)
  then show ?case by (cases w) (fastforce split: prod.splits)+
next
  case (ReadState k)
  then show ?case using ReadState.IH [OF rangeI, of s] by simp
qed auto

lemma awaits_bind: "awaits P p \<Longrightarrow> (\<And>a. awaits P (f a)) \<Longrightarrow> awaits P (bind_io p f)"
  by (induction p) auto

lemma awaits_catch: "awaits P p \<Longrightarrow> (\<And>e. awaits P (h e)) \<Longrightarrow> awaits P (catch_io p h)"
  by (induction p) auto

section \<open>What programs keep, return and raise\<close>

primrec keeps :: "('s \<Rightarrow> 'v) \<Rightarrow> ('e, 'q, 'r, 's, 'a) prog \<Rightarrow> bool" where
  "keeps f (Done a) = True"
| "keeps f (Raise e) = True"
| "keeps f Stuck = True"
| "keeps f (Await c k) = (\<forall>r. keeps f (k r))"
| "keeps f (ReadState k) = (\<forall>s. keeps f (k s))"
| "keeps f (WriteState g p) = ((\<forall>s. f (g s) = f s) \<and> keeps f p)"

primrec yields :: "('a \<Rightarrow> bool) \<Rightarrow> ('e \<Rightarrow> bool) \<Rightarrow> ('e, 'q, 'r, 's, 'a) prog \<Rightarrow> bool" where
  "yields Q E (Done a) = Q a"
| "yields Q E (Raise e) = E e"
| "yields Q E Stuck = True"
| "yields Q E (Await c k) = (\<forall>r. yields Q E (k r))"
| "yields Q E (ReadState k) = (\<forall>s. yields Q E (k s))"
| "yields Q E (WriteState g p) = yields Q E p"

definition spare :: "('s \<Rightarrow> 'v) \<Rightarrow> ('e, 'r, 's) world_step list \<Rightarrow> bool" where
  "spare f w \<longleftrightarrow> list_all (\<lambda>x. \<forall>s. f (wd_others x s) = f s) w"

lemma spare_Cons [simp]: "spare f (x # xs) \<longleftrightarrow> (\<forall>s. f (wd_others x s) = f s) \<and> spare f xs"
  by (simp add: spare_def)

lemma spare_drop: "spare f w \<Longrightarrow> spare f (drop n w)"
  by (auto simp: spare_def list_all_iff dest: in_set_dropD)

lemma keeps_run: "keeps f p \<Longrightarrow> spare f w \<Longrightarrow> run p w s = (cs, r, t) \<Longrightarrow> f t = f s"
proof (induction p arbitrary: w s cs)
  case (Await c k)
  show ?case
  proof (cases w)
    case (Cons x xs)
    obtain cs' r' t' where k: "run (k (wd_reply x)) xs (wd_others x s) = (cs', r', t')" by (cases "run (k (wd_reply x)) xs (wd_others x s)")
    then show ?thesis using Await.IH [OF rangeI, of "wd_reply x" xs "wd_others x s" cs'] Await.prems Cons by auto
  qed (use Await.prems in auto)
next
  case (ReadState k)
  then show ?case using ReadState.IH [OF rangeI, of s] by simp
qed auto

lemma yields_run: "yields Q E p \<Longrightarrow> run p w s = (cs, Some r, t) \<Longrightarrow> (case r of Inr a \<Rightarrow> Q a | Inl e \<Rightarrow> E e)"
proof (induction p arbitrary: w s cs)
  case (Await c k)
  show ?case
  proof (cases w)
    case (Cons x xs)
    obtain cs' r' t' where k: "run (k (wd_reply x)) xs (wd_others x s) = (cs', r', t')" by (cases "run (k (wd_reply x)) xs (wd_others x s)")
    then show ?thesis using Await.IH [OF rangeI, of "wd_reply x" xs "wd_others x s" cs'] Await.prems Cons by auto
  qed (use Await.prems in auto)
next
  case (ReadState k)
  then show ?case using ReadState.IH [OF rangeI, of s] by simp
qed auto

lemma keeps_bind: "keeps f p \<Longrightarrow> (\<And>a. keeps f (q a)) \<Longrightarrow> keeps f (bind_io p q)"
  by (induction p) auto

lemma keeps_catch: "keeps f p \<Longrightarrow> (\<And>e. keeps f (h e)) \<Longrightarrow> keeps f (catch_io p h)"
  by (induction p) auto

lemma yields_bind: "yields Q E p \<Longrightarrow> (\<And>a. Q a \<Longrightarrow> yields R E (q a)) \<Longrightarrow> yields R E (bind_io p q)"
  by (induction p) auto

lemma yields_catch: "yields Q F p \<Longrightarrow> (\<And>e. F e \<Longrightarrow> yields Q E (h e)) \<Longrightarrow> yields Q E (catch_io p h)"
  by (induction p) auto

lemma yields_any: "yields (\<lambda>a. True) (\<lambda>e. True) p"
  by (induction p) auto

section \<open>A logic with interference\<close>

text \<open>
  \<open>ensures A R I Q E p s\<close>: run from \<open>s\<close>, with answers that \<open>A\<close> allows and others that only make the changes
  of \<open>R\<close>, the program is in a state of \<open>I\<close> whenever it waits, and ends with \<open>Q\<close> or raises with \<open>E\<close>.
\<close>

primrec ensures ::
  "('q \<Rightarrow> 'e + 'r \<Rightarrow> bool) \<Rightarrow> ('s \<Rightarrow> 's \<Rightarrow> bool) \<Rightarrow> ('s \<Rightarrow> bool) \<Rightarrow> ('a \<Rightarrow> 's \<Rightarrow> bool) \<Rightarrow> ('e \<Rightarrow> 's \<Rightarrow> bool)
     \<Rightarrow> ('e, 'q, 'r, 's, 'a) prog \<Rightarrow> 's \<Rightarrow> bool" where
  "ensures A R I Q E (Done a) s = Q a s"
| "ensures A R I Q E (Raise e) s = E e s"
| "ensures A R I Q E Stuck s = I s"
| "ensures A R I Q E (Await c k) s = (I s \<and> (\<forall>r t. A c r \<longrightarrow> R s t \<longrightarrow> ensures A R I Q E (k r) t))"
| "ensures A R I Q E (ReadState k) s = ensures A R I Q E (k s) s"
| "ensures A R I Q E (WriteState g p) s = ensures A R I Q E p (g s)"

fun obeys :: "('q \<Rightarrow> 'e + 'r \<Rightarrow> bool) \<Rightarrow> ('s \<Rightarrow> 's \<Rightarrow> bool) \<Rightarrow> 'q list \<Rightarrow> ('e, 'r, 's) world_step list \<Rightarrow> bool" where
  "obeys A R (c # cs) (x # xs) = (A c (wd_reply x) \<and> (\<forall>s. R s (wd_others x s)) \<and> obeys A R cs xs)"
| "obeys A R cs w = True"

lemma ensures_run:
  "ensures A R I Q E p s \<Longrightarrow> run p w s = (cs, r, t) \<Longrightarrow> obeys A R cs w \<Longrightarrow>
     (case r of None \<Rightarrow> I t | Some (Inr a) \<Rightarrow> Q a t | Some (Inl e) \<Rightarrow> E e t)"
proof (induction p arbitrary: w s cs)
  case (Await c k)
  show ?case
  proof (cases w)
    case (Cons x xs)
    obtain cs' r' t' where k: "run (k (wd_reply x)) xs (wd_others x s) = (cs', r', t')" by (cases "run (k (wd_reply x)) xs (wd_others x s)")
    then show ?thesis
      using Await.IH [OF rangeI, of "wd_reply x" "wd_others x s" xs cs'] Await.prems Cons by auto
  qed (use Await.prems in auto)
next
  case (ReadState k)
  then show ?case using ReadState.IH [OF rangeI, of s] by simp
qed auto

lemma ensures_bind:
  "ensures A R I (\<lambda>a. ensures A R I Q E (f a)) E p s \<Longrightarrow> ensures A R I Q E (bind_io p f) s"
  by (induction p arbitrary: s) auto

lemma ensures_catch:
  "ensures A R I Q (\<lambda>e. ensures A R I Q E (h e)) p s \<Longrightarrow> ensures A R I Q E (catch_io p h) s"
  by (induction p arbitrary: s) auto

lemma ensures_mono:
  assumes "ensures A R I Q E p s" and "\<And>a t. Q a t \<Longrightarrow> Q' a t" and "\<And>e t. E e t \<Longrightarrow> E' e t" and "\<And>t. I t \<Longrightarrow> I' t"
  shows "ensures A R I' Q' E' p s"
  using assms by (induction p arbitrary: s) auto

lemma ensures_leaf:
  "(case r of Inl e \<Rightarrow> E e s | Inr a \<Rightarrow> Q a s) \<Longrightarrow> ensures A R I Q E (lift_result r) s"
  "(ok \<Longrightarrow> ensures A R I Q E p s) \<Longrightarrow> (\<not> ok \<Longrightarrow> E e s) \<Longrightarrow> ensures A R I Q E (guard_io ok e p) s"
  by (auto simp: lift_result_def guard_io_def split: sum.splits)

lemma ensures_finally:
  assumes "ensures A R I (\<lambda>a. ensures A R I (\<lambda>u. Q a) E q) (\<lambda>e. ensures A R I (\<lambda>u. E e) E q) p s"
  shows "ensures A R I Q E (finally_io p q) s"
  unfolding finally_io_def
  by (rule ensures_bind, rule ensures_catch, rule ensures_bind, rule ensures_mono [OF assms])
    (auto intro!: ensures_bind elim!: ensures_mono simp: lift_result_def)

text \<open>A loop over a list keeps an invariant of what is done and what is left.\<close>

lemma ensures_each:
  assumes "J [] [] xs s"
    and "\<And>as ys x zs t. xs = ys @ x # zs \<Longrightarrow> J as ys (x # zs) t \<Longrightarrow>
      ensures A R I (\<lambda>a. J (as @ [a]) (ys @ [x]) zs) E (f x) t"
    and "\<And>as t. J as xs [] t \<Longrightarrow> Q as t"
  shows "ensures A R I Q E (each_io f xs) s"
proof -
  have "ensures A R I (\<lambda>bs. J (as @ bs) xs []) E (each_io f zs) t" if "xs = ys @ zs" "J as ys zs t" for as ys zs t
    using that
  proof (induction zs arbitrary: as ys t)
    case (Cons x zs)
    have "ensures A R I (\<lambda>a. J (as @ [a]) (ys @ [x]) zs) E (f x) t" by (rule assms(2)) (use Cons.prems in auto)
    then show ?case
    proof (simp, intro ensures_bind, elim ensures_mono)
      fix a u assume "J (as @ [a]) (ys @ [x]) zs u"
      then have "ensures A R I (\<lambda>bs. J ((as @ [a]) @ bs) xs []) E (each_io f zs) u"
        by (intro Cons.IH [of "ys @ [x]"]) (use Cons.prems in auto)
      then show "ensures A R I (\<lambda>bs. J (as @ bs) xs []) E (bind_io (each_io f zs) (\<lambda>as. Done (a # as))) u"
        by (intro ensures_bind) (elim ensures_mono, auto)
    qed auto
  qed simp
  from this [of "[]" xs "[]" s] assms(1) have "ensures A R I (\<lambda>bs. J bs xs []) E (each_io f xs) s" by simp
  then show ?thesis by (rule ensures_mono) (auto intro: assms(3))
qed

lemma obeys_spare: "spare f w \<Longrightarrow> obeys (\<lambda>c r. True) (\<lambda>s t. f t = f s) cs w"
  proof (induction cs arbitrary: w)
  case (Cons c cs)
  then show ?case by (cases w) auto
qed simp

section \<open>What holds when a program returns\<close>

abbreviation returns ::
    "('q \<Rightarrow> 'e + 'r \<Rightarrow> bool) \<Rightarrow> ('s \<Rightarrow> 's \<Rightarrow> bool) \<Rightarrow> ('e, 'q, 'r, 's, 'a) prog \<Rightarrow> 's \<Rightarrow> ('a \<Rightarrow> 's \<Rightarrow> bool) \<Rightarrow> bool" where
  "returns A R p s Q \<equiv> ensures A R (\<lambda>t. True) Q (\<lambda>e t. True) p s"

lemma returns_any: "returns A R p s (\<lambda>a t. True)"
  by (induction p arbitrary: s) auto

lemma returns_skip: "(\<And>a t. returns A R (f a) t Q) \<Longrightarrow> returns A R (bind_io p f) s Q"
  by (rule ensures_bind, rule ensures_mono [OF returns_any]) auto

lemma returns_skip_tuple:
  "(\<And>a b t. returns A R (f a b) t Q) \<Longrightarrow> returns A R (bind_io p (\<lambda>(a, b). f a b)) s Q"
  "(\<And>a b c t. returns A R (g a b c) t Q) \<Longrightarrow> returns A R (bind_io q (\<lambda>(a, b, c). g a b c)) s Q"
  by (rule returns_skip, simp split: prod.split)+

lemma returns_bind:
  assumes "returns A R p s P" and "\<And>a t. P a t \<Longrightarrow> returns A R (f a) t Q"
  shows "returns A R (bind_io p f) s Q"
  by (rule ensures_bind, rule ensures_mono [OF assms(1)]) (use assms(2) in auto)

lemma returns_guard: "(ok \<Longrightarrow> returns A R p s Q) \<Longrightarrow> returns A R (guard_io ok e p) s Q"
  by (simp add: guard_io_def)

lemma ensures_both:
  "ensures A R I Q E p s \<Longrightarrow> ensures A R I Q' E p s \<Longrightarrow> ensures A R I (\<lambda>a t. Q a t \<and> Q' a t) E p s"
  by (induction p arbitrary: s) auto

section \<open>Programs that only make allowed changes\<close>

text \<open>
  \<open>guarantees R p\<close>: however its awaits end, among others that stay within \<open>R\<close>, the program stays within \<open>R\<close>. Such a
  program may stand anywhere in another one without a proof of its own.
\<close>

abbreviation always :: "'q \<Rightarrow> 'x \<Rightarrow> bool" where
  "always c r \<equiv> True"

definition guarantees :: "('s \<Rightarrow> 's \<Rightarrow> bool) \<Rightarrow> ('e, 'q, 'r, 's, 'a) prog \<Rightarrow> bool" where
  "guarantees R p \<longleftrightarrow> (\<forall>s. ensures always R (R s) (\<lambda>a. R s) (\<lambda>e. R s) p s)"

locale changes =
  fixes R :: "'s \<Rightarrow> 's \<Rightarrow> bool"
  assumes stays: "R s s"
    and follows: "R s t \<Longrightarrow> R t u \<Longrightarrow> R s u"
begin

lemma guarantees_from:
  assumes "guarantees R p" and "R s t"
  shows "ensures always R (R s) (\<lambda>a. R s) (\<lambda>e. R s) p t"
  using assms(1) unfolding guarantees_def
  by (auto elim!: allE [of _ t] ensures_mono intro: follows [OF assms(2)])

lemma guarantees_leaf:
  "guarantees R (Done a)" "guarantees R (Raise e)" "guarantees R Stuck" "guarantees R (lift_result r)"
  by (auto simp: guarantees_def lift_result_def stays split: sum.splits)

lemma guarantees_bind: "guarantees R p \<Longrightarrow> (\<And>a. guarantees R (f a)) \<Longrightarrow> guarantees R (bind_io p f)"
  unfolding guarantees_def [of R "bind_io p f"]
  by (intro allI ensures_bind, rule ensures_mono, rule guarantees_from, assumption, rule stays) (auto intro: guarantees_from)

lemma guarantees_catch: "guarantees R p \<Longrightarrow> (\<And>e. guarantees R (h e)) \<Longrightarrow> guarantees R (catch_io p h)"
  unfolding guarantees_def [of R "catch_io p h"]
  by (intro allI ensures_catch, rule ensures_mono, rule guarantees_from, assumption, rule stays) (auto intro: guarantees_from)

lemma guarantees_finally: "guarantees R p \<Longrightarrow> guarantees R q \<Longrightarrow> guarantees R (finally_io p q)"
  unfolding finally_io_def by (intro guarantees_bind guarantees_catch guarantees_leaf)

lemma guarantees_guard: "guarantees R p \<Longrightarrow> guarantees R (guard_io ok e p)"
  by (simp add: guard_io_def guarantees_leaf)

lemma guarantees_await: "(\<And>r. guarantees R (k r)) \<Longrightarrow> guarantees R (Await c k)"
  unfolding guarantees_def [of R "Await c k"] by (auto simp: stays intro: guarantees_from)

lemma guarantees_read: "(\<And>s. guarantees R (k s)) \<Longrightarrow> guarantees R (ReadState k)"
  by (simp add: guarantees_def)

lemma guarantees_write: "(\<And>s. R s (g s)) \<Longrightarrow> guarantees R p \<Longrightarrow> guarantees R (WriteState g p)"
  unfolding guarantees_def [of R "WriteState g p"] by (simp add: guarantees_from)

lemma guarantees_each: "(\<And>x. guarantees R (f x)) \<Longrightarrow> guarantees R (each_io f xs)"
  by (induction xs) (auto intro!: guarantees_bind guarantees_leaf)

lemmas guarantees_rules = guarantees_leaf guarantees_bind guarantees_catch guarantees_finally guarantees_guard guarantees_await
  guarantees_each

text \<open>Within the proof of an invariant that \<open>R\<close> keeps.\<close>

lemma ensures_guarantees:
  assumes "guarantees R p" and "\<And>t. R s t \<Longrightarrow> I t" and "\<And>a t. R s t \<Longrightarrow> Q a t" and "\<And>e t. R s t \<Longrightarrow> E e t"
  shows "ensures always R I Q E p s"
  by (rule ensures_mono [OF guarantees_from [OF assms(1) stays]]) (use assms in auto)

lemma ensures_then:
  assumes "guarantees R p" and "\<And>t. R s t \<Longrightarrow> I t" and "\<And>e t. R s t \<Longrightarrow> E e t"
    and "\<And>a t. R s t \<Longrightarrow> ensures always R I Q E (f a) t"
  shows "ensures always R I Q E (bind_io p f) s"
  by (rule ensures_bind, rule ensures_guarantees [OF assms(1)]) (use assms in auto)

end

lemma ensures_answers: "ensures always R I Q E p s \<Longrightarrow> ensures A R I Q E p s"
  by (induction p arbitrary: s) auto

lemma obeys_all: "list_all (\<lambda>x. \<forall>s. R s (wd_others x s)) w \<Longrightarrow> obeys always R cs w"
proof (induction cs arbitrary: w)
  case (Cons c cs)
  then show ?case by (cases w) auto
qed simp

section \<open>Programs and a server\<close>

text \<open>The same program against a server with a state of its own, which answers every \<open>Await\<close>.\<close>

primrec run_with ::
  "('e, 'q, 'r, 's, 'a) prog \<Rightarrow> ('q \<Rightarrow> 'x \<Rightarrow> ('e + 'r) \<times> 'x) \<Rightarrow> 'x \<Rightarrow> 's \<Rightarrow> ('e + 'a) option \<times> 'x \<times> 's" where
  "run_with (Done a) srv x s = (Some (Inr a), x, s)"
| "run_with (Raise e) srv x s = (Some (Inl e), x, s)"
| "run_with Stuck srv x s = (None, x, s)"
| "run_with (Await c k) srv x s = (case srv c x of (r, y) \<Rightarrow> run_with (k r) srv y s)"
| "run_with (ReadState k) srv x s = run_with (k s) srv x s"
| "run_with (WriteState g p) srv x s = run_with p srv x (g s)"

lemma run_with_bind:
  "run_with (bind_io p f) srv x s =
     (case run_with p srv x s of
        (Some (Inr a), y, t) \<Rightarrow> run_with (f a) srv y t
      | (Some (Inl e), y, t) \<Rightarrow> (Some (Inl e), y, t)
      | (None, y, t) \<Rightarrow> (None, y, t))"
  by (induction p arbitrary: x s) (auto split: prod.splits)

end
