(* ===== verification/Event_History.thy ===== *)
theory Event_History
  imports Prelude
begin

text \<open>
  Bounded event histories and the readers that follow them with a cursor. The Sandbox Worker keeps
  its events in an \<open>EventLog\<close>, \<open>src/src/sandbox_worker/event_log.py\<close>; the adapter keeps one
  history per response for MCP Apps. Both promise the same contract, the locale \<open>event_history\<close>, and a
  reader that does not fall behind by more than the bound sees every event exactly once.
\<close>

section \<open>The contract\<close>

text \<open>The newest \<open>n\<close> elements.\<close>

definition last_n :: "nat \<Rightarrow> 'a list \<Rightarrow> 'a list" where
  "last_n n xs = drop (length xs - n) xs"

text \<open>
  A reader with a cursor: it publishes nothing itself, asks for what is newer than its cursor, and
  moves the cursor to the last event it got.
\<close>

datatype 'd activity = Publish 'd | Poll

definition newer :: "int \<Rightarrow> (int \<times> 'd) list \<Rightarrow> (int \<times> 'd) list" where
  "newer cursor evs = filter (\<lambda>e. fst e > cursor) evs"

definition move_cursor :: "int \<Rightarrow> (int \<times> 'd) list \<Rightarrow> int" where
  "move_cursor cursor evs = (if evs = [] then cursor else fst (last evs))"

fun follow :: "('d \<Rightarrow> 's \<Rightarrow> 's) \<Rightarrow> (int \<Rightarrow> 's \<Rightarrow> (int \<times> 'd) list) \<Rightarrow> 's \<Rightarrow> int \<Rightarrow> 'd activity list \<Rightarrow> (int \<times> 'd) list" where
  "follow pub rd s cursor [] = []"
| "follow pub rd s cursor (Publish d # acts) = follow pub rd (pub d s) cursor acts"
| "follow pub rd s cursor (Poll # acts) =
     rd cursor s @ follow pub rd s (move_cursor cursor (rd cursor s)) acts"

fun published :: "'d activity list \<Rightarrow> 'd list" where
  "published [] = []"
| "published (Publish d # acts) = d # published acts"
| "published (Poll # acts) = published acts"

text \<open>The lag of the reader: how many events come between two of its reads.\<close>

fun keeps_up :: "nat \<Rightarrow> nat \<Rightarrow> 'd activity list \<Rightarrow> bool" where
  "keeps_up cap lag [] = True"
| "keeps_up cap lag (Publish d # acts) = keeps_up cap (Suc lag) acts"
| "keeps_up cap lag (Poll # acts) = (lag \<le> cap \<and> keeps_up cap 0 acts)"

text \<open>The numbered stream: event \<open>i\<close> of the list has the number \<open>first + i\<close>.\<close>

fun numbered :: "int \<Rightarrow> 'd list \<Rightarrow> (int \<times> 'd) list" where
  "numbered first [] = []"
| "numbered first (d # ds) = (first, d) # numbered (first + 1) ds"

lemma numbered_append: "numbered first (xs @ ys) = numbered first xs @ numbered (first + int (length xs)) ys"
  by (induction xs arbitrary: first) (simp_all add: algebra_simps)

lemma length_numbered [simp]: "length (numbered first xs) = length xs"
  by (induction xs arbitrary: first) simp_all

lemma numbered_Nil_iff [simp]: "numbered first xs = [] \<longleftrightarrow> xs = []"
  by (cases xs) simp_all

lemma numbered_numbers: "e \<in> set (numbered first xs) \<Longrightarrow> first \<le> fst e \<and> fst e < first + int (length xs)"
  by (induction xs arbitrary: first) force+

lemma newer_numbered:
  "newer (first + int (length xs) - 1) (numbered first (xs @ ys)) = numbered (first + int (length xs)) ys"
proof -
  have "newer (first + int (length xs) - 1) (numbered first xs) = []"
    using numbered_numbers by (fastforce simp: newer_def filter_empty_conv)
  moreover have "newer (first + int (length xs) - 1) (numbered (first + int (length xs)) ys) = numbered (first + int (length xs)) ys"
    using numbered_numbers by (fastforce simp: newer_def filter_id_conv)
  ultimately show ?thesis by (simp add: numbered_append newer_def)
qed

lemma last_numbered: "xs \<noteq> [] \<Longrightarrow> fst (last (numbered first xs)) = first + int (length xs) - 1"
proof (induction xs arbitrary: first)
  case (Cons x xs)
  then show ?case using Cons.IH [of "first + 1"] by (cases "xs = []") simp_all
qed simp

lemma last_n_short: "length xs \<le> n \<Longrightarrow> last_n n xs = xs"
  by (simp add: last_n_def)

lemma last_n_snoc: "last_n n (last_n n xs @ [x]) = last_n n (xs @ [x])"
  by (cases "length xs \<le> n") (auto simp: last_n_def Suc_diff_le)

text \<open>
  The interface. \<open>hist s\<close> is what the history still holds, \<open>next s\<close> the number of the coming event: a
  published event gets this number, the oldest event goes when the bound is exceeded, and a read
  returns what is newer than its cursor.
\<close>

locale event_history =
  fixes publish :: "'d \<Rightarrow> 's \<Rightarrow> 's" and read :: "int \<Rightarrow> 's \<Rightarrow> (int \<times> 'd) list"
    and hist :: "'s \<Rightarrow> (int \<times> 'd) list" and upcoming :: "'s \<Rightarrow> int" and cap :: nat and ok :: "'s \<Rightarrow> bool"
  assumes read_newer: "ok s \<Longrightarrow> read cursor s = newer cursor (hist s)"
    and publish_ok: "ok s \<Longrightarrow> ok (publish d s)"
    and publish_hist: "ok s \<Longrightarrow> hist (publish d s) = last_n cap (hist s @ [(upcoming s, d)])"
    and publish_next: "ok s \<Longrightarrow> upcoming (publish d s) = upcoming s + 1"
begin

text \<open>
  The state after the events \<open>ds\<close>: the last \<open>cap\<close> of them are there. The reader has seen all but the
  last \<open>lag\<close> of them.
\<close>

definition holds :: "'s \<Rightarrow> 'd list \<Rightarrow> bool" where
  "holds s ds \<longleftrightarrow> ok s \<and> upcoming s = int (length ds) \<and> hist s = last_n cap (numbered 0 ds)"

lemma holds_publish: "holds s ds \<Longrightarrow> holds (publish d s) (ds @ [d])"
  by (auto simp: holds_def publish_ok publish_hist publish_next numbered_append last_n_snoc)

lemma holds_read:
  assumes "holds s (seen @ fresh)" and "length fresh \<le> cap"
  shows "read (int (length seen) - 1) s = numbered (int (length seen)) fresh"
proof -
  let ?all = "numbered 0 (seen @ fresh)"
  let ?k = "length ?all - cap"
  have k: "?k \<le> length seen" using assms(2) by simp
  have "newer (int (length seen) - 1) (drop ?k ?all) = newer (int (length seen) - 1) ?all"
  proof -
    have "newer (int (length seen) - 1) (take ?k ?all) = []"
    proof -
      have "take ?k ?all = take ?k (numbered 0 seen)" using k by (simp add: numbered_append)
      then show ?thesis using numbered_numbers [of _ 0 seen] by (fastforce simp: newer_def filter_empty_conv dest: in_set_takeD)
    qed
    then have "newer (int (length seen) - 1) (take ?k ?all @ drop ?k ?all) = newer (int (length seen) - 1) (drop ?k ?all)"
      unfolding newer_def filter_append by simp
    then show ?thesis by simp
  qed
  also have "\<dots> = numbered (int (length seen)) fresh" using newer_numbered [of 0 seen fresh] by simp
  finally show ?thesis using assms(1) by (simp add: holds_def read_newer last_n_def)
qed

lemma follow_all:
  assumes "holds s (seen @ fresh)" and "keeps_up cap (length fresh) (acts @ [Poll])"
  shows "follow publish read s (int (length seen) - 1) (acts @ [Poll]) =
    numbered (int (length seen)) (fresh @ published acts)"
  using assms
proof (induction acts arbitrary: s seen fresh)
  case Nil
  then show ?case using holds_read by simp
next
  case (Cons a acts)
  show ?case
  proof (cases a)
    case (Publish d)
    then show ?thesis using Cons.IH [of "publish d s" seen "fresh @ [d]"] Cons.prems holds_publish by fastforce
  next
    case Poll
    have r: "read (int (length seen) - 1) s = numbered (int (length seen)) fresh"
      using holds_read Cons.prems Poll by simp
    have c: "move_cursor (int (length seen) - 1) (numbered (int (length seen)) fresh) = int (length (seen @ fresh)) - 1"
      using last_numbered [of fresh "int (length seen)"] by (auto simp: move_cursor_def)
    have "follow publish read s (int (length (seen @ fresh)) - 1) (acts @ [Poll]) =
        numbered (int (length (seen @ fresh))) ([] @ published acts)"
      using Cons.IH [of s "seen @ fresh" "[]"] Cons.prems Poll by simp
    then show ?thesis using Poll r c by (simp add: numbered_append)
  qed
qed

text \<open>A reader that keeps up sees every event once, in order, with its number.\<close>

lemma reader_complete:
  assumes "ok s" and "hist s = []" and "upcoming s = 0" and "keeps_up cap 0 (acts @ [Poll])"
  shows "follow publish read s (-1) (acts @ [Poll]) = numbered 0 (published acts)"
  using follow_all [of s "[]" "[]" acts] assms by (simp add: holds_def last_n_def)

end

section \<open>The event log of the Worker\<close>

record 'd event_log =
  el_events :: "(int \<times> 'd) list"
  el_next :: int
  el_closed :: bool

definition new_log :: "'d event_log" where
  "new_log = \<lparr>el_events = [], el_next = 0, el_closed = False\<rparr>"

definition last_event_id :: "'d event_log \<Rightarrow> int" where
  "last_event_id l = el_next l - 1"

text \<open>\<open>deque(maxlen=n)\<close> drops its oldest elements.\<close>

definition log_publish :: "nat \<Rightarrow> 'd \<Rightarrow> 'd event_log \<Rightarrow> 'd event_log" where
  "log_publish max_history d l =
     l\<lparr>el_events := last_n max_history (el_events l @ [(el_next l, d)]), el_next := el_next l + 1\<rparr>"

definition log_close :: "'d event_log \<Rightarrow> 'd event_log" where
  "log_close l = l\<lparr>el_closed := True\<rparr>"

definition log_ready :: "int \<Rightarrow> 'd event_log \<Rightarrow> bool" where
  "log_ready cursor l \<longleftrightarrow> el_closed l \<or> list_ex (\<lambda>e. fst e > cursor) (el_events l)"

text \<open>The answer of \<open>read\<close> once it stops waiting.\<close>

definition log_read :: "int \<Rightarrow> 'd event_log \<Rightarrow> (int \<times> 'd) list \<times> bool" where
  "log_read cursor l = (newer cursor (el_events l), el_closed l)"

text \<open>
  One turn of \<open>event_stream\<close>: the events to yield, \<open>None\<close> for a keep-alive, the new cursor and whether
  the stream goes on.
\<close>

definition stream_turn :: "bool \<Rightarrow> int \<Rightarrow> 'd event_log \<Rightarrow> (int \<times> 'd) option list \<times> int \<times> bool" where
  "stream_turn following cursor l =
     (case log_read cursor l of
        (evs, ended) \<Rightarrow>
          (if ended \<or> \<not> following then (map Some evs, move_cursor cursor evs, False)
           else (map Some evs @ (if evs = [] then [None] else []), move_cursor cursor evs, True)))"

lemma log_history:
  "event_history (log_publish n) (\<lambda>c l. fst (log_read c l)) el_events el_next n (\<lambda>l. True)"
  by unfold_locales (simp_all add: log_read_def log_publish_def)

interpretation worker_log: event_history "log_publish n" "\<lambda>c l. fst (log_read c l)" el_events el_next n "\<lambda>l. True" for n
  by (rule log_history)

end
