(* ===== verification/Adapter_Errors.thy ===== *)
theory Adapter_Errors
  imports Prelude
begin

text \<open>
  The errors of the Responses adapter, \<open>src/src/codex_responses_adapter/errors.py\<close>, with the two subclasses
  of \<open>UpstreamProtocolError\<close> of \<open>sandbox.py\<close> and \<open>service.py\<close>, and their HTTP form. A handler that
  catches \<open>UpstreamProtocolError\<close> also catches the subclasses: \<open>is_upstream\<close>. \<open>Unexpected\<close> stands for every other
  exception, which the handler of \<open>app.py\<close> answers with a fixed text. \<open>TaskCancelled\<close> is the
  cancellation of the task, which is not an \<open>Exception\<close>, and \<open>DeadlineReached\<close> the cancellation by
  \<open>asyncio.timeout_at\<close>, which becomes a \<open>TimeoutError\<close> at the end of its block.
\<close>

datatype adapter_error =
    BaseError string nat string string
  | InvalidRequest string "string option" string
  | ResponseNotFound string
  | ResourceNotFound string
  | InteractionNotFound string
  | ResponseConflict string string
  | UpstreamProtocol string json
  | SandboxUnavailable string
  | TerminalExecution string
  | Unexpected
  | TaskCancelled
  | DeadlineReached

fun error_text :: "adapter_error \<Rightarrow> string" where
  "error_text (BaseError m status t c) = m"
| "error_text (InvalidRequest m p c) = m"
| "error_text (ResponseNotFound i) = ''Response '' @ quoted i @ '' was not found.''"
| "error_text (ResourceNotFound u) = ''MCP resource '' @ quoted u @ '' was not found.''"
| "error_text (InteractionNotFound i) = ''MCP App interaction '' @ quoted i @ '' was not found.''"
| "error_text (ResponseConflict m c) = m"
| "error_text (UpstreamProtocol m d) = m"
| "error_text (SandboxUnavailable m) = m"
| "error_text (TerminalExecution m) = m"
| "error_text _ = ''Internal adapter error''"

fun error_status :: "adapter_error \<Rightarrow> nat" where
  "error_status (BaseError m status t c) = status"
| "error_status (InvalidRequest m p c) = 400"
| "error_status (ResponseNotFound i) = 404"
| "error_status (ResourceNotFound u) = 404"
| "error_status (InteractionNotFound i) = 404"
| "error_status (ResponseConflict m c) = 409"
| "error_status (UpstreamProtocol m d) = 502"
| "error_status (SandboxUnavailable m) = 502"
| "error_status (TerminalExecution m) = 502"
| "error_status _ = 500"

fun error_kind :: "adapter_error \<Rightarrow> string" where
  "error_kind (BaseError m status t c) = t"
| "error_kind (UpstreamProtocol m d) = ''server_error''"
| "error_kind (SandboxUnavailable m) = ''server_error''"
| "error_kind (TerminalExecution m) = ''server_error''"
| "error_kind Unexpected = ''server_error''"
| "error_kind TaskCancelled = ''server_error''"
| "error_kind DeadlineReached = ''server_error''"
| "error_kind _ = ''invalid_request_error''"

fun error_code :: "adapter_error \<Rightarrow> string" where
  "error_code (BaseError m status t c) = c"
| "error_code (InvalidRequest m p c) = c"
| "error_code (ResponseNotFound i) = ''response_not_found''"
| "error_code (ResourceNotFound u) = ''mcp_resource_not_found''"
| "error_code (InteractionNotFound i) = ''mcp_app_interaction_not_found''"
| "error_code (ResponseConflict m c) = c"
| "error_code (UpstreamProtocol m d) = ''codex_app_server_error''"
| "error_code (SandboxUnavailable m) = ''codex_app_server_error''"
| "error_code (TerminalExecution m) = ''codex_app_server_error''"
| "error_code _ = ''internal_error''"

fun error_param :: "adapter_error \<Rightarrow> string option" where
  "error_param (InvalidRequest m p c) = p"
| "error_param (ResponseNotFound i) = Some ''response_id''"
| "error_param (ResourceNotFound u) = Some ''uri''"
| "error_param (InteractionNotFound i) = Some ''interaction_id''"
| "error_param _ = None"

fun error_details :: "adapter_error \<Rightarrow> json" where
  "error_details (UpstreamProtocol m d) = d"
| "error_details _ = JNull"

definition envelope :: "adapter_error \<Rightarrow> obj" where
  "envelope e =
     [(''error'', JObj
        ([(''message'', JStr (error_text e)), (''type'', JStr (error_kind e)), (''param'', opt_str (error_param e)),
          (''code'', JStr (error_code e))]
         @ (if error_details e \<noteq> JNull \<and> error_status e < 500 then [(''details'', error_details e)] else [])))]"

fun is_upstream :: "adapter_error \<Rightarrow> bool" where
  "is_upstream (UpstreamProtocol m d) = True"
| "is_upstream (SandboxUnavailable m) = True"
| "is_upstream (TerminalExecution m) = True"
| "is_upstream _ = False"

text \<open>\<open>except Exception\<close>.\<close>

definition is_exception :: "adapter_error \<Rightarrow> bool" where
  "is_exception e \<longleftrightarrow> e \<noteq> TaskCancelled \<and> e \<noteq> DeadlineReached"

text \<open>\<open>_safe_error_message\<close>: only the message of an upstream error is shown to the client.\<close>

definition safe_error_message :: "adapter_error \<Rightarrow> string" where
  "safe_error_message e = (if is_upstream e then error_text e else ''Unexpected Codex adapter execution failure'')"

text \<open>What upstream answered stays in the log of the adapter: no envelope carries details of a 5xx error.\<close>

lemma upstream_details_hidden: "is_upstream e \<Longrightarrow> jget (case jget (envelope e) ''error'' of JObj d \<Rightarrow> d | _ \<Rightarrow> []) ''details'' = JNull"
  by (cases e) (simp_all add: envelope_def)

end
