(* ===== verification/Mcp_Apps.thy ===== *)
theory Mcp_Apps
  imports Event_History Adapter_Errors
begin

text \<open>
  The process-local state of the adapter for MCP Apps, \<open>src/src/codex_responses_adapter/mcp_apps.py\<close>:
  one bounded event history per response, the sessions of the apps, and the interactions, the questions
  of the Codex app-server that a user answers. Every method holds the condition's lock and does not
  wait inside, so it is one step.

  The caller of \<open>create_interaction\<close> keeps the interaction's future also after the interaction has left
  the table; \<open>ma_futures\<close> holds the futures of all interactions, \<open>None\<close> while the caller waits.
  A Python set is a list without repetition.
\<close>

section \<open>State\<close>

datatype interaction_action = Accept | Decline | CancelAction

fun action_text :: "interaction_action \<Rightarrow> string" where
  "action_text Accept = ''accept''"
| "action_text Decline = ''decline''"
| "action_text CancelAction = ''cancel''"

datatype interaction_status = IntPending | IntResolved | IntExpired | IntCancelled

fun interaction_status_text :: "interaction_status \<Rightarrow> string" where
  "interaction_status_text IntPending = ''pending''"
| "interaction_status_text IntResolved = ''resolved''"
| "interaction_status_text IntExpired = ''expired''"
| "interaction_status_text IntCancelled = ''cancelled''"

record resolve_request =
  rq_action :: interaction_action
  rq_content :: json
  rq_meta :: json

record app_session =
  as_response :: string
  as_call :: string
  as_app :: string
  as_server :: string
  as_resource :: string
  as_tools :: "string list"

record interaction =
  in_id :: string
  in_response :: string
  in_method :: string
  in_params :: obj
  in_created :: int
  in_status :: interaction_status
  in_result :: "obj option"

record app_event =
  ae_type :: string
  ae_response :: string
  ae_created :: int
  ae_data :: obj

record mcp_state =
  ma_events :: "(string \<times> (int \<times> app_event) list) list"
  ma_next :: "(string \<times> int) list"
  ma_closed :: "string list"
  ma_sessions :: "((string \<times> string) \<times> app_session) list"
  ma_interactions :: "(string \<times> interaction) list"
  ma_ids :: "(string \<times> string list) list"
  ma_futures :: "(string \<times> obj option) list"

definition empty_mcp :: mcp_state where
  "empty_mcp = \<lparr>ma_events = [], ma_next = [], ma_closed = [], ma_sessions = [], ma_interactions = [], ma_ids = [],
     ma_futures = []\<rparr>"

text \<open>\<open>dict.get(key, default)\<close>.\<close>

definition get_or :: "('k \<times> 'v) list \<Rightarrow> 'k \<Rightarrow> 'v \<Rightarrow> 'v" where
  "get_or d k v = (case map_of d k of Some x \<Rightarrow> x | None \<Rightarrow> v)"

definition session_public :: "app_session \<Rightarrow> obj" where
  "session_public a =
     [(''response_id'', JStr (as_response a)), (''origin_call_id'', JStr (as_call a)), (''app_id'', JStr (as_app a)),
      (''server_id'', JStr (as_server a)), (''resource_uri'', JStr (as_resource a)),
      (''allowed_tools'', JList (map JStr (as_tools a)))]"

definition interaction_public :: "interaction \<Rightarrow> obj" where
  "interaction_public i =
     [(''id'', JStr (in_id i)), (''object'', JStr ''mcp_app.interaction''), (''response_id'', JStr (in_response i)),
      (''method'', JStr (in_method i)), (''params'', JObj (in_params i)), (''created_at'', JInt (in_created i)),
      (''status'', JStr (interaction_status_text (in_status i))),
      (''result'', (case in_result i of Some r \<Rightarrow> JObj r | None \<Rightarrow> JNull))]"

section \<open>Events\<close>

definition events_of :: "string \<Rightarrow> mcp_state \<Rightarrow> (int \<times> app_event) list" where
  "events_of rid s = get_or (ma_events s) rid []"

definition next_sequence :: "string \<Rightarrow> mcp_state \<Rightarrow> int" where
  "next_sequence rid s = get_or (ma_next s) rid 0"

definition app_publish :: "nat \<Rightarrow> string \<Rightarrow> string \<Rightarrow> int \<Rightarrow> obj \<Rightarrow> mcp_state \<Rightarrow> mcp_state" where
  "app_publish max_history rid t now data s =
     (let n = next_sequence rid s;
          history = events_of rid s @ [(n, \<lparr>ae_type = t, ae_response = rid, ae_created = now, ae_data = data\<rparr>)]
      in s\<lparr>ma_next := AList.update rid (n + 1) (ma_next s),
           ma_events := AList.update rid
             (if length history > max_history then drop (length history - max_history) history else history) (ma_events s)\<rparr>)"

definition event_json :: "int \<times> app_event \<Rightarrow> obj" where
  "event_json e =
     [(''type'', JStr (ae_type (snd e))), (''sequence_number'', JInt (fst e)), (''response_id'', JStr (ae_response (snd e))),
      (''created_at'', JInt (ae_created (snd e))), (''data'', JObj (ae_data (snd e)))]"

definition app_ready :: "string \<Rightarrow> int \<Rightarrow> mcp_state \<Rightarrow> bool" where
  "app_ready rid after s \<longleftrightarrow> list_ex (\<lambda>e. fst e > after) (events_of rid s) \<or> rid \<in> set (ma_closed s)"

text \<open>The answer of \<open>wait_for_events\<close> in the state in which it stops waiting.\<close>

definition app_read :: "string \<Rightarrow> int \<Rightarrow> mcp_state \<Rightarrow> (int \<times> app_event) list \<times> bool" where
  "app_read rid after s =
     ((if app_ready rid after s then filter (\<lambda>e. fst e > after) (events_of rid s) else []), rid \<in> set (ma_closed s))"

text \<open>One turn of \<open>app_events\<close>: what it yields, \<open>None\<close> for a keep-alive, the new cursor, and whether it goes on.\<close>

definition app_events_turn :: "string \<Rightarrow> int \<Rightarrow> mcp_state \<Rightarrow> (int \<times> app_event) option list \<times> int \<times> bool" where
  "app_events_turn rid cursor s =
     (case app_read rid cursor s of
        (evs, ended) \<Rightarrow>
          if evs = [] then (if ended then ([], cursor, False) else ([None], cursor, True))
          else (map Some evs, foldl (\<lambda>c e. max c (fst e)) cursor evs, \<not> ended))"

definition close_response :: "string \<Rightarrow> mcp_state \<Rightarrow> mcp_state" where
  "close_response rid s = s\<lparr>ma_closed := List.insert rid (ma_closed s)\<rparr>"

definition snapshot :: "string \<Rightarrow> mcp_state \<Rightarrow> obj" where
  "snapshot rid s =
     [(''object'', JStr ''mcp_app.response_state''), (''response_id'', JStr rid),
      (''closed'', JBool (rid \<in> set (ma_closed s))),
      (''events'', JList (map (JObj \<circ> event_json) (events_of rid s))),
      (''interactions'', JList (map (JObj \<circ> interaction_public)
         (List.map_filter (map_of (ma_interactions s)) (sort (get_or (ma_ids s) rid []))))),
      (''app_sessions'', JList (map (JObj \<circ> session_public \<circ> snd)
         (filter (\<lambda>x. fst (fst x) = rid) (sort_key (snd \<circ> fst) (ma_sessions s)))))]"

section \<open>Sessions\<close>

definition invalid_descriptor :: adapter_error where
  "invalid_descriptor = InvalidRequest ''Codex emitted an invalid MCP App descriptor.'' None ''invalid_mcp_app_descriptor''"

definition filled :: "json \<Rightarrow> string option" where
  "filled v = (case v of JStr t \<Rightarrow> if t = [] then None else Some t | _ \<Rightarrow> None)"

definition descriptor_tools :: "json \<Rightarrow> string list" where
  "descriptor_tools v = (case as_list v of Some vs \<Rightarrow> fromkeys (List.map_filter filled vs) | None \<Rightarrow> [])"

definition descriptor_session :: "string \<Rightarrow> obj \<Rightarrow> adapter_error + app_session" where
  "descriptor_session rid d =
     (case (filled (jget d ''call_id''), filled (jget d ''app_id''), filled (jget d ''server''), filled (jget d ''resource_uri'')) of
        (Some call, Some app, Some server, Some uri) \<Rightarrow>
          require (jget d ''response_id'' = JStr rid)
            (InvalidRequest ''MCP App descriptor response binding is invalid.'' None ''invalid_mcp_app_descriptor'')
            (Inr \<lparr>as_response = rid, as_call = call, as_app = app, as_server = server, as_resource = uri,
               as_tools = descriptor_tools (jget d ''allowed_tools'')\<rparr>)
      | _ \<Rightarrow> Inl invalid_descriptor)"

definition register_app_session :: "string \<Rightarrow> obj \<Rightarrow> mcp_state \<Rightarrow> adapter_error + app_session \<times> mcp_state" where
  "register_app_session rid d s =
     rbind (descriptor_session rid d) (\<lambda>a.
       Inr (a, s\<lparr>ma_sessions := AList.update (rid, as_call a) a (ma_sessions s)\<rparr>))"

definition find_app_session :: "string \<Rightarrow> string \<Rightarrow> mcp_state \<Rightarrow> app_session option" where
  "find_app_session rid call s = map_of (ma_sessions s) (rid, call)"

definition get_app_session :: "string \<Rightarrow> string \<Rightarrow> mcp_state \<Rightarrow> adapter_error + app_session" where
  "get_app_session rid call s =
     (case find_app_session rid call s of
        Some a \<Rightarrow> Inr a
      | None \<Rightarrow> Inl (InvalidRequest ''MCP App call does not belong to this response.'' (Some ''origin_call_id'') ''invalid_mcp_app_origin''))"

section \<open>Interactions\<close>

definition cancel_result :: obj where
  "cancel_result = [(''action'', JStr ''cancel''), (''content'', JNull), (''_meta'', JNull)]"

definition resolution :: "resolve_request \<Rightarrow> obj" where
  "resolution q =
     [(''action'', JStr (action_text (rq_action q))),
      (''content'', (if rq_action q = Accept then rq_content q else JNull)), (''_meta'', rq_meta q)]"

text \<open>\<open>iid\<close> is the fresh \<open>mcpint_\<close> id.\<close>

definition create_interaction :: "string \<Rightarrow> string \<Rightarrow> string \<Rightarrow> obj \<Rightarrow> int \<Rightarrow> mcp_state \<Rightarrow> mcp_state" where
  "create_interaction iid rid m params now s =
     s\<lparr>ma_interactions := AList.update iid
         \<lparr>in_id = iid, in_response = rid, in_method = m, in_params = params, in_created = now, in_status = IntPending,
          in_result = None\<rparr> (ma_interactions s),
       ma_ids := AList.update rid (List.insert iid (get_or (ma_ids s) rid [])) (ma_ids s),
       ma_futures := AList.update iid None (ma_futures s)\<rparr>"

definition get_interaction :: "string \<Rightarrow> mcp_state \<Rightarrow> adapter_error + interaction" where
  "get_interaction iid s = (case map_of (ma_interactions s) iid of Some i \<Rightarrow> Inr i | None \<Rightarrow> Inl (InteractionNotFound iid))"

text \<open>\<open>if not future.done(): future.set_result(result)\<close>.\<close>

definition set_future :: "string \<Rightarrow> obj \<Rightarrow> mcp_state \<Rightarrow> mcp_state" where
  "set_future iid result s =
     (if map_of (ma_futures s) iid = Some None then s\<lparr>ma_futures := AList.update iid (Some result) (ma_futures s)\<rparr> else s)"

definition close_interaction :: "string \<Rightarrow> interaction_status \<Rightarrow> obj \<Rightarrow> mcp_state \<Rightarrow> mcp_state" where
  "close_interaction iid status result s =
     (case map_of (ma_interactions s) iid of
        Some i \<Rightarrow> set_future iid result
          (s\<lparr>ma_interactions := AList.update iid (i\<lparr>in_status := status, in_result := Some result\<rparr>) (ma_interactions s)\<rparr>)
      | None \<Rightarrow> s)"

definition resolve_interaction :: "string \<Rightarrow> resolve_request \<Rightarrow> mcp_state \<Rightarrow> adapter_error + mcp_state" where
  "resolve_interaction iid q s =
     rbind (get_interaction iid s) (\<lambda>i.
       require (in_status i = IntPending)
         (ResponseConflict ''The MCP App interaction is no longer pending.'' ''mcp_app_interaction_already_resolved'')
         (Inr (close_interaction iid IntResolved (resolution q) s)))"

definition expire_interaction :: "string \<Rightarrow> mcp_state \<Rightarrow> adapter_error + mcp_state" where
  "expire_interaction iid s =
     rbind (get_interaction iid s) (\<lambda>i.
       Inr (if in_status i = IntPending then close_interaction iid IntExpired cancel_result s else s))"

definition cancel_pending :: "string \<Rightarrow> mcp_state \<Rightarrow> mcp_state" where
  "cancel_pending iid s =
     (case map_of (ma_interactions s) iid of
        Some i \<Rightarrow> if in_status i = IntPending then close_interaction iid IntCancelled cancel_result s else s
      | None \<Rightarrow> s)"

definition cancel_response_interactions :: "string \<Rightarrow> mcp_state \<Rightarrow> mcp_state" where
  "cancel_response_interactions rid s = fold cancel_pending (get_or (ma_ids s) rid []) s"

definition drop_interaction :: "string \<Rightarrow> mcp_state \<Rightarrow> mcp_state" where
  "drop_interaction iid s =
     (if map_of (ma_interactions s) iid = None then s
      else set_future iid cancel_result (s\<lparr>ma_interactions := AList.delete iid (ma_interactions s)\<rparr>))"

definition delete_response :: "string \<Rightarrow> mcp_state \<Rightarrow> mcp_state" where
  "delete_response rid s =
     (let s1 = fold drop_interaction (get_or (ma_ids s) rid []) (s\<lparr>ma_ids := AList.delete rid (ma_ids s)\<rparr>)
      in s1\<lparr>ma_events := AList.delete rid (ma_events s1), ma_next := AList.delete rid (ma_next s1),
            ma_closed := remove1 rid (ma_closed s1),
            ma_sessions := filter (\<lambda>x. fst (fst x) \<noteq> rid) (ma_sessions s1)\<rparr>)"

section \<open>The event history of a response\<close>

interpretation app_history: event_history "\<lambda>d. app_publish n rid (fst d) (fst (snd d)) (snd (snd d))"
    "\<lambda>c s. map (\<lambda>e. (fst e, ae_type (snd e), ae_created (snd e), ae_data (snd e))) (fst (app_read rid c s))"
    "\<lambda>s. map (\<lambda>e. (fst e, ae_type (snd e), ae_created (snd e), ae_data (snd e))) (events_of rid s)"
    "next_sequence rid" n "\<lambda>s. True" for n rid
proof unfold_locales
  fix s and cursor :: int
  have "app_ready rid cursor s \<or> filter (\<lambda>e. fst e > cursor) (events_of rid s) = []"
    by (auto simp: app_ready_def list_ex_iff filter_empty_conv)
  then have "fst (app_read rid cursor s) = filter (\<lambda>e. fst e > cursor) (events_of rid s)"
    by (auto simp: app_read_def)
  then show "map (\<lambda>e. (fst e, ae_type (snd e), ae_created (snd e), ae_data (snd e))) (fst (app_read rid cursor s)) =
      newer cursor (map (\<lambda>e. (fst e, ae_type (snd e), ae_created (snd e), ae_data (snd e))) (events_of rid s))"
    by (simp add: newer_def filter_map comp_def)
next
  fix s d
  show "map (\<lambda>e. (fst e, ae_type (snd e), ae_created (snd e), ae_data (snd e)))
        (events_of rid (app_publish n rid (fst d) (fst (snd d)) (snd (snd d)) s)) =
      last_n n (map (\<lambda>e. (fst e, ae_type (snd e), ae_created (snd e), ae_data (snd e))) (events_of rid s) @ [(next_sequence rid s, d)])"
    by (cases n) (simp_all add: app_publish_def events_of_def get_or_def Let_def update_conv' last_n_def drop_map)
  show "next_sequence rid (app_publish n rid (fst d) (fst (snd d)) (snd (snd d)) s) = next_sequence rid s + 1"
    by (simp add: app_publish_def next_sequence_def get_or_def Let_def update_conv')
qed simp

end
