(* ===== verification/Worker.thy ===== *)
theory Worker
  imports Event_History
begin

text \<open>
  The Sandbox Worker: the JSON-RPC session with the Codex app-server,
  \<open>src/src/sandbox_worker/codex_protocol.py\<close>, and the runtime that buffers its events and holds its
  questions to the user, \<open>src/src/sandbox_worker/app.py\<close>.

  The app-server process is the sender of the messages that \<open>dispatch\<close> gets and the receiver of
  \<open>cx_written\<close>. What a caller of \<open>request\<close> gets is recorded in \<open>cx_finished\<close>.
\<close>

section \<open>The session with the app-server\<close>

datatype rpc_outcome =
    RpcResult json
  | RpcFailed string json
  | RpcTimedOut string
  | RpcCancelled
  | SessionExited
  | SessionClosed

record session =
  cx_next :: int
  cx_pending :: "(int \<times> string) list"
  cx_abandoned :: "int list"
  cx_closed :: bool
  cx_torn_down :: bool
  cx_written :: "obj list"
  cx_notifications :: "obj list"
  cx_server_requests :: "(json \<times> string \<times> obj) list"
  cx_finished :: "(int \<times> rpc_outcome) list"

definition new_session :: session where
  "new_session = \<lparr>cx_next = 1, cx_pending = [], cx_abandoned = [], cx_closed = False, cx_torn_down = False,
     cx_written = [],
     cx_notifications = [], cx_server_requests = [], cx_finished = []\<rparr>"

text \<open>
  A pending future is in \<open>cx_pending\<close>; one whose caller was cancelled stays there but is done, which
  \<open>cx_abandoned\<close> records.
\<close>

definition awaited :: "session \<Rightarrow> int \<Rightarrow> bool" where
  "awaited s i \<longleftrightarrow> i \<in> set (map fst (cx_pending s)) \<and> i \<notin> set (cx_abandoned s)"

definition forget :: "int \<Rightarrow> session \<Rightarrow> session" where
  "forget i s = s\<lparr>cx_pending := AList.delete i (cx_pending s)\<rparr>"

definition finish_rpc :: "int \<Rightarrow> rpc_outcome \<Rightarrow> session \<Rightarrow> session" where
  "finish_rpc i r s = s\<lparr>cx_finished := cx_finished s @ [(i, r)]\<rparr>"

text \<open>The start of \<open>request\<close>; \<open>sent\<close> tells whether the write succeeds.\<close>

definition rpc_request :: "string \<Rightarrow> obj \<Rightarrow> bool \<Rightarrow> session \<Rightarrow> (string + int) \<times> session" where
  "rpc_request method params sent s =
     (if cx_closed s then (Inl ''Codex app-server session is closed'', s)
      else (let i = cx_next s;
                s1 = s\<lparr>cx_next := i + 1, cx_pending := cx_pending s @ [(i, method)]\<rparr>
            in if sent
               then (Inr i, s1\<lparr>cx_written := cx_written s1
                       @ [[(''id'', JInt i), (''method'', JStr method), (''params'', JObj params)]]\<rparr>)
               else (Inl ''Codex app-server connection was closed'', s1\<lparr>cx_abandoned := i # cx_abandoned s1\<rparr>)))"

text \<open>The time limit of \<open>request\<close>, and the cancellation of its caller.\<close>

definition rpc_timeout :: "int \<Rightarrow> session \<Rightarrow> session" where
  "rpc_timeout i s =
     (case map_of (cx_pending s) i of
        Some method \<Rightarrow>
          if awaited s i then finish_rpc i (RpcTimedOut method) (forget i s) else s
      | None \<Rightarrow> s)"

definition rpc_cancel :: "int \<Rightarrow> session \<Rightarrow> session" where
  "rpc_cancel i s =
     (if awaited s i then finish_rpc i RpcCancelled (s\<lparr>cx_abandoned := i # cx_abandoned s\<rparr>) else s)"

definition has_key :: "string \<Rightarrow> obj \<Rightarrow> bool" where
  "has_key k d \<longleftrightarrow> k \<in> set (map fst d)"

definition notify_client :: "obj \<Rightarrow> session \<Rightarrow> session" where
  "notify_client message s = s\<lparr>cx_notifications := cx_notifications s @ [message]\<rparr>"

text \<open>A message of the app-server: the answer to a request, a request of its own, or a notification.\<close>

definition dispatch :: "obj \<Rightarrow> session \<Rightarrow> session" where
  "dispatch message s =
     (let mid = jget message ''id''
      in case as_pyint mid of
           Some i \<Rightarrow>
             if has_key ''result'' message \<or> has_key ''error'' message
             then (case map_of (cx_pending s) i of
                 None \<Rightarrow> s
               | Some method \<Rightarrow>
                   if \<not> awaited s i then forget i s
                   else finish_rpc i
                     (if has_key ''error'' message then RpcFailed method (jget message ''error'')
                      else RpcResult (jget message ''result'')) (forget i s))
             else (case as_str (jget message ''method'') of
                 Some method \<Rightarrow>
                   s\<lparr>cx_server_requests := cx_server_requests s
                      @ [(mid, method, (case as_obj (jget message ''params'') of Some p \<Rightarrow> p | None \<Rightarrow> []))]\<rparr>
               | None \<Rightarrow> s)
         | None \<Rightarrow>
             (case as_str (jget message ''method'') of
                Some method \<Rightarrow>
                  if as_str mid \<noteq> None
                  then s\<lparr>cx_server_requests := cx_server_requests s
                     @ [(mid, method, (case as_obj (jget message ''params'') of Some p \<Rightarrow> p | None \<Rightarrow> []))]\<rparr>
                  else notify_client message s
              | None \<Rightarrow> s))"

text \<open>The end of all pending futures, by the exit of the process or by \<open>close\<close>.\<close>

definition fail_pending :: "rpc_outcome \<Rightarrow> session \<Rightarrow> session" where
  "fail_pending r s =
     s\<lparr>cx_pending := [],
       cx_finished := cx_finished s @ map (\<lambda>(i, m). (i, r)) (filter (\<lambda>(i, m). awaited s i) (cx_pending s))\<rparr>"

definition session_closed_note :: "json \<Rightarrow> obj" where
  "session_closed_note details =
     [(''method'', JStr ''$session/closed''), (''params'', JObj [(''error'', details)])]"

text \<open>
  The end of \<open>_read_stdout\<close>: \<open>failure\<close> is the text of an exception of the reader, \<open>details\<close> the return
  code and the tail of the standard error.
\<close>

definition stdout_ended :: "string option \<Rightarrow> obj \<Rightarrow> session \<Rightarrow> session" where
  "stdout_ended failure details s =
     (let s1 = (case failure of None \<Rightarrow> s | Some m \<Rightarrow> notify_client (session_closed_note (JStr m)) s)
      in if cx_closed s then s1
         else notify_client (session_closed_note (JObj details)) (fail_pending SessionExited s1))"

text \<open>
  \<open>close\<close> refuses new requests at once. It fails the pending ones only after the server tasks, the
  process and the readers have ended, so that an answer may still arrive in between; \<open>cx_torn_down\<close>
  says that this second part has run.
\<close>

definition session_close :: "session \<Rightarrow> session" where
  "session_close s = s\<lparr>cx_closed := True\<rparr>"

definition session_close_finish :: "session \<Rightarrow> session" where
  "session_close_finish s = (if cx_closed s then fail_pending SessionClosed s\<lparr>cx_torn_down := True\<rparr> else s)"

text \<open>The handshake of \<open>start\<close>: the parameters of \<open>initialize\<close>, and a notification to the app-server.\<close>

record client_info =
  client_name :: string
  client_title :: string
  client_version :: string
  mcp_apps_enabled :: bool

definition initialize_params :: "client_info \<Rightarrow> obj" where
  "initialize_params c =
     [(''clientInfo'', JObj [(''name'', JStr (client_name c)), (''title'', JStr (client_title c)),
        (''version'', JStr (client_version c))]),
      (''capabilities'', JObj ([(''experimentalApi'', JBool (mcp_apps_enabled c)), (''requestAttestation'', JBool False)]
        @ (if mcp_apps_enabled c
           then [(''extensions'', JObj [(''openai/form'', JObj []),
             (''io.modelcontextprotocol/ui'', JObj [(''mimeTypes'', JList [JStr ''text/html;profile=mcp-app''])])])]
           else [])))]"

definition rpc_notify :: "string \<Rightarrow> obj \<Rightarrow> session \<Rightarrow> session" where
  "rpc_notify method params s =
     s\<lparr>cx_written := cx_written s @ [[(''method'', JStr method), (''params'', JObj params)]]\<rparr>"

definition session_start :: "client_info \<Rightarrow> bool \<Rightarrow> session \<Rightarrow> (string + int) \<times> session" where
  "session_start c sent s = rpc_request ''initialize'' (initialize_params c) sent s"

definition session_initialized :: "session \<Rightarrow> session" where
  "session_initialized s = rpc_notify ''initialized'' [] s"

text \<open>The answer to a request of the app-server, as \<open>_handle_server_request\<close> writes it.\<close>

datatype handler_outcome = Answered json | ProtocolError string | OtherError | HandlerMissing

definition server_reply :: "json \<Rightarrow> string \<Rightarrow> handler_outcome \<Rightarrow> obj" where
  "server_reply rid method r =
     (''id'', rid) #
     (case r of
        Answered v \<Rightarrow> [(''result'', v)]
      | ProtocolError m \<Rightarrow> [(''error'', JObj [(''code'', JInt (-32000)), (''message'', JStr m)])]
      | OtherError \<Rightarrow>
          [(''error'', JObj [(''code'', JInt (-32603)), (''message'', JStr ''Internal MCP Apps bridge error'')])]
      | HandlerMissing \<Rightarrow>
          [(''error'', JObj [(''code'', JInt (-32601)), (''message'', JStr (''Unsupported app-server request: '' @ method))])])"

definition write_reply :: "json \<Rightarrow> string \<Rightarrow> handler_outcome \<Rightarrow> session \<Rightarrow> session" where
  "write_reply rid method r s =
     (if cx_closed s \<and> r \<noteq> HandlerMissing then s
      else s\<lparr>cx_written := cx_written s @ [server_reply rid method r]\<rparr>)"

section \<open>The runtime of the Worker\<close>

datatype future = Waiting | Resolved json | Rejected string

datatype event_type = Notification | ServerRequest | SessionFailed

record worker =
  wk_log :: "(event_type \<times> obj) event_log"
  wk_pending :: "(string \<times> future) list"
  wk_released :: "(string \<times> future) list"
  wk_failure :: "string option"
  wk_closed :: bool

definition new_worker :: worker where
  "new_worker = \<lparr>wk_log = new_log, wk_pending = [], wk_released = [], wk_failure = None, wk_closed = False\<rparr>"

definition healthy :: "worker \<Rightarrow> bool" where
  "healthy w \<longleftrightarrow> \<not> wk_closed w \<and> wk_failure w = None"

definition worker_publish :: "nat \<Rightarrow> event_type \<Rightarrow> obj \<Rightarrow> worker \<Rightarrow> worker" where
  "worker_publish n t d w = w\<lparr>wk_log := log_publish n (t, d) (wk_log w)\<rparr>"

definition elicitation_method :: string where
  "elicitation_method = ''mcpServer/elicitation/request''"

text \<open>\<open>str(request_id)\<close> of an integer or a string.\<close>

definition request_token :: "json \<Rightarrow> string" where
  "request_token rid =
     (case rid of JInt i \<Rightarrow> show_int i | JStr t \<Rightarrow> t | JBool b \<Rightarrow> (if b then ''True'' else ''False'') | _ \<Rightarrow> [])"

text \<open>\<open>_handle_server_request\<close> up to its wait: the token that it waits for, or the error.\<close>

definition accept_server_request :: "nat \<Rightarrow> json \<Rightarrow> string \<Rightarrow> obj \<Rightarrow> worker \<Rightarrow> (string + string) \<times> worker" where
  "accept_server_request n rid method params w =
     (let token = request_token rid
      in if method \<noteq> elicitation_method then (Inl (''Interactive app-server request is disabled: '' @ method), w)
         else if token \<in> set (map fst (wk_pending w)) then (Inl (''Duplicate app-server request id: '' @ token), w)
         else (Inr token, worker_publish n ServerRequest
           [(''request_id'', JStr token), (''method'', JStr method), (''params'', JObj params)]
           (w\<lparr>wk_pending := wk_pending w @ [(token, Waiting)]\<rparr>)))"

text \<open>\<open>py_str\<close> is \<open>str()\<close> of a decoded JSON value that is not a string.\<close>

definition rejection :: "(json \<Rightarrow> string) \<Rightarrow> obj \<Rightarrow> string" where
  "rejection py_str d =
     (case py_or (jget d ''message'') (JStr ''App-server request was rejected'') of JStr t \<Rightarrow> t | v \<Rightarrow> py_str v)"

definition resolve_server_request ::
    "(json \<Rightarrow> string) \<Rightarrow> string \<Rightarrow> json \<Rightarrow> obj option \<Rightarrow> worker \<Rightarrow> (string + unit) \<times> worker" where
  "resolve_server_request py_str token result err w =
     (case map_of (wk_pending w) token of
        Some Waiting \<Rightarrow>
          (Inr (), w\<lparr>wk_pending := AList.update token
             (case err of Some d \<Rightarrow> Rejected (rejection py_str d) | None \<Rightarrow> Resolved result) (wk_pending w)\<rparr>)
      | _ \<Rightarrow> (Inl (''Unknown or completed app-server request: '' @ token), w))"

text \<open>
  The end of the wait, with the \<open>finally\<close> block: \<open>None\<close> while the future is not done and time remains.
  A future that \<open>close\<close> took out of the table is found among the released ones.
\<close>

definition future_outcome :: "future \<Rightarrow> handler_outcome option" where
  "future_outcome f = (case f of Waiting \<Rightarrow> None | Resolved v \<Rightarrow> Some (Answered v) | Rejected m \<Rightarrow> Some (ProtocolError m))"

definition finish_server_request :: "string \<Rightarrow> string \<Rightarrow> bool \<Rightarrow> worker \<Rightarrow> (handler_outcome \<times> worker) option" where
  "finish_server_request token method expired w =
     (let gone = w\<lparr>wk_pending := AList.delete token (wk_pending w), wk_released := AList.delete token (wk_released w)\<rparr>
      in case Option.bind (map_of (wk_released w @ wk_pending w) token) future_outcome of
           Some r \<Rightarrow> Some (r, gone)
         | None \<Rightarrow> if expired then Some (ProtocolError (''App-server request timed out: '' @ method), gone) else None)"

text \<open>
  The notification pump: a message is published; a closed session ends it with a failure. The safe
  message of a protocol error is its own.
\<close>

definition pump :: "nat \<Rightarrow> obj \<Rightarrow> worker \<Rightarrow> worker" where
  "pump n message w =
     (if jget message ''method'' = JStr ''$session/closed''
      then (let text = ''Codex app-server closed before the turn completed'';
                failed = worker_publish n SessionFailed [(''message'', JStr text)] (w\<lparr>wk_failure := Some text\<rparr>)
            in failed\<lparr>wk_log := log_close (wk_log failed)\<rparr>)
      else worker_publish n Notification message w)"

text \<open>\<open>close\<close> up to its first wait, and its last step once the pump and the session have ended.\<close>

definition worker_close :: "worker \<Rightarrow> worker" where
  "worker_close w =
     (if wk_closed w then w
      else w\<lparr>wk_closed := True, wk_pending := [],
        wk_released := wk_released w
          @ map (\<lambda>(token, f). (token, if f = Waiting then Rejected ''Sandbox worker is closing'' else f)) (wk_pending w)\<rparr>)"

definition worker_close_finish :: "worker \<Rightarrow> worker" where
  "worker_close_finish w = w\<lparr>wk_log := log_close (wk_log w)\<rparr>"

text \<open>The HTTP side: a call, the health report, and the body of an answer to a question.\<close>

definition worker_rpc :: "string \<Rightarrow> obj \<Rightarrow> bool \<Rightarrow> worker \<Rightarrow> session \<Rightarrow> (string + int) \<times> session" where
  "worker_rpc method params sent w s =
     (if wk_closed w then (Inl ''Sandbox worker is closed'', s) else rpc_request method params sent s)"

definition healthz :: "worker \<Rightarrow> nat \<times> obj" where
  "healthz w =
     (if healthy w then 200 else 503,
      [(''status'', JStr (if healthy w then ''ok'' else ''failed'')), (''last_event_id'', JInt (last_event_id (wk_log w)))])"

definition protocol_error_answer :: "string \<Rightarrow> nat \<times> obj" where
  "protocol_error_answer m =
     (502, [(''error'', JObj [(''message'', JStr m), (''code'', JStr ''codex_app_server_error'')])])"

definition resolve_body_error :: "json \<Rightarrow> obj option \<Rightarrow> string option" where
  "resolve_body_error result err =
     (if result \<noteq> JNull \<and> err \<noteq> None then Some ''result and error are mutually exclusive''
      else if result = JNull \<and> err = None then Some ''result or error is required''
      else None)"

section \<open>Every event reaches a reader that keeps up\<close>

abbreviation worker_read :: "int \<Rightarrow> worker \<Rightarrow> (int \<times> event_type \<times> obj) list" where
  "worker_read c w \<equiv> fst (log_read c (wk_log w))"

interpretation worker_events: event_history "\<lambda>d. worker_publish n (fst d) (snd d)" worker_read
    "\<lambda>w. el_events (wk_log w)" "\<lambda>w. el_next (wk_log w)" n "\<lambda>w. True" for n
  by unfold_locales (simp_all add: worker_publish_def log_publish_def log_read_def)

text \<open>
  C21. A client that follows the events of a Worker from the start with the cursor of the last event it
  got, and that reads before more than the history bound has been published, gets every event exactly
  once, in the order of publication and numbered without a gap.
\<close>

theorem worker_events_complete:
  assumes "keeps_up n 0 (acts @ [Poll])"
  shows "follow (\<lambda>d. worker_publish n (fst d) (snd d)) worker_read new_worker (-1) (acts @ [Poll]) =
    numbered 0 (published acts)"
  using worker_events.reader_complete [OF _ _ _ assms, of new_worker] by (simp add: new_worker_def new_log_def)

lemma worker_events_complete_witness:
  "follow (\<lambda>d. worker_publish 2 (fst d) (snd d)) worker_read new_worker (-1)
     ([Publish (Notification, []), Publish (ServerRequest, []), Poll, Publish (Notification, [(''a'', JNull)])] @ [Poll]) =
   [(0, Notification, []), (1, ServerRequest, []), (2, Notification, [(''a'', JNull)])]"
  using worker_events_complete [of 2 "[Publish (Notification, []), Publish (ServerRequest, []), Poll,
      Publish (Notification, [(''a'', JNull)])]"] by simp

section \<open>Every request of the session is answered at most once\<close>

datatype session_event =
    CallRpc string obj bool
  | RpcTimeout int
  | RpcCancel int
  | ServerMessage obj
  | StdoutEnd "string option" obj
  | WriteReply json string handler_outcome
  | CloseSession
  | CloseFinished

fun session_step :: "session \<Rightarrow> session_event \<Rightarrow> session" where
  "session_step s (CallRpc method params sent) = snd (rpc_request method params sent s)"
| "session_step s (RpcTimeout i) = rpc_timeout i s"
| "session_step s (RpcCancel i) = rpc_cancel i s"
| "session_step s (ServerMessage m) = dispatch m s"
| "session_step s (StdoutEnd failure details) = stdout_ended failure details s"
| "session_step s (WriteReply rid method r) = write_reply rid method r s"
| "session_step s CloseSession = session_close s"
| "session_step s CloseFinished = session_close_finish s"

definition run_session :: "session_event list \<Rightarrow> session" where
  "run_session evs = foldl session_step new_session evs"

definition answer_of :: "int \<Rightarrow> rpc_outcome \<Rightarrow> obj \<Rightarrow> bool" where
  "answer_of i r m \<longleftrightarrow> as_pyint (jget m ''id'') = Some i
     \<and> (case r of RpcResult v \<Rightarrow> \<not> has_key ''error'' m \<and> v = jget m ''result''
        | RpcFailed method e \<Rightarrow> has_key ''error'' m \<and> e = jget m ''error''
        | _ \<Rightarrow> True)"

fun from_server :: "rpc_outcome \<Rightarrow> bool" where
  "from_server (RpcResult v) = True"
| "from_server (RpcFailed m e) = True"
| "from_server _ = False"

definition session_inv :: "session_event list \<Rightarrow> session \<Rightarrow> bool" where
  "session_inv evs s \<longleftrightarrow>
     distinct (map fst (cx_pending s)) \<and> (\<forall>i\<in>set (map fst (cx_pending s)). i < cx_next s)
     \<and> distinct (map fst (cx_finished s)) \<and> (\<forall>i\<in>set (map fst (cx_finished s)). i < cx_next s \<and> \<not> awaited s i)
     \<and> (\<forall>x\<in>set (cx_finished s). from_server (snd x) \<longrightarrow> (\<exists>m. ServerMessage m \<in> set evs \<and> answer_of (fst x) (snd x) m))
     \<and> (cx_torn_down s \<longrightarrow> cx_closed s \<and> cx_pending s = [])"

lemma session_inv_mono: "session_inv evs s \<Longrightarrow> session_inv (evs @ [e]) s"
  by (auto simp: session_inv_def)

lemma finish_inv:
  assumes "session_inv evs s" and "awaited s i"
    and "from_server r \<Longrightarrow> \<exists>m. ServerMessage m \<in> set evs \<and> answer_of i r m"
  shows "session_inv evs (finish_rpc i r (forget i s))"
    and "session_inv evs (finish_rpc i r (s\<lparr>cx_abandoned := i # cx_abandoned s\<rparr>))"
proof -
  have fresh: "\<forall>x. (i, x) \<notin> set (cx_finished s)"
    using assms(1,2) by (fastforce simp: session_inv_def)
  have old: "i < cx_next s" using assms(1,2) by (auto simp: session_inv_def awaited_def)
  show "session_inv evs (finish_rpc i r (forget i s))"
    using assms fresh old
    by (auto simp: session_inv_def finish_rpc_def forget_def awaited_def delete_keys distinct_removeAll)
  show "session_inv evs (finish_rpc i r (s\<lparr>cx_abandoned := i # cx_abandoned s\<rparr>))"
    using assms fresh old by (auto simp: session_inv_def finish_rpc_def awaited_def)
qed

lemma forget_inv: "session_inv evs s \<Longrightarrow> session_inv evs (forget i s)"
  by (auto simp: session_inv_def forget_def awaited_def delete_keys distinct_removeAll)

lemma fail_pending_inv:
  assumes "session_inv evs s" and "\<not> from_server r"
  shows "session_inv evs (fail_pending r s)"
proof -
  let ?failed = "map (\<lambda>(i, m). (i, r)) (filter (\<lambda>(i, m). awaited s i) (cx_pending s))"
  have keys: "map fst ?failed = map fst (filter (\<lambda>(i, m). awaited s i) (cx_pending s))"
    by (simp add: comp_def split_def)
  have inv: "distinct (map fst (cx_pending s))" "distinct (map fst (cx_finished s))"
      "\<forall>i\<in>set (map fst (cx_finished s)). i < cx_next s \<and> \<not> awaited s i"
      "\<forall>i\<in>set (map fst (cx_pending s)). i < cx_next s"
      "\<forall>x\<in>set (cx_finished s). from_server (snd x) \<longrightarrow> (\<exists>m. ServerMessage m \<in> set evs \<and> answer_of (fst x) (snd x) m)"
    using assms(1) by (simp_all add: session_inv_def)
  have torn: "cx_torn_down s \<longrightarrow> cx_closed s" using assms(1) by (simp add: session_inv_def)
  have failed: "i < cx_next s \<and> awaited s i" if "i \<in> set (map fst ?failed)" for i
    using that inv(4) unfolding keys by auto
  have outcomes: "\<forall>x\<in>set ?failed. snd x = r" by auto
  have "distinct (map fst (cx_finished s @ ?failed))"
  proof -
    have "distinct (map fst ?failed)" unfolding keys using inv(1) by (rule distinct_map_filter)
    moreover have "set (map fst (cx_finished s)) \<inter> set (map fst ?failed) = {}" using inv(3) failed by blast
    ultimately show ?thesis using inv(2) unfolding map_append distinct_append by blast
  qed
  moreover have "\<forall>i\<in>set (map fst (cx_finished s @ ?failed)). i < cx_next s"
    using inv(3) failed unfolding map_append set_append by blast
  moreover have "\<forall>x\<in>set (cx_finished s @ ?failed). from_server (snd x) \<longrightarrow>
      (\<exists>m. ServerMessage m \<in> set evs \<and> answer_of (fst x) (snd x) m)"
    using inv(5) outcomes assms(2) unfolding set_append ball_Un by simp
  ultimately show ?thesis using torn
    by (simp add: session_inv_def fail_pending_def awaited_def del: map_append set_append)
qed

lemma session_inv_cong:
  assumes "session_inv evs s" and "cx_pending s' = cx_pending s" and "cx_abandoned s' = cx_abandoned s"
    and "cx_next s' = cx_next s" and "cx_finished s' = cx_finished s" and "cx_closed s' = cx_closed s"
    and "cx_torn_down s' = cx_torn_down s"
  shows "session_inv evs s'"
  using assms by (simp add: session_inv_def awaited_def)

lemma torn_down:
  "session_inv evs s \<Longrightarrow> cx_pending s = [] \<Longrightarrow> cx_closed s \<Longrightarrow> session_inv evs (s\<lparr>cx_torn_down := True\<rparr>)"
  by (simp add: session_inv_def awaited_def)

lemma dispatch_inv:
  assumes "session_inv evs s" and "ServerMessage m \<in> set evs"
  shows "session_inv evs (dispatch m s)"
proof -
  have request: "session_inv evs (s\<lparr>cx_server_requests := x\<rparr>)" "session_inv evs (notify_client m s)" for x
    by (rule session_inv_cong [OF assms(1)]; simp add: notify_client_def)+
  have answer: "session_inv evs (finish_rpc i (if has_key ''error'' m then RpcFailed meth (jget m ''error'')
      else RpcResult (jget m ''result'')) (forget i s))"
    if "as_pyint (jget m ''id'') = Some i" "awaited s i" for i meth
    by (rule finish_inv(1) [OF assms(1) that(2)]) (use assms(2) that(1) in \<open>auto simp: answer_of_def split: if_splits\<close>)
  show ?thesis unfolding dispatch_def Let_def
    using request answer forget_inv [OF assms(1)] assms(1) by (auto split: option.splits)
qed

lemma session_step_inv:
  assumes "session_inv evs s"
  shows "session_inv (evs @ [e]) (session_step s e)"
proof (cases e)
  case (CallRpc meth ps sent)
  have "session_inv evs (snd (rpc_request meth ps sent s))"
    using assms by (fastforce simp: rpc_request_def session_inv_def awaited_def Let_def)
  then show ?thesis using CallRpc session_inv_mono by simp
next
  case (ServerMessage m)
  then show ?thesis using dispatch_inv [OF session_inv_mono [OF assms], of m e] by simp
next
  case (RpcTimeout i)
  then show ?thesis using session_inv_mono [OF assms] by (auto simp: rpc_timeout_def intro: finish_inv split: option.splits)
next
  case (RpcCancel i)
  then show ?thesis using session_inv_mono [OF assms] by (auto simp: rpc_cancel_def intro: finish_inv)
next
  case (StdoutEnd failure details)
  have notified: "session_inv evs' (notify_client m t)" if "session_inv evs' t" for evs' m t
    by (rule session_inv_cong [OF that]) (simp_all add: notify_client_def)
  then show ?thesis using StdoutEnd session_inv_mono [OF assms]
    by (auto simp: stdout_ended_def Let_def intro!: notified fail_pending_inv split: option.splits)
next
  case (WriteReply rid meth out)
  have "session_inv (evs @ [e]) (write_reply rid meth out s)"
    by (rule session_inv_cong [OF session_inv_mono [OF assms]]) (simp_all add: write_reply_def)
  then show ?thesis using WriteReply by simp
next
  case CloseSession
  then show ?thesis using session_inv_mono [OF assms, of e] by (simp add: session_close_def session_inv_def awaited_def)
next
  case CloseFinished
  have "session_inv evs' (session_close_finish t)" if "session_inv evs' t" for evs' t
  proof -
    have "session_inv evs' (fail_pending SessionClosed t)" using that by (rule fail_pending_inv) simp
    then have "session_inv evs' (fail_pending SessionClosed t\<lparr>cx_torn_down := True\<rparr>)" if "cx_closed t"
      by (rule torn_down) (simp_all add: fail_pending_def that)
    then show ?thesis using that by (simp add: session_close_finish_def)
  qed
  then show ?thesis using CloseFinished session_inv_mono [OF assms] by simp
qed

lemma run_session_inv: "session_inv evs (run_session evs)"
proof (induction evs rule: rev_induct)
  case Nil
  then show ?case by (simp add: run_session_def session_inv_def new_session_def)
next
  case (snoc e evs)
  then show ?case using session_step_inv by (simp add: run_session_def)
qed

text \<open>
  C22. Every request to the app-server ends at most once, whatever messages, time limits,
  cancellations, exits and closings follow each other: no request id is answered twice, only issued
  ids are, and a result or an error that a caller gets comes from a message of the app-server that
  carries its id. Once the session is
  torn down no request is left waiting.
\<close>

theorem rpc_answered_once:
  "distinct (map fst (cx_finished (run_session evs)))
   \<and> list_all (\<lambda>(i, r). i < cx_next (run_session evs) \<and> \<not> awaited (run_session evs) i
        \<and> (\<not> from_server r \<or> (\<exists>m. ServerMessage m \<in> set evs \<and> answer_of i r m)))
       (cx_finished (run_session evs))
   \<and> (cx_torn_down (run_session evs) \<longrightarrow> cx_pending (run_session evs) = [])"
  using run_session_inv [of evs] by (fastforce simp: session_inv_def list_all_iff)

lemma rpc_answered_once_witness:
  "cx_finished (run_session [CallRpc ''a'' [] True, CallRpc ''b'' [] True,
       ServerMessage [(''id'', JInt 2), (''result'', JStr ''x'')], ServerMessage [(''id'', JInt 2), (''result'', JStr ''y'')],
       RpcTimeout 2, CloseSession, CloseFinished]) = [(2, RpcResult (JStr ''x'')), (1, SessionClosed)]
   \<and> cx_pending (run_session [CallRpc ''a'' [] True, CallRpc ''b'' [] True,
       ServerMessage [(''id'', JInt 2), (''result'', JStr ''x'')], ServerMessage [(''id'', JInt 2), (''result'', JStr ''y'')],
       RpcTimeout 2, CloseSession, CloseFinished]) = []"
proof -
  let ?evs = "[CallRpc ''a'' [] True, CallRpc ''b'' [] True,
       ServerMessage [(''id'', JInt 2), (''result'', JStr ''x'')], ServerMessage [(''id'', JInt 2), (''result'', JStr ''y'')],
       RpcTimeout 2, CloseSession, CloseFinished]"
  have "cx_finished (run_session ?evs) = [(2, RpcResult (JStr ''x'')), (1, SessionClosed)]" "cx_torn_down (run_session ?evs)"
    by code_simp+
  then show ?thesis using rpc_answered_once [of ?evs] by blast
qed

end
