(* ===== verification/Sse.thy ===== *)
theory Sse
  imports Worker Adapter_Errors
begin

text \<open>
  Server-sent events between the processes: how the Worker writes its events, \<open>_event_sse\<close> of
  \<open>src/src/sandbox_worker/app.py\<close>, how the adapter reads them, \<open>_sse_json\<close> of
  \<open>src/src/codex_responses_adapter/sandbox.py\<close>, and the frames that the adapter sends itself,
  \<open>src/src/codex_responses_adapter/app.py\<close>.

  \<open>json_text\<close> is \<open>json.dumps(value, ensure_ascii=False, separators=(",", ":"))\<close>; \<open>fl\<close> prints a float.
  \<open>split_lines\<close> is \<open>str.splitlines\<close> on the code points below 256, which \<open>aiter_lines\<close> of httpx
  documents as its behaviour. \<open>loads\<close> is \<open>json.loads\<close>, \<open>None\<close> for a \<open>ValueError\<close>.
\<close>

section \<open>Writing JSON\<close>

definition lower_hex :: "nat \<Rightarrow> char" where
  "lower_hex n = (if n < 10 then char_of (48 + n) else char_of (87 + n))"

definition backslash :: char where "backslash = CHR 0x5C"

definition escape_char :: "char \<Rightarrow> string" where
  "escape_char c =
     (let n = of_char c :: nat
      in if c = dquote then [backslash, dquote]
         else if c = backslash then [backslash, backslash]
         else if n = 10 then [backslash, CHR ''n'']
         else if n = 13 then [backslash, CHR ''r'']
         else if n = 9 then [backslash, CHR ''t'']
         else if n = 12 then [backslash, CHR ''f'']
         else if n = 8 then [backslash, CHR ''b'']
         else if n < 32 then [backslash, CHR ''u'', CHR ''0'', CHR ''0'', lower_hex (n div 16), lower_hex (n mod 16)]
         else [c])"

definition json_quote :: "string \<Rightarrow> string" where
  "json_quote s = dquote # concat (map escape_char s) @ [dquote]"

fun json_text :: "(rat \<Rightarrow> string) \<Rightarrow> json \<Rightarrow> string" where
  "json_text fl JNull = ''null''"
| "json_text fl (JBool b) = (if b then ''true'' else ''false'')"
| "json_text fl (JInt i) = show_int i"
| "json_text fl (JFloat r) = fl r"
| "json_text fl (JStr s) = json_quote s"
| "json_text fl (JList vs) = ''['' @ join_with '','' (map (json_text fl) vs) @ '']''"
| "json_text fl (JObj d) = ''{'' @ join_with '','' (map (\<lambda>(k, v). json_quote k @ '':'' @ json_text fl v) d) @ ''}''"

section \<open>Frames\<close>

fun event_type_text :: "event_type \<Rightarrow> string" where
  "event_type_text Notification = ''notification''"
| "event_type_text ServerRequest = ''server_request''"
| "event_type_text SessionFailed = ''session_failed''"

type_synonym agent_event = "int \<times> event_type \<times> obj"

definition keep_alive :: string where
  "keep_alive = '': keep-alive'' @ [newline, newline]"

definition agent_event_json :: "agent_event \<Rightarrow> obj" where
  "agent_event_json e =
     [(''id'', JInt (fst e)), (''type'', JStr (event_type_text (fst (snd e)))), (''data'', JObj (snd (snd e)))]"

fun worker_frame :: "(rat \<Rightarrow> string) \<Rightarrow> agent_event option \<Rightarrow> string" where
  "worker_frame fl None = keep_alive"
| "worker_frame fl (Some e) =
     ''id: '' @ show_int (fst e) @ [newline] @ ''event: '' @ event_type_text (fst (snd e)) @ [newline]
       @ ''data: '' @ json_text fl (JObj (agent_event_json e)) @ [newline, newline]"

text \<open>The frames of the adapter; \<open>py_str\<close> is \<open>str()\<close> of a value that is not a string.\<close>

definition str_or :: "(json \<Rightarrow> string) \<Rightarrow> json \<Rightarrow> string \<Rightarrow> string" where
  "str_or py_str v alt = (case py_or v (JStr alt) of JStr t \<Rightarrow> t | x \<Rightarrow> py_str x)"

fun response_frame :: "(json \<Rightarrow> string) \<Rightarrow> (rat \<Rightarrow> string) \<Rightarrow> obj option \<Rightarrow> string" where
  "response_frame py_str fl None = keep_alive"
| "response_frame py_str fl (Some e) =
     ''event: '' @ str_or py_str (jget e ''type'') ''message'' @ [newline]
       @ ''data: '' @ json_text fl (JObj e) @ [newline, newline]"

fun app_frame :: "(json \<Rightarrow> string) \<Rightarrow> (rat \<Rightarrow> string) \<Rightarrow> obj option \<Rightarrow> string" where
  "app_frame py_str fl None = keep_alive"
| "app_frame py_str fl (Some e) =
     ''id: '' @ (case map_of e ''sequence_number'' of None \<Rightarrow> [] | Some (JStr t) \<Rightarrow> t | Some v \<Rightarrow> py_str v) @ [newline]
       @ ''event: '' @ str_or py_str (jget e ''type'') ''mcp_app.event'' @ [newline]
       @ ''data: '' @ json_text fl (JObj e) @ [newline, newline]"

section \<open>Reading\<close>

text \<open>What the generator has yielded, and whether it ended with a \<open>ValueError\<close>.\<close>

definition flush :: "(string \<Rightarrow> json option) \<Rightarrow> string list \<Rightarrow> (obj list \<times> bool) \<Rightarrow> obj list \<times> bool" where
  "flush loads buffered after =
     (if buffered = [] then after
      else (case loads (join_with [newline] buffered) of
          None \<Rightarrow> ([], True)
        | Some (JObj d) \<Rightarrow> (d # fst after, snd after)
        | Some v \<Rightarrow> after))"

fun sse_json :: "(string \<Rightarrow> json option) \<Rightarrow> string list \<Rightarrow> string list \<Rightarrow> obj list \<times> bool" where
  "sse_json loads buffered [] = flush loads buffered ([], False)"
| "sse_json loads buffered (l # ls) =
     (if l = [] then flush loads buffered (sse_json loads [] ls)
      else if starts_with ''data:'' l
      then sse_json loads (buffered @ [lstrip is_space (removeprefix ''data:'' l)]) ls
      else sse_json loads buffered ls)"

text \<open>\<open>AgentEvent.model_validate\<close>: no other fields, the number not negative.\<close>

definition parse_agent_event :: "obj \<Rightarrow> agent_event option" where
  "parse_agent_event d =
     (case (jget d ''id'', find (\<lambda>t. jget d ''type'' = JStr (event_type_text t)) [Notification, ServerRequest, SessionFailed],
            jget d ''data'') of
        (JInt i, Some t, JObj x) \<Rightarrow> if 0 \<le> i \<and> list_all (\<lambda>(k, v). k \<in> {''id'', ''type'', ''data''}) d then Some (i, t, x) else None
      | _ \<Rightarrow> None)"

definition read_events :: "(string \<Rightarrow> json option) \<Rightarrow> string \<Rightarrow> agent_event option list \<times> bool" where
  "read_events loads wire =
     (case sse_json loads [] (split_lines wire) of (ds, failed) \<Rightarrow> (map parse_agent_event ds, failed))"

lemma parse_printed: "0 \<le> fst e \<Longrightarrow> parse_agent_event (agent_event_json e) = Some e"
  by (cases e; cases "fst (snd e)") (simp_all add: parse_agent_event_def agent_event_json_def)

section \<open>Texts of one line\<close>

definition one_line :: "string \<Rightarrow> bool" where
  "one_line s \<longleftrightarrow> list_all (\<lambda>c. \<not> boundary c) s"

lemma one_line_simps [simp]:
  "one_line []" "one_line (c # s) \<longleftrightarrow> \<not> boundary c \<and> one_line s" "one_line (s @ t) \<longleftrightarrow> one_line s \<and> one_line t"
  by (simp_all add: one_line_def)

lemma split_line: "one_line a \<Longrightarrow> split_lines (a @ newline # s) = a # split_lines s"
proof (induction a)
  case Nil
  then show ?case by (simp add: boundary_def)
next
  case (Cons c a)
  then have "c \<noteq> CHR 13" by (auto simp: boundary_def)
  with Cons show ?case by simp
qed

lemma one_line_join: "one_line sep \<Longrightarrow> list_all one_line ws \<Longrightarrow> one_line (join_with sep ws)"
  by (induction sep ws rule: join_with.induct) auto

text \<open>
  Only U+0085 breaks a JSON text below code point 256 into lines: the other boundaries are control
  characters, which are escaped.
\<close>

definition next_line :: char where "next_line = CHR 0x85"

fun no_next_line :: "json \<Rightarrow> bool" where
  "no_next_line (JStr s) = (next_line \<notin> set s)"
| "no_next_line (JList vs) = list_all no_next_line vs"
| "no_next_line (JObj d) = list_all (\<lambda>(k, v). next_line \<notin> set k \<and> no_next_line v) d"
| "no_next_line v = True"

lemma of_char_char [simp]: "n < 256 \<Longrightarrow> (of_char (char_of n :: char) :: nat) = n"
  by simp

lemma next_line_point: "(of_char c :: nat) = 133 \<longleftrightarrow> c = next_line"
proof -
  have "(of_char next_line :: nat) = 133" by (simp add: next_line_def)
  then show ?thesis by (metis of_char_eq_iff)
qed

lemma escape_one_line: "c \<noteq> next_line \<Longrightarrow> one_line (escape_char c)"
proof -
  assume "c \<noteq> next_line"
  then have "(of_char c :: nat) \<noteq> 133" by (simp add: next_line_point)
  then show ?thesis
    by (auto simp: escape_char_def one_line_def boundary_def Let_def backslash_def lower_hex_def)
qed

lemma quote_one_line: "next_line \<notin> set s \<Longrightarrow> one_line (json_quote s)"
proof -
  have "one_line (concat (map escape_char s))" if "next_line \<notin> set s" for s
    using that by (induction s) (auto intro: escape_one_line)
  then show "next_line \<notin> set s \<Longrightarrow> one_line (json_quote s)" by (simp add: json_quote_def boundary_def)
qed

lemma digit_one_line: "n < 10 \<Longrightarrow> \<not> boundary (char_of (48 + n :: nat))"
  by (simp add: boundary_def Let_def)

lemma show_nat_one_line: "one_line (show_nat n)"
proof (induction n rule: show_nat.induct)
  case (1 n)
  show ?case by (subst show_nat.simps) (use 1 digit_one_line [of n] digit_one_line [of "n mod 10"] in simp)
qed

lemma show_int_one_line: "one_line (show_int i)"
  by (simp add: show_int_def show_nat_one_line boundary_def)

lemma json_text_one_line:
  assumes "\<And>r. one_line (fl r)" and "no_next_line v"
  shows "one_line (json_text fl v)"
  using assms(2)
proof (induction v rule: no_next_line.induct)
  case (2 vs)
  then have "list_all one_line (map (json_text fl) vs)" by (simp add: list_all_iff)
  then have "one_line (join_with '','' (map (json_text fl) vs))" by (intro one_line_join) (simp_all add: boundary_def)
  then show ?case by (simp add: boundary_def)
next
  case (3 d)
  have "one_line (json_quote k @ '':'' @ json_text fl v)" if "(k, v) \<in> set d" for k v
    using 3 that quote_one_line by (fastforce simp: list_all_iff boundary_def)
  then have "list_all one_line (map (\<lambda>(k, v). json_quote k @ '':'' @ json_text fl v) d)" by (auto simp: list_all_iff)
  then have "one_line (join_with '','' (map (\<lambda>(k, v). json_quote k @ '':'' @ json_text fl v) d))"
    by (intro one_line_join) (simp_all add: boundary_def)
  then show ?case by (simp add: boundary_def)
qed (simp_all add: quote_one_line show_int_one_line assms(1), simp_all add: boundary_def)

section \<open>Events cross the wire\<close>

lemma split_newline: "split_lines (newline # s) = [] # split_lines s"
  by (simp add: boundary_def)

lemma head_lines: "one_line (''id: '' @ show_int (fst e))" "one_line (''event: '' @ event_type_text (fst (snd e)))"
proof -
  have "one_line (event_type_text x)" for x by (cases x) (simp_all add: boundary_def)
  then show "one_line (''id: '' @ show_int (fst e))" "one_line (''event: '' @ event_type_text (fst (snd e)))"
    using show_int_one_line by (simp_all add: boundary_def)
qed

lemma frame_lines:
  "worker_frame fl (Some e) @ rest =
    (''id: '' @ show_int (fst e)) @ newline # ((''event: '' @ event_type_text (fst (snd e))) @ newline
      # (''data: '' @ json_text fl (JObj (agent_event_json e)) @ newline # newline # rest))"
  by simp

lemma lines_of_frame:
  assumes "one_line (json_text fl (JObj (agent_event_json e)))"
  shows "split_lines (worker_frame fl (Some e) @ rest) =
    (''id: '' @ show_int (fst e)) # (''event: '' @ event_type_text (fst (snd e)))
      # (''data: '' @ json_text fl (JObj (agent_event_json e))) # [] # split_lines rest"
proof -
  have "one_line (''data: '' @ json_text fl (JObj (agent_event_json e)))"
    using assms by (simp add: boundary_def del: json_text.simps)
  from split_line [OF this] show ?thesis
    unfolding frame_lines split_line [OF head_lines(1)] split_line [OF head_lines(2)]
    by (simp only: append_assoc append_Cons append_Nil split_newline)
qed

lemma lines_of_keep_alive: "split_lines (keep_alive @ rest) = '': keep-alive'' # [] # split_lines rest"
proof -
  have "one_line '': keep-alive''" by (simp add: boundary_def)
  from split_line [OF this] show ?thesis by (simp only: keep_alive_def append_assoc append_Cons append_Nil split_newline)
qed

lemma object_text: "json_text fl (JObj d) = CHR ''{'' # tl (json_text fl (JObj d))"
  by simp

lemma data_line: "lstrip is_space (removeprefix ''data:'' (''data: '' @ CHR ''{'' # t)) = CHR ''{'' # t"
proof -
  have "removeprefix ''data:'' (''data:'' @ '' {'' @ t) = '' {'' @ t" by (rule removeprefix_append)
  then show ?thesis by (simp add: lstrip_def is_space_def)
qed

lemma data_starts: "starts_with ''data:'' (''data: '' @ t)"
  using starts_with_append [of "''data:''" "'' '' @ t"] by simp

lemma other_lines: "\<not> starts_with ''data:'' (''id: '' @ t)" "\<not> starts_with ''data:'' (''event: '' @ t)"
    "\<not> starts_with ''data:'' '': keep-alive''"
  by (simp_all add: starts_with_def)

lemma read_data_line:
  "sse_json loads [] ((''id: '' @ i) # (''event: '' @ y) # (''data: '' @ CHR ''{'' # t) # ls) = sse_json loads [CHR ''{'' # t] ls"
  using other_lines data_starts [of "CHR ''{'' # t"] data_line [of t] by simp

definition sendable :: "(rat \<Rightarrow> string) \<Rightarrow> (string \<Rightarrow> json option) \<Rightarrow> agent_event \<Rightarrow> bool" where
  "sendable fl loads e \<longleftrightarrow> 0 \<le> fst e \<and> no_next_line (JObj (snd (snd e)))
     \<and> loads (json_text fl (JObj (agent_event_json e))) = Some (JObj (agent_event_json e))"

lemma read_frame:
  assumes "\<And>r. one_line (fl r)" and "sendable fl loads e"
  shows "sse_json loads [] (split_lines (worker_frame fl (Some e) @ rest)) =
    (agent_event_json e # fst (sse_json loads [] (split_lines rest)), snd (sse_json loads [] (split_lines rest)))"
proof -
  have names: "next_line \<notin> set ''id''" "next_line \<notin> set ''type''" "next_line \<notin> set ''data''"
    "next_line \<notin> set (event_type_text x)" for x
    by (cases x; simp add: next_line_def)+
  have "no_next_line (JObj (agent_event_json e))"
    using assms(2) names by (simp add: sendable_def agent_event_json_def)
  then have line: "one_line (json_text fl (JObj (agent_event_json e)))" using assms(1) by (intro json_text_one_line)
  obtain t where t: "json_text fl (JObj (agent_event_json e)) = CHR ''{'' # t" using object_text by metis
  have "loads (CHR ''{'' # t) = Some (JObj (agent_event_json e))" using assms(2) by (simp only: sendable_def t)
  then show ?thesis unfolding lines_of_frame [OF line] t read_data_line by (simp add: flush_def)
qed

fun somes :: "'a option list \<Rightarrow> 'a list" where
  "somes [] = []"
| "somes (None # xs) = somes xs"
| "somes (Some x # xs) = x # somes xs"

text \<open>
  C28. What the Worker streams is what the adapter reads: for every sequence of events and keep-alives
  whose texts have only code points below 256, the characters of this model, and no U+0085, reading the
  lines of the stream gives exactly the events, in order and
  with their numbers, and no error. \<open>loads\<close> reads back what was printed. Texts with other code points
  are not covered: U+2028 and U+2029 end a line of \<open>splitlines\<close> too, and break the stream as U+0085 does.
\<close>

theorem events_cross_the_wire:
  assumes "\<And>r. one_line (fl r)" and "list_all (sendable fl loads) (somes items)"
  shows "read_events loads (concat (map (worker_frame fl) items)) = (map Some (somes items), False)"
proof -
  have "sse_json loads [] (split_lines (concat (map (worker_frame fl) items))) = (map agent_event_json (somes items), False)"
    using assms(2)
  proof (induction items rule: somes.induct)
    case 1
    then show ?case by (simp add: flush_def)
  next
    case (2 items)
    then show ?case using other_lines by (simp add: lines_of_keep_alive flush_def)
  next
    case (3 e items)
    then show ?case using read_frame [OF assms(1), where rest = "concat (map (worker_frame fl) items)"] by simp
  qed
  then show ?thesis using assms(2)
    by (auto simp: read_events_def list_all_iff sendable_def parse_printed)
qed

definition sample_event :: agent_event where
  "sample_event = (7, Notification, [(''method'', JStr [CHR 34, CHR 10])])"

definition sample_loads :: "string \<Rightarrow> json option" where
  "sample_loads t = (if t = json_text (\<lambda>r. []) (JObj (agent_event_json sample_event)) then Some (JObj (agent_event_json sample_event))
     else None)"

lemma events_cross_the_wire_witness:
  "read_events sample_loads (concat (map (worker_frame (\<lambda>r. [])) [None, Some sample_event, None])) = ([Some sample_event], False)"
proof -
  have "sendable (\<lambda>r. []) sample_loads sample_event"
    by (simp add: sendable_def sample_loads_def) (simp add: sample_event_def next_line_def)
  then show ?thesis
    using events_cross_the_wire [of "\<lambda>r. []" sample_loads "[None, Some sample_event, None]"] by simp
qed

text \<open>
  An event with the character U+0085 in a text ends the stream with an error: the JSON text has it
  unescaped, the reader splits the line there, and what it decodes is cut off. The event and everything
  after it are lost, and as the error is not one of HTTP the driver gives the response up instead of
  connecting again.
\<close>

theorem next_line_breaks_stream:
  assumes "json_text fl (JObj (agent_event_json e)) = a @ next_line # b" and "one_line a" and "one_line b"
    and "\<not> starts_with ''data:'' b" and "b \<noteq> []" and "loads a = None" and "a \<noteq> []"
  shows "read_events loads (worker_frame fl (Some e) @ rest) = ([], True)"
proof -
  have cut: "split_lines (x @ next_line # y) = x # split_lines y" if "one_line x" for x y
    using that
  proof (induction x)
    case Nil
    then show ?case by (simp add: next_line_def boundary_def)
  next
    case (Cons c x)
    then have "c \<noteq> CHR 13" by (auto simp: boundary_def)
    with Cons show ?case by simp
  qed
  obtain a' where a: "a = CHR ''{'' # a'" using assms(1,7) object_text [of fl "agent_event_json e"] by (cases a) simp_all
  have "one_line (''data: '' @ a)" using assms(2) by (simp add: boundary_def)
  from cut [OF this, of "b @ newline # newline # rest"]
  have "split_lines (worker_frame fl (Some e) @ rest) =
      (''id: '' @ show_int (fst e)) # (''event: '' @ event_type_text (fst (snd e))) # (''data: '' @ CHR ''{'' # a')
        # b # [] # split_lines rest"
    unfolding frame_lines split_line [OF head_lines(1)] split_line [OF head_lines(2)] assms(1)
    by (simp only: append_assoc append_Cons append_Nil split_line [OF assms(3)] split_newline a)
  then show ?thesis using assms(4-6) read_data_line [of loads] by (simp add: read_events_def a flush_def)
qed

definition broken_event :: agent_event where
  "broken_event = (7, Notification, [(''t'', JStr [next_line])])"

lemma next_line_breaks_stream_witness:
  "read_events (\<lambda>t. None) (worker_frame (\<lambda>r. []) (Some broken_event) @ worker_frame (\<lambda>r. []) (Some sample_event)) = ([], True)"
proof -
  let ?t = "json_text (\<lambda>r. []) (JObj (agent_event_json broken_event))"
  let ?a = "takeWhile (\<lambda>c. c \<noteq> next_line) ?t" and ?b = "tl (dropWhile (\<lambda>c. c \<noteq> next_line) ?t)"
  have "?t = ?a @ next_line # ?b" "one_line ?a" "one_line ?b" "\<not> starts_with ''data:'' ?b" "?b \<noteq> []" "?a \<noteq> []"
    by code_simp+
  from next_line_breaks_stream [OF this(1-5) _ this(6)] show ?thesis by simp
qed

end
