(* ===== verification/Sandbox_Client.thy ===== *)
theory Sandbox_Client
  imports State Sse
begin

text \<open>
  The adapter's client of the Sandbox Manager and of the Workers,
  \<open>src/src/codex_responses_adapter/sandbox.py\<close>, with the models of \<open>src/src/sandbox_manager/models.py\<close> that
  it validates. An HTTP exchange is a request and its answer; the calls of the client are a datatype, so
  that the service can be written as a program over them.

  Validation is modelled for the JSON types that the models declare; pydantic's conversions between
  types (a number given as a string) are left out, the Manager never sends them.
\<close>

section \<open>The models of the Manager\<close>

record worker_connection =
  wc_url :: string
  wc_key :: string

record remote_sandbox =
  rs_id :: string
  rs_status :: sb_status
  rs_created :: int
  rs_expires :: "int option"
  rs_worker :: "worker_connection option"
  rs_workspace :: "string option"
  rs_recoverable :: bool

record remote_operation =
  ro_id :: string
  ro_operation :: string
  ro_status :: op_status
  ro_phase :: "op_phase option"
  ro_workspace :: string
  ro_sandbox :: "string option"
  ro_result :: "obj option"
  ro_error :: "string option"
  ro_created :: int
  ro_updated :: int

record remote_workspace =
  rw_id :: string
  rw_kind :: string
  rw_status :: string
  rw_generation :: int
  rw_head :: "string option"
  rw_active :: "string option"
  rw_created :: int
  rw_updated :: int
  rw_delete_after :: "int option"

definition literal :: "(string \<times> 'a) list \<Rightarrow> json \<Rightarrow> 'a option" where
  "literal table v = Option.bind (as_str v) (map_of table)"

definition only_keys :: "string list \<Rightarrow> obj \<Rightarrow> bool" where
  "only_keys ks d \<longleftrightarrow> list_all (\<lambda>(k, v). k \<in> set ks) d"

definition nullable :: "(json \<Rightarrow> 'a option) \<Rightarrow> json \<Rightarrow> 'a option option" where
  "nullable f v = (if v = JNull then Some None else map_option Some (f v))"

text \<open>A field without a default has to be there.\<close>

definition required :: "string \<Rightarrow> obj \<Rightarrow> (json \<Rightarrow> 'a option) \<Rightarrow> 'a option" where
  "required k d f = Option.bind (map_of d k) f"

definition sb_literals :: "(string \<times> sb_status) list" where
  "sb_literals = [(''starting'', SbStarting), (''running'', SbRunning), (''failed'', SbFailed), (''terminated'', SbTerminated)]"

definition op_literals :: "(string \<times> op_status) list" where
  "op_literals = [(''pending'', OpPending), (''running'', OpRunning), (''succeeded'', OpSucceeded), (''failed'', OpFailed)]"

definition phase_literals :: "(string \<times> op_phase) list" where
  "phase_literals = [(''capturing'', PhCapturing), (''captured'', PhCaptured), (''uploading'', PhUploading)]"

definition worker_url :: "string \<Rightarrow> string option" where
  "worker_url s =
     (let u = rstrip (\<lambda>c. c = CHR ''/'') (strip s)
      in if starts_with ''http://'' u \<or> starts_with ''https://'' u then Some u else None)"

fun bool_of :: "json \<Rightarrow> bool option" where
  "bool_of (JBool b) = Some b"
| "bool_of _ = None"

definition parse_worker :: "json \<Rightarrow> worker_connection option" where
  "parse_worker v =
     Option.bind (as_obj v) (\<lambda>d.
       if \<not> only_keys [''base_url'', ''api_key''] d then None
       else Option.bind (Option.bind (as_str (jget d ''base_url'')) worker_url) (\<lambda>u.
         Option.bind (as_str (jget d ''api_key'')) (\<lambda>k.
           if 8 \<le> length k then Some \<lparr>wc_url = u, wc_key = k\<rparr> else None)))"

definition parse_sandbox :: "obj \<Rightarrow> remote_sandbox option" where
  "parse_sandbox d =
     (if \<not> only_keys [''id'', ''status'', ''created_at'', ''expires_at'', ''worker'', ''workspace_id'', ''recoverable''] d then None
      else Option.bind (required ''id'' d as_str) (\<lambda>i.
        Option.bind (required ''status'' d (literal sb_literals)) (\<lambda>st.
        Option.bind (required ''created_at'' d as_int) (\<lambda>c.
        Option.bind (required ''expires_at'' d (nullable as_int)) (\<lambda>e.
        Option.bind (required ''worker'' d (nullable parse_worker)) (\<lambda>w.
        Option.bind (nullable as_str (jget d ''workspace_id'')) (\<lambda>ws.
        Option.bind (case map_of d ''recoverable'' of None \<Rightarrow> Some False | Some v \<Rightarrow> bool_of v) (\<lambda>r.
          Some \<lparr>rs_id = i, rs_status = st, rs_created = c, rs_expires = e, rs_worker = w, rs_workspace = ws,
                rs_recoverable = r\<rparr>))))))))"

definition parse_operation :: "obj \<Rightarrow> remote_operation option" where
  "parse_operation d =
     (if \<not> only_keys [''id'', ''operation'', ''status'', ''phase'', ''workspace_id'', ''sandbox_id'', ''result'', ''error'',
         ''created_at'', ''updated_at''] d then None
      else Option.bind (required ''id'' d as_str) (\<lambda>i.
        Option.bind (required ''operation'' d as_str) (\<lambda>n.
        Option.bind (required ''status'' d (literal op_literals)) (\<lambda>st.
        Option.bind (nullable (literal phase_literals) (jget d ''phase'')) (\<lambda>ph.
        Option.bind (required ''workspace_id'' d as_str) (\<lambda>w.
        Option.bind (required ''sandbox_id'' d (nullable as_str)) (\<lambda>sid.
        Option.bind (required ''result'' d (nullable as_obj)) (\<lambda>r.
        Option.bind (required ''error'' d (nullable as_str)) (\<lambda>e.
        Option.bind (required ''created_at'' d as_int) (\<lambda>c.
        Option.bind (required ''updated_at'' d as_int) (\<lambda>u.
          Some \<lparr>ro_id = i, ro_operation = n, ro_status = st, ro_phase = ph, ro_workspace = w, ro_sandbox = sid,
                ro_result = r, ro_error = e, ro_created = c, ro_updated = u\<rparr>)))))))))))"

definition one_of :: "string list \<Rightarrow> json \<Rightarrow> string option" where
  "one_of ts v = literal (map (\<lambda>t. (t, t)) ts) v"

definition parse_workspace :: "obj \<Rightarrow> remote_workspace option" where
  "parse_workspace d =
     (if \<not> only_keys [''id'', ''kind'', ''status'', ''generation'', ''head_revision'', ''active_sandbox_id'', ''created_at'',
         ''updated_at'', ''delete_after''] d then None
      else Option.bind (required ''id'' d as_str) (\<lambda>i.
        Option.bind (required ''kind'' d (one_of [''ephemeral'', ''recoverable''])) (\<lambda>k.
        Option.bind (required ''status'' d (one_of [''running'', ''detached_dirty'', ''checkpointing'', ''detached_clean'',
            ''remote_only'', ''restoring'', ''deleting''])) (\<lambda>st.
        Option.bind (required ''generation'' d as_int) (\<lambda>g.
        Option.bind (required ''head_revision'' d (nullable as_str)) (\<lambda>h.
        Option.bind (required ''active_sandbox_id'' d (nullable as_str)) (\<lambda>a.
        Option.bind (required ''created_at'' d as_int) (\<lambda>c.
        Option.bind (required ''updated_at'' d as_int) (\<lambda>u.
        Option.bind (required ''delete_after'' d (nullable as_int)) (\<lambda>x.
          Some \<lparr>rw_id = i, rw_kind = k, rw_status = st, rw_generation = g, rw_head = h, rw_active = a, rw_created = c,
                rw_updated = u, rw_delete_after = x\<rparr>))))))))))"

section \<open>Requests and answers\<close>

datatype http_answer = HttpFailed string | Reply nat "json option"

record http_request =
  hq_method :: string
  hq_url :: string
  hq_bearer :: string
  hq_body :: "json option"

datatype sandbox_call =
    CreateSandbox "string option"
  | InspectSandbox string
  | RenewSandbox string
  | Rpc string string obj
  | EventCursor string
  | ResolveRequest string json json "obj option"
  | TerminateSandbox string
  | AuthorizeWorkspace string string
  | CreateWorkspace string string
  | ReleaseWorkspace string string
  | CreateOperation string
  | InspectOperation string

datatype client_answer =
    GotSandbox remote_sandbox
  | GotWorkspace remote_workspace
  | GotOperation remote_operation
  | GotValue json
  | GotCursor int
  | GotNothing

type_synonym connections = "(string \<times> worker_connection) list"

definition grant_body :: "string \<Rightarrow> json option" where
  "grant_body g = Some (JObj [(''grant'', JStr g)])"

text \<open>Where a call goes: the Manager, by method, path and body, or the Worker of a sandbox.\<close>

fun manager_request :: "sandbox_call \<Rightarrow> (string \<times> string \<times> json option) option" where
  "manager_request (CreateSandbox g) =
     Some (''POST'', ''/v1/sandboxes'', map_option (\<lambda>t. JObj [(''workspace_grant'', JStr t)]) g)"
| "manager_request (InspectSandbox sid) = Some (''GET'', ''/v1/sandboxes/'' @ sid, None)"
| "manager_request (RenewSandbox sid) = Some (''POST'', ''/v1/sandboxes/'' @ sid @ ''/lease'', None)"
| "manager_request (TerminateSandbox sid) = Some (''DELETE'', ''/v1/sandboxes/'' @ sid, None)"
| "manager_request (AuthorizeWorkspace wid g) = Some (''POST'', ''/v1/workspaces/'' @ wid @ ''/inspect'', grant_body g)"
| "manager_request (CreateWorkspace wid g) =
     Some (''POST'', ''/v1/workspaces'', Some (JObj [(''workspace_id'', JStr wid), (''grant'', JStr g)]))"
| "manager_request (ReleaseWorkspace wid g) = Some (''POST'', ''/v1/workspaces/'' @ wid @ ''/release'', grant_body g)"
| "manager_request (CreateOperation g) = Some (''POST'', ''/v1/operations'', grant_body g)"
| "manager_request (InspectOperation oid) = Some (''GET'', ''/v1/operations/'' @ oid, None)"
| "manager_request _ = None"

fun worker_request :: "sandbox_call \<Rightarrow> (string \<times> string \<times> string \<times> json option) option" where
  "worker_request (Rpc sid m ps) =
     Some (sid, ''POST'', ''/v1/rpc'', Some (JObj [(''method'', JStr m), (''params'', JObj ps)]))"
| "worker_request (EventCursor sid) = Some (sid, ''GET'', ''/healthz'', None)"
| "worker_request (ResolveRequest sid rid r e) =
     Some (sid, ''POST'', ''/v1/server-requests/'' @ request_token rid @ ''/resolve'',
       Some (JObj [(''result'', r), (''error'', (case e of Some d \<Rightarrow> JObj d | None \<Rightarrow> JNull))]))"
| "worker_request _ = None"

definition to_manager :: "string \<Rightarrow> string \<Rightarrow> string \<times> string \<times> json option \<Rightarrow> http_request" where
  "to_manager base key r =
     \<lparr>hq_method = fst r, hq_url = rstrip (\<lambda>c. c = CHR ''/'') base @ fst (snd r), hq_bearer = key, hq_body = snd (snd r)\<rparr>"

definition to_worker :: "worker_connection \<Rightarrow> string \<times> string \<times> json option \<Rightarrow> http_request" where
  "to_worker w r = \<lparr>hq_method = fst r, hq_url = wc_url w @ fst (snd r), hq_bearer = wc_key w, hq_body = snd (snd r)\<rparr>"

definition raise_upstream :: "nat \<Rightarrow> json option \<Rightarrow> string \<Rightarrow> adapter_error" where
  "raise_upstream status body upstream =
     (let message = Option.bind body (\<lambda>b. Option.bind (as_obj b) (\<lambda>d. Option.bind (as_obj (jget d ''error'')) (\<lambda>e.
            as_str (jget e ''message''))))
      in UpstreamProtocol (case message of Some (c # cs) \<Rightarrow> c # cs
           | _ \<Rightarrow> upstream @ '' returned HTTP '' @ show_nat status) JNull)"

definition manager_reply :: "http_answer \<Rightarrow> adapter_error + json option" where
  "manager_reply a =
     (case a of
        HttpFailed m \<Rightarrow> Inl (UpstreamProtocol (''Sandbox Manager request failed: '' @ m) JNull)
      | Reply status body \<Rightarrow>
          if status < 400 then Inr body
          else if status = 404 then Inl (SandboxUnavailable ''Sandbox is unavailable'')
          else Inl (raise_upstream status body ''Sandbox Manager''))"

definition worker_reply :: "http_answer \<Rightarrow> adapter_error + json option" where
  "worker_reply a =
     (case a of
        HttpFailed m \<Rightarrow> Inl (UpstreamProtocol (''Sandbox Worker request failed: '' @ m) JNull)
      | Reply status body \<Rightarrow> if status < 400 then Inr body else Inl (raise_upstream status body ''Sandbox Worker''))"

definition json_object :: "string \<Rightarrow> json option \<Rightarrow> adapter_error + obj" where
  "json_object upstream body =
     (case body of
        None \<Rightarrow> Inl (UpstreamProtocol (''Sandbox '' @ upstream @ '' returned invalid JSON'') JNull)
      | Some (JObj d) \<Rightarrow> Inr d
      | Some v \<Rightarrow> Inl (UpstreamProtocol (''Sandbox '' @ upstream @ '' returned a non-object response'') JNull))"

text \<open>\<open>model_validate\<close>: a \<open>ValidationError\<close> is not an error of the adapter.\<close>

definition validated :: "(obj \<Rightarrow> 'a option) \<Rightarrow> ('a \<Rightarrow> 'b) \<Rightarrow> obj \<Rightarrow> adapter_error + 'b" where
  "validated parse f d = (case parse d of Some x \<Rightarrow> Inr (f x) | None \<Rightarrow> Inl Unexpected)"

definition remember :: "remote_sandbox \<Rightarrow> connections \<Rightarrow> connections" where
  "remember s cs =
     (case (rs_status s, rs_worker s) of
        (SbRunning, Some w) \<Rightarrow> AList.update (rs_id s) w cs
      | _ \<Rightarrow> AList.delete (rs_id s) cs)"

text \<open>What a call gives for the answer of its exchange, and the connections after it.\<close>

fun client_result :: "sandbox_call \<Rightarrow> http_answer \<Rightarrow> connections \<Rightarrow> (adapter_error + client_answer) \<times> connections" where
  "client_result (Rpc sid m ps) a cs =
     (rbind (rbind (worker_reply a) (json_object ''Worker'')) (\<lambda>d. Inr (GotValue (jget d ''result''))), cs)"
| "client_result (EventCursor sid) a cs =
     (rbind (rbind (worker_reply a) (json_object ''Worker'')) (\<lambda>d.
        case as_pyint (jget d ''last_event_id'') of
          Some i \<Rightarrow> Inr (GotCursor i)
        | None \<Rightarrow> Inl (UpstreamProtocol ''Sandbox Worker health response did not include last_event_id'' JNull)), cs)"
| "client_result (ResolveRequest sid rid r e) a cs = (rbind (worker_reply a) (\<lambda>b. Inr GotNothing), cs)"
| "client_result (TerminateSandbox sid) a cs =
     (rbind (rbind (manager_reply a) (json_object ''Manager'')) (validated parse_sandbox GotSandbox),
      (if isl (manager_reply a) then cs else AList.delete sid cs))"
| "client_result (CreateOperation g) a cs =
     (rbind (rbind (manager_reply a) (json_object ''Manager'')) (validated parse_operation GotOperation), cs)"
| "client_result (InspectOperation oid) a cs =
     (rbind (rbind (manager_reply a) (json_object ''Manager'')) (validated parse_operation GotOperation), cs)"
| "client_result (AuthorizeWorkspace wid g) a cs =
     (rbind (rbind (manager_reply a) (json_object ''Manager'')) (validated parse_workspace GotWorkspace), cs)"
| "client_result (CreateWorkspace wid g) a cs =
     (rbind (rbind (manager_reply a) (json_object ''Manager'')) (validated parse_workspace GotWorkspace), cs)"
| "client_result (ReleaseWorkspace wid g) a cs =
     (rbind (rbind (manager_reply a) (json_object ''Manager'')) (validated parse_workspace GotWorkspace), cs)"
| "client_result _ a cs =
     (case rbind (rbind (manager_reply a) (json_object ''Manager'')) (validated parse_sandbox id) of
        Inl e \<Rightarrow> (Inl e, cs)
      | Inr s \<Rightarrow> (Inr (GotSandbox s), remember s cs))"

definition connection :: "string \<Rightarrow> connections \<Rightarrow> worker_connection option" where
  "connection sid cs = map_of cs sid"

text \<open>An unknown connection is asked of the Manager first.\<close>

definition connection_from :: "string \<Rightarrow> adapter_error + remote_sandbox \<Rightarrow> adapter_error + worker_connection" where
  "connection_from sid r =
     rbind r (\<lambda>s. case (rs_status s, rs_worker s) of
        (SbRunning, Some w) \<Rightarrow> Inr w
      | _ \<Rightarrow> Inl (SandboxUnavailable (''Sandbox '' @ quoted sid @ '' is unavailable'')))"

text \<open>
  A connection is known only for a sandbox that the last answer about it showed running, and a call to
  the Manager never changes the connection of another sandbox.
\<close>

lemma remember_other: "sid \<noteq> rs_id s \<Longrightarrow> connection sid (remember s cs) = connection sid cs"
  by (auto simp: remember_def connection_def update_conv' delete_conv' split: sb_status.splits option.splits)

lemma remember_own:
  "connection (rs_id s) (remember s cs) = (if rs_status s = SbRunning then rs_worker s else None)"
  by (auto simp: remember_def connection_def update_conv' delete_conv' split: sb_status.splits option.splits)

end
