(* ===== verification/Adapter_Store.thy ===== *)
theory Adapter_Store
  imports Programs Mcp_Apps Response_Events Sandbox_Client
begin

text \<open>
  The state of the adapter, \<open>src/src/codex_responses_adapter/store.py\<close>: the records of the responses, the
  executions in progress with the queues of their subscribers, the builders of their events, the MCP Apps and the
  free places of the semaphore; and the programs that work on it. \<open>ad_finished\<close> holds the executions that have left the
  registry, as a waiting request still refers to them.

  A coroutine of the service is an \<open>io\<close>: it ends with a value or an error, reads or writes the state, or
  awaits something outside: a call of the Sandbox client, a sleep, the next event of a stream, the answer
  of a user. Reading the clock is an \<open>Await\<close> too, which only allows more interleavings. Everything
  between two \<open>Await\<close>s is one atomic step; during an \<open>Await\<close> the other coroutines may change the state in any way.
  \<open>Stuck\<close> is a loop whose fuel has run out.
\<close>

section \<open>Executions in progress\<close>

record execution =
  ax_response :: string
  ax_sandbox :: string
  ax_thread :: string
  ax_turn :: string
  ax_cursor :: int
  ax_cancel :: bool
  ax_driver_error :: "adapter_error option"
  ax_lease_error :: "adapter_error option"
  ax_terminal :: bool
  ax_subscribers :: "nat list"
  ax_queues :: "(nat \<times> obj option list) list"

definition new_execution :: "string \<Rightarrow> string \<Rightarrow> string \<Rightarrow> string \<Rightarrow> int \<Rightarrow> execution" where
  "new_execution rid sid thread turn cursor =
     \<lparr>ax_response = rid, ax_sandbox = sid, ax_thread = thread, ax_turn = turn, ax_cursor = cursor, ax_cancel = False,
      ax_driver_error = None, ax_lease_error = None, ax_terminal = False, ax_subscribers = [], ax_queues = []\<rparr>"

definition queue_of :: "nat \<Rightarrow> execution \<Rightarrow> obj option list" where
  "queue_of q a = get_or (ax_queues a) q []"

definition put_queue :: "obj option list \<Rightarrow> nat \<Rightarrow> execution \<Rightarrow> execution" where
  "put_queue xs q a = a\<lparr>ax_queues := AList.update q (queue_of q a @ xs) (ax_queues a)\<rparr>"

text \<open>\<open>q\<close> is the new queue. \<open>None\<close> in a queue ends its stream.\<close>

definition subscribe :: "nat \<Rightarrow> execution \<Rightarrow> execution" where
  "subscribe q a =
     (if ax_terminal a then put_queue [None] q a else (put_queue [] q a)\<lparr>ax_subscribers := List.insert q (ax_subscribers a)\<rparr>)"

definition unsubscribe :: "nat \<Rightarrow> execution \<Rightarrow> execution" where
  "unsubscribe q a = a\<lparr>ax_subscribers := removeAll q (ax_subscribers a)\<rparr>"

definition publish_all :: "obj list \<Rightarrow> execution \<Rightarrow> execution" where
  "publish_all es a = fold (put_queue (map Some es)) (ax_subscribers a) a"

definition finish_execution :: "execution \<Rightarrow> execution" where
  "finish_execution a = fold (put_queue [None]) (ax_subscribers a) (a\<lparr>ax_subscribers := [], ax_terminal := True\<rparr>)"

section \<open>The state of the adapter\<close>

record adapter =
  ad_records :: "(string \<times> response) list"
  ad_active :: "(string \<times> execution) list"
  ad_finished :: "(string \<times> execution) list"
  ad_builders :: "(string \<times> builder) list"
  ad_apps :: mcp_state
  ad_permits :: nat

definition put_record :: "response \<Rightarrow> adapter \<Rightarrow> adapter" where
  "put_record r s = s\<lparr>ad_records := AList.update (rr_id r) r (ad_records s)\<rparr>"

definition get_record :: "string \<Rightarrow> adapter \<Rightarrow> adapter_error + response" where
  "get_record rid s = (case map_of (ad_records s) rid of Some r \<Rightarrow> Inr r | None \<Rightarrow> Inl (ResponseNotFound rid))"

definition delete_record :: "string \<Rightarrow> adapter \<Rightarrow> adapter" where
  "delete_record rid s = s\<lparr>ad_records := AList.delete rid (ad_records s)\<rparr>"

definition register_active :: "execution \<Rightarrow> adapter \<Rightarrow> adapter" where
  "register_active a s = s\<lparr>ad_active := AList.update (ax_response a) a (ad_active s)\<rparr>"

definition get_active :: "string \<Rightarrow> adapter \<Rightarrow> execution option" where
  "get_active rid s = map_of (ad_active s) rid"

definition unregister_active :: "string \<Rightarrow> adapter \<Rightarrow> adapter" where
  "unregister_active rid s =
     s\<lparr>ad_active := AList.delete rid (ad_active s),
       ad_finished := (case map_of (ad_active s) rid of Some a \<Rightarrow> AList.update rid a (ad_finished s) | None \<Rightarrow> ad_finished s)\<rparr>"

definition active_executions :: "adapter \<Rightarrow> execution list" where
  "active_executions s = map snd (ad_active s)"

definition on_apps :: "(mcp_state \<Rightarrow> mcp_state) \<Rightarrow> adapter \<Rightarrow> adapter" where
  "on_apps f s = s\<lparr>ad_apps := f (ad_apps s)\<rparr>"

section \<open>Programs\<close>

datatype await =
    AwaitCall sandbox_call
  | AwaitSlot
  | AwaitSleep rat
  | AwaitClock
  | AwaitTerminal string
  | AwaitOpen string int
  | AwaitEvent string
  | AwaitAnswer string
  | AwaitCallback obj

datatype world_reply =
    FromClient client_answer
  | AtTime rat
  | Woken
  | NextEvent "agent_event option"
  | FutureDone obj
  | TimedOut

type_synonym 'a io = "(adapter_error, await, world_reply, adapter, 'a) prog"

text \<open>A call whose answer has another shape is an error that the code does not expect.\<close>

definition ask :: "sandbox_call \<Rightarrow> (client_answer \<Rightarrow> 'a option) \<Rightarrow> 'a io" where
  "ask c f = Await (AwaitCall c) (\<lambda>r. case r of
     Inl e \<Rightarrow> Raise e
   | Inr (FromClient a) \<Rightarrow> (case f a of Some x \<Rightarrow> Done x | None \<Rightarrow> Raise Unexpected)
   | Inr _ \<Rightarrow> Raise Unexpected)"

fun got_sandbox :: "client_answer \<Rightarrow> remote_sandbox option" where
  "got_sandbox (GotSandbox s) = Some s" | "got_sandbox _ = None"

fun got_workspace :: "client_answer \<Rightarrow> remote_workspace option" where
  "got_workspace (GotWorkspace w) = Some w" | "got_workspace _ = None"

fun got_operation :: "client_answer \<Rightarrow> remote_operation option" where
  "got_operation (GotOperation x) = Some x" | "got_operation _ = None"

fun got_value :: "client_answer \<Rightarrow> json option" where
  "got_value (GotValue v) = Some v" | "got_value _ = None"

fun got_cursor :: "client_answer \<Rightarrow> int option" where
  "got_cursor (GotCursor i) = Some i" | "got_cursor _ = None"

definition clock :: "rat io" where
  "clock = Await AwaitClock (\<lambda>r. case r of Inr (AtTime t) \<Rightarrow> Done t | Inl e \<Rightarrow> Raise e | _ \<Rightarrow> Raise Unexpected)"

definition pause :: "await \<Rightarrow> unit io" where
  "pause a = Await a (\<lambda>r. case r of Inl e \<Rightarrow> Raise e | Inr _ \<Rightarrow> Done ())"

text \<open>\<open>with suppress(Exception)\<close>: only the cancellation of the task passes.\<close>

definition suppress :: "unit io \<Rightarrow> unit io" where
  "suppress p = catch_io p (\<lambda>e. if is_exception e then Done () else Raise e)"

type_synonym world = "(adapter_error, world_reply, adapter) world_step"

lemma awaits_leaf:
  "awaits P (lift_result r)" "P (AwaitCall c) \<Longrightarrow> awaits P (ask c f)" "P AwaitClock \<Longrightarrow> awaits P clock"
  "P a \<Longrightarrow> awaits P (pause a)" "(ok \<Longrightarrow> awaits P p) \<Longrightarrow> awaits P (guard_io ok e p)"
  "awaits P q \<Longrightarrow> awaits P (suppress q)"
  by (auto simp: lift_result_def ask_def clock_def pause_def guard_io_def suppress_def intro!: awaits_catch
      split: sum.split option.split world_reply.split)

lemmas awaits_intros = awaits_bind awaits_catch awaits_leaf

section \<open>What a subscriber sees\<close>

text \<open>
  A subscriber gets the events published between its subscription and its end, in order, and the end
  mark exactly when the execution finishes while it is subscribed.
\<close>

lemma queue_put: "queue_of q (put_queue xs p a) = queue_of q a @ (if p = q then xs else [])"
  by (simp add: queue_of_def put_queue_def get_or_def update_conv')

lemma put_fields [simp]:
  "ax_subscribers (put_queue xs p a) = ax_subscribers a" "ax_terminal (put_queue xs p a) = ax_terminal a"
  by (simp_all add: put_queue_def)

lemma queue_puts: "distinct ps \<Longrightarrow> queue_of q (fold (put_queue xs) ps a) = queue_of q a @ (if q \<in> set ps then xs else [])"
  by (induction ps arbitrary: a) (auto simp: queue_put)

lemma publish_fields [simp]:
  "ax_subscribers (publish_all es a) = ax_subscribers a" "ax_terminal (publish_all es a) = ax_terminal a"
proof -
  have "ax_subscribers (fold (put_queue xs) ps a) = ax_subscribers a \<and> ax_terminal (fold (put_queue xs) ps a) = ax_terminal a" for xs ps
    by (induction ps arbitrary: a) auto
  then show "ax_subscribers (publish_all es a) = ax_subscribers a" "ax_terminal (publish_all es a) = ax_terminal a"
    by (simp_all add: publish_all_def)
qed

lemma queue_publish:
  "distinct (ax_subscribers a) \<Longrightarrow>
     queue_of q (publish_all es a) = queue_of q a @ (if q \<in> set (ax_subscribers a) then map Some es else [])"
  by (simp add: publish_all_def queue_puts)

lemma queue_finish:
  "distinct (ax_subscribers a) \<Longrightarrow>
     queue_of q (finish_execution a) = queue_of q a @ (if q \<in> set (ax_subscribers a) then [None] else [])"
  by (simp add: finish_execution_def queue_puts) (simp add: queue_of_def)

lemma subscriber_sees_all:
  assumes "\<not> ax_terminal a" and "q \<notin> set (ax_subscribers a)" and "queue_of q a = []" and "distinct (ax_subscribers a)"
  shows "queue_of q (finish_execution (fold publish_all batches (subscribe q a))) = map Some (concat batches) @ [None]"
proof -
  let ?a = "subscribe q a"
  have start: "queue_of q ?a = []" "q \<in> set (ax_subscribers ?a)" "distinct (ax_subscribers ?a)"
    using assms by (auto simp: subscribe_def queue_of_def put_queue_def get_or_def update_conv')
  have "ax_subscribers (fold publish_all batches b) = ax_subscribers b" for b by (induction batches arbitrary: b) auto
  moreover have "queue_of q (fold publish_all batches b) = queue_of q b @ map Some (concat batches)"
    if "q \<in> set (ax_subscribers b)" "distinct (ax_subscribers b)" for b
    using that by (induction batches arbitrary: b) (simp_all add: queue_publish)
  ultimately show ?thesis using start by (simp add: queue_finish)
qed

end
