(* ===== verification/Adapter_Input.thy ===== *)
theory Adapter_Input
  imports Adapter_Errors
begin

text \<open>
  The input of a request, \<open>src/src/codex_responses_adapter/input_mapping.py\<close>: the forms of the Responses
  API become the user inputs of the Codex app-server, a transcript text followed by the images.
  \<open>repr\<close> is Python's \<open>repr\<close> of a decoded JSON value; \<open>fresh\<close> gives the random hexadecimal id of the
  n-th stored item. A list or a dictionary as the type of an item is not hashable, so the test
  \<open>item_type in {..}\<close> is an uncaught \<open>TypeError\<close>.
\<close>

section \<open>Parts of an item\<close>

record mapped_input =
  mi_inputs :: "obj list"
  mi_instructions :: "string option"
  mi_items :: "obj list"

definition py_str :: "(json \<Rightarrow> string) \<Rightarrow> json \<Rightarrow> string" where
  "py_str repr v = (case v of JStr s \<Rightarrow> s | _ \<Rightarrow> repr v)"

definition join_nonempty :: "string list \<Rightarrow> string option" where
  "join_nonempty parts =
     (let value = strip (join_with [CHR 10, CHR 10] (filter (\<lambda>p. p \<noteq> []) (map strip parts)))
      in if value = [] then None else Some value)"

definition text_input :: "string \<Rightarrow> obj" where
  "text_input t = [(''type'', JStr ''text''), (''text'', JStr t), (''textElements'', JList [])]"

definition input_message :: "string \<Rightarrow> string \<Rightarrow> obj" where
  "input_message mid t =
     [(''id'', JStr (''msg_'' @ mid)), (''type'', JStr ''message''), (''status'', JStr ''completed''), (''role'', JStr ''user''),
      (''content'', JList [JObj [(''type'', JStr ''input_text''), (''text'', JStr t)]])]"

definition is_str :: "json \<Rightarrow> bool" where
  "is_str v \<longleftrightarrow> as_str v \<noteq> None"

definition stored_input_item :: "string \<Rightarrow> obj \<Rightarrow> obj" where
  "stored_input_item iid item =
     (let stored = jsetdefault ''id'' (JStr (''item_'' @ iid)) item
      in if jget stored ''type'' = JStr ''message'' \<or> is_str (jget stored ''role'')
         then jsetdefault ''status'' (JStr ''completed'') (jsetdefault ''type'' (JStr ''message'') stored)
         else stored)"

definition stringify_tool_output :: "(json \<Rightarrow> string) \<Rightarrow> json \<Rightarrow> string" where
  "stringify_tool_output repr v = py_str repr v"

definition image_url :: "obj \<Rightarrow> json" where
  "image_url item =
     (let raw = py_or (jget item ''image_url'') (jget item ''url'')
      in case raw of JObj d \<Rightarrow> jget d ''url'' | _ \<Rightarrow> raw)"

definition parse_image :: "obj \<Rightarrow> string \<Rightarrow> adapter_error + obj" where
  "parse_image item param =
     (case image_url item of
        JStr (c # cs) \<Rightarrow>
          Inr ([(''type'', JStr ''image''), (''url'', JStr (c # cs))]
            @ (if is_str (jget item ''detail'') then [(''detail'', jget item ''detail'')] else []))
      | _ \<Rightarrow>
          if truthy (py_or (jget item ''file_id'') (jget item ''fileId''))
          then Inl (InvalidRequest ''Codex app-server adapter does not resolve OpenAI file IDs; provide image_url''
            (Some param) ''unsupported_file_reference'')
          else Inl (InvalidRequest ''image_url is required'' (Some param) ''invalid_request''))"

text \<open>A type that is looked up in a set; an unhashable one raises.\<close>

definition hashable :: "json \<Rightarrow> bool" where
  "hashable v \<longleftrightarrow> as_list v = None \<and> as_obj v = None"

definition indexed :: "string \<Rightarrow> nat \<Rightarrow> string" where
  "indexed param n = param @ ''['' @ show_nat n @ '']''"

definition parse_part :: "(json \<Rightarrow> string) \<Rightarrow> string \<Rightarrow> json \<Rightarrow> adapter_error + string list \<times> obj list" where
  "parse_part repr param part =
     (case part of
        JObj d \<Rightarrow>
          (let t = jget d ''type''
           in if \<not> hashable t then Inl Unexpected
              else if t \<in> {JStr ''input_text'', JStr ''output_text'', JStr ''text''}
              then (case jget d ''text'' of
                  JStr s \<Rightarrow> Inr ([s], [])
                | _ \<Rightarrow> Inl (InvalidRequest (param @ ''.text must be a string'') (Some (param @ ''.text'')) ''invalid_request''))
              else if t \<in> {JStr ''input_image'', JStr ''image_url''}
              then rbind (parse_image d param) (\<lambda>i. Inr ([], [i]))
              else Inl (InvalidRequest (''Unsupported message content type: '' @ repr t) (Some (param @ ''.type''))
                ''unsupported_content_part''))
      | _ \<Rightarrow> Inl (InvalidRequest (param @ '' must be an object'') (Some param) ''invalid_request''))"

fun parse_parts :: "(json \<Rightarrow> string) \<Rightarrow> string \<Rightarrow> nat \<Rightarrow> json list \<Rightarrow> adapter_error + string list \<times> obj list" where
  "parse_parts repr param n [] = Inr ([], [])"
| "parse_parts repr param n (p # ps) =
     rbind (parse_part repr (indexed param n) p) (\<lambda>(ts, is).
       rbind (parse_parts repr param (Suc n) ps) (\<lambda>(ts', is'). Inr (ts @ ts', is @ is')))"

definition parse_content :: "(json \<Rightarrow> string) \<Rightarrow> json \<Rightarrow> string \<Rightarrow> adapter_error + string list \<times> obj list" where
  "parse_content repr content param =
     (case content of
        JStr s \<Rightarrow> Inr ([s], [])
      | JNull \<Rightarrow> Inr ([], [])
      | JList ps \<Rightarrow> parse_parts repr param 0 ps
      | _ \<Rightarrow> Inl (InvalidRequest ''message content must be a string or list'' (Some param) ''invalid_request''))"

section \<open>Items\<close>

record input_parts =
  ip_instructions :: "string list"
  ip_transcript :: "string list"
  ip_images :: "obj list"

definition message_text :: "string list \<Rightarrow> string" where
  "message_text ts = strip (join_with [CHR 10] (filter (\<lambda>t. t \<noteq> []) ts))"

definition map_message :: "(json \<Rightarrow> string) \<Rightarrow> string \<Rightarrow> obj \<Rightarrow> input_parts \<Rightarrow> adapter_error + input_parts" where
  "map_message repr param item p =
     (let sender = py_str repr (py_or (jget item ''role'') (JStr ''user''))
      in rbind (parse_content repr (jget item ''content'') (param @ ''.content'')) (\<lambda>(ts, is).
           let t = message_text ts
           in if sender \<in> {''system'', ''developer''}
              then (if is \<noteq> [] then Inl (InvalidRequest (sender @ '' messages cannot contain images'') (Some (param @ ''.content''))
                      ''invalid_request'')
                    else Inr (if t = [] then p else p\<lparr>ip_instructions := ip_instructions p @ [t]\<rparr>))
              else Inr (p\<lparr>ip_transcript := ip_transcript p @ (if t = [] then [] else [''['' @ sender @ '']'' @ [CHR 10] @ t]),
                          ip_images := ip_images p @ is\<rparr>)))"

definition tool_output_text :: "(json \<Rightarrow> string) \<Rightarrow> obj \<Rightarrow> string" where
  "tool_output_text repr item =
     ''[tool output: '' @ py_str repr (py_or (py_or (jget item ''call_id'') (jget item ''callId'')) (JStr ''unknown'')) @ '']''
       @ [CHR 10] @ stringify_tool_output repr (jget item ''output'')"

definition map_item :: "(json \<Rightarrow> string) \<Rightarrow> nat \<Rightarrow> json \<Rightarrow> input_parts \<Rightarrow> adapter_error + input_parts" where
  "map_item repr n v p =
     (let param = indexed ''input'' n
      in case v of
           JObj item \<Rightarrow>
             (let t = jget item ''type''
              in if t = JStr ''message'' \<or> is_str (jget item ''role'') then map_message repr param item p
                 else if \<not> hashable t then Inl Unexpected
                 else if t \<in> {JStr ''input_text'', JStr ''text''}
                 then (case jget item ''text'' of
                     JStr s \<Rightarrow> Inr (p\<lparr>ip_transcript := ip_transcript p @ [s]\<rparr>)
                   | _ \<Rightarrow> Inl (InvalidRequest (param @ ''.text must be a string'') (Some (param @ ''.text'')) ''invalid_request''))
                 else if t \<in> {JStr ''input_image'', JStr ''image_url''}
                 then rbind (parse_image item param) (\<lambda>i. Inr (p\<lparr>ip_images := ip_images p @ [i]\<rparr>))
                 else if t = JStr ''function_call_output''
                 then Inr (p\<lparr>ip_transcript := ip_transcript p @ [tool_output_text repr item]\<rparr>)
                 else Inl (InvalidRequest (''Unsupported Responses input item type: '' @ repr t) (Some (param @ ''.type''))
                   ''unsupported_input_item''))
         | _ \<Rightarrow> Inl (InvalidRequest (param @ '' must be an object'') (Some param) ''invalid_request''))"

fun map_items :: "(json \<Rightarrow> string) \<Rightarrow> nat \<Rightarrow> json list \<Rightarrow> input_parts \<Rightarrow> adapter_error + input_parts" where
  "map_items repr n [] p = Inr p"
| "map_items repr n (v # vs) p = rbind (map_item repr n v p) (map_items repr (Suc n) vs)"

fun stored_items :: "(nat \<Rightarrow> string) \<Rightarrow> nat \<Rightarrow> json list \<Rightarrow> obj list" where
  "stored_items fresh n [] = []"
| "stored_items fresh n (v # vs) =
     (case v of JObj d \<Rightarrow> [stored_input_item (fresh n) d] | _ \<Rightarrow> []) @ stored_items fresh (Suc n) vs"

definition instruction_parts :: "string option \<Rightarrow> string list" where
  "instruction_parts instructions =
     (case instructions of Some t \<Rightarrow> if t = [] then [] else [strip t] | None \<Rightarrow> [])"

definition joined_transcript :: "string list \<Rightarrow> string" where
  "joined_transcript ts = strip (join_with [CHR 10, CHR 10] (filter (\<lambda>t. strip t \<noteq> []) ts))"

definition user_inputs :: "input_parts \<Rightarrow> obj list" where
  "user_inputs p =
     (if joined_transcript (ip_transcript p) = [] then [] else [text_input (joined_transcript (ip_transcript p))]) @ ip_images p"

definition map_responses_input ::
    "(json \<Rightarrow> string) \<Rightarrow> (nat \<Rightarrow> string) \<Rightarrow> json \<Rightarrow> string option \<Rightarrow> adapter_error + mapped_input" where
  "map_responses_input repr fresh v instructions =
     (case v of
        JStr s \<Rightarrow>
          (let t = strip s
           in if t = [] then Inl (InvalidRequest ''input must not be empty'' (Some ''input'') ''invalid_request'')
              else Inr \<lparr>mi_inputs = [text_input t], mi_instructions = join_nonempty (instruction_parts instructions),
                        mi_items = [input_message (fresh 0) t]\<rparr>)
      | JList vs \<Rightarrow>
          rbind (map_items repr 0 vs \<lparr>ip_instructions = instruction_parts instructions, ip_transcript = [], ip_images = []\<rparr>)
            (\<lambda>p. if user_inputs p = []
                 then Inl (InvalidRequest ''input contains no supported user content'' (Some ''input'') ''invalid_request'')
                 else Inr \<lparr>mi_inputs = user_inputs p, mi_instructions = join_nonempty (ip_instructions p),
                           mi_items = stored_items fresh 0 vs\<rparr>)
      | _ \<Rightarrow> Inl (InvalidRequest ''input must be a string or a list of Responses input items'' (Some ''input'') ''invalid_request''))"

section \<open>What the app-server gets\<close>

text \<open>
  The user inputs of the app-server: a text without blanks at its ends, or an image with a
  location; a text comes first and alone. The stored items are the items of the client, with the
  fields that it did not give.
\<close>

definition text_ok :: "obj \<Rightarrow> bool" where
  "text_ok d \<longleftrightarrow> (case jget d ''text'' of JStr t \<Rightarrow> t \<noteq> [] \<and> strip t = t \<and> d = text_input t | _ \<Rightarrow> False)"

definition image_ok :: "obj \<Rightarrow> bool" where
  "image_ok d \<longleftrightarrow> jget d ''type'' = JStr ''image'' \<and> (case jget d ''url'' of JStr u \<Rightarrow> u \<noteq> [] | _ \<Rightarrow> False)"

definition inputs_ok :: "obj list \<Rightarrow> bool" where
  "inputs_ok ds \<longleftrightarrow> ds \<noteq> [] \<and> (text_ok (hd ds) \<or> image_ok (hd ds)) \<and> list_all image_ok (tl ds)"

definition stores_item :: "json \<Rightarrow> obj \<Rightarrow> bool" where
  "stores_item v d \<longleftrightarrow>
     (case v of
        JObj item \<Rightarrow> map_of d ''id'' \<noteq> None \<and> list_all (\<lambda>(k, x). map_of item k = Some x \<longrightarrow> map_of d k = Some x) item
      | _ \<Rightarrow> False)"

lemma map_of_jsetdefault:
  "map_of (jsetdefault k v d) x = (case map_of d x of Some y \<Rightarrow> Some y | None \<Rightarrow> if x = k then Some v else None)"
  by (auto simp: jsetdefault_def jset_def update_conv' split: option.split)

lemma stored_item_stores: "stores_item (JObj item) (stored_input_item i item)"
  by (auto simp: stores_item_def stored_input_item_def Let_def map_of_jsetdefault list_all_iff split: option.split)

lemma rstrip_idem: "rstrip p (rstrip p s) = rstrip p s"
  by (simp add: rstrip_def dropWhile_idem)

lemma rstrip_Cons: "\<not> p c \<Longrightarrow> rstrip p (c # s) = c # rstrip p s"
  by (simp add: rstrip_def dropWhile_append3)

lemma strip_idem: "strip (strip s) = strip s"
proof (cases "lstrip is_space s")
  case Nil
  then have "strip s = []" by (simp add: strip_def strip_chars_def rstrip_def)
  moreover have "strip [] = []" by (simp add: strip_def strip_chars_def rstrip_def lstrip_def)
  ultimately show ?thesis by simp
next
  case (Cons c cs)
  then have "\<not> is_space c" using hd_dropWhile [of is_space s] by (simp add: lstrip_def)
  then show ?thesis using Cons by (simp add: strip_def strip_chars_def rstrip_Cons rstrip_idem lstrip_def)
qed

lemma parse_image_ok: "parse_image item param = Inr i \<Longrightarrow> image_ok i"
  by (auto simp: parse_image_def image_ok_def split: json.splits list.splits if_splits)

lemma parse_part_ok: "parse_part repr param p = Inr (ts, is) \<Longrightarrow> list_all image_ok is"
  by (cases p) (auto simp: parse_part_def Let_def result_iffs split: json.splits if_splits dest: parse_image_ok)

lemma parse_parts_ok: "parse_parts repr param n ps = Inr (ts, is) \<Longrightarrow> list_all image_ok is"
  by (induction ps arbitrary: n ts "is") (auto simp: result_iffs dest: parse_part_ok)

lemma parse_content_ok: "parse_content repr v param = Inr (ts, is) \<Longrightarrow> list_all image_ok is"
  by (cases v) (auto simp: parse_content_def dest: parse_parts_ok)

lemma map_message_ok:
  "map_message repr param item p = Inr q \<Longrightarrow> list_all image_ok (ip_images p) \<Longrightarrow> list_all image_ok (ip_images q)"
  by (auto simp: map_message_def Let_def result_iffs dest: parse_content_ok split: if_splits)

lemma map_item_ok:
  assumes "map_item repr n v p = Inr q" and "list_all image_ok (ip_images p)"
  shows "list_all image_ok (ip_images q) \<and> as_obj v \<noteq> None"
proof (cases v)
  case (JObj item)
  with assms show ?thesis
    by (auto simp: map_item_def Let_def result_iffs split: json.splits if_splits dest: parse_image_ok map_message_ok)
qed (use assms in \<open>simp_all add: map_item_def Let_def\<close>)

lemma map_items_ok:
  "map_items repr n vs p = Inr q \<Longrightarrow> list_all image_ok (ip_images p) \<Longrightarrow>
     list_all image_ok (ip_images q) \<and> list_all (\<lambda>v. as_obj v \<noteq> None) vs"
proof (induction vs arbitrary: n p)
  case (Cons v vs)
  then obtain r where "map_item repr n v p = Inr r" "map_items repr (Suc n) vs r = Inr q" by (auto simp: result_iffs)
  then show ?case using Cons map_item_ok by fastforce
qed simp

lemma stored_items_store:
  "list_all (\<lambda>v. as_obj v \<noteq> None) vs \<Longrightarrow> list_all2 stores_item vs (stored_items fresh n vs)"
proof (induction vs arbitrary: n)
  case (Cons v vs)
  then show ?case by (cases v) (simp_all add: stored_item_stores)
qed simp

lemma text_input_ok: "strip t \<noteq> [] \<Longrightarrow> text_ok (text_input (strip t))"
  by (simp add: text_ok_def strip_idem text_input_def)

lemma user_inputs_ok: "list_all image_ok (ip_images p) \<Longrightarrow> user_inputs p \<noteq> [] \<Longrightarrow> inputs_ok (user_inputs p)"
  by (cases "ip_images p")
    (auto simp: user_inputs_def inputs_ok_def joined_transcript_def intro: text_input_ok split: if_splits)

lemma join_nonempty_filled: "join_nonempty ps \<noteq> Some []"
  by (simp add: join_nonempty_def Let_def)

text \<open>
  C26. An accepted input is well formed: the app-server gets at least one user input, a non-blank text
  first and otherwise only images with a location, the instructions are absent or not empty, and every
  item of the client is stored in its place with an id and with all the fields that the client gave.
\<close>

theorem accepted_input_well_formed:
  assumes "map_responses_input repr fresh v instructions = Inr m"
  shows "inputs_ok (mi_inputs m) \<and> mi_instructions m \<noteq> Some []
    \<and> (case v of JList vs \<Rightarrow> list_all2 stores_item vs (mi_items m)
       | JStr t \<Rightarrow> mi_items m = [input_message (fresh 0) (strip t)] \<and> mi_inputs m = [text_input (strip t)]
       | _ \<Rightarrow> False)"
proof (cases v)
  case (JStr t)
  with assms show ?thesis
    by (auto simp: map_responses_input_def Let_def inputs_ok_def text_input_ok join_nonempty_filled split: if_splits)
next
  case (JList vs)
  with assms obtain p where
      p: "map_items repr 0 vs \<lparr>ip_instructions = instruction_parts instructions, ip_transcript = [], ip_images = []\<rparr> = Inr p"
      "user_inputs p \<noteq> []"
      "m = \<lparr>mi_inputs = user_inputs p, mi_instructions = join_nonempty (ip_instructions p), mi_items = stored_items fresh 0 vs\<rparr>"
    by (auto simp: map_responses_input_def result_iffs split: if_splits)
  from map_items_ok [OF p(1)] have "list_all image_ok (ip_images p)" "list_all (\<lambda>v. as_obj v \<noteq> None) vs" by simp_all
  with JList p show ?thesis by (simp add: user_inputs_ok stored_items_store join_nonempty_filled)
qed (use assms in \<open>simp_all add: map_responses_input_def\<close>)

definition sample_input :: json where
  "sample_input = JList
     [JObj [(''role'', JStr ''developer''), (''content'', JStr '' be brief '')],
      JObj [(''type'', JStr ''input_text''), (''text'', JStr ''hi'')],
      JObj [(''type'', JStr ''input_image''), (''image_url'', JStr ''u'')]]"

lemma accepted_input_well_formed_witness:
  "case map_responses_input (\<lambda>v. []) show_nat sample_input None of
     Inr m \<Rightarrow> mi_inputs m = [text_input ''hi'', [(''type'', JStr ''image''), (''url'', JStr ''u'')]]
       \<and> mi_instructions m = Some ''be brief'' \<and> inputs_ok (mi_inputs m)
   | Inl e \<Rightarrow> False"
proof -
  let ?m = "\<lparr>mi_inputs = [text_input ''hi'', [(''type'', JStr ''image''), (''url'', JStr ''u'')]],
      mi_instructions = Some ''be brief'',
      mi_items = stored_items show_nat 0 (case sample_input of JList vs \<Rightarrow> vs | _ \<Rightarrow> [])\<rparr>"
  have "map_responses_input (\<lambda>v. []) show_nat sample_input None = Inr ?m" by code_simp
  with accepted_input_well_formed [OF this] show ?thesis by simp
qed

end
