(* ===== verification/Adapter_Service.thy ===== *)
theory Adapter_Service
  imports Adapter_Store Adapter_Input
begin

text \<open>
  The operations of \<open>CodexResponsesService\<close>, \<open>src/src/codex_responses_adapter/service.py\<close>, except the
  driver of a running turn, as programs over the state of the adapter and the calls of the Sandbox
  client. The record of a response is one object that the store, the builder and the service share; the
  builder and its record are written back to the state after every atomic step (\<open>share\<close>). \<open>rid\<close> is the id
  of the response throughout, which never changes.
\<close>

section \<open>Settings and checks of a request\<close>

record settings =
  sv_workspace :: string
  sv_model :: "string option"
  sv_ephemeral :: bool
  sv_apps :: bool
  sv_base_url :: string
  sv_timeout :: rat
  sv_history :: nat
  sv_callback :: "string option"

definition public_path :: "settings \<Rightarrow> string \<Rightarrow> string" where
  "public_path cfg path = sv_base_url cfg @ CHR ''/'' # lstrip (\<lambda>c. c = CHR ''/'') path"

definition allowed_origins :: "string \<Rightarrow> string list" where
  "allowed_origins origins =
     (let values = filter (\<lambda>v. v \<noteq> []) (map strip (split_on CHR '','' origins)) in if values = [] then [''*''] else values)"

definition unsupported :: "string \<Rightarrow> string \<Rightarrow> string \<Rightarrow> adapter_error" where
  "unsupported m p c = InvalidRequest m (Some p) c"

definition unsupported_reasoning :: "create_request \<Rightarrow> string list" where
  "unsupported_reasoning q =
     (case cq_reasoning q of
        Some d \<Rightarrow> sort (filter (\<lambda>k. k \<noteq> ''effort'' \<and> k \<noteq> ''summary'') (fromkeys (map fst d)))
      | None \<Rightarrow> [])"

definition supplied_extra :: "create_request \<Rightarrow> string list" where
  "supplied_extra q = sort (map fst (filter (\<lambda>(k, v). v \<noteq> JNull) (cq_extra q)))"

definition validate_request :: "create_request \<Rightarrow> adapter_error option" where
  "validate_request q =
     (if cq_background q then Some (unsupported ''background=true is not supported by the Codex app-server adapter''
        ''background'' ''unsupported_background_mode'')
      else if cq_tools q \<noteq> None \<and> cq_tools q \<noteq> Some [] then
        Some (unsupported (''Client-supplied Responses tools are not mapped. ''
          @ ''MCP Apps must be configured in Codex app-server.'') ''tools'' ''unsupported_tools'')
      else if cq_max_output q \<noteq> None then
        Some (unsupported (''max_output_tokens is not enforced by Codex app-server ''
          @ ''and is not supported by this adapter'') ''max_output_tokens'' ''unsupported_max_output_tokens'')
      else if cq_store q = Some False then
        Some (unsupported (''store=false is not supported because response, thread, ''
          @ ''and MCP App mappings are required'') ''store'' ''unsupported_store_mode'')
      else (case unsupported_reasoning q of
          n # _ \<Rightarrow> Some (unsupported (''Unsupported reasoning parameter: '' @ n) (''reasoning.'' @ n) ''unsupported_reasoning_parameter'')
        | [] \<Rightarrow>
            (case supplied_extra q of
               n # _ \<Rightarrow> Some (unsupported (''Unsupported Responses parameter: '' @ n) n ''unsupported_parameter'')
             | [] \<Rightarrow> None)))"

record workspace_context =
  wx_grant :: "string option"
  wx_checkout :: "string option"
  wx_publish :: "string option"
  wx_metadata :: obj

definition grant_ok :: "json \<Rightarrow> bool" where
  "grant_ok v \<longleftrightarrow> v = JNull \<or> (case v of JStr t \<Rightarrow> 16 \<le> length t \<and> length t \<le> 65536 | _ \<Rightarrow> False)"

definition workspace_context_of :: "obj option \<Rightarrow> adapter_error + workspace_context" where
  "workspace_context_of metadata =
     (let d = (case metadata of Some m \<Rightarrow> m | None \<Rightarrow> []);
          grant = jget d ''agent_workspace_grant'';
          checkout = jget d ''agent_checkout_grant'';
          publish = jget d ''agent_publish_grant''
      in require (grant_ok grant)
           (InvalidRequest ''The Workspace grant is invalid.'' (Some ''metadata.agent_workspace_grant'') ''workspace_grant_invalid'')
         (require (grant_ok checkout)
           (InvalidRequest ''The checkout grant is invalid.'' (Some ''metadata.agent_checkout_grant'') ''workspace_grant_invalid'')
         (require (grant_ok publish)
           (InvalidRequest ''The publish event grant is invalid.'' (Some ''metadata.agent_publish_grant'') ''workspace_grant_invalid'')
         (require (checkout = JNull \<or> grant \<noteq> JNull)
           (InvalidRequest ''File checkout requires a Workspace grant.'' (Some ''metadata.agent_workspace_grant'')
              ''workspace_grant_required'')
         (Inr \<lparr>wx_grant = as_str grant, wx_checkout = as_str checkout, wx_publish = as_str publish,
               wx_metadata = jpop ''agent_publish_grant'' (jpop ''agent_checkout_grant'' (jpop ''agent_workspace_grant'' d))\<rparr>)))))"

section \<open>Sharing the record\<close>

definition share :: "string \<Rightarrow> builder \<Rightarrow> adapter \<Rightarrow> adapter" where
  "share rid b s =
     (let s1 = s\<lparr>ad_builders := AList.update rid b (ad_builders s)\<rparr>
      in if isl (get_record rid s) then s1 else s1\<lparr>ad_records := AList.update rid (bd_record b) (ad_records s1)\<rparr>)"

definition on_execution :: "string \<Rightarrow> (execution \<Rightarrow> execution) \<Rightarrow> adapter \<Rightarrow> adapter" where
  "on_execution rid f s =
     (case map_of (ad_active s) rid of Some a \<Rightarrow> s\<lparr>ad_active := AList.update rid (f a) (ad_active s)\<rparr> | None \<Rightarrow> s)"

section \<open>Sessions of MCP Apps\<close>

definition app_tools :: "string \<Rightarrow> json \<Rightarrow> string list" where
  "app_tools app_id result =
     (case Option.bind (as_obj result) (\<lambda>d. as_list (jget d ''apps'')) of
        None \<Rightarrow> []
      | Some apps \<Rightarrow>
          (case find (\<lambda>d. jget d ''id'' = JStr app_id) (List.map_filter as_obj apps) of
             None \<Rightarrow> []
           | Some d \<Rightarrow>
               (case as_list (jget d ''toolSummaries'') of
                  None \<Rightarrow> []
                | Some ss \<Rightarrow>
                    fromkeys (List.map_filter (\<lambda>x. if jget x ''isEnabled'' = JBool True then nonempty (jget x ''name'') else None)
                      (List.map_filter as_obj ss)))))"

definition load_app_allowed_tools :: "string \<Rightarrow> string \<Rightarrow> obj \<Rightarrow> string list io" where
  "load_app_allowed_tools sid thread d =
     (case nonempty (jget d ''app_id'') of
        None \<Rightarrow> Done []
      | Some app_id \<Rightarrow>
          catch_io
            (bind_io (ask (Rpc sid ''app/read'' [(''appIds'', JList [JStr app_id]), (''threadId'', JStr thread),
                (''includeTools'', JBool True)]) got_value) (\<lambda>v. Done (app_tools app_id v)))
            (\<lambda>e. if is_exception e then Done [] else Raise e))"

definition set_tools :: "string list \<Rightarrow> obj \<Rightarrow> obj" where
  "set_tools tools d = jset ''allowed_tools'' (JList (map JStr tools)) d"

text \<open>The item of an event with the tools in its descriptor.\<close>

definition item_with_tools :: "string list \<Rightarrow> obj \<Rightarrow> obj" where
  "item_with_tools tools item =
     (case jget item ''_meta'' of
        JObj m \<Rightarrow> (case jget m ''mcp_app'' of
            JObj d \<Rightarrow> jset ''_meta'' (JObj (jset ''mcp_app'' (JObj (set_tools tools d)) m)) item
          | _ \<Rightarrow> item)
      | _ \<Rightarrow> item)"

definition bind_record :: "string \<Rightarrow> string list \<Rightarrow> obj \<Rightarrow> obj \<Rightarrow> builder \<Rightarrow> (obj \<times> builder) io" where
  "bind_record call tools item d b =
     (let item1 = item_with_tools tools item;
          r1 = register_mcp_app_target call (set_tools tools d) (bd_record b)
      in if is_str (jget item ''id'')
         then (case add_output_item item1 r1 of
             None \<Rightarrow> Raise Unexpected
           | Some (k, r2) \<Rightarrow> Done (item1, b\<lparr>bd_record := r2\<rparr>))
         else Done (item1, b\<lparr>bd_record := r1\<rparr>))"

definition bind_app_session :: "string \<Rightarrow> string \<Rightarrow> string \<Rightarrow> obj \<Rightarrow> obj \<Rightarrow> builder \<Rightarrow> (obj \<times> builder) io" where
  "bind_app_session rid sid thread item d b =
     (case nonempty (jget d ''call_id'') of
        None \<Rightarrow> Raise invalid_descriptor
      | Some call \<Rightarrow>
          ReadState (\<lambda>s. case find_app_session rid call (ad_apps s) of
              Some a \<Rightarrow> bind_record call (as_tools a) item d b
            | None \<Rightarrow>
                bind_io (load_app_allowed_tools sid thread d) (\<lambda>tools.
                  ReadState (\<lambda>s. case register_app_session rid (set_tools tools d) (ad_apps s) of
                      Inl e \<Rightarrow> Raise e
                    | Inr (a, m) \<Rightarrow> WriteState (\<lambda>s. s\<lparr>ad_apps := m\<rparr>) (bind_record call tools item d b)))))"

text \<open>
  \<open>_publish_response_events\<close>: the sessions of the apps are bound event by event, then everything is
  published to the subscribers and the side events to the history of the MCP Apps.
\<close>

fun bind_events :: "string \<Rightarrow> string \<Rightarrow> string \<Rightarrow> obj list \<Rightarrow> builder \<Rightarrow> (obj list \<times> (string \<times> obj) list \<times> builder) io" where
  "bind_events rid sid thread [] b = Done ([], [], b)"
| "bind_events rid sid thread (e # es) b =
     (case mcp_app_side_event e of
        None \<Rightarrow> bind_io (bind_events rid sid thread es b) (\<lambda>(es', side, b'). Done (e # es', side, b'))
      | Some (t, data) \<Rightarrow>
          (case jget data ''item'' of
             JObj item \<Rightarrow>
               bind_io (bind_app_session rid sid thread item
                   (case jget item ''_meta'' of JObj m \<Rightarrow> (case jget m ''mcp_app'' of JObj d \<Rightarrow> d | _ \<Rightarrow> []) | _ \<Rightarrow> []) b)
                 (\<lambda>(item1, b1). WriteState (share rid b1)
                    (bind_io (bind_events rid sid thread es b1) (\<lambda>(es', side, b').
                      Done (jset ''item'' (JObj item1) e # es', (t, jset ''item'' (JObj item1) data) # side, b'))))
           | _ \<Rightarrow> bind_io (bind_events rid sid thread es b) (\<lambda>(es', side, b'). Done (e # es', side, b'))))"

definition publish_sides :: "settings \<Rightarrow> string \<Rightarrow> int \<Rightarrow> (string \<times> obj) list \<Rightarrow> mcp_state \<Rightarrow> mcp_state" where
  "publish_sides cfg rid now sides m = fold (\<lambda>(t, data). app_publish (sv_history cfg) rid t now data) sides m"

definition publish_response_events :: "settings \<Rightarrow> int \<Rightarrow> string \<Rightarrow> string \<Rightarrow> string \<Rightarrow> obj list \<Rightarrow> builder \<Rightarrow> builder io" where
  "publish_response_events cfg now rid sid thread es b =
     bind_io (if sv_apps cfg then bind_events rid sid thread es b else Done (es, [], b)) (\<lambda>(es', sides, b').
       WriteState (\<lambda>s. on_apps (publish_sides cfg rid now sides) (on_execution rid (publish_all es') (share rid b' s)))
         (Done b'))"

section \<open>Waiting for operations\<close>

definition remote_open :: "remote_operation \<Rightarrow> bool" where
  "remote_open x \<longleftrightarrow> ro_status x = OpPending \<or> ro_status x = OpRunning"

fun wait_operation :: "nat \<Rightarrow> rat \<Rightarrow> remote_operation \<Rightarrow> remote_operation io" where
  "wait_operation 0 deadline x = (if remote_open x then Stuck else Done x)"
| "wait_operation (Suc n) deadline x =
     (if \<not> remote_open x then Done x
      else bind_io clock (\<lambda>t.
        if deadline \<le> t then Raise (UpstreamProtocol ''Workspace operation timed out'' JNull)
        else bind_io (pause (AwaitSleep (1 / 10))) (\<lambda>_.
          bind_io (ask (InspectOperation (ro_id x)) got_operation) (wait_operation n deadline))))"

definition capture_open :: "remote_operation \<Rightarrow> bool" where
  "capture_open x \<longleftrightarrow> remote_open x \<and> ro_phase x \<noteq> Some PhCaptured \<and> ro_phase x \<noteq> Some PhUploading"

fun wait_publish_capture :: "nat \<Rightarrow> rat \<Rightarrow> remote_operation \<Rightarrow> remote_operation io" where
  "wait_publish_capture 0 deadline x = (if capture_open x then Stuck else Done x)"
| "wait_publish_capture (Suc n) deadline x =
     (if \<not> capture_open x then Done x
      else bind_io clock (\<lambda>t.
        if deadline \<le> t then Raise (UpstreamProtocol ''Workspace publish capture timed out'' JNull)
        else bind_io (pause (AwaitSleep (1 / 10))) (\<lambda>_.
          bind_io (ask (InspectOperation (ro_id x)) got_operation) (wait_publish_capture n deadline))))"

definition run_checkout_operation :: "settings \<Rightarrow> nat \<Rightarrow> remote_sandbox \<Rightarrow> string option \<Rightarrow> unit io" where
  "run_checkout_operation cfg fuel sb grant =
     (case grant of
        None \<Rightarrow> Done ()
      | Some g \<Rightarrow>
          if rs_workspace sb = None then Raise (UpstreamProtocol ''Sandbox Manager did not return a Workspace binding'' JNull)
          else bind_io clock (\<lambda>t.
            bind_io (ask (CreateOperation g) got_operation) (\<lambda>x0.
              bind_io (wait_operation fuel (t + sv_timeout cfg) x0) (\<lambda>x.
                if ro_status x \<noteq> OpSucceeded \<or> Some (ro_workspace x) \<noteq> rs_workspace sb \<or> ro_sandbox x \<noteq> Some (rs_id sb)
                then Raise (UpstreamProtocol (case ro_error x of Some (c # cs) \<Rightarrow> c # cs | _ \<Rightarrow> ''Workspace file checkout failed'') JNull)
                else Done ()))))"

section \<open>Threads and turns\<close>

definition thread_common :: "settings \<Rightarrow> string \<Rightarrow> string option \<Rightarrow> string option \<Rightarrow> obj" where
  "thread_common cfg m instructions tier =
     [(''cwd'', JStr (sv_workspace cfg)), (''approvalPolicy'', JStr ''never''),
      (''model'', JStr (case sv_model cfg of Some (c # cs) \<Rightarrow> c # cs | _ \<Rightarrow> m))]
     @ (case tier of Some (c # cs) \<Rightarrow> [(''serviceTier'', JStr (c # cs))] | _ \<Rightarrow> [])
     @ (case instructions of Some (c # cs) \<Rightarrow> [(''developerInstructions'', JStr (c # cs))] | _ \<Rightarrow> [])"

definition nested_id :: "string \<Rightarrow> json \<Rightarrow> string option" where
  "nested_id k v = Option.bind (as_obj v) (\<lambda>d. Option.bind (as_obj (jget d k)) (\<lambda>x. nonempty (jget x ''id'')))"

definition present :: "string option \<Rightarrow> bool" where
  "present x \<longleftrightarrow> x \<noteq> None \<and> x \<noteq> Some []"

definition start_or_continue_thread ::
    "settings \<Rightarrow> string \<Rightarrow> create_request \<Rightarrow> mapped_input \<Rightarrow> response option \<Rightarrow> string io" where
  "start_or_continue_thread cfg sid q mapped previous =
     (let common = thread_common cfg (cq_model q) (mi_instructions mapped) (cq_service_tier q);
          m = (if previous = None then ''thread/start'' else ''thread/fork'')
      in bind_io
           (case previous of
              None \<Rightarrow> ask (Rpc sid m (common @ [(''ephemeral'', JBool (sv_ephemeral cfg))])) got_value
            | Some p \<Rightarrow>
                guard_io (\<not> sv_ephemeral cfg)
                  (InvalidRequest ''previous_response_id is unavailable when ephemeral Codex threads are enabled''
                     (Some ''previous_response_id'') ''ephemeral_thread_not_resumable'')
                  (guard_io (present (rr_thread p) \<and> present (rr_turn p))
                     (InvalidRequest ''previous_response_id does not reference a Codex thread turn''
                        (Some ''previous_response_id'') ''invalid_request'')
                     (ask (Rpc sid m ([(''threadId'', opt_str (rr_thread p)), (''lastTurnId'', opt_str (rr_turn p)),
                         (''ephemeral'', JBool False)] @ common)) got_value)))
           (\<lambda>v. case nested_id ''thread'' v of
              Some t \<Rightarrow> Done t
            | None \<Rightarrow> Raise (UpstreamProtocol (''Codex app-server '' @ m @ '' response did not include thread.id'') v)))"

definition reasoning_param :: "create_request \<Rightarrow> string \<Rightarrow> obj" where
  "reasoning_param q k =
     (case Option.bind (cq_reasoning q) (\<lambda>d. nonempty (jget d k)) of Some t \<Rightarrow> [(k, JStr t)] | None \<Rightarrow> [])"

definition turn_params :: "string \<Rightarrow> create_request \<Rightarrow> mapped_input \<Rightarrow> obj" where
  "turn_params thread q mapped =
     [(''threadId'', JStr thread), (''input'', JList (map JObj (mi_inputs mapped))), (''approvalPolicy'', JStr ''never''),
      (''sandboxPolicy'', JObj [(''type'', JStr ''externalSandbox''), (''networkAccess'', JStr ''restricted'')])]
     @ reasoning_param q ''effort'' @ reasoning_param q ''summary''
     @ (case cq_service_tier q of Some (c # cs) \<Rightarrow> [(''serviceTier'', JStr (c # cs))] | _ \<Rightarrow> [])"

definition start_turn :: "string \<Rightarrow> obj \<Rightarrow> string io" where
  "start_turn sid params =
     bind_io (ask (Rpc sid ''turn/start'' params) got_value) (\<lambda>v.
       case nested_id ''turn'' v of
         Some t \<Rightarrow> Done t
       | None \<Rightarrow> Raise (UpstreamProtocol ''Codex app-server turn/start response did not include turn.id'' v))"

end
