(* ===== verification/Adapter_Operations.thy ===== *)
theory Adapter_Operations
  imports Adapter_Service
begin

text \<open>
  The public operations of \<open>CodexResponsesService\<close>, \<open>src/src/codex_responses_adapter/service.py\<close>: the start
  of a response, its retrieval, cancellation and deletion, the relays to the Manager, and the access of
  MCP Apps to resources and tools.

  \<open>_start\<close> takes a place of the semaphore and may create a Sandbox; both are given back on every error.
\<close>

section \<open>The start of a response\<close>

record fresh =
  fr_response :: string
  fr_message :: string
  fr_items :: "nat \<Rightarrow> string"
  fr_queue :: nat
  fr_now :: int

definition usable :: "remote_sandbox \<Rightarrow> bool" where
  "usable sb \<longleftrightarrow> rs_status sb = SbRunning \<and> rs_worker sb \<noteq> None"

definition conflict_unavailable :: "string \<Rightarrow> adapter_error" where
  "conflict_unavailable m = ResponseConflict m ''sandbox_unavailable''"

definition upstream_as :: "adapter_error \<Rightarrow> 'a io \<Rightarrow> 'a io" where
  "upstream_as e' p = catch_io p (\<lambda>e. if is_upstream e then Raise e' else Raise e)"

definition authorize_previous :: "response \<Rightarrow> string option \<Rightarrow> unit io" where
  "authorize_previous p grant =
     (if rr_recoverable p then
        (case (rr_workspace p, grant) of
           (Some wid, Some g) \<Rightarrow>
             bind_io (ask (AuthorizeWorkspace wid g) got_workspace) (\<lambda>w.
               guard_io (rw_id w = wid)
                 (InvalidRequest ''The Workspace grant does not match previous_response_id.'' (Some ''previous_response_id'')
                    ''workspace_mismatch'') (Done ()))
         | _ \<Rightarrow> Raise (InvalidRequest ''A Workspace grant is required to continue this response.'' (Some ''metadata'')
             ''workspace_grant_required''))
      else guard_io (grant = None)
        (InvalidRequest ''An ephemeral response cannot switch to a recoverable Workspace.'' (Some ''previous_response_id'')
           ''workspace_mismatch'') (Done ()))"

definition renew_previous :: "string \<Rightarrow> remote_sandbox io" where
  "renew_previous sid =
     upstream_as (conflict_unavailable ''The Sandbox for previous_response_id is unavailable.'')
       (bind_io (ask (InspectSandbox sid) got_sandbox) (\<lambda>sb.
          guard_io (usable sb) (SandboxUnavailable ''Sandbox is not running'') (ask (RenewSandbox sid) got_sandbox)))"

definition previous_sandbox :: "response \<Rightarrow> string option \<Rightarrow> remote_sandbox io" where
  "previous_sandbox p grant =
     (case rr_sandbox p of
        Some (c # cs) \<Rightarrow>
          bind_io (authorize_previous p grant) (\<lambda>_.
            bind_io (renew_previous (c # cs)) (\<lambda>sb.
              guard_io (usable sb) (conflict_unavailable ''The Sandbox for previous_response_id is unavailable.'')
                (guard_io (rs_workspace sb = rr_workspace p)
                   (ResponseConflict ''The Sandbox Workspace for previous_response_id changed.'' ''workspace_mismatch'')
                   (Done sb))))
      | _ \<Rightarrow> Raise (InvalidRequest ''previous_response_id has no Sandbox mapping'' (Some ''previous_response_id'') ''invalid_request''))"

text \<open>What is known before a Sandbox is there: the grants, the input and the previous response.\<close>

record start_plan =
  sp_context :: workspace_context
  sp_mapped :: mapped_input
  sp_record :: response
  sp_previous :: "response option"

definition plan_start :: "settings \<Rightarrow> (json \<Rightarrow> string) \<Rightarrow> fresh \<Rightarrow> create_request \<Rightarrow> adapter \<Rightarrow> adapter_error + start_plan" where
  "plan_start cfg repr fr q s =
     rbind (workspace_context_of (cq_metadata q)) (\<lambda>ctx.
       rbind (map_responses_input repr (fr_items fr) (cq_input q) (cq_instructions q)) (\<lambda>mapped.
         (let r = create_response (q\<lparr>cq_metadata := Some (wx_metadata ctx)\<rparr>) (mi_items mapped) (sv_base_url cfg)
                (fr_response fr) (fr_message fr) (fr_now fr)
          in case cq_previous q of
               Some (c # cs) \<Rightarrow>
                 rbind (get_record (c # cs) s) (\<lambda>p.
                   require (get_active (rr_id p) s = None)
                     (ResponseConflict ''previous_response_id is still in progress.'' ''previous_response_in_progress'')
                     (Inr \<lparr>sp_context = ctx, sp_mapped = mapped, sp_record = r, sp_previous = Some p\<rparr>))
             | _ \<Rightarrow> Inr \<lparr>sp_context = ctx, sp_mapped = mapped, sp_record = r, sp_previous = None\<rparr>)))"

text \<open>The Sandbox of the response, with its id when it was created for it.\<close>

definition obtain_sandbox :: "start_plan \<Rightarrow> (remote_sandbox \<times> string option) io" where
  "obtain_sandbox pl =
     (case sp_previous pl of
        Some p \<Rightarrow> bind_io (previous_sandbox p (wx_grant (sp_context pl))) (\<lambda>sb. Done (sb, None))
      | None \<Rightarrow> bind_io (ask (CreateSandbox (wx_grant (sp_context pl))) got_sandbox) (\<lambda>sb. Done (sb, Some (rs_id sb))))"

definition sandbox_attached :: "workspace_context \<Rightarrow> response option \<Rightarrow> remote_sandbox \<Rightarrow> unit io" where
  "sandbox_attached ctx previous sb =
     guard_io (previous \<noteq> None \<or> wx_grant ctx = None \<or> (rs_recoverable sb \<and> rs_workspace sb \<noteq> None))
       (UpstreamProtocol ''Sandbox Manager did not attach the authorized Workspace'' JNull) (Done ())"

record prepared =
  pr_builder :: builder
  pr_sandbox :: string
  pr_thread :: string
  pr_turn :: string
  pr_cursor :: int
  pr_publish :: "string option"

definition start_turn_in :: "settings \<Rightarrow> nat \<Rightarrow> create_request \<Rightarrow> start_plan \<Rightarrow> remote_sandbox \<Rightarrow> (string \<times> string \<times> int) io" where
  "start_turn_in cfg fuel q pl sb =
     bind_io (sandbox_attached (sp_context pl) (sp_previous pl) sb) (\<lambda>_.
       bind_io (run_checkout_operation cfg fuel sb (wx_checkout (sp_context pl))) (\<lambda>_.
         bind_io (start_or_continue_thread cfg (rs_id sb) q (sp_mapped pl) (sp_previous pl)) (\<lambda>thread.
           bind_io (ask (EventCursor (rs_id sb)) got_cursor) (\<lambda>cursor.
             bind_io (start_turn (rs_id sb) (turn_params thread q (sp_mapped pl))) (\<lambda>turn.
               Done (thread, turn, cursor))))))"

definition started_record :: "remote_sandbox \<Rightarrow> string \<Rightarrow> string \<Rightarrow> response \<Rightarrow> response" where
  "started_record sb thread turn r =
     r\<lparr>rr_sandbox := Some (rs_id sb), rr_workspace := rs_workspace sb, rr_recoverable := rs_recoverable sb,
       rr_thread := Some thread, rr_turn := Some turn\<rparr>"

text \<open>Record and execution become visible together; then the driver task is created.\<close>

definition register_start :: "settings \<Rightarrow> fresh \<Rightarrow> bool \<Rightarrow> start_plan \<Rightarrow> remote_sandbox \<Rightarrow> string \<times> string \<times> int \<Rightarrow> prepared io" where
  "register_start cfg fr subscribed pl sb ids =
     (case ids of (thread, turn, cursor) \<Rightarrow>
       (let r = started_record sb thread turn (sp_record pl);
            a = new_execution (rr_id r) (rs_id sb) thread turn cursor
        in case initial_events (new_builder r) of
             None \<Rightarrow> Raise Unexpected
           | Some (es, b) \<Rightarrow>
               WriteState (\<lambda>s. register_active (if subscribed then subscribe (fr_queue fr) a else a) (put_record r s))
                 (bind_io (publish_response_events cfg (fr_now fr) (rr_id r) (rs_id sb) thread es b) (\<lambda>b'.
                    Done \<lparr>pr_builder = b', pr_sandbox = rs_id sb, pr_thread = thread, pr_turn = turn, pr_cursor = cursor,
                          pr_publish = wx_publish (sp_context pl)\<rparr>))))"

definition release_slot :: "adapter \<Rightarrow> adapter" where
  "release_slot s = s\<lparr>ad_permits := ad_permits s + 1\<rparr>"

definition take_slot :: "adapter \<Rightarrow> adapter" where
  "take_slot s = s\<lparr>ad_permits := ad_permits s - 1\<rparr>"

text \<open>The handler of \<open>_start\<close>: the created Sandbox is terminated and the place given back.\<close>

definition undo_start :: "string option \<Rightarrow> adapter_error \<Rightarrow> 'a io" where
  "undo_start created e =
     bind_io (case created of
         None \<Rightarrow> Done ()
       | Some sid \<Rightarrow> suppress (bind_io (ask (TerminateSandbox sid) got_sandbox) (\<lambda>_. Done ())))
       (\<lambda>_. WriteState release_slot (Raise e))"

definition start_response :: "settings \<Rightarrow> (json \<Rightarrow> string) \<Rightarrow> nat \<Rightarrow> fresh \<Rightarrow> create_request \<Rightarrow> bool \<Rightarrow> prepared io" where
  "start_response cfg repr fuel fr q subscribed =
     (case validate_request q of
        Some e \<Rightarrow> Raise e
      | None \<Rightarrow>
          bind_io (pause AwaitSlot) (\<lambda>_. WriteState take_slot
            (bind_io
              (catch_io (ReadState (\<lambda>s. bind_io (lift_result (plan_start cfg repr fr q s)) (\<lambda>pl.
                  bind_io (obtain_sandbox pl) (\<lambda>x. Done (pl, x)))))
                (undo_start None))
              (\<lambda>(pl, sb, created).
                 catch_io (bind_io (start_turn_in cfg fuel q pl sb) (register_start cfg fr subscribed pl sb))
                   (undo_start created)))))"

section \<open>Retrieval, cancellation and deletion\<close>

text \<open>The serialisation brings the message item of the shared record up to date.\<close>

definition serialized :: "response \<Rightarrow> (obj \<Rightarrow> 'a io) \<Rightarrow> 'a io" where
  "serialized r k =
     (case to_response r of
        None \<Rightarrow> Raise Unexpected
      | Some (v, r') \<Rightarrow> WriteState (\<lambda>s. if isl (get_record (rr_id r) s) then s else put_record r' s) (k v))"

definition retrieve :: "string \<Rightarrow> obj io" where
  "retrieve rid = ReadState (\<lambda>s. bind_io (lift_result (get_record rid s)) (\<lambda>r. serialized r Done))"

definition latest :: "response \<Rightarrow> adapter \<Rightarrow> response" where
  "latest r s = (case map_of (ad_records s) (rr_id r) of Some r' \<Rightarrow> r' | None \<Rightarrow> r)"

definition finished_error :: "string \<Rightarrow> adapter \<Rightarrow> adapter_error option" where
  "finished_error rid s =
     (case map_of (ad_finished s) rid of
        Some a \<Rightarrow> if ax_cancel a then None else ax_driver_error a
      | None \<Rightarrow> None)"

definition create_non_streaming :: "settings \<Rightarrow> (json \<Rightarrow> string) \<Rightarrow> nat \<Rightarrow> fresh \<Rightarrow> create_request \<Rightarrow> obj io" where
  "create_non_streaming cfg repr fuel fr q =
     bind_io (start_response cfg repr fuel fr q False) (\<lambda>p.
       (let r = bd_record (pr_builder p)
        in bind_io (pause (AwaitTerminal (rr_id r))) (\<lambda>_.
             ReadState (\<lambda>s. case finished_error (rr_id r) s of
                 Some e \<Rightarrow> Raise e
               | None \<Rightarrow> serialized (latest r s) Done))))"

text \<open>One turn of the consumer of a stream: \<open>None\<close> in the queue ends it.\<close>

definition stream_get :: "nat \<Rightarrow> execution \<Rightarrow> (obj option \<times> execution) option" where
  "stream_get q a =
     (case queue_of q a of
        [] \<Rightarrow> None
      | Some e # xs \<Rightarrow> Some (Some e, a\<lparr>ax_queues := AList.update q xs (ax_queues a)\<rparr>)
      | None # xs \<Rightarrow> Some (None, unsubscribe q (a\<lparr>ax_queues := AList.update q xs (ax_queues a)\<rparr>)))"

definition interrupt_params :: "execution \<Rightarrow> obj" where
  "interrupt_params a = [(''threadId'', JStr (ax_thread a)), (''turnId'', JStr (ax_turn a))]"

function interrupt :: "nat \<Rightarrow> execution \<Rightarrow> response \<Rightarrow> unit io" where
  "interrupt attempt a r =
     catch_io (bind_io (ask (Rpc (ax_sandbox a) ''turn/interrupt'' (interrupt_params a)) got_value) (\<lambda>_. Done ()))
       (\<lambda>e. if \<not> is_exception e then Raise e
            else ReadState (\<lambda>s.
              if rr_status (latest r s) \<noteq> RespInProgress then Done ()
              else if attempt < 2 then bind_io (pause (AwaitSleep (of_nat (attempt + 1) / 10))) (\<lambda>_. interrupt (attempt + 1) a r)
              else suppress (bind_io (ask (TerminateSandbox (ax_sandbox a)) got_sandbox) (\<lambda>_. Done ()))))"

  by pat_completeness auto

termination interrupt
  by (relation "measure (\<lambda>(n, a, r). 2 - n)") auto

declare interrupt.simps [simp del]

definition cancel_response :: "string \<Rightarrow> obj io" where
  "cancel_response rid =
     ReadState (\<lambda>s. bind_io (lift_result (get_record rid s)) (\<lambda>r.
       WriteState (on_apps (cancel_response_interactions rid))
         (case get_active rid s of
            None \<Rightarrow> serialized r Done
          | Some a \<Rightarrow>
              if ax_cancel a then serialized r Done
              else WriteState (on_execution rid (\<lambda>a. a\<lparr>ax_cancel := True\<rparr>))
                (bind_io (interrupt 0 a r) (\<lambda>_. ReadState (\<lambda>s. serialized (latest r s) Done))))))"

definition remove_response :: "string \<Rightarrow> obj io" where
  "remove_response rid =
     ReadState (\<lambda>s.
       guard_io (get_active rid s = None)
         (ResponseConflict ''An in-progress response must be cancelled before deletion.'' ''response_conflict'')
         (bind_io (lift_result (get_record rid s)) (\<lambda>r.
            WriteState (on_apps (delete_response rid) \<circ> delete_record rid)
              (Done [(''id'', JStr (rr_id r)), (''object'', JStr ''response.deleted''), (''deleted'', JBool True)]))))"

definition item_id :: "obj \<Rightarrow> json" where
  "item_id d = (if is_str (jget d ''id'') then jget d ''id'' else JNull)"

definition list_input_items :: "string \<Rightarrow> obj io" where
  "list_input_items rid =
     ReadState (\<lambda>s. bind_io (lift_result (get_record rid s)) (\<lambda>r.
       (let items = rr_input_items r
        in Done [(''object'', JStr ''list''), (''data'', JList (map JObj items)),
             (''first_id'', (if items = [] then JNull else item_id (hd items))),
             (''last_id'', (if items = [] then JNull else item_id (last items))), (''has_more'', JBool False)])))"

text \<open>The end of a turn: \<open>_cleanup\<close>.\<close>

definition cleanup :: "settings \<Rightarrow> int \<Rightarrow> response \<Rightarrow> adapter \<Rightarrow> adapter" where
  "cleanup cfg now r s =
     (let rid = rr_id r;
          gone = unregister_active rid s;
          apps1 = cancel_response_interactions rid (ad_apps gone);
          apps2 = (if sv_apps cfg
            then app_publish (sv_history cfg) rid ''mcp_app.response.closed'' now
              [(''response_id'', JStr rid), (''status'', JStr (response_status_text (rr_status r)))] apps1
            else apps1)
      in release_slot (gone\<lparr>ad_apps := close_response rid apps2,
           ad_finished := (case map_of (ad_finished gone) rid of
               Some a \<Rightarrow> AList.update rid (finish_execution a) (ad_finished gone) | None \<Rightarrow> ad_finished gone)\<rparr>))"

section \<open>Relays to the Manager\<close>

definition relay_create_workspace :: "string \<Rightarrow> string \<Rightarrow> remote_workspace io" where
  "relay_create_workspace wid g = ask (CreateWorkspace wid g) got_workspace"

definition relay_release_workspace :: "string \<Rightarrow> string \<Rightarrow> remote_workspace io" where
  "relay_release_workspace wid g = ask (ReleaseWorkspace wid g) got_workspace"

definition publish_artifact :: "settings \<Rightarrow> nat \<Rightarrow> string \<Rightarrow> string \<Rightarrow> remote_operation io" where
  "publish_artifact cfg fuel rid g =
     ReadState (\<lambda>s. bind_io (lift_result (get_record rid s)) (\<lambda>r.
       guard_io (rr_workspace r \<noteq> None \<and> rr_sandbox r \<noteq> None)
         (ResponseConflict ''The response has no active Workspace.'' ''workspace_unavailable'')
         (bind_io (ask (CreateOperation g) got_operation) (\<lambda>x0. bind_io clock (\<lambda>t.
            bind_io (wait_publish_capture fuel (t + sv_timeout cfg) x0) (\<lambda>x.
              guard_io (ro_operation x = ''publish'' \<and> Some (ro_workspace x) = rr_workspace r \<and> ro_sandbox x = rr_sandbox r)
                (UpstreamProtocol ''Workspace artifact publish binding changed'' JNull) (Done x)))))))"

definition inspect_artifact_operation :: "string \<Rightarrow> remote_operation io" where
  "inspect_artifact_operation oid =
     bind_io (ask (InspectOperation oid) got_operation) (\<lambda>x.
       guard_io (ro_operation x = ''publish'')
         (ResponseConflict ''The operation is not an Artifact publish operation.'' ''response_conflict'') (Done x))"

section \<open>Access of MCP Apps\<close>

definition resolve_url :: "settings \<Rightarrow> string \<Rightarrow> string" where
  "resolve_url cfg iid = public_path cfg (''/v1/mcp-apps/interactions/'' @ iid @ ''/resolve'')"

definition public_interaction :: "settings \<Rightarrow> interaction \<Rightarrow> obj" where
  "public_interaction cfg i = jset ''resolve_url'' (JStr (resolve_url cfg (in_id i))) (interaction_public i)"

definition app_state :: "settings \<Rightarrow> string \<Rightarrow> adapter \<Rightarrow> adapter_error + obj" where
  "app_state cfg rid s =
     rbind (get_record rid s) (\<lambda>_.
       Inr (jset ''interactions'' (JList (map (JObj \<circ> public_interaction cfg)
         (List.map_filter (map_of (ma_interactions (ad_apps s))) (sort (get_or (ma_ids (ad_apps s)) rid [])))))
         (snapshot rid (ad_apps s))))"

definition get_public_interaction :: "settings \<Rightarrow> string \<Rightarrow> adapter \<Rightarrow> adapter_error + obj" where
  "get_public_interaction cfg iid s = rbind (get_interaction iid (ad_apps s)) (\<lambda>i. Inr (public_interaction cfg i))"

definition publish_interaction :: "settings \<Rightarrow> string \<Rightarrow> int \<Rightarrow> string \<Rightarrow> mcp_state \<Rightarrow> mcp_state" where
  "publish_interaction cfg t now iid m =
     (case map_of (ma_interactions m) iid of
        Some i \<Rightarrow> app_publish (sv_history cfg) (in_response i) t now [(''interaction'', JObj (public_interaction cfg i))] m
      | None \<Rightarrow> m)"

definition resolve_public_interaction :: "settings \<Rightarrow> int \<Rightarrow> string \<Rightarrow> resolve_request \<Rightarrow> obj io" where
  "resolve_public_interaction cfg now iid q =
     ReadState (\<lambda>s. bind_io (lift_result (resolve_interaction iid q (ad_apps s))) (\<lambda>m.
       WriteState (on_apps (\<lambda>_. publish_interaction cfg ''mcp_app.elicitation.resolved'' now iid m))
         (ReadState (\<lambda>s. lift_result (get_public_interaction cfg iid s)))))"

definition origin_error :: "string \<Rightarrow> adapter_error" where
  "origin_error m = InvalidRequest m (Some ''origin_call_id'') ''invalid_mcp_app_origin''"

definition validate_mcp_app_access ::
    "response \<Rightarrow> string \<Rightarrow> string option \<Rightarrow> string option \<Rightarrow> string option \<Rightarrow> string option \<Rightarrow> adapter
      \<Rightarrow> adapter_error + app_session" where
  "validate_mcp_app_access r server origin uri connector tool s =
     (case origin of
        Some (c # cs) \<Rightarrow>
          rbind (get_app_session (rr_id r) (c # cs) (ad_apps s)) (\<lambda>a.
            require (as_server a = server) (origin_error ''MCP App call does not belong to this response.'')
            (require (uri = None \<or> uri = Some (as_resource a))
              (InvalidRequest ''MCP App resource URI is outside the AppSession scope.'' (Some ''uri'') ''invalid_mcp_app_resource'')
            (require (case connector of
                 None \<Rightarrow> True
               | Some t \<Rightarrow> jget (get_or (rr_targets r) (c # cs) []) ''connector_id'' = JStr t)
              (InvalidRequest ''MCP App connector is outside the AppSession scope.'' (Some ''connector_id'')
                 ''invalid_mcp_app_connector'')
            (require (case tool of None \<Rightarrow> True | Some t \<Rightarrow> t \<in> set (as_tools a))
              (InvalidRequest ''MCP App tool is outside the AppSession scope.'' (Some ''tool'') ''mcp_app_tool_not_allowed'')
              (Inr a)))))
      | _ \<Rightarrow> Inl (origin_error ''origin_call_id is required for MCP App access.''))"

definition need_sandbox :: "response \<Rightarrow> string io" where
  "need_sandbox r =
     (case rr_sandbox r of Some (c # cs) \<Rightarrow> Done (c # cs) | _ \<Rightarrow> Raise (conflict_unavailable ''The Sandbox is unavailable.''))"

definition need_thread :: "response \<Rightarrow> string io" where
  "need_thread r =
     (case rr_thread r of
        Some (c # cs) \<Rightarrow> Done (c # cs)
      | _ \<Rightarrow> Raise (ResponseConflict ''The Codex thread is unavailable.'' ''mcp_app_thread_unavailable''))"

definition unavailable :: "string \<Rightarrow> adapter_error" where
  "unavailable sid = SandboxUnavailable (''Sandbox '' @ quoted sid @ '' is unavailable'')"

definition renew_available_sandbox :: "response \<Rightarrow> string io" where
  "renew_available_sandbox r =
     bind_io (need_sandbox r) (\<lambda>sid.
       upstream_as (conflict_unavailable ''The Sandbox is unavailable.'')
         (bind_io (ask (InspectSandbox sid) got_sandbox) (\<lambda>sb.
            guard_io (usable sb) (unavailable sid)
              (bind_io (ask (RenewSandbox sid) got_sandbox) (\<lambda>sb.
                 guard_io (usable sb) (unavailable sid) (Done sid))))))"

definition object_reply :: "string \<Rightarrow> json \<Rightarrow> obj io" where
  "object_reply m v = (case v of JObj d \<Rightarrow> Done d | _ \<Rightarrow> Raise (UpstreamProtocol m v))"

definition read_mcp_resource :: "string \<Rightarrow> string \<Rightarrow> string \<Rightarrow> string option \<Rightarrow> string option \<Rightarrow> obj io" where
  "read_mcp_resource rid server uri origin connector =
     ReadState (\<lambda>s. bind_io (lift_result (get_record rid s)) (\<lambda>r.
       bind_io (lift_result (validate_mcp_app_access r server origin (Some uri) connector None s)) (\<lambda>_.
         bind_io (renew_available_sandbox r) (\<lambda>sid.
           bind_io (need_thread r) (\<lambda>thread.
             bind_io (ask (Rpc sid ''mcpServer/resource/read''
                 ([(''threadId'', JStr thread), (''server'', JStr server), (''uri'', JStr uri), (''originCallId'', opt_str origin)]
                  @ (case connector of Some (c # cs) \<Rightarrow> [(''connectorId'', JStr (c # cs))] | _ \<Rightarrow> []))) got_value)
               (object_reply ''Codex app-server returned an invalid MCP resource response''))))))"

record tool_call =
  tc_server :: string
  tc_tool :: string
  tc_origin :: "string option"
  tc_arguments :: json
  tc_meta :: json

definition call_mcp_tool :: "string \<Rightarrow> tool_call \<Rightarrow> obj io" where
  "call_mcp_tool rid q =
     ReadState (\<lambda>s. bind_io (lift_result (get_record rid s)) (\<lambda>r.
       bind_io (lift_result (validate_mcp_app_access r (tc_server q) (tc_origin q) None None (Some (tc_tool q)) s)) (\<lambda>_.
         bind_io (need_thread r) (\<lambda>thread.
           guard_io (tc_arguments q = JNull \<or> as_obj (tc_arguments q) \<noteq> None)
             (InvalidRequest ''MCP tool arguments must be an object.'' (Some ''arguments'') ''invalid_mcp_tool_arguments'')
             (bind_io (renew_available_sandbox r) (\<lambda>sid.
                bind_io (ask (Rpc sid ''mcpServer/tool/call''
                    ([(''threadId'', JStr thread), (''server'', JStr (tc_server q)), (''tool'', JStr (tc_tool q))]
                     @ (if tc_arguments q = JNull then [] else [(''arguments'', tc_arguments q)])
                     @ (if tc_meta q = JNull then [] else [(''_meta'', tc_meta q)]))) got_value)
                  (object_reply ''Codex app-server returned an invalid MCP tool response'')))))))"

end
