(* ===== verification/Adapter_Driver.thy ===== *)
theory Adapter_Driver
  imports Adapter_Operations
begin

text \<open>
  The driver of a running turn, \<open>CodexResponsesService._drive\<close> of
  \<open>src/src/codex_responses_adapter/service.py\<close>, with the requests of the app-server to the user, the lease
  of the Sandbox, the publish callback and the event stream of MCP Apps.

  The builder and the cursor of the execution are in the state of the adapter, where they survive an error:
  after the loss of a stream the driver opens a new one at the cursor. \<open>n\<close> is the fuel of a loop, one
  unit for an event or a lost stream.
\<close>

section \<open>The events of a turn\<close>

record turn =
  tn_cfg :: settings
  tn_dumps :: "json \<Rightarrow> string"
  tn_str :: "json \<Rightarrow> string"
  tn_fresh :: "adapter \<Rightarrow> string"
  tn_response :: string
  tn_sandbox :: string
  tn_thread :: string
  tn_turn :: string
  tn_now :: int
  tn_deadline :: rat

definition builder_of :: "string \<Rightarrow> adapter \<Rightarrow> builder option" where
  "builder_of rid s = map_of (ad_builders s) rid"

definition cursor_of :: "string \<Rightarrow> adapter \<Rightarrow> int" where
  "cursor_of rid s = (case get_active rid s of Some a \<Rightarrow> ax_cursor a | None \<Rightarrow> -1)"

definition lease_error_of :: "string \<Rightarrow> adapter \<Rightarrow> adapter_error option" where
  "lease_error_of rid s = Option.bind (get_active rid s) ax_lease_error"

definition cancel_requested :: "string \<Rightarrow> adapter \<Rightarrow> bool" where
  "cancel_requested rid s \<longleftrightarrow> (case get_active rid s of Some a \<Rightarrow> ax_cancel a | None \<Rightarrow> False)"

definition turn_over :: "string \<Rightarrow> adapter \<Rightarrow> bool" where
  "turn_over rid s \<longleftrightarrow> (case builder_of rid s of Some b \<Rightarrow> bd_terminal b | None \<Rightarrow> True)"

text \<open>A field that names another thread or turn excludes a message; one that is missing does not.\<close>

definition names_other :: "json \<Rightarrow> string \<Rightarrow> bool" where
  "names_other v own \<longleftrightarrow> (case v of JStr t \<Rightarrow> t \<noteq> own | _ \<Rightarrow> False)"

definition belongs_to_execution :: "obj \<Rightarrow> string \<Rightarrow> string \<Rightarrow> bool" where
  "belongs_to_execution message thread turn \<longleftrightarrow>
     (case jget message ''params'' of
        JObj ps \<Rightarrow>
          \<not> names_other (jget ps ''threadId'') thread \<and> \<not> names_other (jget ps ''turnId'') turn
          \<and> (case jget ps ''turn'' of JObj d \<Rightarrow> \<not> names_other (jget d ''id'') turn | _ \<Rightarrow> True)
      | _ \<Rightarrow> True)"

section \<open>Requests of the app-server\<close>

definition rejected_request :: "string \<Rightarrow> obj" where
  "rejected_request m = [(''code'', JInt (-32000)), (''message'', JStr m)]"

definition answer_request :: "turn \<Rightarrow> json \<Rightarrow> json \<Rightarrow> obj option \<Rightarrow> unit io" where
  "answer_request x rid result err = ask (ResolveRequest (tn_sandbox x) rid result err) (\<lambda>a. Some ())"

text \<open>The wait for the user. A timeout expires the interaction, unless it was resolved in the last moment.\<close>

definition await_answer :: "turn \<Rightarrow> string \<Rightarrow> obj io" where
  "await_answer x iid = Await (AwaitAnswer iid) (\<lambda>r. case r of
     Inl e \<Rightarrow> Raise e
   | Inr (FutureDone v) \<Rightarrow> Done v
   | Inr TimedOut \<Rightarrow>
       ReadState (\<lambda>s. bind_io (lift_result (expire_interaction iid (ad_apps s))) (\<lambda>m.
         WriteState (on_apps (\<lambda>_. publish_interaction (tn_cfg x) ''mcp_app.elicitation.expired'' (tn_now x) iid m))
           (Done (case Option.bind (map_of (ma_interactions m) iid) in_result of Some (c # cs) \<Rightarrow> c # cs | _ \<Rightarrow> cancel_result))))
   | Inr _ \<Rightarrow> Raise Unexpected)"

definition handle_server_request :: "turn \<Rightarrow> bool \<Rightarrow> string \<Rightarrow> obj \<Rightarrow> obj io" where
  "handle_server_request x streamed m params =
     guard_io (sv_apps (tn_cfg x)) (UpstreamProtocol ''MCP Apps support is disabled'' JNull)
       (guard_io (m = elicitation_method) (UpstreamProtocol (''Unsupported interactive app-server request: '' @ m) JNull)
         (if \<not> streamed then Done cancel_result
          else ReadState (\<lambda>s. (let iid = tn_fresh x s
            in WriteState (on_apps (\<lambda>a. publish_interaction (tn_cfg x) ''mcp_app.elicitation.requested'' (tn_now x) iid
                  (create_interaction iid (tn_response x) m params (tn_now x) a)))
                 (await_answer x iid)))))"

definition handle_agent_request :: "turn \<Rightarrow> obj \<Rightarrow> unit io" where
  "handle_agent_request x data =
     (let rid = jget data ''request_id''
      in case jget data ''method'' of
           JStr m \<Rightarrow>
             if as_str rid = None \<and> as_pyint rid = None
             then Raise (UpstreamProtocol ''Sandbox worker emitted an invalid server request'' (JObj data))
             else (let ps = (case jget data ''params'' of JObj d \<Rightarrow> d | _ \<Rightarrow> [])
               in if \<not> belongs_to_execution [(''params'', JObj ps)] (tn_thread x) (tn_turn x)
                  then answer_request x rid JNull
                    (Some (rejected_request ''Interactive request does not belong to the active turn''))
                  else bind_io
                    (catch_io
                       (ReadState (\<lambda>s. bind_io (handle_server_request x
                            (case builder_of (tn_response x) s of Some b \<Rightarrow> rr_stream (bd_record b) | None \<Rightarrow> False) m ps)
                            (\<lambda>v. Done (JObj v, None))))
                       (\<lambda>e. if is_exception e then Done (JNull, Some (rejected_request (safe_error_message e))) else Raise e))
                    (\<lambda>(v, err). answer_request x rid v err))
         | _ \<Rightarrow> Raise (UpstreamProtocol ''Sandbox worker emitted an invalid server request'' (JObj data)))"

section \<open>One event\<close>

definition consume_notification :: "turn \<Rightarrow> obj \<Rightarrow> unit io" where
  "consume_notification x message =
     (if \<not> belongs_to_execution message (tn_thread x) (tn_turn x) then Done ()
      else ReadState (\<lambda>s. case builder_of (tn_response x) s of
          None \<Rightarrow> Raise Unexpected
        | Some b \<Rightarrow>
            (case consume (tn_dumps x) message b of
               None \<Rightarrow> Raise Unexpected
             | Some (es, b1) \<Rightarrow>
                 WriteState (share (tn_response x) b1)
                   (bind_io (publish_response_events (tn_cfg x) (tn_now x) (tn_response x) (tn_sandbox x) (tn_thread x) es b1) (\<lambda>_. Done ())))))"

definition gap_error :: adapter_error where
  "gap_error = TerminalExecution ''Sandbox worker event history has a gap''"

definition move_to :: "turn \<Rightarrow> int \<Rightarrow> adapter \<Rightarrow> adapter" where
  "move_to x i = on_execution (tn_response x) (\<lambda>a. a\<lparr>ax_cursor := i\<rparr>)"

definition drive_event :: "turn \<Rightarrow> agent_event \<Rightarrow> unit io" where
  "drive_event x e =
     (case e of (i, t, data) \<Rightarrow>
       ReadState (\<lambda>s.
         (case lease_error_of (tn_response x) s of
            Some err \<Rightarrow> Raise err
          | None \<Rightarrow>
              if cursor_of (tn_response x) s + 1 < i then Raise gap_error
              else bind_io
                (case t of
                   ServerRequest \<Rightarrow> handle_agent_request x data
                 | SessionFailed \<Rightarrow>
                     Raise (TerminalExecution (str_or (tn_str x) (jget data ''message'') ''Sandbox worker session failed''))
                 | Notification \<Rightarrow> consume_notification x data)
                (\<lambda>_. WriteState (move_to x i) (Done ())))))"

section \<open>The loop\<close>

definition next_event :: "turn \<Rightarrow> agent_event io" where
  "next_event x = Await (AwaitEvent (tn_sandbox x)) (\<lambda>r. case r of
     Inl e \<Rightarrow> Raise e
   | Inr (NextEvent None) \<Rightarrow> Raise (UpstreamProtocol ''Sandbox Worker event stream ended before the turn completed'' JNull)
   | Inr (NextEvent (Some e)) \<Rightarrow> Done e
   | Inr _ \<Rightarrow> Raise Unexpected)"

text \<open>\<open>except UpstreamProtocolError\<close>: the driver connects again while that makes sense.\<close>

definition reconnectable :: "adapter_error \<Rightarrow> bool" where
  "reconnectable e \<longleftrightarrow> (case e of UpstreamProtocol m d \<Rightarrow> True | SandboxUnavailable m \<Rightarrow> True | _ \<Rightarrow> False)"

definition reconnect :: "turn \<Rightarrow> adapter_error \<Rightarrow> unit io" where
  "reconnect x e =
     ReadState (\<lambda>s. case lease_error_of (tn_response x) s of
         Some err \<Rightarrow> Raise err
       | None \<Rightarrow>
           bind_io clock (\<lambda>t. ReadState (\<lambda>s.
             guard_io (\<not> cancel_requested (tn_response x) s \<and> t < tn_deadline x) e
               (bind_io (ask (InspectSandbox (tn_sandbox x)) got_sandbox) (\<lambda>sb.
                  guard_io (usable sb) e
                    (bind_io (ask (RenewSandbox (tn_sandbox x)) got_sandbox) (\<lambda>_. pause (AwaitSleep (5 / 100)))))))))"

text \<open>\<open>opened\<close> tells whether a stream is open; the end of an event tells whether it went well.\<close>

fun drive_loop :: "nat \<Rightarrow> turn \<Rightarrow> bool \<Rightarrow> unit io" where
  "drive_loop 0 x opened = Stuck"
| "drive_loop (Suc n) x opened =
     ReadState (\<lambda>s. if turn_over (tn_response x) s then Done ()
       else bind_io
         (catch_io
           (bind_io (if opened then Done () else pause (AwaitOpen (tn_sandbox x) (cursor_of (tn_response x) s))) (\<lambda>_.
              bind_io (next_event x) (\<lambda>e. bind_io (drive_event x e) (\<lambda>_. Done True))))
           (\<lambda>e. if reconnectable e then bind_io (reconnect x e) (\<lambda>_. Done False) else Raise e))
         (drive_loop n x))"

section \<open>The end of the turn\<close>

text \<open>The callback is tried three times; an error of HTTP is only logged.\<close>

definition callback_body :: "response \<Rightarrow> string \<Rightarrow> obj" where
  "callback_body r g =
     [(''response_id'', JStr (rr_id r)), (''status'', JStr (response_status_text (rr_status r))),
      (''output_text'', JStr (rr_text r)), (''grant'', JStr g)]"

function callback :: "nat \<Rightarrow> obj \<Rightarrow> unit io" where
  "callback attempt body =
     catch_io (pause (AwaitCallback body))
       (\<lambda>e. if \<not> is_upstream e then Raise e
            else if 2 \<le> attempt then Done ()
            else bind_io (pause (AwaitSleep (25 / 100 * 2 ^ attempt))) (\<lambda>_. callback (attempt + 1) body))"
  by pat_completeness auto

termination callback
  by (relation "measure (\<lambda>(n, b). 2 - n)") auto

declare callback.simps [simp del]

definition notify_terminal :: "settings \<Rightarrow> string option \<Rightarrow> response \<Rightarrow> unit io" where
  "notify_terminal cfg g r =
     (case (g, sv_callback cfg) of
        (Some t, Some url) \<Rightarrow> callback 0 (callback_body r t)
      | _ \<Rightarrow> Done ())"

text \<open>A deadline becomes the error of a timeout; the turn is interrupted.\<close>

definition interrupt_turn :: "turn \<Rightarrow> unit io" where
  "interrupt_turn x = suppress (bind_io (ask (Rpc (tn_sandbox x) ''turn/interrupt''
     [(''threadId'', JStr (tn_thread x)), (''turnId'', JStr (tn_turn x))]) got_value) (\<lambda>_. Done ()))"

definition fail_turn :: "turn \<Rightarrow> adapter_error \<Rightarrow> unit io" where
  "fail_turn x e =
     (let e' = (if e = DeadlineReached then UpstreamProtocol ''Agent execution timed out'' JNull else e)
      in bind_io (if e = DeadlineReached then interrupt_turn x else Done ()) (\<lambda>_.
           WriteState (on_execution (tn_response x) (\<lambda>a. a\<lparr>ax_driver_error := Some e'\<rparr>))
             (ReadState (\<lambda>s. case builder_of (tn_response x) s of
                 None \<Rightarrow> Raise Unexpected
               | Some b \<Rightarrow>
                   (case (if cancel_requested (tn_response x) s then incomplete ''cancelled'' else fail (safe_error_message e')) b of
                      None \<Rightarrow> Raise Unexpected
                    | Some (es, b1) \<Rightarrow>
                        WriteState (share (tn_response x) b1)
                          (bind_io (publish_response_events (tn_cfg x) (tn_now x) (tn_response x) (tn_sandbox x) (tn_thread x) es b1)
                             (\<lambda>_. Done ())))))))"

definition finally_io :: "'a io \<Rightarrow> unit io \<Rightarrow> 'a io" where
  "finally_io p q = bind_io (catch_io (bind_io p (\<lambda>a. Done (Inr a))) (\<lambda>e. Done (Inl e)))
     (\<lambda>r. bind_io q (\<lambda>_. lift_result r))"

definition end_turn_io :: "turn \<Rightarrow> string option \<Rightarrow> unit io" where
  "end_turn_io x g =
     ReadState (\<lambda>s. case builder_of (tn_response x) s of
         None \<Rightarrow> Raise Unexpected
       | Some b \<Rightarrow>
           bind_io (notify_terminal (tn_cfg x) g (bd_record b)) (\<lambda>_.
             ReadState (\<lambda>s. case builder_of (tn_response x) s of
                 None \<Rightarrow> Raise Unexpected
               | Some b \<Rightarrow> WriteState (cleanup (tn_cfg x) (tn_now x) (bd_record b)) (Done ()))))"

definition drive :: "nat \<Rightarrow> turn \<Rightarrow> string option \<Rightarrow> unit io" where
  "drive n x g =
     finally_io
       (catch_io (drive_loop n x False) (\<lambda>e. if e = TaskCancelled then Raise e else fail_turn x e))
       (end_turn_io x g)"

section \<open>The lease and the stream of MCP Apps\<close>

fun maintain_sandbox_lease :: "nat \<Rightarrow> turn \<Rightarrow> rat \<Rightarrow> unit io" where
  "maintain_sandbox_lease 0 x interval = Stuck"
| "maintain_sandbox_lease (Suc n) x interval =
     bind_io
       (catch_io
         (bind_io (pause (AwaitSleep interval)) (\<lambda>_.
            bind_io (ask (RenewSandbox (tn_sandbox x)) got_sandbox) (\<lambda>sb.
              guard_io (usable sb) (unavailable (tn_sandbox x)) (Done True))))
         (\<lambda>e. if is_exception e
              then WriteState (on_execution (tn_response x) (\<lambda>a. a\<lparr>ax_lease_error := Some e\<rparr>)) (Done False) else Raise e))
       (\<lambda>ok. if ok then maintain_sandbox_lease n x interval else Done ())"

end
