(* ===== verification/Adapter_Safety.thy ===== *)
theory Adapter_Safety
  imports Adapter_Operations
begin

text \<open>
  What the operations of the adapter promise whatever the Manager and the Workers answer: a failed start
  leaves nothing behind, and an MCP App reaches only the server, the resource and the tools of its own
  session.
\<close>

section \<open>Programs that leave the state alone\<close>

definition creates :: "await \<Rightarrow> bool" where
  "creates c \<longleftrightarrow> (case c of AwaitCall (CreateSandbox g) \<Rightarrow> True | _ \<Rightarrow> False)"

primrec quiet :: "'a io \<Rightarrow> bool" where
  "quiet (Done a) = True"
| "quiet (Raise e) = True"
| "quiet Stuck = True"
| "quiet (Await c k) = (\<not> creates c \<and> (\<forall>r. quiet (k r)))"
| "quiet (ReadState k) = (\<forall>s. quiet (k s))"
| "quiet (WriteState g p) = False"

definition alone :: "world list \<Rightarrow> bool" where
  "alone w \<longleftrightarrow> list_all (\<lambda>x. \<forall>s. wd_others x s = s) w"

lemma alone_Cons: "alone (x # xs) \<longleftrightarrow> (\<forall>s. wd_others x s = s) \<and> alone xs"
  by (simp add: alone_def)

lemma alone_drop: "alone w \<Longrightarrow> alone (drop n w)"
  by (auto simp: alone_def list_all_iff dest: in_set_dropD)

lemma quiet_run: "quiet p \<Longrightarrow> alone w \<Longrightarrow> run p w s = (cs, r, t) \<Longrightarrow> t = s \<and> list_all (\<lambda>c. \<not> creates c) cs"
proof (induction p arbitrary: w s cs)
  case (Await c k)
  show ?case
  proof (cases w)
    case (Cons x xs)
    obtain cs' r' t' where k: "run (k (wd_reply x)) xs (wd_others x s) = (cs', r', t')" by (cases "run (k (wd_reply x)) xs (wd_others x s)")
    then show ?thesis using Await.IH [OF rangeI, of "wd_reply x" xs "wd_others x s" cs'] Await.prems Cons by (auto simp: alone_Cons)
  qed (use Await.prems in auto)
next
  case (ReadState k)
  then show ?case using ReadState.IH [OF rangeI, of s] by simp
qed auto

lemma quiet_bind: "quiet p \<Longrightarrow> (\<And>a. quiet (f a)) \<Longrightarrow> quiet (bind_io p f)"
  by (induction p) auto

lemma quiet_catch: "quiet p \<Longrightarrow> (\<And>e. quiet (h e)) \<Longrightarrow> quiet (catch_io p h)"
  by (induction p) auto

lemma quiet_leaf:
  "quiet (lift_result r)" "\<not> creates (AwaitCall c) \<Longrightarrow> quiet (ask c f)" "quiet clock"
  "\<not> creates a \<Longrightarrow> quiet (pause a)" "(ok \<Longrightarrow> quiet p) \<Longrightarrow> quiet (guard_io ok e p)" "quiet p \<Longrightarrow> quiet (upstream_as e p)"
  by (auto simp: lift_result_def ask_def clock_def pause_def guard_io_def upstream_as_def creates_def intro!: quiet_catch
      split: sum.split option.split world_reply.split)

lemmas quiet_intros = quiet_bind quiet_catch quiet_leaf

lemma creates_simps [simp]:
  "creates (AwaitCall (CreateSandbox og))" "\<not> creates (AwaitSleep d)" "\<not> creates AwaitClock" "\<not> creates AwaitSlot"
  "\<not> creates (AwaitCall (InspectSandbox i))" "\<not> creates (AwaitCall (RenewSandbox i))" "\<not> creates (AwaitCall (Rpc i m ps))"
  "\<not> creates (AwaitCall (EventCursor i))" "\<not> creates (AwaitCall (TerminateSandbox i))"
  "\<not> creates (AwaitCall (AuthorizeWorkspace i g))" "\<not> creates (AwaitCall (CreateOperation g))"
  "\<not> creates (AwaitCall (InspectOperation i))"
  by (simp_all add: creates_def)

lemma quiet_wait: "quiet (wait_operation n d x)"
  by (induction n arbitrary: x) (auto intro!: quiet_intros)

lemma quiet_checkout: "quiet (run_checkout_operation cfg fuel sb g)"
  by (auto simp: run_checkout_operation_def intro!: quiet_intros quiet_wait split: option.split list.split)

lemma quiet_thread: "quiet (start_or_continue_thread cfg sid q m p)"
  by (auto simp: start_or_continue_thread_def Let_def intro!: quiet_intros split: option.split)

lemma quiet_turn: "quiet (start_turn_in cfg fuel q pl sb)"
  by (auto simp: start_turn_in_def sandbox_attached_def start_turn_def intro!: quiet_intros quiet_checkout quiet_thread
      split: option.split)

lemma quiet_previous: "quiet (previous_sandbox p g)"
  by (auto simp: previous_sandbox_def authorize_previous_def renew_previous_def intro!: quiet_intros split: option.split list.split)

section \<open>A failed start leaves nothing behind\<close>

text \<open>An await of the run with the answer of the world to it.\<close>

fun answered :: "(await \<Rightarrow> adapter_error + world_reply \<Rightarrow> bool) \<Rightarrow> await list \<Rightarrow> world list \<Rightarrow> bool" where
  "answered P (c # cs) (x # xs) = (P c (wd_reply x) \<or> answered P cs xs)"
| "answered P _ _ = False"

definition sandbox_created :: "remote_sandbox \<Rightarrow> await list \<Rightarrow> world list \<Rightarrow> bool" where
  "sandbox_created sb = answered (\<lambda>c r. creates c \<and> r = Inr (FromClient (GotSandbox sb)))"

fun terminates :: "await \<Rightarrow> bool" where
  "terminates (AwaitCall (TerminateSandbox i)) = True"
| "terminates _ = False"

definition cancelled_in_undo :: "await list \<Rightarrow> world list \<Rightarrow> bool" where
  "cancelled_in_undo = answered (\<lambda>c r. terminates c \<and> (case r of Inl e \<Rightarrow> \<not> is_exception e | Inr x \<Rightarrow> False))"

lemma answered_append:
  "length cs \<le> length w \<Longrightarrow> answered P (cs @ cs') w \<longleftrightarrow> answered P cs w \<or> answered P cs' (drop (length cs) w)"
proof (induction cs arbitrary: w)
  case (Cons c cs)
  then show ?case by (cases w) auto
qed simp

lemma not_answered: "list_all (\<lambda>c. \<forall>r. \<not> P c r) cs \<Longrightarrow> \<not> answered P cs w"
  by (induction P cs w rule: answered.induct) auto

definition planned :: "settings \<Rightarrow> (json \<Rightarrow> string) \<Rightarrow> fresh \<Rightarrow> create_request \<Rightarrow> (start_plan \<times> remote_sandbox \<times> string option) io" where
  "planned cfg repr fr q = ReadState (\<lambda>s. bind_io (lift_result (plan_start cfg repr fr q s)) (\<lambda>pl.
     bind_io (obtain_sandbox pl) (\<lambda>x. Done (pl, x))))"

lemma not_created: "list_all (\<lambda>c. \<not> creates c) cs \<Longrightarrow> \<not> sandbox_created sb cs w"
  unfolding sandbox_created_def by (rule not_answered) (simp add: list_all_iff)

lemma lift_result_simps [simp]: "lift_result (Inl e) = Raise e" "lift_result (Inr a) = Done a"
  by (simp_all add: lift_result_def)

lemma ask_run:
  "run (ask c f) w s =
     (case w of
        [] \<Rightarrow> ([AwaitCall c], None, s)
      | x # xs \<Rightarrow> ([AwaitCall c], Some (case wd_reply x of Inl e \<Rightarrow> Inl e
          | Inr (FromClient a) \<Rightarrow> (case f a of Some y \<Rightarrow> Inr y | None \<Rightarrow> Inl Unexpected) | Inr _ \<Rightarrow> Inl Unexpected), wd_others x s))"
  by (cases w) (auto simp: ask_def split: sum.split world_reply.split option.split)

lemma got_sandbox_Some: "got_sandbox a = Some sb \<longleftrightarrow> a = GotSandbox sb"
  by (cases a) auto

lemma planned_run:
  assumes "run (planned cfg repr fr q) w s = (cs, r, t)" and "alone w"
  shows "t = s"
    and "r = Some (Inl e) \<Longrightarrow> \<not> sandbox_created sb cs w"
    and "r = Some (Inr (pl, sb', created)) \<Longrightarrow> sandbox_created sb cs w \<longleftrightarrow> created = Some (rs_id sb') \<and> sb = sb'"
    and "r = Some (Inr (pl, sb', created)) \<Longrightarrow> created \<in> {None, Some (rs_id sb')}"
proof -
  have "t = s \<and> (\<forall>e. r = Some (Inl e) \<longrightarrow> \<not> sandbox_created sb cs w)
      \<and> (\<forall>pl sb' created. r = Some (Inr (pl, sb', created)) \<longrightarrow>
           (sandbox_created sb cs w \<longleftrightarrow> created = Some (rs_id sb') \<and> sb = sb') \<and> created \<in> {None, Some (rs_id sb')})"
  proof (cases "plan_start cfg repr fr q s")
    case (Inl e)
    then show ?thesis using assms(1) by (auto simp: planned_def sandbox_created_def)
  next
    case (Inr pl)
    show ?thesis
    proof (cases "sp_previous pl")
      case None
      show ?thesis
      proof (cases w)
        case Nil
        then show ?thesis using assms(1) Inr None
          by (simp add: planned_def obtain_sandbox_def run_bind ask_run)
      next
        case (Cons x xs)
        have x: "wd_others x s = s" using assms(2) Cons by (simp add: alone_Cons)
        have "(cs, r, t) = ([AwaitCall (CreateSandbox (wx_grant (sp_context pl)))], Some (case wd_reply x of Inl e \<Rightarrow> Inl e
            | Inr (FromClient a) \<Rightarrow> (case got_sandbox a of Some y \<Rightarrow> Inr (pl, y, Some (rs_id y)) | None \<Rightarrow> Inl Unexpected)
            | Inr _ \<Rightarrow> Inl Unexpected), s)"
          using assms(1) Inr None Cons x
          by (auto simp: planned_def obtain_sandbox_def run_bind ask_run split: sum.splits world_reply.splits option.splits)
        then show ?thesis using Cons
          by (cases "wd_reply x") (auto simp: sandbox_created_def got_sandbox_Some split: world_reply.splits option.splits)
      qed
    next
      case (Some p)
      let ?p = "previous_sandbox p (wx_grant (sp_context pl))"
      obtain cs' r' t' where p: "run ?p w s = (cs', r', t')" by (cases "run ?p w s")
      from quiet_run [OF quiet_previous assms(2) p] have quiet: "t' = s" "list_all (\<lambda>c. \<not> creates c) cs'" by simp_all
      show ?thesis using assms(1) Inr Some p quiet not_created [OF quiet(2)]
        by (auto simp: planned_def obtain_sandbox_def run_bind split: option.splits sum.splits)
    qed
  qed
  then show "t = s" "r = Some (Inl e) \<Longrightarrow> \<not> sandbox_created sb cs w"
      "r = Some (Inr (pl, sb', created)) \<Longrightarrow> sandbox_created sb cs w \<longleftrightarrow> created = Some (rs_id sb') \<and> sb = sb'"
      "r = Some (Inr (pl, sb', created)) \<Longrightarrow> created \<in> {None, Some (rs_id sb')}"
    by blast+
qed

text \<open>The end of the handler: the Sandbox is terminated, the place is free again.\<close>

lemma undo_run:
  assumes "run (undo_start created e) w s = (cs, r, t)" and "alone w"
  shows "(case created of None \<Rightarrow> cs = [] | Some sid \<Rightarrow> cs = [AwaitCall (TerminateSandbox sid)])
    \<and> (\<forall>x. r \<noteq> Some (Inr x)) \<and> (r \<noteq> None \<longrightarrow> t = release_slot s \<or> t = s \<and> cancelled_in_undo cs w)"
proof (cases created)
  case None
  then show ?thesis using assms(1) by (auto simp: undo_start_def)
next
  case (Some sid)
  show ?thesis
  proof (cases w)
    case Nil
    then show ?thesis using assms Some by (auto simp: undo_start_def suppress_def ask_def)
  next
    case (Cons x xs)
    then show ?thesis using assms Some
      by (auto simp: undo_start_def suppress_def run_bind run_catch ask_run alone_Cons cancelled_in_undo_def is_exception_def
          split: sum.splits world_reply.splits option.splits if_splits)
  qed
qed

lemma initial_no_sides:
  assumes "initial_events b = Some (es, b')"
  shows "list_all (\<lambda>e. mcp_app_side_event e = None) es"
proof -
  have "list_all (\<lambda>e. mcp_app_side_event e = None) fs" if "emit_response t c = Some (fs, c')" for t c c' fs
    using that by (auto simp: emit_response_def emit_def event_payload_def mcp_app_side_event_def bind_eq_Some_conv)
  then show ?thesis using assms by (auto simp: initial_events_def then_step_def bind_eq_Some_conv)
qed

lemma bind_no_sides: "list_all (\<lambda>e. mcp_app_side_event e = None) es \<Longrightarrow> bind_events rid sid thread es b = Done (es, [], b)"
  by (induction es) simp_all

lemma initial_events_new: "initial_events (new_builder r) \<noteq> None" if "\<not> rr_started r"
  using that by (simp add: initial_events_def then_step_def emit_response_def emit_def new_builder_def to_response_def
      sync_message_def Option.bind_def split: option.split)

text \<open>A start that gets so far does not fail any more, and the response is registered.\<close>

lemma register_run:
  assumes "\<not> rr_started (sp_record pl)"
    and "run (register_start cfg fr subscribed pl sb ids) w s = (cs, r, t)"
  shows "cs = [] \<and> (\<exists>p. r = Some (Inr p)) \<and> get_active (rr_id (sp_record pl)) t \<noteq> None
    \<and> \<not> isl (get_record (rr_id (sp_record pl)) t) \<and> ad_permits t = ad_permits s"
proof -
  obtain thread turn cursor where ids: "ids = (thread, turn, cursor)" by (cases ids)
  let ?r = "started_record sb thread turn (sp_record pl)"
  have started: "\<not> rr_started ?r" "rr_id ?r = rr_id (sp_record pl)" using assms(1) by (simp_all add: started_record_def)
  obtain es b where b: "initial_events (new_builder ?r) = Some (es, b)" using initial_events_new [OF started(1)] by auto
  have none: "list_all (\<lambda>e. mcp_app_side_event e = None) es" by (rule initial_no_sides [OF b])
  show ?thesis using assms(2) b started(2)
    by (auto simp: ids register_start_def publish_response_events_def Let_def bind_no_sides [OF none] register_active_def put_record_def
        share_def Let_def get_record_def on_execution_def on_apps_def publish_sides_def get_active_def new_execution_def subscribe_def put_queue_def
        update_conv' split: option.splits if_splits)
qed

lemma planned_fresh:
  assumes "run (planned cfg repr fr q) w s = (cs, Some (Inr (pl, sb, created)), t)"
  shows "\<not> rr_started (sp_record pl)" and "rr_id (sp_record pl) = fr_response fr"
proof -
  obtain pl' where pl': "plan_start cfg repr fr q s = Inr pl'"
    using assms by (cases "plan_start cfg repr fr q s") (simp_all add: planned_def)
  have "pl = pl'" using assms pl' by (auto simp: planned_def run_bind split: prod.splits option.splits sum.splits)
  moreover have "\<not> rr_started (sp_record pl') \<and> rr_id (sp_record pl') = fr_response fr"
  proof (cases "cq_previous q")
    case None
    then show ?thesis using pl' by (auto simp: plan_start_def Let_def result_iffs create_response_def)
  next
    case (Some i)
    then show ?thesis using pl' by (cases i) (auto simp: plan_start_def Let_def result_iffs create_response_def)
  qed
  ultimately show "\<not> rr_started (sp_record pl)" "rr_id (sp_record pl) = fr_response fr" by simp_all
qed

definition second_part ::
    "settings \<Rightarrow> nat \<Rightarrow> fresh \<Rightarrow> create_request \<Rightarrow> bool \<Rightarrow> start_plan \<times> remote_sandbox \<times> string option \<Rightarrow> prepared io" where
  "second_part cfg fuel fr q subscribed x =
     (case x of (pl, sb, created) \<Rightarrow>
       catch_io (bind_io (start_turn_in cfg fuel q pl sb) (register_start cfg fr subscribed pl sb)) (undo_start created))"

definition registered :: "string \<Rightarrow> adapter \<Rightarrow> bool" where
  "registered rid s \<longleftrightarrow> get_active rid s \<noteq> None \<and> \<not> isl (get_record rid s)"

lemma second_part_run:
  assumes "run (second_part cfg fuel fr q subscribed (pl, sb, created)) w s = (cs, Some r, t)" and "alone w"
    and "\<not> rr_started (sp_record pl)"
  shows "list_all (\<lambda>c. \<not> creates c) cs
    \<and> (case r of
         Inl e \<Rightarrow> (case created of None \<Rightarrow> True | Some sid \<Rightarrow> AwaitCall (TerminateSandbox sid) \<in> set cs)
           \<and> (t = release_slot s \<or> t = s \<and> cancelled_in_undo cs w)
       | Inr p \<Rightarrow> registered (rr_id (sp_record pl)) t \<and> ad_permits t = ad_permits s)"
proof -
  obtain cs1 r1 t1 where first: "run (start_turn_in cfg fuel q pl sb) w s = (cs1, r1, t1)"
    by (cases "run (start_turn_in cfg fuel q pl sb) w s")
  from quiet_run [OF quiet_turn assms(2) first] have quiet: "t1 = s" "list_all (\<lambda>c. \<not> creates c) cs1" by simp_all
  show ?thesis
  proof (cases r1)
    case None
    then show ?thesis using assms(1) first by (simp add: second_part_def run_catch run_bind)
  next
    case (Some x)
    show ?thesis
    proof (cases x)
      case (Inr ids)
      obtain cs2 r2 t2 where reg: "run (register_start cfg fr subscribed pl sb ids) (drop (length cs1) w) s = (cs2, r2, t2)"
        by (cases "run (register_start cfg fr subscribed pl sb ids) (drop (length cs1) w) s")
      from register_run [OF assms(3) reg] obtain p where "cs2 = []" "r2 = Some (Inr p)"
          "registered (rr_id (sp_record pl)) t2" "ad_permits t2 = ad_permits s"
        by (auto simp: registered_def)
      then show ?thesis using assms(1) first Some Inr reg quiet by (auto simp: second_part_def run_catch run_bind)
    next
      case (Inl e)
      obtain cs2 r2 t2 where undo: "run (undo_start created e :: prepared io) (drop (length cs1) w) s = (cs2, r2, t2)"
        by (cases "run (undo_start created e :: prepared io) (drop (length cs1) w) s")
      have run: "cs = cs1 @ cs2" "Some r = r2" "t = t2"
        using assms(1) first Some Inl undo quiet(1) by (simp_all add: second_part_def run_catch run_bind)
      from undo_run [OF undo alone_drop [OF assms(2)]]
      have u: "case created of None \<Rightarrow> cs2 = [] | Some sid \<Rightarrow> cs2 = [AwaitCall (TerminateSandbox sid)]"
          "\<forall>x. r2 \<noteq> Some (Inr x)" "r2 \<noteq> None \<longrightarrow> t2 = release_slot s \<or> t2 = s \<and> cancelled_in_undo cs2 (drop (length cs1) w)"
        by simp_all
      have "length cs1 \<le> length w" using run_length [OF first [unfolded Some]] .
      then have "cancelled_in_undo cs w" if "cancelled_in_undo cs2 (drop (length cs1) w)"
        using that unfolding run(1) cancelled_in_undo_def by (simp add: answered_append)
      moreover have "list_all (\<lambda>c. \<not> creates c) cs2" using u(1) by (cases created) simp_all
      moreover obtain e' where "r = Inl e'" using u(2) run(2) by (cases r) auto
      ultimately show ?thesis using run u(1,3) quiet(2) by (auto split: option.splits)
    qed
  qed
qed

lemma start_response_parts:
  assumes "validate_request q = None"
  shows "start_response cfg repr fuel fr q subscribed =
    bind_io (pause AwaitSlot) (\<lambda>_. WriteState take_slot
      (bind_io (catch_io (planned cfg repr fr q) (undo_start None)) (second_part cfg fuel fr q subscribed)))"
proof -
  have "second_part cfg fuel fr q subscribed = (\<lambda>(pl, sb, created).
      catch_io (bind_io (start_turn_in cfg fuel q pl sb) (register_start cfg fr subscribed pl sb)) (undo_start created))"
    by (rule ext) (simp add: second_part_def)
  with assms show ?thesis by (simp add: start_response_def planned_def)
qed

lemma body_run:
  assumes "run (bind_io (catch_io (planned cfg repr fr q) (undo_start None)) (second_part cfg fuel fr q subscribed)) w s
      = (cs, Some r, t)" and "alone w"
  shows "case r of
      Inl e \<Rightarrow> (sandbox_created sb cs w \<longrightarrow> AwaitCall (TerminateSandbox (rs_id sb)) \<in> set cs)
        \<and> (t = release_slot s \<or> t = s \<and> cancelled_in_undo cs w)
    | Inr p \<Rightarrow> registered (fr_response fr) t \<and> ad_permits t = ad_permits s"
proof -
  obtain cs1 r1 t1 where first: "run (planned cfg repr fr q) w s = (cs1, r1, t1)" by (cases "run (planned cfg repr fr q) w s")
  note plan = planned_run [OF first assms(2)]
  show ?thesis
  proof (cases r1)
    case None
    then show ?thesis using assms(1) first by (simp add: run_catch run_bind)
  next
    case (Some x)
    show ?thesis
    proof (cases x)
      case (Inl e)
      then show ?thesis using assms(1) first Some plan(1) plan(2) [of e sb]
        by (auto simp: run_catch run_bind undo_start_def)
    next
      case (Inr y)
      obtain pl sb' created where y: "y = (pl, sb', created)" by (cases y)
      note plan' = plan(3) [of pl sb' created sb] plan(4) [of pl sb' created]
      obtain cs2 r2 t2 where second: "run (second_part cfg fuel fr q subscribed (pl, sb', created)) (drop (length cs1) w) s = (cs2, r2, t2)"
        by (cases "run (second_part cfg fuel fr q subscribed (pl, sb', created)) (drop (length cs1) w) s")
      have run: "cs = cs1 @ cs2" "r2 = Some r" "t = t2"
        using assms(1) first Some Inr y plan(1) second by (simp_all add: run_catch run_bind)
      have len: "length cs1 \<le> length w" using run_length [OF first [unfolded Some]] .
      have "run (planned cfg repr fr q) w s = (cs1, Some (Inr (pl, sb', created)), t1)" using first Some Inr y by simp
      note fresh = planned_fresh [OF this]
      from second_part_run [OF second [unfolded run(2)] alone_drop [OF assms(2)] fresh(1)]
      have part: "list_all (\<lambda>c. \<not> creates c) cs2"
        "case r of
           Inl e \<Rightarrow> (case created of None \<Rightarrow> True | Some sid \<Rightarrow> AwaitCall (TerminateSandbox sid) \<in> set cs2)
             \<and> (t2 = release_slot s \<or> t2 = s \<and> cancelled_in_undo cs2 (drop (length cs1) w))
         | Inr p \<Rightarrow> registered (rr_id (sp_record pl)) t2 \<and> ad_permits t2 = ad_permits s"
        by simp_all
      have created: "sandbox_created sb cs w \<longleftrightarrow> created = Some (rs_id sb') \<and> sb = sb'"
        using len not_created [OF part(1)] plan' Some Inr y unfolding run(1) sandbox_created_def
        by (simp add: answered_append)
      have "cancelled_in_undo cs w" if "cancelled_in_undo cs2 (drop (length cs1) w)"
        using that len unfolding run(1) cancelled_in_undo_def by (simp add: answered_append)
      then show ?thesis using part(2) created run fresh(2) by (cases r) (auto split: option.splits)
    qed
  qed
qed

text \<open>
  C29. What a start leaves behind: whatever the Manager and the Worker answer and wherever
  it fails, the termination of the Sandbox that was created for it is requested, and the state of the adapter is what it was
  before, the place of the semaphore included, with one exception: when the task is cancelled once more while
  it waits for the termination, the place of the semaphore stays taken for good. A start that succeeds holds
  one place and has registered its response.
\<close>

theorem failed_start_leaves_nothing:
  assumes "run (start_response cfg repr fuel fr q subscribed) w s = (cs, Some r, t)" and "alone w" and "0 < ad_permits s"
  shows "case r of
      Inl e \<Rightarrow> (sandbox_created sb cs w \<longrightarrow> AwaitCall (TerminateSandbox (rs_id sb)) \<in> set cs)
        \<and> (t = s \<or> t = take_slot s \<and> cancelled_in_undo cs w)
    | Inr p \<Rightarrow> registered (fr_response fr) t \<and> ad_permits t + 1 = ad_permits s"
proof (cases "validate_request q")
  case (Some e)
  then show ?thesis using assms(1) by (auto simp: start_response_def sandbox_created_def)
next
  case None
  let ?body = "bind_io (catch_io (planned cfg repr fr q) (undo_start None)) (second_part cfg fuel fr q subscribed)"
  have slots: "release_slot (take_slot s) = s" "ad_permits (take_slot s) + 1 = ad_permits s"
    using assms(3) by (simp_all add: release_slot_def take_slot_def)
  show ?thesis
  proof (cases w)
    case Nil
    then show ?thesis using assms(1) by (simp add: start_response_parts [OF None] pause_def)
  next
    case (Cons x xs)
    then have x: "wd_others x s = s" "alone xs" using assms(2) by (simp_all add: alone_Cons)
    show ?thesis
    proof (cases "wd_reply x")
      case (Inl e)
      then show ?thesis using assms(1) Cons x(1)
        by (auto simp: start_response_parts [OF None] pause_def sandbox_created_def creates_def)
    next
      case (Inr a)
      obtain cs' r' t' where body: "run ?body xs (take_slot s) = (cs', r', t')" by (cases "run ?body xs (take_slot s)")
      have run: "cs = AwaitSlot # cs'" "r' = Some r" "t = t'"
        using assms(1) Cons Inr x(1) body by (simp_all add: start_response_parts [OF None] pause_def)
      have "sandbox_created sb cs w = sandbox_created sb cs' xs" "cancelled_in_undo cs w = cancelled_in_undo cs' xs"
        unfolding run(1) Cons by (simp_all add: sandbox_created_def cancelled_in_undo_def)
      then show ?thesis using body_run [OF body [unfolded run(2)] x(2), of sb] run slots by (auto split: sum.splits)
    qed
  qed
qed

definition sample_settings :: settings where
  "sample_settings = \<lparr>sv_workspace = ''/w'', sv_model = None, sv_ephemeral = False, sv_apps = True, sv_base_url = ''http://a'',
     sv_timeout = 1, sv_history = 8, sv_callback = None\<rparr>"

definition sample_fresh :: fresh where
  "sample_fresh = \<lparr>fr_response = ''r1'', fr_message = ''m1'', fr_items = show_nat, fr_queue = 0, fr_now = 5\<rparr>"

definition sample_create :: create_request where
  "sample_create = \<lparr>cq_model = ''m'', cq_input = JStr ''hi'', cq_instructions = None, cq_previous = None, cq_stream = True,
     cq_background = False, cq_metadata = None, cq_tools = None, cq_store = None, cq_max_output = None, cq_reasoning = None,
     cq_service_tier = None, cq_extra = []\<rparr>"

definition sample_sandbox :: remote_sandbox where
  "sample_sandbox = \<lparr>rs_id = ''s1'', rs_status = SbRunning, rs_created = 0, rs_expires = None,
     rs_worker = Some \<lparr>wc_url = ''http://w'', wc_key = ''12345678''\<rparr>, rs_workspace = None, rs_recoverable = False\<rparr>"

definition empty_adapter :: adapter where
  "empty_adapter = \<lparr>ad_records = [], ad_active = [], ad_finished = [], ad_builders = [], ad_apps = empty_mcp, ad_permits = 1\<rparr>"

definition says :: "adapter_error + world_reply \<Rightarrow> world" where
  "says r = \<lparr>wd_reply = r, wd_others = (\<lambda>s. s)\<rparr>"

definition failing_world :: "world list" where
  "failing_world = [says (Inr Woken), says (Inr (FromClient (GotSandbox sample_sandbox))),
     says (Inl (UpstreamProtocol ''down'' JNull)), says (Inr (FromClient (GotSandbox sample_sandbox)))]"

lemma failed_start_leaves_nothing_witness:
  "case run (start_response sample_settings (\<lambda>v. []) 0 sample_fresh sample_create True) failing_world empty_adapter of
     (cs, r, t) \<Rightarrow> r = Some (Inl (UpstreamProtocol ''down'' JNull)) \<and> sandbox_created sample_sandbox cs failing_world
       \<and> AwaitCall (TerminateSandbox ''s1'') \<in> set cs \<and> t = empty_adapter"
proof -
  let ?p = "start_response sample_settings (\<lambda>v. []) 0 sample_fresh sample_create True"
  obtain cs r t where run: "run ?p failing_world empty_adapter = (cs, r, t)" by (cases "run ?p failing_world empty_adapter")
  have "fst (snd (run ?p failing_world empty_adapter)) = Some (Inl (UpstreamProtocol ''down'' JNull))"
    and "sandbox_created sample_sandbox (fst (run ?p failing_world empty_adapter)) failing_world"
    and "\<not> cancelled_in_undo (fst (run ?p failing_world empty_adapter)) failing_world"
    by code_simp+
  then have facts: "r = Some (Inl (UpstreamProtocol ''down'' JNull))" "sandbox_created sample_sandbox cs failing_world"
      "\<not> cancelled_in_undo cs failing_world" by (simp_all add: run)
  have others: "alone failing_world" "0 < ad_permits empty_adapter" "rs_id sample_sandbox = ''s1''"
    by (simp_all add: failing_world_def alone_def says_def empty_adapter_def sample_sandbox_def)
  from failed_start_leaves_nothing [OF run [unfolded facts(1)] others(1,2), of sample_sandbox] facts others(3)
  show ?thesis unfolding run by simp
qed

section \<open>An MCP App stays in its session\<close>

definition scoped :: "(string \<Rightarrow> string \<Rightarrow> obj \<Rightarrow> bool) \<Rightarrow> await \<Rightarrow> bool" where
  "scoped P c \<longleftrightarrow> (case c of AwaitCall (Rpc sid m ps) \<Rightarrow> P sid m ps | _ \<Rightarrow> True)"

lemma awaits_renew: "awaits (scoped P) (renew_available_sandbox r)"
  by (auto simp: renew_available_sandbox_def need_sandbox_def upstream_as_def scoped_def intro!: awaits_intros
      split: option.split list.split)

lemma awaits_thread: "awaits P (need_thread r)"
  by (auto simp: need_thread_def split: option.split list.split)

lemma awaits_reply: "awaits P (object_reply m v)"
  by (simp add: object_reply_def split: json.split)

definition session_of :: "string \<Rightarrow> string option \<Rightarrow> adapter \<Rightarrow> app_session option" where
  "session_of rid origin s = Option.bind origin (\<lambda>call. find_app_session rid call (ad_apps s))"

lemma access_session:
  "validate_mcp_app_access r server origin uri connector tool s = Inr a \<Longrightarrow>
     session_of (rr_id r) origin s = Some a \<and> as_server a = server \<and> (uri = None \<or> uri = Some (as_resource a))
     \<and> (tool = None \<or> the tool \<in> set (as_tools a))"
  by (cases origin; cases "the origin"; cases tool)
    (auto simp: validate_mcp_app_access_def get_app_session_def session_of_def result_iffs split: option.splits if_splits)

lemma bind_thread_awaits:
  "(\<And>t. rr_thread r = Some t \<Longrightarrow> awaits P (f t)) \<Longrightarrow> awaits P (bind_io (need_thread r) f)"
  by (auto simp: need_thread_def split: option.split list.split)

lemma bind_lift_awaits: "(\<And>a. x = Inr a \<Longrightarrow> awaits P (f a)) \<Longrightarrow> awaits P (bind_io (lift_result x) f)"
  by (cases x) simp_all

text \<open>
  C30. An MCP App stays in its session: whenever a tool call or a resource read of an app reaches the
  app-server, a session of the app is registered for this response and call, the server is its server, the
  tool is one of its allowed tools, the resource is its own resource, and the thread is the one of the
  response; nothing else is asked of the app-server.
\<close>

theorem app_stays_in_session:
  assumes "get_record rid s = Inr r"
    and "run (call_mcp_tool rid q) w s = (cs, res, t)" and "run (read_mcp_resource rid server uri origin connector) w' s = (cs', res', t')"
  shows "list_all (scoped (\<lambda>sid m ps. m = ''mcpServer/tool/call'' \<and> jget ps ''threadId'' = opt_str (rr_thread r)
        \<and> (case session_of (rr_id r) (tc_origin q) s of
             None \<Rightarrow> False
           | Some a \<Rightarrow> jget ps ''server'' = JStr (as_server a) \<and> jget ps ''tool'' = JStr (tc_tool q) \<and> tc_tool q \<in> set (as_tools a)))) cs
    \<and> list_all (scoped (\<lambda>sid m ps. m = ''mcpServer/resource/read'' \<and> jget ps ''threadId'' = opt_str (rr_thread r)
        \<and> (case session_of (rr_id r) origin s of
             None \<Rightarrow> False
           | Some a \<Rightarrow> jget ps ''server'' = JStr (as_server a) \<and> jget ps ''uri'' = JStr (as_resource a)))) cs'"
    (is "list_all ?P cs \<and> list_all ?Q cs'")
proof
  have tool: "awaits ?P (bind_io (lift_result (validate_mcp_app_access r (tc_server q) (tc_origin q) None None (Some (tc_tool q)) s)) f)"
    if "\<And>a. validate_mcp_app_access r (tc_server q) (tc_origin q) None None (Some (tc_tool q)) s = Inr a \<Longrightarrow> awaits ?P (f a)" for f
    using that by (rule bind_lift_awaits)
  have "case call_mcp_tool rid q of ReadState k \<Rightarrow> awaits ?P (k s) | _ \<Rightarrow> False"
    by (auto simp: call_mcp_tool_def assms(1) scoped_def
        intro!: bind_lift_awaits bind_thread_awaits awaits_bind awaits_renew awaits_reply awaits_leaf
        dest!: access_session)
  then show "list_all ?P cs" using assms(2) run_awaits by (auto simp: call_mcp_tool_def)
  have "case read_mcp_resource rid server uri origin connector of ReadState k \<Rightarrow> awaits ?Q (k s) | _ \<Rightarrow> False"
    by (auto simp: read_mcp_resource_def assms(1) scoped_def
        intro!: bind_lift_awaits bind_thread_awaits awaits_bind awaits_renew awaits_reply awaits_leaf
        dest!: access_session)
  then show "list_all ?Q cs'" using assms(3) run_awaits by (auto simp: read_mcp_resource_def)
qed

definition app_adapter :: adapter where
  "app_adapter = empty_adapter\<lparr>
     ad_records := [(''r1'', (create_response sample_create [] [] ''r1'' ''m1'' 0)\<lparr>rr_sandbox := Some ''s1'', rr_thread := Some ''t1''\<rparr>)],
     ad_apps := empty_mcp\<lparr>ma_sessions := [((''r1'', ''c1''), \<lparr>as_response = ''r1'', as_call = ''c1'', as_app = ''a1'',
       as_server = ''srv'', as_resource = ''ui://x'', as_tools = [''add'']\<rparr>)]\<rparr>\<rparr>"

definition app_world :: "world list" where
  "app_world = replicate 2 (says (Inr (FromClient (GotSandbox sample_sandbox))))"

lemma app_stays_in_session_witness:
  "fst (run (call_mcp_tool ''r1'' \<lparr>tc_server = ''srv'', tc_tool = ''add'', tc_origin = Some ''c1'', tc_arguments = JNull, tc_meta = JNull\<rparr>)
      app_world app_adapter) =
     [AwaitCall (InspectSandbox ''s1''), AwaitCall (RenewSandbox ''s1''),
      AwaitCall (Rpc ''s1'' ''mcpServer/tool/call'' [(''threadId'', JStr ''t1''), (''server'', JStr ''srv''), (''tool'', JStr ''add'')])]
   \<and> fst (run (call_mcp_tool ''r1'' \<lparr>tc_server = ''srv'', tc_tool = ''rm'', tc_origin = Some ''c1'', tc_arguments = JNull, tc_meta = JNull\<rparr>)
      app_world app_adapter) = []
   \<and> list_all (scoped (\<lambda>sid m ps. m = ''mcpServer/resource/read''))
       (fst (run (read_mcp_resource ''r1'' ''srv'' ''ui://x'' (Some ''c1'') None) app_world app_adapter))"
proof -
  obtain cs res t where tool: "run (call_mcp_tool ''r1'' \<lparr>tc_server = ''srv'', tc_tool = ''add'', tc_origin = Some ''c1'',
      tc_arguments = JNull, tc_meta = JNull\<rparr>) app_world app_adapter = (cs, res, t)" by (rule prod_cases3)
  obtain cs' res' t' where read: "run (read_mcp_resource ''r1'' ''srv'' ''ui://x'' (Some ''c1'') None) app_world app_adapter = (cs', res', t')"
    by (rule prod_cases3)
  have "get_record ''r1'' app_adapter = Inr (projr (get_record ''r1'' app_adapter))" by code_simp
  from app_stays_in_session [OF this tool read]
  have "list_all (scoped (\<lambda>sid m ps. m = ''mcpServer/resource/read'')) cs'" by (auto simp: list_all_iff scoped_def split: await.splits sandbox_call.splits)
  moreover have "fst (run (call_mcp_tool ''r1'' \<lparr>tc_server = ''srv'', tc_tool = ''add'', tc_origin = Some ''c1'', tc_arguments = JNull,
      tc_meta = JNull\<rparr>) app_world app_adapter) =
     [AwaitCall (InspectSandbox ''s1''), AwaitCall (RenewSandbox ''s1''),
      AwaitCall (Rpc ''s1'' ''mcpServer/tool/call'' [(''threadId'', JStr ''t1''), (''server'', JStr ''srv''), (''tool'', JStr ''add'')])]"
    "fst (run (call_mcp_tool ''r1'' \<lparr>tc_server = ''srv'', tc_tool = ''rm'', tc_origin = Some ''c1'', tc_arguments = JNull, tc_meta = JNull\<rparr>)
      app_world app_adapter) = []"
    by code_simp+
  ultimately show ?thesis unfolding read by simp
qed

end
