(* ===== verification/Stream_Replay.thy ===== *)
theory Stream_Replay
  imports Adapter_Driver Adapter_Safety Response_Safety
begin

text \<open>
  What a client can rebuild from the published events of a response. \<open>_publish_response_events\<close> of
  \<open>src/src/codex_responses_adapter/service.py\<close> changes what the builder has made: it fills the allowed tools of MCP Apps into
  the items of the events and of the record. The theory follows this step for whole streams, from the builder to the
  published events: which items the events of a batch carry (\<open>orderly\<close>), what binding makes of them (\<open>rebinds\<close>), and
  what a client that keeps the items ends with.
\<close>

section \<open>The items of a batch\<close>

definition event_item :: "obj \<Rightarrow> obj" where
  "event_item e = (case jget e ''item'' of JObj d \<Rightarrow> d | _ \<Rightarrow> [])"

definition event_index :: "obj \<Rightarrow> nat" where
  "event_index e = (case jget e ''output_index'' of JInt k \<Rightarrow> nat k | _ \<Rightarrow> 0)"

definition event_id :: "obj \<Rightarrow> string" where
  "event_id e = string_or_empty (jget (event_item e) ''id'')"

definition call_event :: "obj \<Rightarrow> bool" where
  "call_event e \<longleftrightarrow> item_event e \<and> jget (event_item e) ''type'' = JStr ''mcp_call''"

abbreviation carries_app :: "obj \<Rightarrow> bool" where
  "carries_app e \<equiv> mcp_app_side_event e \<noteq> None"

definition app_item :: "obj \<Rightarrow> bool" where
  "app_item item \<longleftrightarrow> (case as_obj (jget item ''_meta'') of Some m \<Rightarrow> as_obj (jget m ''mcp_app'') \<noteq> None | None \<Rightarrow> False)"

lemma carries_app_iff: "carries_app e \<longleftrightarrow> call_event e \<and> app_item (event_item e)"
  by (auto simp: mcp_app_side_event_def call_event_def item_event_def app_item_def event_item_def Let_def
      split: json.split option.split if_splits)

text \<open>Every item is put at a place that exists or at the next one.\<close>

fun grows :: "nat \<Rightarrow> obj list \<Rightarrow> nat \<Rightarrow> bool" where
  "grows n [] m \<longleftrightarrow> n = m"
| "grows n (e # es) m \<longleftrightarrow>
     (if item_event e then event_index e \<le> n \<and> grows (if event_index e = n then Suc n else n) es m else grows n es m)"

lemma grows_append: "grows n xs l \<Longrightarrow> grows l ys m \<Longrightarrow> grows n (xs @ ys) m"
  by (induction xs arbitrary: n) (auto split: if_splits)

text \<open>The indexes of the record point to items; a message that was started has one, and so has a completed call.\<close>

definition placed :: "builder \<Rightarrow> bool" where
  "placed b \<longleftrightarrow>
     (let r = bd_record b
      in (\<forall>(i, k)\<in>set (rr_indexes r). k < length (rr_items r))
         \<and> (rr_started r \<longrightarrow> (\<exists>k. rr_message_index r = Some k \<and> map_of (rr_indexes r) (rr_message_id r) = Some k))
         \<and> (\<forall>i\<in>set (bd_completed b). map_of (rr_indexes r) i \<noteq> None))"

abbreviation place_of :: "builder \<Rightarrow> string \<Rightarrow> nat option" where
  "place_of b \<equiv> map_of (rr_indexes (bd_record b))"

lemma placed_bound: "placed b \<Longrightarrow> place_of b i = Some k \<Longrightarrow> k < length (rr_items (bd_record b))"
  by (auto simp: placed_def Let_def dest: map_of_SomeD)

lemma placed_completed: "placed b \<Longrightarrow> i \<in> set (bd_completed b) \<Longrightarrow> place_of b \<subseteq>\<^sub>m m \<Longrightarrow> m i \<noteq> None"
proof -
  assume b: "placed b" "i \<in> set (bd_completed b)" and m: "place_of b \<subseteq>\<^sub>m m"
  obtain k where "place_of b i = Some k" using b by (auto simp: placed_def Let_def)
  then show "m i \<noteq> None" using m by (metis domI map_le_def option.distinct(1))
qed

definition item_placed :: "string set \<Rightarrow> builder \<Rightarrow> obj \<Rightarrow> bool" where
  "item_placed calls b e \<longleftrightarrow>
     (\<exists>k item. jget e ''output_index'' = JInt (int k) \<and> jget e ''item'' = JObj item)
     \<and> jget (event_item e) ''id'' = JStr (event_id e) \<and> place_of b (event_id e) = Some (event_index e)
     \<and> (if call_event e then event_id e \<in> calls else rr_started (bd_record b) \<and> event_id e = rr_message_id (bd_record b))"

text \<open>After an event with an app, no event without one has the same call.\<close>

definition stays_app :: "obj \<Rightarrow> obj \<Rightarrow> bool" where
  "stays_app e e' \<longleftrightarrow> (carries_app e \<and> call_event e' \<and> event_id e = event_id e' \<longrightarrow> carries_app e')"

lemma stays_app_none: "\<not> item_event e \<or> \<not> item_event e' \<Longrightarrow> stays_app e e'"
  unfolding stays_app_def carries_app_iff by (auto simp: call_event_def)

definition ordered :: "string set \<Rightarrow> builder \<Rightarrow> obj list \<Rightarrow> builder \<Rightarrow> bool" where
  "ordered calls b es b' \<longleftrightarrow>
     placed b' \<and> grows (length (rr_items (bd_record b))) es (length (rr_items (bd_record b')))
     \<and> set (bd_completed b) \<subseteq> set (bd_completed b') \<and> place_of b \<subseteq>\<^sub>m place_of b'
     \<and> (rr_started (bd_record b) \<longrightarrow> rr_started (bd_record b') \<and> rr_message_id (bd_record b') = rr_message_id (bd_record b))
     \<and> (\<forall>e\<in>set es. item_event e \<longrightarrow> item_placed calls b' e \<and> (call_event e \<longrightarrow> event_id e \<notin> set (bd_completed b)))
     \<and> sorted_wrt stays_app es"

definition orderly :: "string set \<Rightarrow> step \<Rightarrow> bool" where
  "orderly calls f \<longleftrightarrow> (\<forall>b es b'. placed b \<and> f b = Some (es, b') \<longrightarrow> ordered calls b es b')"

text \<open>A step that also ends every call it has an event of.\<close>

definition closes :: "string set \<Rightarrow> step \<Rightarrow> bool" where
  "closes calls f \<longleftrightarrow> (\<forall>b es b'. placed b \<and> f b = Some (es, b') \<longrightarrow>
     ordered calls b es b' \<and> (\<forall>e\<in>set es. call_event e \<longrightarrow> event_id e \<in> set (bd_completed b')))"

lemma closes_orderly: "closes calls f \<Longrightarrow> orderly calls f"
  by (auto simp: closes_def orderly_def)

lemma item_placed_later:
  assumes "item_placed calls b e" and "place_of b \<subseteq>\<^sub>m place_of b'"
    and "rr_started (bd_record b) \<longrightarrow> rr_started (bd_record b') \<and> rr_message_id (bd_record b') = rr_message_id (bd_record b)"
  shows "item_placed calls b' e"
proof -
  have "place_of b' (event_id e) = Some (event_index e)"
    using assms(1,2) by (metis domI item_placed_def map_le_def)
  then show ?thesis using assms(1,3) by (auto simp: item_placed_def)
qed

lemma ordered_join:
  assumes "ordered calls b es b1" and "ordered calls b1 es' b2" and "\<And>e e'. e \<in> set es \<Longrightarrow> e' \<in> set es' \<Longrightarrow> stays_app e e'"
  shows "ordered calls b (es @ es') b2"
proof -
  have "item_placed calls b2 e" if "item_placed calls b1 e" for e
    by (rule item_placed_later [OF that]) (use assms(2) in \<open>auto simp: ordered_def\<close>)
  moreover have "place_of b \<subseteq>\<^sub>m place_of b2" using assms(1,2) by (auto simp: ordered_def intro: map_le_trans)
  moreover have "grows (length (rr_items (bd_record b))) (es @ es') (length (rr_items (bd_record b2)))"
    using assms(1,2) by (auto simp: ordered_def intro: grows_append)
  ultimately show ?thesis using assms by (auto simp: ordered_def sorted_wrt_append)
qed

lemma ordered_append:
  assumes "ordered calls b es b1" and "\<forall>e\<in>set es. call_event e \<longrightarrow> event_id e \<in> set (bd_completed b1)"
    and "ordered calls b1 es' b2"
  shows "ordered calls b (es @ es') b2"
proof (rule ordered_join [OF assms(1,3)])
  fix e e' assume e: "e \<in> set es" "e' \<in> set es'"
  have "call_event e' \<Longrightarrow> event_id e' \<notin> set (bd_completed b1)" using assms(3) e(2) by (auto simp: ordered_def call_event_def)
  moreover have "call_event e \<Longrightarrow> event_id e \<in> set (bd_completed b1)" using assms(2) e(1) by blast
  ultimately show "stays_app e e'" unfolding stays_app_def carries_app_iff by metis
qed

lemma then_step_Some:
  "then_step f g b = Some (es, b') \<longleftrightarrow> (\<exists>es1 b1 es2. f b = Some (es1, b1) \<and> g b1 = Some (es2, b') \<and> es = es1 @ es2)"
  by (auto simp: then_step_def bind_eq_Some_conv)

lemma closes_then: "closes calls f \<Longrightarrow> closes calls g \<Longrightarrow> closes calls (then_step f g)"
proof -
  assume f: "closes calls f" and g: "closes calls g"
  show "closes calls (then_step f g)" unfolding closes_def
  proof (intro allI impI)
    fix b es b' assume "placed b \<and> then_step f g b = Some (es, b')"
    then obtain es1 b1 es2 where s: "placed b" "f b = Some (es1, b1)" "g b1 = Some (es2, b')" "es = es1 @ es2"
      by (auto simp: then_step_Some)
    then have 1: "ordered calls b es1 b1" "\<forall>e\<in>set es1. call_event e \<longrightarrow> event_id e \<in> set (bd_completed b1)"
      using f unfolding closes_def by blast+
    then have "placed b1" by (simp add: ordered_def)
    then have 2: "ordered calls b1 es2 b'" "\<forall>e\<in>set es2. call_event e \<longrightarrow> event_id e \<in> set (bd_completed b')"
      using g s(3) unfolding closes_def by blast+
    have "set (bd_completed b1) \<subseteq> set (bd_completed b')" using 2(1) by (simp add: ordered_def)
    then show "ordered calls b es b' \<and> (\<forall>e\<in>set es. call_event e \<longrightarrow> event_id e \<in> set (bd_completed b'))"
      using ordered_append [OF 1 2(1)] 1(2) 2(2) s(4) by auto
  qed
qed

lemma closes_if: "closes calls f \<Longrightarrow> closes calls g \<Longrightarrow> closes calls (\<lambda>b. if c b then f b else g b)"
  by (simp add: closes_def)

lemma closes_no_events: "closes calls no_events"
  by (auto simp: closes_def no_events_def ordered_def)

text \<open>A step without item events that leaves the places of the record as they are.\<close>

definition same_places :: "response \<Rightarrow> response \<Rightarrow> bool" where
  "same_places r r' \<longleftrightarrow> rr_indexes r' = rr_indexes r \<and> length (rr_items r') = length (rr_items r) \<and> rr_started r' = rr_started r
     \<and> rr_message_id r' = rr_message_id r \<and> rr_message_index r' = rr_message_index r"

lemma grows_none: "\<forall>e\<in>set es. \<not> item_event e \<Longrightarrow> grows n es n"
  by (induction es) auto

lemma sorted_none: "\<forall>e\<in>set es. \<not> item_event e \<Longrightarrow> sorted_wrt stays_app es"
  by (induction es) (auto simp: stays_app_def carries_app_iff call_event_def)

lemma closes_quiet:
  assumes "\<And>b es b'. placed b \<Longrightarrow> f b = Some (es, b') \<Longrightarrow>
      same_places (bd_record b) (bd_record b') \<and> bd_completed b' = bd_completed b \<and> (\<forall>e\<in>set es. \<not> item_event e)"
  shows "closes calls f"
  unfolding closes_def
proof (intro allI impI)
  fix b es b' assume "placed b \<and> f b = Some (es, b')"
  then show "ordered calls b es b' \<and> (\<forall>e\<in>set es. call_event e \<longrightarrow> event_id e \<in> set (bd_completed b'))"
    using assms [of b es b'] grows_none [of es] sorted_none [of es]
    by (auto simp: ordered_def placed_def same_places_def call_event_def Let_def)
qed

lemma same_places_refl [simp]: "same_places r r"
  by (simp add: same_places_def)

lemma closes_record: "(\<And>r. same_places r (f r)) \<Longrightarrow> closes calls (on_record f)"
  by (rule closes_quiet) (auto simp: on_record_def)

lemma closes_emit:
  "\<not> item_event (event_payload 0 t []) \<Longrightarrow> closes calls (\<lambda>b. emit t (d b) b)"
  by (rule closes_quiet) (auto simp: emit_def)

lemma sync_same:
  assumes "placed b" and "sync_message (bd_record b) = Some r"
  shows "same_places (bd_record b) r"
  using assms by (auto simp: placed_def sync_message_def add_output_item_def output_index_def same_places_def Let_def
      split: if_splits option.splits)

lemma closes_sync: "closes calls sync_record"
  by (rule closes_quiet) (auto simp: sync_record_def dest: sync_same)

lemma closes_response: "t \<noteq> ''response.output_item.added'' \<Longrightarrow> t \<noteq> ''response.output_item.done'' \<Longrightarrow> closes calls (emit_response t)"
  by (rule closes_quiet) (auto simp: emit_response_def emit_def to_response_def bind_eq_Some_conv dest: sync_same)

lemma closes_initial: "closes calls initial_events"
  unfolding initial_events_def by (intro closes_then closes_response) simp_all

lemma same_places_placed: "same_places r (bd_record b) \<Longrightarrow> placed b \<longleftrightarrow> placed (b\<lparr>bd_record := r\<rparr>)"
  by (auto simp: placed_def same_places_def Let_def)

lemma closes_terminal:
  assumes "\<And>r. same_places r (f r)" and "t \<in> {''response.completed'', ''response.failed'', ''response.incomplete''}"
  shows "closes calls (terminal_step f t)"
proof (rule closes_quiet)
  fix b es b' assume b: "placed b" and step: "terminal_step f t b = Some (es, b')"
  let ?b = "b\<lparr>bd_record := f (bd_record b), bd_terminal := True\<rparr>"
  have "placed ?b" using b assms(1) [of "bd_record b"] by (auto simp: placed_def same_places_def Let_def)
  moreover obtain r v where "to_response (f (bd_record b)) = Some (v, r)" "b' = ?b\<lparr>bd_record := r, bd_sequence := bd_sequence b + 1\<rparr>"
      "\<forall>e\<in>set es. \<not> item_event e"
    using step assms(2) by (auto simp: terminal_step_def emit_response_def emit_def bind_eq_Some_conv)
  ultimately have "same_places (f (bd_record b)) r" "b' = ?b\<lparr>bd_record := r, bd_sequence := bd_sequence b + 1\<rparr>"
      "\<forall>e\<in>set es. \<not> item_event e"
    using sync_same [of ?b] by (auto simp: to_response_def)
  then show "same_places (bd_record b) (bd_record b') \<and> bd_completed b' = bd_completed b \<and> (\<forall>e\<in>set es. \<not> item_event e)"
    using assms(1) [of "bd_record b"] by (auto simp: same_places_def)
qed

section \<open>The steps of the message\<close>

lemma event_payload_item [simp]:
  "event_item (event_payload n t d) = (case jget d ''item'' of JObj x \<Rightarrow> x | _ \<Rightarrow> [])"
  "event_index (event_payload n t d) = (case jget d ''output_index'' of JInt k \<Rightarrow> nat k | _ \<Rightarrow> 0)"
  by (simp_all add: event_item_def event_index_def)

lemma message_item_type [simp]: "jget (message_item r) ''type'' = JStr ''message''"
  by (simp add: message_item_def)

text \<open>What \<open>add_output_item\<close> does to the places.\<close>

lemma add_item_places:
  assumes "add_output_item item r = Some (k, r')" and "\<forall>(i, j)\<in>set (rr_indexes r). j < length (rr_items r)"
  shows "\<exists>i. jget item ''id'' = JStr i \<and> map_of (rr_indexes r') i = Some k \<and> map_of (rr_indexes r) \<subseteq>\<^sub>m map_of (rr_indexes r')
    \<and> (\<forall>(i, j)\<in>set (rr_indexes r'). j < length (rr_items r')) \<and> k \<le> length (rr_items r)
    \<and> length (rr_items r') = (if k = length (rr_items r) then Suc (length (rr_items r)) else length (rr_items r))
    \<and> rr_started r' = rr_started r \<and> rr_message_id r' = rr_message_id r \<and> rr_message_index r' = rr_message_index r
    \<and> rr_items r' = (if k < length (rr_items r) then (rr_items r)[k := item] else rr_items r @ [item])"
proof -
  obtain i where i: "jget item ''id'' = JStr i" "i \<noteq> []"
    using assms(1) by (auto simp: add_output_item_def as_str_Some split: option.splits if_splits)
  show ?thesis
  proof (cases "map_of (rr_indexes r) i")
    case (Some j)
    then have "k = j" "r' = r\<lparr>rr_items := (rr_items r)[j := item]\<rparr>" "j < length (rr_items r)"
      using assms i by (auto simp: add_output_item_def output_index_def dest: map_of_SomeD)
    then show ?thesis using i Some assms(2) by (intro exI [of _ i]) simp
  next
    case None
    then have k: "k = length (rr_items r)" "r' = r\<lparr>rr_indexes := AList.update i k (rr_indexes r), rr_items := rr_items r @ [item]\<rparr>"
      using assms(1) i by (auto simp: add_output_item_def output_index_def Let_def)
    have "i \<notin> fst ` set (rr_indexes r)" using None by (simp add: map_of_eq_None_iff)
    then have keys: "rr_indexes r' = rr_indexes r @ [(i, k)]" using k(2) by (simp add: update_fresh)
    then have "map_of (rr_indexes r) \<subseteq>\<^sub>m map_of (rr_indexes r')" "map_of (rr_indexes r') i = Some k"
      using None by (auto simp: map_le_def map_add_def)
    moreover have "\<forall>(i, j)\<in>set (rr_indexes r'). j < length (rr_items r')" using keys k assms(2) by auto
    ultimately show ?thesis using i k by (intro exI [of _ i]) simp
  qed
qed

lemma closes_start_message: "closes calls (start_message mid)"
  unfolding closes_def
proof (intro allI impI)
  fix b es b' assume "placed b \<and> start_message mid b = Some (es, b')"
  then have b: "placed b" and step: "start_message mid b = Some (es, b')" by simp_all
  show "ordered calls b es b' \<and> (\<forall>e\<in>set es. call_event e \<longrightarrow> event_id e \<in> set (bd_completed b'))"
  proof (cases "rr_started (bd_record b)")
    case True
    then show ?thesis using step b by (auto simp: start_message_def no_events_def ordered_def)
  next
    case False
    let ?r = "bd_record b"
    define r1 where "r1 = ?r\<lparr>rr_message_id := (case mid of Some i \<Rightarrow> if i = [] then rr_message_id ?r else i | None \<Rightarrow> rr_message_id ?r),
        rr_started := True\<rparr>"
    obtain k r2 where add: "add_output_item (message_item r1) r1 = Some (k, r2)"
        and b': "b' = b\<lparr>bd_record := r2\<lparr>rr_message_index := Some k\<rparr>, bd_sequence := bd_sequence b + 2\<rparr>"
        and es: "\<exists>e. \<not> item_event e \<and> es = [event_payload (bd_sequence b) ''response.output_item.added''
            [(''output_index'', JInt (int k)), (''item'', JObj (message_item (r2\<lparr>rr_message_index := Some k\<rparr>)))], e]"
      using step False by (auto simp: start_message_def ensure_message_def then_step_Some emit_def bind_eq_Some_conv Let_def
          simp flip: r1_def)
    have "\<forall>(i, j)\<in>set (rr_indexes r1). j < length (rr_items r1)" using b by (simp add: r1_def placed_def Let_def)
    from add_item_places [OF add this]
    have r2: "map_of (rr_indexes r2) (rr_message_id r1) = Some k" "place_of b \<subseteq>\<^sub>m map_of (rr_indexes r2)"
        "\<forall>(i, j)\<in>set (rr_indexes r2). j < length (rr_items r2)" "k \<le> length (rr_items ?r)"
        "length (rr_items r2) = (if k = length (rr_items ?r) then Suc (length (rr_items ?r)) else length (rr_items ?r))"
        "rr_started r2" "rr_message_id r2 = rr_message_id r1"
      by (auto simp: r1_def)
    obtain e where e: "\<not> item_event e" "es = [event_payload (bd_sequence b) ''response.output_item.added''
            [(''output_index'', JInt (int k)), (''item'', JObj (message_item (r2\<lparr>rr_message_index := Some k\<rparr>)))], e]"
      using es by blast
    have "place_of b' i \<noteq> None" if "i \<in> set (bd_completed b)" for i
      using placed_completed [OF b that r2(2)] by (simp add: b')
    then have "placed b'" using r2 by (simp add: placed_def b')
    then show ?thesis using r2 e(1) False
      by (auto simp: ordered_def b' e(2) item_placed_def call_event_def event_id_def string_or_empty_def stays_app_def carries_app_iff)
  qed
qed

lemma finish_events_if:
  "finish_message b =
     (if \<not> rr_started (bd_record b) \<or> rr_completed (bd_record b) then no_events b
      else then_step (on_record (\<lambda>r. r\<lparr>rr_completed := True\<rparr>))
        (then_step sync_record (\<lambda>b. if rr_started (bd_record b) then finish_events b else None)) b)"
proof (cases "\<not> rr_started (bd_record b) \<or> rr_completed (bd_record b)")
  case False
  have "rr_started r'" if "add_output_item item r = Some (k, r')" "rr_started r" for item r k r'
    using that by (auto simp: add_output_item_def Let_def split: option.splits if_splits)
  then show ?thesis using False
    by (cases "add_output_item (message_item (bd_record b\<lparr>rr_completed := True\<rparr>)) (bd_record b\<lparr>rr_completed := True\<rparr>)")
      (auto simp: finish_message_def then_step_def on_record_def sync_record_def sync_message_def)
qed (auto simp: finish_message_def)

lemma closes_finish_events: "closes calls (\<lambda>b. if rr_started (bd_record b) then finish_events b else None)"
  unfolding closes_def
proof (intro allI impI)
  fix b es b' assume "placed b \<and> (if rr_started (bd_record b) then finish_events b else None) = Some (es, b')"
  then have b: "placed b" "rr_started (bd_record b)" and step: "finish_events b = Some (es, b')" by (auto split: if_splits)
  obtain k where k: "rr_message_index (bd_record b) = Some k" "place_of b (rr_message_id (bd_record b)) = Some k"
    using b by (auto simp: placed_def Let_def)
  define e1 e2 where "e1 = event_payload (bd_sequence b) ''response.output_text.done''
      [(''item_id'', JStr (rr_message_id (bd_record b))), (''output_index'', JInt (int k)), (''content_index'', JInt 0),
       (''text'', JStr (rr_text (bd_record b)))]"
    and "e2 = event_payload (Suc (bd_sequence b)) ''response.content_part.done''
      [(''item_id'', JStr (rr_message_id (bd_record b))), (''output_index'', JInt (int k)), (''content_index'', JInt 0),
       (''part'', text_part (rr_text (bd_record b)))]"
  then have e: "\<not> item_event e1" "\<not> item_event e2"
      "es = [e1, e2, event_payload (Suc (Suc (bd_sequence b))) ''response.output_item.done''
        [(''output_index'', JInt (int k)), (''item'', JObj (message_item (bd_record b)))]]"
      "b' = b\<lparr>bd_sequence := Suc (Suc (Suc (bd_sequence b)))\<rparr>"
    using step k by (auto simp: finish_events_def Let_def then_step_Some emit_def message_position_def)
  have "placed b'" using b by (simp add: e(4) placed_def)
  moreover have "k < length (rr_items (bd_record b))" by (rule placed_bound [OF b(1) k(2)])
  ultimately show "ordered calls b es b' \<and> (\<forall>e\<in>set es. call_event e \<longrightarrow> event_id e \<in> set (bd_completed b'))"
    using b k e by (auto simp: ordered_def item_placed_def call_event_def event_id_def string_or_empty_def stays_app_def carries_app_iff)
qed

lemma closes_message:
  "closes calls (append_text d mid)" "closes calls (sync_completed_message t mid)" "closes calls finish_message"
proof -
  have delta: "closes calls (emit_delta d)" for d unfolding emit_delta_def [abs_def] by (rule closes_emit) simp
  have extend: "closes calls (extend_text d)" for d
    unfolding extend_text_def by (intro closes_then closes_sync delta closes_record) (simp add: same_places_def)
  show "closes calls (append_text d mid)" unfolding append_text_def by (intro closes_then closes_start_message extend)
  have "closes calls (\<lambda>b. extend_text (drop (length (rr_text (bd_record b))) t) b)"
    using extend unfolding closes_def by blast
  then have "closes calls (sync_text t)" unfolding sync_text_def [abs_def] Let_def
    by (intro closes_if closes_no_events closes_then closes_sync closes_record) (simp_all add: same_places_def)
  then show "closes calls (sync_completed_message t mid)"
    unfolding sync_completed_message_def by (intro closes_then closes_start_message)
  show "closes calls finish_message"
    unfolding finish_events_if [abs_def]
    by (intro closes_if closes_no_events closes_then closes_sync closes_record closes_finish_events) (simp add: same_places_def)
qed

section \<open>The steps of a tool call\<close>

lemma call_item_type:
  assumes "mcp_call_item dumps source fin r = (item, r1)"
  shows "jget item ''type'' = JStr ''mcp_call''"
proof -
  have "item = fst (mcp_call_item dumps source fin r)" by (simp add: assms)
  then show ?thesis unfolding mcp_call_item_def Let_def split_def fst_conv by simp
qed

text \<open>Whether an item is that of an app depends on the notification only.\<close>

definition app_source :: "obj \<Rightarrow> bool" where
  "app_source source \<longleftrightarrow>
     or_else (nonempty (jget (case as_obj (jget source ''appContext'') of Some c \<Rightarrow> c | None \<Rightarrow> []) ''resourceUri''))
       (or_else (nonempty (jget source ''mcpAppResourceUri'')) (resource_uri_from_result (jget source ''result''))) \<noteq> None"

lemma meta_app: "jget (fst (mcp_meta source cid server tool r)) ''mcp_app'' \<noteq> JNull \<longleftrightarrow> app_source source"
  "as_obj (jget (fst (mcp_meta source cid server tool r)) ''mcp_app'') \<noteq> None \<longleftrightarrow> app_source source"
  by (auto simp: mcp_meta_def app_source_def Let_def split: option.split)

lemma jget_append: "jget (xs @ ys) k = (case map_of xs k of Some v \<Rightarrow> v | None \<Rightarrow> jget ys k)"
  by (simp add: jget_def map_add_def split: option.split)

lemma call_item_app:
  assumes "mcp_call_item dumps source fin r = (item, r1)"
  shows "app_item item \<longleftrightarrow> app_source source"
proof -
  have item: "item = fst (mcp_call_item dumps source fin r)" by (simp add: assms)
  let ?cid = "case nonempty (jget source ''id'') of Some i \<Rightarrow> i | None \<Rightarrow> ''mcp_unknown''"
  let ?server = "case nonempty (jget source ''server'') of Some s \<Rightarrow> s | None \<Rightarrow> ''unknown''"
  let ?tool = "case nonempty (jget source ''tool'') of Some t \<Rightarrow> t | None \<Rightarrow> ''unknown''"
  let ?meta = "fst (mcp_meta source ?cid ?server ?tool r) @
      (case Option.bind (as_obj (jget source ''result'')) (\<lambda>d. as_obj (jget d ''_meta'')) of
         Some m \<Rightarrow> [(''mcp_result'', JObj m)] | None \<Rightarrow> [])"
  have "jget item ''_meta'' = (if ?meta = [] then JNull else JObj ?meta)"
    unfolding item mcp_call_item_def Let_def split_def fst_conv by (simp add: jget_append)
  moreover have "jget (xs @ (case m of Some d \<Rightarrow> [(''mcp_result'', JObj d)] | None \<Rightarrow> [])) ''mcp_app'' = jget xs ''mcp_app''" for xs m
    unfolding jget_append by (cases m) (simp_all add: jget_def split: option.split)
  ultimately show ?thesis using meta_app(2) [of source ?cid ?server ?tool r] by (auto simp: app_item_def)
qed

text \<open>An item event of a call, and what \<open>with_item\<close> does to the places.\<close>

definition call_made :: "builder \<Rightarrow> string \<Rightarrow> obj \<Rightarrow> nat \<Rightarrow> builder \<Rightarrow> bool" where
  "call_made b cid item k b1 \<longleftrightarrow>
     jget item ''id'' = JStr cid \<and> jget item ''type'' = JStr ''mcp_call'' \<and> placed b1 \<and> place_of b1 cid = Some k \<and> place_of b \<subseteq>\<^sub>m place_of b1
     \<and> k \<le> length (rr_items (bd_record b))
     \<and> length (rr_items (bd_record b1)) = (if k = length (rr_items (bd_record b)) then Suc k else length (rr_items (bd_record b)))
     \<and> rr_started (bd_record b1) = rr_started (bd_record b) \<and> rr_message_id (bd_record b1) = rr_message_id (bd_record b)
     \<and> bd_completed b1 = bd_completed b"

lemma with_item_made:
  assumes "placed b" and "with_item dumps source fin K b = Some x" and "nonempty (jget source ''id'') = Some cid"
  shows "\<exists>item k b1. K item k b1 = Some x \<and> app_item item = app_source source \<and> call_made b cid item k b1"
proof -
  obtain item r where item: "mcp_call_item dumps source fin (bd_record b) = (item, r)" by (cases "mcp_call_item dumps source fin (bd_record b)")
  obtain ts where ts: "r = bd_record b\<lparr>rr_targets := ts\<rparr>" using mcp_call_item_frame(2) [OF item assms(3)] by blast
  obtain k r' where add: "add_output_item item r = Some (k, r')" and K: "K item k (b\<lparr>bd_record := r'\<rparr>) = Some x"
    using assms(2) item by (auto simp: with_item_def bind_eq_Some_conv)
  have in_range: "\<forall>(i, j)\<in>set (rr_indexes r). j < length (rr_items r)" using assms(1) ts by (simp add: placed_def Let_def)
  note new = add_item_places [OF add in_range]
  have id: "jget item ''id'' = JStr cid" by (rule mcp_call_item_frame(1) [OF item assms(3)])
  have later: "place_of b \<subseteq>\<^sub>m map_of (rr_indexes r')" using new ts by auto
  have "map_of (rr_indexes r') i = Some j" if "place_of b i = Some j" for i j
    using later that by (metis domI map_le_def)
  moreover have "map_of (rr_indexes r') i \<noteq> None" if "i \<in> set (bd_completed b)" for i
    by (rule placed_completed [OF assms(1) that later])
  ultimately have "placed (b\<lparr>bd_record := r'\<rparr>)" using assms(1) new ts by (auto simp: placed_def Let_def)
  then show ?thesis using K new ts id later call_item_type [OF item] call_item_app [OF item]
    by (intro exI [of _ item] exI [of _ k] exI [of _ "b\<lparr>bd_record := r'\<rparr>"]) (auto simp: call_made_def)
qed

lemma made_ordered:
  assumes "call_made b cid item k b1" and "cid \<in> calls" and "cid \<notin> set (bd_completed b)"
    and "t = ''response.output_item.added'' \<or> t = ''response.output_item.done''"
    and "es = xs @ event_payload n t [(''output_index'', JInt (int k)), (''item'', JObj item)] # ys"
    and "\<forall>e\<in>set xs \<union> set ys. \<not> item_event e"
    and "b2 = b1\<lparr>bd_sequence := q, bd_completed := ds\<rparr>" and "set (bd_completed b1) \<subseteq> set ds" and "set ds \<subseteq> insert cid (set (bd_completed b1))"
  shows "ordered calls b es b2"
proof -
  let ?e = "event_payload n t [(''output_index'', JInt (int k)), (''item'', JObj item)]"
  have m: "jget item ''id'' = JStr cid" "jget item ''type'' = JStr ''mcp_call''" "placed b1" "place_of b1 cid = Some k"
      "place_of b \<subseteq>\<^sub>m place_of b1" "k \<le> length (rr_items (bd_record b))"
      "length (rr_items (bd_record b1)) = (if k = length (rr_items (bd_record b)) then Suc k else length (rr_items (bd_record b)))"
      "rr_started (bd_record b1) = rr_started (bd_record b)" "rr_message_id (bd_record b1) = rr_message_id (bd_record b)"
      "bd_completed b1 = bd_completed b"
    using assms(1) by (simp_all add: call_made_def)
  have e: "item_event ?e" "call_event ?e" "event_id ?e = cid" "event_index ?e = k"
    using assms(4) m by (auto simp: call_event_def event_id_def string_or_empty_def)
  have here: "item_placed calls b2 ?e" using e m assms(2,7) by (auto simp: item_placed_def)
  have "grows n' (xs @ ?e # ys) (if k = n' then Suc n' else n')" if "k \<le> n'" for n'
    by (rule grows_append [OF grows_none]) (use that e assms(6) grows_none [of ys] in auto)
  from this [OF m(6)] have "grows (length (rr_items (bd_record b))) es (length (rr_items (bd_record b2)))"
    using m(7) assms(5,7) by (simp split: if_splits)
  moreover have "sorted_wrt stays_app es"
    using assms(6) sorted_none [of xs] sorted_none [of ys] by (auto simp: assms(5) sorted_wrt_append stays_app_none)
  moreover have "placed b2" using m(3,4) assms(7,9) by (auto simp: placed_def Let_def)
  moreover have "\<forall>x\<in>set es. item_event x \<longrightarrow> item_placed calls b2 x \<and> (call_event x \<longrightarrow> event_id x \<notin> set (bd_completed b))"
  proof (intro ballI impI)
    fix x assume "x \<in> set es" "item_event x"
    then have "x = ?e" using assms(5,6) by auto
    then show "item_placed calls b2 x \<and> (call_event x \<longrightarrow> event_id x \<notin> set (bd_completed b))"
      using here e(3) assms(3) by simp
  qed
  ultimately show ?thesis using m(5,8-10) assms(7,8) unfolding ordered_def by simp
qed

lemma start_call_ordered:
  assumes "placed b" and "start_mcp_call dumps source b = Some (es, b')" and "nonempty (jget source ''id'') = Some cid"
    and "cid \<in> calls"
  shows "ordered calls b es b'" and "bd_completed b' = bd_completed b"
    and "\<forall>e\<in>set es. call_event e \<longrightarrow> event_id e = cid \<and> (carries_app e \<longleftrightarrow> app_source source)"
proof -
  have "ordered calls b es b' \<and> bd_completed b' = bd_completed b
      \<and> (\<forall>e\<in>set es. call_event e \<longrightarrow> event_id e = cid \<and> (carries_app e \<longleftrightarrow> app_source source))"
  proof (cases "place_of b cid")
    case (Some k)
    then have "es = []" "b' = b" using assms(2,3) by (auto simp: start_mcp_call_def output_index_def no_events_def)
    then show ?thesis using assms(1) by (simp add: ordered_def)
  next
    case None
    let ?K = "\<lambda>item i. then_step (emit ''response.output_item.added'' [(''output_index'', JInt (int i)), (''item'', JObj item)])
              (then_step
                 (emit ''response.mcp_call_arguments.done''
                    [(''item_id'', JStr cid), (''output_index'', JInt (int i)), (''arguments'', jget item ''arguments'')])
                 (emit ''response.mcp_call.in_progress'' [(''item_id'', JStr cid), (''output_index'', JInt (int i))]))"
    have "with_item dumps source False ?K b = Some (es, b')"
      using assms(2,3) None by (simp add: start_mcp_call_def output_index_def)
    from with_item_made [OF assms(1) this assms(3)]
    obtain item k b1 where K: "?K item k b1 = Some (es, b')" and app: "app_item item = app_source source"
        and made: "call_made b cid item k b1" by blast
    let ?n = "bd_sequence b1"
    obtain e2 e3 where es: "es = [] @ event_payload ?n ''response.output_item.added'' [(''output_index'', JInt (int k)), (''item'', JObj item)] # [e2, e3]"
        "\<not> item_event e2" "\<not> item_event e3"
      and b': "b' = b1\<lparr>bd_sequence := ?n + 3, bd_completed := bd_completed b1\<rparr>"
      using K by (auto simp: then_step_Some emit_def eval_nat_numeral)
    have fields: "bd_completed b1 = bd_completed b" "jget item ''id'' = JStr cid" "jget item ''type'' = JStr ''mcp_call''"
      using made by (simp_all add: call_made_def)
    have "ordered calls b es b'"
      by (rule made_ordered [OF made assms(4) _ _ es(1) _ b']) (use assms(1) None es in \<open>auto simp: placed_def Let_def\<close>)
    moreover have "\<forall>e\<in>set es. call_event e \<longrightarrow> event_id e = cid \<and> (carries_app e \<longleftrightarrow> app_source source)"
      unfolding carries_app_iff using es fields app by (auto simp: call_event_def event_id_def string_or_empty_def)
    ultimately show ?thesis using b' fields by simp
  qed
  then show "ordered calls b es b'" "bd_completed b' = bd_completed b"
    "\<forall>e\<in>set es. call_event e \<longrightarrow> event_id e = cid \<and> (carries_app e \<longleftrightarrow> app_source source)" by blast+
qed

text \<open>A call that is completed: its events are all with an app or all without.\<close>

lemma closes_complete_call:
  assumes "\<And>cid. nonempty (jget source ''id'') = Some cid \<Longrightarrow> cid \<in> calls"
  shows "closes calls (complete_mcp_call dumps source)"
  unfolding closes_def
proof (intro allI impI)
  fix b es b' assume "placed b \<and> complete_mcp_call dumps source b = Some (es, b')"
  then have b: "placed b" and step: "complete_mcp_call dumps source b = Some (es, b')" by simp_all
  show "ordered calls b es b' \<and> (\<forall>e\<in>set es. call_event e \<longrightarrow> event_id e \<in> set (bd_completed b'))"
  proof (cases "\<exists>cid. nonempty (jget source ''id'') = Some cid \<and> cid \<notin> set (bd_completed b)")
    case False
    then have "es = []" "b' = b" using step by (auto simp: complete_mcp_call_def no_events_def split: option.splits)
    then show ?thesis using b by (simp add: ordered_def)
  next
    case True
    then obtain cid where cid: "nonempty (jget source ''id'') = Some cid" "cid \<notin> set (bd_completed b)" by blast
    note call = assms [OF cid(1)]
    obtain es1 b1 es2 where first: "(if place_of b cid = None then start_mcp_call dumps source b else no_events b) = Some (es1, b1)"
        and second: "finish_mcp_call dumps source cid b1 = Some (es2, b')" and es: "es = es1 @ es2"
      using step cid by (auto simp: complete_mcp_call_def then_step_Some output_index_def split: if_splits)
    have one: "ordered calls b es1 b1" "bd_completed b1 = bd_completed b"
        "\<forall>e\<in>set es1. call_event e \<longrightarrow> event_id e = cid \<and> (carries_app e \<longleftrightarrow> app_source source)"
    proof -
      have "ordered calls b es1 b1 \<and> bd_completed b1 = bd_completed b
        \<and> (\<forall>e\<in>set es1. call_event e \<longrightarrow> event_id e = cid \<and> (carries_app e \<longleftrightarrow> app_source source))"
      proof (cases "place_of b cid")
        case None
        then have "start_mcp_call dumps source b = Some (es1, b1)" using first by simp
        from start_call_ordered [OF b this cid(1) call] show ?thesis by blast
      next
        case (Some k)
        then have "es1 = []" "b1 = b" using first by (auto simp: no_events_def)
        then show ?thesis using b by (simp add: ordered_def)
      qed
      then show "ordered calls b es1 b1" "bd_completed b1 = bd_completed b"
        "\<forall>e\<in>set es1. call_event e \<longrightarrow> event_id e = cid \<and> (carries_app e \<longleftrightarrow> app_source source)" by blast+
    qed
    have b1: "placed b1" using one(1) by (simp add: ordered_def)
    from with_item_made [OF b1 second [unfolded finish_mcp_call_def] cid(1)]
    obtain item k b2 where K: "then_step
         (emit (if jget item ''status'' = JStr ''failed'' then ''response.mcp_call.failed'' else ''response.mcp_call.completed'')
            [(''item_id'', JStr cid), (''output_index'', JInt (int k))])
         (then_step
            (emit ''response.output_item.done'' [(''output_index'', JInt (int k)), (''item'', JObj item)])
            (mark_call cid)) b2 = Some (es2, b')"
      and app: "app_item item = app_source source" and made: "call_made b1 cid item k b2" by blast
    let ?e = "event_payload (Suc (bd_sequence b2)) ''response.output_item.done'' [(''output_index'', JInt (int k)), (''item'', JObj item)]"
    obtain e1 where es2: "es2 = [e1] @ ?e # []" "\<not> item_event e1"
        and b': "b' = b2\<lparr>bd_sequence := Suc (Suc (bd_sequence b2)), bd_completed := cid # bd_completed b2\<rparr>"
      using K by (auto simp: then_step_Some emit_def mark_call_def split: if_splits)
    have fields: "bd_completed b2 = bd_completed b1" "jget item ''id'' = JStr cid" "jget item ''type'' = JStr ''mcp_call''"
      using made by (simp_all add: call_made_def)
    have two: "ordered calls b1 es2 b'"
      by (rule made_ordered [OF made call _ _ es2(1) _ b']) (use cid(2) one(2) es2(2) in auto)
    have ends: "\<forall>e\<in>set es2. call_event e \<longrightarrow> event_id e = cid \<and> (carries_app e \<longleftrightarrow> app_source source)"
      unfolding carries_app_iff using es2 fields app by (auto simp: call_event_def event_id_def string_or_empty_def)
    have "stays_app e e'" if "e \<in> set es1" "e' \<in> set es2" for e e'
    proof (cases "call_event e \<and> call_event e'")
      case True
      then show ?thesis using one(3) ends that unfolding stays_app_def by metis
    next
      case False
      then show ?thesis unfolding stays_app_def carries_app_iff by blast
    qed
    from ordered_join [OF one(1) two this] have "ordered calls b es b'" by (simp add: es)
    moreover have "\<forall>e\<in>set es. call_event e \<longrightarrow> event_id e \<in> set (bd_completed b')"
      using one(3) ends by (auto simp: es b')
    ultimately show ?thesis by blast
  qed
qed

section \<open>The whole batch\<close>

lemma closes_complete_calls:
  assumes "\<And>v. v \<in> set vs \<Longrightarrow> set (kind_id ''mcpToolCall'' v) \<subseteq> calls"
  shows "closes calls (complete_calls dumps vs)"
  using assms
proof (induction vs)
  case (Cons v vs)
  have "closes calls (case v of
          JObj item \<Rightarrow> if jget item ''type'' = JStr ''mcpToolCall'' then complete_mcp_call dumps item else no_events
        | _ \<Rightarrow> no_events)"
  proof (cases "\<exists>item. v = JObj item \<and> jget item ''type'' = JStr ''mcpToolCall''")
    case True
    then obtain item where v: "v = JObj item" "jget item ''type'' = JStr ''mcpToolCall''" by blast
    have "closes calls (complete_mcp_call dumps item)"
      by (rule closes_complete_call) (use Cons.prems [of v] v in \<open>simp add: kind_id_def\<close>)
    then show ?thesis using v by simp
  next
    case False
    then show ?thesis using closes_no_events by (auto split: json.split)
  qed
  then show ?case using Cons closes_then by simp
qed (simp add: closes_no_events)

lemma closes_completed: "closes calls (terminal_step (\<lambda>r. r\<lparr>rr_status := st\<rparr>) ''response.completed'')"
  by (rule closes_terminal) (simp_all add: same_places_def)

lemma closes_incomplete_step: "closes calls (incomplete_step m)"
  unfolding incomplete_step_def by (rule closes_terminal) (simp_all add: same_places_def)

lemma closes_fail_step: "closes calls (fail_step c m)"
  unfolding fail_step_def by (rule closes_terminal) (simp_all add: same_places_def)

lemma closes_end_turn: "closes calls (end_turn turn)"
  by (cases "status_of (jget turn ''status'')")
    (simp_all add: end_turn_def closes_completed closes_incomplete_step closes_fail_step)

lemmas closes_outcomes = closes_completed closes_incomplete_step closes_fail_step closes_end_turn

lemma closes_fail: "closes calls (fail m)"
  unfolding fail_def [abs_def] by (intro closes_if closes_no_events closes_then closes_message(3) closes_outcomes)

lemma closes_incomplete: "closes calls (incomplete m)"
  unfolding incomplete_def [abs_def] by (intro closes_if closes_no_events closes_then closes_message(3) closes_outcomes)

lemma closes_complete_turn:
  assumes "\<And>v. v \<in> set (case as_list (jget turn ''items'') of Some vs \<Rightarrow> vs | None \<Rightarrow> []) \<Longrightarrow> set (kind_id ''mcpToolCall'' v) \<subseteq> calls"
  shows "closes calls (complete_turn dumps turn)"
proof -
  have "closes calls (case last_agent_message turn of (text, mid) \<Rightarrow> if text = [] then no_events else sync_completed_message text mid)"
    by (auto intro: closes_no_events closes_message split: prod.split)
  moreover have "closes calls (on_record (\<lambda>r. r\<lparr>rr_usage := usage_from_turn turn\<rparr>))"
    by (rule closes_record) (simp add: same_places_def)
  ultimately show ?thesis unfolding complete_turn_def [abs_def]
    by (intro closes_if closes_no_events closes_then closes_complete_calls closes_message closes_outcomes assms)
qed

lemma orderly_start_call:
  assumes "\<And>cid. nonempty (jget source ''id'') = Some cid \<Longrightarrow> cid \<in> calls"
  shows "orderly calls (start_mcp_call dumps source)"
  unfolding orderly_def
proof (intro allI impI)
  fix b es b'
  assume *: "placed b \<and> start_mcp_call dumps source b = Some (es, b')"
  show "ordered calls b es b'"
  proof (cases "nonempty (jget source ''id'')")
    case None
    then show ?thesis using * by (auto simp: start_mcp_call_def no_events_def ordered_def)
  next
    case (Some cid)
    then show ?thesis using * start_call_ordered(1) assms [OF Some] by blast
  qed
qed

lemma orderly_consume:
  assumes "set (call_ids n) \<subseteq> calls"
  shows "orderly calls (consume dumps n)"
proof (cases "\<exists>m params. jget n ''method'' = JStr m \<and> jget n ''params'' = JObj params")
  case False
  then have "consume dumps n = no_events"
    by (cases "jget n ''method''"; cases "jget n ''params''") (simp_all add: consume_def)
  then show ?thesis by (simp add: closes_orderly closes_no_events)
next
  case True
  then obtain m params where n: "jget n ''method'' = JStr m" "jget n ''params'' = JObj params" by blast
  have ids: "set (kind_id ''mcpToolCall'' (jget params ''item'')) \<subseteq> calls"
      "\<And>v. v \<in> set (turn_items params) \<Longrightarrow> set (kind_id ''mcpToolCall'' v) \<subseteq> calls"
    using assms n by (auto simp: call_ids_def notified_ids_def)
  have call: "cid \<in> calls" if "jget params ''item'' = JObj item" "jget item ''type'' = JStr ''mcpToolCall''"
      "nonempty (jget item ''id'') = Some cid" for item cid
    using ids(1) that by (simp add: kind_id_def)
  have none: "orderly calls no_events" by (simp add: closes_orderly closes_no_events)
  have started: "orderly calls (consume_started dumps params)"
    unfolding consume_started_def using call none by (auto intro!: orderly_start_call split: json.split)
  have delta: "orderly calls (consume_delta params)"
    unfolding consume_delta_def using none by (auto intro!: closes_orderly closes_message split: option.split)
  have completed: "orderly calls (consume_completed dumps params)"
    unfolding consume_completed_def using call none
    by (auto intro!: closes_orderly [OF closes_message(2)] closes_orderly [OF closes_complete_call] split: json.split)
  have turn: "orderly calls (complete_turn dumps (case as_obj (jget params ''turn'') of Some t \<Rightarrow> t | None \<Rightarrow> []))"
    by (rule closes_orderly [OF closes_complete_turn]) (use ids(2) in \<open>auto simp: turn_items_def split: option.splits\<close>)
  have failed: "orderly calls (if jget params ''willRetry'' = JBool True then no_events else fail (error_message params))"
    using none closes_orderly [OF closes_fail] by simp
  show ?thesis using n started delta completed turn failed none by (simp add: consume_def)
qed

section \<open>Binding\<close>

text \<open>
  What \<open>bind_events\<close> makes of the events and the record: the item of every event with an app gets the tools
  of its session, and so does the item of the record. \<open>ts\<close> are the targets of the record.
\<close>

inductive rebinds :: "obj list \<Rightarrow> builder \<Rightarrow> obj list \<Rightarrow> builder \<Rightarrow> bool" where
  rebind_none: "rebinds [] b [] b"
| rebind_skip: "\<not> carries_app e \<Longrightarrow> rebinds es b es' b' \<Longrightarrow> rebinds (e # es) b (e # es') b'"
| rebind_app:
    "carries_app e \<Longrightarrow> jget e ''item'' = JObj item \<Longrightarrow>
     add_output_item (item_with_tools tools item) (bd_record b\<lparr>rr_targets := ts\<rparr>) = Some (k, r) \<Longrightarrow>
     rebinds es (b\<lparr>bd_record := r\<rparr>) es' b' \<Longrightarrow>
     rebinds (e # es) b (jset ''item'' (JObj (item_with_tools tools item)) e # es') b'"
| rebind_anonymous:
    "carries_app e \<Longrightarrow> jget e ''item'' = JObj item \<Longrightarrow> \<not> is_str (jget item ''id'') \<Longrightarrow>
     rebinds es (b\<lparr>bd_record := bd_record b\<lparr>rr_targets := ts\<rparr>\<rparr>) es' b' \<Longrightarrow>
     rebinds (e # es) b (jset ''item'' (JObj (item_with_tools tools item)) e # es') b'"

inductive_cases rebinds_Nil: "rebinds [] b es' b'"

lemma bind_record_rebinds:
  assumes "carries_app e" and "jget e ''item'' = JObj item"
  shows "yields (\<lambda>(item1, b1). \<forall>es es' b'. rebinds es b1 es' b' \<longrightarrow> rebinds (e # es) b (jset ''item'' (JObj item1) e # es') b')
    (\<lambda>e. True) (bind_record call tools item d b)"
proof -
  let ?r = "register_mcp_app_target call (set_tools tools d) (bd_record b)"
  have r: "?r = bd_record b\<lparr>rr_targets := AList.update call (set_tools tools d) (rr_targets (bd_record b))\<rparr>"
    by (simp add: register_mcp_app_target_def)
  show ?thesis
  proof (cases "is_str (jget item ''id'')")
    case True
    then show ?thesis using rebind_app [OF assms] unfolding r bind_record_def Let_def by (auto split: option.split)
  next
    case False
    then show ?thesis using rebind_anonymous [OF assms] unfolding r bind_record_def Let_def by auto
  qed
qed

lemma bind_app_rebinds:
  assumes "carries_app e" and "jget e ''item'' = JObj item"
  shows "yields (\<lambda>(item1, b1). \<forall>es es' b'. rebinds es b1 es' b' \<longrightarrow> rebinds (e # es) b (jset ''item'' (JObj item1) e # es') b')
    (\<lambda>e. True) (bind_app_session rid sid thread item d b)"
  unfolding bind_app_session_def
  by (auto intro!: yields_bind [OF yields_any] bind_record_rebinds [OF assms] split: option.split sum.split)

lemma side_item: "mcp_app_side_event e = Some (t, data) \<Longrightarrow> \<exists>item. jget e ''item'' = JObj item \<and> jget data ''item'' = JObj item"
  by (auto simp: mcp_app_side_event_def Let_def split: json.splits if_splits)

lemma bind_events_rebinds: "yields (\<lambda>(es', sides, b'). rebinds es b es' b') (\<lambda>e. True) (bind_events rid sid thread es b)"
proof (induction es arbitrary: b)
  case Nil
  then show ?case by (simp add: rebind_none)
next
  case (Cons e es)
  show ?case
  proof (cases "mcp_app_side_event e")
    case None
    then show ?thesis by (auto intro!: yields_bind [OF Cons] rebind_skip)
  next
    case (Some x)
    obtain t data where x: "x = (t, data)" by (cases x)
    obtain item where item: "jget e ''item'' = JObj item" "jget data ''item'' = JObj item" using side_item Some x by blast
    have "yields (\<lambda>(es', sides, b'). rebinds (e # es) b es' b') (\<lambda>e. True)
        (bind_io (bind_events rid sid thread es b1) (\<lambda>(es', side, b'). Done (jset ''item'' (JObj item1) e # es', h side, b')))"
      if "\<forall>es es' b'. rebinds es b1 es' b' \<longrightarrow> rebinds (e # es) b (jset ''item'' (JObj item1) e # es') b'" for item1 b1 h
      by (rule yields_bind [OF Cons]) (use that in auto)
    then show ?thesis using Some x item
      by (auto intro!: yields_bind [OF bind_app_rebinds])
  qed
qed

text \<open>Up to the tools of the apps, binding changes nothing.\<close>

definition untooled :: "obj \<Rightarrow> obj" where
  "untooled item = item_with_tools [] item"

lemma jset_jset [simp]: "jset k v (jset k w d) = jset k v d"
  by (induction d) (auto simp: jset_def)

lemma untooled_tools [simp]: "untooled (item_with_tools tools item) = untooled item"
  by (auto simp: untooled_def item_with_tools_def set_tools_def split: json.split)

lemma tools_other: "k \<noteq> ''_meta'' \<Longrightarrow> jget (item_with_tools tools item) k = jget item k"
  by (auto simp: item_with_tools_def split: json.split)

lemma bound_event [simp]:
  "item_event (jset ''item'' v e) = item_event e" "event_index (jset ''item'' v e) = event_index e"
  "event_item (jset ''item'' (JObj item) e) = item" "k \<noteq> ''item'' \<Longrightarrow> jget (jset ''item'' v e) k = jget e k"
  by (simp_all add: item_event_def event_index_def event_item_def)

definition tidy :: "obj \<Rightarrow> bool" where
  "tidy e \<longleftrightarrow> (item_event e \<longrightarrow> (\<exists>k item. jget e ''output_index'' = JInt (int k) \<and> jget e ''item'' = JObj item))"

lemma show_tidy:
  "tidy e \<Longrightarrow> show_event v e = (if \<not> item_event e then v
     else if event_index e < length v then v[event_index e := event_item e] else v @ [event_item e])"
  by (auto simp: tidy_def show_event_def event_index_def event_item_def)

lemma show_untooled:
  assumes "map untooled u = map untooled w" and "item_event e' = item_event e" and "event_index e' = event_index e"
    and "untooled (event_item e') = untooled (event_item e)" and "tidy e" and "tidy e'"
  shows "map untooled (show_event u e) = map untooled (show_event w e')"
  using assms map_eq_imp_length_eq [OF assms(1)] by (simp add: show_tidy map_update)

lemma rebinds_untooled:
  assumes "rebinds es b es' b'" and "list_all tidy es" and "map untooled u = map untooled w"
  shows "map untooled (foldl show_event u es) = map untooled (foldl show_event w es')"
  using assms
proof (induction arbitrary: u w)
  case (rebind_skip e es b es' b')
  then show ?case using show_untooled [of u w e e] by simp
next
  case (rebind_app e item tools ts b k r es es' b')
  have "map untooled (show_event u e) = map untooled (show_event w (jset ''item'' (JObj (item_with_tools tools item)) e))"
    by (rule show_untooled) (use rebind_app in \<open>auto simp: tidy_def event_item_def\<close>)
  then show ?case using rebind_app by simp
next
  case (rebind_anonymous e item es ts b es' b' tools)
  have "map untooled (show_event u e) = map untooled (show_event w (jset ''item'' (JObj (item_with_tools tools item)) e))"
    by (rule show_untooled) (use rebind_anonymous in \<open>auto simp: tidy_def event_item_def\<close>)
  then show ?case using rebind_anonymous by simp
qed simp

lemma rebinds_last:
  "rebinds es b es' b' \<Longrightarrow> es \<noteq> [] \<Longrightarrow> \<not> carries_app (last es) \<Longrightarrow> es' \<noteq> [] \<and> last es' = last es"
proof (induction rule: rebinds.induct)
  case (rebind_skip e es b es' b')
  then show ?case by (cases "es = []") (auto elim: rebinds_Nil)
next
  case (rebind_app e item tools ts b k r es es' b')
  then show ?case by (cases "es = []") auto
next
  case (rebind_anonymous e item es ts b es' b' tools)
  then show ?case by (cases "es = []") auto
qed simp

section \<open>The view of a client\<close>

text \<open>Two views that differ in one place differ there at most until an event puts an item there.\<close>

lemma replay_differ:
  assumes "list_all tidy es" and "length u = length w" and "p < length u" and "\<And>j. j < length u \<Longrightarrow> j \<noteq> p \<Longrightarrow> u ! j = w ! j"
  shows "length (foldl show_event u es) = length (foldl show_event w es)
    \<and> (\<forall>j < length (foldl show_event u es). j \<noteq> p \<or> (\<exists>e\<in>set es. item_event e \<and> event_index e = p) \<longrightarrow>
         foldl show_event u es ! j = foldl show_event w es ! j)"
  using assms
proof (induction es arbitrary: u w)
  case (Cons e es)
  show ?case
  proof (cases "item_event e \<and> event_index e = p")
    case True
    then have "show_event u e = show_event w e"
      using Cons.prems by (auto simp: show_tidy nth_list_update intro!: nth_equalityI)
    then show ?thesis by simp
  next
    case False
    have "length (foldl show_event (show_event u e) es) = length (foldl show_event (show_event w e) es)
      \<and> (\<forall>j < length (foldl show_event (show_event u e) es). j \<noteq> p \<or> (\<exists>e\<in>set es. item_event e \<and> event_index e = p) \<longrightarrow>
           foldl show_event (show_event u e) es ! j = foldl show_event (show_event w e) es ! j)"
      by (rule Cons.IH) (use Cons.prems False in \<open>auto simp: show_tidy nth_list_update nth_append split: if_splits\<close>)
    then show ?thesis using False by auto
  qed
qed simp

lemma replay_keep:
  assumes "list_all tidy es" and "p < length u" and "\<not> (\<exists>e\<in>set es. item_event e \<and> event_index e = p)"
  shows "foldl show_event u es ! p = u ! p \<and> p < length (foldl show_event u es)"
  using assms
proof (induction es arbitrary: u)
  case (Cons e es)
  have "foldl show_event (show_event u e) es ! p = show_event u e ! p \<and> p < length (foldl show_event (show_event u e) es)"
    by (rule Cons.IH) (use Cons.prems in \<open>auto simp: show_tidy\<close>)
  then show ?case using Cons.prems by (auto simp: show_tidy nth_list_update nth_append)
qed simp

text \<open>
  The record and the view agree but for the excepted places (that of an unfinished message), or an app is still to be
  bound there.
\<close>

definition agrees :: "(nat \<Rightarrow> bool) \<Rightarrow> obj list \<Rightarrow> obj list \<Rightarrow> obj list \<Rightarrow> bool" where
  "agrees exc es ds v \<longleftrightarrow> length v = length ds
     \<and> (\<forall>k < length ds. ds ! k = v ! k \<or> exc k \<or> (\<exists>e\<in>set es. carries_app e \<and> event_index e = k))"

definition same_turn :: "builder \<Rightarrow> builder \<Rightarrow> bool" where
  "same_turn b b' \<longleftrightarrow> (\<exists>ts ds. b' = b\<lparr>bd_record := bd_record b\<lparr>rr_targets := ts, rr_items := ds\<rparr>\<rparr> \<and> length ds = length (rr_items (bd_record b)))"

lemma same_turn_refl [simp]: "same_turn b b"
proof -
  have "b = b\<lparr>bd_record := bd_record b\<lparr>rr_targets := rr_targets (bd_record b), rr_items := rr_items (bd_record b)\<rparr>\<rparr>" by simp
  then show ?thesis unfolding same_turn_def by blast
qed

lemma same_turn_trans: "same_turn a b \<Longrightarrow> same_turn b c \<Longrightarrow> same_turn a c"
  unfolding same_turn_def by fastforce

text \<open>One event with an app is bound.\<close>

lemma bind_one:
  assumes ok: "builder_ok calls b" and e: "carries_app e" "item_placed calls b e" "jget e ''item'' = JObj item"
    and add: "add_output_item (item_with_tools tools item) (bd_record b\<lparr>rr_targets := ts\<rparr>) = Some (k, r)"
  shows "k = event_index e" and "k < length (rr_items (bd_record b))"
    and "r = bd_record b\<lparr>rr_targets := ts, rr_items := (rr_items (bd_record b))[k := item_with_tools tools item]\<rparr>"
    and "builder_ok calls (b\<lparr>bd_record := r\<rparr>)"
proof -
  have call: "call_event e" using e(1) unfolding carries_app_iff by blast
  have item: "event_item e = item" by (simp add: event_item_def e(3))
  have place: "place_of b (event_id e) = Some (event_index e)" "event_id e \<in> calls" "jget item ''id'' = JStr (event_id e)"
    using e(2) call by (auto simp: item_placed_def item)
  have id: "jget (item_with_tools tools item) ''id'' = JStr (event_id e)" by (simp add: tools_other place(3))
  have nonempty: "event_id e \<noteq> []" using add by (auto simp: add_output_item_def id split: if_splits)
  show k: "k = event_index e" and "k < length (rr_items (bd_record b))"
    and r: "r = bd_record b\<lparr>rr_targets := ts, rr_items := (rr_items (bd_record b))[k := item_with_tools tools item]\<rparr>"
    using add nonempty place(1) index_Some [OF ok place(1)] by (auto simp: add_output_item_def output_index_def id)
  from put_item [OF ok place(2) nonempty id refl, of ts] add show "builder_ok calls (b\<lparr>bd_record := r\<rparr>)" by auto
qed

lemma rebinds_agrees:
  assumes "rebinds es b es' b2" and "builder_ok calls b" and "\<forall>e\<in>set es. item_event e \<longrightarrow> item_placed calls b e"
    and "sorted_wrt stays_app es" and "grows (length v) es (length (rr_items (bd_record b)))"
    and "agrees exc es (rr_items (bd_record b)) (foldl show_event v es)"
  shows "builder_ok calls b2 \<and> same_turn b b2 \<and> agrees exc [] (rr_items (bd_record b2)) (foldl show_event v es')"
  using assms
proof (induction arbitrary: v)
  case (rebind_none b)
  then show ?case by simp
next
  case (rebind_skip e es b es' b')
  have tidy: "tidy e" using rebind_skip.prems(2) by (auto simp: tidy_def item_placed_def)
  have "builder_ok calls b' \<and> same_turn b b' \<and> agrees exc [] (rr_items (bd_record b')) (foldl show_event (show_event v e) es')"
  proof (rule rebind_skip.IH)
    show "grows (length (show_event v e)) es (length (rr_items (bd_record b)))"
      using rebind_skip.prems(4) tidy by (auto simp: show_tidy split: if_splits)
    show "agrees exc es (rr_items (bd_record b)) (foldl show_event (show_event v e) es)"
      using rebind_skip.prems(5) rebind_skip.hyps(1) by (auto simp: agrees_def)
  qed (use rebind_skip.prems in auto)
  then show ?case by simp
next
  case (rebind_app e item tools ts b k r es es' b')
  have call: "item_event e" "call_event e" using rebind_app.hyps(1) unfolding carries_app_iff by (auto simp: call_event_def)
  have placed: "item_placed calls b e" using rebind_app.prems(2) call by simp
  note one = bind_one [OF rebind_app.prems(1) rebind_app.hyps(1) placed rebind_app.hyps(2,3)]
  let ?e1 = "jset ''item'' (JObj (item_with_tools tools item)) e"
  let ?v1 = "show_event v ?e1" and ?u = "show_event v e"
  let ?ds = "rr_items (bd_record b)"
  have tidy: "tidy e" "tidy ?e1" "list_all tidy es"
    using rebind_app.prems(2) call rebind_app.hyps(2) by (auto simp: tidy_def item_placed_def list_all_iff)
  have pos: "k \<le> length v" using rebind_app.prems(4) call one(1) by simp
  have views: "length ?u = length ?v1" "k < length ?u" "?v1 ! k = item_with_tools tools item"
      "length ?v1 = (if k = length v then Suc (length v) else length v)" "\<And>j. j < length ?u \<Longrightarrow> j \<noteq> k \<Longrightarrow> ?u ! j = ?v1 ! j"
    using call tidy(1,2) pos one(1) by (auto simp: show_tidy nth_append)
  note differ = replay_differ [OF tidy(3) views(1,2,5)]
  have later: "carries_app e'" if e': "e' \<in> set es" "item_event e'" "event_index e' = k" for e'
  proof -
    have p: "item_placed calls b e'" using rebind_app.prems(2) e' by simp
    have "place_of b (event_id e') = Some k" "place_of b (event_id e) = Some k"
      using p placed e'(3) one(1) by (simp_all add: item_placed_def)
    then have same: "event_id e' = event_id e" using index_inj [OF rebind_app.prems(1)] by blast
    have "event_id e \<in> calls" using placed call by (simp add: item_placed_def)
    moreover have "rr_message_id (bd_record b) \<notin> calls" using rebind_app.prems(1) by (simp add: builder_ok_def Let_def)
    ultimately have "call_event e'" using p same by (auto simp: item_placed_def split: if_splits)
    then show ?thesis using rebind_app.prems(3) rebind_app.hyps(1) e'(1) same by (simp add: stays_app_def)
  qed
  let ?b = "b\<lparr>bd_record := r\<rparr>"
  have items: "rr_items (bd_record ?b) = ?ds[k := item_with_tools tools item]" by (simp add: one(3))
  have "builder_ok calls b' \<and> same_turn ?b b' \<and> agrees exc [] (rr_items (bd_record b')) (foldl show_event ?v1 es')"
  proof (rule rebind_app.IH)
    show "builder_ok calls ?b" by (rule one(4))
    show "\<forall>e\<in>set es. item_event e \<longrightarrow> item_placed calls ?b e"
      using rebind_app.prems(2) by (auto simp: item_placed_def one(3))
    show "sorted_wrt stays_app es" using rebind_app.prems(3) by simp
    show "grows (length ?v1) es (length (rr_items (bd_record ?b)))"
      using rebind_app.prems(4) call views(4) one(1) unfolding items by (simp split: if_splits)
    show "agrees exc es (rr_items (bd_record ?b)) (foldl show_event ?v1 es)"
      unfolding agrees_def items
    proof (intro conjI allI impI)
      show "length (foldl show_event ?v1 es) = length (?ds[k := item_with_tools tools item])"
        using differ rebind_app.prems(5) by (simp add: agrees_def)
      fix j assume "j < length (?ds[k := item_with_tools tools item])"
      then have j: "j < length ?ds" "j < length (foldl show_event ?u es)" using rebind_app.prems(5) by (simp_all add: agrees_def)
      show "?ds[k := item_with_tools tools item] ! j = foldl show_event ?v1 es ! j \<or> exc j \<or> (\<exists>e\<in>set es. carries_app e \<and> event_index e = j)"
      proof (cases "j = k")
        case False
        have "foldl show_event ?u es ! j = foldl show_event ?v1 es ! j" using differ j(2) False by blast
        moreover have "?ds ! j = foldl show_event ?u es ! j \<or> exc j \<or> (\<exists>x\<in>set (e # es). carries_app x \<and> event_index x = j)"
          using rebind_app.prems(5) j(1) by (simp add: agrees_def)
        ultimately show ?thesis using False one(1) by auto
      next
        case True
        show ?thesis
        proof (cases "\<exists>e'\<in>set es. item_event e' \<and> event_index e' = k")
          case True
          then show ?thesis using later \<open>j = k\<close> by blast
        next
          case False
          have "foldl show_event ?v1 es ! k = ?v1 ! k"
            using replay_keep [OF tidy(3) _ False, of ?v1] views(1,2) by simp
          then show ?thesis using True views(3) j(1) by simp
        qed
      qed
    qed
  qed
  moreover have "same_turn b ?b" unfolding same_turn_def one(3) by (intro exI conjI, rule refl) simp
  ultimately show ?case using same_turn_trans by fastforce
next
  case (rebind_anonymous e item es ts b es' b' tools)
  have "item_event e" using rebind_anonymous.hyps(1) unfolding carries_app_iff by (auto simp: call_event_def)
  then have "item_placed calls b e" using rebind_anonymous.prems(2) by simp
  then show ?case using rebind_anonymous.hyps(2,3) by (auto simp: item_placed_def event_item_def is_str_def)
qed

section \<open>Published streams\<close>

text \<open>The first half of \<open>_publish_response_events\<close>: what is published in the place of a batch.\<close>

definition bind_batch :: "settings \<Rightarrow> string \<Rightarrow> string \<Rightarrow> string \<Rightarrow> obj list \<Rightarrow> builder
    \<Rightarrow> (obj list \<times> (string \<times> obj) list \<times> builder) io" where
  "bind_batch cfg rid sid thread es b = (if sv_apps cfg then bind_events rid sid thread es b else Done (es, [], b))"

lemma publish_batch:
  "publish_response_events cfg now rid sid thread es b =
     bind_io (bind_batch cfg rid sid thread es b) (\<lambda>(es', sides, b').
       WriteState (\<lambda>s. on_apps (publish_sides cfg rid now sides) (on_execution rid (publish_all es') (share rid b' s))) (Done b'))"
  by (simp add: publish_response_events_def bind_batch_def)

text \<open>
  A stream: every step of the builder makes a batch, the batch is bound, whatever the Worker answers and other
  tasks do meanwhile, and what comes out is published before the next step is taken from the bound builder.
\<close>

inductive published_as :: "settings \<Rightarrow> string \<Rightarrow> string \<Rightarrow> string \<Rightarrow> step list \<Rightarrow> builder \<Rightarrow> obj list \<Rightarrow> builder \<Rightarrow> bool"
  for cfg rid sid thread where
  published_none: "published_as cfg rid sid thread [] b [] b"
| published_batch:
    "f b = Some (es, b1) \<Longrightarrow> run (bind_batch cfg rid sid thread es b1) w s = (cs, Some (Inr (es', sides, b2)), t) \<Longrightarrow>
     published_as cfg rid sid thread fs b2 ps b' \<Longrightarrow> published_as cfg rid sid thread (f # fs) b (es' @ ps) b'"

inductive_cases published_Nil: "published_as cfg rid sid thread [] b ps b'"
inductive_cases published_Cons: "published_as cfg rid sid thread (f # fs) b ps b'"

text \<open>The steps of a response: the first events, the notifications until one is terminal, and the end of the driver.\<close>

definition feed_step :: "(json \<Rightarrow> string) \<Rightarrow> obj \<Rightarrow> step" where
  "feed_step dumps n b = (if bd_terminal b then no_events b else consume dumps n b)"

definition response_steps :: "(json \<Rightarrow> string) \<Rightarrow> obj list \<Rightarrow> driver_end \<Rightarrow> step list" where
  "response_steps dumps ns how = initial_events # map (feed_step dumps) ns @ [end_step how]"

lemma batch_cases:
  assumes "run (bind_batch cfg rid sid thread es b) w s = (cs, Some (Inr (es', sides, b')), t)"
  shows "rebinds es b es' b' \<or> es' = es \<and> b' = b"
proof (cases "sv_apps cfg")
  case True
  then show ?thesis using yields_run [OF bind_events_rebinds [of es b rid sid thread]] assms by (fastforce simp: bind_batch_def)
next
  case False
  then show ?thesis using assms by (simp add: bind_batch_def)
qed

lemma batch_empty: "run (bind_batch cfg rid sid thread [] b) w s = (cs, Some (Inr (es', sides, b')), t) \<Longrightarrow> es' = [] \<and> b' = b"
  by (auto simp: bind_batch_def split: if_splits)

text \<open>How the view of a client stands after a batch.\<close>

definition open_view :: "string set \<Rightarrow> builder \<Rightarrow> obj list \<Rightarrow> bool" where
  "open_view calls b v \<longleftrightarrow> builder_ok calls b \<and> placed b \<and> going b \<and> shown b v"

definition final_view :: "string set \<Rightarrow> builder \<Rightarrow> obj list \<Rightarrow> obj \<Rightarrow> bool" where
  "final_view calls b v e \<longleftrightarrow>
     bd_terminal b \<and> builder_ok calls b \<and> v = rr_items (bd_record b) \<and> terminal_event e
     \<and> (\<exists>d output. jget e ''response'' = JObj d \<and> jget d ''output'' = JList (map JObj output)
          \<and> map untooled output = map untooled (rr_items (bd_record b)))"

definition unfinished :: "builder \<Rightarrow> nat \<Rightarrow> bool" where
  "unfinished b k \<longleftrightarrow> rr_message_index (bd_record b) = Some k \<and> \<not> rr_completed (bd_record b)"

lemma shown_agrees: "shown b v \<longleftrightarrow> agrees (unfinished b) [] (rr_items (bd_record b)) v"
  by (auto simp: shown_def agrees_def unfinished_def Let_def)

lemma agrees_later: "agrees exc [] ds v \<Longrightarrow> agrees exc es ds v"
  by (auto simp: agrees_def)

lemma agrees_all: "agrees (\<lambda>k. False) [] ds v \<longleftrightarrow> v = ds"
  by (auto simp: agrees_def intro!: nth_equalityI)

lemma same_turn_frame:
  assumes "same_turn b b'"
  shows "going b' = going b" and "unfinished b' = unfinished b" and "bd_terminal b' = bd_terminal b" and "placed b \<Longrightarrow> placed b'"
  using assms by (auto simp: same_turn_def going_def unfinished_def placed_def fun_eq_iff Let_def)

lemma terminal_no_app: "terminal_event e \<Longrightarrow> \<not> carries_app e"
  unfolding carries_app_iff by (auto simp: terminal_event_def call_event_def item_event_def)

text \<open>What the client sees of a bound batch.\<close>

lemma bound_batch:
  assumes "ordered calls b es b1" and "length v = length (rr_items (bd_record b))" and "builder_ok calls b1"
    and "agrees exc [] (rr_items (bd_record b1)) (foldl show_event v es)" and "rebinds es b1 es' b2 \<or> es' = es \<and> b2 = b1"
  shows "builder_ok calls b2 \<and> same_turn b1 b2 \<and> agrees exc [] (rr_items (bd_record b2)) (foldl show_event v es')
    \<and> map untooled (foldl show_event v es) = map untooled (foldl show_event v es')
    \<and> (es \<noteq> [] \<and> \<not> carries_app (last es) \<longrightarrow> es' \<noteq> [] \<and> last es' = last es)"
  using assms(5)
proof
  assume r: "rebinds es b1 es' b2"
  have placed: "\<forall>e\<in>set es. item_event e \<longrightarrow> item_placed calls b1 e" and sorted: "sorted_wrt stays_app es"
      and grows: "grows (length v) es (length (rr_items (bd_record b1)))"
    using assms(1,2) by (simp_all add: ordered_def)
  have "list_all tidy es" using placed by (auto simp: list_all_iff tidy_def item_placed_def)
  then show ?thesis
    using rebinds_agrees [OF r assms(3) placed sorted grows agrees_later [OF assms(4)]] rebinds_untooled [OF r] rebinds_last [OF r]
    by blast
next
  assume "es' = es \<and> b2 = b1"
  then show ?thesis using assms(3,4) by simp
qed

lemma one_batch:
  assumes "open_view calls b v" and "serves calls f" and "orderly calls f" and "f b = Some (es, b1)"
    and "rebinds es b1 es' b2 \<or> es' = es \<and> b2 = b1"
  shows "open_view calls b2 (foldl show_event v es') \<or> (es' \<noteq> [] \<and> final_view calls b2 (foldl show_event v es') (last es'))"
proof -
  have b: "builder_ok calls b" "placed b" "going b" "shown b v" using assms(1) by (simp_all add: open_view_def)
  have ord: "ordered calls b es b1" using assms(3,4) b(2) by (auto simp: orderly_def)
  have len: "length v = length (rr_items (bd_record b))" using b(4) by (simp add: shown_def Let_def)
  have placed1: "placed b1" using ord by (simp add: ordered_def)
  consider (on) "builder_ok calls b1" "going b1" "shown b1 (foldl show_event v es)"
    | (over) "stream_done b es b1" "builder_ok calls b1"
    using assms(2,4) b unfolding serves_def streams_def ends_def by fastforce
  then show ?thesis
  proof cases
    case on
    have agree: "agrees (unfinished b1) [] (rr_items (bd_record b1)) (foldl show_event v es)" using on(3) by (simp add: shown_agrees)
    from bound_batch [OF ord len on(1) agree assms(5)]
    have "builder_ok calls b2" "same_turn b1 b2" "agrees (unfinished b1) [] (rr_items (bd_record b2)) (foldl show_event v es')"
      by blast+
    then have "open_view calls b2 (foldl show_event v es')"
      using on(2) placed1 same_turn_frame [of b1 b2] by (simp add: open_view_def shown_agrees)
    then show ?thesis ..
  next
    case over
    have e: "es \<noteq> []" "terminal_event (last es)" "jget (last es) ''response'' = JObj (response_json (bd_record b1))" "bd_terminal b1"
        "foldl show_event v es = rr_items (bd_record b1)"
      using over(1) b(4) by (auto simp: stream_done_def)
    have agree: "agrees (\<lambda>k. False) [] (rr_items (bd_record b1)) (foldl show_event v es)" by (simp add: agrees_all e(5))
    from bound_batch [OF ord len over(2) agree assms(5)]
    have b2: "builder_ok calls b2" "same_turn b1 b2" "foldl show_event v es' = rr_items (bd_record b2)"
        "map untooled (foldl show_event v es) = map untooled (foldl show_event v es')" "es' \<noteq> []" "last es' = last es"
      using e(1,2) terminal_no_app by (auto simp: agrees_all)
    have "jget (response_json (bd_record b1)) ''output'' = JList (map JObj (rr_items (bd_record b1)))" by (simp add: response_json_def)
    moreover have "map untooled (rr_items (bd_record b1)) = map untooled (rr_items (bd_record b2))" using b2(3,4) e(5) by simp
    ultimately have "final_view calls b2 (foldl show_event v es') (last es')"
      using b2 e same_turn_frame(3) [OF b2(2)] unfolding final_view_def by metis
    then show ?thesis using b2(5) by blast
  qed
qed

text \<open>Nothing is published after the terminal event.\<close>

definition steady :: "step \<Rightarrow> bool" where
  "steady f \<longleftrightarrow> (\<forall>b. bd_terminal b \<longrightarrow> f b = Some ([], b))"

lemma published_silent:
  "published_as cfg rid sid thread fs b ps b' \<Longrightarrow> list_all steady fs \<Longrightarrow> bd_terminal b \<Longrightarrow> ps = [] \<and> b' = b"
proof (induction rule: published_as.induct)
  case (published_batch f b es b1 w s cs es' sides b2 t fs ps b')
  then have "es = []" "b1 = b" by (auto simp: steady_def)
  then show ?case using published_batch batch_empty by (metis append_Nil list.pred_inject(2))
qed simp

lemma published_view:
  "published_as cfg rid sid thread fs b ps b' \<Longrightarrow> list_all (\<lambda>f. serves calls f \<and> orderly calls f) fs \<Longrightarrow> list_all steady (tl fs) \<Longrightarrow>
     open_view calls b v \<Longrightarrow>
     open_view calls b' (foldl show_event v ps) \<or> (ps \<noteq> [] \<and> final_view calls b' (foldl show_event v ps) (last ps))"
proof (induction arbitrary: v rule: published_as.induct)
  case (published_batch f b es b1 w s cs es' sides b2 t fs ps b')
  have steady: "list_all steady fs" using published_batch.prems(2) by simp
  have "serves calls f" "orderly calls f" using published_batch.prems(1) by simp_all
  from one_batch [OF published_batch.prems(3) this published_batch.hyps(1) batch_cases [OF published_batch.hyps(2)]]
  show ?case
  proof
    assume "open_view calls b2 (foldl show_event v es')"
    moreover have "list_all steady (tl fs)" using steady by (cases fs) simp_all
    ultimately have "open_view calls b' (foldl show_event (foldl show_event v es') ps)
        \<or> (ps \<noteq> [] \<and> final_view calls b' (foldl show_event (foldl show_event v es') ps) (last ps))"
      using published_batch.IH published_batch.prems(1) by simp
    then show ?thesis by auto
  next
    assume f: "es' \<noteq> [] \<and> final_view calls b2 (foldl show_event v es') (last es')"
    then have "bd_terminal b2" by (simp add: final_view_def)
    from published_silent [OF published_batch.hyps(3) steady this] show ?thesis using f by simp
  qed
qed simp

lemma steps_serve:
  assumes "ids_apart ns mid" and "calls = \<Union> (set ` call_ids ` set ns)"
  shows "list_all (\<lambda>f. serves calls f \<and> orderly calls f) (response_steps dumps ns how)" and "list_all steady (tl (response_steps dumps ns how))"
    and "mid \<noteq> []" and "mid \<notin> calls"
proof -
  have apart: "[] \<notin> calls" "\<And>n. n \<in> set ns \<Longrightarrow> set (call_ids n) \<subseteq> calls \<and> set (message_ids n) \<inter> calls = {}"
    using assms call_ids_nonempty unfolding ids_apart_def list_all_iff by blast+
  show "mid \<noteq> []" "mid \<notin> calls" using assms call_ids_nonempty unfolding ids_apart_def list_all_iff by blast+
  have initial: "serves calls initial_events" "orderly calls initial_events"
    by (rule serves_streams [OF streams_initial], rule closes_orderly [OF closes_initial])
  have ends: "serves calls (end_step how)" "orderly calls (end_step how)"
    by (cases how; simp add: serves_streams streams_no_events serves_ends ends_fail ends_incomplete
        closes_orderly closes_no_events closes_fail closes_incomplete)+
  have feed: "serves calls (feed_step dumps n) \<and> orderly calls (feed_step dumps n)" if "n \<in> set ns" for n
  proof
    have "serves calls (consume dumps n)" using serves_consume apart that by blast
    then show "serves calls (feed_step dumps n)"
      unfolding serves_def streams_def ends_def feed_step_def going_def by auto
    have "orderly calls (consume dumps n)" using orderly_consume apart(2) that by blast
    moreover have "orderly calls no_events" by (rule closes_orderly [OF closes_no_events])
    ultimately show "orderly calls (feed_step dumps n)" by (auto simp: orderly_def feed_step_def)
  qed
  show "list_all (\<lambda>f. serves calls f \<and> orderly calls f) (response_steps dumps ns how)"
    using initial ends feed by (simp add: response_steps_def list_all_iff)
  have "steady (end_step how)" by (cases how) (simp_all add: steady_def no_events_def fail_def incomplete_def)
  then show "list_all steady (tl (response_steps dumps ns how))"
    by (simp add: response_steps_def list_all_iff) (simp add: steady_def feed_step_def no_events_def)
qed

text \<open>
  C24. A client can rebuild the output from the published stream. Whatever the sessions of MCP Apps answer while
  the batches are bound, as long as every batch is published: keeping, for every output index, the item of the
  last item event, the client ends with exactly the items of the record, which a later retrieval of the response
  returns. The terminal event comes last, and its output is the same up to the list \<open>allowed_tools\<close> of MCP Apps, which
  the service fills in after the builder has made that event. The ids of tool calls must differ from those of messages.
\<close>

theorem stream_replays_output:
  assumes "ids_apart ns mid"
    and "published_as cfg rid sid thread (response_steps dumps ns how) (new_builder (create_response q items base resp mid now)) es b"
    and "bd_terminal b"
  shows "foldl show_event [] es = rr_items (bd_record b)
    \<and> to_response (bd_record b) = Some (response_json (bd_record b), bd_record b)
    \<and> jget (response_json (bd_record b)) ''output'' = JList (map JObj (rr_items (bd_record b)))
    \<and> es \<noteq> [] \<and> terminal_event (last es)
    \<and> (\<exists>d output. jget (last es) ''response'' = JObj d \<and> jget d ''output'' = JList (map JObj output)
         \<and> map untooled output = map untooled (rr_items (bd_record b)))"
proof -
  define calls where "calls = \<Union> (set ` call_ids ` set ns)"
  let ?b = "new_builder (create_response q items base resp mid now)"
  note steps = steps_serve [OF assms(1) calls_def]
  note start = new_builder_ok [OF steps(3,4)]
  have "placed ?b" by (simp add: placed_def new_builder_def create_response_def)
  then have "open_view calls ?b []" using start by (simp add: open_view_def)
  from published_view [OF assms(2) steps(1,2) this] assms(3)
  have final: "es \<noteq> []" "final_view calls b (foldl show_event [] es) (last es)" by (auto simp: open_view_def going_def)
  then show ?thesis using to_response_ok by (auto simp: final_view_def response_json_def)
qed

section \<open>A sample\<close>

text \<open>A turn that ends with a call of an MCP App; the Worker knows one enabled tool of the app.\<close>

definition app_turn :: obj where
  "app_turn = notification ''turn/completed'' [(''turn'', JObj [(''status'', JStr ''completed''), (''items'', JList [JObj
     [(''id'', JStr ''c1''), (''type'', JStr ''mcpToolCall''), (''server'', JStr ''s''), (''tool'', JStr ''t''), (''status'', JStr ''completed''),
      (''appContext'', JObj [(''resourceUri'', JStr ''ui://a''), (''connectorId'', JStr ''app'')]), (''result'', JObj [])]])])]"

definition tools_reply :: json where
  "tools_reply = JObj [(''apps'', JList [JObj [(''id'', JStr ''app''),
     (''toolSummaries'', JList [JObj [(''name'', JStr ''go''), (''isEnabled'', JBool True)]])]])]"

fun publish_steps ::
    "settings \<Rightarrow> string \<Rightarrow> string \<Rightarrow> string \<Rightarrow> world list \<Rightarrow> adapter \<Rightarrow> step list \<Rightarrow> builder \<Rightarrow> (obj list \<times> builder) option" where
  "publish_steps cfg rid sid thread w s [] b = Some ([], b)"
| "publish_steps cfg rid sid thread w s (f # fs) b =
     (case f b of
        None \<Rightarrow> None
      | Some (es, b1) \<Rightarrow>
          (case run (bind_batch cfg rid sid thread es b1) w s of
             (cs, Some (Inr (es', sides, b2)), t) \<Rightarrow>
               map_option (\<lambda>(ps, b'). (es' @ ps, b')) (publish_steps cfg rid sid thread w s fs b2)
           | _ \<Rightarrow> None))"

lemma publish_steps_published:
  "publish_steps cfg rid sid thread w s fs b = Some (ps, b') \<Longrightarrow> published_as cfg rid sid thread fs b ps b'"
proof (induction fs arbitrary: b ps)
  case (Cons f fs)
  then show ?case by (auto intro: published_batch split: option.splits prod.splits sum.splits)
qed (simp add: published_none)

definition tools_world :: "world list" where
  "tools_world = [says (Inr (FromClient (GotValue tools_reply)))]"

definition app_stream :: "(obj list \<times> builder) option" where
  "app_stream = publish_steps sample_settings ''resp_1'' ''s1'' ''t1'' tools_world empty_adapter
     (response_steps (\<lambda>v. ''{}'') [app_turn] TurnOver) (new_builder sample_response)"

definition item_tools :: "obj \<Rightarrow> json" where
  "item_tools item = jget (case jget (case jget item ''_meta'' of JObj m \<Rightarrow> m | _ \<Rightarrow> []) ''mcp_app'' of JObj d \<Rightarrow> d | _ \<Rightarrow> []) ''allowed_tools''"

lemma app_ids: "ids_apart [app_turn] ''msg_1''"
  by code_simp

text \<open>The record and the item events have the tool of the app; the terminal event still has the empty list.\<close>

lemma terminal_event_misses_tools:
  "map_option (\<lambda>(es, b). (bd_terminal b, map item_tools (rr_items (bd_record b)),
       case jget (case jget (last es) ''response'' of JObj d \<Rightarrow> d | _ \<Rightarrow> []) ''output'' of JList [JObj item] \<Rightarrow> item_tools item | _ \<Rightarrow> JNull))
     app_stream = Some (True, [JList [JStr ''go'']], JList [])"
  by code_simp

lemma stream_replays_output_witness:
  "\<exists>es b. published_as sample_settings ''resp_1'' ''s1'' ''t1'' (response_steps (\<lambda>v. ''{}'') [app_turn] TurnOver) (new_builder sample_response) es b
     \<and> foldl show_event [] es = rr_items (bd_record b) \<and> map item_tools (rr_items (bd_record b)) = [JList [JStr ''go'']]"
proof -
  obtain es b where b: "app_stream = Some (es, b)" "bd_terminal b" "map item_tools (rr_items (bd_record b)) = [JList [JStr ''go'']]"
    using terminal_event_misses_tools by auto
  have p: "published_as sample_settings ''resp_1'' ''s1'' ''t1'' (response_steps (\<lambda>v. ''{}'') [app_turn] TurnOver) (new_builder sample_response) es b"
    by (rule publish_steps_published) (use b(1) in \<open>simp only: app_stream_def\<close>)
  show ?thesis
    using stream_replays_output [OF app_ids p [unfolded sample_response_def] b(2)] p b(3) by (intro exI [of _ es] exI [of _ b]) simp
qed

text \<open>
  A batch is lost when the deadline of the turn falls into the binding of its apps: the builder is terminal and the
  record completed, the error of the deadline leaves \<open>publish_response_events\<close> before anything is published, and the
  handler of the driver adds no event to a terminal builder. The stream then ends without a terminal event.
\<close>

lemma deadline_loses_terminal_event:
  "case feed_step (\<lambda>v. ''{}'') app_turn (new_builder sample_response) of
     Some (es, b) \<Rightarrow> bd_terminal b \<and> list_ex terminal_event es
       \<and> fst (snd (run (publish_response_events sample_settings 0 ''resp_1'' ''s1'' ''t1'' es b) [says (Inl DeadlineReached)] empty_adapter))
           = Some (Inl DeadlineReached)
       \<and> map_option fst (fail ''Agent execution timed out'' b) = Some []
   | None \<Rightarrow> False"
  by code_simp

end
