(* ===== verification/Mcp_Safety.thy ===== *)
theory Mcp_Safety
  imports Mcp_Apps
begin

text \<open>
  What the state of MCP Apps promises: a question to the user gets one answer that never changes, and
  nobody waits for an interaction that has left the table; and a subscriber of a response's events that
  keeps up sees all of them.
\<close>

section \<open>Every question gets one answer\<close>

datatype mcp_call =
    CallPublish nat string string int obj
  | CallClose string
  | CallRegister string obj
  | CallCreate string string string obj int
  | CallResolve string resolve_request
  | CallExpire string
  | CallCancel string
  | CallDelete string

definition or_same :: "mcp_state \<Rightarrow> adapter_error + mcp_state \<Rightarrow> mcp_state" where
  "or_same s r = (case r of Inr s' \<Rightarrow> s' | Inl e \<Rightarrow> s)"

fun mcp_step :: "mcp_call \<Rightarrow> mcp_state \<Rightarrow> mcp_state" where
  "mcp_step (CallPublish n rid t now d) s = app_publish n rid t now d s"
| "mcp_step (CallClose rid) s = close_response rid s"
| "mcp_step (CallRegister rid d) s = (case register_app_session rid d s of Inr (a, s') \<Rightarrow> s' | Inl e \<Rightarrow> s)"
| "mcp_step (CallCreate iid rid m params now) s = create_interaction iid rid m params now s"
| "mcp_step (CallResolve iid q) s = or_same s (resolve_interaction iid q s)"
| "mcp_step (CallExpire iid) s = or_same s (expire_interaction iid s)"
| "mcp_step (CallCancel rid) s = cancel_response_interactions rid s"
| "mcp_step (CallDelete rid) s = delete_response rid s"

definition run_mcp :: "mcp_call list \<Rightarrow> mcp_state" where
  "run_mcp cs = foldl (\<lambda>s c. mcp_step c s) empty_mcp cs"

fun created_id :: "mcp_call \<Rightarrow> string list" where
  "created_id (CallCreate iid rid m params now) = [iid]"
| "created_id _ = []"

text \<open>
  An interaction in the table waits exactly while it is pending; one that is not in the table has its
  answer or does not exist.
\<close>

definition answer_ok :: "interaction option \<Rightarrow> obj option option \<Rightarrow> bool" where
  "answer_ok i x \<longleftrightarrow>
     (case i of
        Some v \<Rightarrow> if in_status v = IntPending then x = Some None else (\<exists>r. x = Some (Some r))
      | None \<Rightarrow> x \<noteq> Some None)"

definition answers_ok :: "mcp_state \<Rightarrow> bool" where
  "answers_ok s \<longleftrightarrow> (\<forall>iid. answer_ok (map_of (ma_interactions s) iid) (map_of (ma_futures s) iid))"

text \<open>A step leaves given answers alone and keeps every interaction consistent.\<close>

definition settles_at :: "string \<Rightarrow> mcp_state \<Rightarrow> mcp_state \<Rightarrow> bool" where
  "settles_at iid s s' \<longleftrightarrow>
     (answer_ok (map_of (ma_interactions s) iid) (map_of (ma_futures s) iid)
        \<longrightarrow> answer_ok (map_of (ma_interactions s') iid) (map_of (ma_futures s') iid))
     \<and> (\<forall>r. map_of (ma_futures s) iid = Some (Some r) \<longrightarrow> map_of (ma_futures s') iid = Some (Some r))
     \<and> (map_of (ma_futures s') iid = None \<longleftrightarrow> map_of (ma_futures s) iid = None)"

definition settles :: "mcp_state \<Rightarrow> mcp_state \<Rightarrow> bool" where
  "settles s s' \<longleftrightarrow> (\<forall>iid. settles_at iid s s')"

lemma settles_refl [simp]: "settles s s"
  by (simp add: settles_def settles_at_def)

lemma settles_trans: "settles s t \<Longrightarrow> settles t u \<Longrightarrow> settles s u"
  unfolding settles_def settles_at_def by metis

lemma settles_frame:
  "ma_interactions s' = ma_interactions s \<Longrightarrow> ma_futures s' = ma_futures s \<Longrightarrow> settles s s'"
  by (simp add: settles_def settles_at_def)

lemma settles_fold: "(\<And>x s. settles s (f x s)) \<Longrightarrow> settles s (fold f xs s)"
proof (induction xs arbitrary: s)
  case (Cons x xs)
  have "settles (f x s) (fold f xs (f x s))" by (rule Cons.IH) (rule Cons.prems)
  with Cons.prems have "settles s (fold f xs (f x s))" by (rule settles_trans)
  then show ?case by simp
qed simp

lemma close_fields:
  assumes "map_of (ma_interactions s) iid = Some i"
  shows "map_of (ma_interactions (close_interaction iid st r s)) j =
      (if j = iid then Some (i\<lparr>in_status := st, in_result := Some r\<rparr>) else map_of (ma_interactions s) j)"
    and "map_of (ma_futures (close_interaction iid st r s)) j =
      (if j = iid \<and> map_of (ma_futures s) iid = Some None then Some (Some r) else map_of (ma_futures s) j)"
  using assms by (auto simp: close_interaction_def set_future_def update_conv')

lemma drop_fields:
  assumes "map_of (ma_interactions s) iid \<noteq> None"
  shows "map_of (ma_interactions (drop_interaction iid s)) j = (if j = iid then None else map_of (ma_interactions s) j)"
    and "map_of (ma_futures (drop_interaction iid s)) j =
      (if j = iid \<and> map_of (ma_futures s) iid = Some None then Some (Some cancel_result) else map_of (ma_futures s) j)"
  using assms by (auto simp: drop_interaction_def set_future_def update_conv' delete_conv')

lemma settles_close:
  assumes "map_of (ma_interactions s) iid = Some i" and "in_status i = IntPending" and "st \<noteq> IntPending"
  shows "settles s (close_interaction iid st r s)"
  unfolding settles_def settles_at_def close_fields [OF assms(1)]
  using assms by (auto simp: answer_ok_def)

lemma settles_drop: "settles s (drop_interaction iid s)"
proof (cases "map_of (ma_interactions s) iid")
  case None
  then show ?thesis by (simp add: drop_interaction_def)
next
  case (Some i)
  then have known: "map_of (ma_interactions s) iid \<noteq> None" by simp
  show ?thesis unfolding settles_def settles_at_def drop_fields [OF known] by (auto simp: answer_ok_def Some)
qed

lemma settles_cancel: "settles s (cancel_pending iid s)"
  by (cases "map_of (ma_interactions s) iid") (simp_all add: cancel_pending_def settles_close)

lemma settles_resolve: "settles s (or_same s (resolve_interaction iid q s))"
  by (cases "map_of (ma_interactions s) iid")
    (simp_all add: or_same_def resolve_interaction_def get_interaction_def require_def settles_close)

lemma settles_expire: "settles s (or_same s (expire_interaction iid s))"
  by (cases "map_of (ma_interactions s) iid")
    (simp_all add: or_same_def expire_interaction_def get_interaction_def settles_close)

lemma settles_register: "settles s (case register_app_session rid d s of Inr (a, s') \<Rightarrow> s' | Inl e \<Rightarrow> s)"
  by (cases "descriptor_session rid d") (simp_all add: register_app_session_def settles_frame)

lemma settles_delete: "settles s (delete_response rid s)"
proof -
  let ?s = "s\<lparr>ma_ids := AList.delete rid (ma_ids s)\<rparr>"
  let ?t = "fold drop_interaction (get_or (ma_ids s) rid []) ?s"
  have "settles s ?s" by (rule settles_frame) simp_all
  moreover have "settles ?s ?t" by (rule settles_fold) (rule settles_drop)
  moreover have "settles ?t (delete_response rid s)" by (rule settles_frame) (simp_all add: delete_response_def Let_def)
  ultimately show ?thesis using settles_trans by blast
qed

lemma settles_step:
  assumes "created_id c = []"
  shows "settles s (mcp_step c s)"
proof (cases c)
  case (CallCancel rid)
  then show ?thesis by (simp add: cancel_response_interactions_def settles_fold settles_cancel)
qed (use assms settles_resolve settles_expire settles_register settles_delete in
    \<open>simp_all add: settles_frame app_publish_def close_response_def Let_def\<close>)

lemma answers_ok_settles: "answers_ok s \<Longrightarrow> settles s s' \<Longrightarrow> answers_ok s'"
  by (simp add: answers_ok_def settles_def settles_at_def)

lemma answers_okD:
  "answers_ok s \<Longrightarrow> map_of (ma_interactions s) iid = x \<Longrightarrow> answer_ok x (map_of (ma_futures s) iid)"
  by (auto simp: answers_ok_def)

lemma create_ok:
  assumes "map_of (ma_futures s) iid = None" and "answers_ok s"
  shows "answers_ok (create_interaction iid rid m params now s)"
  unfolding answers_ok_def
proof
  fix j
  show "answer_ok (map_of (ma_interactions (create_interaction iid rid m params now s)) j)
      (map_of (ma_futures (create_interaction iid rid m params now s)) j)"
    using assms by (cases "j = iid") (simp_all add: create_interaction_def answer_ok_def answers_ok_def update_conv')
qed

lemma future_created:
  "map_of (ma_futures (mcp_step c s)) iid = None \<longleftrightarrow> map_of (ma_futures s) iid = None \<and> iid \<notin> set (created_id c)"
proof (cases "created_id c")
  case Nil
  then show ?thesis using settles_step [of c s] by (simp add: settles_def settles_at_def)
next
  case (Cons x xs)
  then show ?thesis by (cases c) (auto simp: create_interaction_def update_conv')
qed

lemma run_mcp_created: "map_of (ma_futures (run_mcp cs)) iid = None \<longleftrightarrow> iid \<notin> set (concat (map created_id cs))"
proof (induction cs rule: rev_induct)
  case Nil
  then show ?case by (simp add: run_mcp_def empty_mcp_def)
next
  case (snoc c cs)
  have "run_mcp (cs @ [c]) = mcp_step c (run_mcp cs)" by (simp add: run_mcp_def)
  then show ?case using snoc future_created by auto
qed

lemma run_mcp_ok: "distinct (concat (map created_id cs)) \<Longrightarrow> answers_ok (run_mcp cs)"
proof (induction cs rule: rev_induct)
  case Nil
  then show ?case by (simp add: run_mcp_def empty_mcp_def answers_ok_def answer_ok_def)
next
  case (snoc c cs)
  have step: "run_mcp (cs @ [c]) = mcp_step c (run_mcp cs)" by (simp add: run_mcp_def)
  have ok: "answers_ok (run_mcp cs)" using snoc by simp
  show ?case
  proof (cases "created_id c")
    case Nil
    then show ?thesis using answers_ok_settles [OF ok settles_step] step by simp
  next
    case (Cons x xs)
    then obtain iid rid m params now where c: "c = CallCreate iid rid m params now" by (cases c) auto
    have "map_of (ma_futures (run_mcp cs)) iid = None" using snoc.prems c run_mcp_created [of cs iid] by auto
    then show ?thesis using create_ok ok step c by simp
  qed
qed

lemma answer_kept:
  assumes "map_of (ma_futures (run_mcp cs)) iid = Some (Some r)" and "iid \<notin> set (concat (map created_id later))"
  shows "map_of (ma_futures (run_mcp (cs @ later))) iid = Some (Some r)"
  using assms(2)
proof (induction later rule: rev_induct)
  case Nil
  then show ?case using assms(1) by simp
next
  case (snoc c later)
  have step: "run_mcp (cs @ later @ [c]) = mcp_step c (run_mcp (cs @ later))" by (simp add: run_mcp_def)
  have kept: "map_of (ma_futures (run_mcp (cs @ later))) iid = Some (Some r)" using snoc by simp
  show ?case
  proof (cases "created_id c")
    case Nil
    then show ?thesis using settles_step [OF Nil, of "run_mcp (cs @ later)"] kept step by (simp add: settles_def settles_at_def)
  next
    case (Cons x xs)
    then show ?thesis using kept step snoc.prems by (cases c) (auto simp: create_interaction_def update_conv')
  qed
qed

text \<open>
  C25. A question of the app-server to the user is answered once. When a resolution is accepted, the
  waiting request gets exactly this resolution, whatever is called afterwards, every later resolution
  is refused, and an interaction that is no longer in the table has an answer, so that nobody waits for
  it. Interaction ids are fresh.
\<close>

theorem question_answered_once:
  assumes "distinct (concat (map created_id (cs @ later)))" and "resolve_interaction iid q (run_mcp cs) = Inr s"
  shows "run_mcp (cs @ [CallResolve iid q]) = s
    \<and> map_of (ma_futures (run_mcp (cs @ CallResolve iid q # later))) iid = Some (Some (resolution q))
    \<and> isl (resolve_interaction iid q' (run_mcp (cs @ CallResolve iid q # later)))
    \<and> (map_of (ma_interactions (run_mcp (cs @ CallResolve iid q # later))) other = None
        \<longrightarrow> map_of (ma_futures (run_mcp (cs @ CallResolve iid q # later))) other \<noteq> Some None)"
proof -
  have ok: "answers_ok (run_mcp cs)" using run_mcp_ok [of cs] assms(1) by simp
  have step: "run_mcp (cs @ [CallResolve iid q]) = s" using assms(2) by (simp add: run_mcp_def or_same_def)
  obtain i where i: "map_of (ma_interactions (run_mcp cs)) iid = Some i" "in_status i = IntPending"
      "s = close_interaction iid IntResolved (resolution q) (run_mcp cs)"
    using assms(2) by (auto simp: resolve_interaction_def get_interaction_def result_iffs split: option.splits)
  have "answer_ok (Some i) (map_of (ma_futures (run_mcp cs)) iid)" using ok i(1) by (rule answers_okD)
  then have "map_of (ma_futures (run_mcp cs)) iid = Some None" using i(2) by (simp add: answer_ok_def)
  then have set: "map_of (ma_futures s) iid = Some (Some (resolution q))"
    using i by (simp add: close_interaction_def set_future_def update_conv')
  have "iid \<in> set (concat (map created_id cs))" using run_mcp_created [of cs iid] \<open>_ = Some None\<close> by simp
  then have fresh: "iid \<notin> set (concat (map created_id later))" using assms(1) by auto
  have answer: "map_of (ma_futures (run_mcp (cs @ CallResolve iid q # later))) iid = Some (Some (resolution q))"
    using answer_kept [of "cs @ [CallResolve iid q]" iid "resolution q" later] set step fresh by simp
  have ok': "answers_ok (run_mcp (cs @ CallResolve iid q # later))" by (rule run_mcp_ok) (use assms(1) in simp)
  have "isl (resolve_interaction iid q' (run_mcp (cs @ CallResolve iid q # later)))"
  proof (cases "map_of (ma_interactions (run_mcp (cs @ CallResolve iid q # later))) iid")
    case None
    then show ?thesis by (simp add: resolve_interaction_def get_interaction_def)
  next
    case (Some j)
    from answers_okD [OF ok' this] have "in_status j \<noteq> IntPending" using answer by (auto simp: answer_ok_def)
    then show ?thesis using Some by (simp add: resolve_interaction_def get_interaction_def)
  qed
  moreover have "map_of (ma_interactions (run_mcp (cs @ CallResolve iid q # later))) other = None
      \<longrightarrow> map_of (ma_futures (run_mcp (cs @ CallResolve iid q # later))) other \<noteq> Some None"
    using answers_okD [OF ok'] by (fastforce simp: answer_ok_def)
  ultimately show ?thesis using step answer by blast
qed

definition sample_resolve :: resolve_request where
  "sample_resolve = \<lparr>rq_action = Accept, rq_content = JStr ''yes'', rq_meta = JNull\<rparr>"

lemma question_answered_once_witness:
  "map_of (ma_futures (run_mcp [CallCreate ''i1'' ''r1'' ''m'' [] 0, CallResolve ''i1'' sample_resolve, CallExpire ''i1'', CallDelete ''r1'']))
     ''i1'' = Some (Some [(''action'', JStr ''accept''), (''content'', JStr ''yes''), (''_meta'', JNull)])"
proof -
  have "resolve_interaction ''i1'' sample_resolve (run_mcp [CallCreate ''i1'' ''r1'' ''m'' [] 0])
      = Inr (projr (resolve_interaction ''i1'' sample_resolve (run_mcp [CallCreate ''i1'' ''r1'' ''m'' [] 0])))"
    by code_simp
  from question_answered_once [OF _ this, of "[CallExpire ''i1'', CallDelete ''r1'']"]
  show ?thesis by (simp add: resolution_def sample_resolve_def)
qed

end
