(* ===== verification/Driver_Safety.thy ===== *)
theory Driver_Safety
  imports Adapter_Driver Adapter_Safety
begin

text \<open>
  The driver and the Worker together: the notifications that reach the builder of a response are exactly
  the events that the Worker has published since the cursor, each once and in order, whatever streams
  break in between; a missing event ends the turn with an error instead of a silent gap.
\<close>

lemma keeps_leaf:
  "keeps f (lift_result r)" "keeps f (ask c g)" "keeps f clock" "keeps f (pause a)" "(ok \<Longrightarrow> keeps f p) \<Longrightarrow> keeps f (guard_io ok e p)"
  by (auto simp: lift_result_def ask_def clock_def pause_def guard_io_def split: sum.split option.split world_reply.split)

lemmas keeps_intros = keeps_bind keeps_catch keeps_leaf

section \<open>The builder and the cursor of a turn\<close>

definition view :: "string \<Rightarrow> adapter \<Rightarrow> builder option \<times> int option" where
  "view rid s = (builder_of rid s, map_option ax_cursor (get_active rid s))"

lemma view_apps [simp]: "view rid (on_apps f s) = view rid s" "view rid (s\<lparr>ad_apps := m\<rparr>) = view rid s"
  by (simp_all add: view_def on_apps_def builder_of_def get_active_def)

lemma view_execution:
  "(\<And>a. ax_cursor (f a) = ax_cursor a) \<Longrightarrow> view rid (on_execution rid' f s) = view rid s"
  by (auto simp: view_def on_execution_def builder_of_def get_active_def update_conv' split: option.split)

lemma publish_cursor [simp]: "ax_cursor (publish_all es a) = ax_cursor a"
proof -
  have "ax_cursor (fold (put_queue xs) ps a) = ax_cursor a" for xs ps
    by (induction ps arbitrary: a) (auto simp: put_queue_def)
  then show ?thesis by (simp add: publish_all_def)
qed

lemma view_share: "view rid (share rid b s) = (Some b, snd (view rid s))"
  by (simp add: view_def share_def builder_of_def get_active_def Let_def update_conv')

lemma view_publish: "view rid (on_execution rid (publish_all es) (share rid b s)) = (Some b, snd (view rid s))"
  by (simp add: view_execution view_share)

lemma view_move: "snd (view (tn_response x) s) \<noteq> None \<Longrightarrow> view (tn_response x) (move_to x i s) = (fst (view (tn_response x) s), Some i)"
  by (auto simp: view_def move_to_def on_execution_def builder_of_def get_active_def update_conv' split: option.split)

lemma view_simps:
  "builder_of rid s = fst (view rid s)" "snd (view rid s) = Some i \<Longrightarrow> cursor_of rid s = i"
  by (auto simp: view_def cursor_of_def split: option.splits)

text \<open>Binding the sessions of apps changes only the targets and the items of the record.\<close>

definition bound :: "builder \<Rightarrow> builder \<Rightarrow> bool" where
  "bound b b' \<longleftrightarrow> (\<exists>ts ds ks. b' = b\<lparr>bd_record := (bd_record b)\<lparr>rr_targets := ts, rr_items := ds, rr_indexes := ks\<rparr>\<rparr>)"

lemma bound_refl [simp]: "bound b b"
proof -
  have "b = b\<lparr>bd_record := (bd_record b)\<lparr>rr_targets := rr_targets (bd_record b), rr_items := rr_items (bd_record b),
      rr_indexes := rr_indexes (bd_record b)\<rparr>\<rparr>" by simp
  then show ?thesis unfolding bound_def by blast
qed

lemma bound_trans: "bound a b \<Longrightarrow> bound b c \<Longrightarrow> bound a c"
  unfolding bound_def by fastforce

lemma bound_add:
  assumes "add_output_item item r = Some (k, r')"
  shows "\<exists>ds ks. r' = r\<lparr>rr_items := ds, rr_indexes := ks\<rparr>"
proof -
  obtain i where i: "as_str (jget item ''id'') = Some i" "i \<noteq> []"
    using assms by (cases "as_str (jget item ''id'')") (auto simp: add_output_item_def split: if_splits)
  show ?thesis
  proof (cases "output_index r i")
    case None
    then have "r' = r\<lparr>rr_items := rr_items r @ [item], rr_indexes := AList.update i (length (rr_items r)) (rr_indexes r)\<rparr>"
      using assms i by (auto simp: add_output_item_def Let_def)
    then show ?thesis by blast
  next
    case (Some j)
    then have "r' = r\<lparr>rr_items := (rr_items r)[j := item], rr_indexes := rr_indexes r\<rparr>"
      using assms i by (auto simp add: add_output_item_def Let_def)
    then show ?thesis by blast
  qed
qed

definition calm :: "adapter_error \<Rightarrow> bool" where
  "calm e \<longleftrightarrow> \<not> reconnectable e"

lemma calm_simps [simp]: "calm Unexpected" "calm (InvalidRequest m p c)" "calm TaskCancelled" "calm DeadlineReached" "calm (TerminalExecution m)"
  by (simp_all add: calm_def reconnectable_def)

lemma bound_item:
  assumes "add_output_item i (register_mcp_app_target call d (bd_record b)) = Some (k, r2)"
  shows "bound b (b\<lparr>bd_record := r2\<rparr>)"
proof -
  from bound_add [OF assms] obtain ds ks where
      "r2 = (register_mcp_app_target call d (bd_record b))\<lparr>rr_items := ds, rr_indexes := ks\<rparr>" by blast
  then have "r2 = (bd_record b)\<lparr>rr_targets := AList.update call d (rr_targets (bd_record b)), rr_items := ds, rr_indexes := ks\<rparr>"
    by (simp add: register_mcp_app_target_def)
  then show ?thesis unfolding bound_def by blast
qed

lemma bound_target: "bound b (b\<lparr>bd_record := register_mcp_app_target call d (bd_record b)\<rparr>)"
proof -
  have "register_mcp_app_target call d (bd_record b) = (bd_record b)\<lparr>rr_targets := AList.update call d (rr_targets (bd_record b)),
      rr_items := rr_items (bd_record b), rr_indexes := rr_indexes (bd_record b)\<rparr>"
    by (simp add: register_mcp_app_target_def)
  then show ?thesis unfolding bound_def by metis
qed

lemma bind_record_yields: "yields (\<lambda>(i, b'). bound b b') calm (bind_record call tools item d b)"
  unfolding bind_record_def Let_def
  by (simp add: bound_target split: option.split) (auto dest: bound_item)

lemma load_tools_yields: "yields (\<lambda>ts. True) calm (load_app_allowed_tools sid thread d)"
  unfolding load_app_allowed_tools_def
  by (auto intro!: yields_catch [OF yields_any] simp: is_exception_def split: option.split)

lemma register_error: "register_app_session rid d m = Inl e \<Longrightarrow> calm e"
  by (auto simp: register_app_session_def descriptor_session_def rbind_Inl_iff require_def invalid_descriptor_def
      split: option.splits prod.splits if_splits)

lemma bind_app_yields: "yields (\<lambda>(i, b'). bound b b') calm (bind_app_session rid sid thread item d b)"
  unfolding bind_app_session_def
  by (auto intro!: yields_bind [OF load_tools_yields] bind_record_yields dest: register_error
      simp: invalid_descriptor_def split: option.split sum.split)

lemma bind_events_yields: "yields (\<lambda>(es', sides, b'). bound b b') calm (bind_events rid sid thread es b)"
proof (induction es arbitrary: b)
  case (Cons e es)
  have skip: "yields (\<lambda>(es', sides, b'). bound b b') calm (bind_io (bind_events rid sid thread es b) (\<lambda>(es', side, b'). Done (f es', side, b')))" for f
    by (rule yields_bind [OF Cons]) auto
  show ?case
  proof (cases "mcp_app_side_event e")
    case None
    then show ?thesis using skip by simp
  next
    case (Some y)
    obtain t data where y: "y = (t, data)" by (cases y)
    show ?thesis
    proof (cases "jget data ''item''")
      case (JObj item)
      have "yields (\<lambda>(es', sides, b'). bound b b') calm
          (bind_io (bind_events rid sid thread es b1) (\<lambda>(es', side, b'). Done (g es', h side, b')))" if "bound b b1" for b1 g h
        by (rule yields_bind [OF Cons]) (use that bound_trans in auto)
      then show ?thesis using Some y JObj by (auto intro!: yields_bind [OF bind_app_yields])
    qed (use skip Some y in auto)
  qed
qed simp

section \<open>One event\<close>

text \<open>What an event does to the builder, and what a sequence of events does.\<close>

definition takes :: "turn \<Rightarrow> builder \<Rightarrow> agent_event \<Rightarrow> builder \<Rightarrow> bool" where
  "takes x b e b' \<longleftrightarrow>
     (if fst (snd e) = Notification \<and> belongs_to_execution (snd (snd e)) (tn_thread x) (tn_turn x)
      then \<exists>es b1. consume (tn_dumps x) (snd (snd e)) b = Some (es, b1) \<and> bound b1 b'
      else b' = b)"

inductive fed :: "turn \<Rightarrow> builder \<Rightarrow> agent_event list \<Rightarrow> builder \<Rightarrow> bool" for x where
  fed_none: "fed x b [] b"
| fed_one: "takes x b e b1 \<Longrightarrow> fed x b1 es b2 \<Longrightarrow> fed x b (e # es) b2"

inductive_simps fed_Nil [simp]: "fed x b [] b'"
inductive_simps fed_Cons: "fed x b (e # es) b'"

abbreviation cursor_view :: "string \<Rightarrow> adapter \<Rightarrow> int option" where
  "cursor_view rid s \<equiv> snd (view rid s)"

lemma bind_events_keeps: "keeps (cursor_view rid) (bind_events rid sid thread es b)"
proof (induction es arbitrary: b)
  case (Cons e es)
  have app: "keeps (cursor_view rid) (bind_app_session rid sid thread item d b)" for item d b
    unfolding bind_app_session_def load_app_allowed_tools_def bind_record_def Let_def
    by (auto intro!: keeps_intros split: option.split sum.split)
  show ?case using Cons
    by (auto intro!: keeps_intros app simp: view_share split: option.split json.split)
qed simp

lemma spare_cursor: "spare (view rid) w \<Longrightarrow> spare (cursor_view rid) w"
  by (auto simp: spare_def list_all_iff)

lemma publish_run:
  assumes "run (publish_response_events cfg now rid sid thread es b) w s = (cs, Some r, t)" and "spare (view rid) w"
  shows "case r of Inr b' \<Rightarrow> bound b b' \<and> view rid t = (Some b', cursor_view rid s) | Inl e \<Rightarrow> calm e"
proof -
  let ?p = "if sv_apps cfg then bind_events rid sid thread es b else Done (es, [], b)"
  obtain cs1 r1 t1 where first: "run ?p w s = (cs1, r1, t1)" by (rule prod_cases3)
  have "keeps (cursor_view rid) ?p" using bind_events_keeps by simp
  from keeps_run [OF this spare_cursor [OF assms(2)] first] have cursor: "cursor_view rid t1 = cursor_view rid s" .
  have y: "yields (\<lambda>(es', sides, b'). bound b b') calm ?p" using bind_events_yields by simp
  obtain x where x: "r1 = Some x"
    using assms(1) first by (cases r1) (simp_all add: publish_response_events_def run_bind)
  from yields_run [OF y first [unfolded x]] show ?thesis
    using assms(1) first x cursor by (cases x) (auto simp: publish_response_events_def run_bind view_publish)
qed

lemma consume_run:
  assumes "run (consume_notification x m) w s = (cs, Some r, t)" and "spare (view (tn_response x)) w"
    and "view (tn_response x) s = (Some b, Some c)"
  shows "case r of Inr u \<Rightarrow> \<exists>b'. view (tn_response x) t = (Some b', Some c) \<and> takes x b (i, Notification, m) b' | Inl e \<Rightarrow> calm e"
proof (cases "belongs_to_execution m (tn_thread x) (tn_turn x)")
  case False
  then show ?thesis using assms by (auto simp: consume_notification_def takes_def)
next
  case True
  have b: "builder_of (tn_response x) s = Some b" using assms(3) by (simp add: view_def)
  show ?thesis
  proof (cases "consume (tn_dumps x) m b")
    case None
    then show ?thesis using assms(1) True b by (auto simp: consume_notification_def)
  next
    case (Some y)
    obtain es b1 where y: "y = (es, b1)" by (cases y)
    let ?s = "share (tn_response x) b1 s"
    let ?p = "publish_response_events (tn_cfg x) (tn_now x) (tn_response x) (tn_sandbox x) (tn_thread x) es b1"
    obtain cs1 r1 t1 where first: "run ?p w ?s = (cs1, r1, t1)" by (rule prod_cases3)
    obtain z where z: "r1 = Some z" using assms(1) True b Some y first by (cases r1) (simp_all add: consume_notification_def run_bind)
    from publish_run [OF first [unfolded z] assms(2)] show ?thesis
      using assms True b Some y first z by (cases z) (auto simp: consume_notification_def run_bind view_share takes_def)
  qed
qed

lemma request_keeps: "keeps (view rid) (handle_agent_request x d)"
  unfolding handle_agent_request_def handle_server_request_def await_answer_def answer_request_def Let_def
  by (auto intro!: keeps_intros split: json.split option.split sum.split world_reply.split)

definition off_stream :: "await \<Rightarrow> bool" where
  "off_stream c \<longleftrightarrow> (case c of AwaitOpen sid i \<Rightarrow> False | AwaitEvent sid \<Rightarrow> False | _ \<Rightarrow> True)"

lemma off_stream_simps [simp]:
  "off_stream (AwaitCall c)" "off_stream AwaitClock" "off_stream (AwaitSleep d)" "off_stream (AwaitAnswer i)"
  by (simp_all add: off_stream_def)

lemma event_off_stream: "awaits off_stream (drive_event x e)"
proof -
  have app: "awaits off_stream (bind_app_session rid sid thread item d b)" for rid sid thread item d b
    unfolding bind_app_session_def load_app_allowed_tools_def bind_record_def Let_def
    by (auto intro!: awaits_intros split: option.split sum.split)
  have binds: "awaits off_stream (bind_events rid sid thread es b)" for rid sid thread es b
    by (induction es arbitrary: b) (auto intro!: awaits_intros app split: option.split json.split)
  have request: "awaits off_stream (handle_agent_request x d)" for d
    unfolding handle_agent_request_def handle_server_request_def await_answer_def answer_request_def Let_def
    by (auto intro!: awaits_intros split: json.split option.split sum.split world_reply.split)
  have notification: "awaits off_stream (consume_notification x m)" for m
    unfolding consume_notification_def publish_response_events_def
    by (auto intro!: awaits_intros binds split: option.split)
  show ?thesis unfolding drive_event_def
    by (cases e) (auto intro!: awaits_intros request notification split: option.split event_type.split)
qed

lemma drive_event_run:
  assumes "run (drive_event x (i, t, d)) w s = (cs, Some r, u)" and "spare (view (tn_response x)) w"
    and "view (tn_response x) s = (Some b, Some c)"
  shows "case r of
      Inr a \<Rightarrow> i \<le> c + 1 \<and> (\<exists>b'. view (tn_response x) u = (Some b', Some i) \<and> takes x b (i, t, d) b')
    | Inl e \<Rightarrow> reconnectable e \<longrightarrow> view (tn_response x) u = (Some b, Some c)"
proof -
  have c: "cursor_of (tn_response x) s = c" using assms(3) by (simp add: view_simps)
  show ?thesis
  proof (cases "lease_error_of (tn_response x) s")
    case (Some e)
    then show ?thesis using assms(1,3) by (auto simp: drive_event_def)
  next
    case None
    note n = None
    show ?thesis
    proof (cases "c + 1 < i")
      case True
      then show ?thesis using assms(1,3) n c by (auto simp: drive_event_def gap_error_def reconnectable_def)
    next
      case False
      let ?p = "case t of ServerRequest \<Rightarrow> handle_agent_request x d
          | SessionFailed \<Rightarrow> Raise (TerminalExecution (str_or (tn_str x) (jget d ''message'') ''Sandbox worker session failed''))
          | Notification \<Rightarrow> consume_notification x d"
      obtain cs1 r1 u1 where first: "run ?p w s = (cs1, r1, u1)" by (rule prod_cases3)
      obtain z where z: "r1 = Some z" using assms(1) n c False first by (cases r1) (simp_all add: drive_event_def run_bind)
      have "case z of Inr a \<Rightarrow> (\<exists>b'. view (tn_response x) u1 = (Some b', Some c) \<and> takes x b (i, t, d) b')
          | Inl e \<Rightarrow> reconnectable e \<longrightarrow> view (tn_response x) u1 = (Some b, Some c)"
      proof (cases t)
        case Notification
        then show ?thesis using consume_run [OF _ assms(2,3), of d cs1 z u1 i] first z
          by (auto simp: calm_def split: sum.splits)
      next
        case ServerRequest
        then have "view (tn_response x) u1 = view (tn_response x) s"
          using keeps_run [OF request_keeps assms(2)] first by simp
        then show ?thesis using assms(3) ServerRequest by (auto simp: takes_def split: sum.split)
      next
        case SessionFailed
        then show ?thesis using first z assms(3) by (auto simp: reconnectable_def)
      qed
      then show ?thesis using assms(1) n c False first z
        by (cases z) (auto simp: drive_event_def run_bind view_move)
    qed
  qed
qed

section \<open>The loop\<close>

text \<open>
  \<open>feed i\<close> is the event with the number \<open>i\<close> of the Worker. Every stream delivers events of the feed with
  growing numbers, above the cursor that it was opened with; it may leave events out, which happens when
  the history of the Worker has dropped them.
\<close>

fun streams_ok :: "(int \<Rightarrow> event_type \<times> obj) \<Rightarrow> int \<Rightarrow> await list \<Rightarrow> world list \<Rightarrow> bool" where
  "streams_ok feed pos (AwaitOpen sid after # cs) (x # xs) = streams_ok feed after cs xs"
| "streams_ok feed pos (AwaitEvent sid # cs) (x # xs) =
     (case wd_reply x of
        Inr (NextEvent (Some (i, e))) \<Rightarrow> pos < i \<and> feed i = e \<and> streams_ok feed i cs xs
      | _ \<Rightarrow> streams_ok feed pos cs xs)"
| "streams_ok feed pos (c # cs) (x # xs) = streams_ok feed pos cs xs"
| "streams_ok feed pos cs xs = True"

lemma streams_ok_off:
  "list_all off_stream cs \<Longrightarrow> length cs \<le> length w \<Longrightarrow> streams_ok feed pos (cs @ cs') w = streams_ok feed pos cs' (drop (length cs) w)"
proof (induction cs arbitrary: w)
  case (Cons c cs)
  then obtain x xs where w: "w = x # xs" by (cases w) auto
  show ?case using Cons w by (cases c) (auto simp: off_stream_def)
qed simp

definition slice :: "(int \<Rightarrow> event_type \<times> obj) \<Rightarrow> int \<Rightarrow> nat \<Rightarrow> agent_event list" where
  "slice feed c n = map (\<lambda>k. (c + 1 + int k, feed (c + 1 + int k))) [0..<n]"

lemma slice_Suc: "slice feed c (Suc n) = (c + 1, feed (c + 1)) # slice feed (c + 1) n"
proof -
  have "[0..<Suc n] = 0 # map Suc [0..<n]" by (simp only: upt_conv_Cons zero_less_Suc map_Suc_upt)
  then show ?thesis by (simp add: slice_def algebra_simps comp_def del: upt_Suc)
qed

definition open_stream :: "turn \<Rightarrow> bool \<Rightarrow> int \<Rightarrow> unit io" where
  "open_stream x opened c = (if opened then Done () else pause (AwaitOpen (tn_sandbox x) c))"

definition attempt :: "turn \<Rightarrow> bool \<Rightarrow> int \<Rightarrow> bool io" where
  "attempt x opened c =
     catch_io (bind_io (open_stream x opened c) (\<lambda>_. bind_io (next_event x) (\<lambda>e. bind_io (drive_event x e) (\<lambda>_. Done True))))
       (\<lambda>e. if reconnectable e then bind_io (reconnect x e) (\<lambda>_. Done False) else Raise e)"

lemma loop_attempt:
  "drive_loop (Suc n) x opened = ReadState (\<lambda>s. if turn_over (tn_response x) s then Done ()
     else bind_io (attempt x opened (cursor_of (tn_response x) s)) (drive_loop n x))"
  by (simp add: attempt_def open_stream_def cong: if_cong)

lemma reconnect_keeps: "keeps (view rid) (reconnect x e)"
  unfolding reconnect_def by (auto intro!: keeps_intros split: option.split)

lemma reconnect_off: "awaits off_stream (reconnect x e)"
  unfolding reconnect_def by (auto intro!: awaits_intros split: option.split)

text \<open>After an error of the stream nothing has changed, whether or not the stream was lost.\<close>

lemma recover_run:
  assumes "run (if reconnectable e then bind_io (reconnect x e) (\<lambda>_. Done False) else Raise e) w s = (cs, Some (Inr ok), t)"
    and "spare (view (tn_response x)) w"
  shows "reconnectable e \<and> \<not> ok \<and> view (tn_response x) t = view (tn_response x) s \<and> list_all off_stream cs \<and> length cs \<le> length w"
proof -
  have e: "reconnectable e" using assms(1) by (cases "reconnectable e") simp_all
  obtain cs1 r1 t1 where first: "run (reconnect x e) w s = (cs1, r1, t1)" by (rule prod_cases3)
  obtain z where z: "r1 = Some (Inr z)" using assms(1) e first by (auto simp: run_bind split: option.splits sum.splits)
  have "list_all off_stream cs1" using run_awaits [OF reconnect_off first] .
  moreover have "length cs1 \<le> length w" using run_length [OF first [unfolded z]] .
  moreover have "view (tn_response x) t1 = view (tn_response x) s" using keeps_run [OF reconnect_keeps assms(2) first] .
  ultimately show ?thesis using assms(1) e first z by (simp add: run_bind)
qed

lemma take_event_run:
  assumes "run (catch_io (bind_io (next_event x) (\<lambda>e. bind_io (drive_event x e) (\<lambda>_. Done True)))
        (\<lambda>e. if reconnectable e then bind_io (reconnect x e) (\<lambda>_. Done False) else Raise e)) w s = (cs, Some (Inr ok), t)"
    and "spare (view (tn_response x)) w" and "view (tn_response x) s = (Some b, Some c)"
    and "streams_ok feed c (cs @ cs') w"
  shows "if ok
    then \<exists>b'. view (tn_response x) t = (Some b', Some (c + 1)) \<and> takes x b (c + 1, feed (c + 1)) b'
      \<and> streams_ok feed (c + 1) cs' (drop (length cs) w)
    else view (tn_response x) t = (Some b, Some c) \<and> (\<exists>pos. streams_ok feed pos cs' (drop (length cs) w))"
proof (cases w)
  case Nil
  then show ?thesis using assms(1) by (simp add: next_event_def)
next
  case (Cons y ys)
  note w = Cons
  have y: "view (tn_response x) (wd_others y s) = (Some b, Some c)" "spare (view (tn_response x)) ys"
    using assms(2,3) Cons by simp_all
  have lost: ?thesis
    if again: "run (if reconnectable e then bind_io (reconnect x e) (\<lambda>_. Done False) else Raise e) (drop k ys) s' = (cs2, Some (Inr ok), t)"
      and cs: "cs = AwaitEvent (tn_sandbox x) # cs1 @ cs2" and off: "list_all off_stream cs1" "k = length cs1" "k \<le> length ys"
      and kept: "reconnectable e \<longrightarrow> view (tn_response x) s' = (Some b, Some c)" for e k s' cs1 cs2
  proof -
    from recover_run [OF again spare_drop [OF y(2)]]
    have rec: "reconnectable e" "\<not> ok" "view (tn_response x) t = view (tn_response x) s'" "list_all off_stream cs2"
        "length cs2 \<le> length (drop k ys)" by simp_all
    have "\<exists>pos. streams_ok feed pos (cs1 @ cs2 @ cs') ys"
      using assms(4) cs w by (auto split: sum.splits world_reply.splits option.splits)
    then have "\<exists>pos. streams_ok feed pos cs' (drop (length (cs1 @ cs2)) ys)"
      using streams_ok_off [of "cs1 @ cs2" ys feed _ cs'] off rec(4,5) by simp
    then show ?thesis using rec kept cs w by auto
  qed
  show ?thesis
  proof (cases "wd_reply y")
    case (Inl e)
    obtain cs2 where "run (if reconnectable e then bind_io (reconnect x e) (\<lambda>_. Done False) else Raise e) ys (wd_others y s)
        = (cs2, Some (Inr ok), t)" "cs = AwaitEvent (tn_sandbox x) # cs2"
      using assms(1) w Inl by (auto simp: next_event_def split: prod.splits)
    then show ?thesis using lost [of e 0 "wd_others y s" cs2 "[]"] y(1) by simp
  next
    case (Inr a)
    show ?thesis
    proof (cases "\<exists>i e. a = NextEvent (Some (i, e))")
      case False
      obtain e where "run (if reconnectable e then bind_io (reconnect x e) (\<lambda>_. Done False) else Raise e) ys (wd_others y s)
          = (tl cs, Some (Inr ok), t)" "cs = AwaitEvent (tn_sandbox x) # tl cs"
        using assms(1) w Inr False by (auto simp: next_event_def split: prod.splits world_reply.splits option.splits)
      then show ?thesis using lost [of e 0 "wd_others y s" "tl cs" "[]"] y(1) by simp
    next
      case True
      then obtain i ty d where a: "a = NextEvent (Some (i, ty, d))" by (metis prod.exhaust)
      have order: "c < i" "feed i = (ty, d)" "streams_ok feed i (tl cs @ cs') ys"
        using assms(1,4) w Inr a by (auto simp: next_event_def split: prod.splits)
      obtain cs1 r1 t1 where first: "run (drive_event x (i, ty, d)) ys (wd_others y s) = (cs1, r1, t1)" by (rule prod_cases3)
      obtain z where z: "r1 = Some z"
        using assms(1) w Inr a first by (cases r1) (simp_all add: next_event_def run_bind run_catch)
      have off: "list_all off_stream cs1" "length cs1 \<le> length ys"
        using run_awaits [OF event_off_stream first] run_length [OF first [unfolded z]] by blast+
      note ev = drive_event_run [OF first [unfolded z] y(2,1)]
      show ?thesis
      proof (cases z)
        case (Inl e)
        obtain cs2 where "run (if reconnectable e then bind_io (reconnect x e) (\<lambda>_. Done False) else Raise e) (drop (length cs1) ys) t1
            = (cs2, Some (Inr ok), t)" "cs = AwaitEvent (tn_sandbox x) # cs1 @ cs2"
          using assms(1) w Inr a first z Inl by (auto simp: next_event_def run_bind run_catch split: prod.splits)
        then show ?thesis using lost [of e "length cs1" t1 cs2 cs1] off ev Inl by simp
      next
        case (Inr v)
        have run: "cs = AwaitEvent (tn_sandbox x) # cs1" "ok" "t = t1"
          using assms(1) w \<open>wd_reply y = Inr a\<close> a first z Inr by (auto simp: next_event_def run_bind run_catch)
        have i: "i = c + 1" using ev Inr order(1) by simp
        show ?thesis using ev Inr run i order streams_ok_off [OF off, of feed i cs'] w by auto
      qed
    qed
  qed
qed

lemma attempt_run:
  assumes "run (attempt x opened c) w s = (cs, Some (Inr ok), t)" and "spare (view (tn_response x)) w"
    and "view (tn_response x) s = (Some b, Some c)" and "streams_ok feed pos (cs @ cs') w" and "opened \<longrightarrow> pos = c"
  shows "if ok
    then \<exists>b'. view (tn_response x) t = (Some b', Some (c + 1)) \<and> takes x b (c + 1, feed (c + 1)) b'
      \<and> streams_ok feed (c + 1) cs' (drop (length cs) w)
    else view (tn_response x) t = (Some b, Some c) \<and> (\<exists>pos. streams_ok feed pos cs' (drop (length cs) w))"
proof (cases opened)
  case True
  then show ?thesis using assms take_event_run [OF _ assms(2,3)] by (simp add: attempt_def open_stream_def)
next
  case False
  note new = False
  show ?thesis
  proof (cases w)
    case Nil
    then show ?thesis using assms(1) False by (simp add: attempt_def open_stream_def pause_def)
  next
    case (Cons y ys)
    have y: "view (tn_response x) (wd_others y s) = (Some b, Some c)" "spare (view (tn_response x)) ys"
      using assms(2,3) Cons by simp_all
    show ?thesis
    proof (cases "wd_reply y")
      case (Inl e)
      obtain cs2 where again: "run (if reconnectable e then bind_io (reconnect x e) (\<lambda>_. Done False) else Raise e) ys (wd_others y s)
          = (cs2, Some (Inr ok), t)" and cs: "cs = AwaitOpen (tn_sandbox x) c # cs2"
        using assms(1) new Cons Inl by (auto simp: attempt_def open_stream_def pause_def split: prod.splits)
      from recover_run [OF again y(2)]
      have rec: "reconnectable e" "\<not> ok" "view (tn_response x) t = view (tn_response x) (wd_others y s)" "list_all off_stream cs2"
          "length cs2 \<le> length ys" by simp_all
      have "streams_ok feed c (cs2 @ cs') ys" using assms(4) cs Cons by simp
      then have "streams_ok feed c cs' (drop (length cs2) ys)" using streams_ok_off [OF rec(4,5)] by simp
      then show ?thesis using rec y(1) cs Cons by auto
    next
      case (Inr a)
      obtain cs2 where run: "run (catch_io (bind_io (next_event x) (\<lambda>e. bind_io (drive_event x e) (\<lambda>_. Done True)))
          (\<lambda>e. if reconnectable e then bind_io (reconnect x e) (\<lambda>_. Done False) else Raise e)) ys (wd_others y s)
          = (cs2, Some (Inr ok), t)" and cs: "cs = AwaitOpen (tn_sandbox x) c # cs2"
        using assms(1) new Cons Inr by (auto simp: attempt_def open_stream_def pause_def split: prod.splits)
      have "streams_ok feed c (cs2 @ cs') ys" using assms(4) cs Cons by simp
      from take_event_run [OF run y(2,1) this] show ?thesis using cs Cons by simp
    qed
  qed
qed

lemma drive_loop_run:
  assumes "run (drive_loop n x opened) w s = (cs, Some (Inr u), t)" and "spare (view (tn_response x)) w"
    and "view (tn_response x) s = (Some b, Some c)" and "streams_ok feed pos cs w" and "opened \<longrightarrow> pos = c"
  shows "\<exists>k b'. view (tn_response x) t = (Some b', Some (c + int k)) \<and> fed x b (slice feed c k) b' \<and> bd_terminal b'"
  using assms
proof (induction n arbitrary: opened w s cs b c pos)
  case 0
  then show ?case by simp
next
  case (Suc n)
  have c: "cursor_of (tn_response x) s = c" using Suc.prems(3) by (simp add: view_simps)
  show ?case
  proof (cases "turn_over (tn_response x) s")
    case True
    then have "s = t" "bd_terminal b" using Suc.prems(1,3) by (auto simp: turn_over_def view_simps)
    then show ?thesis using Suc.prems(3) by (intro exI [of _ 0] exI [of _ b]) (simp add: slice_def)
  next
    case False
    obtain cs1 r1 t1 where first: "run (attempt x opened c) w s = (cs1, r1, t1)" by (rule prod_cases3)
    obtain ok cs2 where ok: "r1 = Some (Inr ok)" "cs = cs1 @ cs2"
        "run (drive_loop n x ok) (drop (length cs1) w) t1 = (cs2, Some (Inr u), t)"
      using Suc.prems(1) False first unfolding loop_attempt
      by (auto simp: c run_bind split: option.splits sum.splits prod.splits)
    note att = attempt_run [OF first [unfolded ok(1)] Suc.prems(2,3) _ Suc.prems(5), of feed cs2]
    have ok_streams: "streams_ok feed pos (cs1 @ cs2) w" using Suc.prems(4) ok(2) by simp
    note rest = Suc.IH [OF ok(3) spare_drop [OF Suc.prems(2)]]
    show ?thesis
    proof (cases ok)
      case True
      then obtain b1 where b1: "view (tn_response x) t1 = (Some b1, Some (c + 1))" "takes x b (c + 1, feed (c + 1)) b1"
          "streams_ok feed (c + 1) cs2 (drop (length cs1) w)"
        using att [OF ok_streams] by auto
      from rest [OF b1(1,3)] obtain k b' where k: "view (tn_response x) t = (Some b', Some (c + 1 + int k))"
          "fed x b1 (slice feed (c + 1) k) b'" "bd_terminal b'" by auto
      have "fed x b (slice feed c (Suc k)) b'" unfolding slice_Suc using b1(2) k(2) by (rule fed_one)
      then show ?thesis using k by (intro exI [of _ "Suc k"] exI [of _ b']) (simp add: algebra_simps)
    next
      case False
      then obtain pos' where "view (tn_response x) t1 = (Some b, Some c)" "streams_ok feed pos' cs2 (drop (length cs1) w)"
        using att [OF ok_streams] by auto
      then show ?thesis using rest False by auto
    qed
  qed
qed

text \<open>The streams of the Worker are such streams: a read above \<open>pos\<close> gives events of its log with growing numbers.\<close>

lemma numbered_nth: "e \<in> set (numbered a ds) \<Longrightarrow> snd e = ds ! nat (fst e - a)"
proof (induction ds arbitrary: a)
  case (Cons d ds)
  show ?case
  proof (cases "e = (a, d)")
    case False
    then have e: "e \<in> set (numbered (a + 1) ds)" using Cons.prems by simp
    from numbered_numbers [OF this] have "nat (fst e - a) = Suc (nat (fst e - (a + 1)))" by linarith
    then show ?thesis using Cons.IH [OF e] by simp
  qed simp
qed simp

lemma numbered_sorted: "sorted_wrt (\<lambda>x y. fst x < fst y) (numbered a ds)"
proof (induction ds arbitrary: a)
  case (Cons d ds)
  then show ?case using numbered_numbers [of _ "a + 1" ds] by fastforce
qed simp

lemma worker_stream:
  assumes "el_events l = last_n cap (numbered 0 ds)"
  shows "sorted_wrt (\<lambda>x y. fst x < fst y) (fst (log_read pos l))
    \<and> list_all (\<lambda>e. pos < fst e \<and> snd e = ds ! nat (fst e)) (fst (log_read pos l))"
  using assms numbered_sorted [of 0 ds]
  by (auto simp: log_read_def newer_def last_n_def list_all_iff sorted_wrt_filter sorted_wrt_drop
      dest!: in_set_dropD numbered_nth)

text \<open>
  C31. The driver loses no event: when the turn of a response ends, its builder has consumed exactly the
  notifications of the turn among the events that the Worker has numbered from the start of the turn up
  to the cursor, each once and in order, however often the stream broke and was opened again. An event
  after a gap is never consumed: it ends the turn with an error that is not retried.
\<close>

theorem driver_loses_nothing:
  assumes "run (drive_loop n x False) w s = (cs, Some (Inr u), t)" and "spare (view (tn_response x)) w"
    and "view (tn_response x) s = (Some b, Some c)" and "streams_ok feed c cs w"
  shows "(\<exists>k b'. view (tn_response x) t = (Some b', Some (c + int k)) \<and> fed x b (slice feed c k) b' \<and> bd_terminal b')
    \<and> (lease_error_of (tn_response x) s = None \<longrightarrow> c + 1 < i
        \<longrightarrow> run (drive_event x (i, e)) w' s = ([], Some (Inl gap_error), s) \<and> \<not> reconnectable gap_error)"
proof -
  have "cursor_of (tn_response x) s = c" using assms(3) by (simp add: view_simps)
  then show ?thesis using drive_loop_run [OF assms] by (cases e) (simp add: drive_event_def gap_error_def reconnectable_def)
qed

definition sample_turn :: turn where
  "sample_turn = \<lparr>tn_cfg = sample_settings\<lparr>sv_apps := False\<rparr>, tn_dumps = (\<lambda>v. []), tn_str = (\<lambda>v. []), tn_fresh = (\<lambda>s. ''i''),
     tn_response = ''r1'', tn_sandbox = ''s1'', tn_thread = ''t1'', tn_turn = ''u1'', tn_now = 0, tn_deadline = 10\<rparr>"

definition turn_adapter :: adapter where
  "turn_adapter = empty_adapter\<lparr>ad_active := [(''r1'', new_execution ''r1'' ''s1'' ''t1'' ''u1'' 4)],
     ad_builders := [(''r1'', new_builder (create_response sample_create [] [] ''r1'' ''m1'' 0))]\<rparr>"

definition sample_done :: obj where
  "sample_done = [(''method'', JStr ''turn/completed''), (''params'', JObj [(''turn'', JObj [(''status'', JStr ''completed'')])])]"

text \<open>The stream breaks before the event and is opened again.\<close>

definition turn_world :: "world list" where
  "turn_world = [says (Inr Woken), says (Inl (UpstreamProtocol ''reset'' JNull)), says (Inr (AtTime 1)),
     says (Inr (FromClient (GotSandbox sample_sandbox))), says (Inr (FromClient (GotSandbox sample_sandbox))), says (Inr Woken),
     says (Inr Woken), says (Inr (NextEvent (Some (5, Notification, sample_done))))]"

lemma driver_loses_nothing_witness:
  "case run (drive_loop 3 sample_turn False) turn_world turn_adapter of
     (cs, r, t) \<Rightarrow> r = Some (Inr ())
       \<and> (\<exists>k b'. view ''r1'' t = (Some b', Some (4 + int k)) \<and> bd_terminal b'
            \<and> fed sample_turn (new_builder (create_response sample_create [] [] ''r1'' ''m1'' 0))
                (slice (\<lambda>i. (Notification, sample_done)) 4 k) b')"
proof -
  let ?p = "drive_loop 3 sample_turn False"
  obtain cs r t where run: "run ?p turn_world turn_adapter = (cs, r, t)" by (rule prod_cases3)
  have "fst (snd (run ?p turn_world turn_adapter)) = Some (Inr ())"
    and "streams_ok (\<lambda>i. (Notification, sample_done)) 4 (fst (run ?p turn_world turn_adapter)) turn_world"
    by code_simp+
  then have r: "r = Some (Inr ())" "streams_ok (\<lambda>i. (Notification, sample_done)) 4 cs turn_world" by (simp_all add: run)
  have w: "spare (view (tn_response sample_turn)) turn_world" by (simp add: turn_world_def spare_def says_def)
  have v: "view (tn_response sample_turn) turn_adapter = (Some (new_builder (create_response sample_create [] [] ''r1'' ''m1'' 0)), Some 4)"
    by (simp add: view_def turn_adapter_def sample_turn_def builder_of_def get_active_def new_execution_def)
  have "tn_response sample_turn = ''r1''" by (simp add: sample_turn_def)
  with driver_loses_nothing [OF run [unfolded r(1)] w v r(2), THEN conjunct1] show ?thesis unfolding run using r(1) by auto
qed

end
