(* ===== verification/Adapter_Pages.thy ===== *)
theory Adapter_Pages
  imports Adapter_Errors Codec
begin

text \<open>
  The HTML pages of MCP Apps, \<open>src/src/codex_responses_adapter/csp.py\<close>: the page that the adapter serves for
  a resource of an app, with a content security policy that the app may widen only by naming sources.
\<close>

section \<open>The policy\<close>

definition safe_source :: "json \<Rightarrow> string option" where
  "safe_source v =
     (case v of
        JStr s \<Rightarrow>
          (let source = strip s
           in if source = [] \<or> CHR '';'' \<in> set source \<or> CHR 10 \<in> set source \<or> CHR 13 \<in> set source then None else Some source)
      | _ \<Rightarrow> None)"

definition safe_sources :: "json \<Rightarrow> string list" where
  "safe_sources v = (case v of JList vs \<Rightarrow> List.map_filter safe_source vs | _ \<Rightarrow> [])"

definition contains_key :: "string \<Rightarrow> obj \<Rightarrow> bool" where
  "contains_key k d \<longleftrightarrow> map_of d k \<noteq> None"

text \<open>The deprecated flat names of the metadata.\<close>

definition flat_default :: "string \<Rightarrow> string \<Rightarrow> obj \<Rightarrow> obj \<Rightarrow> obj" where
  "flat_default k flat meta d =
     (if \<not> contains_key k d \<and> as_obj (jget meta flat) \<noteq> None then jset k (jget meta flat) d else d)"

definition ui_meta :: "json \<Rightarrow> obj" where
  "ui_meta v =
     (case v of
        JObj meta \<Rightarrow>
          flat_default ''permissions'' ''ui/permissions'' meta
            (flat_default ''csp'' ''ui/csp'' meta (case as_obj (jget meta ''ui'') of Some ui \<Rightarrow> ui | None \<Rightarrow> []))
      | _ \<Rightarrow> [])"

definition directive :: "string \<Rightarrow> string list \<Rightarrow> string" where
  "directive name sources = name @ '' '' @ join_with '' '' (fromkeys sources)"

definition self_token :: string where "self_token = quoted ''self''"
definition none_token :: string where "none_token = quoted ''none''"
definition inline_token :: string where "inline_token = quoted ''unsafe-inline''"

definition or_none :: "string list \<Rightarrow> string list" where
  "or_none ss = (if ss = [] then [none_token] else ss)"

text \<open>The directives with their sources, in the order of the header.\<close>

definition policy :: "json \<Rightarrow> (string \<times> string list) list" where
  "policy v =
     (let csp = (case as_obj (jget (ui_meta v) ''csp'') of Some d \<Rightarrow> d | None \<Rightarrow> []);
          resource = safe_sources (jget csp ''resourceDomains'')
      in [(''default-src'', [none_token]),
          (''script-src'', [self_token, inline_token] @ resource),
          (''style-src'', [self_token, inline_token] @ resource),
          (''img-src'', [self_token, ''data:'', ''blob:''] @ resource),
          (''font-src'', [self_token, ''data:''] @ resource),
          (''media-src'', [self_token, ''data:'', ''blob:''] @ resource),
          (''worker-src'', [self_token, ''blob:''] @ resource),
          (''connect-src'', or_none (safe_sources (jget csp ''connectDomains''))),
          (''frame-src'', or_none (safe_sources (jget csp ''frameDomains''))),
          (''base-uri'', or_none (safe_sources (jget csp ''baseUriDomains''))),
          (''object-src'', [none_token]),
          (''form-action'', [none_token])])"

definition build_mcp_app_csp :: "json \<Rightarrow> string" where
  "build_mcp_app_csp v = join_with ''; '' (map (\<lambda>(n, ss). directive n ss) (policy v)) @ '';''"

section \<open>The page\<close>

text \<open>\<open>base64.b64decode(blob, validate=True)\<close>: the standard alphabet in whole groups of four.\<close>

definition b64_standard :: "char \<Rightarrow> nat option" where
  "b64_standard c = (if c = CHR ''-'' \<or> c = CHR ''_'' then None else b64_value c)"

fun b64_strict :: "string \<Rightarrow> bytes option" where
  "b64_strict [] = Some []"
| "b64_strict (a # b # c # d # cs) =
     (case (b64_standard a, b64_standard b) of
        (Some x, Some y) \<Rightarrow>
          (if c = CHR ''='' then (if d = CHR ''='' \<and> cs = [] then Some [word_of_nat (x * 4 + y div 16)] else None)
           else (case b64_standard c of
               None \<Rightarrow> None
             | Some z \<Rightarrow>
                 (if d = CHR ''='' then
                    (if cs = [] then Some [word_of_nat (x * 4 + y div 16), word_of_nat (y mod 16 * 16 + z div 4)] else None)
                  else (case b64_standard d of
                      None \<Rightarrow> None
                    | Some w \<Rightarrow>
                        map_option (\<lambda>bs. word_of_nat (x * 4 + y div 16) # word_of_nat (y mod 16 * 16 + z div 4)
                           # word_of_nat (z mod 4 * 64 + w) # bs) (b64_strict cs)))))
      | _ \<Rightarrow> None)"
| "b64_strict _ = None"

record page =
  pg_body :: bytes
  pg_mime :: string
  pg_headers :: "(string \<times> string) list"

definition mcp_app_mime :: string where
  "mcp_app_mime = ''text/html;profile=mcp-app''"

definition select_content :: "string \<Rightarrow> json list \<Rightarrow> obj option" where
  "select_content uri contents =
     (let ds = List.map_filter as_obj contents
      in case find (\<lambda>d. jget d ''uri'' = JStr uri) ds of Some d \<Rightarrow> Some d | None \<Rightarrow> (case ds of [] \<Rightarrow> None | d # _ \<Rightarrow> Some d))"

definition content_bytes :: "obj \<Rightarrow> adapter_error + bytes" where
  "content_bytes d =
     (case jget d ''text'' of
        JStr t \<Rightarrow> Inr (utf8 t)
      | _ \<Rightarrow>
          (case jget d ''blob'' of
             JStr b \<Rightarrow>
               (case b64_strict b of
                  Some bs \<Rightarrow> Inr bs
                | None \<Rightarrow> Inl (InvalidRequest ''MCP resource blob is not valid base64.'' (Some ''blob'') ''invalid_mcp_resource_blob''))
           | _ \<Rightarrow> Inl (InvalidRequest ''MCP resource did not contain text or blob content.'' None ''invalid_mcp_resource'')))"

definition render_mcp_resource :: "obj \<Rightarrow> string \<Rightarrow> nat \<Rightarrow> adapter_error + page" where
  "render_mcp_resource payload uri max_bytes =
     (case as_list (jget payload ''contents'') of
        None \<Rightarrow> Inl (ResourceNotFound uri)
      | Some contents \<Rightarrow>
          (case select_content uri contents of
             None \<Rightarrow> Inl (ResourceNotFound uri)
           | Some d \<Rightarrow>
               (let mime = (case py_or (jget d ''mimeType'') (jget d ''mime_type'') of
                      JStr m \<Rightarrow> m | _ \<Rightarrow> ''application/octet-stream'')
                in rbind (content_bytes d) (\<lambda>raw.
                     require (length raw \<le> max_bytes)
                       (InvalidRequest ''MCP App resource exceeds the configured size limit.'' None ''mcp_app_resource_too_large'')
                       (Inr \<lparr>pg_body = raw, pg_mime = mime,
                          pg_headers = [(''Cache-Control'', ''no-store''), (''X-Content-Type-Options'', ''nosniff''),
                              (''Content-Disposition'', ''inline'')]
                            @ (if starts_with mcp_app_mime (lower mime)
                               then [(''Content-Security-Policy'', build_mcp_app_csp (jget d ''_meta''))] else [])\<rparr>)))))"

section \<open>How a browser reads the policy\<close>

text \<open>
  A browser reads the header as a list of policies with commas in between, and enforces them all. The directives
  of a policy have semicolons in between; the first word of a directive, in lower case, is its name, the other words are its
  sources, and the first directive of a name counts. Words are separated by the white space of ASCII only, and
  a directive with other characters than ASCII is skipped. This is the algorithm of the standard
  (Content Security Policy Level 3, 2.2), not code of the repository.
\<close>

definition is_blank :: "char \<Rightarrow> bool" where
  "is_blank c \<longleftrightarrow> c \<in> {CHR '' '', CHR 9, CHR 10, CHR 12, CHR 13}"

definition is_ascii :: "char \<Rightarrow> bool" where
  "is_ascii c \<longleftrightarrow> (of_char c :: nat) < 128"

fun split_words :: "string \<Rightarrow> string list" where
  "split_words [] = [[]]"
| "split_words (c # s) = (if is_blank c then [] # split_words s
     else (case split_words s of [] \<Rightarrow> [[c]] | w # ws \<Rightarrow> (c # w) # ws))"

definition words :: "string \<Rightarrow> string list" where
  "words s = filter (\<lambda>w. w \<noteq> []) (split_words s)"

definition browser_directive :: "string \<Rightarrow> (string \<times> string list) option" where
  "browser_directive d =
     (if \<not> list_all is_ascii d then None else (case words d of [] \<Rightarrow> None | n # ss \<Rightarrow> Some (lower n, ss)))"

definition browser_policy :: "string \<Rightarrow> (string \<times> string list) list" where
  "browser_policy t = List.map_filter browser_directive (split_on CHR '';'' t)"

definition browser_policies :: "string \<Rightarrow> (string \<times> string list) list list" where
  "browser_policies header = filter (\<lambda>p. p \<noteq> []) (map browser_policy (split_on CHR '','' header))"

text \<open>The sources that govern a fetch: those of its directive, else those of \<open>default-src\<close>, else all.\<close>

definition governing :: "(string \<times> string list) list \<Rightarrow> string \<Rightarrow> string list" where
  "governing p n =
     (case map_of p n of
        Some ss \<Rightarrow> ss
      | None \<Rightarrow> (case map_of p ''default-src'' of Some ss \<Rightarrow> ss | None \<Rightarrow> [''*'']))"

text \<open>The directives with that fallback (\<open>worker-src\<close> has \<open>script-src\<close> in between).\<close>

definition fetch_directives :: "string list" where
  "fetch_directives = [''script-src'', ''style-src'', ''img-src'', ''font-src'', ''media-src'', ''connect-src'', ''frame-src'', ''object-src'']"

text \<open>What the adapter put into a directive, cut at white space and commas.\<close>

definition pieces :: "string \<Rightarrow> string list" where
  "pieces s = words (map (\<lambda>c. if c = CHR '','' then CHR '' '' else c) s)"

definition named_sources :: "json \<Rightarrow> string \<Rightarrow> string list" where
  "named_sources v n = (case map_of (policy v) n of Some ss \<Rightarrow> concat (map pieces ss) | None \<Rightarrow> [])"

definition clean_sources :: "json \<Rightarrow> bool" where
  "clean_sources v \<longleftrightarrow> list_all (\<lambda>(n, ss). list_all (\<lambda>s. list_all is_ascii s \<and> CHR '','' \<notin> set s) ss) (policy v)"

section \<open>Words\<close>

lemma split_words_not_Nil [simp]: "split_words s \<noteq> []"
  by (induction s) (auto split: list.splits)

lemma split_words_append: "is_blank c \<Longrightarrow> split_words (a @ c # b) = split_words a @ split_words b"
  by (induction a) (auto split: list.splits simp: append_eq_Cons_conv)

lemma words_append: "is_blank c \<Longrightarrow> words (a @ c # b) = words a @ words b"
  by (simp add: words_def split_words_append)

lemma words_blank: "is_blank c \<Longrightarrow> words (c # s) = words s"
  by (simp add: words_def)

lemma words_Nil [simp]: "words [] = []"
  by (simp add: words_def)

lemma blank_space [simp]: "is_blank CHR '' ''" "is_ascii CHR '' ''"
  by (simp_all add: is_blank_def is_ascii_def)

lemma words_plain: "list_all (\<lambda>c. \<not> is_blank c) w \<Longrightarrow> w \<noteq> [] \<Longrightarrow> words w = [w]"
proof -
  have "split_words w = [w]" if "list_all (\<lambda>c. \<not> is_blank c) w" for w using that by (induction w) auto
  then show "list_all (\<lambda>c. \<not> is_blank c) w \<Longrightarrow> w \<noteq> [] \<Longrightarrow> words w = [w]" by (simp add: words_def)
qed

lemma words_join: "words (join_with '' '' ss) = concat (map words ss)"
proof (induction "'' ''" ss rule: join_with.induct)
  case (3 w v vs)
  then show ?case using words_append [of "CHR '' ''" w "join_with '' '' (v # vs)"] by simp
qed simp_all

lemma pieces_join: "pieces (join_with '' '' ss) = concat (map pieces ss)"
proof (induction "'' ''" ss rule: join_with.induct)
  case (3 w v vs)
  then show ?case
    using words_append [of "CHR '' ''" "map (\<lambda>c. if c = CHR '','' then CHR '' '' else c) w"
        "map (\<lambda>c. if c = CHR '','' then CHR '' '' else c) (join_with '' '' (v # vs))"]
    by (simp add: pieces_def)
qed (simp_all add: pieces_def)

text \<open>Up to the first comma, the words are pieces.\<close>

lemma takeWhile_id: "c \<notin> set s \<Longrightarrow> takeWhile (\<lambda>x. x \<noteq> c) s = s"
  by (induction s) auto

abbreviation before_comma :: "string \<Rightarrow> string" where
  "before_comma s \<equiv> takeWhile (\<lambda>c. c \<noteq> CHR '','') s"

lemma no_comma_pieces: "CHR '','' \<notin> set s \<Longrightarrow> pieces s = words s"
proof -
  assume "CHR '','' \<notin> set s"
  then have "map (\<lambda>c. if c = CHR '','' then CHR '' '' else c) s = s" by (auto intro: map_idI)
  then show "pieces s = words s" by (simp add: pieces_def)
qed

lemma words_before_comma: "set (words (before_comma s)) \<subseteq> set (pieces s)"
proof (cases "CHR '','' \<in> set s")
  case True
  then obtain a b where s: "s = a @ CHR '','' # b" "CHR '','' \<notin> set a" by (meson split_list_first)
  have "pieces s = pieces a @ words (map (\<lambda>c. if c = CHR '','' then CHR '' '' else c) b)"
    using words_append [of "CHR '' ''"] by (simp add: pieces_def s(1))
  moreover have "before_comma s = a" using s by (simp add: takeWhile_append)
  ultimately show ?thesis using no_comma_pieces [OF s(2)] by simp
next
  case False
  then show ?thesis unfolding no_comma_pieces [OF False] takeWhile_id [OF False] by simp
qed

section \<open>Directives\<close>

definition plain_name :: "string \<Rightarrow> bool" where
  "plain_name n \<longleftrightarrow> n \<noteq> [] \<and> list_all (\<lambda>c. \<not> is_blank c \<and> is_ascii c \<and> c \<noteq> CHR '','' \<and> c \<noteq> CHR '';'') n \<and> lower n = n"

lemma plain_nameD:
  assumes "plain_name n"
  shows "words n = [n]" and "list_all is_ascii n" and "CHR '','' \<notin> set n" and "CHR '';'' \<notin> set n" and "lower n = n"
proof -
  have "list_all (\<lambda>c. \<not> is_blank c) n" using assms by (auto simp: plain_name_def list_all_iff)
  then show "words n = [n]" using words_plain [of n] assms by (simp add: plain_name_def)
  show "list_all is_ascii n" "CHR '','' \<notin> set n" "CHR '';'' \<notin> set n" "lower n = n"
    using assms by (auto simp: plain_name_def list_all_iff)
qed

lemma words_directive:
  assumes "plain_name n"
  shows "words (n @ '' '' @ s) = n # words s"
  using words_append [of "CHR '' ''" n s] plain_nameD(1) [OF assms] by simp

text \<open>A directive that is cut at a comma has only pieces of its sources.\<close>

lemma cut_directive:
  assumes "plain_name n" and "browser_directive (before_comma (directive n ss)) = Some (m, us)"
  shows "m = n \<and> set us \<subseteq> set (concat (map pieces ss))"
proof -
  let ?j = "join_with '' '' (fromkeys ss)"
  have cut: "before_comma (directive n ss) = n @ '' '' @ before_comma ?j"
    using plain_nameD(3) [OF assms(1)] by (auto simp: directive_def takeWhile_append)
  have "m = n" "us = words (before_comma ?j)"
    using assms(2) unfolding browser_directive_def cut words_directive [OF assms(1)]
    by (auto simp: plain_nameD(5) [OF assms(1)] split: if_splits)
  moreover have "set (pieces ?j) = set (concat (map pieces ss))" by (simp add: pieces_join)
  ultimately show ?thesis using words_before_comma [of ?j] by simp
qed

lemma directive_read:
  assumes "plain_name n" and "list_all (list_all is_ascii) ss"
  shows "browser_directive (directive n ss) = Some (n, concat (map words (fromkeys ss)))"
proof -
  have "list_all (list_all is_ascii) us \<Longrightarrow> list_all is_ascii (join_with '' '' us)" for us
    by (induction "'' ''" us rule: join_with.induct) simp_all
  from this [of "fromkeys ss"] have "list_all is_ascii (join_with '' '' (fromkeys ss))" using assms(2) by (simp add: list_all_iff)
  then show ?thesis
    using plain_nameD(2,5) [OF assms(1)] unfolding browser_directive_def directive_def words_directive [OF assms(1)]
    by (simp add: words_join)
qed

section \<open>The header\<close>

definition header_tail :: "(string \<times> string list) list \<Rightarrow> string" where
  "header_tail ps = concat (map (\<lambda>(n, ss). '' '' @ directive n ss @ '';'') ps)"

lemma header_tail_simps [simp]:
  "header_tail [] = []" "header_tail ((n, ss) # ps) = CHR '' '' # directive n ss @ CHR '';'' # header_tail ps"
  by (simp_all add: header_tail_def)

lemma header_as_tail:
  "ps \<noteq> [] \<Longrightarrow> CHR '' '' # join_with ''; '' (map (\<lambda>(n, ss). directive n ss) ps) @ '';'' = header_tail ps"
proof (induction ps)
  case (Cons x ps)
  then show ?case by (cases x; cases ps) auto
qed simp

lemma browser_policy_Nil [simp]: "browser_policy [] = []"
  by (simp add: browser_policy_def browser_directive_def List.map_filter_simps)

lemma blank_directive [simp]: "browser_directive (CHR '' '' # d) = browser_directive d"
  by (simp add: browser_directive_def words_blank)

lemma browser_policy_blank [simp]: "browser_policy (CHR '' '' # t) = browser_policy t"
  by (cases "split_on CHR '';'' t") (simp_all add: browser_policy_def List.map_filter_simps)

lemma browser_policy_one: "CHR '';'' \<notin> set d \<Longrightarrow> browser_policy d = (case browser_directive d of Some x \<Rightarrow> [x] | None \<Rightarrow> [])"
  by (simp add: browser_policy_def split_on_no_sep List.map_filter_simps split: option.split)

lemma browser_policy_more:
  "CHR '';'' \<notin> set d \<Longrightarrow>
     browser_policy (d @ CHR '';'' # t) = (case browser_directive d of Some x \<Rightarrow> [x] | None \<Rightarrow> []) @ browser_policy t"
  by (simp add: browser_policy_def split_on_append List.map_filter_simps split: option.split)

definition well_formed :: "(string \<times> string list) list \<Rightarrow> bool" where
  "well_formed ps \<longleftrightarrow> list_all (\<lambda>(n, ss). plain_name n \<and> CHR '';'' \<notin> set (directive n ss)) ps"

lemma well_formed_simps [simp]:
  "well_formed []" "well_formed ((n, ss) # ps) \<longleftrightarrow> plain_name n \<and> CHR '';'' \<notin> set (directive n ss) \<and> well_formed ps"
  by (auto simp: well_formed_def)

lemma before_comma_whole: "CHR '','' \<notin> set d \<Longrightarrow> before_comma (d @ t) = d @ before_comma t"
  by (auto simp: takeWhile_append)

lemma before_comma_cut: "CHR '','' \<in> set d \<Longrightarrow> before_comma (d @ t) = before_comma d"
  by (auto simp: takeWhile_append1)

text \<open>Every directive of the first policy is one of the adapter, with pieces of its sources only.\<close>

lemma first_policy:
  assumes "well_formed ps" and "(m, us) \<in> set (browser_policy (before_comma (header_tail ps)))"
  shows "\<exists>ss. (m, ss) \<in> set ps \<and> set us \<subseteq> set (concat (map pieces ss))"
  using assms
proof (induction ps)
  case (Cons x ps)
  obtain n ss where x: "x = (n, ss)" by (cases x)
  have semicolon: "CHR '';'' \<notin> set (before_comma (directive n ss))"
    using Cons.prems(1) x by (auto dest: set_takeWhileD)
  have here: "\<exists>ss. (m, ss) \<in> set (x # ps) \<and> set us \<subseteq> set (concat (map pieces ss))"
    if "browser_directive (before_comma (directive n ss)) = Some (m, us)"
    using cut_directive [OF _ that] Cons.prems(1) x by auto
  show ?case
  proof (cases "CHR '','' \<in> set (directive n ss)")
    case True
    then have "browser_policy (before_comma (header_tail (x # ps))) =
        (case browser_directive (before_comma (directive n ss)) of Some y \<Rightarrow> [y] | None \<Rightarrow> [])"
      using x semicolon by (simp add: before_comma_cut browser_policy_one)
    then show ?thesis using Cons.prems(2) here by (auto split: option.splits)
  next
    case False
    then have whole: "before_comma (directive n ss) = directive n ss" by (rule takeWhile_id)
    have "browser_policy (before_comma (header_tail (x # ps))) =
        (case browser_directive (directive n ss) of Some y \<Rightarrow> [y] | None \<Rightarrow> []) @ browser_policy (before_comma (header_tail ps))"
      using x False Cons.prems(1) by (simp add: before_comma_whole browser_policy_more)
    then show ?thesis using Cons here unfolding whole by (auto simp: x split: option.splits)
  qed
qed simp

lemma whole_policy:
  assumes "well_formed ps" and "list_all (\<lambda>(n, ss). list_all (list_all is_ascii) ss) ps"
  shows "browser_policy (header_tail ps) = map (\<lambda>(n, ss). (n, concat (map words (fromkeys ss)))) ps"
  using assms
proof (induction ps)
  case (Cons x ps)
  then show ?case by (cases x) (simp add: browser_policy_more directive_read)
qed simp

lemma split_on_first: "\<exists>ws. split_on c s = takeWhile (\<lambda>x. x \<noteq> c) s # ws"
  by (induction s) auto

definition plain :: "string \<Rightarrow> bool" where
  "plain s \<longleftrightarrow> CHR '';'' \<notin> set s"

lemma safe_sources_plain: "list_all plain (safe_sources v)"
proof -
  have "list_all plain (List.map_filter safe_source vs)" for vs
    by (induction vs) (auto simp: safe_source_def plain_def Let_def map_filter_def split: json.splits if_splits)
  then show ?thesis by (simp add: safe_sources_def split: json.splits)
qed

lemma directive_plain: "plain n \<Longrightarrow> list_all plain ss \<Longrightarrow> CHR '';'' \<notin> set (directive n ss)"
proof -
  have "list_all plain ss \<Longrightarrow> plain (join_with '' '' ss)" for ss
    by (induction "'' ''" ss rule: join_with.induct) (auto simp: plain_def)
  moreover have "list_all plain ss \<Longrightarrow> list_all plain (fromkeys ss)" for ss by (simp add: list_all_iff)
  ultimately show "plain n \<Longrightarrow> list_all plain ss \<Longrightarrow> CHR '';'' \<notin> set (directive n ss)"
    by (auto simp: directive_def plain_def)
qed

lemma or_none_plain: "list_all plain ss \<Longrightarrow> list_all plain (or_none ss)"
  by (simp add: or_none_def plain_def none_token_def quoted_def)

definition directive_names :: "string list" where
  "directive_names = [''default-src'', ''script-src'', ''style-src'', ''img-src'', ''font-src'', ''media-src'',
     ''worker-src'', ''connect-src'', ''frame-src'', ''base-uri'', ''object-src'', ''form-action'']"

lemma policy_names: "map fst (policy v) = directive_names"
  by (simp add: policy_def directive_names_def Let_def)

lemma policy_well_formed: "well_formed (policy v)"
proof -
  have tokens: "plain none_token" "plain self_token" "plain inline_token" "plain ''data:''" "plain ''blob:''"
    by (simp_all add: plain_def none_token_def self_token_def inline_token_def quoted_def)
  have names: "list_all plain_name directive_names" by code_simp
  have "list_all (\<lambda>(n, ss). CHR '';'' \<notin> set (directive n ss)) (policy v)"
    unfolding policy_def Let_def list.pred_inject prod.case
    by (intro conjI directive_plain) (simp_all add: tokens or_none_plain safe_sources_plain, simp_all add: plain_def)
  moreover have "plain_name n" if "(n, ss) \<in> set (policy v)" for n ss
  proof -
    have "n \<in> set (map fst (policy v))" using that by force
    then show ?thesis using names unfolding policy_names by (simp only: list_all_iff)
  qed
  ultimately show ?thesis by (auto simp: well_formed_def list_all_iff)
qed

lemma build_header: "CHR '' '' # build_mcp_app_csp v = header_tail (policy v)"
  unfolding build_mcp_app_csp_def by (rule header_as_tail) (simp add: policy_def Let_def)

lemma policy_start: "\<exists>ps. policy v = (''default-src'', [none_token]) # ps"
  by (simp add: policy_def Let_def)

text \<open>The first policy starts by refusing everything.\<close>

lemma first_default:
  "\<exists>ps. browser_policy (before_comma (build_mcp_app_csp v)) = (''default-src'', [none_token]) # ps"
proof -
  obtain ps where ps: "policy v = (''default-src'', [none_token]) # ps" using policy_start by blast
  let ?d = "directive ''default-src'' [none_token]"
  have d: "CHR '','' \<notin> set ?d" "CHR '';'' \<notin> set ?d" "browser_directive ?d = Some (''default-src'', [none_token])" by code_simp+
  have "browser_policy (before_comma (build_mcp_app_csp v)) = browser_policy (before_comma (CHR '' '' # build_mcp_app_csp v))" by simp
  also have "\<dots> = (''default-src'', [none_token]) # browser_policy (before_comma (header_tail ps))"
    unfolding build_header ps using d by (simp add: before_comma_whole browser_policy_more)
  finally show ?thesis by blast
qed

lemma first_directives:
  assumes "(m, us) \<in> set (browser_policy (before_comma (build_mcp_app_csp v)))"
  shows "set us \<subseteq> set (named_sources v m)"
proof -
  have "(m, us) \<in> set (browser_policy (before_comma (CHR '' '' # build_mcp_app_csp v)))" using assms by simp
  then have "(m, us) \<in> set (browser_policy (before_comma (header_tail (policy v))))" unfolding build_header .
  from first_policy [OF policy_well_formed this]
  obtain ss where ss: "(m, ss) \<in> set (policy v)" "set us \<subseteq> set (concat (map pieces ss))" by blast
  have "distinct directive_names" by code_simp
  then have "distinct (map fst (policy v))" by (simp only: policy_names)
  then show ?thesis using ss by (simp add: named_sources_def)
qed

lemma clean_header: "clean_sources v \<Longrightarrow> CHR '','' \<notin> set (build_mcp_app_csp v)"
proof -
  assume clean: "clean_sources v"
  have join: "(\<And>s. s \<in> set us \<Longrightarrow> CHR '','' \<notin> set s) \<Longrightarrow> CHR '','' \<notin> set (join_with '' '' us)" for us
    by (induction "'' ''" us rule: join_with.induct) auto
  have "CHR '','' \<notin> set (directive n ss)" if "(n, ss) \<in> set (policy v)" for n ss
  proof -
    have "plain_name n" using policy_well_formed [of v] that by (auto simp: well_formed_def list_all_iff)
    moreover have "CHR '','' \<notin> set (join_with '' '' (fromkeys ss))"
      by (rule join) (use clean that in \<open>auto simp: clean_sources_def list_all_iff\<close>)
    ultimately show ?thesis by (simp add: directive_def plain_nameD(3))
  qed
  then have "CHR '','' \<notin> set (header_tail (policy v))" by (auto simp: header_tail_def)
  then show "CHR '','' \<notin> set (build_mcp_app_csp v)" by (simp flip: build_header)
qed

text \<open>
  C27. What an MCP App can do to the policy of its page. Whatever its metadata is, the first policy that a
  browser reads starts by refusing everything, and every kind of fetch (scripts, styles, images, fonts, media,
  connections, frames, plugins) is governed there by nothing but pieces of the sources that the adapter
  put into the directive of this fetch; since a browser enforces every policy, nothing else is ever loaded. When the
  sources are ASCII without commas, the browser reads exactly one policy: the twelve directives of the
  adapter, each once and in order, with the words of their sources, so that forms are refused and the base
  of the page is one the app named. A comma breaks the second part, as \<open>comma_lifts_form_action\<close> shows.
\<close>

theorem policy_not_injectable:
  "(\<exists>p ps. browser_policies (build_mcp_app_csp v) = p # ps
      \<and> (\<forall>n \<in> set fetch_directives. set (governing p n) \<subseteq> insert none_token (set (named_sources v n))))
   \<and> (clean_sources v \<longrightarrow>
        browser_policies (build_mcp_app_csp v) = [map (\<lambda>(n, ss). (n, concat (map words (fromkeys ss)))) (policy v)]
        \<and> map fst (policy v) = directive_names
        \<and> map_of (hd (browser_policies (build_mcp_app_csp v))) ''default-src'' = Some [none_token]
        \<and> map_of (hd (browser_policies (build_mcp_app_csp v))) ''object-src'' = Some [none_token]
        \<and> map_of (hd (browser_policies (build_mcp_app_csp v))) ''form-action'' = Some [none_token])"
proof (intro conjI impI)
  let ?h = "build_mcp_app_csp v"
  obtain ts where split: "split_on CHR '','' ?h = before_comma ?h # ts" using split_on_first by blast
  obtain qs where start: "browser_policy (before_comma ?h) = (''default-src'', [none_token]) # qs" using first_default by blast
  let ?p = "browser_policy (before_comma ?h)"
  have "set (governing ?p n) \<subseteq> insert none_token (set (named_sources v n))" for n
  proof (cases "map_of ?p n")
    case None
    then show ?thesis by (simp add: governing_def start split: if_splits)
  next
    case (Some us)
    then show ?thesis using first_directives [OF map_of_SomeD [OF Some]] by (auto simp: governing_def)
  qed
  moreover have "browser_policies ?h = ?p # filter (\<lambda>p. p \<noteq> []) (map browser_policy ts)"
    by (simp add: browser_policies_def split start)
  ultimately show "\<exists>p ps. browser_policies ?h = p # ps
      \<and> (\<forall>n \<in> set fetch_directives. set (governing p n) \<subseteq> insert none_token (set (named_sources v n)))" by blast
next
  let ?h = "build_mcp_app_csp v"
  assume clean: "clean_sources v"
  have "browser_policy ?h = browser_policy (CHR '' '' # ?h)" by simp
  also have "\<dots> = map (\<lambda>(n, ss). (n, concat (map words (fromkeys ss)))) (policy v)"
    unfolding build_header using clean
    by (intro whole_policy [OF policy_well_formed]) (auto simp: clean_sources_def list_all_iff)
  finally have read: "browser_policy ?h = map (\<lambda>(n, ss). (n, concat (map words (fromkeys ss)))) (policy v)" .
  then show one: "browser_policies ?h = [map (\<lambda>(n, ss). (n, concat (map words (fromkeys ss)))) (policy v)]"
    using policy_start [of v] by (auto simp: browser_policies_def split_on_no_sep [OF clean_header [OF clean]])
  show "map fst (policy v) = directive_names" by (rule policy_names)
  have none: "concat (map words (fromkeys [none_token])) = [none_token]" by code_simp
  show "map_of (hd (browser_policies ?h)) ''default-src'' = Some [none_token]"
    "map_of (hd (browser_policies ?h)) ''object-src'' = Some [none_token]"
    "map_of (hd (browser_policies ?h)) ''form-action'' = Some [none_token]"
    unfolding one using none by (simp_all add: policy_def Let_def)
qed

definition app_metadata :: "string \<Rightarrow> json" where
  "app_metadata source = JObj [(''ui'', JObj [(''csp'', JObj [(''connectDomains'', JList [JStr source])])])]"

lemma policy_not_injectable_witness:
  "browser_policies (build_mcp_app_csp (app_metadata ''https://a.example'')) =
     [map (\<lambda>(n, ss). (n, concat (map words (fromkeys ss)))) (policy (app_metadata ''https://a.example''))]"
proof -
  have "clean_sources (app_metadata ''https://a.example'')" by code_simp
  then show ?thesis using policy_not_injectable [of "app_metadata ''https://a.example''"] by blast
qed

text \<open>
  \<open>_safe_source\<close> lets commas through: one source of an app closes the policy of the adapter and opens a
  second one, which begins with a directive of the app's choice. The first policy then ends before \<open>base-uri\<close> and
  \<open>form-action\<close>, which have no fallback, and the second allows forms to be sent anywhere.
\<close>

lemma comma_lifts_form_action:
  "map (\<lambda>p. map_of p ''form-action'') (browser_policies (build_mcp_app_csp (app_metadata ''https://a.example, form-action *''))) =
     [None, Some [''*'']]"
  by code_simp

end
