(* ===== verification/Adapter_Http.thy ===== *)
theory Adapter_Http
  imports Adapter_Driver Adapter_Pages
begin

text \<open>
  The HTTP side of the adapter, \<open>src/src/codex_responses_adapter/app.py\<close>, and the validators of its settings,
  \<open>src/src/codex_responses_adapter/settings.py\<close>. FastAPI calls the handler of a route; what is modelled is
  the authentication in front of all routes, the errors as answers, and the handlers as programs.
\<close>

section \<open>Settings\<close>

definition not_slash_end :: "string \<Rightarrow> string" where
  "not_slash_end s = rstrip (\<lambda>c. c = CHR ''/'') (strip s)"

text \<open>\<open>None\<close> is a \<open>ValueError\<close> of the validator.\<close>

definition callback_url :: "json \<Rightarrow> string option option" where
  "callback_url v =
     (case v of
        JStr s \<Rightarrow>
          (let u = strip s
           in if u = [] then Some None
              else if starts_with ''http://'' u \<or> starts_with ''https://'' u then Some (Some u) else None)
      | JNull \<Rightarrow> Some None
      | _ \<Rightarrow> None)"

definition model_setting :: "json \<Rightarrow> json" where
  "model_setting v = (case v of JStr s \<Rightarrow> if strip s = [] then JNull else v | _ \<Rightarrow> v)"

definition manager_url :: "string \<Rightarrow> string option" where
  "manager_url s = (let u = not_slash_end s in if u = [] then None else Some u)"

definition workspace_path :: "string \<Rightarrow> string option" where
  "workspace_path s = (let p = strip s in if starts_with ''/'' p then Some p else None)"

section \<open>Authentication and errors\<close>

record answer =
  an_status :: nat
  an_body :: json
  an_headers :: "(string \<times> string) list"

definition plain_answer :: "nat \<Rightarrow> obj \<Rightarrow> answer" where
  "plain_answer status d = \<lparr>an_status = status, an_body = JObj d, an_headers = []\<rparr>"

definition error_object :: "string \<Rightarrow> string \<Rightarrow> string \<Rightarrow> obj \<Rightarrow> obj" where
  "error_object m t c more_fields =
     [(''error'', JObj ([(''message'', JStr m), (''type'', JStr t), (''param'', JNull), (''code'', JStr c)] @ more_fields))]"

definition unauthorized :: answer where
  "unauthorized = (plain_answer 401 (error_object ''Unauthorized'' ''authentication_error'' ''invalid_api_key'' []))
     \<lparr>an_headers := [(''WWW-Authenticate'', ''Bearer'')]\<rparr>"

definition authenticated :: "string \<Rightarrow> string \<Rightarrow> string option \<Rightarrow> bool" where
  "authenticated key path authorization \<longleftrightarrow>
     path = ''/healthz''
     \<or> (case authorization of
          Some a \<Rightarrow> starts_with ''Bearer '' a \<and> utf8 (removeprefix ''Bearer '' a) = utf8 key
        | None \<Rightarrow> False)"

definition error_answer :: "adapter_error \<Rightarrow> answer" where
  "error_answer e = plain_answer (error_status e) (envelope e)"

definition validation_answer :: "json \<Rightarrow> answer" where
  "validation_answer details =
     plain_answer 400 (error_object ''Invalid request'' ''invalid_request_error'' ''validation_error'' [(''details'', details)])"

definition invalid_json :: adapter_error where
  "invalid_json = BaseError ''Request body must be valid JSON'' 400 ''invalid_request_error'' ''invalid_json''"

definition health :: "settings \<Rightarrow> obj" where
  "health cfg = [(''status'', JStr ''ok''), (''mcp_apps'', JBool (sv_apps cfg))]"

text \<open>The cursor of the event stream of MCP Apps: the query, else the header of a reconnecting client.\<close>

definition events_after :: "int \<Rightarrow> string option \<Rightarrow> int" where
  "events_after after last_id =
     (if 0 \<le> after then after
      else (case last_id of
          None \<Rightarrow> after
        | Some t \<Rightarrow> (case py_int t of Some i \<Rightarrow> i | None \<Rightarrow> after)))"

section \<open>Routes\<close>

datatype route =
    PostResponse create_request
  | GetResponse string
  | CancelResponse string
  | DeleteResponse string
  | GetInputItems string
  | GetAppState string
  | GetInteraction string
  | ResolveInteraction string resolve_request
  | GetResourceJson string string string "string option" "string option"
  | CallTool string tool_call

definition read_state :: "(adapter \<Rightarrow> adapter_error + obj) \<Rightarrow> obj io" where
  "read_state f = ReadState (\<lambda>s. lift_result (f s))"

text \<open>The handlers that answer with one JSON object; \<open>fr\<close> and \<open>now\<close> are the fresh ids and the clock.\<close>

fun handler :: "settings \<Rightarrow> (json \<Rightarrow> string) \<Rightarrow> nat \<Rightarrow> fresh \<Rightarrow> int \<Rightarrow> route \<Rightarrow> obj io" where
  "handler cfg repr fuel fr now (PostResponse q) = create_non_streaming cfg repr fuel fr q"
| "handler cfg repr fuel fr now (GetResponse rid) = retrieve rid"
| "handler cfg repr fuel fr now (CancelResponse rid) = cancel_response rid"
| "handler cfg repr fuel fr now (DeleteResponse rid) = remove_response rid"
| "handler cfg repr fuel fr now (GetInputItems rid) = list_input_items rid"
| "handler cfg repr fuel fr now (GetAppState rid) = read_state (app_state cfg rid)"
| "handler cfg repr fuel fr now (GetInteraction iid) = read_state (get_public_interaction cfg iid)"
| "handler cfg repr fuel fr now (ResolveInteraction iid q) = resolve_public_interaction cfg now iid q"
| "handler cfg repr fuel fr now (GetResourceJson rid server uri origin connector) = read_mcp_resource rid server uri origin connector"
| "handler cfg repr fuel fr now (CallTool rid q) = call_mcp_tool rid q"

definition answer_of_result :: "adapter_error + obj \<Rightarrow> answer" where
  "answer_of_result r = (case r of Inl e \<Rightarrow> error_answer e | Inr d \<Rightarrow> plain_answer 200 d)"

text \<open>The page of a resource, or its error.\<close>

definition resource_page :: "nat \<Rightarrow> string \<Rightarrow> adapter_error + obj \<Rightarrow> adapter_error + page" where
  "resource_page max_bytes uri r = rbind r (\<lambda>d. render_mcp_resource d uri max_bytes)"

text \<open>A served page fits the limit, and an HTML page of an app comes with its policy.\<close>

lemma page_served:
  "resource_page max_bytes uri (Inr d) = Inr p \<Longrightarrow>
     length (pg_body p) \<le> max_bytes
     \<and> (starts_with mcp_app_mime (lower (pg_mime p)) \<longrightarrow> (\<exists>v. map_of (pg_headers p) ''Content-Security-Policy'' = Some (build_mcp_app_csp v)))"
  by (auto simp: resource_page_def render_mcp_resource_def Let_def result_iffs split: option.splits)

end
