(* ===== verification/File_System.thy ===== *)
theory File_System
  imports Programs Codec
begin

text \<open>
  The file system that the storage operations of \<open>src/src/storage_ops/cli.py\<close> work on: a mounted Workspace
  volume and the publish spool.

  A path is the list of its components below the root of the container. The file system is the
  table of its nodes; only the root itself has no entry. A symbolic link carries what it leads to, so
  that \<open>exists\<close>, \<open>is_file\<close> and reading, which follow links, differ from \<open>lstat\<close>, which does not. A path
  with a link or a file in its middle is not found: the operations refuse links in the middle before they
  use a path, and the descriptors of \<open>capture\<close> are opened with \<open>O_NOFOLLOW\<close>.

  Every system call is an \<open>Await\<close>: it may fail without effect, and the process may be killed before it. A file
  that is being written grows with every \<open>write\<close>. \<open>rmtree\<close> may remove a part of the tree and fail.
\<close>

section \<open>Nodes and paths\<close>

type_synonym fpath = "string list"

datatype node =
    RegularFile bytes nat
  | Directory nat "int \<times> int"
  | SymbolicLink "node option"
  | SpecialFile

type_synonym fs = "(fpath \<times> node) list"

fun follow :: "node \<Rightarrow> node option" where
  "follow (SymbolicLink None) = None"
| "follow (SymbolicLink (Some n)) = follow n"
| "follow n = Some n"

fun is_directory :: "node option \<Rightarrow> bool" where
  "is_directory (Some (Directory m u)) = True"
| "is_directory _ = False"

fun is_regular :: "node option \<Rightarrow> bool" where
  "is_regular (Some (RegularFile b m)) = True"
| "is_regular _ = False"

fun is_link :: "node option \<Rightarrow> bool" where
  "is_link (Some (SymbolicLink t)) = True"
| "is_link _ = False"

text \<open>\<open>Path(text).parts\<close> without the root: empty components and single dots disappear.\<close>

definition path_parts :: "string \<Rightarrow> string list" where
  "path_parts s = filter (\<lambda>p. p \<noteq> [] \<and> p \<noteq> ''.'') (split_on CHR ''/'' s)"

definition path_name :: "string \<Rightarrow> string" where
  "path_name s = (if path_parts s = [] then [] else last (path_parts s))"

definition is_absolute :: "string \<Rightarrow> bool" where
  "is_absolute s = starts_with ''/'' s"

section \<open>Looking up\<close>

definition parents_ok :: "fs \<Rightarrow> fpath \<Rightarrow> bool" where
  "parents_ok s p = list_all (\<lambda>n. is_directory (map_of s (take n p))) [1..<length p]"

text \<open>\<open>lstat\<close>. The root is a directory.\<close>

definition node_at :: "fs \<Rightarrow> fpath \<Rightarrow> node option" where
  "node_at s p = (if p = [] then Some (Directory 493 (0, 0)) else if parents_ok s p then map_of s p else None)"

definition stat_at :: "fs \<Rightarrow> fpath \<Rightarrow> node option" where
  "stat_at s p = Option.bind (node_at s p) follow"

definition below :: "fpath \<Rightarrow> fs \<Rightarrow> fs" where
  "below p s = filter (\<lambda>(q, n). prefix p q) s"

definition outside :: "fpath \<Rightarrow> fs \<Rightarrow> fs" where
  "outside p s = filter (\<lambda>(q, n). \<not> prefix p q) s"

definition children :: "fs \<Rightarrow> fpath \<Rightarrow> string list" where
  "children s p = map (\<lambda>(q, n). last q) (filter (\<lambda>(q, n). q \<noteq> [] \<and> butlast q = p) s)"

section \<open>System calls\<close>

text \<open>The part of \<open>os.stat_result\<close> that \<open>_file_identity\<close> keeps.\<close>

type_synonym file_identity = "int \<times> int \<times> int \<times> int \<times> int"

datatype op_error =
    StorageOperationError string
  | OsError string
  | HttpFailed string
  | OtherFailure string

datatype syscall =
    Resolve fpath
  | Lstat fpath
  | Stat fpath
  | ListDirectory fpath
  | MakeDirectory fpath nat
  | ChangeMode fpath nat
  | ChangeOwner fpath int int
  | CreateFile fpath
  | WriteFile fpath bytes
  | SyncFile fpath
  | RenameNode fpath fpath
  | UnlinkNode fpath
  | RemoveTree fpath
  | ReadFile fpath
  | OpenAt string bool
  | CloseDescriptor
  | StatDescriptor
  | ReadDescriptor
  | HttpGet string string
  | HttpPut string string int bytes
  | HttpPost string string string bytes
  | RunRestic "string list"
  | ListObjects string
  | DeleteObjects "string list"

text \<open>
  \<open>Removed\<close>: \<open>rmtree\<close> failed after it removed these nodes. \<open>Streamed\<close>: the status was an error or not, the
  chunks of the body, and whether it ended without an error of the transport. \<open>Listed\<close>: the
  \<open>Contents\<close> of a listing. \<open>DeletedBut\<close>: the keys that the \<open>Errors\<close> of a deletion name, with the first code.
\<close>

datatype sys_reply =
    Performed
  | Removed "fpath list"
  | Described "bool \<times> file_identity"
  | Chunk bytes
  | Streamed bool "bytes list" bool
  | JsonAnswer json
  | ResticResult int string string
  | Listed "json list"
  | DeletedBut "string list" "string option"

type_synonym 'a op = "(op_error, syscall, sys_reply, fs, 'a) prog"

definition syscall :: "syscall \<Rightarrow> (fs \<Rightarrow> op_error + 'a \<times> fs) \<Rightarrow> 'a op" where
  "syscall c f = Await c (\<lambda>r. case r of
     Inl e \<Rightarrow> Raise e
   | Inr x \<Rightarrow> ReadState (\<lambda>s. case f s of Inl e \<Rightarrow> Raise e | Inr (a, t) \<Rightarrow> WriteState (\<lambda>u. t) (Done a)))"

text \<open>The effect of a call on the table of nodes.\<close>

definition mkdir_at :: "int \<times> int \<Rightarrow> fpath \<Rightarrow> nat \<Rightarrow> fs \<Rightarrow> op_error + unit \<times> fs" where
  "mkdir_at ids p mode s =
     (if p = [] \<or> parents_ok s p \<and> map_of s p \<noteq> None then Inl (OsError ''File exists'')
      else if \<not> parents_ok s p then Inl (OsError ''No such file or directory'')
      else Inr ((), AList.update p (Directory mode ids) s))"

fun with_mode :: "nat \<Rightarrow> node \<Rightarrow> node" where
  "with_mode m (RegularFile b x) = RegularFile b m"
| "with_mode m (Directory x u) = Directory m u"
| "with_mode m (SymbolicLink t) = SymbolicLink (map_option (with_mode m) t)"
| "with_mode m SpecialFile = SpecialFile"

fun with_owner :: "int \<times> int \<Rightarrow> node \<Rightarrow> node" where
  "with_owner u (Directory m x) = Directory m u"
| "with_owner u (SymbolicLink t) = SymbolicLink (map_option (with_owner u) t)"
| "with_owner u n = n"

definition change_at :: "(node \<Rightarrow> node) \<Rightarrow> fpath \<Rightarrow> fs \<Rightarrow> op_error + unit \<times> fs" where
  "change_at f p s =
     (case stat_at s p of
        None \<Rightarrow> Inl (OsError ''No such file or directory'')
      | Some n \<Rightarrow> Inr ((), if p = [] then s else AList.map_entry p f s))"

text \<open>\<open>open(\<dots>, "xb")\<close>: the file must not exist, not even as a link.\<close>

definition create_at :: "fpath \<Rightarrow> nat \<Rightarrow> fs \<Rightarrow> op_error + unit \<times> fs" where
  "create_at p mode s =
     (if p = [] \<or> parents_ok s p \<and> map_of s p \<noteq> None then Inl (OsError ''File exists'')
      else if \<not> parents_ok s p then Inl (OsError ''No such file or directory'')
      else Inr ((), AList.update p (RegularFile [] mode) s))"

definition write_at :: "fpath \<Rightarrow> bytes \<Rightarrow> fs \<Rightarrow> op_error + unit \<times> fs" where
  "write_at p b s =
     (case node_at s p of
        Some (RegularFile data m) \<Rightarrow> Inr ((), AList.update p (RegularFile (data @ b) m) s)
      | _ \<Rightarrow> Inl (OsError ''Bad file descriptor''))"

definition move_tree :: "fpath \<Rightarrow> fpath \<Rightarrow> fs \<Rightarrow> fs" where
  "move_tree src dst s =
     map (\<lambda>(p, n). (if prefix src p then dst @ drop (length src) p else p, n)) (outside dst s)"

text \<open>
  \<open>rename(2)\<close>: a directory replaces nothing or an empty directory, anything else replaces no directory.
  What replaces nothing has nothing below the target.
\<close>

definition rename_at :: "fpath \<Rightarrow> fpath \<Rightarrow> fs \<Rightarrow> op_error + unit \<times> fs" where
  "rename_at src dst s =
     (if src = [] \<or> dst = [] \<or> node_at s src = None \<or> \<not> parents_ok s dst then Inl (OsError ''No such file or directory'')
      else if src = dst then Inr ((), s)
      else if prefix src dst then Inl (OsError ''Invalid argument'')
      else if is_directory (node_at s src) \<and> node_at s dst \<noteq> None
          \<and> (\<not> is_directory (node_at s dst) \<or> children s dst \<noteq> []) then Inl (OsError ''Directory not empty'')
      else if \<not> is_directory (node_at s src) \<and> is_directory (node_at s dst) then Inl (OsError ''Is a directory'')
      else Inr ((), move_tree src dst s))"

definition unlink_at :: "fpath \<Rightarrow> fs \<Rightarrow> op_error + unit \<times> fs" where
  "unlink_at p s =
     (case node_at s p of
        None \<Rightarrow> Inr ((), s)
      | Some n \<Rightarrow> if is_directory (Some n) then Inl (OsError ''Is a directory'') else Inr ((), AList.delete p s))"

definition rmtree_at :: "fpath \<Rightarrow> fs \<Rightarrow> op_error + unit \<times> fs" where
  "rmtree_at p s =
     (if is_directory (node_at s p) then Inr ((), outside p s)
      else Inl (OsError ''Cannot call rmtree on this path''))"

definition read_at :: "fpath \<Rightarrow> fs \<Rightarrow> op_error + bytes \<times> fs" where
  "read_at p s =
     (case stat_at s p of
        Some (RegularFile data m) \<Rightarrow> Inr (data, s)
      | _ \<Rightarrow> Inl (OsError ''No such file or directory''))"

section \<open>The calls of the code\<close>

definition resolve_strict :: "fpath \<Rightarrow> fpath op" where
  "resolve_strict p = syscall (Resolve p) (\<lambda>s.
     if stat_at s p = None then Inl (OsError ''No such file or directory'') else Inr (p, s))"

definition lstat_of :: "fpath \<Rightarrow> node op" where
  "lstat_of p = syscall (Lstat p) (\<lambda>s.
     case node_at s p of None \<Rightarrow> Inl (OsError ''No such file or directory'') | Some n \<Rightarrow> Inr (n, s))"

definition asks :: "syscall \<Rightarrow> (fs \<Rightarrow> 'a) \<Rightarrow> 'a op" where
  "asks c f = syscall c (\<lambda>s. Inr (f s, s))"

definition path_exists :: "fpath \<Rightarrow> bool op" where
  "path_exists p = asks (Stat p) (\<lambda>s. stat_at s p \<noteq> None)"

definition path_is_dir :: "fpath \<Rightarrow> bool op" where
  "path_is_dir p = asks (Stat p) (\<lambda>s. is_directory (stat_at s p))"

definition path_is_file :: "fpath \<Rightarrow> bool op" where
  "path_is_file p = asks (Stat p) (\<lambda>s. is_regular (stat_at s p))"

definition path_is_symlink :: "fpath \<Rightarrow> bool op" where
  "path_is_symlink p = asks (Lstat p) (\<lambda>s. is_link (node_at s p))"

definition file_size :: "fpath \<Rightarrow> int op" where
  "file_size p = syscall (Stat p) (\<lambda>s.
     case stat_at s p of
       None \<Rightarrow> Inl (OsError ''No such file or directory'')
     | Some n \<Rightarrow> Inr (case n of RegularFile b m \<Rightarrow> int (length b) | _ \<Rightarrow> 0, s))"

definition list_children :: "fpath \<Rightarrow> string list op" where
  "list_children p = syscall (ListDirectory p) (\<lambda>s.
     if is_directory (stat_at s p) then Inr (children s p, s) else Inl (OsError ''Not a directory''))"

definition make_dir :: "int \<times> int \<Rightarrow> fpath \<Rightarrow> nat \<Rightarrow> unit op" where
  "make_dir ids p mode = syscall (MakeDirectory p mode) (mkdir_at ids p mode)"

definition change_mode :: "fpath \<Rightarrow> nat \<Rightarrow> unit op" where
  "change_mode p mode = syscall (ChangeMode p mode) (change_at (with_mode mode) p)"

definition change_owner :: "fpath \<Rightarrow> int \<Rightarrow> int \<Rightarrow> unit op" where
  "change_owner p uid gid = syscall (ChangeOwner p uid gid) (change_at (with_owner (uid, gid)) p)"

definition create_file :: "fpath \<Rightarrow> nat \<Rightarrow> unit op" where
  "create_file p mode = syscall (CreateFile p) (create_at p mode)"

definition write_file :: "fpath \<Rightarrow> bytes \<Rightarrow> unit op" where
  "write_file p b = syscall (WriteFile p b) (write_at p b)"

definition sync_file :: "fpath \<Rightarrow> unit op" where
  "sync_file p = syscall (SyncFile p) (\<lambda>s. Inr ((), s))"

definition rename_node :: "fpath \<Rightarrow> fpath \<Rightarrow> unit op" where
  "rename_node src dst = syscall (RenameNode src dst) (rename_at src dst)"

definition unlink_missing_ok :: "fpath \<Rightarrow> unit op" where
  "unlink_missing_ok p = syscall (UnlinkNode p) (unlink_at p)"

definition remove_tree :: "fpath \<Rightarrow> unit op" where
  "remove_tree p = Await (RemoveTree p) (\<lambda>r. case r of
     Inl e \<Rightarrow> Raise e
   | Inr (Removed qs) \<Rightarrow>
       WriteState (\<lambda>s. filter (\<lambda>(q, n). \<not> (prefix p q \<and> q \<in> set qs)) s) (Raise (OsError ''rmtree failed''))
   | Inr x \<Rightarrow> ReadState (\<lambda>s. case rmtree_at p s of Inl e \<Rightarrow> Raise e | Inr (u, t) \<Rightarrow> WriteState (\<lambda>v. t) (Done ())))"

definition read_file :: "fpath \<Rightarrow> bytes op" where
  "read_file p = syscall (ReadFile p) (read_at p)"

section \<open>Facts about the table\<close>

lemma node_at_simps:
  "node_at s [] = Some (Directory 493 (0, 0))" "p \<noteq> [] \<Longrightarrow> node_at s p = (if parents_ok s p then map_of s p else None)"
  by (simp_all add: node_at_def)

lemma node_at_map_of: "p \<noteq> [] \<Longrightarrow> node_at s p = Some n \<Longrightarrow> map_of s p = Some n"
  by (simp add: node_at_def split: if_splits)

lemma parents_ok_cong:
  "(\<And>q. strict_prefix q p \<Longrightarrow> q \<noteq> [] \<Longrightarrow> is_directory (map_of t q) = is_directory (map_of s q)) \<Longrightarrow> parents_ok t p = parents_ok s p"
  unfolding parents_ok_def
proof (rule list_all_cong [OF refl])
  fix n assume le: "n \<in> set [1..<length p]"
    and eq: "\<And>q. strict_prefix q p \<Longrightarrow> q \<noteq> [] \<Longrightarrow> is_directory (map_of t q) = is_directory (map_of s q)"
  have "strict_prefix (take n p) p" "take n p \<noteq> []"
    using le by (auto simp: strict_prefix_def take_is_prefix)
  then show "is_directory (map_of t (take n p)) = is_directory (map_of s (take n p))" by (rule eq)
qed

lemma parents_ok_append:
  "parents_ok s (p @ [x]) = (if p = [] then True else is_directory (map_of s p) \<and> parents_ok s p)"
proof (cases "p = []")
  case False
  then have "[1..<length (p @ [x])] = [1..<length p] @ [length p]"
    by (metis One_nat_def Suc_eq_plus1 Suc_leI length_append_singleton length_greater_0_conv upt_Suc)
  moreover have "list_all (\<lambda>n. is_directory (map_of s (take n (p @ [x])))) [1..<length p] = parents_ok s p"
    unfolding parents_ok_def by (rule list_all_cong [OF refl]) auto
  ultimately show ?thesis using False by (auto simp: parents_ok_def)
qed (simp add: parents_ok_def)

end
