(* ===== verification/Storage_Ops.thy ===== *)
theory Storage_Ops
  imports File_System Urls
begin

text \<open>
  The commands of the storage container, \<open>src/src/storage_ops/cli.py\<close>, as programs over system calls:
  the batch checkout with its staging directory, capture and upload of a published file, the single
  checkout and publish, the restic commands, and the retirement of a repository. \<open>argparse\<close> is left out:
  \<open>run_command\<close> starts from the parsed arguments.

  Parameters are SHA-256, \<open>json.dumps\<close> and \<open>json.loads\<close> on the bytes of a file, the effective user, and the check
  of a bracketed host. \<open>restic\<close>, HTTP and S3 are answered by the world. The text of an exception that the code
  interpolates into a message is not kept.
\<close>

record op_cfg =
  oc_sha :: "bytes \<Rightarrow> string"
  oc_dumps :: "obj \<Rightarrow> bytes"
  oc_loads :: "bytes \<Rightarrow> json option"
  oc_parse :: "string \<Rightarrow> json option"
  oc_ids :: "int \<times> int"
  oc_bracket :: "string \<Rightarrow> bool"

abbreviation fails :: "string \<Rightarrow> 'a op" where
  "fails m \<equiv> Raise (StorageOperationError m)"

definition demand :: "bool \<Rightarrow> string \<Rightarrow> 'a op \<Rightarrow> 'a op" where
  "demand ok m p = guard_io ok (StorageOperationError m) p"

definition check_that :: "op_error + 'a \<Rightarrow> 'a op" where
  "check_that r = lift_result r"

section \<open>Validation of arguments\<close>

definition required_text :: "obj \<Rightarrow> string \<Rightarrow> op_error + string" where
  "required_text d name =
     (case as_str (jget d name) of
        Some v \<Rightarrow> require (v \<noteq> []) (StorageOperationError (''Operation '' @ name @ '' is invalid'')) (Inr v)
      | None \<Rightarrow> Inl (StorageOperationError (''Operation '' @ name @ '' is invalid'')))"

definition positive_int :: "obj \<Rightarrow> string \<Rightarrow> bool \<Rightarrow> op_error + int" where
  "positive_int d name allow_zero =
     (case as_int (jget d name) of
        Some i \<Rightarrow> require ((if allow_zero then 0 else 1) \<le> i) (StorageOperationError (''Operation '' @ name @ '' is invalid'')) (Inr i)
      | None \<Rightarrow> Inl (StorageOperationError (''Operation '' @ name @ '' is invalid'')))"

definition safe_filename :: "string \<Rightarrow> op_error + string" where
  "safe_filename v =
     require (v \<noteq> [] \<and> length v \<le> 255 \<and> v \<notin> {''.'', ''..''} \<and> path_name v = v \<and> CHR 0x00 \<notin> set v)
       (StorageOperationError ''Checkout filename is invalid'') (Inr v)"

definition message_id :: "string \<Rightarrow> op_error + string" where
  "message_id v = require (valid_message_id v) (StorageOperationError ''Message id is invalid'') (Inr v)"

definition safe_operation_id :: "string \<Rightarrow> op_error + string" where
  "safe_operation_id v =
     require (prefixed_hex ''operation_'' 32 v) (StorageOperationError ''Operation id is invalid'') (Inr v)"

definition safe_destination :: "fpath \<Rightarrow> string \<Rightarrow> op_error + fpath" where
  "safe_destination base relative =
     require (\<not> is_absolute relative) (StorageOperationError ''Workspace path must be relative'')
     (require (''..'' \<notin> set (path_parts relative)) (StorageOperationError ''Workspace path escapes the mounted root'')
     (require (path_parts relative \<noteq> []) (StorageOperationError ''Workspace path escapes the mounted root'')
     (Inr (base @ path_parts relative))))"

definition public_artifact :: "string list \<Rightarrow> string list \<Rightarrow> obj \<Rightarrow> op_error + string \<times> string \<times> obj" where
  "public_artifact ids names d =
     rbind (required_text d ''artifact_id'') (\<lambda>aid.
     rbind (required_text d ''filename'') (\<lambda>f.
     rbind (safe_filename f) (\<lambda>filename.
     rbind (positive_int d ''size'' True) (\<lambda>n.
     rbind (required_text d ''sha256'') (\<lambda>sha.
     require (prefixed_hex ''artifact_'' 32 aid) (StorageOperationError ''Checkout Artifact id is invalid'')
     (require (prefixed_hex [] 64 (lower sha)) (StorageOperationError ''Checkout Artifact digest is invalid'')
     (require (\<not> (aid \<in> set ids \<or> filename \<in> set names))
        (StorageOperationError ''Checkout Artifact ids and filenames must be unique'')
     (Inr (aid, filename,
        [(''artifact_id'', JStr aid), (''filename'', JStr filename), (''size'', JInt n), (''sha256'', JStr (lower sha))])))))))))"

fun public_artifacts :: "string list \<Rightarrow> string list \<Rightarrow> obj list \<Rightarrow> op_error + obj list" where
  "public_artifacts ids names [] = Inr []"
| "public_artifacts ids names (d # ds) =
     rbind (public_artifact ids names d) (\<lambda>(aid, filename, item).
     rbind (public_artifacts (aid # ids) (filename # names) ds) (\<lambda>items. Inr (item # items)))"

definition manifest_of :: "string \<Rightarrow> string \<Rightarrow> obj list \<Rightarrow> obj" where
  "manifest_of user assistant items =
     [(''user_message_id'', JStr user), (''assistant_message_id'', JStr assistant),
      (''artifacts'', JList (map JObj items))]"

definition artifact_source :: "obj list \<Rightarrow> string \<Rightarrow> op_error + obj" where
  "artifact_source ds aid =
     (case find (\<lambda>d. jget d ''artifact_id'' = JStr aid) ds of
        Some d \<Rightarrow> Inr d
      | None \<Rightarrow> Inl (StorageOperationError ''Checkout Artifact source is missing''))"

text \<open>\<open>item["filename"]\<close> and the other fields of an item of the public manifest.\<close>

definition item_text :: "obj \<Rightarrow> string \<Rightarrow> string" where
  "item_text d k = (case jget d k of JStr v \<Rightarrow> v | _ \<Rightarrow> [])"

definition item_size :: "obj \<Rightarrow> int" where
  "item_size d = (case jget d ''size'' of JInt i \<Rightarrow> i | _ \<Rightarrow> 0)"

section \<open>Directories and files\<close>

definition controlled_directory :: "op_cfg \<Rightarrow> fpath \<Rightarrow> string \<Rightarrow> nat \<Rightarrow> int \<Rightarrow> int \<Rightarrow> fpath op" where
  "controlled_directory cfg base relative mode uid gid =
     bind_io (if relative = ''.'' then Done base
              else bind_io (resolve_strict base) (\<lambda>r. check_that (safe_destination r relative))) (\<lambda>target.
     bind_io (path_exists target) (\<lambda>present.
     bind_io
       (if present
        then bind_io (lstat_of target) (\<lambda>n.
          demand (is_directory (Some n)) (''Controlled path is not a directory: '' @ relative) (Done ()))
        else make_dir (oc_ids cfg) target mode) (\<lambda>u.
     bind_io (change_mode target mode) (\<lambda>u.
     bind_io (if fst (oc_ids cfg) = 0 then change_owner target uid gid else Done ()) (\<lambda>u.
     Done target)))))"

definition prepare_workspace :: "op_cfg \<Rightarrow> fpath \<Rightarrow> int \<Rightarrow> int \<Rightarrow> obj op" where
  "prepare_workspace cfg workspace uid gid =
     bind_io (resolve_strict workspace) (\<lambda>base.
     bind_io (path_is_dir base) (\<lambda>d.
     demand d ''Workspace is not a directory''
     (bind_io (controlled_directory cfg base ''.'' 493 0 0) (\<lambda>a.
      bind_io (controlled_directory cfg base ''work'' 504 uid gid) (\<lambda>work.
      bind_io (controlled_directory cfg base ''outputs'' 493 0 0) (\<lambda>b.
      bind_io (controlled_directory cfg base ''uploads'' 365 0 0) (\<lambda>c.
      bind_io (controlled_directory cfg base ''.agent-staging'' 448 0 0) (\<lambda>e.
      bind_io (sync_file base) (\<lambda>u.
      Done [(''work_path'', JStr (join_with ''/'' (drop (length base) work)))])))))))))"

definition read_json_object :: "op_cfg \<Rightarrow> fpath \<Rightarrow> obj op" where
  "read_json_object cfg p =
     bind_io (catch_io (read_file p) (\<lambda>e. case e of
        OsError m \<Rightarrow> fails ''Operation manifest is missing or invalid'' | _ \<Rightarrow> Raise e)) (\<lambda>b.
     case oc_loads cfg b of
       None \<Rightarrow> fails ''Operation manifest is missing or invalid''
     | Some (JObj d) \<Rightarrow> Done d
     | Some v \<Rightarrow> fails ''Operation manifest is invalid'')"

text \<open>\<open>path.with_name(f".{path.name}.part")\<close> beside \<open>path = directory / name\<close>.\<close>

definition part_name :: "string \<Rightarrow> string" where
  "part_name name = ''.'' @ name @ ''.part''"

definition write_json_atomic :: "op_cfg \<Rightarrow> fpath \<Rightarrow> string \<Rightarrow> obj \<Rightarrow> nat \<Rightarrow> unit op" where
  "write_json_atomic cfg directory name value mode =
     (let temporary = directory @ [part_name name]
      in bind_io (create_file temporary 420) (\<lambda>u.
         bind_io (write_file temporary (oc_dumps cfg value)) (\<lambda>u.
         bind_io (sync_file temporary) (\<lambda>u.
         bind_io (change_mode temporary mode) (\<lambda>u.
         rename_node temporary (directory @ [name]))))))"

section \<open>Downloads\<close>

fun write_chunks :: "fpath \<Rightarrow> int \<Rightarrow> bytes \<Rightarrow> bytes list \<Rightarrow> bytes op" where
  "write_chunks target limit received [] = Done received"
| "write_chunks target limit received (c # cs) =
     demand (int (length (received @ c)) \<le> limit) ''Downloaded file exceeds the operation limit''
       (bind_io (write_file target c) (\<lambda>u. write_chunks target limit (received @ c) cs))"

text \<open>
  The chunks of a body arrive one after the other: if the transport fails, it does so after the chunks that
  arrived have been written. The result is what the digest and the size were computed from.
\<close>

definition download :: "string \<Rightarrow> string \<Rightarrow> fpath \<Rightarrow> int \<Rightarrow> bytes op" where
  "download url token target limit =
     Await (HttpGet url token) (\<lambda>r. case r of
       Inl (HttpFailed m) \<Rightarrow> fails (''Artifact checkout failed: '' @ m)
     | Inl e \<Rightarrow> Raise e
     | Inr (Streamed ok chunks intact) \<Rightarrow>
         demand ok ''Artifact checkout failed: ''
         (bind_io (write_chunks target limit [] chunks) (\<lambda>b.
          demand intact ''Artifact checkout failed: '' (Done b)))
     | Inr x \<Rightarrow> Raise (OtherFailure ''unexpected answer''))"

section \<open>The batch checkout\<close>

fun verify_files :: "fpath \<Rightarrow> obj list \<Rightarrow> unit op" where
  "verify_files final [] = Done ()"
| "verify_files final (d # ds) =
     bind_io (lstat_of (final @ path_parts (item_text d ''filename''))) (\<lambda>n.
     case n of
       RegularFile b m \<Rightarrow>
         demand (int (length b) = item_size d) ''Committed checkout file size changed'' (verify_files final ds)
     | _ \<Rightarrow> fails ''Committed checkout file is invalid'')"

definition checkout_manifest :: string where
  "checkout_manifest = ''.agent-checkout.json''"

definition verify_checkout_commit :: "op_cfg \<Rightarrow> fpath \<Rightarrow> string \<Rightarrow> string \<Rightarrow> obj list \<Rightarrow> unit op" where
  "verify_checkout_commit cfg final user assistant items =
     bind_io (path_is_symlink final) (\<lambda>l.
     bind_io (path_is_dir final) (\<lambda>d.
     demand (\<not> l \<and> d) ''Checkout destination is not a controlled directory''
     (bind_io (read_json_object cfg (final @ [checkout_manifest])) (\<lambda>manifest.
      demand (py_eq (JObj manifest) (JObj (manifest_of user assistant items)))
        ''Checkout destination is already bound to another batch'' (verify_files final items)))))"

definition checkout_result :: "string \<Rightarrow> string \<Rightarrow> obj list \<Rightarrow> bool \<Rightarrow> obj" where
  "checkout_result user assistant items before =
     [(''path'', JStr (''uploads/'' @ user)), (''output_path'', JStr (''outputs/'' @ assistant)),
      (''artifacts'', JList (map JObj items)), (''already_committed'', JBool before)]"

text \<open>The body of the loop over the items: one file is downloaded into the staging directory and checked.\<close>

definition install_file :: "op_cfg \<Rightarrow> fpath \<Rightarrow> obj list \<Rightarrow> obj \<Rightarrow> obj op" where
  "install_file cfg staging sources item =
     bind_io (check_that (artifact_source sources (item_text item ''artifact_id''))) (\<lambda>d.
     let target = staging @ path_parts (item_text item ''filename'')
     in bind_io (create_file target 420) (\<lambda>u.
        bind_io (check_that (required_text d ''url'')) (\<lambda>url.
        bind_io (check_that (required_text d ''token'')) (\<lambda>token.
        bind_io (check_that (positive_int d ''max_bytes'' False)) (\<lambda>limit.
        bind_io (download url token target limit) (\<lambda>b.
        bind_io (sync_file target) (\<lambda>u.
        demand (case as_str (jget d ''sha256'') of Some sha \<Rightarrow> oc_sha cfg b = lower sha | None \<Rightarrow> True)
          ''Downloaded file digest does not match''
        (demand (int (length b) = item_size item) ''Downloaded file size does not match''
        (bind_io (change_mode target 292) (\<lambda>u.
         Done (jmerge item [(''sha256'', JStr (oc_sha cfg b)), (''size'', JInt (int (length b)))])))))))))))"

definition discard_staging :: "fpath \<Rightarrow> unit op" where
  "discard_staging staging =
     bind_io (path_exists staging) (\<lambda>present.
       if present then bind_io (change_mode staging 448) (\<lambda>u. remove_tree staging) else Done ())"

definition fill_and_commit ::
    "op_cfg \<Rightarrow> fpath \<Rightarrow> string \<Rightarrow> string \<Rightarrow> obj list \<Rightarrow> obj list \<Rightarrow> fpath \<Rightarrow> int \<Rightarrow> int \<Rightarrow> obj op" where
  "fill_and_commit cfg base user assistant sources items staging uid gid =
     bind_io (each_io (install_file cfg staging sources) items) (\<lambda>installed.
     bind_io (write_json_atomic cfg staging checkout_manifest (manifest_of user assistant installed) 292) (\<lambda>u.
     bind_io (change_mode staging 493) (\<lambda>u.
     bind_io (sync_file staging) (\<lambda>u.
     bind_io (controlled_directory cfg (base @ [''outputs'', assistant]) ''.'' 504 uid gid) (\<lambda>p.
     bind_io (change_mode (base @ [''uploads'']) 493) (\<lambda>u.
     bind_io (finally_io
         (bind_io (rename_node staging (base @ [''uploads'', user])) (\<lambda>u.
          bind_io (change_mode (base @ [''uploads'', user]) 365) (\<lambda>u.
          sync_file (base @ [''uploads'']))))
         (change_mode (base @ [''uploads'']) 365)) (\<lambda>u.
     Done (checkout_result user assistant installed False))))))))"

definition checkout_batch ::
    "op_cfg \<Rightarrow> fpath \<Rightarrow> string \<Rightarrow> string \<Rightarrow> obj list \<Rightarrow> string \<Rightarrow> int \<Rightarrow> int \<Rightarrow> obj op" where
  "checkout_batch cfg workspace user assistant sources operation_id uid gid =
     bind_io (check_that (message_id user)) (\<lambda>u.
     bind_io (check_that (message_id assistant)) (\<lambda>a.
     demand (length sources \<le> 32) ''Checkout batch cannot contain more than 32 Artifacts''
     (bind_io (resolve_strict workspace) (\<lambda>base.
      bind_io (prepare_workspace cfg base uid gid) (\<lambda>w.
      bind_io (check_that (public_artifacts [] [] sources)) (\<lambda>items.
      bind_io (path_exists (base @ [''uploads'', user])) (\<lambda>present.
      if present
      then bind_io (verify_checkout_commit cfg (base @ [''uploads'', user]) user assistant items) (\<lambda>u.
           bind_io (controlled_directory cfg (base @ [''outputs'', assistant]) ''.'' 504 uid gid) (\<lambda>p.
           Done (checkout_result user assistant items True)))
      else
        bind_io (check_that (safe_operation_id operation_id)) (\<lambda>op_id.
        let staging = base @ [''.agent-staging'', ''checkout-'' @ op_id]
        in bind_io (discard_staging staging) (\<lambda>u.
           bind_io (make_dir (oc_ids cfg) staging 448) (\<lambda>u.
           catch_io (fill_and_commit cfg base user assistant sources items staging uid gid) (\<lambda>e.
             bind_io (discard_staging staging) (\<lambda>u. Raise e))))))))))))"

section \<open>Capture and upload\<close>

text \<open>
  The source is opened component by component from the root of the Workspace, the empty component; what a descriptor shows
  is answered by the world, since the Agent may change its files at any time. \<open>OpenAt part True\<close> opens a
  directory, without following a link.
\<close>

definition descriptor_call :: "syscall \<Rightarrow> (sys_reply \<Rightarrow> 'a option) \<Rightarrow> 'a op" where
  "descriptor_call c f = Await c (\<lambda>r. case r of
     Inl e \<Rightarrow> Raise e
   | Inr x \<Rightarrow> (case f x of Some a \<Rightarrow> Done a | None \<Rightarrow> Raise (OtherFailure ''unexpected answer'')))"

fun stat_reply :: "sys_reply \<Rightarrow> (bool \<times> file_identity) option" where
  "stat_reply (Described d) = Some d"
| "stat_reply _ = None"

fun chunk_reply :: "sys_reply \<Rightarrow> bytes option" where
  "chunk_reply (Chunk b) = Some b"
| "chunk_reply _ = None"

fun any_reply :: "sys_reply \<Rightarrow> unit option" where
  "any_reply x = Some ()"

fun open_parts :: "string list \<Rightarrow> unit op" where
  "open_parts [] = Done ()"
| "open_parts [p] = descriptor_call (OpenAt p False) any_reply"
| "open_parts (p # ps) = bind_io (descriptor_call (OpenAt p True) any_reply) (\<lambda>u. open_parts ps)"

definition open_workspace_file :: "string list \<Rightarrow> unit op" where
  "open_workspace_file parts =
     bind_io (descriptor_call (OpenAt [] True) any_reply) (\<lambda>u.
     catch_io (open_parts parts) (\<lambda>e. case e of
       OsError m \<Rightarrow> fails ''Published path cannot be opened safely'' | _ \<Rightarrow> Raise e))"

text \<open>The reading loop; \<open>fuel\<close> bounds the number of chunks, of which there are at most one more than the limit in bytes.\<close>

fun copy_chunks :: "nat \<Rightarrow> fpath \<Rightarrow> int \<Rightarrow> bytes \<Rightarrow> bytes op" where
  "copy_chunks 0 temporary limit received = Stuck"
| "copy_chunks (Suc fuel) temporary limit received =
     bind_io (descriptor_call ReadDescriptor chunk_reply) (\<lambda>c.
       if c = [] then Done received
       else demand (int (length (received @ c)) \<le> limit) ''Published file exceeds the operation limit''
         (bind_io (write_file temporary c) (\<lambda>u. copy_chunks fuel temporary limit (received @ c))))"

definition copy_fuel :: "int \<Rightarrow> nat" where
  "copy_fuel limit = nat limit + 2"

definition copy_descriptor :: "fpath \<Rightarrow> int \<Rightarrow> bytes op" where
  "copy_descriptor temporary limit =
     bind_io (descriptor_call StatDescriptor stat_reply) (\<lambda>before.
     demand (fst before) ''Published path must be a regular file''
     (bind_io (create_file temporary 420) (\<lambda>u.
      bind_io (copy_chunks (copy_fuel limit) temporary limit []) (\<lambda>b.
      bind_io (sync_file temporary) (\<lambda>u.
      bind_io (descriptor_call StatDescriptor stat_reply) (\<lambda>after.
      demand (snd before = snd after) ''Published file changed while it was captured'' (Done b)))))))"

definition capture_parts_ok :: "string list \<Rightarrow> bool" where
  "capture_parts_ok parts \<longleftrightarrow>
     3 \<le> length parts \<and> parts ! 0 = ''outputs'' \<and> valid_message_id (parts ! 1)
     \<and> list_all (\<lambda>p. p \<notin> {[], ''.'', ''..''}) parts"

text \<open>\<open>Path(source).parts\<close>: an absolute path begins with the root.\<close>

definition source_parts :: "string \<Rightarrow> string list" where
  "source_parts s = (if is_absolute s then ''/'' # path_parts s else path_parts s)"

definition verify_capture_content :: "op_cfg \<Rightarrow> fpath \<Rightarrow> obj \<Rightarrow> unit op" where
  "verify_capture_content cfg content manifest =
     bind_io (lstat_of content) (\<lambda>n.
     demand (is_regular (Some n)) ''Captured content is invalid''
     (case n of
        RegularFile b m \<Rightarrow>
          demand (py_eq (JInt (int (length b))) (jget manifest ''size'') \<and> as_str (jget manifest ''sha256'') \<noteq> None)
            ''Captured content does not match its manifest''
          (bind_io (read_file content) (\<lambda>c.
           demand (JStr (oc_sha cfg c) = jget manifest ''sha256'') ''Captured content digest changed'' (Done ())))
      | _ \<Rightarrow> fails ''Captured content is invalid''))"

definition capture_manifest :: "op_cfg \<Rightarrow> string \<Rightarrow> string list \<Rightarrow> bytes \<Rightarrow> obj" where
  "capture_manifest cfg source parts b =
     [(''source'', JStr source), (''filename'', JStr (last parts)), (''size'', JInt (int (length b))),
      (''sha256'', JStr (oc_sha cfg b))]"

definition make_dir_exist_ok :: "int \<times> int \<Rightarrow> fpath \<Rightarrow> nat \<Rightarrow> unit op" where
  "make_dir_exist_ok ids p mode =
     catch_io (make_dir ids p mode) (\<lambda>e. case e of
       OsError m \<Rightarrow>
         if m = ''No such file or directory'' then Raise e
         else bind_io (path_is_dir p) (\<lambda>d. if d then Done () else Raise e)
     | _ \<Rightarrow> Raise e)"

definition capture :: "op_cfg \<Rightarrow> fpath \<Rightarrow> fpath \<Rightarrow> string \<Rightarrow> string \<Rightarrow> int \<Rightarrow> obj op" where
  "capture cfg workspace spool operation_id source limit =
     bind_io (resolve_strict workspace) (\<lambda>base.
     bind_io (resolve_strict spool) (\<lambda>spool_root.
     let parts = source_parts source
     in demand (capture_parts_ok parts) ''Published path is outside an assistant output directory''
     (bind_io (check_that (safe_operation_id operation_id)) (\<lambda>op_id.
      let dir = spool_root @ [op_id]; content = dir @ [''content'']; temporary = dir @ [''.content.part'']
      in bind_io (path_is_file (dir @ [''manifest.json''])) (\<lambda>has_manifest.
         bind_io (if has_manifest then path_is_file content else Done False) (\<lambda>captured.
         if captured
         then bind_io (read_json_object cfg (dir @ [''manifest.json''])) (\<lambda>existing.
              demand (jget existing ''source'' = JStr source) ''Capture operation is bound to another source''
              (bind_io (verify_capture_content cfg content existing) (\<lambda>u. Done existing)))
         else
           bind_io (make_dir_exist_ok (oc_ids cfg) dir 448) (\<lambda>u.
           bind_io (open_workspace_file parts) (\<lambda>u.
           bind_io (finally_io (copy_descriptor temporary limit) (descriptor_call CloseDescriptor any_reply)) (\<lambda>b.
           bind_io (rename_node temporary content) (\<lambda>u.
           let result = capture_manifest cfg source parts b
           in bind_io (write_json_atomic cfg dir ''manifest.json'' result 256) (\<lambda>u.
              bind_io (sync_file dir) (\<lambda>u.
              bind_io (sync_file spool_root) (\<lambda>u.
              Done result)))))))))))))"

text \<open>The answer to an upload: an error of the transport or of the status, or JSON, or no JSON at all.\<close>

definition json_call :: "syscall \<Rightarrow> string \<Rightarrow> json op" where
  "json_call c message = Await c (\<lambda>r. case r of
     Inr (JsonAnswer v) \<Rightarrow> Done v
   | Inl (HttpFailed m) \<Rightarrow> fails (message @ m)
   | Inl e \<Rightarrow> Raise e
   | Inr x \<Rightarrow> fails message)"

definition upload_capture :: "op_cfg \<Rightarrow> fpath \<Rightarrow> string \<Rightarrow> string \<Rightarrow> string \<Rightarrow> obj op" where
  "upload_capture cfg spool operation_id url token =
     bind_io (resolve_strict spool) (\<lambda>spool_root.
     bind_io (check_that (safe_operation_id operation_id)) (\<lambda>op_id.
     let dir = spool_root @ [op_id]
     in bind_io (read_json_object cfg (dir @ [''manifest.json''])) (\<lambda>manifest.
        bind_io (verify_capture_content cfg (dir @ [''content'']) manifest) (\<lambda>u.
        bind_io (read_file (dir @ [''content''])) (\<lambda>b.
        bind_io (json_call (HttpPut url token (item_size manifest) b) ''Artifact upload failed: '') (\<lambda>v.
        case v of
          JObj result \<Rightarrow>
            demand (as_str (jget result ''artifact_id'') \<noteq> None
                \<and> py_eq (jget result ''sha256'') (jget manifest ''sha256'')
                \<and> py_eq (jget result ''size'') (jget manifest ''size''))
              ''Artifact upload returned an invalid descriptor''
            (bind_io (remove_tree dir) (\<lambda>u.
             bind_io (sync_file spool_root) (\<lambda>u. Done result)))
        | _ \<Rightarrow> fails ''Artifact upload returned an invalid descriptor''))))))"

section \<open>Single files\<close>

fun reject_links :: "nat \<Rightarrow> fpath \<Rightarrow> fpath \<Rightarrow> unit op" where
  "reject_links n base current =
     (if current = base then Done ()
      else case n of
        0 \<Rightarrow> Stuck
      | Suc m \<Rightarrow>
          bind_io (path_is_symlink current) (\<lambda>l.
            demand (\<not> l) ''Workspace path contains a symbolic link'' (reject_links m base (butlast current))))"

text \<open>
  The parent of the root of the file system is the root again: for a path that is not below \<open>base\<close> the loop would
  not end, and the check behind it is never reached. \<open>safe_destination\<close> has refused such a path before.
\<close>

definition reject_symlink_parents :: "fpath \<Rightarrow> fpath \<Rightarrow> unit op" where
  "reject_symlink_parents base parent = reject_links (length parent) base parent"

text \<open>\<open>mkdir(parents=True, exist_ok=True)\<close> creates the missing directories from the outermost on.\<close>

definition make_dirs :: "int \<times> int \<Rightarrow> fpath \<Rightarrow> unit op" where
  "make_dirs ids p = bind_io (each_io (\<lambda>n. make_dir_exist_ok ids (take n p) 493) [1..<Suc (length p)]) (\<lambda>u. Done ())"

text \<open>\<open>unique\<close> is the random name that \<open>tempfile\<close> chose.\<close>

definition checkout :: "op_cfg \<Rightarrow> fpath \<Rightarrow> string \<Rightarrow> string \<Rightarrow> string \<Rightarrow> int \<Rightarrow> string option \<Rightarrow> string \<Rightarrow> obj op" where
  "checkout cfg workspace destination url token limit expected unique =
     bind_io (resolve_strict workspace) (\<lambda>base.
     bind_io (check_that (safe_destination base destination)) (\<lambda>target.
     let parent = butlast target; temporary = parent @ [''.'' @ last target @ ''.'' @ unique @ ''.part'']
     in bind_io (reject_symlink_parents base parent) (\<lambda>u.
        bind_io (make_dirs (oc_ids cfg) parent) (\<lambda>u.
        bind_io (reject_symlink_parents base parent) (\<lambda>u.
        bind_io (create_file temporary 384) (\<lambda>u.
        catch_io
          (bind_io (download url token temporary limit) (\<lambda>b.
           bind_io (sync_file temporary) (\<lambda>u.
           demand (case expected of Some sha \<Rightarrow> oc_sha cfg b = lower sha | None \<Rightarrow> True) ''Downloaded file digest does not match''
           (bind_io (path_is_symlink target) (\<lambda>l.
            demand (\<not> l) ''Destination cannot be a symbolic link''
            (bind_io (rename_node temporary target) (\<lambda>u.
             Done [(''path'', JStr destination), (''size'', JInt (int (length b))), (''sha256'', JStr (oc_sha cfg b))])))))))
          (\<lambda>e. bind_io (unlink_missing_ok temporary) (\<lambda>u. Raise e))))))))"

definition publish :: "op_cfg \<Rightarrow> fpath \<Rightarrow> string \<Rightarrow> string \<Rightarrow> string \<Rightarrow> int \<Rightarrow> obj op" where
  "publish cfg workspace source url token limit =
     bind_io (resolve_strict workspace) (\<lambda>base.
     bind_io (check_that (safe_destination base source)) (\<lambda>path.
     bind_io (reject_symlink_parents base (butlast path)) (\<lambda>u.
     bind_io (lstat_of path) (\<lambda>n.
     demand (is_regular (Some n)) ''Published path must be a regular file''
     (bind_io (resolve_strict path) (\<lambda>resolved.
      demand (prefix base resolved) ''Published path escapes the mounted root''
      (bind_io (file_size path) (\<lambda>n.
       demand (n \<le> limit) ''Published file exceeds the operation limit''
       (bind_io (read_file path) (\<lambda>b.
        bind_io (json_call (HttpPost url token (last path) b) ''Artifact publish failed: '') (\<lambda>v.
        case v of
          JObj result \<Rightarrow>
            demand (as_str (jget result ''file_id'') \<noteq> None) ''Artifact publish returned an invalid result'' (Done result)
        | _ \<Rightarrow> fails ''Artifact publish returned an invalid result'')))))))))))"

section \<open>Restic\<close>

definition restic :: "string list \<Rightarrow> bool \<Rightarrow> (int \<times> string) op" where
  "restic arguments check =
     Await (RunRestic arguments) (\<lambda>r. case r of
       Inl e \<Rightarrow> Raise e
     | Inr (ResticResult code out err) \<Rightarrow>
         demand (\<not> (check \<and> code \<noteq> 0))
           (''restic failed: '' @ (let ls = split_lines (strip err) in if ls = [] then ''unknown error'' else last ls))
           (Done (code, out))
     | Inr x \<Rightarrow> Raise (OtherFailure ''unexpected answer''))"

fun message_of :: "string \<Rightarrow> json \<Rightarrow> obj option" where
  "message_of kind (JObj d) = (if jget d ''message_type'' = JStr kind then Some d else None)"
| "message_of kind _ = None"

definition last_json_object :: "op_cfg \<Rightarrow> string \<Rightarrow> string \<Rightarrow> op_error + obj" where
  "last_json_object cfg output kind =
     (case find (\<lambda>l. Option.bind (oc_parse cfg l) (message_of kind) \<noteq> None) (rev (split_lines output)) of
        Some l \<Rightarrow> Inr (the (Option.bind (oc_parse cfg l) (message_of kind)))
      | None \<Rightarrow> Inl (StorageOperationError (''restic did not return a '' @ kind @ '' result'')))"

text \<open>\<open>int(v or 0)\<close>.\<close>

fun int_of :: "json \<Rightarrow> op_error + int" where
  "int_of (JInt i) = Inr i"
| "int_of (JBool b) = Inr (if b then 1 else 0)"
| "int_of JNull = Inr 0"
| "int_of (JFloat r) = Inr (if r < 0 then \<lceil>r\<rceil> else \<lfloor>r\<rfloor>)"
| "int_of (JStr s) = (if s = [] then Inr 0 else case py_int s of Some i \<Rightarrow> Inr i | None \<Rightarrow> Inl (OtherFailure ''ValueError''))"
| "int_of (JList xs) = (if xs = [] then Inr 0 else Inl (OtherFailure ''TypeError''))"
| "int_of (JObj d) = (if d = [] then Inr 0 else Inl (OtherFailure ''TypeError''))"

definition checkpoint :: "op_cfg \<Rightarrow> fpath \<Rightarrow> string \<Rightarrow> obj op" where
  "checkpoint cfg workspace workspace_id =
     bind_io (resolve_strict workspace) (\<lambda>base.
     bind_io (path_is_dir base) (\<lambda>d.
     demand d ''Workspace is not a directory''
     (bind_io (restic [''snapshots'', ''--json''] False) (\<lambda>probe.
      bind_io (if fst probe \<noteq> 0 then restic [''init''] True else Done probe) (\<lambda>x.
      bind_io (restic [''backup'', ''.'', ''--json'', ''--tag'', ''workspace:'' @ workspace_id] True) (\<lambda>completed.
      bind_io (check_that (last_json_object cfg (snd completed) ''summary'')) (\<lambda>summary.
      case jget summary ''snapshot_id'' of
        JStr revision \<Rightarrow>
          demand (revision \<noteq> []) ''restic backup did not return snapshot_id''
          (bind_io (check_that (int_of (jget summary ''files_new''))) (\<lambda>new.
           bind_io (check_that (int_of (jget summary ''files_changed''))) (\<lambda>changed.
           bind_io (check_that (int_of (jget summary ''data_added''))) (\<lambda>added.
           Done [(''revision_id'', JStr revision), (''files_new'', JInt new), (''files_changed'', JInt changed),
                 (''data_added'', JInt added)]))))
      | _ \<Rightarrow> fails ''restic backup did not return snapshot_id'')))))))"

definition restore :: "string \<Rightarrow> fpath \<Rightarrow> obj op" where
  "restore revision target =
     bind_io (resolve_strict target) (\<lambda>base.
     bind_io (path_is_dir base) (\<lambda>d.
     demand d ''Restore target is not a directory''
     (bind_io (list_children base) (\<lambda>cs.
      demand (cs = []) ''Restore target must be empty''
      (bind_io (restic [''restore'', revision, ''--target'', ''/'' @ join_with ''/'' base] True) (\<lambda>x.
       Done [(''revision_id'', JStr revision)]))))))"

section \<open>Retirement\<close>

definition listed_keys :: "json list \<Rightarrow> string list" where
  "listed_keys contents =
     List.map_filter (\<lambda>v. case v of JObj d \<Rightarrow> as_str (jget d ''Key'') | _ \<Rightarrow> None) contents"

fun listing_reply :: "sys_reply \<Rightarrow> json list option" where
  "listing_reply (Listed vs) = Some vs"
| "listing_reply _ = None"

fun deletion_reply :: "sys_reply \<Rightarrow> (string list \<times> string option) option" where
  "deletion_reply (DeletedBut ks code) = Some (ks, code)"
| "deletion_reply _ = None"

text \<open>The loop of \<open>retire_repository\<close>, with the number of rounds as fuel.\<close>

fun retire_loop :: "nat \<Rightarrow> string \<Rightarrow> int \<Rightarrow> int op" where
  "retire_loop 0 prefix_text deleted = Stuck"
| "retire_loop (Suc fuel) prefix_text deleted =
     bind_io (descriptor_call (ListObjects prefix_text) listing_reply) (\<lambda>contents.
     let objects = listed_keys contents
     in bind_io
          (if objects = [] then Done deleted
           else bind_io (descriptor_call (DeleteObjects objects) deletion_reply) (\<lambda>(errors, code).
             demand (errors = [])
               (''Object-store delete failed: '' @ (case code of Some c \<Rightarrow> if c = [] then ''unknown error'' else c | None \<Rightarrow> ''unknown error''))
               (Done (deleted + int (length objects))))) (\<lambda>n.
        if contents = [] then Done n else retire_loop fuel prefix_text n))"

definition strip_slashes :: "string \<Rightarrow> string" where
  "strip_slashes s = strip_chars (\<lambda>c. c = CHR ''/'') s"

definition retire_repository :: "op_cfg \<Rightarrow> nat \<Rightarrow> string \<Rightarrow> string \<Rightarrow> string \<Rightarrow> obj op" where
  "retire_repository cfg fuel endpoint bucket_name prefix_text =
     (case is_http_url (oc_bracket cfg) (rstrip (\<lambda>c. c = CHR ''/'') endpoint) of
        None \<Rightarrow> Raise (OtherFailure ''ValueError'')
      | Some http \<Rightarrow>
          demand http ''Object-store endpoint is invalid''
          (demand (bucket_name \<noteq> [] \<and> strip_slashes prefix_text \<noteq> []) ''Object-store bucket and prefix are required''
          (bind_io (retire_loop fuel (strip_slashes prefix_text @ ''/'') 0) (\<lambda>n.
           Done [(''objects_deleted'', JInt n)]))))"

section \<open>The command line\<close>

definition json_list :: "op_cfg \<Rightarrow> string \<Rightarrow> op_error + obj list" where
  "json_list cfg text =
     (case oc_parse cfg text of
        Some (JList vs) \<Rightarrow>
          require (list_all (\<lambda>v. as_obj v \<noteq> None) vs) (StorageOperationError ''Operation Artifact list is invalid'')
            (Inr (List.map_filter as_obj vs))
      | _ \<Rightarrow> Inl (StorageOperationError ''Operation Artifact list is invalid''))"

datatype storage_command =
    CheckpointCommand fpath string
  | RestoreCommand string fpath
  | RetireCommand string string string
  | CheckoutCommand fpath string string string int "string option" string
  | CheckoutBatchCommand fpath string string string string int int
  | PrepareCommand fpath int int
  | CaptureCommand fpath fpath string string int
  | UploadCaptureCommand fpath string string string
  | PublishCommand fpath string string string int

fun run_command :: "op_cfg \<Rightarrow> nat \<Rightarrow> storage_command \<Rightarrow> obj op" where
  "run_command cfg fuel (CheckpointCommand w ws) = checkpoint cfg w ws"
| "run_command cfg fuel (RestoreCommand r t) = restore r t"
| "run_command cfg fuel (RetireCommand e b p) = retire_repository cfg fuel e b p"
| "run_command cfg fuel (CheckoutCommand w d url token n sha unique) = checkout cfg w d url token n sha unique"
| "run_command cfg fuel (CheckoutBatchCommand w u a artifacts op_id uid gid) =
     bind_io (check_that (json_list cfg artifacts)) (\<lambda>ds. checkout_batch cfg w u a ds op_id uid gid)"
| "run_command cfg fuel (PrepareCommand w uid gid) = prepare_workspace cfg w uid gid"
| "run_command cfg fuel (CaptureCommand w sp op_id src n) = capture cfg w sp op_id src n"
| "run_command cfg fuel (UploadCaptureCommand sp op_id url token) = upload_capture cfg sp op_id url token"
| "run_command cfg fuel (PublishCommand w src url token n) = publish cfg w src url token n"

text \<open>The exit status and what is printed to the standard output: one line of JSON, or nothing.\<close>

definition storage_main :: "op_cfg \<Rightarrow> nat \<Rightarrow> storage_command \<Rightarrow> (int \<times> obj option) op" where
  "storage_main cfg fuel c =
     catch_io (bind_io (run_command cfg fuel c) (\<lambda>d. Done (0, Some d))) (\<lambda>e. Done (1, None))"

end
