(* ===== verification/Staging.thy ===== *)
theory Staging
  imports Storage_Ops
begin

text \<open>
  A logic for the storage operations: programs that leave a part of the file system alone (\<open>quiet\<close>), and
  programs that work in one directory while everything else that matters stays as it is (\<open>works\<close>); and
  the batch checkout up to its commit, which fills its staging directory with exactly the accepted files.
\<close>

section \<open>Parts of the table\<close>

definition restrict :: "(fpath \<Rightarrow> bool) \<Rightarrow> fs \<Rightarrow> fs" where
  "restrict K s = filter (\<lambda>(q, n). K q) s"

lemma map_of_restrict: "K q \<Longrightarrow> map_of (restrict K s) q = map_of s q"
  by (induction s) (auto simp: restrict_def)

lemma restrict_restrict: "restrict K (restrict L s) = restrict (\<lambda>q. K q \<and> L q) s"
  by (induction s) (auto simp: restrict_def)

lemma restrict_sub: "restrict L t = restrict L s \<Longrightarrow> (\<And>q. K q \<Longrightarrow> L q) \<Longrightarrow> restrict K t = restrict K s"
proof -
  assume eq: "restrict L t = restrict L s" and sub: "\<And>q. K q \<Longrightarrow> L q"
  have "restrict K u = restrict K (restrict L u)" for u
    using sub by (simp add: restrict_restrict) (rule arg_cong [where f = "\<lambda>P. restrict P u"], auto)
  then show ?thesis using eq by metis
qed

lemma restrict_update: "restrict K (AList.update p n s) = (if K p then AList.update p n (restrict K s) else restrict K s)"
  by (induction s) (auto simp: restrict_def)

lemma restrict_map_entry: "restrict K (AList.map_entry p f s) = (if K p then AList.map_entry p f (restrict K s) else restrict K s)"
  by (induction s) (auto simp: restrict_def)

lemma restrict_delete: "restrict K (AList.delete p s) = (if K p then AList.delete p (restrict K s) else restrict K s)"
  by (induction s) (auto simp: restrict_def)

lemma restrict_outside: "(\<And>q. K q \<Longrightarrow> \<not> prefix p q) \<Longrightarrow> restrict K (outside p s) = restrict K s"
  by (induction s) (auto simp: restrict_def outside_def)

lemma restrict_removed: "(\<And>q. K q \<Longrightarrow> \<not> prefix p q) \<Longrightarrow> restrict K (filter (\<lambda>(q, n). prefix p q \<longrightarrow> \<not> M q) s) = restrict K s"
  by (induction s) (auto simp: restrict_def)

lemma restrict_move:
  "(\<And>q. K q \<Longrightarrow> \<not> prefix src q \<and> \<not> prefix dst q) \<Longrightarrow> restrict K (move_tree src dst s) = restrict K s"
proof -
  assume K: "\<And>q. K q \<Longrightarrow> \<not> prefix src q \<and> \<not> prefix dst q"
  have moved: "\<not> K (dst @ x)" and from_src: "K q \<Longrightarrow> \<not> prefix src q" and to_dst: "K q \<Longrightarrow> \<not> prefix dst q" for x q
    using K [of "dst @ x"] K [of q] by auto
  show ?thesis
    by (induction s) (auto simp: restrict_def move_tree_def outside_def moved from_src dest: to_dst split: if_splits)
qed

lemma keys_restrict: "fst ` set (restrict K s) = {q \<in> fst ` set s. K q}"
  by (force simp: restrict_def)

section \<open>Programs that leave a part of the table alone\<close>

definition quiet :: "(fpath \<Rightarrow> bool) \<Rightarrow> 'a op \<Rightarrow> bool" where
  "quiet K p \<longleftrightarrow> (\<forall>s u. restrict K s = u \<longrightarrow>
     ensures (\<lambda>c r. True) (\<lambda>s t. restrict K t = restrict K s) (\<lambda>t. restrict K t = u) (\<lambda>a t. restrict K t = u)
       (\<lambda>e t. restrict K t = u) p s)"

definition local_at :: "fpath \<Rightarrow> (fs \<Rightarrow> op_error + 'a \<times> fs) \<Rightarrow> bool" where
  "local_at p f \<longleftrightarrow> (\<forall>s a t K. f s = Inr (a, t) \<longrightarrow> \<not> K p \<longrightarrow> restrict K t = restrict K s)"

lemma local_ats:
  "local_at p (mkdir_at ids p mode)" "local_at p (change_at g p)" "local_at p (create_at p mode)" "local_at p (write_at p b)"
  "local_at p (unlink_at p)"
  by (auto simp: local_at_def mkdir_at_def change_at_def create_at_def write_at_def unlink_at_def restrict_update
      restrict_map_entry restrict_delete split: if_splits option.splits node.splits)

lemma quiet_op_leaf [simp]: "quiet K (Done a)" "quiet K (Raise e)" "quiet K Stuck"
  by (simp_all add: quiet_def)

lemma quiet_op_bind: "quiet K p \<Longrightarrow> (\<And>a. quiet K (f a)) \<Longrightarrow> quiet K (bind_io p f)"
  unfolding quiet_def by (intro allI impI ensures_bind) (elim allE impE, assumption, elim ensures_mono, blast+)

lemma quiet_op_catch: "quiet K p \<Longrightarrow> (\<And>e. quiet K (h e)) \<Longrightarrow> quiet K (catch_io p h)"
  unfolding quiet_def by (intro allI impI ensures_catch) (elim allE impE, assumption, elim ensures_mono, blast+)

lemma quiet_await: "(\<And>r. quiet K (k r)) \<Longrightarrow> quiet K (Await c k)"
  unfolding quiet_def by (intro allI impI, simp only: ensures.simps, metis)

lemma quiet_syscall:
  assumes "\<And>s a t. f s = Inr (a, t) \<Longrightarrow> restrict K t = restrict K s"
  shows "quiet K (syscall c f)"
  using assms by (auto simp: quiet_def syscall_def split: sum.splits prod.splits)

lemma quiet_local: "local_at p f \<Longrightarrow> \<not> K p \<Longrightarrow> quiet K (syscall c f)"
  by (rule quiet_syscall) (auto simp: local_at_def)

lemma quiet_calls:
  "\<not> K p \<Longrightarrow> quiet K (make_dir ids p mode)" "\<not> K p \<Longrightarrow> quiet K (change_mode p mode)"
  "\<not> K p \<Longrightarrow> quiet K (change_owner p uid gid)" "\<not> K p \<Longrightarrow> quiet K (create_file p mode)"
  "\<not> K p \<Longrightarrow> quiet K (write_file p b)" "\<not> K p \<Longrightarrow> quiet K (unlink_missing_ok p)"
  by (auto simp: make_dir_def change_mode_def change_owner_def create_file_def write_file_def unlink_missing_ok_def
      intro!: quiet_local local_ats)

lemma quiet_reads:
  "quiet K (resolve_strict p)" "quiet K (lstat_of p)" "quiet K (asks c g)" "quiet K (sync_file p)" "quiet K (read_file p)"
  "quiet K (path_exists p)" "quiet K (path_is_dir p)" "quiet K (path_is_file p)" "quiet K (path_is_symlink p)"
  "quiet K (list_children p)" "quiet K (file_size p)" "quiet K (check_that r)"
  by (auto simp: resolve_strict_def lstat_of_def asks_def sync_file_def read_file_def read_at_def path_exists_def path_is_dir_def
      path_is_file_def path_is_symlink_def list_children_def file_size_def check_that_def lift_result_def intro!: quiet_syscall
      split: if_splits option.splits node.splits sum.splits)

lemma quiet_demand: "(ok \<Longrightarrow> quiet K p) \<Longrightarrow> quiet K (demand ok m p)"
  by (simp add: demand_def guard_io_def)

lemma quiet_remove: "(\<And>q. K q \<Longrightarrow> \<not> prefix p q) \<Longrightarrow> quiet K (remove_tree p)"
  by (auto simp: quiet_def remove_tree_def rmtree_at_def restrict_outside restrict_removed split: sum.splits sys_reply.splits)

lemma quiet_rename: "(\<And>q. K q \<Longrightarrow> \<not> prefix src q \<and> \<not> prefix dst q) \<Longrightarrow> quiet K (rename_node src dst)"
  unfolding rename_node_def by (rule quiet_syscall) (auto simp: rename_at_def restrict_move split: if_splits)

lemmas quiet_intros = quiet_op_bind quiet_op_catch quiet_demand quiet_reads quiet_calls

text \<open>A quiet step inside a longer argument: whatever depends only on the part that it leaves alone survives.\<close>

lemma ensures_quiet:
  assumes "quiet K p" and "\<And>t. restrict K t = restrict K s \<Longrightarrow> I t" and "\<And>a t. restrict K t = restrict K s \<Longrightarrow> Q a t"
    and "\<And>e t. restrict K t = restrict K s \<Longrightarrow> E e t"
  shows "ensures (\<lambda>c r. True) (\<lambda>s t. restrict K t = restrict K s) I Q E p s"
proof -
  have "ensures (\<lambda>c r. True) (\<lambda>s t. restrict K t = restrict K s) (\<lambda>t. restrict K t = restrict K s)
      (\<lambda>a t. restrict K t = restrict K s) (\<lambda>e t. restrict K t = restrict K s) p s"
    using assms(1) by (simp add: quiet_def)
  then show ?thesis by (rule ensures_mono) (use assms in auto)
qed

lemma quiet_resolve:
  assumes "quiet K (f base)"
  shows "quiet K (bind_io (resolve_strict base) f)"
  using assms unfolding quiet_def
  by (intro allI impI, simp add: resolve_strict_def syscall_def split: sum.split) metis

lemma quiet_controlled:
  assumes "if relative = ''.'' then \<not> K base else \<not> K (base @ path_parts relative)"
  shows "quiet K (controlled_directory cfg base relative mode uid gid)"
proof (cases "relative = ''.''")
  case True
  then show ?thesis using assms unfolding controlled_directory_def by (auto intro!: quiet_intros)
next
  case False
  have target: "quiet K (bind_io (resolve_strict base) (\<lambda>r. bind_io (check_that (safe_destination r relative)) f))"
    if "quiet K (f (base @ path_parts relative))" for f :: "fpath \<Rightarrow> fpath op"
    using that unfolding quiet_def
    by (intro allI impI, simp add: resolve_strict_def syscall_def check_that_def safe_destination_def require_def lift_result_def
        split: sum.split) metis
  have assoc: "bind_io (bind_io p f) g = bind_io p (\<lambda>x. bind_io (f x) g)" for p :: "'x op" and f :: "'x \<Rightarrow> 'y op" and g :: "'y \<Rightarrow> 'z op"
    by (induction p) auto
  show ?thesis
    unfolding controlled_directory_def using False assms by (simp add: assoc, intro target) (auto intro!: quiet_intros)
qed

section \<open>Working in a staging directory\<close>

text \<open>
  \<open>works K d U B p Q\<close>: the program leaves the part \<open>K\<close> of the table at \<open>U\<close>, waiting, failing or done, and takes
  the content \<open>B\<close> of the directory \<open>d\<close> to one with \<open>Q\<close>, if nobody else touches these two parts.
\<close>

definition staged :: "(fpath \<Rightarrow> bool) \<Rightarrow> fpath \<Rightarrow> fs \<Rightarrow> fs \<Rightarrow> fs \<Rightarrow> bool" where
  "staged K d U B t \<longleftrightarrow> restrict K t = U \<and> restrict (prefix d) t = B"

definition works :: "(fpath \<Rightarrow> bool) \<Rightarrow> fpath \<Rightarrow> fs \<Rightarrow> fs \<Rightarrow> 'a op \<Rightarrow> ('a \<Rightarrow> fs \<Rightarrow> bool) \<Rightarrow> bool" where
  "works K d U B p Q \<longleftrightarrow> (\<forall>s. staged K d U B s \<longrightarrow>
     ensures (\<lambda>c r. True) (\<lambda>s t. restrict (\<lambda>q. K q \<or> prefix d q) t = restrict (\<lambda>q. K q \<or> prefix d q) s)
       (\<lambda>t. restrict K t = U) (\<lambda>a t. \<exists>C. Q a C \<and> staged K d U C t) (\<lambda>e t. restrict K t = U) p s)"

lemma staged_sub:
  "staged K d U B s \<Longrightarrow> restrict (\<lambda>q. K q \<or> prefix d q) t = restrict (\<lambda>q. K q \<or> prefix d q) s \<Longrightarrow> staged K d U B t"
  unfolding staged_def using restrict_sub [of "\<lambda>q. K q \<or> prefix d q" t s K] restrict_sub [of "\<lambda>q. K q \<or> prefix d q" t s "prefix d"]
  by auto

lemma works_leaf:
  "Q a B \<Longrightarrow> works K d U B (Done a) Q" "works K d U B (Raise e) Q"
  by (auto simp: works_def staged_def)

lemma works_bind:
  assumes "works K d U B p P" and "\<And>a C. P a C \<Longrightarrow> works K d U C (f a) Q"
  shows "works K d U B (bind_io p f) Q"
  unfolding works_def
proof (intro allI impI ensures_bind)
  fix s assume "staged K d U B s"
  then show "ensures (\<lambda>c r. True) (\<lambda>s t. restrict (\<lambda>q. K q \<or> prefix d q) t = restrict (\<lambda>q. K q \<or> prefix d q) s)
      (\<lambda>t. restrict K t = U) (\<lambda>a. ensures (\<lambda>c r. True) (\<lambda>s t. restrict (\<lambda>q. K q \<or> prefix d q) t = restrict (\<lambda>q. K q \<or> prefix d q) s)
      (\<lambda>t. restrict K t = U) (\<lambda>a t. \<exists>C. Q a C \<and> staged K d U C t) (\<lambda>e t. restrict K t = U) (f a)) (\<lambda>e t. restrict K t = U) p s"
    by (intro ensures_mono [OF assms(1) [unfolded works_def, THEN spec, THEN mp]]) (use assms(2) in \<open>auto simp: works_def\<close>)
qed

lemma works_mono: "works K d U B p P \<Longrightarrow> (\<And>a C. P a C \<Longrightarrow> Q a C) \<Longrightarrow> works K d U B p Q"
  unfolding works_def by (intro allI impI, elim allE impE, assumption, elim ensures_mono) blast+

lemma works_demand: "(ok \<Longrightarrow> works K d U B p Q) \<Longrightarrow> works K d U B (demand ok m p) Q"
  by (cases ok) (simp_all add: demand_def guard_io_def works_leaf)

lemma works_check: "(\<And>a. r = Inr a \<Longrightarrow> Q a B) \<Longrightarrow> works K d U B (check_that r) Q"
  by (cases r) (simp_all add: check_that_def lift_result_def works_leaf)

lemma works_quiet:
  assumes "quiet (\<lambda>q. K q \<or> prefix d q) p"
  shows "works K d U B p (\<lambda>a C. C = B)"
  unfolding works_def
proof (intro allI impI ensures_quiet [OF assms])
  fix s t assume "staged K d U B s" "restrict (\<lambda>q. K q \<or> prefix d q) t = restrict (\<lambda>q. K q \<or> prefix d q) s"
  then have "staged K d U B t" by (rule staged_sub)
  then show "restrict K t = U" "\<exists>C. C = B \<and> staged K d U C t" by (auto simp: staged_def)
  then show "restrict K t = U" by simp
qed

lemma works_await:
  assumes "\<And>r. works K d U B (k r) Q"
  shows "works K d U B (Await c k) Q"
  unfolding works_def ensures.simps
proof (intro allI impI conjI)
  fix s r t assume s: "staged K d U B s" "restrict (\<lambda>q. K q \<or> prefix d q) t = restrict (\<lambda>q. K q \<or> prefix d q) s"
  then have "staged K d U B t" by (rule staged_sub)
  then show "ensures (\<lambda>c r. True) (\<lambda>s t. restrict (\<lambda>q. K q \<or> prefix d q) t = restrict (\<lambda>q. K q \<or> prefix d q) s)
      (\<lambda>t. restrict K t = U) (\<lambda>a t. \<exists>C. Q a C \<and> staged K d U C t) (\<lambda>e t. restrict K t = U) (k r) t"
    using assms unfolding works_def by blast
qed (auto simp: staged_def)

lemma works_syscall:
  assumes "\<And>s a t. staged K d U B s \<Longrightarrow> f s = Inr (a, t) \<Longrightarrow> \<exists>C. Q a C \<and> staged K d U C t"
  shows "works K d U B (syscall c f) Q"
  unfolding syscall_def
proof (rule works_await)
  fix r
  show "works K d U B (case r of Inl e \<Rightarrow> Raise e
      | Inr x \<Rightarrow> ReadState (\<lambda>s. case f s of Inl e \<Rightarrow> Raise e | Inr (a, t) \<Rightarrow> WriteState (\<lambda>u. t) (Done a))) Q"
    using assms by (auto simp: works_def staged_def split: sum.split prod.split)
qed

lemma works_at:
  assumes "local_at p f" and "prefix d p" and "\<not> K p"
    and "\<And>s a t. restrict (prefix d) s = B \<Longrightarrow> f s = Inr (a, t) \<Longrightarrow> Q a (restrict (prefix d) t)"
  shows "works K d U B (syscall c f) Q"
  by (rule works_syscall) (use assms in \<open>auto simp: staged_def local_at_def\<close>)

lemma map_of_below: "restrict (prefix d) s = B \<Longrightarrow> prefix d p \<Longrightarrow> map_of s p = map_of B p"
  using map_of_restrict [of "prefix d" p s] by simp

lemma works_create:
  assumes "prefix d p" and "\<not> K p"
  shows "works K d U B (create_file p mode) (\<lambda>a C. map_of B p = None \<and> C = AList.update p (RegularFile [] mode) B)"
  unfolding create_file_def
proof (rule works_at [where p = p])
  fix s a t assume s: "restrict (prefix d) s = B" "create_at p mode s = Inr (a, t)"
  then have "map_of s p = map_of B p" using map_of_below assms by metis
  then show "map_of B p = None \<and> restrict (prefix d) t = AList.update p (RegularFile [] mode) B"
    using s assms(1) by (auto simp: create_at_def restrict_update split: if_splits)
qed (use assms in \<open>auto intro: local_ats\<close>)

lemma works_write:
  assumes "prefix d p" and "\<not> K p" and "map_of B p = Some (RegularFile data m)"
  shows "works K d U B (write_file p b) (\<lambda>a C. C = AList.update p (RegularFile (data @ b) m) B)"
  unfolding write_file_def
proof (rule works_at [where p = p])
  fix s a t assume s: "restrict (prefix d) s = B" "write_at p b s = Inr (a, t)"
  then have "map_of s p = Some (RegularFile data m)" using map_of_below assms by metis
  then show "restrict (prefix d) t = AList.update p (RegularFile (data @ b) m) B"
    using s assms(1) by (auto simp: write_at_def node_at_def restrict_update split: if_splits)
qed (use assms in \<open>auto intro: local_ats\<close>)

lemma works_mode:
  assumes "prefix d p" and "\<not> K p" and "p \<noteq> []"
  shows "works K d U B (change_mode p mode) (\<lambda>a C. C = AList.map_entry p (with_mode mode) B)"
  unfolding change_mode_def
proof (rule works_at [where p = p])
  fix s a t assume "restrict (prefix d) s = B" "change_at (with_mode mode) p s = Inr (a, t)"
  then show "restrict (prefix d) t = AList.map_entry p (with_mode mode) B"
    using assms by (auto simp: change_at_def restrict_map_entry split: option.splits)
qed (use assms in \<open>auto intro: local_ats\<close>)

lemma works_each:
  assumes "J [] [] xs B"
    and "\<And>as ys x zs C. xs = ys @ x # zs \<Longrightarrow> J as ys (x # zs) C \<Longrightarrow> works K d U C (f x) (\<lambda>a C. J (as @ [a]) (ys @ [x]) zs C)"
    and "\<And>as C. J as xs [] C \<Longrightarrow> Q as C"
  shows "works K d U B (each_io f xs) Q"
proof -
  have "works K d U C (each_io f zs) (\<lambda>bs C. J (as @ bs) xs [] C)" if "xs = ys @ zs" "J as ys zs C" for as ys zs C
    using that
  proof (induction zs arbitrary: as ys C)
    case (Cons x zs)
    show ?case
    proof (simp, rule works_bind)
      show "works K d U C (f x) (\<lambda>a C. J (as @ [a]) (ys @ [x]) zs C)" by (rule assms(2)) (use Cons.prems in auto)
      fix a D assume "J (as @ [a]) (ys @ [x]) zs D"
      then have "works K d U D (each_io f zs) (\<lambda>bs C. J ((as @ [a]) @ bs) xs [] C)"
        by (intro Cons.IH [of "ys @ [x]"]) (use Cons.prems in auto)
      then show "works K d U D (bind_io (each_io f zs) (\<lambda>as. Done (a # as))) (\<lambda>bs C. J (as @ bs) xs [] C)"
        by (rule works_bind) (auto intro: works_leaf)
    qed
  qed (simp add: works_leaf)
  from this [of "[]" xs "[]" B] assms(1) have "works K d U B (each_io f xs) (\<lambda>bs C. J bs xs [] C)" by simp
  then show ?thesis by (rule works_mono) (rule assms(3))
qed

lemma map_of_move:
  assumes "\<not> prefix src dst" and "\<not> prefix dst src"
  shows "map_of (move_tree src dst s) k =
    (if prefix dst k then map_of s (src @ drop (length dst) k) else if prefix src k then None else map_of s k)"
proof -
  have to_dst: "dst @ x = k \<longleftrightarrow> prefix dst k \<and> x = drop (length dst) k" for x by (auto simp: prefix_def)
  have from_src: "p = src @ x \<longleftrightarrow> prefix src p \<and> x = drop (length src) p" for p x by (auto simp: prefix_def)
  have apart: "\<not> (prefix src p \<and> prefix dst p)" for p using assms prefix_same_cases by blast
  show ?thesis
  proof (induction s)
    case (Cons e s)
    obtain p n where e: "e = (p, n)" by (cases e)
    consider "prefix dst p" | "\<not> prefix dst p" "prefix src p" | "\<not> prefix dst p" "\<not> prefix src p" by blast
    then show ?case
    proof cases
      case 1
      then show ?thesis using Cons e apart [of p] from_src [of p "drop (length dst) k"] by (auto simp: move_tree_def outside_def)
    next
      case 2
      then show ?thesis using Cons e apart [of p] to_dst [of "drop (length src) p"] from_src [of p "drop (length dst) k"]
        by (auto simp: move_tree_def outside_def)
    next
      case 3
      then show ?thesis using Cons e by (auto simp: move_tree_def outside_def)
    qed
  qed (simp add: move_tree_def outside_def)
qed

lemma keys_move:
  "fst ` set (move_tree src dst s) =
     (\<lambda>p. if prefix src p then dst @ drop (length src) p else p) ` {p \<in> fst ` set s. \<not> prefix dst p}"
proof -
  have "map fst (move_tree src dst s) =
      map (\<lambda>p. if prefix src p then dst @ drop (length src) p else p) (filter (\<lambda>p. \<not> prefix dst p) (map fst s))"
    by (induction s) (auto simp: move_tree_def outside_def)
  then have "set (map fst (move_tree src dst s)) =
      set (map (\<lambda>p. if prefix src p then dst @ drop (length src) p else p) (filter (\<lambda>p. \<not> prefix dst p) (map fst s)))"
    by (rule arg_cong)
  then show ?thesis by (simp only: set_map set_filter)
qed

lemma restrict_move_within:
  assumes "prefix d src" and "prefix d dst"
  shows "restrict (prefix d) (move_tree src dst s) = move_tree src dst (restrict (prefix d) s)"
proof -
  have src: "prefix src p \<Longrightarrow> prefix d p" and dst: "prefix d (dst @ x)" "prefix dst p \<Longrightarrow> prefix d p" for p x
    using assms by (auto intro: prefix_order.trans)
  show ?thesis by (induction s) (auto simp: restrict_def move_tree_def outside_def dst dest: src dst(2) split: if_splits)
qed

lemma works_rename:
  assumes "prefix d src" and "prefix d dst" and "src \<noteq> dst" and "\<And>q. K q \<Longrightarrow> \<not> prefix d q"
  shows "works K d U B (rename_node src dst) (\<lambda>a C. C = move_tree src dst B)"
  unfolding rename_node_def
proof (rule works_syscall)
  fix s a t assume s: "staged K d U B s" "rename_at src dst s = Inr (a, t)"
  then have t: "t = move_tree src dst s" using assms(3) by (auto simp: rename_at_def split: if_splits)
  have "restrict K t = restrict K s"
    unfolding t by (rule restrict_move) (use assms in \<open>blast intro: prefix_order.trans\<close>)
  then show "\<exists>C. C = move_tree src dst B \<and> staged K d U C t"
    using s assms by (auto simp: staged_def t restrict_move_within)
qed

section \<open>Accepted batches\<close>

definition item_of :: "string \<Rightarrow> string \<Rightarrow> int \<Rightarrow> string \<Rightarrow> obj" where
  "item_of aid f n sha =
     [(''artifact_id'', JStr aid), (''filename'', JStr f), (''size'', JInt n), (''sha256'', JStr sha)]"

lemma item_of_simps [simp]:
  "item_text (item_of aid f n sha) ''artifact_id'' = aid" "item_text (item_of aid f n sha) ''filename'' = f"
  "item_text (item_of aid f n sha) ''sha256'' = sha" "item_size (item_of aid f n sha) = n"
  "jset ''size'' (JInt n) (jset ''sha256'' (JStr sha) (item_of aid f n sha)) = item_of aid f n sha"
  by (simp_all add: item_text_def item_size_def item_of_def jset_def)

definition item_ok :: "obj \<Rightarrow> obj \<Rightarrow> bool" where
  "item_ok d item \<longleftrightarrow> (\<exists>aid f n sha. item = item_of aid f n (lower sha) \<and> jget d ''artifact_id'' = JStr aid
     \<and> jget d ''sha256'' = JStr sha \<and> jget d ''filename'' = JStr f \<and> path_parts f = [f])"

lemma safe_filename_parts: "safe_filename v = Inr f \<Longrightarrow> f = v \<and> path_parts v = [v]"
proof -
  assume ok: "safe_filename v = Inr f"
  then have v: "v \<noteq> []" "v \<noteq> ''.''" "path_name v = v" by (auto simp: safe_filename_def require_def split: if_splits)
  then have "v \<in> set (path_parts v)" by (auto simp: path_name_def split: if_splits) (metis last_in_set)
  then have "CHR ''/'' \<notin> set v" by (auto simp: path_parts_def dest: split_on_parts)
  then show ?thesis using v ok by (auto simp: path_parts_def split_on_no_sep safe_filename_def require_def split: if_splits)
qed

lemma required_text_Inr: "required_text d k = Inr v \<longleftrightarrow> jget d k = JStr v \<and> v \<noteq> []"
  by (cases "jget d k") (auto simp: required_text_def require_def)

lemma public_artifact_ok:
  assumes "public_artifact ids names d = Inr (aid, f, item)"
  shows "item_ok d item \<and> item_text item ''artifact_id'' = aid \<and> item_text item ''filename'' = f \<and> aid \<notin> set ids \<and> f \<notin> set names"
proof -
  obtain sha n where facts: "required_text d ''artifact_id'' = Inr aid" "required_text d ''sha256'' = Inr sha"
      "safe_filename f = Inr f" "jget d ''filename'' = JStr f"
      "item = item_of aid f n (lower sha)" "aid \<notin> set ids" "f \<notin> set names"
    using assms safe_filename_parts
    by (auto simp: public_artifact_def item_of_def [symmetric] required_text_Inr result_iffs)
  then show ?thesis using safe_filename_parts [OF facts(3)] by (auto simp: item_ok_def required_text_Inr)
qed

lemma public_artifacts_ok:
  "public_artifacts ids names ds = Inr items \<Longrightarrow>
     list_all2 item_ok ds items \<and> distinct (map (\<lambda>i. item_text i ''artifact_id'') items)
     \<and> distinct (map (\<lambda>i. item_text i ''filename'') items)
     \<and> set ids \<inter> set (map (\<lambda>i. item_text i ''artifact_id'') items) = {}
     \<and> set names \<inter> set (map (\<lambda>i. item_text i ''filename'') items) = {}"
proof (induction ids names ds arbitrary: items rule: public_artifacts.induct)
  case (2 ids names d ds)
  obtain aid f item rest where one: "public_artifact ids names d = Inr (aid, f, item)"
      and rest: "public_artifacts (aid # ids) (f # names) ds = Inr rest" and items: "items = item # rest"
    using "2.prems" by (auto simp: result_iffs)
  show ?case using one rest public_artifact_ok [OF one] "2.IH" [OF rest] unfolding items by auto
qed simp

lemma items_plain:
  assumes "public_artifacts ids names ds = Inr items"
  shows "\<forall>i\<in>set items. path_parts (item_text i ''filename'') = [item_text i ''filename'']"
proof
  fix i assume "i \<in> set items"
  then obtain d where "item_ok d i"
    using public_artifacts_ok [OF assms] by (metis in_set_conv_nth list_all2_conv_all_nth)
  then show "path_parts (item_text i ''filename'') = [item_text i ''filename'']" by (auto simp: item_ok_def)
qed

lemma source_of_item:
  assumes "public_artifacts [] [] ds = Inr items" and "item \<in> set items"
    and "artifact_source ds (item_text item ''artifact_id'') = Inr d"
  shows "item_ok d item"
proof -
  note ok = public_artifacts_ok [OF assms(1)]
  have d: "d \<in> set ds" "jget d ''artifact_id'' = JStr (item_text item ''artifact_id'')"
    using assms(3) by (auto simp: artifact_source_def find_Some_iff in_set_conv_nth split: option.splits)
  then obtain other where other: "other \<in> set items" "item_ok d other"
    using ok by (metis in_set_conv_nth list_all2_conv_all_nth)
  then have "item_text other ''artifact_id'' = item_text item ''artifact_id''"
    using d by (auto simp: item_ok_def)
  then have "other = item" using ok other assms(2) by (metis distinct_key_eq)
  then show ?thesis using other by simp
qed

section \<open>Filling the staging directory\<close>

lemma keys_update: "fst ` set (AList.update p n B) = insert p (fst ` set B)"
  by (induction B) auto

lemma keys_map_entry: "fst ` set (AList.map_entry p f B) = fst ` set B"
  by (induction B) auto

lemma map_of_map_entry': "map_of (AList.map_entry p f B) = (map_of B)(p := map_option f (map_of B p))"
  by (induction B) (auto simp: fun_upd_twist)

lemma works_chunks:
  assumes "prefix d p" and "\<not> K p" and "map_of B p = Some (RegularFile data m)"
  shows "works K d U B (write_chunks p limit received cs)
    (\<lambda>b C. b = received @ concat cs \<and> fst ` set C = fst ` set B \<and> map_of C = (map_of B)(p \<mapsto> RegularFile (data @ concat cs) m))"
  using assms(3)
proof (induction cs arbitrary: B data received)
  case Nil
  then show ?case by (auto intro!: works_leaf)
next
  case (Cons c cs)
  have key: "p \<in> fst ` set B" using Cons.prems by (force dest: map_of_SomeD)
  show ?case
    unfolding write_chunks.simps
  proof (rule works_demand, rule works_bind [OF works_write [where K = K, OF assms(1,2) Cons.prems]])
    fix a C assume C: "C = AList.update p (RegularFile (data @ c) m) B"
    then have "map_of C p = Some (RegularFile (data @ c) m)" by (simp add: update_conv')
    from Cons.IH [OF this, of "received @ c"]
    show "works K d U C (write_chunks p limit (received @ c) cs)
        (\<lambda>b C. b = received @ concat (c # cs) \<and> fst ` set C = fst ` set B
          \<and> map_of C = (map_of B)(p \<mapsto> RegularFile (data @ concat (c # cs)) m))"
      by (rule works_mono) (use key in \<open>auto simp: C update_conv' keys_update\<close>)
  qed
qed

lemma works_download:
  assumes "prefix d p" and "\<not> K p" and "map_of B p = Some (RegularFile [] m)"
  shows "works K d U B (download url token p limit)
    (\<lambda>b C. fst ` set C = fst ` set B \<and> map_of C = (map_of B)(p \<mapsto> RegularFile b m))"
  unfolding download_def
proof (rule works_await)
  fix r :: "op_error + sys_reply"
  have body: "works K d U B (bind_io (write_chunks p limit [] chunks) (\<lambda>b. demand intact t (Done b)))
      (\<lambda>b C. fst ` set C = fst ` set B \<and> map_of C = (map_of B)(p \<mapsto> RegularFile b m))" for chunks intact t
    by (rule works_bind [OF works_chunks [where K = K, OF assms]]) (auto intro!: works_demand works_leaf)
  show "works K d U B (case r of Inl (HttpFailed m) \<Rightarrow> fails (''Artifact checkout failed: '' @ m) | Inl e \<Rightarrow> Raise e
      | Inr (Streamed ok chunks intact) \<Rightarrow> demand ok ''Artifact checkout failed: ''
         (bind_io (write_chunks p limit [] chunks) (\<lambda>b. demand intact ''Artifact checkout failed: '' (Done b)))
      | Inr x \<Rightarrow> Raise (OtherFailure ''unexpected answer''))
      (\<lambda>b C. fst ` set C = fst ` set B \<and> map_of C = (map_of B)(p \<mapsto> RegularFile b m))"
    by (auto split: sum.split op_error.split sys_reply.split intro!: works_leaf works_demand body)
qed

fun holds_file :: "op_cfg \<Rightarrow> node option \<Rightarrow> obj \<Rightarrow> bool" where
  "holds_file cfg (Some (RegularFile b m)) d = (oc_sha cfg b = item_text d ''sha256'' \<and> int (length b) = item_size d)"
| "holds_file cfg n d = False"

text \<open>One file: it was not there before, and it is there afterwards with the digest and the size of its item.\<close>

lemma works_install:
  assumes items: "public_artifacts [] [] sources = Inr items" "item \<in> set items"
    and K: "\<And>q. K q \<Longrightarrow> \<not> prefix d q" and "d \<noteq> []"
  shows "works K d U B (install_file cfg d sources item)
    (\<lambda>a C. a = item \<and> (let p = d @ [item_text item ''filename''] in
       map_of B p = None \<and> fst ` set C = insert p (fst ` set B) \<and> holds_file cfg (map_of C p) item
       \<and> (\<forall>q. q \<noteq> p \<longrightarrow> map_of C q = map_of B q)))"
proof -
  have parts: "path_parts (item_text item ''filename'') = [item_text item ''filename'']"
    using items_plain [OF items(1)] items(2) by blast
  define p where "p = d @ [item_text item ''filename'']"
  have p: "prefix d p" "\<not> K p" "p \<noteq> []" using K [of p] by (auto simp: p_def)
  show ?thesis
    unfolding install_file_def parts Let_def p_def [symmetric]
  proof (rule works_bind [where P = "\<lambda>src C. C = B \<and> item_ok src item"])
    show "works K d U B (check_that (artifact_source sources (item_text item ''artifact_id''))) (\<lambda>src C. C = B \<and> item_ok src item)"
      by (rule works_check) (auto intro: source_of_item [OF items])
    fix src C assume src: "C = B \<and> item_ok src item"
    have digest: "as_str (jget src ''sha256'') = Some sha \<Longrightarrow> lower sha = item_text item ''sha256''"
      and given: "as_str (jget src ''sha256'') \<noteq> None" for sha using src by (auto simp: item_ok_def)
    have same: "jmerge item [(''sha256'', JStr (item_text item ''sha256'')), (''size'', JInt (item_size item))] = item"
      using src by (auto simp: item_ok_def)
    show "works K d U C
        (bind_io (create_file p 420) (\<lambda>u. bind_io (check_that (required_text src ''url'')) (\<lambda>url.
         bind_io (check_that (required_text src ''token'')) (\<lambda>token. bind_io (check_that (positive_int src ''max_bytes'' False)) (\<lambda>limit.
         bind_io (download url token p limit) (\<lambda>b. bind_io (sync_file p) (\<lambda>u.
         demand (case as_str (jget src ''sha256'') of None \<Rightarrow> True | Some sha \<Rightarrow> oc_sha cfg b = lower sha)
           ''Downloaded file digest does not match''
         (demand (int (length b) = item_size item) ''Downloaded file size does not match''
         (bind_io (change_mode p 292) (\<lambda>u. Done (jmerge item [(''sha256'', JStr (oc_sha cfg b)), (''size'', JInt (int (length b)))])))))))))))
        (\<lambda>a C. a = item \<and> map_of B p = None \<and> fst ` set C = insert p (fst ` set B) \<and> holds_file cfg (map_of C p) item
          \<and> (\<forall>q. q \<noteq> p \<longrightarrow> map_of C q = map_of B q))"
    proof (rule works_bind [OF works_create [where K = K, OF p(1,2)]], elim conjE, goal_cases)
      case (1 u C1)
      have fresh: "map_of B p = None" and C1: "C1 = AList.update p (RegularFile [] 420) B" using 1 src by auto
      have start: "map_of C1 p = Some (RegularFile [] 420)" by (simp add: C1 update_conv')
      show ?case
      proof (rule works_bind [OF works_check [where Q = "\<lambda>a C. C = C1"]], simp,
          rule works_bind [OF works_check [where Q = "\<lambda>a C. C = C1"]], simp,
          rule works_bind [OF works_check [where Q = "\<lambda>a C. C = C1"]], simp, simp, goal_cases)
        case (1 url C2 token C3 limit C4)
        show ?case
        proof (rule works_bind [OF works_download [where K = K, OF p(1,2) start]], elim conjE, rule works_bind [OF works_quiet [where K = K, OF quiet_reads(4)]],
            rule works_demand, rule works_demand, goal_cases)
          case (1 b C5 u C6)
          have b: "oc_sha cfg b = item_text item ''sha256''" "int (length b) = item_size item"
            using 1 digest given by (auto split: option.splits)
          show ?case
            by (rule works_bind [OF works_mode [where K = K, OF p]], rule works_leaf)
              (use 1 b same fresh in \<open>auto simp: keys_map_entry map_of_map_entry' C1 keys_update update_conv'\<close>)
        qed
      qed
    qed
  qed
qed

text \<open>All files: the staging directory holds exactly the files of the items, and the items are returned as they were.\<close>

definition holds_exactly :: "op_cfg \<Rightarrow> fpath \<Rightarrow> obj list \<Rightarrow> fpath list \<Rightarrow> fs \<Rightarrow> bool" where
  "holds_exactly cfg d items others s \<longleftrightarrow>
     is_directory (map_of s d)
     \<and> (\<forall>i\<in>set items. holds_file cfg (map_of s (d @ [item_text i ''filename''])) i)
     \<and> fst ` set s = set (d # others @ map (\<lambda>i. d @ [item_text i ''filename'']) items)"

lemma works_install_all:
  assumes items: "public_artifacts [] [] sources = Inr items"
    and K: "\<And>q. K q \<Longrightarrow> \<not> prefix d q" and d: "d \<noteq> []"
    and B: "fst ` set B = {d}" "is_directory (map_of B d)"
  shows "works K d U B (each_io (install_file cfg d sources) items) (\<lambda>as C. as = items \<and> holds_exactly cfg d items [] C)"
proof (rule works_each [where J = "\<lambda>as ys zs C. as = ys \<and> holds_exactly cfg d ys [] C"])
  show "[] = [] \<and> holds_exactly cfg d [] [] B" using B by (simp add: holds_exactly_def)
next
  fix as ys x zs C
  assume xs: "items = ys @ x # zs" and C: "as = ys \<and> holds_exactly cfg d ys [] C"
  have x: "x \<in> set items" using xs by simp
  show "works K d U C (install_file cfg d sources x) (\<lambda>a C. as @ [a] = ys @ [x] \<and> holds_exactly cfg d (ys @ [x]) [] C)"
  proof (rule works_mono [OF works_install [OF items x K d]], assumption)
    fix a D
    assume D: "a = x \<and> (let p = d @ [item_text x ''filename''] in
       map_of C p = None \<and> fst ` set D = insert p (fst ` set C) \<and> holds_file cfg (map_of D p) x
       \<and> (\<forall>q. q \<noteq> p \<longrightarrow> map_of D q = map_of C q))"
    then have fresh: "\<not> holds_file cfg (map_of C (d @ [item_text x ''filename''])) i" for i by (simp add: Let_def)
    have "\<forall>i\<in>set ys. d @ [item_text i ''filename''] \<noteq> d @ [item_text x ''filename'']"
      using C fresh unfolding holds_exactly_def by metis
    then show "as @ [a] = ys @ [x] \<and> holds_exactly cfg d (ys @ [x]) [] D"
      using C D by (auto simp: holds_exactly_def Let_def)
  qed
qed auto

fun holds_manifest :: "op_cfg \<Rightarrow> node option \<Rightarrow> obj \<Rightarrow> bool" where
  "holds_manifest cfg (Some (RegularFile b m)) d = (b = oc_dumps cfg d)"
| "holds_manifest cfg n d = False"

lemma works_manifest:
  assumes C: "holds_exactly cfg d items [] C" and K: "\<And>q. K q \<Longrightarrow> \<not> prefix d q" and d: "d \<noteq> []"
    and free: "\<forall>i\<in>set items. item_text i ''filename'' \<noteq> name"
  shows "works K d U C (write_json_atomic cfg d name value mode)
    (\<lambda>u D. holds_exactly cfg d items [d @ [name]] D \<and> holds_manifest cfg (map_of D (d @ [name])) value)"
proof -
  define p q where "p = d @ [part_name name]" and "q = d @ [name]"
  have p: "prefix d p" "\<not> K p" "p \<noteq> []" using K [of p] by (auto simp: p_def)
  have q: "prefix d q" "p \<noteq> q" by (auto simp: p_def q_def part_name_def)
  have apart: "\<not> prefix p q" "\<not> prefix q p" using q by (auto simp: p_def q_def)
  show ?thesis
    unfolding write_json_atomic_def Let_def p_def [symmetric] q_def [symmetric]
  proof (rule works_bind [OF works_create [where K = K, OF p(1,2)]], elim conjE, goal_cases)
    case (1 u C1)
    have C1: "map_of C1 = (map_of C)(p \<mapsto> RegularFile [] 420)" "fst ` set C1 = insert p (fst ` set C)"
      using 1 by (simp_all add: update_conv' keys_update)
    have start: "map_of C1 p = Some (RegularFile [] 420)" by (simp add: C1)
    have fresh: "\<forall>i\<in>set items. item_text i ''filename'' \<noteq> part_name name"
      using 1 C by (auto simp: holds_exactly_def p_def)
    show ?case
    proof (rule works_bind [OF works_write [where K = K, OF p(1,2) start]], rule works_bind [OF works_quiet [where K = K, OF quiet_reads(4)]],
        rule works_bind [OF works_mode [where K = K, OF p]], rule works_mono [OF works_rename [OF p(1) q K]], assumption, goal_cases)
      case (1 u2 C2 u3 C3 u4 C4 u5 C5)
      have C4: "map_of C4 = (map_of C)(p \<mapsto> RegularFile (oc_dumps cfg value) mode)" "fst ` set C4 = insert p (fst ` set C)"
        using 1 C1 by (auto simp: update_conv' keys_update keys_map_entry map_of_map_entry')
      have files: "prefix p (d @ [item_text i ''filename'']) = False" "prefix q (d @ [item_text i ''filename'']) = False" if "i \<in> set items" for i
        using that free fresh by (auto simp: p_def q_def)
      have lone: "prefix p d = False" "prefix q d = False" by (auto simp: p_def q_def)
      have keys: "fst ` set C = insert d ((\<lambda>i. d @ [item_text i ''filename'']) ` set items)"
        using C by (simp add: holds_exactly_def)
      have "fst ` set C5 = (\<lambda>x. if prefix p x then q @ drop (length p) x else x) ` {x \<in> insert p (fst ` set C). \<not> prefix q x}"
        using 1 C4 by (simp add: keys_move)
      also have "{x \<in> insert p (fst ` set C). \<not> prefix q x} = insert p (fst ` set C)"
        using apart files lone by (auto simp: keys)
      also have "(\<lambda>x. if prefix p x then q @ drop (length p) x else x) ` insert p (fst ` set C) = insert q (fst ` set C)"
        using files lone by (auto simp: keys image_iff)
      finally have keys5: "fst ` set C5 = insert q (fst ` set C)" .
      have map5: "map_of C5 x = (if prefix q x then map_of C4 (p @ drop (length q) x) else if prefix p x then None else map_of C4 x)" for x
        using 1 by (simp add: map_of_move apart)
      have "map_of C5 d = map_of C d" "map_of C5 q = Some (RegularFile (oc_dumps cfg value) mode)"
        using lone by (auto simp: map5 C4 p_def)
      moreover have "map_of C5 (d @ [item_text i ''filename'']) = map_of C (d @ [item_text i ''filename''])" if "i \<in> set items" for i
        using files [OF that] by (auto simp: map5 C4)
      ultimately show ?case using C keys5 by (auto simp: holds_exactly_def q_def keys)
    qed
  qed
qed

end
