(* ===== verification/Checkout.thy ===== *)
theory Checkout
  imports Staging
begin

text \<open>
  The batch checkout: what a published batch is, that one rename publishes it, and that a batch which is
  there already is only compared with what was asked for.
\<close>

section \<open>The batch checkout is atomic\<close>

definition uploads_of :: "fpath \<Rightarrow> fpath" where
  "uploads_of base = base @ [''uploads'']"

definition final_of :: "fpath \<Rightarrow> string \<Rightarrow> fpath" where
  "final_of base user = base @ [''uploads'', user]"

definition staging_of :: "fpath \<Rightarrow> string \<Rightarrow> fpath" where
  "staging_of base op_id = base @ [''.agent-staging'', ''checkout-'' @ op_id]"

text \<open>What is below the directory of a message, and what is below the directories of all other messages.\<close>

definition mine :: "fpath \<Rightarrow> string \<Rightarrow> fs \<Rightarrow> fs" where
  "mine base user = restrict (prefix (final_of base user))"

definition beside :: "fpath \<Rightarrow> string \<Rightarrow> fs \<Rightarrow> fs" where
  "beside base user = restrict (\<lambda>q. strict_prefix (uploads_of base) q \<and> \<not> prefix (final_of base user) q)"

definition published :: "op_cfg \<Rightarrow> fpath \<Rightarrow> string \<Rightarrow> string \<Rightarrow> obj list \<Rightarrow> fs \<Rightarrow> bool" where
  "published cfg base user assistant items s \<longleftrightarrow>
     holds_exactly cfg (final_of base user) items [final_of base user @ [checkout_manifest]] (mine base user s)
     \<and> holds_manifest cfg (map_of (mine base user s) (final_of base user @ [checkout_manifest])) (manifest_of user assistant items)"

abbreviation guarded :: "fpath \<Rightarrow> string \<Rightarrow> fpath \<Rightarrow> bool" where
  "guarded base op_id \<equiv> \<lambda>q. strict_prefix (uploads_of base) q \<or> prefix (staging_of base op_id) q"

lemma places:
  "strict_prefix (uploads_of base) q \<Longrightarrow> \<not> prefix (staging_of base op_id) q"
  "prefix (final_of base user) q \<Longrightarrow> strict_prefix (uploads_of base) q"
  "\<not> prefix (staging_of base op_id) (final_of base user)" "\<not> prefix (final_of base user) (staging_of base op_id)"
  "staging_of base op_id \<noteq> []" "final_of base user \<noteq> []"
  "\<not> guarded base op_id base" "\<not> guarded base op_id (base @ [x])" "\<not> guarded base op_id (base @ [''outputs'', y])"
  "\<not> guarded base op_id (uploads_of base)"
  by (auto simp: uploads_of_def staging_of_def final_of_def prefix_def strict_prefix_def)

lemma mine_sub: "restrict (strict_prefix (uploads_of base)) t = restrict (strict_prefix (uploads_of base)) s \<Longrightarrow>
    mine base user t = mine base user s \<and> beside base user t = beside base user s"
  unfolding mine_def beside_def by (auto intro: restrict_sub places)

lemma published_sub: "mine base user t = mine base user s \<Longrightarrow>
    published cfg base user assistant items t = published cfg base user assistant items s"
  by (simp add: published_def)

lemma ensures_syscall:
  assumes "I s" and "\<And>t e. R s t \<Longrightarrow> E e t" and "\<And>t a u. R s t \<Longrightarrow> f t = Inr (a, u) \<Longrightarrow> Q a u"
  shows "ensures (\<lambda>c r. True) R I Q E (syscall c f) s"
  using assms by (auto simp: syscall_def split: sum.split prod.split)

lemma ensures_works:
  assumes "works K d U B p P" and "staged K d U B s" and "\<And>t. restrict K t = U \<Longrightarrow> I t" and "\<And>e t. restrict K t = U \<Longrightarrow> E e t"
    and "\<And>a C t. P a C \<Longrightarrow> staged K d U C t \<Longrightarrow> Q a t"
  shows "ensures (\<lambda>c r. True) (\<lambda>s t. restrict (\<lambda>q. K q \<or> prefix d q) t = restrict (\<lambda>q. K q \<or> prefix d q) s) I Q E p s"
  using assms(1) [unfolded works_def, THEN spec, THEN mp, OF assms(2)] by (rule ensures_mono) (use assms in auto)

lemma ensures_staged:
  assumes "quiet (\<lambda>q. K q \<or> prefix d q) p" and "staged K d U B s" and "\<And>t. restrict K t = U \<Longrightarrow> I t" and "\<And>e t. restrict K t = U \<Longrightarrow> E e t"
    and "\<And>a t. staged K d U B t \<Longrightarrow> Q a t"
  shows "ensures (\<lambda>c r. True) (\<lambda>s t. restrict (\<lambda>q. K q \<or> prefix d q) t = restrict (\<lambda>q. K q \<or> prefix d q) s) I Q E p s"
  by (rule ensures_works [OF works_quiet [where K = K, OF assms(1)] assms(2)]) (use assms(3-5) in auto)

lemma published_by_rename:
  assumes C: "holds_exactly cfg (staging_of base op_id) items [staging_of base op_id @ [checkout_manifest]] C"
      "holds_manifest cfg (map_of C (staging_of base op_id @ [checkout_manifest])) (manifest_of user assistant items)"
    and s: "restrict (prefix (staging_of base op_id)) s = C" and t: "rename_at (staging_of base op_id) (final_of base user) s = Inr (u, t)"
  shows "published cfg base user assistant items t \<and> beside base user t = beside base user s"
proof -
  define d e where "d = staging_of base op_id" and "e = final_of base user"
  have apart: "\<not> prefix d e" "\<not> prefix e d" "d \<noteq> e" using places(3) [of base op_id user] places(4) [of base user op_id] by (auto simp: d_def e_def)
  have tm: "t = move_tree d e s" using t apart by (auto simp: rename_at_def d_def [symmetric] e_def [symmetric] split: if_splits)
  have look: "map_of (mine base user t) (e @ x) = map_of C (d @ x)" for x
    using map_of_move [OF apart(1,2), of s "e @ x"] s
    by (simp add: mine_def e_def [symmetric] d_def [symmetric] tm map_of_restrict map_of_below [of d s C])
  have keysC: "fst ` set C = {q \<in> fst ` set s. prefix d q}" using s by (simp add: keys_restrict d_def flip: s)
  have "fst ` set (mine base user t) = {q \<in> (\<lambda>p. if prefix d p then e @ drop (length d) p else p) ` {p \<in> fst ` set s. \<not> prefix e p}. prefix e q}"
    by (simp add: mine_def e_def [symmetric] keys_restrict tm keys_move)
  also have "\<dots> = (\<lambda>p. e @ drop (length d) p) ` (fst ` set C)"
  proof (intro equalityI subsetI)
    fix q assume "q \<in> {q \<in> (\<lambda>p. if prefix d p then e @ drop (length d) p else p) ` {p \<in> fst ` set s. \<not> prefix e p}. prefix e q}"
    then obtain p where "p \<in> fst ` set s" "\<not> prefix e p" "prefix e q" "q = (if prefix d p then e @ drop (length d) p else p)" by blast
    then show "q \<in> (\<lambda>p. e @ drop (length d) p) ` (fst ` set C)" by (auto simp: keysC split: if_splits)
  next
    fix q assume "q \<in> (\<lambda>p. e @ drop (length d) p) ` (fst ` set C)"
    then obtain p where p: "p \<in> fst ` set s" "prefix d p" "q = e @ drop (length d) p" by (auto simp: keysC)
    then have "\<not> prefix e p" using apart prefix_same_cases by blast
    then show "q \<in> {q \<in> (\<lambda>p. if prefix d p then e @ drop (length d) p else p) ` {p \<in> fst ` set s. \<not> prefix e p}. prefix e q}"
      using p by (auto intro!: rev_image_eqI [of p])
  qed
  finally have keys: "fst ` set (mine base user t) = (\<lambda>p. e @ drop (length d) p) ` (fst ` set C)" .
  have "published cfg base user assistant items t"
    using C look [of "[]"] look [of "[checkout_manifest]"] look
    by (simp add: published_def holds_exactly_def keys d_def [symmetric] e_def [symmetric] image_image)
  moreover have "beside base user t = beside base user s"
    unfolding beside_def tm
    by (rule restrict_move) (use places(1) [of base] in \<open>auto simp: d_def e_def\<close>)
  ultimately show ?thesis by simp
qed

text \<open>At every moment: nothing has happened to the message, or its whole batch is there.\<close>

definition all_or_nothing :: "op_cfg \<Rightarrow> fpath \<Rightarrow> string \<Rightarrow> string \<Rightarrow> obj list \<Rightarrow> fs \<Rightarrow> fs \<Rightarrow> bool" where
  "all_or_nothing cfg base user assistant items s t \<longleftrightarrow>
     beside base user t = beside base user s
     \<and> (mine base user t = mine base user s \<or> published cfg base user assistant items t)"

lemma all_or_nothing_sub:
  "all_or_nothing cfg base user assistant items s0 s \<Longrightarrow>
     restrict (strict_prefix (uploads_of base)) t = restrict (strict_prefix (uploads_of base)) s \<Longrightarrow>
     all_or_nothing cfg base user assistant items s0 t"
  unfolding all_or_nothing_def using mine_sub published_sub by metis

lemma guarded_sub:
  "restrict (guarded base op_id) t = restrict (guarded base op_id) s \<Longrightarrow>
     restrict (strict_prefix (uploads_of base)) t = restrict (strict_prefix (uploads_of base)) s"
  by (erule restrict_sub) simp

lemma published_chmod:
  assumes "published cfg base user assistant items s" and "change_at (with_mode mode) (final_of base user) s = Inr (u, t)"
  shows "published cfg base user assistant items t \<and> beside base user t = beside base user s"
proof -
  define e where "e = final_of base user"
  have t: "t = AList.map_entry e (with_mode mode) s"
    using assms(2) places(6) [of base user] by (auto simp: change_at_def e_def split: option.splits)
  have "mine base user t = AList.map_entry e (with_mode mode) (mine base user s)"
    by (simp add: mine_def t restrict_map_entry e_def)
  moreover have "is_directory (map_option (with_mode mode) n) = is_directory n" for n
    by (cases n rule: is_directory.cases) auto
  ultimately show ?thesis
    using assms(1) by (simp add: published_def holds_exactly_def keys_map_entry map_of_map_entry' e_def [symmetric] beside_def t restrict_map_entry)
qed

text \<open>The last steps: the staging directory becomes the directory of the message.\<close>

lemma ensures_commit:
  assumes C: "holds_exactly cfg (staging_of base op_id) items [staging_of base op_id @ [checkout_manifest]] C"
      "holds_manifest cfg (map_of C (staging_of base op_id @ [checkout_manifest])) (manifest_of user assistant items)"
    and s: "restrict (prefix (staging_of base op_id)) s = C" "all_or_nothing cfg base user assistant items s0 s"
  shows "ensures (\<lambda>c r. True) (\<lambda>s t. restrict (guarded base op_id) t = restrict (guarded base op_id) s)
    (all_or_nothing cfg base user assistant items s0)
    (\<lambda>u t. published cfg base user assistant items t \<and> beside base user t = beside base user s0)
    (\<lambda>e t. all_or_nothing cfg base user assistant items s0 t)
    (finally_io
       (bind_io (rename_node (staging_of base op_id) (final_of base user)) (\<lambda>u.
        bind_io (change_mode (final_of base user) 365) (\<lambda>u. sync_file (uploads_of base))))
       (change_mode (uploads_of base) 365)) s"
    (is "ensures ?A ?R ?I ?Q ?E _ _")
proof -
  let ?P = "\<lambda>t. published cfg base user assistant items t \<and> beside base user t = beside base user s0"
  have PI: "?P t \<Longrightarrow> ?I t" for t by (simp add: all_or_nothing_def)
  have P_sub: "?P s \<Longrightarrow> restrict (guarded base op_id) t = restrict (guarded base op_id) s \<Longrightarrow> ?P t" for s t
    using guarded_sub [of base op_id t s] mine_sub [of base t s user] published_sub by metis
  have I_sub: "?I s \<Longrightarrow> restrict (guarded base op_id) t = restrict (guarded base op_id) s \<Longrightarrow> ?I t" for s t
    using guarded_sub all_or_nothing_sub by metis
  have up: "uploads_of base = base @ [''uploads'']" by (simp add: uploads_of_def)
  have mode: "quiet (guarded base op_id) (change_mode (uploads_of base) 365)"
    by (rule quiet_calls) (rule places(10))
  have last_good: "ensures ?A ?R ?I (\<lambda>u t. ?P t) ?E (change_mode (uploads_of base) 365) t" if "?P t" for t
    by (rule ensures_quiet [OF mode]) (use P_sub [OF that] PI in blast)+
  have last_bad: "ensures ?A ?R ?I (\<lambda>u t. ?I t) ?E (change_mode (uploads_of base) 365) t" if "?I t" for t
    by (rule ensures_quiet [OF mode]) (use I_sub [OF that] in blast)+
  have step: "ensures ?A ?R ?I (\<lambda>u. ?P) ?E (change_mode (final_of base user) 365) t" if "?P t" for t
    unfolding change_mode_def
  proof (rule ensures_syscall)
    fix u assume "?R t u"
    then have u: "?P u" using that P_sub by blast
    then show "?E e u" for e by (rule PI)
    show "?P v" if "change_at (with_mode 365) (final_of base user) u = Inr (a, v)" for a v
      using published_chmod [OF _ that] u by metis
  qed (rule PI [OF that])
  have sync: "ensures ?A ?R ?I (\<lambda>u. ?P) ?E (sync_file (uploads_of base)) t" if "?P t" for t
    by (rule ensures_quiet [OF quiet_reads(4)]) (use P_sub [OF that] PI in blast)+
  have rename: "ensures ?A ?R ?I (\<lambda>u. ?P) ?E (rename_node (staging_of base op_id) (final_of base user)) s"
    unfolding rename_node_def
  proof (rule ensures_syscall)
    fix t assume t: "?R s t"
    then have It: "?I t" using s(2) I_sub by blast
    then show "?E e t" for e .
    have "restrict (prefix (staging_of base op_id)) t = C"
      using s(1) restrict_sub [OF t, of "prefix (staging_of base op_id)"] by simp
    then show "?P v" if "rename_at (staging_of base op_id) (final_of base user) t = Inr (a, v)" for a v
      using published_by_rename [OF C _ that] It by (simp add: all_or_nothing_def)
  qed (rule s(2))
  show ?thesis
    by (rule ensures_finally, rule ensures_bind, rule ensures_mono [OF rename], rule ensures_bind, erule ensures_mono [OF step],
        erule ensures_mono [OF sync]) (auto intro: last_good last_bad)
qed

lemma quiet_prepare: "quiet (guarded base op_id) (prepare_workspace cfg base uid gid)"
proof -
  have parts: "path_parts ''work'' = [''work'']" "path_parts ''outputs'' = [''outputs'']" "path_parts ''uploads'' = [''uploads'']"
    "path_parts ''.agent-staging'' = [''.agent-staging'']"
    by code_simp+
  have here: "quiet (guarded base op_id) (controlled_directory cfg base ''.'' mode u g)" for mode u g
    by (rule quiet_controlled) (simp only: refl if_True places(7) not_False_eq_True)
  have named: "quiet (guarded base op_id) (controlled_directory cfg base r mode u g)" if "r \<noteq> ''.''" "path_parts r = [x]" for r x mode u g
    by (rule quiet_controlled) (simp only: that if_False places(8) not_False_eq_True)
  show ?thesis
    unfolding prepare_workspace_def
  proof (rule quiet_resolve, rule quiet_op_bind [OF quiet_reads(7)], rule quiet_demand, rule quiet_op_bind [OF here])
    fix a
    have work: "''work'' \<noteq> ''.''" and outputs: "''outputs'' \<noteq> ''.''" and uploads: "''uploads'' \<noteq> ''.''"
      and staging: "''.agent-staging'' \<noteq> ''.''" by simp_all
    show "quiet (guarded base op_id)
        (bind_io (controlled_directory cfg base ''work'' 504 uid gid) (\<lambda>work.
         bind_io (controlled_directory cfg base ''outputs'' 493 0 0) (\<lambda>b.
         bind_io (controlled_directory cfg base ''uploads'' 365 0 0) (\<lambda>c.
         bind_io (controlled_directory cfg base ''.agent-staging'' 448 0 0) (\<lambda>e.
         bind_io (sync_file base) (\<lambda>u. Done [(''work_path'', JStr (join_with ''/'' (drop (length base) work)))]))))))"
      by (rule quiet_op_bind [OF named [OF work parts(1)]], rule quiet_op_bind [OF named [OF outputs parts(2)]],
          rule quiet_op_bind [OF named [OF uploads parts(3)]], rule quiet_op_bind [OF named [OF staging parts(4)]],
          rule quiet_op_bind [OF quiet_reads(4)], rule quiet_op_leaf)
  qed
qed

text \<open>A batch that is there already: its manifest says what was asked for, and its files have the right sizes.\<close>

fun manifest_reads :: "op_cfg \<Rightarrow> node option \<Rightarrow> obj \<Rightarrow> bool" where
  "manifest_reads cfg (Some (RegularFile b m)) d =
     (case oc_loads cfg b of Some (JObj e) \<Rightarrow> py_eq (JObj e) (JObj d) | _ \<Rightarrow> False)"
| "manifest_reads cfg n d = False"

fun sized_file :: "node option \<Rightarrow> obj \<Rightarrow> bool" where
  "sized_file (Some (RegularFile b m)) d = (int (length b) = item_size d)"
| "sized_file n d = False"

definition already_there :: "op_cfg \<Rightarrow> fpath \<Rightarrow> string \<Rightarrow> string \<Rightarrow> obj list \<Rightarrow> fs \<Rightarrow> bool" where
  "already_there cfg base user assistant items s \<longleftrightarrow>
     manifest_reads cfg (Option.bind (map_of s (final_of base user @ [checkout_manifest])) follow) (manifest_of user assistant items)
     \<and> list_all (\<lambda>i. sized_file (map_of s (final_of base user @ [item_text i ''filename''])) i) items"

lemma already_sub: "mine base user t = mine base user s \<Longrightarrow>
    already_there cfg base user assistant items t = already_there cfg base user assistant items s"
proof -
  assume eq: "mine base user t = mine base user s"
  have "map_of t (final_of base user @ [x]) = map_of s (final_of base user @ [x])" for x
    using eq map_of_restrict [of "prefix (final_of base user)" "final_of base user @ [x]"]
    by (metis mine_def prefixI)
  then show ?thesis by (simp add: already_there_def)
qed

lemma ensures_read:
  assumes "\<And>t. restrict K t = restrict K s \<Longrightarrow> I t" and "\<And>e t. restrict K t = restrict K s \<Longrightarrow> E e t"
    and "\<And>a t. restrict K t = restrict K s \<Longrightarrow> f t = Inr (a, t) \<Longrightarrow> Q a t" and "\<And>t a u. f t = Inr (a, u) \<Longrightarrow> u = t"
  shows "ensures (\<lambda>c r. True) (\<lambda>s t. restrict K t = restrict K s) I Q E (syscall c f) s"
  by (rule ensures_syscall) (use assms in blast)+

lemma ensures_verify_files:
  assumes "\<And>t. restrict K t = restrict K s \<Longrightarrow> I t" and "\<And>e t. restrict K t = restrict K s \<Longrightarrow> E e t"
    and "\<And>q. prefix d q \<Longrightarrow> K q" and "d \<noteq> []" and "\<forall>i\<in>set items. path_parts (item_text i ''filename'') = [item_text i ''filename'']"
    and "\<And>t. restrict K t = restrict K s \<Longrightarrow> list_all (\<lambda>i. sized_file (map_of t (d @ [item_text i ''filename''])) i) items \<Longrightarrow> Q () t"
  shows "ensures (\<lambda>c r. True) (\<lambda>s t. restrict K t = restrict K s) I Q E (verify_files d items) s"
  using assms(1,2,5,6)
proof (induction items arbitrary: s)
  case (Cons i items)
  show ?case
    unfolding verify_files.simps lstat_of_def
  proof (rule ensures_bind, rule ensures_read, goal_cases)
    case (1 t)
    then show ?case by (rule Cons.prems(1))
  next
    case (2 e t)
    then show ?case by (rule Cons.prems(2))
  next
    case (3 n t)
    have name: "path_parts (item_text i ''filename'') = [item_text i ''filename'']" using Cons.prems(3) by simp
    have n: "map_of t (d @ [item_text i ''filename'']) = Some n"
      using 3(2) by (auto simp: name node_at_def split: if_splits option.splits)
    have later: "map_of u (d @ [item_text i ''filename'']) = Some n" if "restrict K u = restrict K t" for u
      using that n map_of_restrict [of K "d @ [item_text i ''filename'']"] assms(3) by (metis prefixI)
    have rest: "ensures (\<lambda>c r. True) (\<lambda>s t. restrict K t = restrict K s) I Q E (verify_files d items) t" if "sized_file (Some n) i"
    proof (rule Cons.IH)
      show "Q () u" if "restrict K u = restrict K t" "list_all (\<lambda>i. sized_file (map_of u (d @ [item_text i ''filename''])) i) items" for u
        using Cons.prems(4) [of u] that 3(1) later \<open>sized_file (Some n) i\<close> by simp
    qed (use Cons.prems 3 in auto)
    show ?case
      using rest Cons.prems(2) 3(1) by (cases n) (auto simp: demand_def guard_io_def)
  qed (auto split: option.splits)
qed simp

definition batch_outcome :: "op_cfg \<Rightarrow> fpath \<Rightarrow> string \<Rightarrow> string \<Rightarrow> obj list \<Rightarrow> fs \<Rightarrow> fs \<Rightarrow> bool" where
  "batch_outcome cfg base user assistant sources s t \<longleftrightarrow>
     (case public_artifacts [] [] sources of
        Inl e \<Rightarrow> beside base user t = beside base user s \<and> mine base user t = mine base user s
      | Inr items \<Rightarrow> all_or_nothing cfg base user assistant items s t)"

definition batch_success :: "op_cfg \<Rightarrow> fpath \<Rightarrow> string \<Rightarrow> string \<Rightarrow> obj list \<Rightarrow> fs \<Rightarrow> obj \<Rightarrow> fs \<Rightarrow> bool" where
  "batch_success cfg base user assistant sources s d t \<longleftrightarrow>
     (case public_artifacts [] [] sources of
        Inl e \<Rightarrow> False
      | Inr items \<Rightarrow>
          d = checkout_result user assistant items False \<and> published cfg base user assistant items t
          \<or> d = checkout_result user assistant items True \<and> mine base user t = mine base user s
            \<and> already_there cfg base user assistant items t)"

lemma batch_calm:
  "restrict (guarded base op_id) t = restrict (guarded base op_id) s \<Longrightarrow> batch_outcome cfg base user assistant sources s t"
  using mine_sub [of base t s user] guarded_sub [of base op_id t s]
  by (simp add: batch_outcome_def all_or_nothing_def split: sum.split)

lemma ensures_check: "(\<And>a. r = Inr a \<Longrightarrow> ensures A R I Q E (f a) s) \<Longrightarrow> (\<And>e. r = Inl e \<Longrightarrow> E e s) \<Longrightarrow> ensures A R I Q E (bind_io (check_that r) f) s"
  by (cases r) (simp_all add: check_that_def lift_result_def)

lemma ensures_demand: "(ok \<Longrightarrow> ensures A R I Q E p s) \<Longrightarrow> E (StorageOperationError m) s \<Longrightarrow> ensures A R I Q E (demand ok m p) s"
  by (cases ok) (simp_all add: demand_def guard_io_def)

text \<open>A batch whose directory exists is only compared with what was asked for.\<close>

lemma ensures_present:
  fixes base user op_id
  defines "R \<equiv> \<lambda>s t. restrict (guarded base op_id) t = restrict (guarded base op_id) s"
  assumes items: "public_artifacts [] [] sources = Inr items" and s: "R s0 s"
  shows "ensures (\<lambda>c r. True) R (batch_outcome cfg base user assistant sources s0)
    (\<lambda>d t. batch_outcome cfg base user assistant sources s0 t \<and> batch_success cfg base user assistant sources s0 d t)
    (\<lambda>e t. batch_outcome cfg base user assistant sources s0 t)
    (bind_io (verify_checkout_commit cfg (final_of base user) user assistant items) (\<lambda>u.
     bind_io (controlled_directory cfg (base @ [''outputs'', assistant]) ''.'' 504 uid gid) (\<lambda>p.
     Done (checkout_result user assistant items True)))) s"
    (is "ensures _ _ ?I ?Q ?E _ _")
proof -
  have R: "restrict (guarded base op_id) t = restrict (guarded base op_id) u \<Longrightarrow> R s0 u \<Longrightarrow> R s0 t" for t u by (simp add: R_def)
  have calm: "R s0 t \<Longrightarrow> ?I t" for t by (simp add: R_def batch_calm)
  have same: "R u t \<Longrightarrow> mine base user t = mine base user u" for t u using mine_sub [OF guarded_sub] unfolding R_def by blast
  have names: "\<forall>i\<in>set items. path_parts (item_text i ''filename'') = [item_text i ''filename'']"
    using items_plain [OF items] .
  have inside: "prefix (final_of base user) q \<Longrightarrow> guarded base op_id q" for q using places(2) by blast
  have verify: "ensures (\<lambda>c r. True) R ?I (\<lambda>u t. R s0 t \<and> already_there cfg base user assistant items t) ?E
      (verify_checkout_commit cfg (final_of base user) user assistant items) s"
    unfolding verify_checkout_commit_def path_is_symlink_def path_is_dir_def asks_def R_def
  proof (rule ensures_bind, rule ensures_read, goal_cases)
    case (3 l t)
    then have t: "R s0 t" using R s by blast
    show ?case
    proof (rule ensures_bind, rule ensures_read, goal_cases)
      case (3 d u)
      then have u: "R s0 u" using R t by blast
      show ?case
        unfolding read_json_object_def read_file_def
      proof (rule ensures_demand, rule ensures_bind, rule ensures_bind, rule ensures_catch, rule ensures_read, goal_cases)
        case (3 b v)
        then have v: "R s0 v" using R u by blast
        obtain x m where x: "stat_at v (final_of base user @ [checkout_manifest]) = Some (RegularFile x m)" "x = b"
          using 3(3) by (auto simp: read_at_def split: option.splits node.splits)
        have node: "Option.bind (map_of v (final_of base user @ [checkout_manifest])) follow = Some (RegularFile b m)"
          using x by (auto simp: stat_at_def node_at_def split: if_splits)
        show ?case
        proof (cases "oc_loads cfg b")
          case None
          then show ?thesis using calm v by simp
        next
          case (Some e)
          show ?thesis
          proof (cases "\<exists>o1. e = JObj o1 \<and> py_eq (JObj o1) (JObj (manifest_of user assistant items))")
            case False
            then show ?thesis using calm v Some by (cases e) (auto simp: demand_def guard_io_def)
          next
            case True
            then have reads: "manifest_reads cfg (Option.bind (map_of v (final_of base user @ [checkout_manifest])) follow) (manifest_of user assistant items)"
              using Some by (auto simp: node)
            have look: "map_of w (final_of base user @ [y]) = map_of v (final_of base user @ [y])" if "restrict (guarded base op_id) w = restrict (guarded base op_id) v" for w y
              using that map_of_restrict [of "guarded base op_id" "final_of base user @ [y]"] inside [of "final_of base user @ [y]"] by (metis prefixI)
            have "ensures (\<lambda>c r. True) (\<lambda>s t. restrict (guarded base op_id) t = restrict (guarded base op_id) s) ?I
                (\<lambda>u t. R s0 t \<and> already_there cfg base user assistant items t) ?E (verify_files (final_of base user) items) v"
            proof (rule ensures_verify_files [OF _ _ inside places(6) names], goal_cases)
              case (4 w)
              have "R s0 w" by (rule R [OF 4(1) v])
              then show ?case using reads 4(2) by (simp add: already_there_def look [OF 4(1)])
            qed (use calm [OF R [OF _ v]] in blast)+
            then show ?thesis using True Some by (auto simp: demand_def guard_io_def R_def)
          qed
        qed
      next
        case (2 e v)
        then have "?I v" using calm [OF R [OF _ u]] by blast
        then show ?case by (cases e) simp_all
      next
        case (4 v b w)
        then show ?case by (auto simp: read_at_def split: option.splits node.splits)
      next
        case (1 v)
        then show ?case using calm [OF R [OF _ u]] by blast
      next
        case 5
        then show ?case using calm [OF u] by simp
      qed
    next
      case (1 v)
      then show ?case using calm [OF R [OF _ t]] by blast
    next
      case (2 e v)
      then show ?case using calm [OF R [OF _ t]] by blast
    next
      case (4 v d w)
      then show ?case by simp
    qed
  next
    case (1 v)
    then show ?case using calm [OF R [OF _ s]] by blast
  next
    case (2 e v)
    then show ?case using calm [OF R [OF _ s]] by blast
  next
    case (4 v l w)
    then show ?case by simp
  qed
  have quiet: "quiet (guarded base op_id) (controlled_directory cfg (base @ [''outputs'', assistant]) ''.'' 504 uid gid)"
    by (rule quiet_controlled) (simp only: refl if_True places(9) not_False_eq_True)
  show ?thesis
  proof (rule ensures_bind, rule ensures_mono [OF verify])
    fix a t assume t: "R s0 t \<and> already_there cfg base user assistant items t"
    have "R s0 u \<and> already_there cfg base user assistant items u" if "restrict (guarded base op_id) u = restrict (guarded base op_id) t" for u
      using that t R same already_sub unfolding R_def by metis
    then have good: "?Q (checkout_result user assistant items True) u" if "restrict (guarded base op_id) u = restrict (guarded base op_id) t" for u
      using that calm same [of s0 u] by (simp add: batch_success_def items)
    show "ensures (\<lambda>c r. True) R ?I ?Q ?E (bind_io (controlled_directory cfg (base @ [''outputs'', assistant]) ''.'' 504 uid gid) (\<lambda>p.
        Done (checkout_result user assistant items True))) t"
      unfolding R_def by (rule ensures_bind, rule ensures_quiet [OF quiet]) (use good in auto)
  qed auto
qed

end
