(* ===== verification/Storage_Safety.thy ===== *)
theory Storage_Safety
  imports Checkout
begin

text \<open>
  What the storage commands guarantee however their system calls end: a batch of files appears under its
  message as a whole or not at all.
\<close>

section \<open>The batch checkout\<close>

lemma ensures_rely:
  "ensures A R I Q E p s \<Longrightarrow> (\<And>s t. R' s t \<Longrightarrow> R s t) \<Longrightarrow> ensures A R' I Q E p s"
  by (induction p arbitrary: s) auto

lemma works_remove:
  assumes "\<And>q. K q \<Longrightarrow> \<not> prefix d q"
  shows "works K d U B (remove_tree d) (\<lambda>a C. C = [])"
  unfolding remove_tree_def
proof (rule works_await)
  fix r :: "op_error + sys_reply"
  have gone: "restrict (prefix d) (outside d s) = []" for s by (auto simp: restrict_def outside_def filter_empty_conv)
  show "works K d U B (case r of Inl e \<Rightarrow> Raise e
      | Inr (Removed qs) \<Rightarrow> WriteState (\<lambda>s. filter (\<lambda>(q, n). \<not> (prefix d q \<and> q \<in> set qs)) s) (Raise (OsError ''rmtree failed''))
      | Inr x \<Rightarrow> ReadState (\<lambda>s. case rmtree_at d s of Inl e \<Rightarrow> Raise e | Inr (u, t) \<Rightarrow> WriteState (\<lambda>v. t) (Done ())))
      (\<lambda>a C. C = [])"
    using assms by (auto simp: works_def staged_def rmtree_at_def gone restrict_outside restrict_removed split: sum.split sys_reply.split)
qed

lemma works_discard:
  assumes "\<And>q. K q \<Longrightarrow> \<not> prefix d q" and "d \<noteq> []"
  shows "works K d U B (discard_staging d) (\<lambda>a C. C = [] \<or> C = B)"
proof -
  have d: "prefix d d" "\<not> K d" using assms(1) [of d] by auto
  show ?thesis
    unfolding discard_staging_def
    by (rule works_bind [OF works_quiet [where K = K, OF quiet_reads(6)]])
      (auto intro!: works_leaf works_bind [OF works_mode [where K = K, OF d assms(2)]] works_mono [OF works_remove [where K = K, OF assms(1)]])
qed

lemma works_mkdir:
  assumes "prefix d p" and "\<not> K p" and "p \<noteq> []"
  shows "works K d U B (make_dir ids p mode) (\<lambda>a C. map_of B p = None \<and> C = AList.update p (Directory mode ids) B)"
  unfolding make_dir_def
proof (rule works_at [where p = p])
  fix s a t assume s: "restrict (prefix d) s = B" "mkdir_at ids p mode s = Inr (a, t)"
  then have "map_of s p = map_of B p" using map_of_below assms by metis
  then show "map_of B p = None \<and> restrict (prefix d) t = AList.update p (Directory mode ids) B"
    using s assms(1) by (auto simp: mkdir_at_def restrict_update split: if_splits)
qed (use assms in \<open>auto intro: local_ats\<close>)

lemma quiet_discard: "quiet (strict_prefix (uploads_of base)) (discard_staging (staging_of base op_id))"
  unfolding discard_staging_def
  using places(1) [of base _ op_id] places(1) [of base "staging_of base op_id" op_id]
  by (auto intro!: quiet_op_bind quiet_reads quiet_calls quiet_remove)

text \<open>A batch that is not there: it is filled in the staging directory and committed by one rename.\<close>

lemma ensures_fill:
  fixes base user op_id
  defines "R \<equiv> \<lambda>s t. restrict (guarded base op_id) t = restrict (guarded base op_id) s"
  assumes items: "public_artifacts [] [] sources = Inr items" and free: "\<forall>i\<in>set items. item_text i ''filename'' \<noteq> checkout_manifest"
    and s: "staged (strict_prefix (uploads_of base)) (staging_of base op_id) (restrict (strict_prefix (uploads_of base)) s0) B s"
      "fst ` set B = {staging_of base op_id}" "is_directory (map_of B (staging_of base op_id))"
  shows "ensures (\<lambda>c r. True) R (batch_outcome cfg base user assistant sources s0)
    (\<lambda>d t. batch_outcome cfg base user assistant sources s0 t \<and> batch_success cfg base user assistant sources s0 d t)
    (\<lambda>e t. batch_outcome cfg base user assistant sources s0 t)
    (fill_and_commit cfg base user assistant sources items (staging_of base op_id) uid gid) s"
proof -
  let ?K = "strict_prefix (uploads_of base)" and ?d = "staging_of base op_id"
  let ?I = "batch_outcome cfg base user assistant sources s0"
  have K: "?K q \<Longrightarrow> \<not> prefix ?d q" for q by (rule places(1))
  have d: "prefix ?d ?d" "\<not> ?K ?d" "?d \<noteq> []" using K [of ?d] places(5) by auto
  have calm: "all_or_nothing cfg base user assistant items s0 t" if "restrict ?K t = restrict ?K s0" for t
    using mine_sub [OF that] by (simp add: all_or_nothing_def)
  have I: "?I t" if "restrict ?K t = restrict ?K s0" for t using calm [OF that] by (simp add: batch_outcome_def items)
  have names: "uploads_of base = base @ [''uploads'']" "final_of base user = base @ [''uploads'', user]"
    by (simp_all add: uploads_of_def final_of_def)
  have outdir: "quiet (guarded base op_id) (controlled_directory cfg (base @ [''outputs'', assistant]) ''.'' 504 uid gid)"
    by (rule quiet_controlled) (simp only: refl if_True places(9) not_False_eq_True)
  have opened: "quiet (guarded base op_id) (change_mode (uploads_of base) 493)" by (rule quiet_calls) (rule places(10))
  note step = ensures_works [where K = ?K and d = ?d and U = "restrict ?K s0" and I = ?I and E = "\<lambda>e. ?I", OF _ _ I I]
  note quiet_step = ensures_staged [where K = ?K and d = ?d and U = "restrict ?K s0" and I = ?I and E = "\<lambda>e. ?I", OF _ _ I I]
  let ?ens = "\<lambda>p t. ensures (\<lambda>c r. True) (\<lambda>s t. restrict (guarded base op_id) t = restrict (guarded base op_id) s) ?I
      (\<lambda>d t. ?I t \<and> batch_success cfg base user assistant sources s0 d t) (\<lambda>e t. ?I t) p t"
  define commit_steps where "commit_steps = bind_io (finally_io
         (bind_io (rename_node ?d (final_of base user)) (\<lambda>u. bind_io (change_mode (final_of base user) 365) (\<lambda>u. sync_file (uploads_of base))))
         (change_mode (uploads_of base) 365)) (\<lambda>u. Done (checkout_result user assistant items False))"
  have commit: "?ens commit_steps t"
    if t: "staged ?K ?d (restrict ?K s0) (AList.map_entry ?d (with_mode 493) D) t"
      and D: "holds_exactly cfg ?d items [?d @ [checkout_manifest]] D" "holds_manifest cfg (map_of D (?d @ [checkout_manifest])) (manifest_of user assistant items)" for D t
  proof -
    have "is_directory (map_option (with_mode 493) n) = is_directory n" for n
      by (cases n rule: is_directory.cases) auto
    then have D5: "holds_exactly cfg ?d items [?d @ [checkout_manifest]] (AList.map_entry ?d (with_mode 493) D)"
        "holds_manifest cfg (map_of (AList.map_entry ?d (with_mode 493) D) (?d @ [checkout_manifest])) (manifest_of user assistant items)"
      using D by (auto simp: holds_exactly_def keys_map_entry map_of_map_entry')
    have "all_or_nothing cfg base user assistant items s0 t"
      by (rule calm) (use t in \<open>simp add: staged_def\<close>)
    moreover have "restrict (prefix ?d) t = AList.map_entry ?d (with_mode 493) D" using t by (simp add: staged_def)
    ultimately show ?thesis
      unfolding commit_steps_def
      by (intro ensures_bind ensures_mono [OF ensures_commit [OF D5]])
        (auto simp: batch_outcome_def batch_success_def items all_or_nothing_def)
  qed
  have after_manifest: "?ens (bind_io (change_mode ?d 493) (\<lambda>u. bind_io (sync_file ?d) (\<lambda>u.
      bind_io (controlled_directory cfg (base @ [''outputs'', assistant]) ''.'' 504 uid gid) (\<lambda>p.
      bind_io (change_mode (uploads_of base) 493) (\<lambda>u. commit_steps))))) t"
    if t: "staged ?K ?d (restrict ?K s0) D t"
      and D: "holds_exactly cfg ?d items [?d @ [checkout_manifest]] D" "holds_manifest cfg (map_of D (?d @ [checkout_manifest])) (manifest_of user assistant items)" for D t
  proof (rule ensures_bind, rule step [OF works_mode [where K = ?K, OF d] t])
    fix D2 t2 assume "D2 = AList.map_entry ?d (with_mode 493) D" "staged ?K ?d (restrict ?K s0) D2 t2"
    then have t2: "staged ?K ?d (restrict ?K s0) (AList.map_entry ?d (with_mode 493) D) t2" by simp
    show "?ens (bind_io (sync_file ?d) (\<lambda>u. bind_io (controlled_directory cfg (base @ [''outputs'', assistant]) ''.'' 504 uid gid) (\<lambda>p.
        bind_io (change_mode (uploads_of base) 493) (\<lambda>u. commit_steps)))) t2"
      by (rule ensures_bind, rule quiet_step [OF quiet_reads(4) t2], assumption+,
          rule ensures_bind, erule quiet_step [OF outdir], assumption+,
          rule ensures_bind, erule quiet_step [OF opened], assumption+, erule commit [OF _ D])
  qed
  show ?thesis
    unfolding fill_and_commit_def R_def names [symmetric]
  proof (rule ensures_bind, rule step [OF works_install_all [where K = ?K, OF items K d(3) s(2,3)] s(1)], assumption+, elim conjE)
    fix installed C t assume inst: "installed = items" and C: "holds_exactly cfg ?d items [] C" and t: "staged ?K ?d (restrict ?K s0) C t"
    show "?ens (bind_io (write_json_atomic cfg ?d checkout_manifest (manifest_of user assistant installed) 292) (\<lambda>u.
        bind_io (change_mode ?d 493) (\<lambda>u. bind_io (sync_file ?d) (\<lambda>u.
        bind_io (controlled_directory cfg (base @ [''outputs'', assistant]) ''.'' 504 uid gid) (\<lambda>p.
        bind_io (change_mode (uploads_of base) 493) (\<lambda>u.
        bind_io (finally_io
         (bind_io (rename_node ?d (final_of base user)) (\<lambda>u. bind_io (change_mode (final_of base user) 365) (\<lambda>u. sync_file (uploads_of base))))
         (change_mode (uploads_of base) 365)) (\<lambda>u. Done (checkout_result user assistant installed False)))))))) t"
      unfolding inst commit_steps_def [symmetric]
      by (rule ensures_bind, rule step [OF works_manifest [where K = ?K, OF C K d(3) free] t]) (auto intro: after_manifest)
  qed
qed

definition tidy :: "fpath \<Rightarrow> string \<Rightarrow> fs \<Rightarrow> bool" where
  "tidy base op_id s \<longleftrightarrow>
     staging_of base op_id \<in> fst ` set s \<or> restrict (prefix (staging_of base op_id)) s = []"

lemma tidy_sub:
  assumes "restrict (guarded base op_id) t = restrict (guarded base op_id) s"
  shows "tidy base op_id t = tidy base op_id s"
proof -
  have eq: "restrict (prefix (staging_of base op_id)) t = restrict (prefix (staging_of base op_id)) s"
    by (rule restrict_sub [OF assms]) simp
  have "(staging_of base op_id \<in> fst ` set u) = (staging_of base op_id \<in> fst ` set (restrict (prefix (staging_of base op_id)) u))" for u
    by (simp add: keys_restrict)
  from this [of t] this [of s] show ?thesis unfolding tidy_def eq by simp
qed

lemma ensures_absent:
  fixes base user op_id
  defines "R \<equiv> \<lambda>s t. restrict (guarded base op_id) t = restrict (guarded base op_id) s"
  assumes items: "public_artifacts [] [] sources = Inr items" and free: "\<forall>i\<in>set items. item_text i ''filename'' \<noteq> checkout_manifest"
    and s: "R s0 s" "tidy base op_id s0"
  shows "ensures (\<lambda>c r. True) R (batch_outcome cfg base user assistant sources s0)
    (\<lambda>d t. batch_outcome cfg base user assistant sources s0 t \<and> batch_success cfg base user assistant sources s0 d t)
    (\<lambda>e t. batch_outcome cfg base user assistant sources s0 t)
    (bind_io (discard_staging (staging_of base op_id)) (\<lambda>u.
     bind_io (make_dir (oc_ids cfg) (staging_of base op_id) 448) (\<lambda>u.
     catch_io (fill_and_commit cfg base user assistant sources items (staging_of base op_id) uid gid) (\<lambda>e.
       bind_io (discard_staging (staging_of base op_id)) (\<lambda>u. Raise e))))) s"
proof -
  let ?K = "strict_prefix (uploads_of base)" and ?d = "staging_of base op_id"
  let ?I = "batch_outcome cfg base user assistant sources s0"
  have K: "?K q \<Longrightarrow> \<not> prefix ?d q" for q by (rule places(1))
  have d: "prefix ?d ?d" "\<not> ?K ?d" "?d \<noteq> []" using K [of ?d] places(5) by auto
  have I: "?I t" if "restrict ?K t = restrict ?K s0" for t
    using mine_sub [OF that] by (simp add: batch_outcome_def items all_or_nothing_def)
  have kept: "?I u" if "?I t" "restrict ?K u = restrict ?K t" for t u
    using that(1) all_or_nothing_sub [OF _ that(2)] by (simp add: batch_outcome_def items)
  have U: "restrict ?K s = restrict ?K s0" by (rule guarded_sub [OF s(1) [unfolded R_def]])
  define B where "B = restrict (prefix ?d) s"
  have B: "staged ?K ?d (restrict ?K s0) B s" by (simp add: staged_def U B_def)
  have tidy: "?d \<in> fst ` set B \<or> B = []"
    using s tidy_sub [of base op_id s s0] by (auto simp: tidy_def B_def R_def keys_restrict)
  have clean: "ensures (\<lambda>c r. True) R ?I (\<lambda>d t. ?I t \<and> batch_success cfg base user assistant sources s0 d t) (\<lambda>e t. ?I t)
      (bind_io (discard_staging ?d) (\<lambda>u. Raise e)) t" if "?I t" for e t
    unfolding R_def
  proof (rule ensures_bind, rule ensures_rely [OF ensures_quiet [OF quiet_discard [of base op_id]]])
    show "restrict ?K u = restrict ?K t'" if "restrict (guarded base op_id) u = restrict (guarded base op_id) t'" for t' u
      using that by (rule guarded_sub)
  qed (use kept [OF that] in simp_all)
  note step = ensures_works [where K = ?K and d = ?d and U = "restrict ?K s0" and I = ?I and E = "\<lambda>e. ?I", OF _ _ I I]
  show ?thesis
    unfolding R_def
  proof (rule ensures_bind, rule step [OF works_discard [where K = ?K, OF K d(3)] B])
    fix u C t assume C: "C = [] \<or> C = B" and t: "staged ?K ?d (restrict ?K s0) C t"
    show "ensures (\<lambda>c r. True) (\<lambda>s t. restrict (guarded base op_id) t = restrict (guarded base op_id) s) ?I
        (\<lambda>d t. ?I t \<and> batch_success cfg base user assistant sources s0 d t) (\<lambda>e t. ?I t)
        (bind_io (make_dir (oc_ids cfg) ?d 448) (\<lambda>u. catch_io (fill_and_commit cfg base user assistant sources items ?d uid gid) (\<lambda>e.
          bind_io (discard_staging ?d) (\<lambda>u. Raise e)))) t"
    proof (rule ensures_bind, rule step [OF works_mkdir [where K = ?K, OF d] t], assumption+, elim conjE)
      fix u D v assume D: "map_of C ?d = None" "D = AList.update ?d (Directory 448 (oc_ids cfg)) C" and v: "staged ?K ?d (restrict ?K s0) D v"
      have "C = []" using C tidy D(1) by (auto simp: map_of_eq_None_iff)
      then have D': "fst ` set D = {?d}" "is_directory (map_of D ?d)" by (simp_all add: D)
      show "ensures (\<lambda>c r. True) (\<lambda>s t. restrict (guarded base op_id) t = restrict (guarded base op_id) s) ?I
          (\<lambda>d t. ?I t \<and> batch_success cfg base user assistant sources s0 d t) (\<lambda>e t. ?I t)
          (catch_io (fill_and_commit cfg base user assistant sources items ?d uid gid) (\<lambda>e.
            bind_io (discard_staging ?d) (\<lambda>u. Raise e))) v"
        by (rule ensures_catch, rule ensures_mono [OF ensures_fill [OF items free v D']])
          (use clean in \<open>auto simp: R_def\<close>)
    qed
  qed
qed

lemma ensures_checkout_batch:
  fixes base user op_id
  defines "R \<equiv> \<lambda>s t. restrict (guarded base op_id) t = restrict (guarded base op_id) s"
  assumes free: "\<forall>d\<in>set sources. jget d ''filename'' \<noteq> JStr checkout_manifest" and tidy: "tidy base op_id s0"
  shows "ensures (\<lambda>c r. True) R (batch_outcome cfg base user assistant sources s0)
    (\<lambda>d t. batch_outcome cfg base user assistant sources s0 t \<and> batch_success cfg base user assistant sources s0 d t)
    (\<lambda>e t. batch_outcome cfg base user assistant sources s0 t)
    (checkout_batch cfg base user assistant sources op_id uid gid) s0"
proof -
  let ?I = "batch_outcome cfg base user assistant sources s0"
  have I: "?I t" if "R s0 t" for t using that unfolding R_def by (rule batch_calm)
  have trans: "R s u" if "R s t" "restrict (guarded base op_id) u = restrict (guarded base op_id) t" for s t u
    using that by (simp add: R_def)
  have refl: "R s s" for s by (simp add: R_def)
  let ?ens = "\<lambda>p t. ensures (\<lambda>c r. True) R ?I (\<lambda>d t. ?I t \<and> batch_success cfg base user assistant sources s0 d t) (\<lambda>e t. ?I t) p t"
  have rest: "?ens (if present
        then bind_io (verify_checkout_commit cfg (final_of base user) user assistant items) (\<lambda>u.
             bind_io (controlled_directory cfg (base @ [''outputs'', assistant]) ''.'' 504 uid gid) (\<lambda>p.
             Done (checkout_result user assistant items True)))
        else bind_io (check_that (safe_operation_id op_id)) (\<lambda>op_id.
          bind_io (discard_staging (staging_of base op_id)) (\<lambda>u.
          bind_io (make_dir (oc_ids cfg) (staging_of base op_id) 448) (\<lambda>u.
          catch_io (fill_and_commit cfg base user assistant sources items (staging_of base op_id) uid gid) (\<lambda>e.
            bind_io (discard_staging (staging_of base op_id)) (\<lambda>u. Raise e)))))) t"
    if items: "public_artifacts [] [] sources = Inr items" and t: "R s0 t" for items present t
  proof -
    have plain: "item_text i ''filename'' \<noteq> checkout_manifest" if i: "i \<in> set items" for i
    proof -
      obtain k where k: "k < length items" "items ! k = i" using i by (auto simp: in_set_conv_nth)
      then have "item_ok (sources ! k) i" "sources ! k \<in> set sources"
        using public_artifacts_ok [OF items] by (auto simp: list_all2_conv_all_nth)
      then show ?thesis using free by (auto simp: item_ok_def)
    qed
    have same: "safe_operation_id op_id = Inr x \<Longrightarrow> x = op_id" for x
      by (auto simp: safe_operation_id_def require_def split: if_splits)
    show ?thesis
      using ensures_present [OF items t [unfolded R_def], of cfg user assistant uid gid]
        ensures_absent [OF items _ t [unfolded R_def] tidy, of cfg user assistant uid gid] plain I [OF t]
      by (auto simp: R_def [abs_def] intro!: ensures_check dest!: same)
  qed
  have prepared: "quiet (guarded base op_id) (prepare_workspace cfg base uid gid)" by (rule quiet_prepare)
  show ?thesis
    unfolding checkout_batch_def resolve_strict_def Let_def final_of_def [symmetric] staging_of_def [symmetric] path_exists_def asks_def
  proof (intro ensures_check ensures_demand)
    show "?ens (bind_io (syscall (Resolve base) (\<lambda>s. if stat_at s base = None then Inl (OsError ''No such file or directory'') else Inr (base, s)))
       (\<lambda>base. bind_io (prepare_workspace cfg base uid gid) (\<lambda>w. bind_io (check_that (public_artifacts [] [] sources)) (\<lambda>items.
        bind_io (syscall (Stat (final_of base user)) (\<lambda>s. Inr (stat_at s (final_of base user) \<noteq> None, s))) (\<lambda>present.
        if present
        then bind_io (verify_checkout_commit cfg (final_of base user) user assistant items) (\<lambda>u.
             bind_io (controlled_directory cfg (base @ [''outputs'', assistant]) ''.'' 504 uid gid) (\<lambda>p.
             Done (checkout_result user assistant items True)))
        else bind_io (check_that (safe_operation_id op_id)) (\<lambda>op_id.
          bind_io (discard_staging (staging_of base op_id)) (\<lambda>u.
          bind_io (make_dir (oc_ids cfg) (staging_of base op_id) 448) (\<lambda>u.
          catch_io (fill_and_commit cfg base user assistant sources items (staging_of base op_id) uid gid) (\<lambda>e.
            bind_io (discard_staging (staging_of base op_id)) (\<lambda>u. Raise e)))))))))) s0"
      unfolding R_def
    proof (rule ensures_bind, rule ensures_read, goal_cases)
      case (3 a t)
      then have t: "R s0 t" "a = base" by (auto simp: R_def split: if_splits)
      show ?case
        unfolding t(2)
      proof (rule ensures_bind, rule ensures_quiet [OF prepared], goal_cases)
        case (2 w u)
        then have u: "R s0 u" using t(1) trans by blast
        show ?case
        proof (intro ensures_check, rule ensures_bind, rule ensures_read, goal_cases)
          case (3 items present v)
          then have "R s0 v" using u trans by blast
          from rest [OF 3(1) this] show ?case by (simp only: R_def)
        qed (use I trans u in \<open>auto simp: R_def\<close>)
      qed (use I trans t(1) in \<open>auto simp: R_def\<close>)
    qed (use I refl in \<open>auto simp: R_def split: if_splits\<close>)
  qed (use I refl in \<open>auto simp: R_def\<close>)
qed

text \<open>
  C32. A batch of files appears as a whole or not at all: however the system calls of a checkout end, wherever the
  process is killed, and whatever the downloads deliver, the directory of the message is afterwards as it
  was, or it holds exactly the files of the accepted batch with their digests and sizes and the manifest of the
  batch; no other message is touched. A result says which: the batch was published, or the directory was left as it
  was because its manifest already describes this very batch. Others may do anything outside the directories of
  the messages and the staging directory of this operation. One name is reserved: a file called like the
  manifest would be overwritten by it.
\<close>

theorem checkout_batch_atomic:
  assumes "\<forall>d\<in>set sources. jget d ''filename'' \<noteq> JStr checkout_manifest" and "tidy base op_id s"
    and "spare (restrict (guarded base op_id)) w"
    and "run (checkout_batch cfg base user assistant sources op_id uid gid) w s = (cs, r, t)"
  shows "batch_outcome cfg base user assistant sources s t
    \<and> (\<forall>d. r = Some (Inr d) \<longrightarrow> batch_success cfg base user assistant sources s d t)"
  using ensures_run [OF ensures_checkout_batch [OF assms(1,2)] assms(4) obeys_spare [OF assms(3)]]
  by (auto split: option.splits sum.splits)

definition sample_op_cfg :: op_cfg where
  "sample_op_cfg = \<lparr>oc_sha = (\<lambda>b. replicate 64 CHR ''a''), oc_dumps = (\<lambda>d. []), oc_loads = (\<lambda>b. None), oc_parse = (\<lambda>s. None),
     oc_ids = (0, 0), oc_bracket = (\<lambda>s. False)\<rparr>"

definition sample_batch :: "obj list" where
  "sample_batch =
     [[(''artifact_id'', JStr (''artifact_'' @ replicate 32 CHR ''0'')), (''filename'', JStr ''a.txt''), (''size'', JInt 2),
       (''sha256'', JStr (replicate 64 CHR ''A'')), (''url'', JStr ''u''), (''token'', JStr ''t''), (''max_bytes'', JInt 9)]]"

definition sample_op :: string where
  "sample_op = ''operation_'' @ replicate 32 CHR ''0''"

text \<open>Every call succeeds; the answer to the download carries two bytes, the other calls ignore it.\<close>

definition obliging :: "(op_error, sys_reply, fs) world_step list" where
  "obliging = replicate 70 \<lparr>wd_reply = Inr (Streamed True [[1], [2]] True), wd_others = (\<lambda>s. s)\<rparr>"

definition sample_items :: "obj list" where
  "sample_items = [item_of (''artifact_'' @ replicate 32 CHR ''0'') ''a.txt'' 2 (replicate 64 CHR ''a'')]"

lemma sample_checks:
  "public_artifacts [] [] sample_batch = Inr sample_items" "safe_operation_id sample_op = Inr sample_op"
  "message_id ''u'' = Inr ''u''" "message_id ''a'' = Inr ''a''"
  by (simp_all add: sample_batch_def sample_items_def public_artifact_def item_of_def required_text_def positive_int_def
      safe_filename_def prefixed_hex_def starts_with_def require_def path_name_def path_parts_def is_hex_def is_digit_def
      lower_def lower_char_def list_all_iff safe_operation_id_def sample_op_def message_id_def valid_message_id_def
      is_word_dash_def is_lower_def) (simp add: char_of_def bit_Suc_0_iff)

theorem checkout_batch_atomic_witness:
  "case run (checkout_batch sample_op_cfg [''w''] ''u'' ''a'' sample_batch sample_op 7 7) obliging [([''w''], Directory 448 (0, 0))] of
     (cs, r, t) \<Rightarrow> r = Some (Inr (checkout_result ''u'' ''a'' sample_items False))
       \<and> published sample_op_cfg [''w''] ''u'' ''a'' sample_items t"
proof -
  let ?p = "checkout_batch sample_op_cfg [''w''] ''u'' ''a'' sample_batch sample_op 7 7"
  let ?s = "[([''w''], Directory 448 (0, 0))]"
  obtain cs r t where run: "run ?p obliging ?s = (cs, r, t)" by (rule prod_cases3)
  have "fst (snd (run ?p obliging ?s)) = Some (Inr (checkout_result ''u'' ''a'' sample_items False))"
    unfolding checkout_batch_def sample_checks by code_simp
  then have r: "r = Some (Inr (checkout_result ''u'' ''a'' sample_items False))" by (simp add: run)
  have others: "spare (restrict (guarded [''w''] sample_op)) obliging" by (simp add: spare_def obliging_def list_all_iff)
  have free: "\<forall>d\<in>set sample_batch. jget d ''filename'' \<noteq> JStr checkout_manifest"
    by (simp add: sample_batch_def checkout_manifest_def)
  have tidy: "tidy [''w''] sample_op ?s" by (simp add: tidy_def restrict_def staging_of_def)
  have "checkout_result ''u'' ''a'' sample_items False \<noteq> checkout_result ''u'' ''a'' sample_items True"
    by (simp add: checkout_result_def)
  then show ?thesis
    using checkout_batch_atomic [OF free tidy others run] r by (simp add: run batch_success_def sample_checks)
qed

end
