(* ===== verification/Storage_Retirement.thy ===== *)
theory Storage_Retirement
  imports Storage_Ops
begin

text \<open>
  The retirement of a repository, \<open>retire_repository\<close> of \<open>src/src/storage_ops/cli.py\<close>, against an object store
  whose calls may fail and that others write to meanwhile: the loop of listings and deletions ends, deletes
  nothing outside the prefix, and leaves nothing below it when it succeeds.
\<close>

section \<open>The object store\<close>

text \<open>
  How the store takes a call: it answers; it refuses to delete the first key of a deletion; the call fails
  without effect; or it takes effect and its answer is lost. A fault that does not fit the call is no fault.
\<close>

datatype fault =
    Answers
  | Refuses
  | Fails op_error
  | Loses op_error

text \<open>
  \<open>so_keys\<close> are the keys in the order of a listing, \<open>so_gone\<close> the keys that the retirement has deleted so far.
  \<open>so_turns\<close> says for each call to come which objects others have put before it and how the store
  takes it; after that nobody else writes and every call is answered.
\<close>

record object_store =
  so_keys :: "string list"
  so_gone :: "string list"
  so_turns :: "(string list \<times> fault) list"

definition put_keys :: "string list \<Rightarrow> string list \<Rightarrow> string list" where
  "put_keys new keys = keys @ filter (\<lambda>k. k \<notin> set keys) (remdups new)"

definition take_turn :: "object_store \<Rightarrow> fault \<times> object_store" where
  "take_turn x =
     (case so_turns x of
        [] \<Rightarrow> (Answers, x)
      | (new, f) # ts \<Rightarrow> (f, x\<lparr>so_keys := put_keys new (so_keys x), so_turns := ts\<rparr>))"

definition drop_keys :: "string list \<Rightarrow> object_store \<Rightarrow> object_store" where
  "drop_keys ks x = x\<lparr>so_keys := filter (\<lambda>k. k \<notin> set ks) (so_keys x), so_gone := so_gone x @ ks\<rparr>"

definition list_page :: "nat \<Rightarrow> string \<Rightarrow> object_store \<Rightarrow> string list" where
  "list_page page p x = take page (filter (starts_with p) (so_keys x))"

fun s3_listing :: "nat \<Rightarrow> string \<Rightarrow> fault \<times> object_store \<Rightarrow> (op_error + sys_reply) \<times> object_store" where
  "s3_listing page p (Fails e, x) = (Inl e, x)"
| "s3_listing page p (Loses e, x) = (Inl e, x)"
| "s3_listing page p (_, x) = (Inr (Listed (map (\<lambda>k. JObj [(''Key'', JStr k)]) (list_page page p x))), x)"

fun s3_deletion :: "string list \<Rightarrow> fault \<times> object_store \<Rightarrow> (op_error + sys_reply) \<times> object_store" where
  "s3_deletion ks (Answers, x) = (Inr (DeletedBut [] None), drop_keys ks x)"
| "s3_deletion ks (Refuses, x) = (Inr (DeletedBut (take 1 ks) (Some ''AccessDenied'')), drop_keys (tl ks) x)"
| "s3_deletion ks (Fails e, x) = (Inl e, x)"
| "s3_deletion ks (Loses e, x) = (Inl e, drop_keys ks x)"

fun s3_answers :: "nat \<Rightarrow> syscall \<Rightarrow> object_store \<Rightarrow> (op_error + sys_reply) \<times> object_store" where
  "s3_answers page (ListObjects p) x = s3_listing page p (take_turn x)"
| "s3_answers page (DeleteObjects ks) x = s3_deletion ks (take_turn x)"
| "s3_answers page c x = (Inr Performed, x)"

section \<open>The loop\<close>

definition arriving :: "object_store \<Rightarrow> string list" where
  "arriving x = concat (map fst (so_turns x))"

text \<open>The objects below a prefix that are there or will be put there.\<close>

definition pending :: "string \<Rightarrow> object_store \<Rightarrow> nat" where
  "pending p x = length (filter (starts_with p) (so_keys x)) + length (filter (starts_with p) (arriving x))"

definition fault_error :: "fault \<Rightarrow> op_error option" where
  "fault_error f =
     (case f of
        Answers \<Rightarrow> None
      | Refuses \<Rightarrow> Some (StorageOperationError ''Object-store delete failed: AccessDenied'')
      | Fails e \<Rightarrow> Some e
      | Loses e \<Rightarrow> Some e)"

definition faults :: "object_store \<Rightarrow> op_error set" where
  "faults x = {e. \<exists>t\<in>set (so_turns x). fault_error (snd t) = Some e}"

text \<open>From \<open>x\<close> to \<open>y\<close> the retirement deletes the keys \<open>zs\<close>, all below the prefix; nothing else is lost.\<close>

definition deletes :: "string \<Rightarrow> object_store \<Rightarrow> object_store \<Rightarrow> string list \<Rightarrow> bool" where
  "deletes p x y zs \<longleftrightarrow> so_gone y = so_gone x @ zs \<and> list_all (starts_with p) zs \<and> set (so_keys x) \<subseteq> set (so_keys y) \<union> set zs"

lemma deletes_refl [simp]: "deletes p x x []"
  by (simp add: deletes_def)

lemma deletes_trans: "deletes p x y zs \<Longrightarrow> deletes p y z us \<Longrightarrow> deletes p x z (zs @ us)"
  by (auto simp: deletes_def)

lemma deletes_drop: "list_all (starts_with p) ks \<Longrightarrow> deletes p x (drop_keys ks x) ks"
  by (auto simp: deletes_def drop_keys_def)

lemma put_keys_distinct [simp]: "distinct keys \<Longrightarrow> distinct (put_keys new keys)"
  by (auto simp: put_keys_def)

lemma put_keys_Nil [simp]: "put_keys [] keys = keys"
  by (simp add: put_keys_def)

lemma filter_put_keys: "length (filter P (put_keys new keys)) \<le> length (filter P keys) + length (filter P new)"
proof -
  have "length (filter P (filter Q (remdups new))) \<le> length (filter P new)" for Q
  proof -
    have "length (filter P (filter Q (remdups new))) = length (filter Q (remdups (filter P new)))"
      by (simp add: remdups_filter conj_commute)
    also have "\<dots> \<le> length (filter P new)"
      by (rule order_trans [OF length_filter_le length_remdups_leq])
    finally show ?thesis .
  qed
  then show ?thesis by (simp add: put_keys_def)
qed

text \<open>A turn of the others.\<close>

lemma take_turn_frame:
  assumes "take_turn x = (f, y)"
  shows "deletes p x y []" and "distinct (so_keys x) \<Longrightarrow> distinct (so_keys y)" and "pending p y \<le> pending p x"
    and "faults y \<subseteq> faults x" and "fault_error f = Some e \<Longrightarrow> e \<in> faults x"
    and "arriving x = [] \<Longrightarrow> so_keys y = so_keys x \<and> arriving y = []"
proof -
  consider "so_turns x = []" "f = Answers" "y = x"
    | new ts where "so_turns x = (new, f) # ts" "y = x\<lparr>so_keys := put_keys new (so_keys x), so_turns := ts\<rparr>"
    using assms by (auto simp: take_turn_def split: list.splits)
  then show "deletes p x y []" "distinct (so_keys x) \<Longrightarrow> distinct (so_keys y)" "pending p y \<le> pending p x"
      "faults y \<subseteq> faults x" "fault_error f = Some e \<Longrightarrow> e \<in> faults x"
      "arriving x = [] \<Longrightarrow> so_keys y = so_keys x \<and> arriving y = []"
    using filter_put_keys [of "starts_with p" _ "so_keys x"]
    by (cases; auto simp: deletes_def put_keys_def pending_def arriving_def faults_def fault_error_def)+
qed

lemma drop_keys_frame [simp]:
  "so_turns (drop_keys ks x) = so_turns x" "arriving (drop_keys ks x) = arriving x" "faults (drop_keys ks x) = faults x"
  "distinct (so_keys x) \<Longrightarrow> distinct (so_keys (drop_keys ks x))"
  by (simp_all add: drop_keys_def arriving_def faults_def)

lemma page_below: "list_all (starts_with p) (list_page page p x)" "set (list_page page p x) \<subseteq> set (so_keys x)"
  by (auto simp: list_page_def list_all_iff dest: in_set_takeD)

lemma page_distinct: "distinct (so_keys x) \<Longrightarrow> distinct (list_page page p x)"
  by (simp add: list_page_def)

lemma page_empty: "0 < page \<Longrightarrow> list_page page p x = [] \<longleftrightarrow> filter (starts_with p) (so_keys x) = []"
  by (simp add: list_page_def)

text \<open>Deleting keys that are there makes fewer objects pending.\<close>

lemma drop_keys_pending:
  assumes "distinct (so_keys x)" and "distinct ks" and "set ks \<subseteq> set (so_keys x)" and "list_all (starts_with p) ks"
  shows "pending p (drop_keys ks x) + length ks = pending p x"
proof -
  let ?below = "filter (starts_with p) (so_keys x)"
  have split: "length (filter (\<lambda>k. k \<notin> set ks) ?below) + length (filter (\<lambda>k. k \<in> set ks) ?below) = length ?below"
    using sum_length_filter_compl [of "\<lambda>k. k \<in> set ks" ?below] by simp
  have "set (filter (\<lambda>k. k \<in> set ks) ?below) = set ks" using assms(3,4) by (auto simp: list_all_iff)
  moreover have "distinct (filter (\<lambda>k. k \<in> set ks) ?below)" using assms(1) by simp
  ultimately have "length (filter (\<lambda>k. k \<in> set ks) ?below) = length ks"
    using assms(2) by (metis distinct_card)
  then show ?thesis using split unfolding pending_def drop_keys_frame(2) by (simp add: drop_keys_def conj_commute)
qed

lemma listed_keys_map: "listed_keys (map (\<lambda>k. JObj [(''Key'', JStr k)]) ks) = ks"
  by (induction ks) (simp_all add: listed_keys_def List.map_filter_def jget_def)

lemma listed_keys_Nil [simp]: "listed_keys [] = []"
  using listed_keys_map [of "[]"] by simp

text \<open>One round: the store and the result after it, or the error that ends the loop.\<close>

definition round_result :: "nat \<Rightarrow> string \<Rightarrow> int \<Rightarrow> object_store \<Rightarrow> (op_error + int \<times> bool) \<times> object_store" where
  "round_result page p n x =
     (case s3_answers page (ListObjects p) x of
        (Inl e, x1) \<Rightarrow> (Inl e, x1)
      | (Inr _, x1) \<Rightarrow>
          (let ks = list_page page p x1
           in if ks = [] then (Inr (n, True), x1)
              else (case s3_answers page (DeleteObjects ks) x1 of
                  (Inl e, x2) \<Rightarrow> (Inl e, x2)
                | (Inr (DeletedBut (k # es) c), x2) \<Rightarrow> (Inl (StorageOperationError ''Object-store delete failed: AccessDenied''), x2)
                | (Inr _, x2) \<Rightarrow> (Inr (n + int (length ks), False), x2))))"

lemma retire_round:
  "run_with (retire_loop (Suc fuel) p n) (s3_answers page) x s =
     (case round_result page p n x of
        (Inl e, y) \<Rightarrow> (Some (Inl e), y, s)
      | (Inr (m, True), y) \<Rightarrow> (Some (Inr m), y, s)
      | (Inr (m, False), y) \<Rightarrow> run_with (retire_loop fuel p m) (s3_answers page) y s)"
proof -
  obtain f x1 where x1: "take_turn x = (f, x1)" by (cases "take_turn x")
  let ?ks = "list_page page p x1"
  consider (error) e where "s3_listing page p (f, x1) = (Inl e, x1)"
    | (listed) "s3_listing page p (f, x1) = (Inr (Listed (map (\<lambda>k. JObj [(''Key'', JStr k)]) ?ks)), x1)"
    by (cases f) auto
  then show ?thesis
  proof cases
    case error
    then show ?thesis by (simp add: run_with_bind descriptor_call_def round_result_def x1)
  next
    case listed
    note l = listed
    show ?thesis
    proof (cases "?ks = []")
      case True
      then show ?thesis using l by (simp add: run_with_bind descriptor_call_def round_result_def x1)
    next
      case False
      obtain g x2 where x2: "take_turn x1 = (g, x2)" by (cases "take_turn x1")
      obtain k where one: "take (Suc 0) ?ks = [k]" using False by (cases ?ks) auto
      show ?thesis using False l one
        by (cases g) (simp_all add: run_with_bind descriptor_call_def round_result_def x1 x2 listed_keys_map Let_def
            demand_def guard_io_def)
    qed
  qed
qed

lemma round_outcome:
  assumes "round_result page p n x = (r, y)" and "0 < page" and "distinct (so_keys x)"
  shows "\<exists>zs. deletes p x y zs \<and> distinct (so_keys y) \<and> faults y \<subseteq> faults x
    \<and> (case r of
        Inl e \<Rightarrow> e \<in> faults x
      | Inr (m, over) \<Rightarrow> m = n + int (length zs) \<and> (over \<longrightarrow> filter (starts_with p) (so_keys y) = [])
          \<and> (\<not> over \<longrightarrow> pending p y < pending p x)
          \<and> (arriving x = [] \<longrightarrow> arriving y = [] \<and> length zs + length (filter (starts_with p) (so_keys y))
                = length (filter (starts_with p) (so_keys x))
              \<and> filter (\<lambda>k. \<not> starts_with p k) (so_keys y) = filter (\<lambda>k. \<not> starts_with p k) (so_keys x)))"
proof -
  obtain f x1 where x1: "take_turn x = (f, x1)" by (cases "take_turn x")
  note t1 = take_turn_frame [OF x1]
  note d1 = t1(2) [OF assms(3)]
  let ?ks = "list_page page p x1"
  consider (error) e where "s3_listing page p (f, x1) = (Inl e, x1)" "fault_error f = Some e"
    | (listed) "s3_listing page p (f, x1) = (Inr (Listed (map (\<lambda>k. JObj [(''Key'', JStr k)]) ?ks)), x1)"
    by (cases f) (auto simp: fault_error_def)
  then show ?thesis
  proof cases
    case error
    then show ?thesis using assms(1) x1 t1(1,4,5) d1
      by (auto simp: round_result_def intro!: exI [of _ "[]"])
  next
    case listed
    note l = listed
    show ?thesis
    proof (cases "?ks = []")
      case True
      then have "r = Inr (n, True)" "y = x1" using assms(1) l by (simp_all add: round_result_def x1 Let_def)
      then show ?thesis using True t1(1,4,6) d1 page_empty [OF assms(2)] by (auto intro!: exI [of _ "[]"])
    next
      case False
      obtain g x2 where x2: "take_turn x1 = (g, x2)" by (cases "take_turn x1")
      note t2 = take_turn_frame [OF x2]
      note d2 = t2(2) [OF d1]
      have below: "list_all (starts_with p) ?ks" "list_all (starts_with p) (tl ?ks)"
        using page_below(1) [of p page x1] by (auto simp: list_all_iff dest: list.set_sel(2) [OF False])
      have both: "deletes p x x2 []" using deletes_trans [OF t1(1) t2(1)] by simp
      have dropped: "deletes p x (drop_keys ks x2) ks" if "list_all (starts_with p) ks" for ks
        using deletes_trans [OF both deletes_drop [OF that]] by simp
      have there: "set ?ks \<subseteq> set (so_keys x2)" using page_below(2) [of page p x1] t2(1) [of p] by (auto simp: deletes_def)
      have less: "pending p (drop_keys ?ks x2) + length ?ks \<le> pending p x"
        using drop_keys_pending [OF d2 page_distinct [OF d1] there below(1)] t1(3) [of p] t2(3) [of p] by simp
      have outside: "filter (\<lambda>k. \<not> starts_with p k) (so_keys (drop_keys ?ks x2)) = filter (\<lambda>k. \<not> starts_with p k) (so_keys x2)"
        using below(1) by (auto simp: drop_keys_def list_all_iff intro!: filter_cong)
      have exact: "length ?ks + length (filter (starts_with p) (so_keys (drop_keys ?ks x2))) = length (filter (starts_with p) (so_keys x))"
        if "arriving x = []"
        using drop_keys_pending [OF d2 page_distinct [OF d1] there below(1)] t1(6) t2(6) that by (simp add: pending_def)
      have cases: "(\<exists>e. r = Inl e \<and> fault_error g = Some e \<and> (y = x2 \<or> y = drop_keys ?ks x2 \<or> y = drop_keys (tl ?ks) x2))
          \<or> r = Inr (n + int (length ?ks), False) \<and> y = drop_keys ?ks x2"
        using assms(1) l False by (cases g; cases ?ks) (auto simp: round_result_def x1 x2 Let_def fault_error_def)
      show ?thesis
      proof (cases r)
        case (Inl e)
        moreover have "e \<in> faults x" using cases Inl t1(4) t2(5) by auto
        moreover have "\<exists>zs. deletes p x y zs" using cases Inl both dropped below by auto
        moreover have "distinct (so_keys y)" "faults y \<subseteq> faults x" using cases Inl d2 t1(4) t2(4) by auto
        ultimately show ?thesis by auto
      next
        case (Inr m)
        then have y: "r = Inr (n + int (length ?ks), False)" "y = drop_keys ?ks x2" using cases by auto
        have "pending p y < pending p x" using less False y by (cases ?ks) simp_all
        then show ?thesis using y dropped [OF below(1)] d2 t1(4,6) t2(4,6) exact outside
          by (intro exI [of _ ?ks]) auto
      qed
    qed
  qed
qed

lemma retire_loop_ends:
  assumes "0 < page" and "distinct (so_keys x)" and "pending p x < fuel"
  shows "\<exists>r y zs. run_with (retire_loop fuel p n) (s3_answers page) x s = (Some r, y, s) \<and> deletes p x y zs
    \<and> (case r of
        Inr m \<Rightarrow> m = n + int (length zs) \<and> filter (starts_with p) (so_keys y) = []
          \<and> (arriving x = [] \<longrightarrow> length zs = length (filter (starts_with p) (so_keys x))
              \<and> filter (\<lambda>k. \<not> starts_with p k) (so_keys y) = filter (\<lambda>k. \<not> starts_with p k) (so_keys x))
      | Inl e \<Rightarrow> e \<in> faults x)"
  using assms(2,3)
proof (induction fuel arbitrary: x n)
  case (Suc fuel)
  obtain r y where round: "round_result page p n x = (r, y)" by (cases "round_result page p n x")
  from round_outcome [OF round assms(1) Suc.prems(1)]
  obtain zs where zs: "deletes p x y zs" "distinct (so_keys y)" "faults y \<subseteq> faults x"
      "case r of
        Inl e \<Rightarrow> e \<in> faults x
      | Inr (m, over) \<Rightarrow> m = n + int (length zs) \<and> (over \<longrightarrow> filter (starts_with p) (so_keys y) = [])
          \<and> (\<not> over \<longrightarrow> pending p y < pending p x)
          \<and> (arriving x = [] \<longrightarrow> arriving y = [] \<and> length zs + length (filter (starts_with p) (so_keys y))
                = length (filter (starts_with p) (so_keys x))
              \<and> filter (\<lambda>k. \<not> starts_with p k) (so_keys y) = filter (\<lambda>k. \<not> starts_with p k) (so_keys x))"
    by blast
  note step = retire_round [of fuel p n page x s, unfolded round prod.case]
  consider (failed) e where "r = Inl e" | (over) m where "r = Inr (m, True)" | (next_round) m where "r = Inr (m, False)"
    by (cases r) auto
  then show ?case
  proof cases
    case failed
    then have "run_with (retire_loop (Suc fuel) p n) (s3_answers page) x s = (Some (Inl e), y, s)" using step by simp
    then show ?thesis using failed zs by (intro exI [of _ "Inl e"] exI [of _ y] exI [of _ zs]) simp
  next
    case over
    then have "run_with (retire_loop (Suc fuel) p n) (s3_answers page) x s = (Some (Inr m), y, s)" using step by simp
    then show ?thesis using over zs by (intro exI [of _ "Inr m"] exI [of _ y] exI [of _ zs]) auto
  next
    case next_round
    then have less: "pending p y < fuel" using zs(4) Suc.prems(2) by simp
    from Suc.IH [OF zs(2) less, of m]
    obtain r' z us where later: "run_with (retire_loop fuel p m) (s3_answers page) y s = (Some r', z, s)" "deletes p y z us"
        "case r' of
          Inr m' \<Rightarrow> m' = m + int (length us) \<and> filter (starts_with p) (so_keys z) = []
            \<and> (arriving y = [] \<longrightarrow> length us = length (filter (starts_with p) (so_keys y))
                \<and> filter (\<lambda>k. \<not> starts_with p k) (so_keys z) = filter (\<lambda>k. \<not> starts_with p k) (so_keys y))
        | Inl e \<Rightarrow> e \<in> faults y"
      by blast
    have run: "run_with (retire_loop (Suc fuel) p n) (s3_answers page) x s = (Some r', z, s)"
      using step next_round later(1) by simp
    show ?thesis
      using run next_round later(3) zs(3,4) deletes_trans [OF zs(1) later(2)]
      by (intro exI [of _ r'] exI [of _ z] exI [of _ "zs @ us"]) (auto split: sum.splits)
  qed
qed simp

text \<open>
  C33. The retirement of a repository ends, whatever the page size of the store, whatever calls fail and
  whatever others put there meanwhile: it needs one round for every object that is below the prefix or put
  there meanwhile, and one more at most. It deletes only objects below the prefix. When it succeeds, every
  object that was there at the start is deleted, nothing is left below the prefix when the last listing is
  answered, and the result counts the deletions; if nobody else writes, it has deleted exactly the objects
  below the prefix. It fails only with the error of a listing or deletion that failed, or because a
  deletion was refused. The endpoint must be an HTTP URL, and the bucket and the prefix must not be empty;
  nobody else deletes objects.
\<close>

theorem retire_terminates:
  assumes "0 < page" and "distinct (so_keys x)" and "is_http_url (oc_bracket cfg) (rstrip (\<lambda>c. c = CHR ''/'') endpoint) = Some True"
    and "bucket_name \<noteq> []" and "strip_slashes p \<noteq> []"
    and "pending (strip_slashes p @ ''/'') x < fuel"
  shows "\<exists>r y zs. run_with (retire_repository cfg fuel endpoint bucket_name p) (s3_answers page) x s = (Some r, y, s)
    \<and> deletes (strip_slashes p @ ''/'') x y zs
    \<and> (case r of
        Inr d \<Rightarrow> d = [(''objects_deleted'', JInt (int (length zs)))]
          \<and> filter (starts_with (strip_slashes p @ ''/'')) (so_keys y) = []
          \<and> (arriving x = [] \<longrightarrow> length zs = length (filter (starts_with (strip_slashes p @ ''/'')) (so_keys x))
              \<and> so_keys y = filter (\<lambda>k. \<not> starts_with (strip_slashes p @ ''/'') k) (so_keys x))
      | Inl e \<Rightarrow> e \<in> faults x)"
proof -
  let ?p = "strip_slashes p @ ''/''"
  from retire_loop_ends [OF assms(1,2,6), of 0 s]
  obtain r y zs where loop: "run_with (retire_loop fuel ?p 0) (s3_answers page) x s = (Some r, y, s)" "deletes ?p x y zs"
      "case r of
        Inr m \<Rightarrow> m = int (length zs) \<and> filter (starts_with ?p) (so_keys y) = []
          \<and> (arriving x = [] \<longrightarrow> length zs = length (filter (starts_with ?p) (so_keys x))
              \<and> filter (\<lambda>k. \<not> starts_with ?p k) (so_keys y) = filter (\<lambda>k. \<not> starts_with ?p k) (so_keys x))
      | Inl e \<Rightarrow> e \<in> faults x"
    by (simp only: add_0_left) blast
  have rest: "so_keys y = filter (\<lambda>k. \<not> starts_with ?p k) (so_keys y)" if "filter (starts_with ?p) (so_keys y) = []"
    using that by (simp add: filter_empty_conv filter_id_conv)
  show ?thesis
  proof (cases r)
    case (Inl e)
    then show ?thesis using loop assms(3-5)
      by (intro exI [of _ "Inl e"] exI [of _ y] exI [of _ zs])
        (simp add: retire_repository_def demand_def guard_io_def run_with_bind del: retire_loop.simps)
  next
    case (Inr m)
    have "run_with (retire_repository cfg fuel endpoint bucket_name p) (s3_answers page) x s =
        (Some (Inr [(''objects_deleted'', JInt m)]), y, s)"
      using Inr loop(1) assms(3-5)
      by (simp add: retire_repository_def demand_def guard_io_def run_with_bind del: retire_loop.simps)
    then show ?thesis using Inr loop(2,3) rest
      by (intro exI [of _ "Inr [(''objects_deleted'', JInt m)]"] exI [of _ y] exI [of _ zs]) auto
  qed
qed

definition retire_cfg :: op_cfg where
  "retire_cfg = \<lparr>oc_sha = (\<lambda>b. []), oc_dumps = (\<lambda>d. []), oc_loads = (\<lambda>b. None), oc_parse = (\<lambda>s. None), oc_ids = (0, 0),
     oc_bracket = (\<lambda>s. False)\<rparr>"

text \<open>A store with three objects below the prefix; a fourth arrives before the second listing.\<close>

definition full_store :: object_store where
  "full_store = \<lparr>so_keys = [''r/a'', ''rx'', ''r/b'', ''r/c''], so_gone = [],
     so_turns = [([], Answers), ([], Answers), ([''r/d''], Answers)]\<rparr>"

lemma retire_terminates_witness:
  "\<exists>d y. run_with (retire_repository retire_cfg 5 ''http://s3'' ''b'' ''/r/'') (s3_answers 2) full_store []
     = (Some (Inr d), y, []) \<and> set (so_gone y) \<supseteq> {''r/a'', ''r/b'', ''r/c''} \<and> ''rx'' \<in> set (so_keys y)"
proof -
  have checks: "(0::nat) < 2" "distinct (so_keys full_store)"
    "is_http_url (oc_bracket retire_cfg) (rstrip (\<lambda>c. c = CHR ''/'') ''http://s3'') = Some True" "''b'' \<noteq> []"
    "strip_slashes ''/r/'' \<noteq> []" "pending (strip_slashes ''/r/'' @ ''/'') full_store < 5"
    by code_simp+
  have below: "strip_slashes ''/r/'' @ ''/'' = ''r/''" by code_simp
  have calm: "faults full_store = {}" by (auto simp: faults_def full_store_def fault_error_def)
  note ends = retire_terminates [OF checks, of "[]", unfolded below]
  obtain r y zs where r: "run_with (retire_repository retire_cfg 5 ''http://s3'' ''b'' ''/r/'') (s3_answers 2) full_store []
      = (Some r, y, [])" "deletes ''r/'' full_store y zs"
      "\<And>d. r = Inr d \<Longrightarrow> filter (starts_with ''r/'') (so_keys y) = []" "\<And>e. r = Inl e \<Longrightarrow> e \<in> faults full_store"
    using ends by (elim exE conjE) (rule that, assumption+, simp_all)
  obtain d where d: "r = Inr d" using r(4) calm by (cases r) auto
  have gone: "list_all (starts_with ''r/'') (so_gone y)" "set (so_keys full_store) \<subseteq> set (so_keys y) \<union> set (so_gone y)"
    using r(2) by (auto simp: deletes_def full_store_def)
  have "k \<in> set (so_gone y)" if "k \<in> set (so_keys full_store)" "starts_with ''r/'' k" for k
    using that gone(2) r(3) d by (auto simp: filter_empty_conv)
  moreover have "k \<in> set (so_keys y)" if "k \<in> set (so_keys full_store)" "\<not> starts_with ''r/'' k" for k
    using that gone by (auto simp: list_all_iff)
  ultimately show ?thesis using r(1) d by (auto simp: full_store_def starts_with_def)
qed

end
