(* ===== verification/Bff_Database.thy ===== *)
theory Bff_Database
  imports Grants
begin

text \<open>
  The tables of the Agent BFF inside Open WebUI and their operations,
  \<open>src/deploy/open-webui/agent_open_webui/database.py\<close>.

  A table is the list of its rows. Every operation is one transaction on one session: it ends with a value and
  the new tables, or raises and leaves them alone. An \<open>IntegrityError\<close> of a unique column is a check of the
  operation. \<open>now\<close> is \<open>int(time.time())\<close> and \<open>fresh\<close> the text of \<open>uuid.uuid4().hex\<close>; the JSON codec of the
  descriptors is that of \<open>grant_env\<close>. The table of files belongs to Open WebUI, which is not under \<open>src\<close>: the
  model has the columns that \<open>register_artifact_file\<close> writes and reads.
\<close>

section \<open>Tables\<close>

datatype bff_error =
    HttpError int string
  | Uncaught string

record chat_workspace =
  cw_chat :: string
  cw_workspace :: string
  cw_created :: int
  cw_updated :: int

record transfer_nonce =
  xn_nonce :: string
  xn_expires :: int
  xn_consumed :: int

record file_artifact =
  fa_file :: string
  fa_artifact :: string
  fa_owner :: string
  fa_descriptor :: string
  fa_created :: int

record message_artifact =
  ma_id :: string
  ma_chat :: string
  ma_message :: string
  ma_artifact :: string
  ma_direction :: string
  ma_filename :: string
  ma_created :: int

record response_binding =
  rb_message :: string
  rb_chat :: string
  rb_response :: string
  rb_workspace :: string
  rb_owner :: string
  rb_created :: int

text \<open>The values that the code writes to the column \<open>state\<close> of an intent.\<close>

datatype intent_state =
    IntentPending
  | IntentCaptured
  | IntentUploading
  | IntentUploaded
  | IntentRetryable
  | IntentBindingRetry
  | IntentReady
  | IntentFailed

record publish_intent =
  pi_id :: string
  pi_chat :: string
  pi_owner :: string
  pi_workspace :: string
  pi_message :: string
  pi_response :: string
  pi_path :: string
  pi_state :: intent_state
  pi_artifact :: "string option"
  pi_operation :: "string option"
  pi_descriptor :: "string option"
  pi_attempts :: int
  pi_next :: int
  pi_error :: "string option"
  pi_created :: int
  pi_updated :: int

record web_file =
  wf_id :: string
  wf_user :: string
  wf_hash :: string
  wf_filename :: string
  wf_size :: json
  wf_media :: json

record bff_db =
  chat_workspaces :: "chat_workspace list"
  transfer_nonces :: "transfer_nonce list"
  file_artifacts :: "file_artifact list"
  message_artifacts :: "message_artifact list"
  response_bindings :: "response_binding list"
  publish_intents :: "publish_intent list"
  web_files :: "web_file list"

definition empty_bff :: bff_db where
  "empty_bff = \<lparr>chat_workspaces = [], transfer_nonces = [], file_artifacts = [], message_artifacts = [],
     response_bindings = [], publish_intents = [], web_files = []\<rparr>"

section \<open>Workspaces of chats and nonces of transfers\<close>

definition get_chat_workspace :: "string \<Rightarrow> bff_db \<Rightarrow> string option" where
  "get_chat_workspace chat d = map_option cw_workspace (select_one (\<lambda>r. cw_chat r = chat) (chat_workspaces d))"

definition insert_workspace :: "int \<Rightarrow> string \<Rightarrow> string \<Rightarrow> bff_db \<Rightarrow> bool \<times> bff_db" where
  "insert_workspace now chat wid d =
     (if list_ex (\<lambda>r. cw_chat r = chat \<or> cw_workspace r = wid) (chat_workspaces d) then (False, d)
      else (True, d\<lparr>chat_workspaces := chat_workspaces d @
        [\<lparr>cw_chat = chat, cw_workspace = wid, cw_created = now, cw_updated = now\<rparr>]\<rparr>))"

definition delete_chat_workspace :: "string \<Rightarrow> string \<Rightarrow> bff_db \<Rightarrow> bff_db" where
  "delete_chat_workspace chat wid d =
     d\<lparr>chat_workspaces := delete_rows (\<lambda>r. cw_chat r = chat \<and> cw_workspace r = wid) (chat_workspaces d)\<rparr>"

text \<open>The rollback of a duplicate also takes back the deletion of the expired rows.\<close>

definition consume_transfer_nonce :: "string \<Rightarrow> int \<Rightarrow> int \<Rightarrow> bff_db \<Rightarrow> bool \<times> bff_db" where
  "consume_transfer_nonce nonce expires now d =
     (let kept = delete_rows (\<lambda>r. xn_expires r \<le> now) (transfer_nonces d)
      in if select_one (\<lambda>r. xn_nonce r = nonce) kept \<noteq> None then (False, d)
         else (True, d\<lparr>transfer_nonces := kept @ [\<lparr>xn_nonce = nonce, xn_expires = expires, xn_consumed = now\<rparr>]\<rparr>))"

section \<open>Files and messages\<close>

text \<open>\<open>descriptor[k]\<close> bound to a column of type \<open>String\<close>: a missing key and a value that is no text raise.\<close>

definition column_text :: "obj \<Rightarrow> string \<Rightarrow> bff_error + string" where
  "column_text d k =
     (case map_of d k of
        None \<Rightarrow> Inl (Uncaught (quoted k))
      | Some v \<Rightarrow> (case as_str v of None \<Rightarrow> Inl (Uncaught ''StatementError'') | Some s \<Rightarrow> Inr s))"

definition column_any :: "obj \<Rightarrow> string \<Rightarrow> bff_error + json" where
  "column_any d k = (case map_of d k of None \<Rightarrow> Inl (Uncaught (quoted k)) | Some v \<Rightarrow> Inr v)"

definition file_json :: "web_file \<Rightarrow> obj" where
  "file_json f =
     [(''id'', JStr (wf_id f)), (''user_id'', JStr (wf_user f)), (''hash'', JStr (wf_hash f)),
      (''filename'', JStr (wf_filename f)), (''path'', JNull), (''data'', JObj [(''status'', JStr ''completed'')]),
      (''meta'', JObj [(''name'', JStr (wf_filename f)), (''size'', wf_size f), (''content_type'', wf_media f),
         (''file_hash'', JStr (wf_hash f))])]"

definition register_artifact_file ::
    "grant_env \<Rightarrow> int \<Rightarrow> string \<Rightarrow> string \<Rightarrow> obj \<Rightarrow> bff_db \<Rightarrow> bff_error + obj \<times> bff_db" where
  "register_artifact_file E now file owner descriptor d =
     (let binding = select_one (\<lambda>r. fa_file r = file) (file_artifacts d)
      in case select_one (\<lambda>f. wf_id f = file) (web_files d) of
        Some f \<Rightarrow>
          rbind (case binding of
              None \<Rightarrow> Inl (Uncaught ''File identity is already in use'')
            | Some b \<Rightarrow> rbind (column_any descriptor ''artifact_id'') (\<lambda>a.
                require (JStr (fa_artifact b) = a \<and> wf_user f = owner)
                  (Uncaught ''File identity is already in use'') (Inr ()))) (\<lambda>u.
          Inr (file_json f, d))
      | None \<Rightarrow>
          rbind (column_text descriptor ''sha256'') (\<lambda>sha.
          rbind (column_text descriptor ''filename'') (\<lambda>filename.
          rbind (column_any descriptor ''size'') (\<lambda>n.
          rbind (column_any descriptor ''media_type'') (\<lambda>media.
          rbind (column_text descriptor ''artifact_id'') (\<lambda>artifact.
          let f = \<lparr>wf_id = file, wf_user = owner, wf_hash = sha, wf_filename = filename, wf_size = n, wf_media = media\<rparr>;
              b = \<lparr>fa_file = file, fa_artifact = artifact, fa_owner = owner,
                   fa_descriptor = json_dumps E (JObj descriptor), fa_created = now\<rparr>;
              d1 = d\<lparr>web_files := web_files d @ [f]\<rparr>
          in case binding of
               None \<Rightarrow>
                 require (\<not> list_ex (\<lambda>r. fa_artifact r = artifact) (file_artifacts d)) (Uncaught ''IntegrityError'')
                   (Inr (file_json f, d1\<lparr>file_artifacts := file_artifacts d @ [b]\<rparr>))
             | Some r \<Rightarrow>
                 require (fa_artifact r = artifact) (Uncaught ''File identity is already in use'')
                   (Inr (file_json f, d1))))))))"

definition get_file_artifact :: "string \<Rightarrow> bff_db \<Rightarrow> file_artifact option" where
  "get_file_artifact file d = select_one (\<lambda>r. fa_file r = file) (file_artifacts d)"

definition get_file_by_artifact :: "string \<Rightarrow> bff_db \<Rightarrow> file_artifact option" where
  "get_file_by_artifact artifact d = select_one (\<lambda>r. fa_artifact r = artifact) (file_artifacts d)"

text \<open>A message has an Artifact once, in whichever direction it was bound first. The fresh id is taken as new.\<close>

definition bind_message_artifact ::
    "int \<Rightarrow> string \<Rightarrow> string \<Rightarrow> string \<Rightarrow> string \<Rightarrow> string \<Rightarrow> string \<Rightarrow> bff_db \<Rightarrow> bff_db" where
  "bind_message_artifact now fresh chat message artifact direction filename d =
     (if list_ex (\<lambda>r. ma_chat r = chat \<and> ma_message r = message \<and> ma_artifact r = artifact) (message_artifacts d)
      then d
      else d\<lparr>message_artifacts := message_artifacts d @
        [\<lparr>ma_id = ''binding_'' @ fresh, ma_chat = chat, ma_message = message, ma_artifact = artifact,
          ma_direction = direction, ma_filename = filename, ma_created = now\<rparr>]\<rparr>)"

definition message_artifact_chats :: "string \<Rightarrow> bff_db \<Rightarrow> string list" where
  "message_artifact_chats artifact d =
     remdups (map ma_chat (filter (\<lambda>r. ma_artifact r = artifact) (message_artifacts d)))"

section \<open>Responses of messages\<close>

definition put_response_binding ::
    "int \<Rightarrow> string \<Rightarrow> string \<Rightarrow> string \<Rightarrow> string \<Rightarrow> string \<Rightarrow> bff_db \<Rightarrow> bff_error + unit \<times> bff_db" where
  "put_response_binding now chat message response workspace owner d =
     (case select_one (\<lambda>r. rb_message r = message) (response_bindings d) of
        None \<Rightarrow>
          require (\<not> list_ex (\<lambda>r. rb_response r = response) (response_bindings d)) (Uncaught ''IntegrityError'')
            (Inr ((), d\<lparr>response_bindings := response_bindings d @
              [\<lparr>rb_message = message, rb_chat = chat, rb_response = response, rb_workspace = workspace,
                rb_owner = owner, rb_created = now\<rparr>]\<rparr>))
      | Some r \<Rightarrow>
          require (rb_response r = response \<and> rb_chat r = chat)
            (Uncaught ''Assistant message is already bound to another Response'') (Inr ((), d)))"

definition get_response_binding :: "string \<Rightarrow> string \<Rightarrow> bff_db \<Rightarrow> response_binding option" where
  "get_response_binding chat message d =
     (case select_one (\<lambda>r. rb_message r = message) (response_bindings d) of
        None \<Rightarrow> None
      | Some r \<Rightarrow> if rb_chat r = chat then Some r else None)"

section \<open>Publish intents\<close>

definition candidate :: "string \<Rightarrow> string \<Rightarrow> string \<Rightarrow> publish_intent \<Rightarrow> bool" where
  "candidate chat message path r \<longleftrightarrow> pi_chat r = chat \<and> pi_message r = message \<and> pi_path r = path"

definition new_intent ::
    "int \<Rightarrow> string \<Rightarrow> string \<Rightarrow> string \<Rightarrow> string \<Rightarrow> string \<Rightarrow> string \<Rightarrow> string \<Rightarrow> publish_intent" where
  "new_intent now iid chat owner workspace message response path =
     \<lparr>pi_id = iid, pi_chat = chat, pi_owner = owner, pi_workspace = workspace, pi_message = message,
      pi_response = response, pi_path = path, pi_state = IntentPending, pi_artifact = None, pi_operation = None,
      pi_descriptor = None, pi_attempts = 0, pi_next = now, pi_error = None, pi_created = now, pi_updated = now\<rparr>"

text \<open>
  An intent of the same candidate is returned as it is. \<open>scalar_one\<close> raises when the conflict was the id.
\<close>

definition create_publish_intent ::
    "int \<Rightarrow> string \<Rightarrow> string \<Rightarrow> string \<Rightarrow> string \<Rightarrow> string \<Rightarrow> string \<Rightarrow> string \<Rightarrow> bff_db
      \<Rightarrow> bff_error + string \<times> bff_db" where
  "create_publish_intent now fresh chat owner workspace message response path d =
     (let iid = ''intent_'' @ fresh
      in if list_ex (\<lambda>r. pi_id r = iid \<or> candidate chat message path r) (publish_intents d)
         then (case select_one (candidate chat message path) (publish_intents d) of
             None \<Rightarrow> Inl (Uncaught ''NoResultFound'')
           | Some r \<Rightarrow> Inr (pi_id r, d))
         else Inr (iid, d\<lparr>publish_intents := publish_intents d @
           [new_intent now iid chat owner workspace message response path]\<rparr>))"

definition get_publish_intent :: "string \<Rightarrow> bff_db \<Rightarrow> publish_intent option" where
  "get_publish_intent iid d = select_one (\<lambda>r. pi_id r = iid) (publish_intents d)"

definition get_candidate_intent :: "string \<Rightarrow> string \<Rightarrow> string \<Rightarrow> bff_db \<Rightarrow> publish_intent option" where
  "get_candidate_intent chat message path d = select_one (candidate chat message path) (publish_intents d)"

fun intent_open :: "intent_state \<Rightarrow> bool" where
  "intent_open IntentReady = False"
| "intent_open IntentFailed = False"
| "intent_open s = True"

text \<open>\<open>ORDER BY next_attempt_at, created_at LIMIT limit\<close>: a stable sort by both keys.\<close>

definition due_publish_intents :: "int \<Rightarrow> nat \<Rightarrow> bff_db \<Rightarrow> publish_intent list" where
  "due_publish_intents now limit d =
     take limit (sort_key pi_next (sort_key pi_created
       (filter (\<lambda>r. intent_open (pi_state r) \<and> pi_next r \<le> now) (publish_intents d))))"

definition capture_barriers :: "string \<Rightarrow> bff_db \<Rightarrow> publish_intent list" where
  "capture_barriers workspace d =
     filter (\<lambda>r. pi_workspace r = workspace \<and> pi_state r = IntentPending) (publish_intents d)"

text \<open>\<open>update_publish_intent\<close> with the given columns as a change \<open>f\<close> of the row.\<close>

definition update_publish_intent :: "int \<Rightarrow> string \<Rightarrow> (publish_intent \<Rightarrow> publish_intent) \<Rightarrow> bff_db \<Rightarrow> bff_db" where
  "update_publish_intent now iid f d =
     d\<lparr>publish_intents := update_rows (\<lambda>r. pi_id r = iid) (\<lambda>r. f r\<lparr>pi_updated := now\<rparr>) (publish_intents d)\<rparr>"

section \<open>The ledger of transfer nonces\<close>

text \<open>The same contract as the table of the Manager, \<open>nonce_ledger\<close>, with the model's own operation.\<close>

definition transfer_nonce_live :: "bff_db \<Rightarrow> string \<Rightarrow> int \<Rightarrow> bool" where
  "transfer_nonce_live d nonce t \<longleftrightarrow> list_ex (\<lambda>r. xn_nonce r = nonce \<and> t < xn_expires r) (transfer_nonces d)"

definition consume_transfer :: "bff_db \<Rightarrow> string \<Rightarrow> int \<Rightarrow> int \<Rightarrow> bff_db \<times> bool" where
  "consume_transfer d nonce expires now = prod.swap (consume_transfer_nonce nonce expires now d)"

interpretation transfer_ledger: nonce_ledger consume_transfer transfer_nonce_live
proof unfold_locales
  fix s n e now t t' m
  show "snd (consume_transfer s n e now) \<longleftrightarrow> \<not> transfer_nonce_live s n now"
    by (auto simp: consume_transfer_def consume_transfer_nonce_def transfer_nonce_live_def Let_def
        select_one_None set_delete_rows list_ex_iff not_le split: if_splits)
  show "snd (consume_transfer s n e now) \<Longrightarrow> t < e \<Longrightarrow> transfer_nonce_live (fst (consume_transfer s n e now)) n t"
    by (auto simp: consume_transfer_def consume_transfer_nonce_def transfer_nonce_live_def Let_def split: if_splits)
  show "transfer_nonce_live s m t \<Longrightarrow> now \<le> t \<Longrightarrow> transfer_nonce_live (fst (consume_transfer s n e now)) m t"
    by (force simp: consume_transfer_def consume_transfer_nonce_def transfer_nonce_live_def Let_def
        set_delete_rows list_ex_iff not_le split: if_splits)
  show "transfer_nonce_live s m t \<Longrightarrow> t' \<le> t \<Longrightarrow> transfer_nonce_live s m t'"
    by (force simp: transfer_nonce_live_def list_ex_iff)
qed

end
