(* ===== verification/Bff_Names.thy ===== *)
theory Bff_Names
  imports File_System Bff_Database
begin

text \<open>
  The names that the Agent BFF makes and accepts: the candidates for publishing in an answer
  (\<open>src/src/sandbox_api/artifact_refs.py\<close>), the path of a candidate in a request
  (\<open>_candidate_relative\<close> of \<open>router.py\<close>), and the file names of a checkout (\<open>_safe_name\<close> and \<open>_unique_name\<close> of
  \<open>workspace.py\<close>), with the bearer check of \<open>src/src/sandbox_api/auth.py\<close>.
\<close>

section \<open>Candidates in a text\<close>

definition uri_char :: "char \<Rightarrow> bool" where
  "uri_char c \<longleftrightarrow> \<not> is_space c \<and> c \<notin> {CHR ''<'', CHR ''>'', dquote, squote, CHR '']''}"

definition outputs_uri :: string where
  "outputs_uri = ''sandbox:/workspace/outputs/''"

text \<open>
  A match of \<open>_SANDBOX_URI\<close> at the start of a text: both groups and what follows. The classes of the two groups
  are runs: the first cannot contain the slash that has to follow it, so that there is nothing to backtrack to.
\<close>

definition match_uri :: "string \<Rightarrow> (string \<times> string \<times> string) option" where
  "match_uri s =
     (if starts_with outputs_uri s then
        let r = removeprefix outputs_uri s; message = takeWhile is_word_dash r; after = dropWhile is_word_dash r
        in if valid_message_id message \<and> after \<noteq> [] \<and> hd after = CHR ''/'' \<and> takeWhile uri_char (tl after) \<noteq> []
           then Some (message, takeWhile uri_char (tl after), dropWhile uri_char (tl after)) else None
      else None)"

lemma match_uri_shorter: "match_uri s = Some (m, p, rest) \<Longrightarrow> length rest < length s"
proof -
  assume "match_uri s = Some (m, p, rest)"
  then obtain r where r: "s = outputs_uri @ r" "rest = dropWhile uri_char (tl (dropWhile is_word_dash r))"
    by (auto simp: match_uri_def Let_def starts_with_iff split: if_splits)
  have "length rest \<le> length (tl (dropWhile is_word_dash r))" unfolding r(2) by (rule length_dropWhile_le)
  also have "\<dots> \<le> length (dropWhile is_word_dash r)" by simp
  also have "\<dots> \<le> length r" by (rule length_dropWhile_le)
  finally show ?thesis using r(1) by (simp add: outputs_uri_def)
qed

text \<open>\<open>finditer\<close>: the leftmost matches that do not overlap.\<close>

function uri_matches :: "string \<Rightarrow> (string \<times> string) list" where
  "uri_matches [] = []"
| "uri_matches (c # s) =
     (case match_uri (c # s) of
        Some (m, p, rest) \<Rightarrow> (m, p) # uri_matches rest
      | None \<Rightarrow> uri_matches s)"
  by pat_completeness auto
termination
  by (relation "measure length") (auto dest: match_uri_shorter)

definition plain_parts :: "string \<Rightarrow> bool" where
  "plain_parts s \<longleftrightarrow> list_all (\<lambda>p. p \<notin> {[], ''.'', ''..''}) (split_on CHR ''/'' s)"

fun pick_candidates :: "string \<Rightarrow> string list \<Rightarrow> (string \<times> string) list \<Rightarrow> string list" where
  "pick_candidates message seen [] = []"
| "pick_candidates message seen ((m, p) # ms) =
     (if m \<noteq> message then pick_candidates message seen ms
      else let relative = rstrip (\<lambda>c. c \<in> set ''.,;:!?)}'') p
           in if relative \<noteq> [] \<and> \<not> starts_with ''/'' relative \<and> plain_parts relative \<and> relative \<notin> set seen
              then relative # pick_candidates message (relative # seen) ms
              else pick_candidates message seen ms)"

definition sandbox_candidates :: "string \<Rightarrow> string \<Rightarrow> string list" where
  "sandbox_candidates txt message = pick_candidates message [] (uri_matches txt)"

definition candidate_relative :: "string \<Rightarrow> string \<Rightarrow> bff_error + string" where
  "candidate_relative value message =
     (case find (\<lambda>p. starts_with p value)
         [outputs_uri @ message @ ''/'', ''/workspace/outputs/'' @ message @ ''/'',
          ''outputs/'' @ message @ ''/''] of
        None \<Rightarrow> Inl (HttpError 422 ''Candidate path is outside the current output directory'')
      | Some p \<Rightarrow>
          let relative = removeprefix p value
          in require (relative \<noteq> [] \<and> plain_parts relative) (HttpError 422 ''Candidate path is invalid'') (Inr relative))"

section \<open>Names of attached files\<close>

definition is_name_char :: "char \<Rightarrow> bool" where
  "is_name_char c \<longleftrightarrow> is_digit c \<or> is_upper c \<or> is_lower c \<or> c \<in> {CHR ''.'', CHR ''_'', CHR ''-''}"

text \<open>The argument is \<open>str(value or "file")\<close>.\<close>

definition safe_name :: "string \<Rightarrow> string" where
  "safe_name value =
     (let normalized = strip_chars (\<lambda>c. c \<in> {CHR ''.'', CHR ''_''})
            (map (\<lambda>c. if is_name_char c then c else CHR ''_'') (path_name value))
      in take 160 (if normalized = [] then ''file'' else normalized))"

text \<open>\<open>Path(name).suffix\<close> and \<open>Path(name).stem\<close> of a name without a slash.\<close>

definition name_suffix :: "string \<Rightarrow> string" where
  "name_suffix s =
     (let after = rev (takeWhile (\<lambda>c. c \<noteq> CHR ''.'') (rev s))
      in if after \<noteq> [] \<and> length after + 1 < length s then CHR ''.'' # after else [])"

definition name_stem :: "string \<Rightarrow> string" where
  "name_stem s = take (length s - length (name_suffix s)) s"

text \<open>The loop of \<open>_unique_name\<close>, which has no bound of its own.\<close>

partial_function (option) unique_from :: "string \<Rightarrow> string \<Rightarrow> string list \<Rightarrow> nat \<Rightarrow> string \<Rightarrow> string option" where
  "unique_from stem suf used index name =
     (if name \<in> set used
      then unique_from stem suf used (index + 1) (stem @ ''-'' @ show_nat index @ suf)
      else Some name)"

declare unique_from.simps [code]

definition unique_name :: "string \<Rightarrow> string list \<Rightarrow> string option" where
  "unique_name s used = unique_from (name_stem s) (name_suffix s) used 2 s"

text \<open>The names of a checkout: each file in turn, against the names before it.\<close>

fun checkout_names :: "string list \<Rightarrow> string list \<Rightarrow> string list option" where
  "checkout_names used [] = Some []"
| "checkout_names used (v # vs) =
     Option.bind (unique_name (safe_name v) used) (\<lambda>n.
     Option.bind (checkout_names (n # used) vs) (\<lambda>ns. Some (n # ns)))"

section \<open>Bearer tokens\<close>

definition valid_bearer :: "string option \<Rightarrow> string \<Rightarrow> bool" where
  "valid_bearer authorization expected =
     (case authorization of
        None \<Rightarrow> False
      | Some a \<Rightarrow> starts_with ''Bearer '' a \<and> removeprefix ''Bearer '' a = expected)"

section \<open>Candidates are plain\<close>

lemma pick_candidates_plain:
  "p \<in> set (pick_candidates message seen ms) \<Longrightarrow> p \<noteq> [] \<and> \<not> starts_with ''/'' p \<and> plain_parts p \<and> p \<notin> set seen"
  by (induction message seen ms rule: pick_candidates.induct) (auto simp: Let_def split: if_splits)

lemma distinct_pick_candidates: "distinct (pick_candidates message seen ms)"
  by (induction message seen ms rule: pick_candidates.induct) (auto simp: Let_def dest: pick_candidates_plain)

lemma sandbox_candidates_plain:
  assumes "p \<in> set (sandbox_candidates txt message)"
  shows "p \<noteq> [] \<and> plain_parts p"
  using assms pick_candidates_plain unfolding sandbox_candidates_def by blast

lemma candidate_relative_plain: "candidate_relative v message = Inr p \<Longrightarrow> p \<noteq> [] \<and> plain_parts p"
  by (auto simp: candidate_relative_def Let_def result_iffs split: option.splits)

section \<open>Names are distinct and plain\<close>

lemma show_nat_digits: "set (show_nat n) \<subseteq> {c. is_digit c} \<and> show_nat n \<noteq> []"
proof (induction n rule: show_nat.induct)
  case (1 n)
  have digit: "is_digit (char_of (48 + k))" if "k < 10" for k :: nat
    using that by (simp add: is_digit_def of_char_of)
  show ?case by (subst show_nat.simps, subst show_nat.simps) (use 1 digit [of n] digit [of "n mod 10"] in auto)
qed

definition digits_number :: "string \<Rightarrow> nat" where
  "digits_number s = foldl (\<lambda>v c. 10 * v + (of_char c - 48)) 0 s"

lemma digits_number_show: "digits_number (show_nat n) = n"
proof (induction n rule: show_nat.induct)
  case (1 n)
  have digit: "of_char (char_of (48 + k) :: char) - 48 = k" if "k < 10" for k :: nat
    using that by (simp add: of_char_of)
  show ?case
    by (subst show_nat.simps) (use 1 digit [of n] digit [of "n mod 10"] in \<open>auto simp: digits_number_def\<close>)
qed

lemma show_nat_inj: "show_nat a = show_nat b \<Longrightarrow> a = b"
  by (metis digits_number_show)

lemma show_nat_length:
  assumes "n < 100"
  shows "length (show_nat n) \<le> 2"
proof -
  have "n div 10 < 10" using assms by auto
  then show ?thesis by (subst show_nat.simps, subst show_nat.simps) simp
qed

lemma name_parts: "name_stem s @ name_suffix s = s"
proof (cases "name_suffix s = []")
  case False
  define t where "t = takeWhile (\<lambda>c. c \<noteq> CHR ''.'') (rev s)"
  have suf: "name_suffix s = CHR ''.'' # rev t" "length (rev t) + 1 < length s"
    using False by (auto simp: name_suffix_def Let_def t_def split: if_splits)
  have "dropWhile (\<lambda>c. c \<noteq> CHR ''.'') (rev s) \<noteq> []"
  proof
    assume "dropWhile (\<lambda>c. c \<noteq> CHR ''.'') (rev s) = []"
    then have "t = rev s" unfolding t_def by (metis append_Nil2 takeWhile_dropWhile_id)
    then show False using suf(2) by simp
  qed
  then obtain c u where u: "dropWhile (\<lambda>c. c \<noteq> CHR ''.'') (rev s) = c # u" by (cases "dropWhile (\<lambda>c. c \<noteq> CHR ''.'') (rev s)") auto
  then have "c = CHR ''.''" using hd_dropWhile [of "\<lambda>c. c \<noteq> CHR ''.''" "rev s"] by simp
  then have "rev s = t @ CHR ''.'' # u" using u takeWhile_dropWhile_id [of "\<lambda>c. c \<noteq> CHR ''.''" "rev s"] by (simp add: t_def)
  then have "rev (rev s) = rev (t @ CHR ''.'' # u)" by (rule arg_cong)
  then have "s = rev u @ CHR ''.'' # rev t" by simp
  then show ?thesis unfolding name_stem_def suf(1) by simp
qed (simp add: name_stem_def)

text \<open>Of the names with the next numbers, one more than are used, one is free; the loop finds the first.\<close>

lemma unique_from_finds:
  assumes "stem @ ''-'' @ show_nat (i + k) @ suf \<notin> set used"
  shows "\<exists>c. unique_from stem suf used i c0 = Some c \<and> c \<notin> set used
    \<and> (c = c0 \<or> (\<exists>j. i \<le> j \<and> j \<le> i + k \<and> c = stem @ ''-'' @ show_nat j @ suf))"
  using assms
proof (induction k arbitrary: i c0)
  case 0
  then show ?case by (cases "c0 \<in> set used") (auto simp: unique_from.simps [of stem suf used i c0] unique_from.simps [of stem suf used "Suc i"])
next
  case (Suc k)
  show ?case
  proof (cases "c0 \<in> set used")
    case True
    have "stem @ ''-'' @ show_nat (Suc i + k) @ suf \<notin> set used" using Suc.prems by simp
    from Suc.IH [OF this, of "stem @ ''-'' @ show_nat i @ suf"] show ?thesis
      using True by (subst unique_from.simps) (auto, (metis Suc_leD add_Suc le_add1 le_refl add_Suc_right)+)
  qed (simp add: unique_from.simps)
qed

lemma unique_name_found:
  "\<exists>c. unique_name s used = Some c \<and> c \<notin> set used
    \<and> (c = s \<or> (\<exists>j. 2 \<le> j \<and> j \<le> 2 + length used \<and> c = name_stem s @ ''-'' @ show_nat j @ name_suffix s))"
proof -
  let ?name = "\<lambda>j. name_stem s @ ''-'' @ show_nat j @ name_suffix s"
  have "inj_on ?name {2..2 + length used}" by (auto intro!: inj_onI dest: show_nat_inj)
  then have "card (?name ` {2..2 + length used}) = Suc (length used)" by (simp add: card_image)
  then have "\<not> ?name ` {2..2 + length used} \<subseteq> set used"
    using card_mono [OF List.finite_set, of "?name ` {2..2 + length used}" used] card_length [of used] by (metis not_less_eq_eq order_trans)
  then obtain j where "j \<in> {2..2 + length used}" "?name j \<notin> set used" by blast
  then have j: "2 \<le> j" "j \<le> 2 + length used" "?name j \<notin> set used" by simp_all
  then obtain k where "j = 2 + k" by (metis le_Suc_ex)
  with j(3) have "?name (2 + k) \<notin> set used" by simp
  from unique_from_finds [OF this, of s] obtain c where c: "unique_name s used = Some c" "c \<notin> set used"
      "c = s \<or> (\<exists>i. 2 \<le> i \<and> i \<le> 2 + k \<and> c = ?name i)"
    unfolding unique_name_def by blast
  then show ?thesis using \<open>j = 2 + k\<close> j(2) by fastforce
qed

definition name_ok :: "string \<Rightarrow> bool" where
  "name_ok s \<longleftrightarrow> s \<noteq> [] \<and> hd s \<noteq> CHR ''.'' \<and> list_all is_name_char s"

lemma strip_chars_hd: "strip_chars p s \<noteq> [] \<Longrightarrow> \<not> p (hd (strip_chars p s))"
proof -
  assume ne: "strip_chars p s \<noteq> []"
  obtain t where t: "dropWhile p s = strip_chars p s @ t"
    using rstrip_prefix [of "lstrip p s" p] by (auto simp: strip_chars_def lstrip_def)
  with ne have "hd (strip_chars p s) = hd (dropWhile p s)" "dropWhile p s \<noteq> []" by (metis hd_append2, auto)
  then show ?thesis using hd_dropWhile [of p s] by simp
qed

lemma strip_chars_set: "set (strip_chars p s) \<subseteq> set s"
  using rstrip_set lstrip_set unfolding strip_chars_def by fastforce

lemma safe_name_ok: "name_ok (safe_name v) \<and> length (safe_name v) \<le> 160"
proof -
  define m where "m = map (\<lambda>c. if is_name_char c then c else CHR ''_'') (path_name v)"
  define n where "n = strip_chars (\<lambda>c. c \<in> {CHR ''.'', CHR ''_''}) m"
  have chars: "list_all is_name_char n"
    using strip_chars_set [of "\<lambda>c. c \<in> {CHR ''.'', CHR ''_''}" m]
    by (force simp: n_def list_all_iff m_def is_name_char_def)
  have name: "safe_name v = take 160 (if n = [] then ''file'' else n)" by (simp add: safe_name_def n_def m_def)
  show ?thesis
  proof (cases "n = []")
    case True
    then show ?thesis
      unfolding name by (simp add: name_ok_def is_name_char_def is_digit_def is_upper_def is_lower_def)
  next
    case False
    then have "hd n \<noteq> CHR ''.''" using strip_chars_hd [of "\<lambda>c. c \<in> {CHR ''.'', CHR ''_''}" m] by (auto simp: n_def)
    then show ?thesis
      using False chars unfolding name by (auto simp: name_ok_def list_all_iff hd_take dest: in_set_takeD)
  qed
qed

lemma numbered_name_ok:
  assumes "name_ok s"
  shows "name_ok (name_stem s @ ''-'' @ show_nat j @ name_suffix s)"
proof -
  have s: "name_stem s @ name_suffix s = s" by (rule name_parts)
  have chars: "list_all is_name_char (name_stem s)" "list_all is_name_char (name_suffix s)"
    using assms arg_cong [OF s, of "list_all is_name_char"] by (auto simp: name_ok_def)
  have digits: "list_all is_name_char (show_nat j)"
    using show_nat_digits [of j] by (auto simp: list_all_iff is_name_char_def)
  have "name_suffix s = [] \<or> name_stem s \<noteq> []"
    by (auto simp: name_stem_def name_suffix_def Let_def)
  then have "hd (name_stem s @ ''-'' @ show_nat j @ name_suffix s) \<noteq> CHR ''.''"
    using assms s by (cases "name_stem s") (simp_all add: name_ok_def, metis list.sel(1))
  then show ?thesis using chars digits by (simp add: name_ok_def is_name_char_def)
qed

lemma checkout_names_found:
  "\<exists>ns. checkout_names used vs = Some ns \<and> length ns = length vs \<and> distinct ns \<and> set ns \<inter> set used = {}
    \<and> (\<forall>n\<in>set ns. name_ok n \<and> (length used + length vs < 98 \<longrightarrow> length n \<le> 163))"
proof (induction vs arbitrary: used)
  case (Cons v vs)
  obtain c where c: "unique_name (safe_name v) used = Some c" "c \<notin> set used"
      "c = safe_name v \<or> (\<exists>j. 2 \<le> j \<and> j \<le> 2 + length used
        \<and> c = name_stem (safe_name v) @ ''-'' @ show_nat j @ name_suffix (safe_name v))"
    using unique_name_found by blast
  obtain ns where ns: "checkout_names (c # used) vs = Some ns" "length ns = length vs" "distinct ns"
      "set ns \<inter> set (c # used) = {}"
      "\<forall>n\<in>set ns. name_ok n \<and> (length (c # used) + length vs < 98 \<longrightarrow> length n \<le> 163)"
    using Cons.IH by blast
  have ok: "name_ok c" using c(3) safe_name_ok [of v] numbered_name_ok by auto
  have len: "length c \<le> 163" if "length used + length (v # vs) < 98"
    using c(3)
  proof (elim disjE exE conjE)
    fix j assume j: "2 \<le> j" "j \<le> 2 + length used" and eq: "c = name_stem (safe_name v) @ ''-'' @ show_nat j @ name_suffix (safe_name v)"
    have "length (name_stem (safe_name v)) + length (name_suffix (safe_name v)) \<le> 160"
      using safe_name_ok [of v] arg_cong [OF name_parts [of "safe_name v"], of length] by simp
    then show ?thesis using show_nat_length [of j] j that by (simp add: eq)
  qed (use safe_name_ok [of v] in simp)
  show ?case using c(1,2) ns ok len by auto
qed simp

end
