(* ===== verification/Bff_Settings.thy ===== *)
theory Bff_Settings
  imports Bff_Database Urls
begin

text \<open>
  The settings of the Agent BFF, \<open>src/deploy/open-webui/agent_open_webui/settings.py\<close>, and the grants that it signs
  with them, \<open>_grant\<close> of \<open>workspace.py\<close>.
\<close>

record bridge_settings =
  br_enabled :: bool
  br_adapter_url :: string
  br_adapter_key :: string
  br_secret :: string
  br_artifact_url :: string
  br_artifact_key :: string
  br_grant_ttl :: int
  br_terminal_ttl :: int
  br_max_file :: int
  br_reconcile :: int
  br_retry_limit :: int

definition env_or :: "(string \<Rightarrow> string option) \<Rightarrow> string \<Rightarrow> string \<Rightarrow> string" where
  "env_or env name other = (case env name of None \<Rightarrow> other | Some v \<Rightarrow> v)"

definition env_int :: "(string \<Rightarrow> string option) \<Rightarrow> string \<Rightarrow> string \<Rightarrow> bff_error + int" where
  "env_int env name other = (case py_int (env_or env name other) of None \<Rightarrow> Inl (Uncaught ''ValueError'') | Some i \<Rightarrow> Inr i)"

definition no_slash :: "string \<Rightarrow> string" where
  "no_slash s = rstrip (\<lambda>c. c = CHR ''/'') s"

definition settings_read :: "(string \<Rightarrow> string option) \<Rightarrow> bff_error + bridge_settings" where
  "settings_read env =
     rbind (env_int env ''AGENT_GRANT_TTL_SECONDS'' ''120'') (\<lambda>ttl.
     rbind (env_int env ''AGENT_TERMINAL_GRANT_TTL_SECONDS'' ''7200'') (\<lambda>terminal.
     rbind (env_int env ''AGENT_MAX_FILE_BYTES'' (show_nat (1024 ^ 3))) (\<lambda>limit.
     rbind (env_int env ''AGENT_PUBLISH_RECONCILE_SECONDS'' ''15'') (\<lambda>reconcile.
     rbind (env_int env ''AGENT_PUBLISH_RETRY_LIMIT'' ''8'') (\<lambda>retries.
     Inr \<lparr>br_enabled = lower (env_or env ''AGENT_WORKSPACE_ENABLED'' ''false'') = ''true'',
          br_adapter_url = no_slash (env_or env ''AGENT_ADAPTER_BASE_URL'' ''http://adapter:8090''),
          br_adapter_key = env_or env ''AGENT_ADAPTER_API_KEY'' [],
          br_secret = env_or env ''AGENT_OPERATION_SIGNING_SECRET'' [],
          br_artifact_url = no_slash (env_or env ''AGENT_ARTIFACT_BASE_URL'' ''http://artifact-service:8093''),
          br_artifact_key = env_or env ''AGENT_ARTIFACT_API_KEY'' [],
          br_grant_ttl = ttl, br_terminal_ttl = terminal, br_max_file = limit, br_reconcile = reconcile,
          br_retry_limit = retries\<rparr>)))))"

definition long_enough :: "string \<Rightarrow> string \<Rightarrow> bff_error + unit" where
  "long_enough name value = require (32 \<le> length value) (Uncaught (name @ '' must contain at least 32 characters'')) (Inr ())"

definition absolute_url :: "(string \<Rightarrow> bool) \<Rightarrow> string \<Rightarrow> string \<Rightarrow> bff_error + unit" where
  "absolute_url bracket name value =
     (case is_http_url bracket value of
        None \<Rightarrow> Inl (Uncaught ''ValueError'')
      | Some http \<Rightarrow> require http (Uncaught (name @ '' must be an absolute HTTP(S) URL'')) (Inr ()))"

definition in_bounds :: "int \<Rightarrow> int \<Rightarrow> string \<Rightarrow> string \<Rightarrow> int \<Rightarrow> bff_error + unit" where
  "in_bounds a b bounds name value = require (a \<le> value \<and> value \<le> b) (Uncaught (name @ '' must be '' @ bounds)) (Inr ())"

definition settings_from_env :: "(string \<Rightarrow> bool) \<Rightarrow> (string \<Rightarrow> string option) \<Rightarrow> bff_error + bridge_settings" where
  "settings_from_env bracket env =
     rbind (settings_read env) (\<lambda>x.
     if \<not> br_enabled x then Inr x
     else
       rbind (long_enough ''AGENT_ADAPTER_API_KEY'' (br_adapter_key x)) (\<lambda>u.
       rbind (long_enough ''AGENT_OPERATION_SIGNING_SECRET'' (br_secret x)) (\<lambda>u.
       rbind (long_enough ''AGENT_ARTIFACT_API_KEY'' (br_artifact_key x)) (\<lambda>u.
       rbind (absolute_url bracket ''AGENT_ADAPTER_BASE_URL'' (br_adapter_url x)) (\<lambda>u.
       rbind (absolute_url bracket ''AGENT_ARTIFACT_BASE_URL'' (br_artifact_url x)) (\<lambda>u.
       rbind (in_bounds 30 900 ''between 30 and 900'' ''AGENT_GRANT_TTL_SECONDS'' (br_grant_ttl x)) (\<lambda>u.
       rbind (in_bounds 900 86400 ''between 900 and 86400'' ''AGENT_TERMINAL_GRANT_TTL_SECONDS'' (br_terminal_ttl x)) (\<lambda>u.
       rbind (require (0 < br_max_file x) (Uncaught ''AGENT_MAX_FILE_BYTES must be positive'') (Inr ())) (\<lambda>u.
       rbind (in_bounds 5 300 ''between 5 and 300'' ''AGENT_PUBLISH_RECONCILE_SECONDS'' (br_reconcile x)) (\<lambda>u.
       rbind (in_bounds 1 32 ''between 1 and 32'' ''AGENT_PUBLISH_RETRY_LIMIT'' (br_retry_limit x)) (\<lambda>u.
       Inr x)))))))))))"

text \<open>What the model of the BFF is given: the settings, the codec and the digest, and \<open>str\<close> of a value that is no text.\<close>

record bff_cfg =
  bf_settings :: bridge_settings
  bf_env :: grant_env
  bf_str :: "json \<Rightarrow> string"

definition text_of :: "bff_cfg \<Rightarrow> json \<Rightarrow> string" where
  "text_of cfg v = (case v of JStr s \<Rightarrow> s | _ \<Rightarrow> bf_str cfg v)"

definition bff_grant :: "bff_cfg \<Rightarrow> string \<Rightarrow> string \<Rightarrow> int \<Rightarrow> obj \<Rightarrow> int \<Rightarrow> string \<Rightarrow> string" where
  "bff_grant cfg operation audience ttl claims now fresh =
     issue_grant (bf_env cfg) (br_secret (bf_settings cfg)) ''open-webui-bff'' audience operation ttl now fresh claims"

text \<open>\<open>json.loads\<close> of a text of the database.\<close>

definition loads :: "bff_cfg \<Rightarrow> string \<Rightarrow> bff_error + json" where
  "loads cfg s = (case json_loads (bf_env cfg) (utf8 s) of None \<Rightarrow> Inl (Uncaught ''JSONDecodeError'') | Some v \<Rightarrow> Inr v)"

definition loads_object :: "bff_cfg \<Rightarrow> string \<Rightarrow> bff_error + obj" where
  "loads_object cfg s =
     rbind (loads cfg s) (\<lambda>v. case as_obj v of None \<Rightarrow> Inl (Uncaught ''AttributeError'') | Some d \<Rightarrow> Inr d)"

lemma settings_bounds:
  assumes "settings_from_env bracket env = Inr x" and "br_enabled x"
  shows "30 \<le> br_grant_ttl x \<and> br_grant_ttl x \<le> 900 \<and> 900 \<le> br_terminal_ttl x \<and> br_terminal_ttl x \<le> 86400
    \<and> 0 < br_max_file x \<and> 5 \<le> br_reconcile x \<and> br_reconcile x \<le> 300 \<and> 1 \<le> br_retry_limit x \<and> br_retry_limit x \<le> 32
    \<and> 32 \<le> length (br_secret x) \<and> 32 \<le> length (br_adapter_key x) \<and> 32 \<le> length (br_artifact_key x)"
  using assms by (auto simp: settings_from_env_def result_iffs in_bounds_def long_enough_def split: if_splits)

end
