(* ===== verification/Bff_Workspace.thy ===== *)
theory Bff_Workspace
  imports Bff_Names Bff_Settings Programs
begin

text \<open>
  The coroutines of the Agent BFF, \<open>src/deploy/open-webui/agent_open_webui/workspace.py\<close>: the grants of a request, the
  Workspace of a chat, the terminal event of a response, and the life of a publish intent.

  A transaction on the tables is one atomic step after an await; it may fail before it, or be committed and fail
  afterwards. Open WebUI's own chats, users and files, the Responses adapter and the Artifact service are answered
  by the world. The clock and fresh identifiers are drawn by an await of their own, which only adds interleavings.
  An \<open>asyncio\<close> lock is a name in \<open>bs_locks\<close>: a program that is resumed while the lock is held goes no further. The
  polling loops take a fuel.
\<close>

section \<open>Calls\<close>

record bff_user =
  us_id :: string
  us_role :: string

datatype bff_call =
    Database
  | Entropy
  | LoopTime
  | Sleep
  | AcquireLock string
  | GetChat string string
  | GetMessage string string
  | GetUser string
  | GetFile string
  | HasAccess string string
  | UpsertMessage string string "json list"
  | EmitFiles string string string json
  | WaitIntent string
  | AdapterCall string string "obj option"
  | ArtifactCall string string "obj option"

text \<open>
  \<open>Turn\<close>: a transaction is committed, at this time and with this fresh identifier; \<open>LostTurn\<close>: it is committed, but the
  call raises. \<open>Answered\<close>: the status of an HTTP answer and its JSON; \<open>TransportError\<close>: an \<open>httpx.HTTPError\<close>.
\<close>

datatype bff_reply =
    Turn int string
  | LostTurn int string
  | Seconds rat
  | Acknowledged
  | ChatOwner "string option"
  | MessageRow "obj option"
  | UserRow "bff_user option"
  | FileRow "(string \<times> string) option"
  | Verdict bool
  | Answered int "json option"
  | TransportError

record bff =
  bs_db :: bff_db
  bs_ready :: bool
  bs_locks :: "string list"
  bs_tasks :: "string list"

type_synonym 'a bff_io = "(bff_error, bff_call, bff_reply, bff, 'a) prog"

abbreviation http_fail :: "int \<Rightarrow> string \<Rightarrow> 'a bff_io" where
  "http_fail code detail \<equiv> Raise (HttpError code detail)"

definition call_io :: "bff_call \<Rightarrow> (bff_reply \<Rightarrow> 'a option) \<Rightarrow> 'a bff_io" where
  "call_io c f = Await c (\<lambda>r. case r of
     Inl e \<Rightarrow> Raise e
   | Inr x \<Rightarrow> (case f x of Some a \<Rightarrow> Done a | None \<Rightarrow> Raise (Uncaught ''unexpected answer'')))"

definition step_db :: "(bff_db \<Rightarrow> bff_error + 'a \<times> bff_db) \<Rightarrow> ('a \<Rightarrow> 'b bff_io) \<Rightarrow> 'b bff_io" where
  "step_db f k = ReadState (\<lambda>s. case f (bs_db s) of
     Inl e \<Rightarrow> Raise e
   | Inr (a, d) \<Rightarrow> WriteState (\<lambda>t. t\<lparr>bs_db := d\<rparr>) (k a))"

definition transact :: "(int \<Rightarrow> string \<Rightarrow> bff_db \<Rightarrow> bff_error + 'a \<times> bff_db) \<Rightarrow> 'a bff_io" where
  "transact f = Await Database (\<lambda>r. case r of
     Inl e \<Rightarrow> Raise e
   | Inr (Turn now fresh) \<Rightarrow> step_db (f now fresh) Done
   | Inr (LostTurn now fresh) \<Rightarrow> step_db (f now fresh) (\<lambda>a. Raise (Uncaught ''OperationalError''))
   | Inr x \<Rightarrow> Raise (Uncaught ''unexpected answer''))"

definition query :: "(bff_db \<Rightarrow> 'a) \<Rightarrow> 'a bff_io" where
  "query f = transact (\<lambda>now fresh d. Inr (f d, d))"

definition store_db :: "(int \<Rightarrow> string \<Rightarrow> bff_db \<Rightarrow> bff_db) \<Rightarrow> unit bff_io" where
  "store_db f = transact (\<lambda>now fresh d. Inr ((), f now fresh d))"

fun turn_of :: "bff_reply \<Rightarrow> (int \<times> string) option" where
  "turn_of (Turn now fresh) = Some (now, fresh)" | "turn_of _ = None"

fun seconds_of :: "bff_reply \<Rightarrow> rat option" where
  "seconds_of (Seconds t) = Some t" | "seconds_of _ = None"

fun done_of :: "bff_reply \<Rightarrow> unit option" where
  "done_of x = Some ()"

fun chat_of :: "bff_reply \<Rightarrow> string option option" where
  "chat_of (ChatOwner c) = Some c" | "chat_of _ = None"

fun message_row_of :: "bff_reply \<Rightarrow> obj option option" where
  "message_row_of (MessageRow m) = Some m" | "message_row_of _ = None"

fun user_of :: "bff_reply \<Rightarrow> bff_user option option" where
  "user_of (UserRow u) = Some u" | "user_of _ = None"

fun file_of :: "bff_reply \<Rightarrow> (string \<times> string) option option" where
  "file_of (FileRow f) = Some f" | "file_of _ = None"

fun verdict_of :: "bff_reply \<Rightarrow> bool option" where
  "verdict_of (Verdict b) = Some b" | "verdict_of _ = None"

definition draw :: "(int \<times> string) bff_io" where
  "draw = call_io Entropy turn_of"

definition loop_time :: "rat bff_io" where
  "loop_time = call_io LoopTime seconds_of"

definition sleep_io :: "unit bff_io" where
  "sleep_io = call_io Sleep done_of"

definition holding :: "string \<Rightarrow> 'a bff_io \<Rightarrow> 'a bff_io" where
  "holding k p =
     bind_io (call_io (AcquireLock k) done_of) (\<lambda>u.
     ReadState (\<lambda>s.
       if k \<in> set (bs_locks s) then Stuck
       else WriteState (\<lambda>t. t\<lparr>bs_locks := k # bs_locks t\<rparr>)
         (finally_io p (WriteState (\<lambda>t. t\<lparr>bs_locks := remove1 k (bs_locks t)\<rparr>) (Done ())))))"

definition chat_lock :: "string \<Rightarrow> string" where
  "chat_lock chat = ''chat:'' @ chat"

definition intent_lock :: "string \<Rightarrow> string" where
  "intent_lock iid = ''intent:'' @ iid"

section \<open>Requests to the adapter and the Artifact service\<close>

text \<open>\<open>_adapter_request\<close> and \<open>_artifact_request\<close> differ in the address, the key and the wording of their errors.\<close>

definition json_request :: "bff_call \<Rightarrow> string \<Rightarrow> string \<Rightarrow> obj bff_io" where
  "json_request c bridge service =
     ReadState (\<lambda>s.
       if \<not> bs_ready s then http_fail 503 (bridge @ '' bridge is not ready'')
       else Await c (\<lambda>r. case r of
          Inl e \<Rightarrow> Raise e
        | Inr TransportError \<Rightarrow> http_fail 502 (service @ '' is unavailable'')
        | Inr (Answered status body) \<Rightarrow>
            if 400 \<le> status then http_fail 502 (service @ '' rejected the request'')
            else (case body of
                None \<Rightarrow> Raise (Uncaught ''JSONDecodeError'')
              | Some (JObj d) \<Rightarrow> Done d
              | Some v \<Rightarrow> http_fail 502 (service @ '' returned invalid data''))
        | Inr x \<Rightarrow> Raise (Uncaught ''unexpected answer'')))"

definition adapter_request :: "string \<Rightarrow> string \<Rightarrow> obj option \<Rightarrow> obj bff_io" where
  "adapter_request meth path body = json_request (AdapterCall meth path body) ''Workspace'' ''Workspace control''"

definition artifact_request :: "string \<Rightarrow> string \<Rightarrow> obj option \<Rightarrow> obj bff_io" where
  "artifact_request meth path body = json_request (ArtifactCall meth path body) ''Artifact'' ''Artifact Service''"

definition grant_io :: "bff_cfg \<Rightarrow> string \<Rightarrow> obj \<Rightarrow> string bff_io" where
  "grant_io cfg operation claims =
     bind_io draw (\<lambda>(now, fresh).
     Done (bff_grant cfg operation ''sandbox-manager'' (br_grant_ttl (bf_settings cfg)) claims now fresh))"

definition terminal_grant :: "bff_cfg \<Rightarrow> obj \<Rightarrow> string bff_io" where
  "terminal_grant cfg claims =
     bind_io draw (\<lambda>(now, fresh).
     Done (bff_grant cfg ''response_terminal'' ''open-webui-transfer'' (br_terminal_ttl (bf_settings cfg)) claims now fresh))"

definition item_of_dict :: "obj \<Rightarrow> string \<Rightarrow> json bff_io" where
  "item_of_dict d k = lift_result (column_any d k)"

section \<open>Chats and messages\<close>

definition require_chat_write :: "string \<Rightarrow> bff_user \<Rightarrow> unit bff_io" where
  "require_chat_write chat user =
     bind_io (call_io (GetChat chat (us_id user)) chat_of) (\<lambda>owner.
     case owner of
       None \<Rightarrow> http_fail 404 ''Chat not found''
     | Some o' \<Rightarrow> guard_io (o' = us_id user \<or> us_role user = ''admin'') (HttpError 404 ''Chat not found'') (Done ()))"

definition get_message :: "string \<Rightarrow> string \<Rightarrow> obj option bff_io" where
  "get_message chat message = call_io (GetMessage chat message) message_row_of"

definition title_case :: "string \<Rightarrow> string" where
  "title_case role = (if role = ''user'' then ''User'' else if role = ''assistant'' then ''Assistant'' else role)"

text \<open>\<open>not message\<close> also holds for an empty dictionary. The roles are the two literals of the callers.\<close>

definition require_message :: "string \<Rightarrow> string \<Rightarrow> string \<Rightarrow> obj bff_io" where
  "require_message chat message role =
     bind_io (get_message chat message) (\<lambda>m.
     case m of
       None \<Rightarrow> http_fail 404 (title_case role @ '' message not found'')
     | Some d \<Rightarrow> guard_io (d \<noteq> [] \<and> jget d ''role'' = JStr role) (HttpError 404 (title_case role @ '' message not found'')) (Done d))"

definition valid_message_json :: "json \<Rightarrow> bool" where
  "valid_message_json v = (case as_str v of None \<Rightarrow> False | Some s \<Rightarrow> valid_message_id s)"

section \<open>The Workspace of a chat\<close>

definition release_bff_workspace :: "bff_cfg \<Rightarrow> string \<Rightarrow> unit bff_io" where
  "release_bff_workspace cfg wid =
     bind_io (grant_io cfg ''workspace_release'' [(''workspace_id'', JStr wid)]) (\<lambda>g.
     bind_io (adapter_request ''POST'' (''/v1/workspaces/'' @ wid @ ''/release'') (Some [(''grant'', JStr g)])) (\<lambda>d.
     Done ()))"

definition create_chat_workspace :: "bff_cfg \<Rightarrow> string \<Rightarrow> string bff_io" where
  "create_chat_workspace cfg chat =
     bind_io (query (get_chat_workspace chat)) (\<lambda>existing.
     case existing of
       Some wid \<Rightarrow> Done wid
     | None \<Rightarrow>
         bind_io draw (\<lambda>(now, fresh).
         let wid = ''workspace_'' @ fresh
         in bind_io (grant_io cfg ''workspace_create'' [(''workspace_id'', JStr wid)]) (\<lambda>g.
            bind_io (adapter_request ''POST'' ''/v1/workspaces'' (Some [(''workspace_id'', JStr wid), (''grant'', JStr g)])) (\<lambda>d.
            bind_io (transact (\<lambda>now fresh d. Inr (insert_workspace now chat wid d))) (\<lambda>inserted.
            if inserted then Done wid
            else
              bind_io (query (get_chat_workspace chat)) (\<lambda>winner.
              bind_io (release_bff_workspace cfg wid) (\<lambda>u.
              case winner of
                None \<Rightarrow> http_fail 503 ''Workspace mapping could not be created''
              | Some w \<Rightarrow> Done w)))))))"

definition ensure_chat_workspace :: "bff_cfg \<Rightarrow> string \<Rightarrow> string bff_io" where
  "ensure_chat_workspace cfg chat =
     bind_io (query (get_chat_workspace chat)) (\<lambda>existing.
     case existing of
       Some wid \<Rightarrow> Done wid
     | None \<Rightarrow> holding (chat_lock chat) (create_chat_workspace cfg chat))"

definition release_chat_workspace :: "bff_cfg \<Rightarrow> string \<Rightarrow> unit bff_io" where
  "release_chat_workspace cfg chat =
     (if \<not> br_enabled (bf_settings cfg) then Done ()
      else
        bind_io (query (get_chat_workspace chat)) (\<lambda>existing.
        case existing of
          None \<Rightarrow> Done ()
        | Some wid \<Rightarrow>
            bind_io (catch_io (bind_io (release_bff_workspace cfg wid) (\<lambda>u. Done True)) (\<lambda>e. Done False)) (\<lambda>released.
            if released then store_db (\<lambda>now fresh. delete_chat_workspace chat wid) else Done ())))"

section \<open>Publish intents\<close>

definition change_intent :: "string \<Rightarrow> (publish_intent \<Rightarrow> publish_intent) \<Rightarrow> unit bff_io" where
  "change_intent iid f = store_db (\<lambda>now fresh. update_publish_intent now iid f)"

definition schedule_intent :: "string \<Rightarrow> unit bff_io" where
  "schedule_intent iid = WriteState (\<lambda>s. if iid \<in> set (bs_tasks s) then s else s\<lparr>bs_tasks := iid # bs_tasks s\<rparr>) (Done ())"

definition clip_error :: "string \<Rightarrow> string option" where
  "clip_error s = Some (take 1000 s)"

definition retry_state :: "bff_cfg \<Rightarrow> publish_intent \<Rightarrow> bool \<Rightarrow> intent_state" where
  "retry_state cfg it binding =
     (if binding then IntentBindingRetry
      else if br_retry_limit (bf_settings cfg) \<le> pi_attempts it then IntentFailed else IntentRetryable)"

definition retry_delay :: "bff_cfg \<Rightarrow> publish_intent \<Rightarrow> int" where
  "retry_delay cfg it = min 300 (br_reconcile (bf_settings cfg) * 2 ^ nat (min (pi_attempts it) 4))"

definition retry_intent :: "bff_cfg \<Rightarrow> publish_intent \<Rightarrow> string \<Rightarrow> bool \<Rightarrow> unit bff_io" where
  "retry_intent cfg it error binding =
     bind_io draw (\<lambda>(now, fresh).
     change_intent (pi_id it) (\<lambda>r. r\<lparr>pi_state := retry_state cfg it binding, pi_next := now + retry_delay cfg it,
       pi_error := clip_error error\<rparr>))"

definition retry_capture_intent :: "bff_cfg \<Rightarrow> publish_intent \<Rightarrow> string \<Rightarrow> unit bff_io" where
  "retry_capture_intent cfg it error =
     bind_io draw (\<lambda>(now, fresh).
     change_intent (pi_id it) (\<lambda>r. r\<lparr>pi_state := IntentPending, pi_next := now + br_reconcile (bf_settings cfg),
       pi_error := clip_error error\<rparr>))"

definition fail_intent :: "publish_intent \<Rightarrow> string \<Rightarrow> unit bff_io" where
  "fail_intent it error = change_intent (pi_id it) (\<lambda>r. r\<lparr>pi_state := IntentFailed, pi_error := Some error\<rparr>)"

definition error_or :: "bff_cfg \<Rightarrow> obj \<Rightarrow> string \<Rightarrow> string" where
  "error_or cfg operation other = text_of cfg (py_or (jget operation ''error'') (JStr other))"

subsection \<open>Capture\<close>

definition publish_claims :: "bff_cfg \<Rightarrow> publish_intent \<Rightarrow> obj \<Rightarrow> obj" where
  "publish_claims cfg it target =
     [(''workspace_id'', JStr (pi_workspace it)), (''assistant_message_id'', JStr (pi_message it)),
      (''response_id'', JStr (pi_response it)), (''output_relative_path'', JStr (pi_path it))] @ target
     @ [(''max_bytes'', JInt (br_max_file (bf_settings cfg))), (''idempotency_key'', JStr (''publish:'' @ pi_id it))]"

definition publish_operation :: "bff_cfg \<Rightarrow> publish_intent \<Rightarrow> obj \<Rightarrow> obj bff_io" where
  "publish_operation cfg it target =
     bind_io (grant_io cfg ''artifact_publish'' (publish_claims cfg it target)) (\<lambda>g.
     adapter_request ''POST'' ''/v1/artifacts/publish'' (Some [(''response_id'', JStr (pi_response it)), (''grant'', JStr g)]))"

definition capture_intent :: "bff_cfg \<Rightarrow> publish_intent \<Rightarrow> unit bff_io" where
  "capture_intent cfg it =
     bind_io (publish_operation cfg it []) (\<lambda>operation.
     case as_str (jget operation ''id'') of
       None \<Rightarrow> http_fail 502 ''Publish operation has no id''
     | Some oid \<Rightarrow>
         if jget operation ''phase'' \<in> {JStr ''captured'', JStr ''uploading''}
         then change_intent (pi_id it) (\<lambda>r. r\<lparr>pi_operation := Some oid, pi_state := IntentCaptured, pi_error := None\<rparr>)
         else
           bind_io (change_intent (pi_id it) (\<lambda>r. r\<lparr>pi_operation := Some oid\<rparr>)) (\<lambda>u.
           if jget operation ''status'' = JStr ''failed''
           then fail_intent it (take 1000 (error_or cfg operation ''Artifact capture failed''))
           else Done ()))"

subsection \<open>Upload\<close>

fun wait_publish_operation :: "nat \<Rightarrow> string \<Rightarrow> rat \<Rightarrow> obj bff_io" where
  "wait_publish_operation 0 oid deadline = Stuck"
| "wait_publish_operation (Suc fuel) oid deadline =
     bind_io (adapter_request ''GET'' (''/v1/artifacts/operations/'' @ oid) None) (\<lambda>operation.
     if jget operation ''status'' \<notin> {JStr ''pending'', JStr ''running''} then Done operation
     else
       bind_io loop_time (\<lambda>t.
       if deadline \<le> t then http_fail 504 ''Artifact upload timed out''
       else bind_io sleep_io (\<lambda>u. wait_publish_operation fuel oid deadline)))"

definition await_publish :: "nat \<Rightarrow> string \<Rightarrow> obj bff_io" where
  "await_publish fuel oid = bind_io loop_time (\<lambda>t. wait_publish_operation fuel oid (t + 3600))"

text \<open>\<open>any(item.get("id") == artifact_id for item in files)\<close>, where an item that is no dictionary raises.\<close>

fun has_file :: "string \<Rightarrow> json list \<Rightarrow> bff_error + bool" where
  "has_file a [] = Inr False"
| "has_file a (JObj d # vs) = (if jget d ''id'' = JStr a then Inr True else has_file a vs)"
| "has_file a (v # vs) = Inl (Uncaught ''AttributeError'')"

fun elements :: "json \<Rightarrow> bff_error + json list" where
  "elements (JList vs) = Inr vs"
| "elements (JStr s) = Inr (map (\<lambda>c. JStr [c]) s)"
| "elements (JObj d) = Inr (map (\<lambda>(k, v). JStr k) d)"
| "elements v = Inl (Uncaught ''TypeError'')"

definition saved_files :: "obj \<Rightarrow> json" where
  "saved_files m = (case map_of m ''files'' of None \<Rightarrow> JList [] | Some v \<Rightarrow> v)"

definition file_entry :: "string \<Rightarrow> json \<Rightarrow> json \<Rightarrow> json" where
  "file_entry a name n =
     JObj [(''type'', JStr ''file''), (''id'', JStr a), (''name'', name), (''size'', n),
           (''url'', JStr (''/api/agent/artifacts/'' @ a @ ''/download''))]"

text \<open>The entry of the file in the message, unless it is there already. \<open>None\<close>: the message is gone.\<close>

definition attach_file :: "publish_intent \<Rightarrow> obj \<Rightarrow> string \<Rightarrow> json list \<Rightarrow> bool bff_io" where
  "attach_file it descriptor a files =
     (if list_ex (\<lambda>v. case v of JObj d \<Rightarrow> jget d ''id'' = JStr a | _ \<Rightarrow> False) files then Done True
      else
        bind_io (item_of_dict descriptor ''filename'') (\<lambda>name.
        bind_io (item_of_dict descriptor ''size'') (\<lambda>n.
        call_io (UpsertMessage (pi_chat it) (pi_message it) (files @ [file_entry a name n])) verdict_of)))"

definition try_message :: "string \<Rightarrow> string \<Rightarrow> obj option bff_io" where
  "try_message chat message =
     catch_io (bind_io (require_message chat message ''assistant'') (\<lambda>m. Done (Some m)))
       (\<lambda>e. case e of HttpError c m \<Rightarrow> Done None | Uncaught m \<Rightarrow> Raise e)"

definition confirm_attached :: "bff_cfg \<Rightarrow> publish_intent \<Rightarrow> obj \<Rightarrow> string \<Rightarrow> unit bff_io" where
  "confirm_attached cfg it descriptor a =
     bind_io (require_message (pi_chat it) (pi_message it) ''assistant'') (\<lambda>saved.
     bind_io (lift_result (rbind (elements (saved_files saved)) (has_file a))) (\<lambda>there.
     if \<not> there then retry_intent cfg it ''Assistant attachment is not committed yet'' True
     else
       bind_io (item_of_dict descriptor ''filename'') (\<lambda>name.
       bind_io (store_db (\<lambda>now fresh. bind_message_artifact now fresh (pi_chat it) (pi_message it) a ''output'' (text_of cfg name))) (\<lambda>u.
       bind_io (change_intent (pi_id it) (\<lambda>r. r\<lparr>pi_state := IntentReady, pi_error := None\<rparr>)) (\<lambda>u.
       call_io (EmitFiles (pi_owner it) (pi_chat it) (pi_message it) (saved_files saved)) done_of)))))"

definition bind_published_locked :: "bff_cfg \<Rightarrow> publish_intent \<Rightarrow> unit bff_io" where
  "bind_published_locked cfg it =
     (case pi_descriptor it of
        None \<Rightarrow> retry_intent cfg it ''Uploaded Artifact descriptor is missing'' True
      | Some txt \<Rightarrow>
          bind_io (lift_result (loads_object cfg txt)) (\<lambda>descriptor.
          bind_io (try_message (pi_chat it) (pi_message it)) (\<lambda>message.
          case message of
            None \<Rightarrow> retry_intent cfg it ''Assistant message is not committed yet'' True
          | Some m \<Rightarrow>
              bind_io (item_of_dict descriptor ''artifact_id'') (\<lambda>v.
              let a = text_of cfg v; files = (case jget m ''files'' of JList vs \<Rightarrow> vs | _ \<Rightarrow> [])
              in bind_io (transact (\<lambda>now fresh. register_artifact_file (bf_env cfg) now a (pi_owner it) descriptor)) (\<lambda>f.
                 bind_io (attach_file it descriptor a files) (\<lambda>attached.
                 if \<not> attached then retry_intent cfg it ''Assistant message could not be updated'' True
                 else confirm_attached cfg it descriptor a))))))"

definition bind_published :: "bff_cfg \<Rightarrow> publish_intent \<Rightarrow> unit bff_io" where
  "bind_published cfg it = holding (chat_lock (pi_chat it)) (bind_published_locked cfg it)"

definition published_descriptor :: "publish_intent \<Rightarrow> obj \<Rightarrow> obj option" where
  "published_descriptor it operation =
     (case jget operation ''result'' of
        JObj result \<Rightarrow>
          (case jget result ''artifact'' of
             JObj d \<Rightarrow> if jget d ''artifact_id'' = opt_str (pi_artifact it) then Some d else None
           | _ \<Rightarrow> None)
      | _ \<Rightarrow> None)"

definition finish_publish_operation :: "bff_cfg \<Rightarrow> publish_intent \<Rightarrow> obj \<Rightarrow> unit bff_io" where
  "finish_publish_operation cfg it operation =
     (if jget operation ''status'' \<noteq> JStr ''succeeded'' then
        (if jget operation ''phase'' \<in> {JStr ''captured'', JStr ''uploading''}
         then retry_intent cfg it (error_or cfg operation ''Artifact upload failed'') False
         else fail_intent it (take 1000 (error_or cfg operation ''Artifact capture failed'')))
      else
        (case published_descriptor it operation of
           None \<Rightarrow> retry_intent cfg it ''Publish operation returned an invalid Artifact'' False
         | Some d \<Rightarrow>
             bind_io (change_intent (pi_id it) (\<lambda>r. r\<lparr>pi_state := IntentUploaded,
               pi_descriptor := Some (json_dumps (bf_env cfg) (JObj d)), pi_error := None\<rparr>)) (\<lambda>u.
             bind_io (query (get_publish_intent (pi_id it))) (\<lambda>current.
             case current of None \<Rightarrow> Done () | Some c \<Rightarrow> bind_published cfg c))))"

definition upload_body :: "bff_cfg \<Rightarrow> publish_intent \<Rightarrow> obj" where
  "upload_body cfg it =
     [(''owner_id'', JStr (pi_owner it)), (''filename'', JStr (path_name (pi_path it))),
      (''media_type'', JStr ''application/octet-stream''), (''max_bytes'', JInt (br_max_file (bf_settings cfg))),
      (''subject_id'', JStr (pi_owner it))]
     @ (case pi_artifact it of None \<Rightarrow> [] | Some a \<Rightarrow> [(''artifact_id'', JStr a)])"

definition upload_intent :: "bff_cfg \<Rightarrow> nat \<Rightarrow> publish_intent \<Rightarrow> unit bff_io" where
  "upload_intent cfg fuel it =
     (if br_retry_limit (bf_settings cfg) \<le> pi_attempts it then fail_intent it ''Retry limit reached''
      else
        bind_io (call_io (GetUser (pi_owner it)) user_of) (\<lambda>owner.
        case owner of
          None \<Rightarrow> fail_intent it ''Owner no longer exists''
        | Some user \<Rightarrow>
            bind_io (require_chat_write (pi_chat it) user) (\<lambda>u.
            bind_io (artifact_request ''POST'' ''/v1/uploads'' (Some (upload_body cfg it))) (\<lambda>target.
            bind_io (item_of_dict target ''artifact_id'') (\<lambda>av.
            let a = text_of cfg av
            in bind_io (item_of_dict target ''url'') (\<lambda>url.
               bind_io (item_of_dict target ''token'') (\<lambda>token.
               bind_io (grant_io cfg ''artifact_publish'' (publish_claims cfg it
                 [(''artifact_id'', JStr a), (''upload_url'', url), (''upload_token'', token)])) (\<lambda>g.
               bind_io draw (\<lambda>(now, fresh).
               bind_io (change_intent (pi_id it) (\<lambda>r. r\<lparr>pi_artifact := Some a, pi_attempts := pi_attempts it + 1,
                 pi_next := now + br_reconcile (bf_settings cfg), pi_error := None\<rparr>)) (\<lambda>u.
               bind_io (adapter_request ''POST'' ''/v1/artifacts/publish''
                 (Some [(''response_id'', JStr (pi_response it)), (''grant'', JStr g)])) (\<lambda>operation.
               case as_str (jget operation ''id'') of
                 None \<Rightarrow> http_fail 502 ''Publish operation has no id''
               | Some oid \<Rightarrow>
                   bind_io (change_intent (pi_id it) (\<lambda>r. r\<lparr>pi_operation := Some oid, pi_state := IntentUploading\<rparr>)) (\<lambda>u.
                   bind_io (if jget operation ''status'' \<in> {JStr ''pending'', JStr ''running''}
                            then await_publish fuel oid else Done operation) (\<lambda>operation.
                   bind_io (query (get_publish_intent (pi_id it))) (\<lambda>current.
                   case current of None \<Rightarrow> Done () | Some c \<Rightarrow> finish_publish_operation cfg c operation))))))))))))))"

subsection \<open>Driving an intent\<close>

definition advance_intent :: "bff_cfg \<Rightarrow> nat \<Rightarrow> publish_intent \<Rightarrow> unit bff_io" where
  "advance_intent cfg fuel it =
     (if pi_state it \<in> {IntentUploaded, IntentBindingRetry} then bind_published cfg it
      else if pi_state it = IntentUploading \<and> pi_operation it \<notin> {None, Some []}
      then bind_io (await_publish fuel (the (pi_operation it))) (finish_publish_operation cfg it)
      else if pi_state it = IntentPending
      then
        bind_io (capture_intent cfg it) (\<lambda>u.
        bind_io (query (get_publish_intent (pi_id it))) (\<lambda>current.
        let now = (case current of None \<Rightarrow> it | Some c \<Rightarrow> c)
        in if pi_state now = IntentCaptured then upload_intent cfg fuel now else Done ()))
      else if pi_state it \<in> {IntentCaptured, IntentRetryable} then upload_intent cfg fuel it
      else Done ())"

fun error_detail :: "bff_error \<Rightarrow> string" where
  "error_detail (HttpError code detail) = detail"
| "error_detail (Uncaught m) = m"

text \<open>Both handlers of \<open>_drive_intent\<close> do the same with the text of their exception.\<close>

definition recover_intent :: "bff_cfg \<Rightarrow> publish_intent \<Rightarrow> bff_error \<Rightarrow> unit bff_io" where
  "recover_intent cfg it e =
     bind_io (query (get_publish_intent (pi_id it))) (\<lambda>current.
     let c = (case current of None \<Rightarrow> it | Some c \<Rightarrow> c)
     in if pi_state c = IntentPending then retry_capture_intent cfg c (error_detail e)
        else retry_intent cfg c (error_detail e) False)"

definition drive_intent :: "bff_cfg \<Rightarrow> nat \<Rightarrow> string \<Rightarrow> unit bff_io" where
  "drive_intent cfg fuel iid =
     holding (intent_lock iid)
       (bind_io (query (get_publish_intent iid)) (\<lambda>found.
        case found of
          None \<Rightarrow> Done ()
        | Some it \<Rightarrow>
            if pi_state it \<in> {IntentReady, IntentFailed} then Done ()
            else catch_io (advance_intent cfg fuel it) (recover_intent cfg it)))"

text \<open>One pass of \<open>_publish_reconciler\<close>; its exceptions are logged.\<close>

definition reconcile_intents :: "unit bff_io" where
  "reconcile_intents =
     catch_io
       (bind_io draw (\<lambda>(now, fresh).
        bind_io (query (due_publish_intents now 32)) (\<lambda>due.
        bind_io (each_io (\<lambda>it. schedule_intent (pi_id it)) due) (\<lambda>u. Done ()))))
       (\<lambda>e. Done ())"

end
