(* ===== verification/Bff_Requests.thy ===== *)
theory Bff_Requests
  imports Bff_Workspace
begin

text \<open>
  The requests that the Agent BFF serves: the context of a chat request, the terminal event of a response, the
  publishing and downloading of candidates (\<open>workspace.py\<close> and \<open>router.py\<close> of
  \<open>src/deploy/open-webui/agent_open_webui\<close>), and the upload of a file (\<open>files.py\<close>). The streams of bytes between
  the browser and the Artifact service are left to the world.
\<close>

section \<open>Attached files\<close>

definition may_read_file :: "bff_user \<Rightarrow> string \<Rightarrow> string \<Rightarrow> bool bff_io" where
  "may_read_file user file owner =
     (if owner = us_id user \<or> us_role user = ''admin'' then Done True
      else call_io (HasAccess file (us_id user)) verdict_of)"

definition ensure_file_artifact :: "bff_cfg \<Rightarrow> string \<Rightarrow> obj bff_io" where
  "ensure_file_artifact cfg file =
     bind_io (query (get_file_artifact file)) (\<lambda>existing.
     case existing of
       None \<Rightarrow> http_fail 409 ''File is unavailable; please upload it again''
     | Some b \<Rightarrow> lift_result (loads_object cfg (fa_descriptor b)))"

definition readable_file :: "string \<Rightarrow> bff_user \<Rightarrow> string bff_io" where
  "readable_file file user =
     bind_io (call_io (GetFile file) file_of) (\<lambda>row.
     case row of
       None \<Rightarrow> http_fail 404 ''Attached file not found''
     | Some (owner, filename) \<Rightarrow>
         bind_io (may_read_file user file owner) (\<lambda>allowed.
         guard_io allowed (HttpError 404 ''Attached file not found'') (Done filename)))"

text \<open>\<open>max(size, 1)\<close> is the first of two equal values.\<close>

definition checkout_item :: "json \<Rightarrow> string \<Rightarrow> json \<Rightarrow> int \<Rightarrow> json \<Rightarrow> json \<Rightarrow> json \<Rightarrow> obj" where
  "checkout_item aid filename sz n sha url token =
     [(''artifact_id'', aid), (''filename'', JStr filename), (''size'', sz), (''sha256'', sha),
      (''max_bytes'', if 1 \<le> n then sz else JInt 1), (''url'', url), (''token'', token)]"

text \<open>The body of the loop for one file: its item, and the name it has taken.\<close>

definition attach_item ::
    "bff_cfg \<Rightarrow> string \<Rightarrow> bff_user \<Rightarrow> string \<Rightarrow> string list \<Rightarrow> string \<Rightarrow> (obj \<times> string) bff_io" where
  "attach_item cfg chat user message names file =
     bind_io (readable_file file user) (\<lambda>own_name.
     bind_io (ensure_file_artifact cfg file) (\<lambda>descriptor.
     case as_pyint (jget descriptor ''size'') of
       None \<Rightarrow> http_fail 413 ''Attached file is too large''
     | Some n \<Rightarrow>
         guard_io (n \<le> br_max_file (bf_settings cfg)) (HttpError 413 ''Attached file is too large'')
           (case unique_name (safe_name (text_of cfg (py_or (py_or (jget descriptor ''filename'') (JStr own_name)) (JStr ''file'')))) names of
              None \<Rightarrow> Stuck
            | Some filename \<Rightarrow>
                bind_io (item_of_dict descriptor ''artifact_id'') (\<lambda>aid.
                bind_io (artifact_request ''POST'' (''/v1/artifacts/'' @ text_of cfg aid @ ''/downloads'')
                    (Some [(''subject_id'', JStr (us_id user))])) (\<lambda>target.
                bind_io (item_of_dict descriptor ''sha256'') (\<lambda>sha.
                bind_io (item_of_dict target ''url'') (\<lambda>url.
                bind_io (item_of_dict target ''token'') (\<lambda>token.
                bind_io (store_db (\<lambda>now fresh. bind_message_artifact now fresh chat message (text_of cfg aid) ''upload'' filename)) (\<lambda>u.
                Done (checkout_item aid filename (jget descriptor ''size'') n sha url token, filename))))))))))"

text \<open>An attachment that is no file, or a file that was there before, is passed over.\<close>

definition attached_file :: "string list \<Rightarrow> json \<Rightarrow> string option" where
  "attached_file seen v =
     (case v of
        JObj item \<Rightarrow>
          if jget item ''type'' \<noteq> JStr ''file'' then None
          else (case as_str (jget item ''id'') of
              None \<Rightarrow> None
            | Some file \<Rightarrow> if file \<in> set seen then None else Some file)
      | _ \<Rightarrow> None)"

fun attach_items ::
    "bff_cfg \<Rightarrow> string \<Rightarrow> bff_user \<Rightarrow> string \<Rightarrow> string list \<Rightarrow> string list \<Rightarrow> json list \<Rightarrow> (obj \<times> string) list bff_io" where
  "attach_items cfg chat user message seen names [] = Done []"
| "attach_items cfg chat user message seen names (v # vs) =
     (case attached_file seen v of
        None \<Rightarrow> attach_items cfg chat user message seen names vs
      | Some file \<Rightarrow>
          bind_io (attach_item cfg chat user message names file) (\<lambda>(item, name).
          bind_io (attach_items cfg chat user message (file # seen) (name # names) vs) (\<lambda>rest.
          Done ((item, name) # rest))))"

definition attachments_of :: "obj \<Rightarrow> json list" where
  "attachments_of metadata =
     (case jget metadata ''user_message'' of
        JObj m \<Rightarrow> (case jget m ''files'' of JList vs \<Rightarrow> vs | _ \<Rightarrow> [])
      | _ \<Rightarrow> [])"

definition batch_claims :: "string \<Rightarrow> string \<Rightarrow> string option \<Rightarrow> string \<Rightarrow> string \<Rightarrow> obj list \<Rightarrow> obj" where
  "batch_claims chat workspace sandbox user_message assistant_message items =
     [(''workspace_id'', JStr workspace), (''user_message_id'', JStr user_message),
      (''assistant_message_id'', JStr assistant_message), (''artifacts'', JList (map JObj items)),
      (''idempotency_key'', JStr (''checkout:'' @ chat @ '':'' @ user_message))]
     @ (case sandbox of None \<Rightarrow> [] | Some sid \<Rightarrow> [(''sandbox_id'', JStr sid)])"

definition checkout_grant ::
    "bff_cfg \<Rightarrow> string \<Rightarrow> string \<Rightarrow> string option \<Rightarrow> bff_user \<Rightarrow> obj \<Rightarrow> string \<Rightarrow> string
      \<Rightarrow> (string \<times> string list) bff_io" where
  "checkout_grant cfg chat workspace sandbox user metadata user_message assistant_message =
     bind_io (attach_items cfg chat user user_message [] [] (attachments_of metadata)) (\<lambda>items.
     bind_io (grant_io cfg ''artifact_checkout''
         (batch_claims chat workspace sandbox user_message assistant_message (map fst items))) (\<lambda>g.
     Done (g, map (\<lambda>(item, name). ''uploads/'' @ user_message @ ''/'' @ name) items)))"

section \<open>The context of a chat request\<close>

fun await_capture_barriers :: "nat \<Rightarrow> string \<Rightarrow> rat \<Rightarrow> unit bff_io" where
  "await_capture_barriers 0 workspace deadline = Stuck"
| "await_capture_barriers (Suc fuel) workspace deadline =
     bind_io (query (capture_barriers workspace)) (\<lambda>pending.
     if pending = [] then Done ()
     else
       bind_io draw (\<lambda>(now, fresh).
       bind_io (each_io (\<lambda>it. if pi_next it \<le> now then schedule_intent (pi_id it) else Done ()) pending) (\<lambda>u.
       bind_io loop_time (\<lambda>t.
       if deadline \<le> t then http_fail 503 ''Previous Artifact capture did not finish''
       else bind_io sleep_io (\<lambda>u. await_capture_barriers fuel workspace deadline)))))"

fun await_response_binding :: "nat \<Rightarrow> string \<Rightarrow> string \<Rightarrow> rat \<Rightarrow> response_binding option bff_io" where
  "await_response_binding 0 chat message deadline = Stuck"
| "await_response_binding (Suc fuel) chat message deadline =
     bind_io loop_time (\<lambda>t.
     if deadline \<le> t then Done None
     else
       bind_io (query (get_response_binding chat message)) (\<lambda>found.
       case found of
         Some b \<Rightarrow> Done (Some b)
       | None \<Rightarrow> bind_io sleep_io (\<lambda>u. await_response_binding fuel chat message deadline)))"

definition late_binding :: "nat \<Rightarrow> string \<Rightarrow> string \<Rightarrow> response_binding option bff_io" where
  "late_binding fuel chat message = bind_io loop_time (\<lambda>t. await_response_binding fuel chat message (t + 30))"

text \<open>The walk to the nearest ancestor that an agent has answered.\<close>

fun previous_response_binding ::
    "nat \<Rightarrow> string \<Rightarrow> string list \<Rightarrow> int \<Rightarrow> json \<Rightarrow> (response_binding option \<times> int) bff_io" where
  "previous_response_binding 0 chat seen pending mid = Stuck"
| "previous_response_binding (Suc fuel) chat seen pending mid =
     (if \<not> valid_message_json mid then Done (None, pending)
      else
        let message = (case mid of JStr s \<Rightarrow> s | _ \<Rightarrow> [])
        in guard_io (message \<notin> set seen) (HttpError 409 ''Chat message ancestry is invalid'')
          (bind_io (require_message chat message ''assistant'') (\<lambda>m.
           bind_io (query (get_response_binding chat message)) (\<lambda>found.
           bind_io (if found = None \<and> \<not> truthy (jget m ''error'') then late_binding fuel chat message else Done found) (\<lambda>binding.
           if binding \<noteq> None then Done (binding, pending)
           else guard_io (\<not> (truthy (jget m ''content'') \<or> truthy (jget m ''output'')
                 \<or> \<not> (truthy (jget m ''error'') \<or> truthy (jget m ''done''))))
               (HttpError 409 ''Previous Response binding is not ready'')
             (if \<not> valid_message_json (jget m ''parentId'') then Done (None, pending)
              else
                bind_io (require_message chat (case jget m ''parentId'' of JStr s \<Rightarrow> s | _ \<Rightarrow> []) ''user'') (\<lambda>parent.
                previous_response_binding fuel chat (message # seen) (pending + 1) (jget parent ''parentId''))))))))"

definition user_positions :: "json list \<Rightarrow> nat list" where
  "user_positions inputs =
     filter (\<lambda>i. case inputs ! i of JObj d \<Rightarrow> jget d ''role'' = JStr ''user'' | _ \<Rightarrow> False) [0..<length inputs]"

text \<open>\<open>inputs[user_indices[-pending]:]\<close>, with \<open>pending\<close> at least one.\<close>

definition trim_inputs :: "int \<Rightarrow> obj \<Rightarrow> obj" where
  "trim_inputs pending payload =
     (case jget payload ''input'' of
        JList inputs \<Rightarrow>
          let us = user_positions inputs
          in if pending \<le> int (length us)
             then jset ''input'' (JList (drop (us ! (length us - nat pending)) inputs)) payload else payload
      | _ \<Rightarrow> payload)"

definition context_note :: "string \<Rightarrow> string list \<Rightarrow> string" where
  "context_note assistant_message paths =
     (let out = ''/workspace/outputs/'' @ assistant_message
      in join_with [newline]
        ([''Use /workspace/work as the working directory.'',
          ''Write files for this answer under '' @ out @ ''.'',
          ''Reference generated files as sandbox:'' @ out @ ''/<relative_path>.'']
         @ (if paths = [] then [] else ''Attached files are read-only:'' # map (\<lambda>p. ''- /workspace/'' @ p) paths)))"

definition with_context :: "bff_cfg \<Rightarrow> string \<Rightarrow> string \<Rightarrow> string \<Rightarrow> string \<Rightarrow> string list \<Rightarrow> obj \<Rightarrow> obj" where
  "with_context cfg assistant_message workspace_grant publish_grant checkout paths payload =
     (let metadata = (case jget payload ''metadata'' of JObj d \<Rightarrow> d | _ \<Rightarrow> []);
          granted = jset ''agent_checkout_grant'' (JStr checkout) (jset ''agent_publish_grant'' (JStr publish_grant)
            (jset ''agent_workspace_grant'' (JStr workspace_grant) metadata));
          note' = context_note assistant_message paths; instructions = jget payload ''instructions''
      in jset ''instructions''
           (JStr (if truthy instructions then text_of cfg instructions @ [newline, newline] @ note' else note'))
           (jset ''metadata'' (JObj granted) payload))"

definition terminal_claims :: "string \<Rightarrow> string \<Rightarrow> string \<Rightarrow> string \<Rightarrow> string \<Rightarrow> obj" where
  "terminal_claims chat workspace user user_message assistant_message =
     [(''chat_id'', JStr chat), (''workspace_id'', JStr workspace), (''user_id'', JStr user),
      (''user_message_id'', JStr user_message), (''assistant_message_id'', JStr assistant_message)]"

text \<open>The binding of the parent message, and how many user messages have come since.\<close>

definition find_previous :: "nat \<Rightarrow> string \<Rightarrow> string \<Rightarrow> bff_user \<Rightarrow> obj \<Rightarrow> obj \<Rightarrow> (obj \<times> int) bff_io" where
  "find_previous fuel chat workspace user metadata payload =
     (if truthy (jget payload ''previous_response_id'') then Done (payload, 1)
      else
        let parent = (case jget metadata ''user_message'' of JObj m \<Rightarrow> jget m ''parentId'' | _ \<Rightarrow> JNull)
        in if \<not> valid_message_json parent then Done (payload, 1)
           else
             bind_io (previous_response_binding fuel chat [] 1 parent) (\<lambda>(binding, pending).
             case binding of
               None \<Rightarrow> Done (payload, pending)
             | Some b \<Rightarrow>
                 guard_io (rb_workspace b = workspace \<and> rb_owner b = us_id user)
                   (HttpError 409 ''Previous Response binding changed'')
                   (Done (jset ''previous_response_id'' (JStr (rb_response b)) payload, pending))))"

text \<open>The grant for the Workspace, the Sandbox that a first response is going to create, and the trimmed input.\<close>

definition workspace_grant :: "bff_cfg \<Rightarrow> string \<Rightarrow> obj \<Rightarrow> int \<Rightarrow> (string \<times> string option \<times> obj) bff_io" where
  "workspace_grant cfg workspace payload pending =
     (if truthy (jget payload ''previous_response_id'') then
        bind_io (grant_io cfg ''workspace_inspect'' [(''workspace_id'', JStr workspace)]) (\<lambda>g.
        Done (g, None, trim_inputs pending payload))
      else
        bind_io draw (\<lambda>(now, fresh).
        let sid = ''sandbox_'' @ fresh
        in bind_io (grant_io cfg ''sandbox_create'' [(''workspace_id'', JStr workspace), (''sandbox_id'', JStr sid)]) (\<lambda>g.
           Done (g, Some sid, payload))))"

definition bind_context ::
    "bff_cfg \<Rightarrow> nat \<Rightarrow> bff_user \<Rightarrow> obj \<Rightarrow> obj \<Rightarrow> string \<Rightarrow> string \<Rightarrow> string \<Rightarrow> obj bff_io" where
  "bind_context cfg fuel user metadata payload chat user_message assistant_message =
     bind_io (require_chat_write chat user) (\<lambda>u.
     bind_io (require_message chat user_message ''user'') (\<lambda>um.
     bind_io (get_message chat assistant_message) (\<lambda>am.
     guard_io (case am of None \<Rightarrow> True | Some d \<Rightarrow> jget d ''role'' = JStr ''assistant'')
       (HttpError 409 ''Assistant message binding is invalid'')
     (bind_io (query (get_chat_workspace chat)) (\<lambda>existing.
      bind_io (case existing of Some wid \<Rightarrow> if wid = [] then ensure_chat_workspace cfg chat else Done wid
               | None \<Rightarrow> ensure_chat_workspace cfg chat) (\<lambda>workspace.
      bind_io (find_previous fuel chat workspace user metadata payload) (\<lambda>(payload, pending).
      bind_io loop_time (\<lambda>t.
      bind_io (await_capture_barriers fuel workspace (t + 3600)) (\<lambda>u.
      bind_io (workspace_grant cfg workspace payload pending) (\<lambda>(g, sandbox, payload).
      bind_io (checkout_grant cfg chat workspace sandbox user metadata user_message assistant_message) (\<lambda>(checkout, paths).
      bind_io (terminal_grant cfg (terminal_claims chat workspace (us_id user) user_message assistant_message)) (\<lambda>publish.
      Done (with_context cfg assistant_message g publish checkout paths payload)))))))))))))"

definition inject_workspace_context :: "bff_cfg \<Rightarrow> nat \<Rightarrow> bff_user \<Rightarrow> json \<Rightarrow> obj \<Rightarrow> obj bff_io" where
  "inject_workspace_context cfg fuel user metadata payload =
     (case metadata of
        JObj m \<Rightarrow>
          if \<not> br_enabled (bf_settings cfg) then Done payload
          else if truthy (jget m ''task'') then Done (jpop ''max_output_tokens'' payload)
          else if truthy (jget m ''internal'') then Done payload
          else (case (jget m ''chat_id'', jget m ''user_message_id'', py_or (jget m ''assistant_message_id'') (jget m ''message_id'')) of
              (JStr chat, JStr um, JStr am) \<Rightarrow>
                if chat = [] \<or> starts_with ''channel:'' chat \<or> \<not> valid_message_id um \<or> \<not> valid_message_id am then Done payload
                else bind_context cfg fuel user m payload chat um am
            | _ \<Rightarrow> Done payload)
      | _ \<Rightarrow> Done payload)"

section \<open>The terminal event\<close>

text \<open>The checks of \<open>_transfer_claims\<close>: \<open>verify_grant\<close> and the consumption of the nonce read the clock separately.\<close>

definition transfer_claims :: "bff_cfg \<Rightarrow> string \<Rightarrow> string \<Rightarrow> int \<Rightarrow> int \<Rightarrow> bff_db \<Rightarrow> (bff_error + obj) \<times> bff_db" where
  "transfer_claims cfg token operation verified_at consumed_at d =
     (case verify_grant (bf_env cfg) token (br_secret (bf_settings cfg)) ''open-webui-transfer'' (Some operation)
             verified_at (br_terminal_ttl (bf_settings cfg)) of
        Inl e \<Rightarrow> (Inl (HttpError 403 ''Transfer grant is invalid''), d)
      | Inr claims \<Rightarrow>
          if jget claims ''iss'' \<noteq> JStr ''open-webui-bff'' then (Inl (HttpError 403 ''Transfer issuer is invalid''), d)
          else (case (as_str (jget claims ''nonce''), as_pyint (jget claims ''exp'')) of
              (Some nonce, Some expires) \<Rightarrow>
                (case consume_transfer_nonce nonce expires consumed_at d of
                   (fresh, d') \<Rightarrow> (if fresh then Inr claims else Inl (HttpError 403 ''Transfer grant was already used''), d'))
            | _ \<Rightarrow> (Inl (HttpError 403 ''Transfer grant was already used''), d)))"

text \<open>The consumption is the transaction; a refused grant writes nothing.\<close>

definition transfer_claims_io :: "bff_cfg \<Rightarrow> string \<Rightarrow> string \<Rightarrow> obj bff_io" where
  "transfer_claims_io cfg token operation =
     bind_io draw (\<lambda>(verified_at, fresh).
     bind_io (transact (\<lambda>now fresh d. Inr (transfer_claims cfg token operation verified_at now d))) lift_result)"

definition terminal_claim :: "obj \<Rightarrow> string \<Rightarrow> bff_error + string" where
  "terminal_claim claims name =
     (case as_str (jget claims name) of
        Some v \<Rightarrow> require (v \<noteq> []) (HttpError 403 (''Transfer '' @ name @ '' is invalid'')) (Inr v)
      | None \<Rightarrow> Inl (HttpError 403 (''Transfer '' @ name @ '' is invalid'')))"

definition create_intent_io ::
    "string \<Rightarrow> string \<Rightarrow> string \<Rightarrow> string \<Rightarrow> string \<Rightarrow> string \<Rightarrow> string bff_io" where
  "create_intent_io chat owner workspace message response path =
     transact (\<lambda>now fresh. create_publish_intent now fresh chat owner workspace message response path)"

definition bind_response_io :: "string \<Rightarrow> string \<Rightarrow> string \<Rightarrow> string \<Rightarrow> string \<Rightarrow> unit bff_io" where
  "bind_response_io chat message response workspace owner =
     transact (\<lambda>now fresh. put_response_binding now chat message response workspace owner)"

definition record_terminal_response :: "string \<Rightarrow> string \<Rightarrow> string \<Rightarrow> obj \<Rightarrow> string list bff_io" where
  "record_terminal_response response status output_text claims =
     bind_io (lift_result (terminal_claim claims ''chat_id'')) (\<lambda>chat.
     bind_io (lift_result (terminal_claim claims ''workspace_id'')) (\<lambda>workspace.
     bind_io (lift_result (terminal_claim claims ''user_id'')) (\<lambda>uid.
     bind_io (lift_result (terminal_claim claims ''assistant_message_id'')) (\<lambda>message.
     bind_io (query (get_chat_workspace chat)) (\<lambda>current.
     guard_io (current = Some workspace) (HttpError 403 ''Terminal Workspace binding changed'')
     (bind_io (call_io (GetUser uid) user_of) (\<lambda>user.
      case user of
        None \<Rightarrow> http_fail 403 ''Terminal user no longer exists''
      | Some u \<Rightarrow>
          bind_io (require_chat_write chat u) (\<lambda>x.
          bind_io (get_message chat message) (\<lambda>m.
          guard_io (case m of None \<Rightarrow> True | Some d \<Rightarrow> jget d ''role'' = JStr ''assistant'')
            (HttpError 409 ''Terminal assistant message is invalid'')
          (bind_io (bind_response_io chat message response workspace uid) (\<lambda>x.
           if status \<noteq> ''completed'' then Done []
           else each_io (\<lambda>path.
             bind_io (create_intent_io chat uid workspace message response path) (\<lambda>iid.
             bind_io (schedule_intent iid) (\<lambda>x. Done iid)))
             (sandbox_candidates output_text message))))))))))))"

definition response_terminal :: "bff_cfg \<Rightarrow> string \<Rightarrow> string \<Rightarrow> string \<Rightarrow> string \<Rightarrow> obj bff_io" where
  "response_terminal cfg response status output_text token =
     bind_io (transfer_claims_io cfg token ''response_terminal'') (\<lambda>claims.
     bind_io (record_terminal_response response status output_text claims) (\<lambda>ids.
     Done [(''accepted'', JBool True), (''intent_ids'', JList (map JStr ids))]))"

section \<open>Candidates\<close>

definition find_intent ::
    "string \<Rightarrow> string \<Rightarrow> string \<Rightarrow> string \<Rightarrow> string \<Rightarrow> string \<Rightarrow> string bff_io" where
  "find_intent chat owner workspace message response path =
     bind_io (query (get_candidate_intent chat message path)) (\<lambda>found.
     case found of
       None \<Rightarrow> create_intent_io chat owner workspace message response path
     | Some it \<Rightarrow>
         guard_io (pi_response it = response) (HttpError 409 ''Candidate Response binding changed'')
           (if pi_state it = IntentRetryable
            then bind_io draw (\<lambda>(now, fresh).
              bind_io (change_intent (pi_id it) (\<lambda>r. r\<lparr>pi_next := now\<rparr>)) (\<lambda>u. Done (pi_id it)))
            else Done (pi_id it)))"

definition advance_candidate ::
    "string \<Rightarrow> string \<Rightarrow> string \<Rightarrow> string \<Rightarrow> bff_user \<Rightarrow> publish_intent bff_io" where
  "advance_candidate chat message response path user =
     bind_io (require_chat_write chat user) (\<lambda>u.
     bind_io (require_message chat message ''assistant'') (\<lambda>m.
     bind_io (query (get_chat_workspace chat)) (\<lambda>current.
     case current of
       None \<Rightarrow> http_fail 409 ''Chat has no Workspace''
     | Some workspace \<Rightarrow>
         bind_io (bind_response_io chat message response workspace (us_id user)) (\<lambda>u.
         bind_io (find_intent chat (us_id user) workspace message response path) (\<lambda>iid.
         bind_io (schedule_intent iid) (\<lambda>u.
         bind_io (call_io (WaitIntent iid) done_of) (\<lambda>u.
         bind_io (query (get_publish_intent iid)) (\<lambda>current.
         case current of
           None \<Rightarrow> http_fail 404 ''Publish intent not found''
         | Some it \<Rightarrow> Done it))))))))"

definition publish_candidate :: "string \<Rightarrow> string \<Rightarrow> string \<Rightarrow> string \<Rightarrow> bff_user \<Rightarrow> publish_intent bff_io" where
  "publish_candidate chat message response workspace_path user =
     bind_io (lift_result (candidate_relative workspace_path message)) (\<lambda>path.
     advance_candidate chat message response path user)"

section \<open>Downloads\<close>

definition download_body :: "bff_user \<Rightarrow> obj option" where
  "download_body user = Some [(''subject_id'', JStr (us_id user))]"

definition request_download :: "string \<Rightarrow> bff_user \<Rightarrow> obj bff_io" where
  "request_download artifact user =
     artifact_request ''POST'' (''/v1/artifacts/'' @ artifact @ ''/downloads'') (download_body user)"

text \<open>The first chat of the list that the user may open.\<close>

fun download_by_chat :: "string \<Rightarrow> bff_user \<Rightarrow> string list \<Rightarrow> obj bff_io" where
  "download_by_chat artifact user [] = http_fail 404 ''Artifact not found''"
| "download_by_chat artifact user (chat # chats) =
     bind_io (call_io (GetChat chat (us_id user)) chat_of) (\<lambda>owner.
     if owner \<noteq> None then request_download artifact user else download_by_chat artifact user chats)"

definition owned_file :: "bff_user \<Rightarrow> file_artifact option \<Rightarrow> bool bff_io" where
  "owned_file user binding =
     (case binding of
        None \<Rightarrow> Done False
      | Some b \<Rightarrow>
          bind_io (call_io (GetFile (fa_file b)) file_of) (\<lambda>row.
          case row of
            None \<Rightarrow> Done False
          | Some (owner, filename) \<Rightarrow> may_read_file user (fa_file b) owner))"

definition artifact_download_target :: "string \<Rightarrow> bff_user \<Rightarrow> obj bff_io" where
  "artifact_download_target artifact user =
     bind_io (query (get_file_by_artifact artifact)) (\<lambda>binding.
     bind_io (owned_file user binding) (\<lambda>owned.
     if owned then request_download artifact user
     else bind_io (query (message_artifact_chats artifact)) (download_by_chat artifact user)))"

definition download_artifact :: "string \<Rightarrow> bff_user \<Rightarrow> obj bff_io" where
  "download_artifact artifact user =
     guard_io (prefixed_hex ''artifact_'' 32 artifact) (HttpError 404 ''Artifact not found'')
       (artifact_download_target artifact user)"

definition uploaded_file_download :: "string \<Rightarrow> bff_user \<Rightarrow> obj bff_io" where
  "uploaded_file_download file user =
     bind_io (query (get_file_artifact file)) (\<lambda>binding.
     case binding of
       None \<Rightarrow> http_fail 404 ''File is unavailable''
     | Some b \<Rightarrow> download_artifact (fa_artifact b) user)"

definition download_candidate :: "bff_cfg \<Rightarrow> string \<Rightarrow> string \<Rightarrow> string \<Rightarrow> bff_user \<Rightarrow> obj bff_io" where
  "download_candidate cfg chat message path user =
     bind_io (call_io (GetChat chat (us_id user)) chat_of) (\<lambda>owner.
     guard_io (owner \<noteq> None) (HttpError 404 ''Chat not found'')
     (bind_io (lift_result (candidate_relative path message)) (\<lambda>relative.
      bind_io (query (get_response_binding chat message)) (\<lambda>binding.
      bind_io (query (get_candidate_intent chat message relative)) (\<lambda>found.
      case (binding, found) of
        (Some b, Some it) \<Rightarrow>
          guard_io (pi_response it = rb_response b) (HttpError 404 ''File is unavailable'')
          (if pi_state it = IntentReady then download_artifact (text_of cfg (opt_str (pi_artifact it))) user
           else if pi_state it = IntentFailed then http_fail 410 ''File could not be prepared''
           else bind_io (schedule_intent (pi_id it)) (\<lambda>u. http_fail 409 ''File is still being prepared''))
      | _ \<Rightarrow> http_fail 409 ''File is still being prepared'')))))"

section \<open>Uploads\<close>

text \<open>The headers of an upload: the size and the decoded name, \<open>None\<close> where they are missing or malformed.\<close>

record upload_headers =
  uh_size :: "int option"
  uh_name :: "string option"
  uh_type :: "string option"
  uh_sha :: "string option"

definition media_char :: "char \<Rightarrow> bool" where
  "media_char c \<longleftrightarrow> is_digit c \<or> is_upper c \<or> is_lower c \<or> c \<in> set ''!#$&^_.+-''"

definition media_type_ok :: "string \<Rightarrow> bool" where
  "media_type_ok s =
     (case split_on CHR ''/'' s of
        [a, b] \<Rightarrow> a \<noteq> [] \<and> b \<noteq> [] \<and> list_all media_char a \<and> list_all media_char b
      | _ \<Rightarrow> False)"

definition any_hex :: "char \<Rightarrow> bool" where
  "any_hex c \<longleftrightarrow> is_hex c \<or> (let n = of_char c :: nat in 65 \<le> n \<and> n \<le> 70)"

definition upload_name :: "string \<Rightarrow> string" where
  "upload_name s = last (split_on CHR ''/'' (map (\<lambda>c. if c = CHR 0x5C then CHR ''/'' else c) s))"

definition check_upload :: "bff_cfg \<Rightarrow> upload_headers \<Rightarrow> bff_error + (int \<times> string \<times> string)" where
  "check_upload cfg h =
     (case (uh_size h, uh_name h) of
        (Some n, Some raw) \<Rightarrow>
          let name = upload_name raw;
              media = (case uh_type h of None \<Rightarrow> ''application/octet-stream'' | Some t \<Rightarrow> if t = [] then ''application/octet-stream'' else t)
          in require (\<not> (name \<in> {[], ''.'', ''..''} \<or> 255 < length name \<or> list_ex (\<lambda>c. (of_char c :: nat) < 32) name))
               (HttpError 400 ''Invalid filename'')
             (require (0 \<le> n \<and> n \<le> br_max_file (bf_settings cfg)) (HttpError 413 ''File exceeds the upload limit'')
             (require (media_type_ok media) (HttpError 400 ''Invalid file type'')
             (require (case uh_sha h of None \<Rightarrow> True | Some s \<Rightarrow> length s = 64 \<and> list_all any_hex s)
               (HttpError 400 ''Invalid file digest'')
             (Inr (n, name, media)))))
      | _ \<Rightarrow> Inl (HttpError 400 ''Invalid file metadata''))"

text \<open>
  The upload after the permission check. The world answers the transfer of the content as a call to the Artifact service
  with the descriptor, or with an error when the size of the stream differs from the header.
\<close>

definition upload_file :: "bff_cfg \<Rightarrow> bff_user \<Rightarrow> bool \<Rightarrow> upload_headers \<Rightarrow> obj bff_io" where
  "upload_file cfg user permitted h =
     guard_io (br_enabled (bf_settings cfg)) (HttpError 503 ''File service is unavailable'')
     (guard_io (us_role user = ''admin'' \<or> permitted) (HttpError 403 ''You do not have permission to upload files'')
     (bind_io (lift_result (check_upload cfg h)) (\<lambda>(n, name, media).
      bind_io (artifact_request ''POST'' ''/v1/uploads'' (Some
        [(''owner_id'', JStr (us_id user)), (''subject_id'', JStr (us_id user)), (''filename'', JStr name),
         (''media_type'', JStr media), (''max_bytes'', JInt (max n 1)),
         (''expected_sha256'', case uh_sha h of None \<Rightarrow> JNull | Some s \<Rightarrow> if s = [] then JNull else JStr (lower s))])) (\<lambda>target.
      bind_io (item_of_dict target ''url'') (\<lambda>url.
      bind_io (item_of_dict target ''token'') (\<lambda>token.
      bind_io (Await (ArtifactCall ''PUT'' (text_of cfg url) None) (\<lambda>r. case r of
          Inl e \<Rightarrow> Raise e
        | Inr TransportError \<Rightarrow> http_fail 502 ''File upload failed; please retry''
        | Inr (Answered status body) \<Rightarrow>
            if 400 \<le> status \<or> body = None then http_fail 502 ''File upload failed; please retry'' else Done (the body)
        | Inr x \<Rightarrow> Raise (Uncaught ''unexpected answer''))) (\<lambda>v.
      case v of
        JObj descriptor \<Rightarrow>
          bind_io (item_of_dict target ''artifact_id'') (\<lambda>a.
          guard_io (py_eq (jget descriptor ''artifact_id'') a \<and> py_eq (jget descriptor ''size'') (JInt n))
            (HttpError 502 ''File upload returned invalid data'')
          (bind_io draw (\<lambda>(now, fresh).
           bind_io (catch_io (transact (\<lambda>now f. register_artifact_file (bf_env cfg) now fresh (us_id user) descriptor))
             (\<lambda>e. http_fail 503 ''File metadata could not be saved; retry upload'')) (\<lambda>file.
           Done (jset ''status'' (JBool True) file)))))
      | _ \<Rightarrow> http_fail 502 ''File upload returned invalid data'')))))))"

end
