(* ===== verification/Bff_Intents.thy ===== *)
theory Bff_Intents
  imports Bff_Requests
begin

text \<open>
  The life of a publish intent: whoever else works on the tables leaves an intent that is being driven alone but for
  its next attempt, its attempts are bounded, and an intent that is ready has its file.
\<close>

section \<open>What the others leave alone\<close>

definition intent_core :: "string \<Rightarrow> bff_db \<Rightarrow> publish_intent option" where
  "intent_core iid d = map_option (\<lambda>r. r\<lparr>pi_next := 0, pi_updated := 0\<rparr>) (get_publish_intent iid d)"

definition leaves :: "string \<Rightarrow> bff_db \<Rightarrow> bff_db \<Rightarrow> bool" where
  "leaves iid d e \<longleftrightarrow> (get_publish_intent iid d \<noteq> None \<longrightarrow> intent_core iid e = intent_core iid d)
     \<and> set (file_artifacts d) \<subseteq> set (file_artifacts e) \<and> set (message_artifacts d) \<subseteq> set (message_artifacts e)"

definition beside_intent :: "string \<Rightarrow> bff \<Rightarrow> bff \<Rightarrow> bool" where
  "beside_intent iid s t \<longleftrightarrow> leaves iid (bs_db s) (bs_db t)"

lemma intent_core_None: "intent_core iid d = None \<longleftrightarrow> get_publish_intent iid d = None"
  by (simp add: intent_core_def)

lemma leaves_refl: "leaves iid d d"
  by (simp add: leaves_def)

lemma leaves_trans:
  assumes "leaves iid d e" and "leaves iid e f"
  shows "leaves iid d f"
  using assms intent_core_None [of iid] unfolding leaves_def by (metis subset_trans)

text \<open>The transactions of the BFF that leave an intent alone: all but the updates of this intent.\<close>

lemma core_same_intents: "publish_intents e = publish_intents d \<Longrightarrow> intent_core iid e = intent_core iid d"
  by (simp add: intent_core_def get_publish_intent_def)

lemma leaves_aside:
  "publish_intents e = publish_intents d \<Longrightarrow> file_artifacts e = file_artifacts d \<Longrightarrow> message_artifacts e = message_artifacts d \<Longrightarrow>
    leaves iid d e"
  by (auto simp: leaves_def intro: core_same_intents)

lemma leaves_register: "register_artifact_file E now file owner descriptor d = Inr (f, e) \<Longrightarrow> leaves iid d e"
  by (auto simp: leaves_def register_artifact_file_def result_iffs Let_def split: option.splits intro!: core_same_intents)

lemma leaves_bind_message: "leaves iid d (bind_message_artifact now fresh chat message a direction filename d)"
  by (auto simp: leaves_def bind_message_artifact_def intro!: core_same_intents)

lemma leaves_create_intent:
  "create_publish_intent now fresh chat owner workspace message response path d = Inr (i, e) \<Longrightarrow> leaves iid d e"
  by (auto simp: leaves_def create_publish_intent_def result_iffs Let_def intent_core_def get_publish_intent_def table_simps
      split: option.splits if_splits)

lemma get_updated_intent:
  assumes "\<And>r. pi_id (f r) = pi_id r"
  shows "get_publish_intent iid (update_publish_intent now j f d) =
    (if j = iid then map_option (\<lambda>r. f r\<lparr>pi_updated := now\<rparr>) (get_publish_intent iid d) else get_publish_intent iid d)"
proof -
  have "select_one (\<lambda>r. pi_id r = iid) (update_rows (\<lambda>r. pi_id r = j) (\<lambda>r. f r\<lparr>pi_updated := now\<rparr>) rows) =
      map_option (\<lambda>r. if pi_id r = j then f r\<lparr>pi_updated := now\<rparr> else r) (select_one (\<lambda>r. pi_id r = iid) rows)" for rows
    by (rule select_one_update_rows) (simp add: assms)
  then show ?thesis
    by (cases "select_one (\<lambda>r. pi_id r = iid) (publish_intents d)")
      (auto simp: get_publish_intent_def update_publish_intent_def dest: select_one_Some)
qed

lemma leaves_update_other:
  assumes "\<And>r. pi_id (f r) = pi_id r" and "j \<noteq> iid \<or> (\<forall>r. \<exists>n. f r = r\<lparr>pi_next := n\<rparr>)"
  shows "leaves iid d (update_publish_intent now j f d)"
proof -
  have "intent_core iid (update_publish_intent now j f d) = intent_core iid d"
    using assms(2)
  proof
    assume "\<forall>r. \<exists>n. f r = r\<lparr>pi_next := n\<rparr>"
    then obtain g where "\<And>r. f r = r\<lparr>pi_next := g r\<rparr>" by metis
    then show ?thesis unfolding intent_core_def by (subst get_updated_intent) (auto simp: option.map_comp comp_def)
  qed (simp add: intent_core_def get_updated_intent assms(1))
  then show ?thesis by (simp add: leaves_def update_publish_intent_def)
qed

lemma get_intent_id: "get_publish_intent iid d = Some r \<Longrightarrow> pi_id r = iid"
  by (auto simp: get_publish_intent_def dest: select_one_Some)

section \<open>Programs that only make allowed changes to the tables\<close>

text \<open>
  The interface between the tables and the programs: a relation \<open>L\<close> that every transaction keeps, with the updates of
  the intents that are \<open>free\<close>. Every program of the BFF then stays within \<open>L\<close>, the drive of a free intent included.
\<close>

locale db_changes =
  fixes R :: "bff \<Rightarrow> bff \<Rightarrow> bool"
    and L :: "bff_db \<Rightarrow> bff_db \<Rightarrow> bool"
    and free :: "string \<Rightarrow> bool"
  assumes R_def: "R s t \<longleftrightarrow> L (bs_db s) (bs_db t)"
    and L_refl: "L d d"
    and L_trans: "L d e \<Longrightarrow> L e e' \<Longrightarrow> L d e'"
    and L_aside: "publish_intents e = publish_intents d \<Longrightarrow> file_artifacts e = file_artifacts d \<Longrightarrow>
      message_artifacts e = message_artifacts d \<Longrightarrow> L d e"
    and L_register: "register_artifact_file E now file owner descriptor d = Inr (x, e) \<Longrightarrow> L d e"
    and L_bind_message: "L d (bind_message_artifact now fresh chat message a direction filename d)"
    and L_create_intent:
      "create_publish_intent now fresh chat owner workspace message response path d = Inr (i, e) \<Longrightarrow> L d e"
    and L_update: "(\<And>r. pi_id (f r) = pi_id r) \<Longrightarrow> free j \<or> (\<forall>r. \<exists>n. f r = r\<lparr>pi_next := n\<rparr>) \<Longrightarrow>
      L d (update_publish_intent now j f d)"
begin

sublocale changes R
  by unfold_locales (auto simp: R_def L_refl intro: L_trans)

lemma L_inserted: "insert_workspace now chat wid d = (b, e) \<Longrightarrow> L d e"
  by (auto simp: insert_workspace_def split: if_splits intro: L_aside L_refl)

lemma L_deleted: "L d (delete_chat_workspace chat wid d)"
  by (rule L_aside) (simp_all add: delete_chat_workspace_def)

lemma L_nonce: "L d (snd (consume_transfer_nonce n e now d))"
  by (rule L_aside) (simp_all add: consume_transfer_nonce_def Let_def)

lemma L_put_response: "put_response_binding now chat message response workspace owner d = Inr (u, e) \<Longrightarrow> L d e"
  by (auto simp: put_response_binding_def result_iffs split: option.splits intro: L_aside L_refl)


lemma calm_step_db:
  assumes "\<And>d a e. f d = Inr (a, e) \<Longrightarrow> L d e" and "\<And>a. guarantees R (k a)"
  shows "guarantees R (step_db f k)"
  unfolding guarantees_def step_db_def
  using assms by (auto simp: stays R_def split: sum.split prod.splits
      intro!: guarantees_from)

lemma calm_transact:
  "(\<And>now fresh d a e. f now fresh d = Inr (a, e) \<Longrightarrow> L d e) \<Longrightarrow> guarantees R (transact f)"
  unfolding transact_def
  by (auto intro!: guarantees_rules calm_step_db split: sum.split bff_reply.split)

lemma calm_query: "guarantees R (query f)"
  unfolding query_def by (intro calm_transact) (auto simp: L_refl)

lemma calm_store: "(\<And>now fresh d. L d (f now fresh d)) \<Longrightarrow> guarantees R (store_db f)"
  unfolding store_db_def by (intro calm_transact) auto

lemma calm_change:
  "(\<And>r. pi_id (f r) = pi_id r) \<Longrightarrow> free j \<or> (\<forall>r. \<exists>n. f r = r\<lparr>pi_next := n\<rparr>) \<Longrightarrow>
    guarantees R (change_intent j f)"
  unfolding change_intent_def by (intro calm_store L_update)

lemma calm_call: "guarantees R (call_io c f)"
  unfolding call_io_def by (auto intro!: guarantees_rules split: sum.split option.split)

lemma calm_request:
  "guarantees R (adapter_request m p b)" "guarantees R (artifact_request m p b)"
  unfolding adapter_request_def artifact_request_def json_request_def
  by (auto intro!: guarantees_rules guarantees_read split: sum.split bff_reply.split option.split json.split)

lemma calm_write: "(\<And>s. bs_db (g s) = bs_db s) \<Longrightarrow> guarantees R p \<Longrightarrow> guarantees R (WriteState g p)"
  by (intro guarantees_write) (simp_all add: R_def L_refl)

lemma calm_holding: "guarantees R p \<Longrightarrow> guarantees R (holding k p)"
  unfolding holding_def
  by (auto intro!: guarantees_rules guarantees_read calm_call calm_write)

lemma calm_leaf:
  "guarantees R draw" "guarantees R loop_time" "guarantees R sleep_io"
  "guarantees R (item_of_dict d k)" "guarantees R (schedule_intent j)"
  "guarantees R (get_message chat message)"
  unfolding draw_def loop_time_def sleep_io_def item_of_dict_def schedule_intent_def get_message_def
  by (auto intro!: calm_call guarantees_rules calm_write)

lemma calm_guards:
  "guarantees R (require_chat_write chat user)" "guarantees R (require_message chat message role)"
  "guarantees R (grant_io cfg operation claims)" "guarantees R (terminal_grant cfg claims)"
  unfolding require_chat_write_def require_message_def grant_io_def terminal_grant_def
  by (auto intro!: guarantees_rules calm_call calm_leaf split: option.split)

lemmas calm_rules = guarantees_rules calm_query calm_call calm_request calm_holding calm_leaf calm_guards

lemma calm_publish_operation: "guarantees R (publish_operation cfg it target)"
  unfolding publish_operation_def by (intro calm_rules)

lemma calm_wait: "guarantees R (wait_publish_operation fuel oid deadline)"
  by (induction fuel) (auto intro!: calm_rules)

lemma calm_await_publish: "guarantees R (await_publish fuel oid)"
  unfolding await_publish_def by (intro calm_rules calm_wait)

lemma calm_attach: "guarantees R (attach_file it descriptor a files)"
  unfolding attach_file_def by (auto intro!: calm_rules)

lemma calm_try_message: "guarantees R (try_message chat message)"
  unfolding try_message_def by (auto intro!: calm_rules split: bff_error.split)

lemma calm_query_bind: "(\<And>d. guarantees R (k (f d))) \<Longrightarrow> guarantees R (bind_io (query f) k)"
proof -
  assume k: "\<And>d. guarantees R (k (f d))"
  have "guarantees R (bind_io (step_db (\<lambda>d. Inr (f d, d)) g) k)"
    if "\<And>a. g a = Done a \<or> (\<exists>e. g a = Raise e)" for g
    unfolding guarantees_def step_db_def
  proof (intro allI, simp)
    fix s
    show "ensures always R (R s) (\<lambda>a. R s) (\<lambda>e. R s)
        (bind_io (g (f (bs_db s))) k) s"
      using that [of "f (bs_db s)"] guarantees_from [OF k [of "bs_db s"] stays] by (auto simp: stays)
  qed
  from this [of Done] this [of "\<lambda>a. Raise (Uncaught ''OperationalError'')"] show ?thesis
    unfolding query_def transact_def
    by (auto intro!: guarantees_await guarantees_leaf split: sum.split bff_reply.split)
qed

subsection \<open>Every other program of the BFF\<close>

lemma calm_retry:
  assumes "free (pi_id it)"
  shows "guarantees R (retry_intent cfg it e b)" "guarantees R (retry_capture_intent cfg it e)"
    "guarantees R (fail_intent it m)"
  unfolding retry_intent_def retry_capture_intent_def fail_intent_def
  using assms by (auto intro!: calm_rules calm_change)

lemma calm_confirm: "free (pi_id it) \<Longrightarrow> guarantees R (confirm_attached cfg it descriptor a)"
  unfolding confirm_attached_def
  by (auto intro!: calm_rules calm_retry calm_store L_bind_message calm_change)

lemma calm_bind_published: "free (pi_id it) \<Longrightarrow> guarantees R (bind_published cfg it)"
  unfolding bind_published_def bind_published_locked_def Let_def
  by (auto intro!: calm_rules calm_retry calm_try_message calm_attach calm_confirm calm_transact
      dest: L_register split: option.split)

lemma calm_finish: "free (pi_id it) \<Longrightarrow> guarantees R (finish_publish_operation cfg it operation)"
  unfolding finish_publish_operation_def
  by (auto intro!: calm_rules calm_retry calm_change calm_query_bind calm_bind_published
      dest!: get_intent_id split: option.split)

lemma calm_upload: "free (pi_id it) \<Longrightarrow> guarantees R (upload_intent cfg fuel it)"
  unfolding upload_intent_def Let_def
  by (auto intro!: calm_rules calm_retry calm_change calm_query_bind calm_await_publish calm_finish
      dest!: get_intent_id split: option.split)

lemma calm_capture: "free (pi_id it) \<Longrightarrow> guarantees R (capture_intent cfg it)"
  unfolding capture_intent_def
  by (auto intro!: calm_rules calm_retry calm_change calm_publish_operation split: option.split)

lemma calm_advance: "free (pi_id it) \<Longrightarrow> guarantees R (advance_intent cfg fuel it)"
  unfolding advance_intent_def Let_def
  by (auto intro!: guarantees_rules calm_bind_published calm_await_publish calm_finish calm_capture calm_query_bind
      calm_upload dest!: get_intent_id split: option.split)

lemma calm_drive: "free j \<Longrightarrow> guarantees R (drive_intent cfg fuel j)"
  unfolding drive_intent_def recover_intent_def Let_def
  by (auto intro!: calm_holding guarantees_rules calm_query_bind calm_advance calm_retry
      dest!: get_intent_id split: option.split)

lemma calm_workspace:
  "guarantees R (release_bff_workspace cfg wid)" "guarantees R (ensure_chat_workspace cfg chat)"
  "guarantees R (release_chat_workspace cfg chat)"
proof -
  show release: "guarantees R (release_bff_workspace cfg wid)" for wid
    unfolding release_bff_workspace_def by (intro calm_rules)
  show "guarantees R (ensure_chat_workspace cfg chat)"
    unfolding ensure_chat_workspace_def create_chat_workspace_def Let_def
    by (auto intro!: calm_rules calm_transact release split: option.split) (rule L_inserted)
  show "guarantees R (release_chat_workspace cfg chat)"
    unfolding release_chat_workspace_def
    by (auto intro!: calm_rules calm_store L_deleted release split: option.split)
qed

lemma calm_attach_item: "guarantees R (attach_item cfg chat user message names file)"
  unfolding attach_item_def readable_file_def may_read_file_def ensure_file_artifact_def
  by (auto intro!: calm_rules calm_store L_bind_message split: option.split)

lemma calm_attach_items: "guarantees R (attach_items cfg chat user message seen names vs)"
  by (induction cfg chat user message seen names vs rule: attach_items.induct)
    (auto intro!: guarantees_rules calm_attach_item split: option.split)

lemma calm_polls:
  "guarantees R (await_capture_barriers fuel workspace deadline)"
  "guarantees R (await_response_binding fuel chat message deadline)"
  by (induction fuel) (auto intro!: calm_rules split: option.split)

lemma calm_previous: "guarantees R (previous_response_binding fuel chat seen pending mid)"
  by (induction fuel chat seen pending mid rule: previous_response_binding.induct)
    (auto simp: Let_def late_binding_def intro!: calm_rules calm_polls)

lemma calm_context: "guarantees R (inject_workspace_context cfg fuel user metadata payload)"
  unfolding inject_workspace_context_def bind_context_def find_previous_def workspace_grant_def checkout_grant_def Let_def
  by (auto intro!: calm_rules calm_workspace calm_previous calm_polls calm_attach_items split: json.split option.split)

lemma calm_record: "guarantees R (record_terminal_response response status txt claims)"
  unfolding record_terminal_response_def bind_response_io_def create_intent_io_def
  by (auto intro!: calm_rules calm_transact dest: L_put_response L_create_intent split: option.split)

lemma calm_terminal: "guarantees R (response_terminal cfg response status txt token)"
proof -
  have "L d e" if "transfer_claims cfg token operation v now d = (r, e)" for operation v now d r e
    using that L_nonce [of d] unfolding transfer_claims_def
    by (auto simp: L_refl split: sum.splits option.splits prod.splits if_splits) (metis snd_conv)+
  then show ?thesis
    unfolding response_terminal_def transfer_claims_io_def
    by (auto intro!: calm_rules calm_transact calm_record)
qed

lemma calm_candidate: "guarantees R (publish_candidate chat message response path user)"
  unfolding publish_candidate_def advance_candidate_def find_intent_def bind_response_io_def create_intent_io_def
  by (auto intro!: calm_rules calm_transact calm_change split: option.split)
    (blast intro: L_put_response L_create_intent)+

lemma calm_register: "guarantees R (upload_file cfg user permitted h)"
  unfolding upload_file_def
  by (auto intro!: calm_rules calm_transact dest: L_register split: sum.split bff_reply.split json.split)

end

interpretation others: db_changes "beside_intent iid" "leaves iid" "\<lambda>j. j \<noteq> iid" for iid
  by unfold_locales
    (auto simp: beside_intent_def leaves_refl leaves_bind_message intro: leaves_trans leaves_aside leaves_register leaves_create_intent
      leaves_update_other)

text \<open>A world in which nobody else runs.\<close>

definition answers :: "bff_error + bff_reply \<Rightarrow> (bff_error, bff_reply, bff) world_step" where
  "answers r = \<lparr>wd_reply = r, wd_others = (\<lambda>s. s)\<rparr>"

lemma answers_simps [simp]: "wd_reply (answers r) = r" "wd_others (answers r) s = s"
  by (simp_all add: answers_def)

end
