(* ===== verification/Bff_Publishing.thy ===== *)
theory Bff_Publishing
  imports Bff_Intents
begin

text \<open>
  What \<open>_drive_intent\<close> keeps: the attempts of an intent stay within the limit, an uploaded intent has the descriptor of
  its Artifact, and an intent that is ready has its file registered and bound to its message.
\<close>

section \<open>The invariant of an intent\<close>

definition core :: "publish_intent \<Rightarrow> publish_intent" where
  "core r = r\<lparr>pi_next := 0, pi_updated := 0\<rparr>"

text \<open>Reading back what \<open>json.dumps\<close> wrote keeps the texts of a dictionary.\<close>

definition reads_back :: "bff_cfg \<Rightarrow> bool" where
  "reads_back cfg \<longleftrightarrow> (\<forall>d a. jget d ''artifact_id'' = JStr a \<longrightarrow>
     (\<exists>e. loads_object cfg (json_dumps (bf_env cfg) (JObj d)) = Inr e \<and> jget e ''artifact_id'' = JStr a))"

definition described :: "bff_cfg \<Rightarrow> publish_intent \<Rightarrow> bool" where
  "described cfg r \<longleftrightarrow> (\<exists>txt d a. pi_descriptor r = Some txt \<and> loads_object cfg txt = Inr d
     \<and> jget d ''artifact_id'' = JStr a \<and> pi_artifact r = Some a)"

definition registered :: "bff_db \<Rightarrow> string \<Rightarrow> bool" where
  "registered d a \<longleftrightarrow> (\<exists>b\<in>set (file_artifacts d). fa_file b = a \<and> fa_artifact b = a)"

definition attached :: "bff_db \<Rightarrow> publish_intent \<Rightarrow> string \<Rightarrow> bool" where
  "attached d r a \<longleftrightarrow> (\<exists>m\<in>set (message_artifacts d). ma_chat m = pi_chat r \<and> ma_message m = pi_message r \<and> ma_artifact m = a)"

definition delivered :: "bff_db \<Rightarrow> publish_intent \<Rightarrow> bool" where
  "delivered d r \<longleftrightarrow> (\<exists>a. pi_artifact r = Some a \<and> registered d a \<and> attached d r a)"

definition intent_row_ok :: "bff_cfg \<Rightarrow> bff_db \<Rightarrow> publish_intent \<Rightarrow> bool" where
  "intent_row_ok cfg d r \<longleftrightarrow>
     0 \<le> pi_attempts r \<and> pi_attempts r \<le> br_retry_limit (bf_settings cfg)
     \<and> (pi_state r = IntentUploading \<longrightarrow> pi_artifact r \<noteq> None)
     \<and> (pi_state r \<in> {IntentUploaded, IntentBindingRetry, IntentReady} \<longrightarrow> described cfg r)
     \<and> (pi_state r = IntentReady \<longrightarrow> delivered d r)"

definition intent_ok :: "bff_cfg \<Rightarrow> string \<Rightarrow> bff \<Rightarrow> bool" where
  "intent_ok cfg iid s \<longleftrightarrow> (\<exists>r. get_publish_intent iid (bs_db s) = Some r \<and> intent_row_ok cfg (bs_db s) r)"

lemma core_fields [simp]:
  "pi_id (core r) = pi_id r" "pi_chat (core r) = pi_chat r" "pi_message (core r) = pi_message r" "pi_state (core r) = pi_state r"
  "pi_artifact (core r) = pi_artifact r" "pi_descriptor (core r) = pi_descriptor r" "pi_attempts (core r) = pi_attempts r"
  by (simp_all add: core_def)

lemma core_eq:
  "core r = core q \<longleftrightarrow> pi_id r = pi_id q \<and> pi_chat r = pi_chat q \<and> pi_owner r = pi_owner q \<and> pi_workspace r = pi_workspace q
     \<and> pi_message r = pi_message q \<and> pi_response r = pi_response q \<and> pi_path r = pi_path q \<and> pi_state r = pi_state q
     \<and> pi_artifact r = pi_artifact q \<and> pi_operation r = pi_operation q \<and> pi_descriptor r = pi_descriptor q
     \<and> pi_attempts r = pi_attempts q \<and> pi_error r = pi_error q \<and> pi_created r = pi_created q"
  by (cases r; cases q) (auto simp: core_def)

lemma intent_row_ok_core: "intent_row_ok cfg d (core r) = intent_row_ok cfg d r"
  by (simp add: intent_row_ok_def described_def delivered_def attached_def)

lemma intent_row_ok_grows:
  assumes "intent_row_ok cfg d r" and "set (file_artifacts d) \<subseteq> set (file_artifacts e)"
    and "set (message_artifacts d) \<subseteq> set (message_artifacts e)"
  shows "intent_row_ok cfg e r"
  using assms unfolding intent_row_ok_def delivered_def registered_def attached_def by blast

section \<open>What is known of the intent that is driven\<close>

definition at_intent :: "string \<Rightarrow> publish_intent \<Rightarrow> bff \<Rightarrow> bool" where
  "at_intent iid it s \<longleftrightarrow> pi_id it = iid \<and> (\<exists>r. get_publish_intent iid (bs_db s) = Some r \<and> core r = core it)"

lemma at_intent_ok: "at_intent iid it s \<Longrightarrow> intent_ok cfg iid s \<longleftrightarrow> intent_row_ok cfg (bs_db s) it"
  unfolding at_intent_def intent_ok_def by (metis intent_row_ok_core option.inject)

lemma core_by: "intent_core iid d = map_option core (get_publish_intent iid d)"
  by (simp add: intent_core_def core_def [abs_def])

lemma at_intent_stable: "at_intent iid it s \<Longrightarrow> beside_intent iid s t \<Longrightarrow> at_intent iid it t"
  unfolding at_intent_def beside_intent_def leaves_def core_by by fastforce

lemma intent_ok_stable: "intent_ok cfg iid s \<Longrightarrow> beside_intent iid s t \<Longrightarrow> intent_ok cfg iid t"
proof -
  assume ok: "intent_ok cfg iid s" and b: "beside_intent iid s t"
  then obtain r where r: "get_publish_intent iid (bs_db s) = Some r" "intent_row_ok cfg (bs_db s) r" by (auto simp: intent_ok_def)
  then have "at_intent iid r s" by (simp add: at_intent_def get_intent_id)
  then have "at_intent iid r t" using b by (rule at_intent_stable)
  moreover have "intent_row_ok cfg (bs_db t) r"
    using r(2) b by (rule_tac intent_row_ok_grows) (auto simp: beside_intent_def leaves_def)
  ultimately show ?thesis by (simp add: at_intent_ok)
qed

lemma registered_stable: "registered (bs_db s) a \<Longrightarrow> beside_intent iid s t \<Longrightarrow> registered (bs_db t) a"
  unfolding registered_def beside_intent_def leaves_def by blast

lemma attached_stable: "attached (bs_db s) r a \<Longrightarrow> beside_intent iid s t \<Longrightarrow> attached (bs_db t) r a"
  unfolding attached_def beside_intent_def leaves_def by blast

lemmas stable = at_intent_stable intent_ok_stable registered_stable attached_stable

abbreviation keeps_intent :: "bff_cfg \<Rightarrow> string \<Rightarrow> 'a bff_io \<Rightarrow> bff \<Rightarrow> bool" where
  "keeps_intent cfg iid p s \<equiv>
     ensures always (beside_intent iid) (intent_ok cfg iid) (\<lambda>a. intent_ok cfg iid) (\<lambda>e. intent_ok cfg iid) p s"

text \<open>The states between which the tables that an intent refers to are the same.\<close>

definition same_tables :: "bff \<Rightarrow> bff \<Rightarrow> bool" where
  "same_tables s t \<longleftrightarrow> file_artifacts (bs_db t) = file_artifacts (bs_db s) \<and> message_artifacts (bs_db t) = message_artifacts (bs_db s)"

lemma ensures_change:
  assumes at: "at_intent iid it s" and ok: "intent_ok cfg iid s"
    and f: "\<And>r. pi_id (f r) = pi_id r" "\<And>r. core r = core it \<Longrightarrow> core (f r) = core (f it)"
    and next': "\<And>t u. beside_intent iid s t \<Longrightarrow> at_intent iid (f it) u \<Longrightarrow> same_tables t u \<Longrightarrow> Q () u \<and> (\<forall>e. E e u)"
    and E: "\<And>e t. beside_intent iid s t \<Longrightarrow> E e t"
  shows "ensures always (beside_intent iid) (intent_ok cfg iid) Q E (change_intent iid f) s"
proof -
  have step: "ensures always (beside_intent iid) (intent_ok cfg iid) Q E
      (step_db (\<lambda>d. Inr ((), update_publish_intent now iid f d)) g) t"
    if t: "beside_intent iid s t" and g: "g () = Done () \<or> (\<exists>e. g () = Raise e)" for t g now
  proof -
    let ?u = "t\<lparr>bs_db := update_publish_intent now iid f (bs_db t)\<rparr>"
    obtain r where r: "get_publish_intent iid (bs_db t) = Some r" "core r = core it" "pi_id it = iid"
      using at_intent_stable [OF at t] by (auto simp: at_intent_def)
    have "core (f r\<lparr>pi_updated := now\<rparr>) = core (f it)" using f(2) [OF r(2)] by (simp add: core_def)
    then have "at_intent iid (f it) ?u"
      using r f(1) by (simp add: at_intent_def get_updated_intent [OF f(1)])
    moreover have "same_tables t ?u" by (simp add: same_tables_def update_publish_intent_def)
    ultimately have "Q () ?u \<and> (\<forall>e. E e ?u)" by (rule next' [OF t])
    then show ?thesis using g by (auto simp: step_db_def)
  qed
  show ?thesis
    unfolding change_intent_def store_db_def transact_def
  proof (simp add: ok, intro allI impI)
    fix r t assume t: "beside_intent iid s t"
    show "ensures always (beside_intent iid) (intent_ok cfg iid) Q E
        (case r of Inl e \<Rightarrow> Raise e
         | Inr (Turn now fresh) \<Rightarrow> step_db (\<lambda>d. Inr ((), update_publish_intent now iid f d)) Done
         | Inr (LostTurn now fresh) \<Rightarrow>
             step_db (\<lambda>d. Inr ((), update_publish_intent now iid f d)) (\<lambda>a. Raise (Uncaught ''OperationalError''))
         | Inr _ \<Rightarrow> Raise (Uncaught ''unexpected answer'')) t"
      using E [OF t] step [OF t, of Done] step [OF t, of "\<lambda>a. Raise (Uncaught ''OperationalError'')"]
      by (cases r) (simp_all split: bff_reply.split)
  qed
qed

lemma row_ok_same_tables: "same_tables t u \<Longrightarrow> intent_row_ok cfg (bs_db u) r = intent_row_ok cfg (bs_db t) r"
  by (simp add: same_tables_def intent_row_ok_def delivered_def registered_def attached_def)

text \<open>A change that keeps the invariant of the row, whatever it does.\<close>

lemma drive_keeps_change:
  assumes "at_intent iid it s" and "intent_ok cfg iid s" and "\<And>r. pi_id (f r) = pi_id r"
    and "\<And>r. core r = core it \<Longrightarrow> core (f r) = core (f it)"
    and "\<And>d. intent_row_ok cfg d it \<Longrightarrow> intent_row_ok cfg d (f it)"
  shows "keeps_intent cfg iid (change_intent iid f) s"
proof (rule ensures_change [OF assms(1-4)])
  fix t u assume t: "beside_intent iid s t" and u: "at_intent iid (f it) u" "same_tables t u"
  have "intent_row_ok cfg (bs_db t) it"
    using at_intent_ok [OF at_intent_stable [OF assms(1) t]] intent_ok_stable [OF assms(2) t] by blast
  then have "intent_row_ok cfg (bs_db u) (f it)" using assms(5) row_ok_same_tables [OF u(2)] by blast
  then show "intent_ok cfg iid u \<and> (\<forall>e::bff_error. intent_ok cfg iid u)" using at_intent_ok [OF u(1)] by blast
qed (assumption, rule intent_ok_stable [OF assms(2)])

lemma drive_keeps_then:
  assumes "guarantees (beside_intent iid) p" and "intent_ok cfg iid s"
    and "\<And>a t. beside_intent iid s t \<Longrightarrow> intent_ok cfg iid t \<Longrightarrow> keeps_intent cfg iid (f a) t"
  shows "keeps_intent cfg iid (bind_io p f) s"
  by (rule others.ensures_then [OF assms(1)]) (use assms(2,3) intent_ok_stable in blast)+

lemma drive_keeps_then_at:
  assumes "guarantees (beside_intent iid) p" and "at_intent iid it s" and "intent_ok cfg iid s"
    and "\<And>a t. at_intent iid it t \<Longrightarrow> intent_ok cfg iid t \<Longrightarrow> keeps_intent cfg iid (f a) t"
  shows "keeps_intent cfg iid (bind_io p f) s"
  by (rule drive_keeps_then [OF assms(1,3)]) (use assms(2,4) at_intent_stable in blast)

lemma drive_keeps_leaf: "intent_ok cfg iid s \<Longrightarrow> guarantees (beside_intent iid) p \<Longrightarrow> keeps_intent cfg iid p s"
  by (rule others.ensures_guarantees) (blast intro: intent_ok_stable)+

lemma drive_keeps_case:
  "(x = None \<Longrightarrow> keeps_intent cfg iid p s) \<Longrightarrow> (\<And>y. x = Some y \<Longrightarrow> keeps_intent cfg iid (q y) s) \<Longrightarrow>
    keeps_intent cfg iid (case x of None \<Rightarrow> p | Some y \<Rightarrow> q y) s"
  by (cases x) auto

lemma drive_keeps_guard: "intent_ok cfg iid s \<Longrightarrow> keeps_intent cfg iid p s \<Longrightarrow> keeps_intent cfg iid (guard_io b e p) s"
  by (simp add: guard_io_def)

section \<open>The operations of an intent\<close>

lemma drive_keeps_retry:
  assumes "at_intent iid it s" and "intent_ok cfg iid s" and "b \<Longrightarrow> described cfg it"
  shows "keeps_intent cfg iid (retry_intent cfg it e b) s"
proof -
  have it: "pi_id it = iid" using assms(1) by (simp add: at_intent_def)
  show ?thesis
    unfolding retry_intent_def it
    by (rule drive_keeps_then [OF others.calm_leaf(1) assms(2)], clarsimp, rule drive_keeps_change [OF at_intent_stable [OF assms(1)]])
      (use assms(3) in \<open>auto simp: core_eq intent_row_ok_def retry_state_def described_def\<close>)
qed

lemma drive_keeps_retry_capture:
  assumes "at_intent iid it s" and "intent_ok cfg iid s"
  shows "keeps_intent cfg iid (retry_capture_intent cfg it e) s"
proof -
  have it: "pi_id it = iid" using assms(1) by (simp add: at_intent_def)
  show ?thesis
    unfolding retry_capture_intent_def it
    by (rule drive_keeps_then [OF others.calm_leaf(1) assms(2)], clarsimp, rule drive_keeps_change [OF at_intent_stable [OF assms(1)]])
      (auto simp: core_eq intent_row_ok_def)
qed

lemma drive_keeps_fail:
  assumes "at_intent iid it s" and "intent_ok cfg iid s"
  shows "keeps_intent cfg iid (fail_intent it m) s"
proof -
  have it: "pi_id it = iid" using assms(1) by (simp add: at_intent_def)
  show ?thesis
    unfolding fail_intent_def it
    by (rule drive_keeps_change [OF assms]) (auto simp: core_eq intent_row_ok_def)
qed

lemma intent_ok_db: "bs_db t = bs_db s \<Longrightarrow> intent_ok cfg iid t = intent_ok cfg iid s"
  by (simp add: intent_ok_def)

lemma beside_same_db: "bs_db t = bs_db s \<Longrightarrow> beside_intent iid s t"
  by (simp add: beside_intent_def leaves_refl)

lemma drive_keeps_bind:
  "ensures always (beside_intent iid) (intent_ok cfg iid) (\<lambda>a. keeps_intent cfg iid (f a)) (\<lambda>e. intent_ok cfg iid) p s \<Longrightarrow>
    keeps_intent cfg iid (bind_io p f) s"
  by (rule ensures_bind)

lemma drive_keeps_holding:
  assumes "intent_ok cfg iid s" and "\<And>t. beside_intent iid s t \<Longrightarrow> intent_ok cfg iid t \<Longrightarrow> keeps_intent cfg iid p t"
  shows "keeps_intent cfg iid (holding k p) s"
  unfolding holding_def
proof (rule drive_keeps_then [OF others.calm_call assms(1)], simp, intro conjI impI)
  fix t assume t: "beside_intent iid s t" "intent_ok cfg iid t"
  let ?t = "t\<lparr>bs_locks := k # bs_locks t\<rparr>"
  have "beside_intent iid s ?t" "intent_ok cfg iid ?t"
    using t intent_ok_db [of ?t t] by (simp_all add: beside_intent_def)
  then have "keeps_intent cfg iid p ?t" by (rule assms(2))
  then show "keeps_intent cfg iid (finally_io p (WriteState (\<lambda>t. t\<lparr>bs_locks := remove1 k (bs_locks t)\<rparr>) (Done ()))) ?t"
    by (intro ensures_finally) (elim ensures_mono, simp_all add: intent_ok_def)
qed

lemma drive_keeps_catch:
  assumes "keeps_intent cfg iid p s" and "\<And>e t. intent_ok cfg iid t \<Longrightarrow> keeps_intent cfg iid (h e) t"
  shows "keeps_intent cfg iid (catch_io p h) s"
  by (rule ensures_catch, rule ensures_mono [OF assms(1)]) (use assms(2) in auto)

lemma ensures_transact:
  assumes "intent_ok cfg iid s" and "\<And>e t. beside_intent iid s t \<Longrightarrow> E e t"
    and "\<And>now fresh t. beside_intent iid s t \<Longrightarrow>
      (case f now fresh (bs_db t) of Inl e \<Rightarrow> E e t | Inr (a, d) \<Rightarrow> Q a (t\<lparr>bs_db := d\<rparr>) \<and> (\<forall>e. E e (t\<lparr>bs_db := d\<rparr>)))"
  shows "ensures always (beside_intent iid) (intent_ok cfg iid) Q E (transact f) s"
  unfolding transact_def
proof (simp add: assms(1), intro allI impI)
  fix r t assume t: "beside_intent iid s t"
  show "ensures always (beside_intent iid) (intent_ok cfg iid) Q E
      (case r of Inl e \<Rightarrow> Raise e
       | Inr (Turn now fresh) \<Rightarrow> step_db (f now fresh) Done
       | Inr (LostTurn now fresh) \<Rightarrow> step_db (f now fresh) (\<lambda>a. Raise (Uncaught ''OperationalError''))
       | Inr _ \<Rightarrow> Raise (Uncaught ''unexpected answer'')) t"
  proof -
    have done': "ensures always (beside_intent iid) (intent_ok cfg iid) Q E (step_db (f now fresh) Done) t"
      and lost: "ensures always (beside_intent iid) (intent_ok cfg iid) Q E (step_db (f now fresh) (\<lambda>a. Raise e)) t" for now fresh e
      using assms(3) [OF t, of now fresh] by (auto simp: step_db_def split: sum.splits prod.splits)
    show ?thesis using assms(2) [OF t] done' lost by (cases r) (simp_all split: bff_reply.split)
  qed
qed

lemma keeps_query:
  assumes "intent_ok cfg iid s"
    and "\<And>c t. beside_intent iid s t \<Longrightarrow> get_publish_intent iid (bs_db t) = Some c \<Longrightarrow> at_intent iid c t \<Longrightarrow> intent_ok cfg iid t \<Longrightarrow>
      keeps_intent cfg iid (k (Some c)) t"
  shows "keeps_intent cfg iid (bind_io (query (get_publish_intent iid)) k) s"
  unfolding query_def
proof (rule drive_keeps_bind, rule ensures_transact [OF assms(1)], rule intent_ok_stable [OF assms(1)], assumption, simp)
  fix t assume t: "beside_intent iid s t"
  have ok: "intent_ok cfg iid t" by (rule intent_ok_stable [OF assms(1) t])
  then obtain c where c: "get_publish_intent iid (bs_db t) = Some c" by (auto simp: intent_ok_def)
  then have "at_intent iid c t" by (simp add: at_intent_def get_intent_id)
  with assms(2) [OF t c this ok] ok c
  show "keeps_intent cfg iid (k (get_publish_intent iid (bs_db t))) t \<and> intent_ok cfg iid t" by simp
qed

text \<open>Where the row was known, the fetched one is the same but for its times.\<close>

lemma at_intent_fetched:
  "at_intent iid it s \<Longrightarrow> beside_intent iid s t \<Longrightarrow> get_publish_intent iid (bs_db t) = Some c \<Longrightarrow> core c = core it"
  using at_intent_stable [of iid it s t] by (auto simp: at_intent_def)

subsection \<open>Binding\<close>

lemma keeps_confirm:
  assumes at: "at_intent iid it s" and ok: "intent_ok cfg iid s" and it: "described cfg it" "pi_artifact it = Some a"
    and reg: "registered (bs_db s) a"
  shows "keeps_intent cfg iid (confirm_attached cfg it descriptor a) s"
proof -
  have iid: "pi_id it = iid" using at by (simp add: at_intent_def)
  let ?ready = "it\<lparr>pi_state := IntentReady, pi_error := None\<rparr>"
  have ready: "keeps_intent cfg iid
      (bind_io (change_intent iid (\<lambda>r. r\<lparr>pi_state := IntentReady, pi_error := None\<rparr>)) (\<lambda>u. call_io c f)) t"
    if "beside_intent iid s t" "attached (bs_db t) it a" for t c and f :: "bff_reply \<Rightarrow> unit option"
  proof (rule drive_keeps_bind, rule ensures_change [OF at_intent_stable [OF at that(1)] intent_ok_stable [OF ok that(1)]])
    fix u v assume u: "beside_intent iid t u" and v: "at_intent iid ?ready v" "same_tables u v"
    have su: "beside_intent iid s u" using that(1) u by (rule others.follows)
    have "intent_row_ok cfg (bs_db u) it"
      using at_intent_ok [OF at_intent_stable [OF at su]] intent_ok_stable [OF ok su] by blast
    moreover have "registered (bs_db u) a" "attached (bs_db u) it a"
      using registered_stable [OF reg su] attached_stable [OF that(2) u] by blast+
    ultimately have "intent_row_ok cfg (bs_db u) ?ready"
      using it by (auto simp: intent_row_ok_def described_def delivered_def attached_def)
    then have "intent_row_ok cfg (bs_db v) ?ready" using row_ok_same_tables [OF v(2)] by blast
    then have "intent_ok cfg iid v" using at_intent_ok [OF v(1)] by blast
    then show "keeps_intent cfg iid (call_io c f) v \<and> (\<forall>e::bff_error. intent_ok cfg iid v)"
      using drive_keeps_leaf others.calm_call by blast
  qed (auto simp: core_eq intro: intent_ok_stable [OF intent_ok_stable [OF ok that(1)]])
  show ?thesis
    unfolding confirm_attached_def iid
  proof (rule drive_keeps_then [OF others.calm_guards(2) ok], rule drive_keeps_then [OF others.guarantees_leaf(4)], assumption)
    fix saved t there u assume t: "beside_intent iid s t" "beside_intent iid t u" and oku: "intent_ok cfg iid u"
    have u: "beside_intent iid s u" using t by (rule others.follows)
    show "keeps_intent cfg iid
        (if \<not> there then retry_intent cfg it ''Assistant attachment is not committed yet'' True
         else bind_io (item_of_dict descriptor ''filename'') (\<lambda>name.
           bind_io (store_db (\<lambda>now fresh. bind_message_artifact now fresh (pi_chat it) (pi_message it) a ''output'' (text_of cfg name))) (\<lambda>u.
           bind_io (change_intent iid (\<lambda>r. r\<lparr>pi_state := IntentReady, pi_error := None\<rparr>)) (\<lambda>u.
           call_io (EmitFiles (pi_owner it) (pi_chat it) (pi_message it) (saved_files saved)) done_of)))) u"
    proof (cases there)
      case True
      show ?thesis
      proof (simp only: True not_True_eq_False if_False, rule drive_keeps_then [OF others.calm_leaf(4) oku], rule drive_keeps_bind)
        fix name v assume v: "beside_intent iid u v" "intent_ok cfg iid v"
        have sv: "beside_intent iid s v" using u v(1) by (rule others.follows)
        show "ensures always (beside_intent iid) (intent_ok cfg iid)
            (\<lambda>b. keeps_intent cfg iid (bind_io (change_intent iid (\<lambda>r. r\<lparr>pi_state := IntentReady, pi_error := None\<rparr>)) (\<lambda>u.
              call_io (EmitFiles (pi_owner it) (pi_chat it) (pi_message it) (saved_files saved)) done_of)))
            (\<lambda>e. intent_ok cfg iid)
            (store_db (\<lambda>now fresh. bind_message_artifact now fresh (pi_chat it) (pi_message it) a ''output'' (text_of cfg name))) v"
          unfolding store_db_def
        proof (rule ensures_transact [OF v(2)], rule intent_ok_stable [OF v(2)], assumption, simp)
          fix now fresh w assume w: "beside_intent iid v w"
          let ?w = "w\<lparr>bs_db := bind_message_artifact now fresh (pi_chat it) (pi_message it) a ''output'' (text_of cfg name) (bs_db w)\<rparr>"
          have "beside_intent iid w ?w" by (simp add: beside_intent_def leaves_bind_message)
          then have sw: "beside_intent iid s ?w" using sv w others.follows by blast
          have "attached (bs_db ?w) it a"
            by (auto simp: attached_def bind_message_artifact_def list_ex_iff)
          then show "keeps_intent cfg iid (bind_io (change_intent iid (\<lambda>r. r\<lparr>pi_state := IntentReady, pi_error := None\<rparr>)) (\<lambda>u.
              call_io (EmitFiles (pi_owner it) (pi_chat it) (pi_message it) (saved_files saved)) done_of)) ?w \<and> intent_ok cfg iid ?w"
            using ready [OF sw] intent_ok_stable [OF ok sw] by blast
        qed
      qed
    qed (simp add: drive_keeps_retry at_intent_stable [OF at u] oku it)
  qed
qed

lemma keeps_bind_published:
  assumes at: "at_intent iid it s" and ok: "intent_ok cfg iid s" and it: "described cfg it"
  shows "keeps_intent cfg iid (bind_published cfg it) s"
  unfolding bind_published_def
proof (rule drive_keeps_holding [OF ok])
  fix t assume t: "beside_intent iid s t" and okt: "intent_ok cfg iid t"
  have att: "at_intent iid it t" by (rule at_intent_stable [OF at t])
  obtain words d a where d: "pi_descriptor it = Some words" "loads_object cfg words = Inr d" "jget d ''artifact_id'' = JStr a" "pi_artifact it = Some a"
    using it by (auto simp: described_def)
  have a: "column_any d ''artifact_id'' = Inr (JStr a)"
    using d(3) by (auto simp: column_any_def jget_def split: option.splits)
  have plain: "text_of cfg (JStr a) = a" by (simp add: text_of_def)
  have registers: "keeps_intent cfg iid
      (bind_io (transact (\<lambda>now fresh. register_artifact_file (bf_env cfg) now a (pi_owner it) d)) (\<lambda>f.
       bind_io (attach_file it d a files) (\<lambda>attached.
       if \<not> attached then retry_intent cfg it ''Assistant message could not be updated'' True
       else confirm_attached cfg it d a))) u" if u: "beside_intent iid t u" for u files
  proof (rule drive_keeps_bind, rule ensures_transact [OF intent_ok_stable [OF okt u]])
    fix e v assume "beside_intent iid u v"
    then show "intent_ok cfg iid v" using u okt by (blast intro: intent_ok_stable)
  next
    fix now fresh v assume v: "beside_intent iid u v"
    have tv: "beside_intent iid t v" using u v by (rule others.follows)
    show "case register_artifact_file (bf_env cfg) now a (pi_owner it) d (bs_db v) of
        Inl e \<Rightarrow> intent_ok cfg iid v
      | Inr (f, d') \<Rightarrow> keeps_intent cfg iid
          (bind_io (attach_file it d a files) (\<lambda>attached.
           if \<not> attached then retry_intent cfg it ''Assistant message could not be updated'' True
           else confirm_attached cfg it d a)) (v\<lparr>bs_db := d'\<rparr>)
         \<and> (\<forall>e. intent_ok cfg iid (v\<lparr>bs_db := d'\<rparr>))"
    proof (cases "register_artifact_file (bf_env cfg) now a (pi_owner it) d (bs_db v)")
      case (Inr x)
      obtain f d' where x: "x = (f, d')" by (cases x)
      let ?v = "v\<lparr>bs_db := d'\<rparr>"
      have reg: "registered d' a"
        using Inr d(3) by (auto simp: x register_artifact_file_def registered_def result_iffs Let_def column_any_def column_text_def
            jget_def split: option.splits dest!: select_one_Some)
      have "beside_intent iid v ?v" using leaves_register [OF Inr [unfolded x]] by (simp add: beside_intent_def)
      then have tv': "beside_intent iid t ?v" using tv others.follows by blast
      have okv: "intent_ok cfg iid ?v" by (rule intent_ok_stable [OF okt tv'])
      have "keeps_intent cfg iid
          (bind_io (attach_file it d a files) (\<lambda>attached.
           if \<not> attached then retry_intent cfg it ''Assistant message could not be updated'' True
           else confirm_attached cfg it d a)) ?v"
      proof (rule drive_keeps_then [OF others.calm_attach okv])
        fix x w assume w: "beside_intent iid ?v w" "intent_ok cfg iid w"
        have atw: "at_intent iid it w" using at_intent_stable [OF att] tv' w(1) at_intent_stable by blast
        have "registered (bs_db w) a" using registered_stable [OF _ w(1)] reg by simp
        then show "keeps_intent cfg iid
            (if \<not> x then retry_intent cfg it ''Assistant message could not be updated'' True else confirm_attached cfg it d a) w"
          using drive_keeps_retry [OF atw w(2)] keeps_confirm [OF atw w(2) it d(4)] it by simp
      qed
      then show ?thesis using okv by (simp add: Inr x)
    qed (simp add: intent_ok_stable [OF okt tv])
  qed
  show "keeps_intent cfg iid (bind_published_locked cfg it) t"
    unfolding bind_published_locked_def
  proof (simp only: d(1,2) option.case lift_result_def sum.case bind_io.simps, rule drive_keeps_then [OF others.calm_try_message okt])
    fix m u assume u: "beside_intent iid t u" "intent_ok cfg iid u"
    show "keeps_intent cfg iid
        (case m of
           None \<Rightarrow> retry_intent cfg it ''Assistant message is not committed yet'' True
         | Some m \<Rightarrow>
             bind_io (item_of_dict d ''artifact_id'') (\<lambda>v.
             let a = text_of cfg v; files = (case jget m ''files'' of JList vs \<Rightarrow> vs | _ \<Rightarrow> [])
             in bind_io (transact (\<lambda>now fresh. register_artifact_file (bf_env cfg) now a (pi_owner it) d)) (\<lambda>f.
                bind_io (attach_file it d a files) (\<lambda>attached.
                if \<not> attached then retry_intent cfg it ''Assistant message could not be updated'' True
                else confirm_attached cfg it d a)))) u"
    proof (cases m)
      case None
      then show ?thesis using drive_keeps_retry [OF at_intent_stable [OF att u(1)] u(2)] it by simp
    next
      case (Some m')
      then show ?thesis by (simp add: item_of_dict_def a lift_result_def Let_def plain cong: if_cong) (rule registers [OF u(1)])
    qed
  qed
qed

subsection \<open>Uploading and capturing\<close>

lemma keeps_finish:
  assumes at: "at_intent iid it s" and ok: "intent_ok cfg iid s" and it: "pi_artifact it \<noteq> None" and codec: "reads_back cfg"
  shows "keeps_intent cfg iid (finish_publish_operation cfg it operation) s"
proof (cases "jget operation ''status'' = JStr ''succeeded''")
  case False
  then show ?thesis
    unfolding finish_publish_operation_def using drive_keeps_retry [OF at ok] drive_keeps_fail [OF at ok] by simp
next
  case True
  have iid: "pi_id it = iid" using at by (simp add: at_intent_def)
  show ?thesis
  proof (cases "published_descriptor it operation")
    case None
    then show ?thesis unfolding finish_publish_operation_def using True drive_keeps_retry [OF at ok] by simp
  next
    case (Some d)
    obtain a where a: "pi_artifact it = Some a" using it by blast
    have da: "jget d ''artifact_id'' = JStr a"
      using Some a by (auto simp: published_descriptor_def split: json.splits if_splits)
    let ?f = "\<lambda>r. r\<lparr>pi_state := IntentUploaded, pi_descriptor := Some (json_dumps (bf_env cfg) (JObj d)), pi_error := None\<rparr>"
    have described: "described cfg (?f it)" using codec da a by (auto simp: reads_back_def described_def)
    have "keeps_intent cfg iid (bind_io (change_intent iid ?f) (\<lambda>u.
        bind_io (query (get_publish_intent iid)) (\<lambda>current. case current of None \<Rightarrow> Done () | Some c \<Rightarrow> bind_published cfg c))) s"
    proof (rule drive_keeps_bind, rule ensures_change [OF at ok])
      fix t u assume t: "beside_intent iid s t" and u: "at_intent iid (?f it) u" "same_tables t u"
      have "intent_row_ok cfg (bs_db t) it" using at_intent_ok [OF at_intent_stable [OF at t]] intent_ok_stable [OF ok t] by blast
      then have "intent_row_ok cfg (bs_db t) (?f it)" using described by (simp add: intent_row_ok_def)
      then have "intent_row_ok cfg (bs_db u) (?f it)" using row_ok_same_tables [OF u(2)] by blast
      then have oku: "intent_ok cfg iid u" using at_intent_ok [OF u(1)] by blast
      have "keeps_intent cfg iid (bind_io (query (get_publish_intent iid)) (\<lambda>current.
          case current of None \<Rightarrow> Done () | Some c \<Rightarrow> bind_published cfg c)) u"
      proof (rule keeps_query [OF oku], simp)
        fix c v assume v: "beside_intent iid u v" "get_publish_intent iid (bs_db v) = Some c" "at_intent iid c v" "intent_ok cfg iid v"
        have "core c = core (?f it)" by (rule at_intent_fetched [OF u(1) v(1,2)])
        then have "described cfg c" using described by (auto simp: core_eq described_def)
        then show "keeps_intent cfg iid (bind_published cfg c) v" using keeps_bind_published [OF v(3,4)] by blast
      qed
      then show "keeps_intent cfg iid (bind_io (query (get_publish_intent iid)) (\<lambda>current.
          case current of None \<Rightarrow> Done () | Some c \<Rightarrow> bind_published cfg c)) u \<and> (\<forall>e::bff_error. intent_ok cfg iid u)" using oku by blast
    qed (auto simp: core_eq intro: intent_ok_stable [OF ok])
    then show ?thesis unfolding finish_publish_operation_def using True Some iid by simp
  qed
qed

text \<open>A change that keeps the invariant, and what is known after it.\<close>

lemma keeps_change_then:
  assumes at: "at_intent iid it s" and ok: "intent_ok cfg iid s" and f: "\<And>r. pi_id (f r) = pi_id r"
    "\<And>r. core r = core it \<Longrightarrow> core (f r) = core (f it)" and row: "\<And>d. intent_row_ok cfg d it \<Longrightarrow> intent_row_ok cfg d (f it)"
    and k: "\<And>u. at_intent iid (f it) u \<Longrightarrow> intent_ok cfg iid u \<Longrightarrow> keeps_intent cfg iid k u"
  shows "keeps_intent cfg iid (bind_io (change_intent iid f) (\<lambda>x. k)) s"
proof (rule drive_keeps_bind, rule ensures_change [OF at ok f])
  fix t u assume t: "beside_intent iid s t" and u: "at_intent iid (f it) u" "same_tables t u"
  have "intent_row_ok cfg (bs_db t) it" using at_intent_ok [OF at_intent_stable [OF at t]] intent_ok_stable [OF ok t] by blast
  then have "intent_ok cfg iid u" using row row_ok_same_tables [OF u(2)] at_intent_ok [OF u(1)] by blast
  then show "keeps_intent cfg iid k u \<and> (\<forall>e::bff_error. intent_ok cfg iid u)" using k [OF u(1)] by blast
qed (assumption, rule intent_ok_stable [OF ok])

lemma keeps_upload:
  assumes at: "at_intent iid it s" and ok: "intent_ok cfg iid s" and it: "pi_state it \<in> {IntentCaptured, IntentRetryable}"
    and codec: "reads_back cfg"
  shows "keeps_intent cfg iid (upload_intent cfg fuel it) s"
proof (cases "br_retry_limit (bf_settings cfg) \<le> pi_attempts it")
  case True
  then show ?thesis unfolding upload_intent_def using drive_keeps_fail [OF at ok] by simp
next
  case False
  have iid: "pi_id it = iid" using at by (simp add: at_intent_def)
  note here = at_intent_stable [OF at]
  have uploaded: "keeps_intent cfg iid
      (bind_io (change_intent iid (\<lambda>r. r\<lparr>pi_operation := Some oid, pi_state := IntentUploading\<rparr>)) (\<lambda>u.
       bind_io (if waiting then await_publish fuel oid else Done operation) (\<lambda>operation.
       bind_io (query (get_publish_intent iid)) (\<lambda>current.
       case current of None \<Rightarrow> Done () | Some c \<Rightarrow> finish_publish_operation cfg c operation)))) t"
    if t: "at_intent iid jt t" "intent_ok cfg iid t" "pi_artifact jt \<noteq> None" for jt t oid operation waiting
  proof (rule keeps_change_then [OF t(1,2)])
    fix u assume u: "at_intent iid (jt\<lparr>pi_operation := Some oid, pi_state := IntentUploading\<rparr>) u" "intent_ok cfg iid u"
    show "keeps_intent cfg iid
      (bind_io (if waiting then await_publish fuel oid else Done operation) (\<lambda>operation.
       bind_io (query (get_publish_intent iid)) (\<lambda>current.
       case current of None \<Rightarrow> Done () | Some c \<Rightarrow> finish_publish_operation cfg c operation))) u"
    proof (rule drive_keeps_then [OF _ u(2)])
      fix op v assume v: "beside_intent iid u v" "intent_ok cfg iid v"
      show "keeps_intent cfg iid (bind_io (query (get_publish_intent iid)) (\<lambda>current.
          case current of None \<Rightarrow> Done () | Some c \<Rightarrow> finish_publish_operation cfg c op)) v"
      proof (rule keeps_query [OF v(2)], simp)
        fix c w assume w: "beside_intent iid v w" "get_publish_intent iid (bs_db w) = Some c" "at_intent iid c w" "intent_ok cfg iid w"
        have "core c = core (jt\<lparr>pi_operation := Some oid, pi_state := IntentUploading\<rparr>)"
          by (rule at_intent_fetched [OF at_intent_stable [OF u(1) v(1)] w(1,2)])
        then have "pi_artifact c \<noteq> None" using t(3) by (simp add: core_eq)
        then show "keeps_intent cfg iid (finish_publish_operation cfg c op) w" using keeps_finish [OF w(3,4) _ codec] by blast
      qed
    qed (auto intro: others.calm_await_publish others.guarantees_leaf)
  qed (use t(3) in \<open>auto simp: core_eq intent_row_ok_def\<close>)
  note at_rule = drive_keeps_then_at [where it = it]
  show ?thesis
    unfolding upload_intent_def iid
    using False
    apply simp
    apply (rule at_rule [OF others.calm_call at ok])
    subgoal premises t for owner t
      using t
      apply (cases owner)
       apply (simp add: drive_keeps_fail)
      apply simp
      apply (rule at_rule [OF others.calm_guards(1)], assumption+)
      apply (rule at_rule [OF others.calm_request(2)], assumption+)
      apply (rule at_rule [OF others.calm_leaf(4)], assumption+)
      apply (simp only: Let_def)
      apply (rule at_rule [OF others.calm_leaf(4)], assumption+)
      apply (rule at_rule [OF others.calm_leaf(4)], assumption+)
      apply (rule at_rule [OF others.calm_guards(3)], assumption+)
      apply (rule at_rule [OF others.calm_leaf(1)], assumption+)
      apply (simp only: split_beta)
      apply (rule keeps_change_then [where it = it], assumption, assumption)
         apply simp
        apply (simp add: core_eq)
       apply (use it False in \<open>auto simp: intent_row_ok_def\<close>) [1]
      apply (rule drive_keeps_then_at [OF others.calm_request(1)], assumption+)
      apply (rule drive_keeps_case)
       apply (rule drive_keeps_leaf, assumption, rule others.guarantees_leaf)
      apply (rule uploaded, assumption, assumption)
      apply simp
      done
    done
qed

lemma keeps_capture:
  assumes at: "at_intent iid it s" and ok: "intent_ok cfg iid s"
  shows "keeps_intent cfg iid (capture_intent cfg it) s"
proof -
  have iid: "pi_id it = iid" using at by (simp add: at_intent_def)
  have fields: "keeps_intent cfg iid (change_intent iid (\<lambda>r. r\<lparr>pi_operation := Some oid, pi_state := IntentCaptured, pi_error := None\<rparr>)) t"
    if "at_intent iid it t" "intent_ok cfg iid t" for oid t
    by (rule drive_keeps_change [OF that]) (auto simp: core_eq intent_row_ok_def)
  have bound: "keeps_intent cfg iid (bind_io (change_intent iid (\<lambda>r. r\<lparr>pi_operation := Some oid\<rparr>)) (\<lambda>u.
      if bad then fail_intent it m else Done ())) t"
    if "at_intent iid it t" "intent_ok cfg iid t" for oid t bad m
  proof (rule keeps_change_then [OF that])
    fix u assume u: "at_intent iid (it\<lparr>pi_operation := Some oid\<rparr>) u" "intent_ok cfg iid u"
    have "fail_intent it m = fail_intent (it\<lparr>pi_operation := Some oid\<rparr>) m" by (simp add: fail_intent_def)
    then show "keeps_intent cfg iid (if bad then fail_intent it m else Done ()) u" using drive_keeps_fail [OF u] u(2) by simp
  qed (auto simp: core_eq intent_row_ok_def described_def delivered_def attached_def)
  show ?thesis
    unfolding capture_intent_def iid
    apply (rule drive_keeps_then_at [OF others.calm_publish_operation at ok])
    subgoal for operation t
      using fields bound by (cases "as_str (jget operation ''id'')") (simp_all add: drive_keeps_leaf others.guarantees_leaf)
    done
qed

subsection \<open>Driving\<close>

lemma drive_keeps_advance:
  assumes at: "at_intent iid it s" and ok: "intent_ok cfg iid s" and codec: "reads_back cfg"
  shows "keeps_intent cfg iid (advance_intent cfg fuel it) s"
proof -
  have iid: "pi_id it = iid" using at by (simp add: at_intent_def)
  have row: "intent_row_ok cfg (bs_db s) it" using at_intent_ok [OF at] ok by blast
  have captured: "keeps_intent cfg iid (bind_io (capture_intent cfg it) (\<lambda>u.
      bind_io (query (get_publish_intent iid)) (\<lambda>current.
      let now = (case current of None \<Rightarrow> it | Some c \<Rightarrow> c)
      in if pi_state now = IntentCaptured then upload_intent cfg fuel now else Done ()))) s"
  proof (rule drive_keeps_bind, rule ensures_mono [OF keeps_capture [OF at ok]])
    fix u t assume t: "intent_ok cfg iid t"
    show "keeps_intent cfg iid (bind_io (query (get_publish_intent iid)) (\<lambda>current.
      let now = (case current of None \<Rightarrow> it | Some c \<Rightarrow> c)
      in if pi_state now = IntentCaptured then upload_intent cfg fuel now else Done ())) t"
      by (rule keeps_query [OF t]) (auto simp: Let_def intro: keeps_upload codec)
  qed
  have waits: "keeps_intent cfg iid (bind_io (await_publish fuel oid) (finish_publish_operation cfg it)) s"
    if "pi_state it = IntentUploading" for oid
    by (rule drive_keeps_then_at [OF others.calm_await_publish at ok])
      (use that row codec in \<open>auto simp: intent_row_ok_def intro!: keeps_finish\<close>)
  show ?thesis
    unfolding advance_intent_def iid
    using captured waits keeps_bind_published [OF at ok] keeps_upload [OF at ok _ codec] row ok
    by (auto simp: intent_row_ok_def)
qed

lemma drive_keeps_drive:
  assumes ok: "intent_ok cfg iid s" and codec: "reads_back cfg"
  shows "keeps_intent cfg iid (drive_intent cfg fuel iid) s"
  unfolding drive_intent_def
proof (rule drive_keeps_holding [OF ok], rule keeps_query)
  fix t u c assume u: "at_intent iid c u" "intent_ok cfg iid u"
  have iid: "pi_id c = iid" using u(1) by (simp add: at_intent_def)
  have recover: "keeps_intent cfg iid (recover_intent cfg c e) v" if v: "intent_ok cfg iid v" for e v
    unfolding recover_intent_def iid
    by (rule keeps_query [OF v]) (auto simp: Let_def intro: drive_keeps_retry drive_keeps_retry_capture)
  show "keeps_intent cfg iid (case Some c of
      None \<Rightarrow> Done ()
    | Some it \<Rightarrow>
        if pi_state it \<in> {IntentReady, IntentFailed} then Done ()
        else catch_io (advance_intent cfg fuel it) (recover_intent cfg it)) u"
    using u(2) drive_keeps_catch [OF drive_keeps_advance [OF u codec] recover] by auto
qed

text \<open>
  C34. While an intent is driven, whatever the calls answer and whenever the process ends: its attempts stay within
  the limit of the settings, an uploaded intent keeps the descriptor of its Artifact, and an intent that is ready has its
  file registered under the id of the Artifact and bound to its message, so that the download route serves it. Others
  may do to the tables what every other program of the BFF does.
\<close>

theorem ready_means_delivered:
  assumes "intent_ok cfg iid s" and "reads_back cfg"
    and "list_all (\<lambda>x. \<forall>s. beside_intent iid s (wd_others x s)) w"
    and "run (drive_intent cfg fuel iid) w s = (cs, r, t)"
  shows "intent_ok cfg iid t"
  using ensures_run [OF drive_keeps_drive [OF assms(1,2)] assms(4) obeys_all [OF assms(3)]]
  by (auto split: option.splits sum.splits)

section \<open>A published file that is lost again\<close>

lemma register_keeps_intents: "register_artifact_file E now a owner d db = Inr (f, e) \<Longrightarrow> publish_intents e = publish_intents db"
  by (auto simp: register_artifact_file_def result_iffs Let_def split: option.splits)

lemma bind_keeps_intents: "publish_intents (bind_message_artifact now fresh c m a dir n db) = publish_intents db"
  by (simp add: bind_message_artifact_def)

lemma update_keeps_tables:
  "file_artifacts (update_publish_intent now i f db) = file_artifacts db"
  "message_artifacts (update_publish_intent now i f db) = message_artifacts db"
  by (simp_all add: update_publish_intent_def)

lemma bind_keeps_files: "file_artifacts (bind_message_artifact now fresh c m a dir n db) = file_artifacts db"
  by (simp add: bind_message_artifact_def)

lemma has_file_list: "has_file a vs = Inr True \<Longrightarrow> list_ex (\<lambda>v. case v of JObj d \<Rightarrow> jget d ''id'' = JStr a | _ \<Rightarrow> False) vs"
  by (induction a vs rule: has_file.induct) (auto split: if_splits)

text \<open>The answers to one drive of an uploaded intent whose message has the file already; the emission of the event fails.\<close>

definition failing_emission :: "obj \<Rightarrow> int \<Rightarrow> string \<Rightarrow> bff_error \<Rightarrow> (bff_error, bff_reply, bff) world_step list" where
  "failing_emission m now fresh e =
     map answers [Inr Acknowledged, Inr (Turn now fresh), Inr Acknowledged, Inr (MessageRow (Some m)), Inr (Turn now fresh),
       Inr (MessageRow (Some m)), Inr (Turn now fresh), Inr (Turn now fresh), Inl e, Inr (Turn now fresh), Inr (Turn now fresh),
       Inr (Turn now fresh)]"

text \<open>
  C40. The file of an intent is published, registered and bound to its message, and the intent is ready; then the event
  for the browser cannot be emitted. The exception is taken for a failure of the publication: the intent
  ends as one that has to be uploaded again, or, when its attempts are used up, as failed, although the file is there.
\<close>

theorem emission_failure_undoes_ready:
  assumes r: "get_publish_intent iid (bs_db s) = Some r" "pi_state r = IntentUploaded" "pi_descriptor r = Some words"
    and d: "loads_object cfg words = Inr d" "jget d ''artifact_id'' = JStr a" "column_any d ''filename'' = Inr name"
    and reg: "register_artifact_file (bf_env cfg) now a (pi_owner r) d (bs_db s) = Inr (f, db)"
    and m: "jget m ''role'' = JStr ''assistant''" "jget m ''files'' = JList files" "has_file a files = Inr True"
    and free: "bs_locks s = []"
  shows "case run (drive_intent cfg fuel iid) (failing_emission m now fresh e) s of (cs, x, t) \<Rightarrow>
    x = Some (Inr ()) \<and> (\<exists>q. get_publish_intent iid (bs_db t) = Some q
      \<and> pi_state q = (if br_retry_limit (bf_settings cfg) \<le> pi_attempts r then IntentFailed else IntentRetryable)
      \<and> registered (bs_db t) a \<and> attached (bs_db t) r a)"
proof -
  have iid: "pi_id r = iid" using r(1) by (rule get_intent_id)
  have files: "map_of m ''files'' = Some (JList files)" using m(2) by (auto simp: jget_def split: option.splits)
  have ne: "m \<noteq> []" using m(1) by (auto simp: jget_def)
  have aid: "column_any d ''artifact_id'' = Inr (JStr a)" using d(2) by (auto simp: column_any_def jget_def split: option.splits)
  have locks: "chat_lock c \<noteq> intent_lock i" for c i by (simp add: chat_lock_def intent_lock_def)
  have registered: "\<exists>b\<in>set (file_artifacts db). fa_file b = a \<and> fa_artifact b = a"
    using reg d(2) by (auto simp: register_artifact_file_def result_iffs Let_def column_any_def column_text_def
        jget_def split: option.splits dest!: select_one_Some)
  have attached: "\<exists>x\<in>set (message_artifacts (bind_message_artifact now fresh (pi_chat r) (pi_message r) a dir n db)).
      ma_chat x = pi_chat r \<and> ma_message x = pi_message r \<and> ma_artifact x = a" for dir n
    by (auto simp: bind_message_artifact_def list_ex_iff)
  have same: "get_publish_intent iid db = Some r"
    using r(1) register_keeps_intents [OF reg] by (simp add: get_publish_intent_def)
  have bound: "get_publish_intent iid (bind_message_artifact now fresh c x a dir n db) = Some r" for c x dir n
    using same by (simp add: get_publish_intent_def bind_keeps_intents)
  show ?thesis
    unfolding drive_intent_def failing_emission_def holding_def call_io_def query_def transact_def step_db_def
    by (simp add: r iid free advance_intent_def bind_published_def bind_published_locked_def holding_def call_io_def
        finally_io_def lift_result_def d aid try_message_def require_message_def get_message_def m ne files guard_io_def
        item_of_dict_def text_of_def transact_def step_db_def reg attach_file_def has_file_list [OF m(3)] confirm_attached_def
        saved_files_def store_db_def change_intent_def locks locks [symmetric] recover_intent_def query_def
        get_updated_intent bound retry_intent_def draw_def retry_state_def Let_def
        update_keeps_tables bind_keeps_files registered_def attached_def registered attached)
qed

section \<open>Samples\<close>

fun utf8_back :: "bytes \<Rightarrow> string" where
  "utf8_back [] = []"
| "utf8_back [b] = [char_of (unat b)]"
| "utf8_back (b # c # bs) =
     (if unat b < 128 then char_of (unat b) # utf8_back (c # bs)
      else char_of ((unat b - 192) * 64 + (unat c - 128)) # utf8_back bs)"

lemma utf8_back: "utf8_back (utf8 s) = s"
proof (induction s)
  case (Cons c s)
  define n where "n = (of_char c :: nat)"
  have n: "n < 256" "char_of n = c" by (simp_all add: n_def)
  have byte: "unat (word_of_nat k :: 8 word) = k" if "k < 256" for k using that by (simp add: unat_of_nat)
  have tail: "utf8 (c # s) = utf8_char c @ utf8 s" by (simp add: utf8_def)
  show ?case
  proof (cases "n < 128")
    case True
    then have "utf8_char c = [word_of_nat n]" by (simp add: utf8_char_def n_def)
    then show ?thesis using Cons True n(2) byte [of n] unfolding tail by (cases "utf8 s") simp_all
  next
    case False
    then have "utf8_char c = [word_of_nat (192 + n div 64), word_of_nat (128 + n mod 64)]"
      by (simp add: utf8_char_def n_def Let_def)
    moreover have "192 + n div 64 < 256" "128 + n mod 64 < 256" using n(1) by auto
    ultimately show ?thesis
      using Cons n byte [of "192 + n div 64"] byte [of "128 + n mod 64"] unfolding tail by simp
  qed
qed (simp add: utf8_def)

text \<open>A codec that writes the id of an Artifact and reads a whole descriptor from it.\<close>

definition sample_bff :: bff_cfg where
  "sample_bff =
     \<lparr>bf_settings = \<lparr>br_enabled = True, br_adapter_url = ''http://a'', br_adapter_key = [], br_secret = ''key'', br_artifact_url = ''http://s'',
        br_artifact_key = [], br_grant_ttl = 120, br_terminal_ttl = 7200, br_max_file = 100, br_reconcile = 15, br_retry_limit = 8\<rparr>,
      bf_env = \<lparr>hmac_sha256 = (\<lambda>k b. b),
        json_dumps = (\<lambda>v. case v of JObj d \<Rightarrow> (case jget d ''artifact_id'' of JStr a \<Rightarrow> a | _ \<Rightarrow> []) | _ \<Rightarrow> []),
        json_loads = (\<lambda>b. Some (JObj [(''artifact_id'', JStr (utf8_back b)), (''sha256'', JStr ''s''), (''filename'', JStr ''f''),
          (''size'', JInt 1), (''media_type'', JStr ''t'')]))\<rparr>,
      bf_str = (\<lambda>v. [])\<rparr>"

lemma sample_reads_back: "reads_back sample_bff"
  by (simp add: reads_back_def sample_bff_def loads_object_def loads_def utf8_back jget_def)

definition uploaded_state :: bff where
  "uploaded_state =
     \<lparr>bs_db = empty_bff\<lparr>publish_intents := [(new_intent 1 ''i'' ''c'' ''u'' ''w'' ''m'' ''r'' ''p'')
        \<lparr>pi_state := IntentUploaded, pi_artifact := Some ''a'', pi_descriptor := Some ''a'', pi_attempts := 8\<rparr>]\<rparr>,
      bs_ready = True, bs_locks = [], bs_tasks = []\<rparr>"

definition attached_message :: obj where
  "attached_message = [(''role'', JStr ''assistant''), (''files'', JList [JObj [(''id'', JStr ''a'')]])]"

definition good_answers :: "(bff_error, bff_reply, bff) world_step list" where
  "good_answers =
     map answers (map Inr [Acknowledged, Turn 2 ''x'', Acknowledged, MessageRow (Some [(''role'', JStr ''assistant'')]), Turn 2 ''x'',
       Verdict True, MessageRow (Some attached_message), Turn 2 ''x'', Turn 2 ''x'', Acknowledged])"

lemma uploaded_ok: "intent_ok sample_bff ''i'' uploaded_state"
  by (simp add: intent_ok_def uploaded_state_def empty_bff_def get_publish_intent_def select_one_def new_intent_def intent_row_ok_def
      sample_bff_def described_def loads_object_def loads_def utf8_back [of "''a''"] jget_def)

theorem ready_means_delivered_witness:
  "case run (drive_intent sample_bff 0 ''i'') good_answers uploaded_state of
     (cs, r, t) \<Rightarrow> r = Some (Inr ()) \<and> map_option pi_state (get_publish_intent ''i'' (bs_db t)) = Some IntentReady
       \<and> intent_ok sample_bff ''i'' t"
proof -
  obtain cs r t where run: "run (drive_intent sample_bff 0 ''i'') good_answers uploaded_state = (cs, r, t)" by (rule prod_cases3)
  have others: "list_all (\<lambda>x. \<forall>s. beside_intent ''i'' s (wd_others x s)) good_answers"
    by (simp add: good_answers_def others.stays)
  have "fst (snd (run (drive_intent sample_bff 0 ''i'') good_answers uploaded_state)) = Some (Inr ())"
    "map_option pi_state (get_publish_intent ''i'' (bs_db (snd (snd (run (drive_intent sample_bff 0 ''i'') good_answers uploaded_state)))))
      = Some IntentReady"
    by code_simp+
  then show ?thesis
    using ready_means_delivered [OF uploaded_ok sample_reads_back others run] by (simp add: run)
qed

theorem emission_failure_undoes_ready_witness:
  "case run (drive_intent sample_bff 0 ''i'') (failing_emission attached_message 2 ''x'' (Uncaught ''redis'')) uploaded_state of
     (cs, r, t) \<Rightarrow> r = Some (Inr ()) \<and> map_option pi_state (get_publish_intent ''i'' (bs_db t)) = Some IntentFailed
       \<and> registered (bs_db t) ''a''"
proof -
  define r where "r = (new_intent 1 ''i'' ''c'' ''u'' ''w'' ''m'' ''r'' ''p'')
    \<lparr>pi_state := IntentUploaded, pi_artifact := Some ''a'', pi_descriptor := Some ''a'', pi_attempts := 8\<rparr>"
  define d where "d = [(''artifact_id'', JStr ''a''), (''sha256'', JStr ''s''), (''filename'', JStr ''f''), (''size'', JInt 1), (''media_type'', JStr ''t'')]"
  have row: "get_publish_intent ''i'' (bs_db uploaded_state) = Some r" "pi_state r = IntentUploaded" "pi_descriptor r = Some ''a''"
    by (simp_all add: uploaded_state_def empty_bff_def get_publish_intent_def select_one_def new_intent_def r_def)
  have desc: "loads_object sample_bff ''a'' = Inr d" "jget d ''artifact_id'' = JStr ''a''" "column_any d ''filename'' = Inr (JStr ''f'')"
    by (simp_all add: sample_bff_def loads_object_def loads_def utf8_back [of "''a''"] d_def jget_def column_any_def)
  obtain f db where reg: "register_artifact_file (bf_env sample_bff) 2 ''a'' (pi_owner r) d (bs_db uploaded_state) = Inr (f, db)"
    by (simp add: register_artifact_file_def uploaded_state_def empty_bff_def select_one_def d_def column_text_def column_any_def Let_def)
  have message: "jget attached_message ''role'' = JStr ''assistant''" "jget attached_message ''files'' = JList [JObj [(''id'', JStr ''a'')]]"
    "has_file ''a'' [JObj [(''id'', JStr ''a'')]] = Inr True" "bs_locks uploaded_state = []"
    by (simp_all add: attached_message_def jget_def uploaded_state_def)
  have "br_retry_limit (bf_settings sample_bff) \<le> pi_attempts r" by (simp add: sample_bff_def r_def)
  then show ?thesis
    using emission_failure_undoes_ready [OF row desc reg message, of 0 "''x''" "Uncaught ''redis''"] by auto
qed

end
