(* ===== verification/Bff_Access.thy ===== *)
theory Bff_Access
  imports Bff_Intents
begin

text \<open>
  What the Agent BFF hands out: the files of a checkout are readable for the user who sent the message, and a terminal
  grant is accepted once.
\<close>

section \<open>Files in a checkout\<close>

text \<open>
  Open WebUI answers honestly when its files, rights and chats follow \<open>own\<close>, \<open>access\<close> and \<open>writer\<close>. Rows of
  \<open>agent_file_artifact\<close> are never deleted.
\<close>

fun honest :: "(string \<Rightarrow> string) \<Rightarrow> (string \<Rightarrow> string \<Rightarrow> bool) \<Rightarrow> (string \<Rightarrow> string) \<Rightarrow> bff_call \<Rightarrow> bff_error + bff_reply \<Rightarrow> bool" where
  "honest own access writer (GetFile f) (Inr (FileRow (Some (owner, n)))) = (owner = own f)"
| "honest own access writer (HasAccess f u) (Inr (Verdict b)) = (b = access f u)"
| "honest own access writer (GetChat c u) (Inr (ChatOwner (Some owner))) = (owner = writer c)"
| "honest own access writer c r = True"

definition rows_kept :: "bff_db \<Rightarrow> bff_db \<Rightarrow> bool" where
  "rows_kept d e \<longleftrightarrow> set (file_artifacts d) \<subseteq> set (file_artifacts e)"

definition keeps_rows :: "bff \<Rightarrow> bff \<Rightarrow> bool" where
  "keeps_rows s t \<longleftrightarrow> rows_kept (bs_db s) (bs_db t)"

interpretation rows: db_changes keeps_rows rows_kept "\<lambda>j. True"
  by unfold_locales
    (auto simp: keeps_rows_def rows_kept_def register_artifact_file_def bind_message_artifact_def create_publish_intent_def
      update_publish_intent_def result_iffs Let_def split: option.splits if_splits)

definition may_read :: "(string \<Rightarrow> string) \<Rightarrow> (string \<Rightarrow> string \<Rightarrow> bool) \<Rightarrow> bff_user \<Rightarrow> string \<Rightarrow> bool" where
  "may_read own access user f \<longleftrightarrow> own f = us_id user \<or> us_role user = ''admin'' \<or> access f (us_id user)"

definition readable_item ::
    "bff_cfg \<Rightarrow> (string \<Rightarrow> string) \<Rightarrow> (string \<Rightarrow> string \<Rightarrow> bool) \<Rightarrow> bff_user \<Rightarrow> bff_db \<Rightarrow> obj \<Rightarrow> bool" where
  "readable_item cfg own access user d item \<longleftrightarrow>
     (\<exists>b\<in>set (file_artifacts d). may_read own access user (fa_file b)
       \<and> (\<exists>x. loads_object cfg (fa_descriptor b) = Inr x \<and> column_any x ''artifact_id'' = Inr (jget item ''artifact_id'')))"

lemma readable_item_stable: "readable_item cfg own access user (bs_db s) item \<Longrightarrow> keeps_rows s t \<Longrightarrow> readable_item cfg own access user (bs_db t) item"
  unfolding readable_item_def keeps_rows_def rows_kept_def by blast

text \<open>\<open>sound\<close>: what holds when the program returns, in a world that answers honestly and keeps the rows.\<close>

abbreviation sound ::
    "(string \<Rightarrow> string) \<Rightarrow> (string \<Rightarrow> string \<Rightarrow> bool) \<Rightarrow> (string \<Rightarrow> string) \<Rightarrow> 'a bff_io \<Rightarrow> bff \<Rightarrow> ('a \<Rightarrow> bff \<Rightarrow> bool) \<Rightarrow> bool" where
  "sound own access writer p s Q \<equiv> returns (honest own access writer) keeps_rows p s Q"

lemma sound_keeps: "guarantees keeps_rows p \<Longrightarrow> sound own access writer p s (\<lambda>a t. keeps_rows s t)"
  by (rule ensures_mono [OF ensures_answers [OF rows.guarantees_from [OF _ rows.stays]]]) auto

lemma sound_call:
  "(\<And>r a t. honest own access writer c (Inr r) \<Longrightarrow> keeps_rows s t \<Longrightarrow> g r = Some a \<Longrightarrow> Q a t) \<Longrightarrow>
    sound own access writer (call_io c g) s Q"
  by (auto simp: call_io_def split: sum.split option.split)

lemma sound_query:
  "(\<And>t. keeps_rows s t \<Longrightarrow> Q (f (bs_db t)) t) \<Longrightarrow> sound own access writer (query f) s Q"
  by (auto simp: query_def transact_def step_db_def split: sum.split bff_reply.split)

lemma sound_chat_write:
  "sound own access writer (require_chat_write chat user) s (\<lambda>u t. writer chat = us_id user \<or> us_role user = ''admin'')"
  unfolding require_chat_write_def
  by (rule returns_bind, rule sound_call [where Q = "\<lambda>c t. \<forall>w. c = Some w \<longrightarrow> w = writer chat"])
    (auto split: option.split elim!: chat_of.elims simp: guard_io_def)

lemma sound_readable_file:
  "sound own access writer (readable_file file user) s (\<lambda>n t. may_read own access user file)"
  unfolding readable_file_def may_read_file_def
  by (rule returns_bind, rule sound_call [where Q = "\<lambda>r t. \<forall>w n. r = Some (w, n) \<longrightarrow> w = own file"])
    (auto simp: may_read_def guard_io_def split: option.split elim!: file_of.elims verdict_of.elims
      intro!: returns_bind [where P = "\<lambda>b t. b \<longrightarrow> access file (us_id user)"] sound_call)

lemma sound_file_artifact:
  "sound own access writer (ensure_file_artifact cfg file) s
     (\<lambda>x t. \<exists>b\<in>set (file_artifacts (bs_db t)). fa_file b = file \<and> loads_object cfg (fa_descriptor b) = Inr x)"
  unfolding ensure_file_artifact_def
  by (rule returns_bind, rule sound_query [where Q = "\<lambda>r t. \<forall>b. r = Some b \<longrightarrow> b \<in> set (file_artifacts (bs_db t)) \<and> fa_file b = file"])
    (auto simp: get_file_artifact_def lift_result_def split: option.split sum.split dest: select_one_Some)

lemma sound_attach_item:
  "sound own access writer (attach_item cfg chat user message names file) s
     (\<lambda>(item, name) t. keeps_rows s t \<and> readable_item cfg own access user (bs_db t) item)"
proof -
  have item: "sound own access writer (attach_item cfg chat user message names file) s
     (\<lambda>(item, name) t. readable_item cfg own access user (bs_db t) item)"
    unfolding attach_item_def
  proof (rule returns_bind [OF sound_readable_file], rule returns_bind [OF sound_file_artifact])
    fix own_name and t :: bff and x and u :: bff
    assume ok: "may_read own access user file"
      and "\<exists>b\<in>set (file_artifacts (bs_db u)). fa_file b = file \<and> loads_object cfg (fa_descriptor b) = Inr x"
    then obtain b where b: "b \<in> set (file_artifacts (bs_db u))" "fa_file b = file" "loads_object cfg (fa_descriptor b) = Inr x" by blast
    have at_end: "readable_item cfg own access user (bs_db v) (checkout_item aid filename sz n sha url token)"
      if "column_any x ''artifact_id'' = Inr aid" "keeps_rows u v" for aid filename sz n sha url token and v :: bff
      by (rule readable_item_stable [OF _ that(2)])
        (use b ok that(1) in \<open>auto simp: readable_item_def checkout_item_def jget_def\<close>)
    show "sound own access writer
       (case as_pyint (jget x ''size'') of
          None \<Rightarrow> http_fail 413 ''Attached file is too large''
        | Some n \<Rightarrow>
            guard_io (n \<le> br_max_file (bf_settings cfg)) (HttpError 413 ''Attached file is too large'')
              (case unique_name (safe_name (text_of cfg (py_or (py_or (jget x ''filename'') (JStr own_name)) (JStr ''file'')))) names of
                 None \<Rightarrow> Stuck
               | Some filename \<Rightarrow>
                   bind_io (item_of_dict x ''artifact_id'') (\<lambda>aid.
                   bind_io (artifact_request ''POST'' (''/v1/artifacts/'' @ text_of cfg aid @ ''/downloads'')
                       (Some [(''subject_id'', JStr (us_id user))])) (\<lambda>target.
                   bind_io (item_of_dict x ''sha256'') (\<lambda>sha.
                   bind_io (item_of_dict target ''url'') (\<lambda>url.
                   bind_io (item_of_dict target ''token'') (\<lambda>token.
                   bind_io (store_db (\<lambda>now fresh. bind_message_artifact now fresh chat message (text_of cfg aid) ''upload'' filename)) (\<lambda>u.
                   Done (checkout_item aid filename (jget x ''size'') n sha url token, filename)))))))))
       u (\<lambda>(item, name) t. readable_item cfg own access user (bs_db t) item)"
    proof (split option.split, intro conjI allI impI, simp, rule returns_guard, split option.split, intro conjI allI impI, simp)
      fix n filename
      let ?Q = "\<lambda>(item, name) t. readable_item cfg own access user (bs_db t) item"
      let ?rest = "\<lambda>aid. bind_io (artifact_request ''POST'' (''/v1/artifacts/'' @ text_of cfg aid @ ''/downloads'')
                       (Some [(''subject_id'', JStr (us_id user))])) (\<lambda>target.
                   bind_io (item_of_dict x ''sha256'') (\<lambda>sha.
                   bind_io (item_of_dict target ''url'') (\<lambda>url.
                   bind_io (item_of_dict target ''token'') (\<lambda>token.
                   bind_io (store_db (\<lambda>now fresh. bind_message_artifact now fresh chat message (text_of cfg aid) ''upload'' filename)) (\<lambda>u.
                   Done (checkout_item aid filename (jget x ''size'') n sha url token, filename))))))"
      have keeps: "guarantees keeps_rows (?rest aid)" for aid
        by (intro rows.calm_rules rows.calm_store rows.L_bind_message)
      have "sound own access writer (?rest aid) u ?Q" if aid: "column_any x ''artifact_id'' = Inr aid" for aid
      proof -
        have "sound own access writer (?rest aid) u (\<lambda>(item, name) t. \<exists>sha url token. item = checkout_item aid filename (jget x ''size'') n sha url token)"
          by (intro returns_skip) auto
        then show ?thesis
          by (rule ensures_mono [OF ensures_both [OF sound_keeps [OF keeps]]]) (use at_end [OF aid] in auto)
      qed
      then show "sound own access writer (bind_io (item_of_dict x ''artifact_id'') ?rest) u ?Q"
        by (auto simp: item_of_dict_def lift_result_def split: sum.split)
    qed
  qed
  show ?thesis
    by (rule ensures_mono [OF ensures_both [OF sound_keeps [OF rows.calm_attach_item] item]]) auto
qed

lemma sound_attach_items:
  "sound own access writer (attach_items cfg chat user message seen names vs) s
     (\<lambda>items t. keeps_rows s t \<and> (\<forall>item\<in>set (map fst items). readable_item cfg own access user (bs_db t) item))"
proof (induction cfg chat user message seen names vs arbitrary: s rule: attach_items.induct)
  case (2 cfg chat user message seen names v vs)
  show ?case
  proof (cases "attached_file seen v")
    case None
    then show ?thesis using "2.IH"(1) by simp
  next
    case (Some fid)
    show ?thesis unfolding attach_items.simps Some option.case
    proof (rule returns_bind [OF sound_attach_item], clarify)
      fix item name t assume i: "keeps_rows s t" "readable_item cfg own access user (bs_db t) item"
      show "sound own access writer (bind_io (attach_items cfg chat user message (fid # seen) (name # names) vs)
          (\<lambda>rest. Done ((item, name) # rest))) t
          (\<lambda>items t. keeps_rows s t \<and> (\<forall>item\<in>set (map fst items). readable_item cfg own access user (bs_db t) item))"
        by (rule returns_bind [OF "2.IH"(2) [OF Some]])
          (use i in \<open>auto intro: rows.follows readable_item_stable\<close>)
    qed
  qed
qed (simp add: rows.stays)

text \<open>The checkout grant of a context names the files that \<open>items\<close> describes.\<close>

definition grants_checkout :: "bff_cfg \<Rightarrow> string \<Rightarrow> string \<Rightarrow> string \<Rightarrow> obj list \<Rightarrow> obj \<Rightarrow> bool" where
  "grants_checkout cfg chat user_message assistant_message items payload \<longleftrightarrow>
     (\<exists>workspace sandbox now fresh.
        jget (case jget payload ''metadata'' of JObj d \<Rightarrow> d | _ \<Rightarrow> []) ''agent_checkout_grant'' =
          JStr (bff_grant cfg ''artifact_checkout'' ''sandbox-manager'' (br_grant_ttl (bf_settings cfg))
            (batch_claims chat workspace sandbox user_message assistant_message items) now fresh))"

lemma sound_grant:
  "sound own access writer (grant_io cfg operation claims) s
     (\<lambda>g t. keeps_rows s t \<and> (\<exists>now fresh. g = bff_grant cfg operation ''sandbox-manager'' (br_grant_ttl (bf_settings cfg)) claims now fresh))"
proof -
  have "sound own access writer (grant_io cfg operation claims) s
     (\<lambda>g t. \<exists>now fresh. g = bff_grant cfg operation ''sandbox-manager'' (br_grant_ttl (bf_settings cfg)) claims now fresh)"
    unfolding grant_io_def by (rule returns_skip) (simp split: prod.split, blast)
  then show ?thesis by (rule ensures_mono [OF ensures_both [OF sound_keeps [OF rows.calm_guards(3)]]]) auto
qed

lemma sound_checkout:
  "sound own access writer (checkout_grant cfg chat workspace sandbox user metadata user_message assistant_message) s
     (\<lambda>(g, paths) t. \<exists>items now fresh. (\<forall>item\<in>set items. readable_item cfg own access user (bs_db t) item)
        \<and> g = bff_grant cfg ''artifact_checkout'' ''sandbox-manager'' (br_grant_ttl (bf_settings cfg))
            (batch_claims chat workspace sandbox user_message assistant_message items) now fresh)"
  unfolding checkout_grant_def
proof (rule returns_bind [OF sound_attach_items])
  fix items :: "(obj \<times> string) list" and t assume "keeps_rows s t \<and> (\<forall>item\<in>set (map fst items). readable_item cfg own access user (bs_db t) item)"
  then have items: "readable_item cfg own access user (bs_db u) item" if "item \<in> set (map fst items)" "keeps_rows t u" for item u
    using that readable_item_stable by blast
  show "sound own access writer (bind_io (grant_io cfg ''artifact_checkout''
           (batch_claims chat workspace sandbox user_message assistant_message (map fst items)))
         (\<lambda>g. Done (g, map (\<lambda>(item, name). ''uploads/'' @ user_message @ ''/'' @ name) items))) t
     (\<lambda>(g, paths) t. \<exists>items now fresh. (\<forall>item\<in>set items. readable_item cfg own access user (bs_db t) item)
        \<and> g = bff_grant cfg ''artifact_checkout'' ''sandbox-manager'' (br_grant_ttl (bf_settings cfg))
            (batch_claims chat workspace sandbox user_message assistant_message items) now fresh)"
    by (rule returns_bind [OF sound_grant], simp, rule exI [of _ "map fst items"]) (use items in auto)
qed

lemma grants_with_context:
  "grants_checkout cfg chat user_message assistant_message items (with_context cfg am g publish
     (bff_grant cfg ''artifact_checkout'' ''sandbox-manager'' (br_grant_ttl (bf_settings cfg))
       (batch_claims chat workspace sandbox user_message assistant_message items) now fresh) paths payload)"
  by (simp add: grants_checkout_def with_context_def Let_def) blast

text \<open>
  C35. A user whose request gets a context has written the chat or is an administrator, and the checkout grant of the context
  is a grant for files whose Artifact belongs to a file the user owns, administers or has been given access to:
  whatever else happens in the BFF meanwhile, as long as Open WebUI answers honestly and no file row is deleted.
\<close>

theorem context_grants_readable:
  assumes run: "run (bind_context cfg fuel user metadata payload chat user_message assistant_message) w s = (cs, Some (Inr p), t)"
    and honest: "obeys (honest own access writer) keeps_rows cs w"
  shows "(writer chat = us_id user \<or> us_role user = ''admin'')
    \<and> (\<exists>items. grants_checkout cfg chat user_message assistant_message items p
        \<and> (\<forall>item\<in>set items. readable_item cfg own access user (bs_db t) item))"
proof -
  let ?p = "bind_context cfg fuel user metadata payload chat user_message assistant_message"
  let ?grants = "\<lambda>p t. \<exists>items. grants_checkout cfg chat user_message assistant_message items p
        \<and> (\<forall>item\<in>set items. readable_item cfg own access user (bs_db t) item)"
  have "sound own access writer ?p s (\<lambda>p t. writer chat = us_id user \<or> us_role user = ''admin'')"
    unfolding bind_context_def
    by (rule returns_bind [OF sound_chat_write]) (rule ensures_mono [OF returns_any], auto)
  moreover have "sound own access writer ?p s ?grants"
    unfolding bind_context_def
    by (rule returns_skip, rule returns_skip, rule returns_skip, rule returns_guard, rule returns_skip, rule returns_skip, rule returns_skip_tuple,
        rule returns_skip, rule returns_skip, rule returns_skip_tuple, rule returns_bind [OF sound_checkout], clarify,
        rule returns_bind [OF sound_keeps [OF rows.calm_guards(4)]], simp only: ensures.simps, rule exI, rule conjI,
        rule grants_with_context)
      (blast intro: readable_item_stable)
  ultimately show ?thesis
    using ensures_run [OF ensures_both run honest] by simp
qed

section \<open>Terminal grants\<close>

lemma transfer_claims_Inr:
  "transfer_claims cfg token operation v t d = (Inr claims, e) \<longleftrightarrow>
     verify_grant (bf_env cfg) token (br_secret (bf_settings cfg)) ''open-webui-transfer'' (Some operation) v
       (br_terminal_ttl (bf_settings cfg)) = Inr claims
     \<and> jget claims ''iss'' = JStr ''open-webui-bff''
     \<and> (\<exists>n x. jget claims ''nonce'' = JStr n \<and> as_pyint (jget claims ''exp'') = Some x \<and> consume_transfer d n x t = (e, True))"
  by (auto simp: transfer_claims_def consume_transfer_def prod.swap_def split: sum.splits option.splits prod.splits if_splits)

text \<open>What any other transaction does to the table of nonces: nothing, or the consumption of a nonce by the clock's reading.\<close>

definition nonce_step :: "int \<Rightarrow> bff_db \<Rightarrow> bff_db \<Rightarrow> bool" where
  "nonce_step t d e \<longleftrightarrow> transfer_nonces e = transfer_nonces d \<or> (\<exists>n x now. now \<le> t \<and> e = fst (consume_transfer d n x now))"

lemma transfer_nonce_stays: "(nonce_step t)\<^sup>*\<^sup>* d e \<Longrightarrow> transfer_nonce_live d n t \<Longrightarrow> transfer_nonce_live e n t"
  by (induction rule: rtranclp_induct)
    (auto simp: nonce_step_def transfer_nonce_live_def [of _ n t, symmetric] intro: transfer_ledger.consume_keeps
      simp del: list_ex_iff, simp add: transfer_nonce_live_def)

text \<open>
  C38. A terminal event is accepted only with a grant that the BFF signed for this operation, and once: whatever the BFF
  stores in between, the same grant is refused at every later time before the second of its expiry, for every operation.
\<close>

theorem transfer_accepted_once:
  assumes "transfer_claims cfg token operation v1 t1 d0 = (Inr claims, d1)"
    and "(nonce_step t2)\<^sup>*\<^sup>* d1 d2" and "\<forall>x. as_pyint (jget claims ''exp'') = Some x \<longrightarrow> t2 < x"
  shows "(\<exists>encoded supplied raw. split_token token = Some (encoded, supplied)
        \<and> b64_decode supplied = Some (grant_signature (bf_env cfg) (br_secret (bf_settings cfg)) encoded)
        \<and> b64_decode encoded = Some raw \<and> json_loads (bf_env cfg) raw = Some (JObj claims))
    \<and> jget claims ''aud'' = JStr ''open-webui-transfer'' \<and> jget claims ''iss'' = JStr ''open-webui-bff''
    \<and> jget claims ''operation'' = JStr operation
    \<and> (\<exists>e. fst (transfer_claims cfg token operation' v2 t2 d2) = Inl e)"
proof -
  have ok: "verify_grant (bf_env cfg) token (br_secret (bf_settings cfg)) ''open-webui-transfer'' (Some operation) v1
       (br_terminal_ttl (bf_settings cfg)) = Inr claims" "jget claims ''iss'' = JStr ''open-webui-bff''"
    using assms(1) by (simp_all add: transfer_claims_Inr)
  obtain n x where n: "jget claims ''nonce'' = JStr n" "as_pyint (jget claims ''exp'') = Some x" "consume_transfer d0 n x t1 = (d1, True)"
    using assms(1) by (auto simp: transfer_claims_Inr)
  have "transfer_nonce_live d1 n t2" using transfer_ledger.consume_records [of d0 n x t1 t2] n assms(3) by simp
  then have live: "transfer_nonce_live d2 n t2" by (rule transfer_nonce_stays [OF assms(2)])
  have "\<exists>e. fst (transfer_claims cfg token operation' v2 t2 d2) = Inl e"
  proof (cases "transfer_claims cfg token operation' v2 t2 d2")
    case (Pair r d3)
    then show ?thesis
    proof (cases r)
      case (Inr again)
      then have "again = claims" using Pair ok(1) by (auto simp: transfer_claims_Inr verify_grant_Inr)
      then have "snd (consume_transfer d2 n x t2)" using Pair Inr n by (auto simp: transfer_claims_Inr)
      then show ?thesis using live transfer_ledger.consume_iff by blast
    qed auto
  qed
  then show ?thesis using ok by (auto simp: verify_grant_Inr check_claims_Inr)
qed

section \<open>Samples\<close>

definition event_claims :: obj where
  "event_claims =
     [(''aud'', JStr ''open-webui-transfer''), (''exp'', JInt 160), (''iat'', JInt 100), (''iss'', JStr ''open-webui-bff''),
      (''nonce'', JStr ''n1''), (''operation'', JStr ''response_terminal'')]"

definition event_bff :: bff_cfg where
  "event_bff =
     \<lparr>bf_settings = \<lparr>br_enabled = True, br_adapter_url = ''http://a'', br_adapter_key = [], br_secret = ''key'', br_artifact_url = ''http://s'',
        br_artifact_key = [], br_grant_ttl = 120, br_terminal_ttl = 7200, br_max_file = 100, br_reconcile = 15, br_retry_limit = 8\<rparr>,
      bf_env = \<lparr>hmac_sha256 = (\<lambda>k b. k @ b), json_dumps = (\<lambda>v. ''payload''), json_loads = (\<lambda>b. Some (JObj event_claims))\<rparr>,
      bf_str = (\<lambda>v. case v of JStr s \<Rightarrow> s | _ \<Rightarrow> [])\<rparr>"

definition event_token :: string where
  "event_token = sign_payload (bf_env event_bff) ''key'' []"

lemma event_accepted:
  "transfer_claims event_bff event_token ''response_terminal'' 110 110 empty_bff =
     (Inr event_claims, fst (consume_transfer empty_bff ''n1'' 160 110))"
proof -
  have "length event_token = 29" by code_simp
  moreover have "check_claims event_claims ''open-webui-transfer'' (Some ''response_terminal'') 110 7200 = Inr event_claims"
    by (simp add: check_claims_Inr event_claims_def)
  ultimately have "verify_grant (bf_env event_bff) event_token ''key'' ''open-webui-transfer'' (Some ''response_terminal'') 110 7200 =
      Inr event_claims"
    using verify_sign_payload [of "bf_env event_bff" "[]" event_claims "''key''"] by (simp add: event_token_def event_bff_def)
  moreover have "consume_transfer empty_bff ''n1'' 160 110 = (fst (consume_transfer empty_bff ''n1'' 160 110), True)"
    by (simp add: consume_transfer_def consume_transfer_nonce_def empty_bff_def Let_def delete_rows_def select_one_def)
  moreover have "jget event_claims ''iss'' = JStr ''open-webui-bff''" "jget event_claims ''nonce'' = JStr ''n1''"
    "as_pyint (jget event_claims ''exp'') = Some 160"
    by (simp_all add: event_claims_def)
  ultimately show ?thesis unfolding transfer_claims_Inr by (simp add: event_bff_def)
qed

theorem transfer_accepted_once_witness:
  "\<exists>d1 e. transfer_claims event_bff event_token ''response_terminal'' 110 110 empty_bff = (Inr event_claims, d1)
     \<and> fst (transfer_claims event_bff event_token ''response_terminal'' 150 150 (snd (consume_transfer_nonce ''n2'' 200 120 d1))) = Inl e"
proof -
  let ?d = "fst (consume_transfer empty_bff ''n1'' 160 110)"
  have "nonce_step 150 ?d (snd (consume_transfer_nonce ''n2'' 200 120 ?d))"
    unfolding nonce_step_def by (rule disjI2, rule exI [of _ "''n2''"], rule exI [of _ 200], rule exI [of _ 120]) (simp add: consume_transfer_def)
  moreover have "as_pyint (jget event_claims ''exp'') = Some 160" by (simp add: event_claims_def)
  ultimately show ?thesis
    using event_accepted transfer_accepted_once [OF event_accepted r_into_rtranclp, of 150 _ "''response_terminal''" 150] by auto
qed

text \<open>One file that the user owns, attached to a message of a chat with a Workspace.\<close>

definition file_descriptor :: obj where
  "file_descriptor = [(''artifact_id'', JStr ''a''), (''filename'', JStr ''x.txt''), (''size'', JInt 5), (''sha256'', JStr ''s'')]"

definition context_bff :: bff_cfg where
  "context_bff = event_bff\<lparr>bf_env := (bf_env event_bff)\<lparr>json_loads := (\<lambda>b. Some (JObj file_descriptor))\<rparr>\<rparr>"

definition context_state :: bff where
  "context_state =
     \<lparr>bs_db = empty_bff
        \<lparr>chat_workspaces := [\<lparr>cw_chat = ''c'', cw_workspace = ''w'', cw_created = 1, cw_updated = 1\<rparr>],
         file_artifacts := [\<lparr>fa_file = ''f'', fa_artifact = ''a'', fa_owner = ''u'', fa_descriptor = ''d'', fa_created = 1\<rparr>]\<rparr>,
      bs_ready = True, bs_locks = [], bs_tasks = []\<rparr>"

definition context_metadata :: obj where
  "context_metadata = [(''user_message'', JObj [(''files'', JList [JObj [(''type'', JStr ''file''), (''id'', JStr ''f'')]])])]"

definition context_answers :: "(bff_error, bff_reply, bff) world_step list" where
  "context_answers =
     map answers (map Inr [ChatOwner (Some ''u''), MessageRow (Some [(''role'', JStr ''user'')]), MessageRow None, Turn 2 ''x'', Seconds 0,
       Turn 2 ''x'', Turn 2 ''x'', Turn 2 ''x'', FileRow (Some (''u'', ''x.txt'')), Turn 2 ''x'',
       Answered 200 (Some (JObj [(''url'', JStr ''http://s/d''), (''token'', JStr ''t'')])), Turn 2 ''x'', Turn 2 ''x'', Turn 2 ''x''])"

lemma obeys_every:
  "list_all (\<lambda>x. (\<forall>c. A c (wd_reply x)) \<and> (\<forall>s. R s (wd_others x s))) w \<Longrightarrow> obeys A R cs w"
proof (induction cs arbitrary: w)
  case (Cons c cs)
  then show ?case by (cases w) auto
qed simp

lemma honest_every:
  "honest (\<lambda>f. ''u'') (\<lambda>f u. False) (\<lambda>c. ''u'') c (Inr (ChatOwner (Some ''u'')))"
  "honest (\<lambda>f. ''u'') (\<lambda>f u. False) (\<lambda>c. ''u'') c (Inr (FileRow (Some (''u'', n))))"
  "honest (\<lambda>f. ''u'') (\<lambda>f u. False) (\<lambda>c. ''u'') c (Inr (MessageRow m))"
  "honest (\<lambda>f. ''u'') (\<lambda>f u. False) (\<lambda>c. ''u'') c (Inr (Turn i x))"
  "honest (\<lambda>f. ''u'') (\<lambda>f u. False) (\<lambda>c. ''u'') c (Inr (Seconds q))"
  "honest (\<lambda>f. ''u'') (\<lambda>f u. False) (\<lambda>c. ''u'') c (Inr (Answered k v))"
  by (cases c; simp)+

theorem context_grants_readable_witness:
  "case run (bind_context context_bff (Suc 0) \<lparr>us_id = ''u'', us_role = ''user''\<rparr> context_metadata [] ''c'' ''m1'' ''m2'') context_answers context_state of
     (cs, r, t) \<Rightarrow> \<exists>p items. r = Some (Inr p) \<and> grants_checkout context_bff ''c'' ''m1'' ''m2'' items p
       \<and> (\<forall>item\<in>set items. readable_item context_bff (\<lambda>f. ''u'') (\<lambda>f u. False) \<lparr>us_id = ''u'', us_role = ''user''\<rparr> (bs_db t) item)"
proof -
  let ?run = "run (bind_context context_bff (Suc 0) \<lparr>us_id = ''u'', us_role = ''user''\<rparr> context_metadata [] ''c'' ''m1'' ''m2'') context_answers context_state"
  obtain cs r t where run: "?run = (cs, r, t)" by (rule prod_cases3)
  have "case fst (snd ?run) of Some (Inr p) \<Rightarrow> True | _ \<Rightarrow> False" by code_simp
  then obtain p where r: "r = Some (Inr p)" by (auto simp: run split: option.splits sum.splits)
  have "obeys (honest (\<lambda>f. ''u'') (\<lambda>f u. False) (\<lambda>c. ''u'')) keeps_rows cs context_answers"
    by (rule obeys_every) (simp add: context_answers_def honest_every rows.stays)
  from context_grants_readable [OF run [unfolded r] this] show ?thesis by (simp add: run r)
qed

end
