(* ===== verification/Bff_Contracts.thy ===== *)
theory Bff_Contracts
  imports Bff_Requests Manager_Operations Staging
begin

text \<open>
  The Agent BFF and the components behind it: what the BFF signs is what the Sandbox Manager and the storage commands
  accept, and where they do not agree.
\<close>

section \<open>The claims of a grant\<close>

text \<open>What \<open>verify_grant\<close> reads from a token of \<open>_grant\<close>: the payload with its keys in order.\<close>

definition granted_claims :: "string \<Rightarrow> int \<Rightarrow> int \<Rightarrow> string \<Rightarrow> obj \<Rightarrow> obj" where
  "granted_claims operation ttl now nonce claims =
     canon_obj (grant_payload ''open-webui-bff'' ''sandbox-manager'' operation ttl now nonce claims)"

lemma granted_claim:
  assumes "distinct (map fst claims)" and "k \<in> set (map fst claims)"
  shows "jget (granted_claims operation ttl now nonce claims) k = canon (jget claims k)"
  unfolding granted_claims_def jget_canon_obj [OF distinct_grant_payload]
  using assms by (simp add: grant_payload_def jget_jmerge_in)

lemma batch_claims_get:
  "jget (granted_claims operation ttl now nonce (batch_claims chat ws sb um am items)) ''user_message_id'' = JStr um"
  "jget (granted_claims operation ttl now nonce (batch_claims chat ws sb um am items)) ''assistant_message_id'' = JStr am"
  "jget (granted_claims operation ttl now nonce (batch_claims chat ws sb um am items)) ''artifacts'' = JList (map (JObj \<circ> canon_obj) items)"
  "jget (granted_claims operation ttl now nonce (batch_claims chat ws sb um am items)) ''idempotency_key'' = JStr (''checkout:'' @ chat @ '':'' @ um)"
proof -
  have d: "distinct (map fst (batch_claims chat ws sb um am items))" by (simp add: batch_claims_def split: option.split)
  note get = granted_claim [OF d]
  show "jget (granted_claims operation ttl now nonce (batch_claims chat ws sb um am items)) ''user_message_id'' = JStr um"
    "jget (granted_claims operation ttl now nonce (batch_claims chat ws sb um am items)) ''assistant_message_id'' = JStr am"
    "jget (granted_claims operation ttl now nonce (batch_claims chat ws sb um am items)) ''artifacts'' = JList (map (JObj \<circ> canon_obj) items)"
    "jget (granted_claims operation ttl now nonce (batch_claims chat ws sb um am items)) ''idempotency_key'' = JStr (''checkout:'' @ chat @ '':'' @ um)"
    by (subst get; simp add: batch_claims_def jget_def comp_def canon_obj_def)+
qed

lemma checkout_request_Inr:
  "checkout_request cfg claims requested sid = Inr rq \<longleftrightarrow>
     (\<exists>user assistant artifacts key. message_id_claim claims ''user_message_id'' = Inr user
        \<and> message_id_claim claims ''assistant_message_id'' = Inr assistant
        \<and> checkout_artifacts cfg (jget claims ''artifacts'') = Inr artifacts
        \<and> idempotency_claim (jset ''artifacts'' (JList (map JObj artifacts)) claims) requested = Inr key
        \<and> rq = \<lparr>rq_name = Checkout, rq_sandbox = Some sid,
             rq_input = [(''user_message_id'', JStr user), (''assistant_message_id'', JStr assistant),
                         (''artifacts'', JList (map artifact_input artifacts))],
             rq_key = key, rq_claims = jset ''artifacts'' (JList (map JObj artifacts)) claims\<rparr>)"
  by (auto simp: checkout_request_def result_iffs Let_def)

text \<open>Everything but the files of a batch is accepted.\<close>

lemma batch_accepted:
  assumes "valid_message_id um" and "valid_message_id am" and "length chat + length um \<le> 246"
    and "checkout_artifacts cfg (JList (map (JObj \<circ> canon_obj) items)) = Inr artifacts"
  shows "\<exists>rq. checkout_request cfg (granted_claims ''artifact_checkout'' ttl now nonce (batch_claims chat ws sb um am items))
      ''artifact_checkout'' sid = Inr rq \<and> rq_name rq = Checkout
    \<and> jget (rq_claims rq) ''artifacts'' = JList (map JObj artifacts)"
  using assms
  by (auto simp: checkout_request_Inr message_id_claim_def required_claim_def idempotency_claim_def batch_claims_get
      valid_message_id_def result_iffs)

section \<open>A second answer to one message\<close>

lemma batch_request:
  assumes "checkout_request cfg (granted_claims ''artifact_checkout'' ttl now nonce (batch_claims chat ws sb um am items))
      ''artifact_checkout'' sid = Inr rq"
  shows "rq_key rq = ''artifact_checkout:checkout:'' @ chat @ '':'' @ um
    \<and> (\<exists>v. rq_input rq = [(''user_message_id'', JStr um), (''assistant_message_id'', JStr am), (''artifacts'', v)])"
  using assms
  by (auto simp: checkout_request_Inr message_id_claim_def required_claim_def idempotency_claim_def batch_claims_get result_iffs
      split: option.splits if_splits)

lemma other_answer:
  "am \<noteq> am' \<Longrightarrow> \<not> py_eq (JObj [(''user_message_id'', JStr um), (''assistant_message_id'', JStr am), (''artifacts'', v)])
     (JObj [(''user_message_id'', JStr um), (''assistant_message_id'', JStr am'), (''artifacts'', v')])"
  by (simp add: py_eq_def insort_key_def)

text \<open>
  C39. The checkout of a second answer to the same message is refused: its key is that of the first, its input names another
  assistant message, so that a regenerated answer ends with a conflict as long as the Workspace exists, whatever has
  happened to the first operation since.
\<close>

theorem regeneration_conflicts:
  assumes ok: "state_ok d0"
    and first: "checkout_request cfg (granted_claims ''artifact_checkout'' ttl now nonce (batch_claims chat ws sb um am items))
      ''artifact_checkout'' sid = Inr rq"
    and second: "checkout_request cfg (granted_claims ''artifact_checkout'' ttl now' nonce' (batch_claims chat ws sb' um am' items'))
      ''artifact_checkout'' sid' = Inr rq'"
    and other: "am \<noteq> am'"
    and op: "create_operation d0 oid (rq_name rq) (ws_id w) (rq_sandbox rq) (rq_key rq) (rq_input rq) t = Inr ((r, created), d1)"
      "same_request rq w r"
    and calls: "\<forall>c\<in>set calls. wf_call c \<and> c \<noteq> DeleteWorkspace (op_workspace r)"
  shows "start_operation (run_calls d1 calls) w' rq' uuid t' =
    (Inl (ConflictError ''Operation idempotency key is bound to another request''), run_calls d1 calls, [])"
proof -
  have key: "rq_key rq' = rq_key rq" using batch_request [OF first] batch_request [OF second] by simp
  obtain v v' where input: "rq_input rq = [(''user_message_id'', JStr um), (''assistant_message_id'', JStr am), (''artifacts'', v)]"
      "rq_input rq' = [(''user_message_id'', JStr um), (''assistant_message_id'', JStr am'), (''artifacts'', v')]"
    using batch_request [OF first] batch_request [OF second] by blast
  have "r \<in> set (operations d1) \<and> op_key r = rq_key rq"
    using op(1) by (auto simp: create_operation_Inr split: option.splits dest: select_one_Some)
  then obtain r' where r': "select_one (\<lambda>x. op_key x = rq_key rq) (operations (run_calls d1 calls)) = Some r'" "op_identity r' = op_identity r"
    using kept_key [OF create_operation_ok [OF ok op(1)] calls] by auto
  have "py_eq (JObj (op_input r')) (JObj (rq_input rq))"
    using op(2) r'(2) by (simp add: same_request_def op_identity_def)
  then have "\<not> same_request rq' w' r'"
    using other_answer [OF other, of um v v'] unfolding same_request_def input by (auto simp: py_eq_def)
  then show ?thesis using r'(1) by (simp add: start_operation_def create_operation_def key)
qed

text \<open>Two answers to the message \<open>m1\<close> of the chat \<open>c\<close>; the first operation has failed meanwhile.\<close>

theorem regeneration_conflicts_witness:
  "\<exists>rq rq' r d1. checkout_request sample_cfg (granted_claims ''artifact_checkout'' 120 1 ''n'' (batch_claims ''c'' ''w'' None ''m1'' ''a1'' []))
       ''artifact_checkout'' ''s1'' = Inr rq
     \<and> checkout_request sample_cfg (granted_claims ''artifact_checkout'' 120 9 ''p'' (batch_claims ''c'' ''w'' None ''m1'' ''a2'' []))
       ''artifact_checkout'' ''s1'' = Inr rq'
     \<and> create_operation sample_db ''o1'' (rq_name rq) ''w'' (rq_sandbox rq) (rq_key rq) (rq_input rq) 2 = Inr ((r, True), d1)
     \<and> start_operation (run_calls d1 [UpdateOperation ''o1'' OpFailed None None None 3]) (new_workspace ''w'' Recoverable ''v'' 1) rq' ''2'' 9 =
         (Inl (ConflictError ''Operation idempotency key is bound to another request''),
          run_calls d1 [UpdateOperation ''o1'' OpFailed None None None 3], [])"
proof -
  let ?ws = "new_workspace ''w'' Recoverable ''v'' 1"
  have ids: "valid_message_id ''m1''" "valid_message_id ''a1''" "valid_message_id ''a2''" by code_simp+
  have none: "checkout_artifacts sample_cfg (JList (map (JObj \<circ> canon_obj) [])) = Inr []" by (simp add: checkout_artifacts_def)
  obtain rq where rq: "checkout_request sample_cfg (granted_claims ''artifact_checkout'' 120 1 ''n'' (batch_claims ''c'' ''w'' None ''m1'' ''a1'' []))
       ''artifact_checkout'' ''s1'' = Inr rq"
    using batch_accepted [OF ids(1,2) _ none, of "''c''" 120 1 "''n''" "''w''" None "''s1''"] by auto
  obtain rq' where rq': "checkout_request sample_cfg (granted_claims ''artifact_checkout'' 120 9 ''p'' (batch_claims ''c'' ''w'' None ''m1'' ''a2'' []))
       ''artifact_checkout'' ''s1'' = Inr rq'"
    using batch_accepted [OF ids(1,3) _ none, of "''c''" 120 9 "''p''" "''w''" None "''s1''"] by auto
  define r where "r = new_operation ''o1'' (rq_name rq) ''w'' (rq_sandbox rq) (rq_key rq) (rq_input rq) 2"
  have ws: "ws_id ?ws = ''w''" by (simp add: new_workspace_def)
  have op: "create_operation sample_db ''o1'' (rq_name rq) (ws_id ?ws) (rq_sandbox rq) (rq_key rq) (rq_input rq) 2 =
      Inr ((r, True), sample_db\<lparr>operations := [r]\<rparr>)"
    unfolding ws create_operation_def sample_db_def r_def
    by (simp add: empty_db_def create_workspace_def find_ws_def find_op_def select_one_def new_workspace_def new_operation_def Let_def)
  have same: "same_request rq ?ws r"
    by (simp add: same_request_def r_def new_operation_def ws canon_py_eq)
  have calls: "\<forall>c\<in>set [UpdateOperation ''o1'' OpFailed None None None 3]. wf_call c \<and> c \<noteq> DeleteWorkspace (op_workspace r)" by simp
  show ?thesis
    using rq rq' op regeneration_conflicts [OF sample_db_ok rq rq' _ op same calls, of ?ws "''2''" 9] unfolding ws by auto
qed

section \<open>The files of a batch\<close>

text \<open>What the Manager passes on, the storage command accepts.\<close>

lemma plain_filename:
  assumes "f \<noteq> []" and "f \<noteq> ''.''" and "CHR ''/'' \<notin> set f"
  shows "path_name f = f"
  using assms by (simp add: path_name_def path_parts_def split_on_no_sep)

lemma lower_idem: "lower (lower s) = lower s"
proof -
  have "lower_char (lower_char c) = lower_char c" for c
    by (auto simp: lower_char_def Let_def of_char_of mod_less)
  then show ?thesis by (simp add: lower_def)
qed

lemma checkout_items_storable:
  "checkout_items cfg ids names raws = Inr items \<Longrightarrow> \<exists>its. public_artifacts ids names items = Inr its"
proof (induction cfg ids names raws arbitrary: items rule: checkout_items.induct)
  case (2 cfg ids names raw raws)
  obtain aid filename item rest where item: "checkout_artifact cfg ids names raw = Inr (aid, filename, item)"
      and rest: "checkout_items cfg (aid # ids) (filename # names) raws = Inr rest" "items = item # rest"
    using "2.prems" by (auto simp: result_iffs)
  have "\<exists>x. public_artifact ids names item = Inr (aid, filename, x)"
    using item
    by (auto simp: checkout_artifact_def public_artifact_def required_claim_def required_text_def positive_int_def safe_filename_def
        plain_filename prefixed_hex_def lower_idem result_iffs split: option.splits if_splits)
  then show ?case using "2.IH" [OF rest(1)] rest by auto
qed simp

text \<open>What the loop of \<open>_checkout_grant\<close> gives, whatever the world answers.\<close>

definition batch_item :: "bff_cfg \<Rightarrow> string list \<Rightarrow> obj \<Rightarrow> string \<Rightarrow> bool" where
  "batch_item cfg names i n \<longleftrightarrow>
     n \<notin> set names \<and> name_ok n
     \<and> (\<exists>aid v k sha url token. i = checkout_item aid n v k sha url token \<and> as_pyint v = Some k \<and> k \<le> br_max_file (bf_settings cfg))"

lemma checkout_name_found:
  "\<exists>c. unique_name (safe_name v) used = Some c \<and> c \<notin> set used \<and> name_ok c \<and> (length used < 97 \<longrightarrow> length c \<le> 163)"
  using checkout_names_found [of used "[v]"] by (cases "unique_name (safe_name v) used") auto

lemma returns_attach_item:
  "returns A R (attach_item cfg chat user message names file) s
     (\<lambda>(i, n) t. batch_item cfg names i n \<and> (length names < 97 \<longrightarrow> length n \<le> 163))"
  unfolding attach_item_def
proof (rule returns_skip, rule returns_skip, split option.split, intro conjI allI impI, simp, rule returns_guard)
  fix own t d u n
  assume n: "as_pyint (jget d ''size'') = Some n" "n \<le> br_max_file (bf_settings cfg)"
  obtain c where c: "unique_name (safe_name (text_of cfg (py_or (py_or (jget d ''filename'') (JStr own)) (JStr ''file'')))) names = Some c"
      "c \<notin> set names" "name_ok c" "length names < 97 \<longrightarrow> length c \<le> 163"
    using checkout_name_found by blast
  show "returns A R
     (case unique_name (safe_name (text_of cfg (py_or (py_or (jget d ''filename'') (JStr own)) (JStr ''file'')))) names of
        None \<Rightarrow> Stuck
      | Some filename \<Rightarrow>
          bind_io (item_of_dict d ''artifact_id'') (\<lambda>aid.
          bind_io (artifact_request ''POST'' (''/v1/artifacts/'' @ text_of cfg aid @ ''/downloads'')
              (Some [(''subject_id'', JStr (us_id user))])) (\<lambda>target.
          bind_io (item_of_dict d ''sha256'') (\<lambda>sha.
          bind_io (item_of_dict target ''url'') (\<lambda>url.
          bind_io (item_of_dict target ''token'') (\<lambda>token.
          bind_io (store_db (\<lambda>now fresh. bind_message_artifact now fresh chat message (text_of cfg aid) ''upload'' filename)) (\<lambda>u.
          Done (checkout_item aid filename (jget d ''size'') n sha url token, filename)))))))) u
     (\<lambda>(i, n) t. batch_item cfg names i n \<and> (length names < 97 \<longrightarrow> length n \<le> 163))"
    unfolding c(1) option.case
    by (intro returns_skip) (use c n in \<open>simp add: batch_item_def, blast\<close>)
qed

fun batch_items :: "bff_cfg \<Rightarrow> string list \<Rightarrow> (obj \<times> string) list \<Rightarrow> bool" where
  "batch_items cfg names [] = True"
| "batch_items cfg names ((i, n) # items) =
     (batch_item cfg names i n \<and> (length names < 97 \<longrightarrow> length n \<le> 163) \<and> batch_items cfg (n # names) items)"

lemma returns_attach_items:
  "returns A R (attach_items cfg chat user message seen names vs) s (\<lambda>items t. batch_items cfg names items)"
proof (induction cfg chat user message seen names vs arbitrary: s rule: attach_items.induct)
  case (2 cfg chat user message seen names v vs)
  show ?case
  proof (cases "attached_file seen v")
    case (Some fid)
    show ?thesis unfolding attach_items.simps Some option.case
      by (rule returns_bind [OF returns_attach_item], clarify, rule returns_bind [OF "2.IH"(2) [OF Some]]) auto
  qed (use "2.IH"(1) in simp)
qed simp

text \<open>An item as the Artifact service describes it: the values that the BFF copies are well formed.\<close>

definition service_item :: "mgr_cfg \<Rightarrow> obj \<Rightarrow> bool" where
  "service_item mcfg i \<longleftrightarrow>
     (\<exists>aid sha url token k. jget i ''artifact_id'' = JStr aid \<and> prefixed_hex ''artifact_'' 32 aid
        \<and> jget i ''sha256'' = JStr sha \<and> prefixed_hex [] 64 (lower sha) \<and> jget i ''size'' = JInt k \<and> 0 \<le> k
        \<and> jget i ''url'' = JStr url \<and> url \<noteq> [] \<and> length url \<le> 8192 \<and> validate_transfer_url mcfg url = Inr ()
        \<and> jget i ''token'' = JStr token \<and> token \<noteq> [] \<and> length token \<le> 8192)"

lemma name_chars:
  assumes "name_ok n"
  shows "n \<noteq> [] \<and> hd n \<noteq> CHR ''.'' \<and> CHR ''/'' \<notin> set n \<and> CHR 0x5C \<notin> set n \<and> CHR 0x00 \<notin> set n"
  using assms by (auto simp: name_ok_def list_all_iff is_name_char_def is_digit_def is_upper_def is_lower_def)

lemma item_accepted:
  assumes item: "batch_item cfg names i n" "length n \<le> 255" and service: "service_item mcfg i"
    and aid: "jget i ''artifact_id'' = JStr aid" "aid \<notin> set ids" and limit: "br_max_file (bf_settings cfg) \<le> max_artifact_bytes"
  shows "\<exists>x. checkout_artifact mcfg ids names (JObj (canon_obj i)) = Inr (aid, n, x) \<and> jget x ''filename'' = JStr n"
proof -
  obtain v k sha url token where i: "i = checkout_item (JStr aid) n v k sha url token" "as_pyint v = Some k" "k \<le> br_max_file (bf_settings cfg)"
    using item(1) aid(1) by (auto simp: batch_item_def checkout_item_def)
  have get: "jget (canon_obj i) x = canon (jget i x)" for x
    by (rule jget_canon_obj) (simp add: i checkout_item_def)
  obtain s u w where service': "prefixed_hex ''artifact_'' 32 aid" "sha = JStr s" "prefixed_hex [] 64 (lower s)"
      "v = JInt k" "0 \<le> k" "url = JStr u" "u \<noteq> []" "length u \<le> 8192" "validate_transfer_url mcfg u = Inr ()"
      "token = JStr w" "w \<noteq> []" "length w \<le> 8192"
    using service i(2) by (auto simp: i(1) service_item_def checkout_item_def)
  have lengths: "length s = 64" "length aid = 41" using service'(1,3) by (auto simp: prefixed_hex_def lower_def)
  have fields: "jget (canon_obj i) ''artifact_id'' = JStr aid" "jget (canon_obj i) ''filename'' = JStr n" "jget (canon_obj i) ''sha256'' = JStr s"
    "jget (canon_obj i) ''url'' = JStr u" "jget (canon_obj i) ''token'' = JStr w" "jget (canon_obj i) ''size'' = JInt k"
    "jget (canon_obj i) ''max_bytes'' = JInt (max k 1)"
    unfolding get using service' by (simp_all add: i(1) checkout_item_def max_def)
  have name: "n \<noteq> []" "n \<notin> {''.'', ''..''}" "CHR ''/'' \<notin> set n" "CHR 0x5C \<notin> set n" "CHR 0x00 \<notin> set n" "n \<notin> set names"
    using name_chars [of n] item(1) by (auto simp: batch_item_def)
  have sizes: "\<not> (max k 1 < k \<or> max_artifact_bytes < max k 1)" using i(3) limit by simp
  have nonempty: "aid \<noteq> []" "s \<noteq> []" using lengths by auto
  show ?thesis
    using service' lengths name sizes nonempty aid(2) item(2)
    by (simp add: checkout_artifact_def required_claim_def fields require_def del: max_def)
qed

lemma items_accepted:
  assumes "batch_items cfg names items" and "\<forall>i\<in>set (map fst items). service_item mcfg i"
    and "distinct (map (\<lambda>(i, n). jget i ''artifact_id'') items)" and "\<forall>(i, n)\<in>set items. jget i ''artifact_id'' \<notin> JStr ` set ids"
    and "length names + length items \<le> 97" and "br_max_file (bf_settings cfg) \<le> max_artifact_bytes"
  shows "\<exists>arts. checkout_items mcfg ids names (map (JObj \<circ> canon_obj) (map fst items)) = Inr arts
    \<and> map (\<lambda>x. jget x ''filename'') arts = map (JStr \<circ> snd) items"
  using assms
proof (induction items arbitrary: ids names)
  case (Cons item items)
  obtain i n where item: "item = (i, n)" by (cases item)
  then obtain aid where aid: "jget i ''artifact_id'' = JStr aid" using Cons.prems(2) by (auto simp: service_item_def)
  have n: "batch_item cfg names i n" "length n \<le> 255" "batch_items cfg (n # names) items" using Cons.prems(1,5) item by auto
  have "aid \<notin> set ids" using Cons.prems(4) item aid by auto
  then obtain x where x: "checkout_artifact mcfg ids names (JObj (canon_obj i)) = Inr (aid, n, x)" "jget x ''filename'' = JStr n"
    using item_accepted [OF n(1,2) _ aid _ Cons.prems(6), of mcfg ids] Cons.prems(2) item by auto
  have "\<forall>(j, m)\<in>set items. jget j ''artifact_id'' \<notin> JStr ` set (aid # ids)"
    using Cons.prems(3,4) item aid by (force simp: split_def)
  then obtain arts where "checkout_items mcfg (aid # ids) (n # names) (map (JObj \<circ> canon_obj) (map fst items)) = Inr arts"
      "map (\<lambda>x. jget x ''filename'') arts = map (JStr \<circ> snd) items"
    using Cons.IH [OF n(3), of "aid # ids"] Cons.prems item by (auto simp: comp_def)
  then show ?case using x by (simp add: item comp_def)
qed simp

lemma batch_items_names:
  "batch_items cfg names items \<Longrightarrow> length names + length items \<le> 97 \<Longrightarrow>
     distinct (map snd items) \<and> set (map snd items) \<inter> set names = {} \<and> (\<forall>n\<in>set (map snd items). name_ok n \<and> length n \<le> 163)"
  by (induction cfg names items rule: batch_items.induct) (fastforce simp: batch_item_def)+

text \<open>
  C36. The batch that \<open>_checkout_grant\<close> signs is accepted by the Manager and by the storage command, whatever names the
  attached files have: as long as there are at most 32 files with different Artifacts, the Artifact service describes them
  well, and the limit of the BFF is not above that of the Manager, every file keeps the name that the user is told. These
  names are different, have at most 163 characters, and none hides the manifest of the batch.
\<close>

theorem checkout_accepted:
  assumes run: "run (attach_items cfg chat user um [] [] vs) w s = (cs, Some (Inr items), t)"
    and number: "length items \<le> 32" and service: "\<forall>i\<in>set (map fst items). service_item mcfg i"
    and ids: "distinct (map (\<lambda>(i, n). jget i ''artifact_id'') items)"
    and limit: "br_max_file (bf_settings cfg) \<le> max_artifact_bytes"
    and messages: "valid_message_id um" "valid_message_id am" "length chat + length um \<le> 246"
  shows "\<exists>rq arts its. checkout_request mcfg (granted_claims ''artifact_checkout'' ttl now nonce
        (batch_claims chat ws sb um am (map fst items))) ''artifact_checkout'' sid = Inr rq
      \<and> jget (rq_claims rq) ''artifacts'' = JList (map JObj arts) \<and> public_artifacts [] [] arts = Inr its
      \<and> map (\<lambda>x. jget x ''filename'') arts = map (JStr \<circ> snd) items
      \<and> distinct (map snd items) \<and> (\<forall>n\<in>set (map snd items). length n \<le> 163 \<and> n \<noteq> ''.agent-checkout.json'')"
proof -
  have "obeys always (\<lambda>s t. True) cs w" by (rule obeys_all) (simp add: list_all_iff)
  then have items: "batch_items cfg [] items"
    using ensures_run [OF returns_attach_items run] by simp
  then obtain arts where arts: "checkout_items mcfg [] [] (map (JObj \<circ> canon_obj) (map fst items)) = Inr arts"
      "map (\<lambda>x. jget x ''filename'') arts = map (JStr \<circ> snd) items"
    using items_accepted [OF items service ids _ _ limit, of "[]"] number by auto
  then have "checkout_artifacts mcfg (JList (map (JObj \<circ> canon_obj) (map fst items))) = Inr arts"
    using number by (simp add: checkout_artifacts_def)
  from batch_accepted [OF messages this] obtain rq
    where "checkout_request mcfg (granted_claims ''artifact_checkout'' ttl now nonce
        (batch_claims chat ws sb um am (map fst items))) ''artifact_checkout'' sid = Inr rq"
      "jget (rq_claims rq) ''artifacts'' = JList (map JObj arts)"
    by blast
  moreover obtain its where "public_artifacts [] [] arts = Inr its" using checkout_items_storable [OF arts(1)] by blast
  moreover have "n \<noteq> ''.agent-checkout.json''" if "n \<in> set (map snd items)" for n
    using batch_items_names [OF items] number that by (auto simp: name_ok_def)
  moreover have "distinct (map snd items)" "\<forall>n\<in>set (map snd items). length n \<le> 163"
    using batch_items_names [OF items] number by simp_all
  ultimately show ?thesis using arts(2) by metis
qed

section \<open>Candidates\<close>

lemma publish_claims_get:
  "jget (granted_claims operation ttl now nonce (publish_claims cfg it [])) ''assistant_message_id'' = JStr (pi_message it)"
  "jget (granted_claims operation ttl now nonce (publish_claims cfg it [])) ''response_id'' = JStr (pi_response it)"
  "jget (granted_claims operation ttl now nonce (publish_claims cfg it [])) ''output_relative_path'' = JStr (pi_path it)"
  "jget (granted_claims operation ttl now nonce (publish_claims cfg it [])) ''max_bytes'' = JInt (br_max_file (bf_settings cfg))"
  "jget (granted_claims operation ttl now nonce (publish_claims cfg it [])) ''idempotency_key'' = JStr (''publish:'' @ pi_id it)"
  "k \<in> {''artifact_id'', ''upload_url'', ''upload_token''} \<Longrightarrow>
     jget (granted_claims operation ttl now nonce (publish_claims cfg it [])) k = JNull"
proof -
  have d: "distinct (map fst (publish_claims cfg it []))" by (simp add: publish_claims_def)
  note get = granted_claim [OF d]
  show "jget (granted_claims operation ttl now nonce (publish_claims cfg it [])) ''assistant_message_id'' = JStr (pi_message it)"
    "jget (granted_claims operation ttl now nonce (publish_claims cfg it [])) ''response_id'' = JStr (pi_response it)"
    "jget (granted_claims operation ttl now nonce (publish_claims cfg it [])) ''output_relative_path'' = JStr (pi_path it)"
    "jget (granted_claims operation ttl now nonce (publish_claims cfg it [])) ''max_bytes'' = JInt (br_max_file (bf_settings cfg))"
    "jget (granted_claims operation ttl now nonce (publish_claims cfg it [])) ''idempotency_key'' = JStr (''publish:'' @ pi_id it)"
    by (subst get; simp add: publish_claims_def jget_def)+
  show "jget (granted_claims operation ttl now nonce (publish_claims cfg it [])) k = JNull"
    if "k \<in> {''artifact_id'', ''upload_url'', ''upload_token''}"
  proof -
    have "k \<notin> set (map fst (publish_claims cfg it []))" using that by (auto simp: publish_claims_def)
    then show ?thesis
      unfolding granted_claims_def jget_canon_obj [OF distinct_grant_payload] unfolding grant_payload_def
      using that by (subst jget_jmerge_notin) (auto simp: jget_def)
  qed
qed

lemma word_dash_chars: "list_all is_word_dash m \<Longrightarrow> CHR ''/'' \<notin> set m \<and> m \<noteq> ''.'' \<and> m \<noteq> ''..''"
  by (auto simp: list_all_iff is_word_dash_def is_digit_def is_upper_def is_lower_def is_alpha_def)

lemma output_parts:
  assumes "valid_message_id m" and "plain_parts p"
  shows "source_parts (''outputs/'' @ m @ ''/'' @ p) = ''outputs'' # m # split_on CHR ''/'' p
    \<and> capture_parts_ok (''outputs'' # m # split_on CHR ''/'' p)"
proof -
  have m: "CHR ''/'' \<notin> set m" "m \<noteq> []" "m \<noteq> ''.''" "m \<noteq> ''..''"
    using assms(1) word_dash_chars [of m] by (auto simp: valid_message_id_def)
  have parts: "\<forall>q\<in>set (split_on CHR ''/'' p). q \<notin> {[], ''.'', ''..''}" using assms(2) by (simp add: plain_parts_def list_all_iff)
  have outputs: "CHR ''/'' \<notin> set ''outputs''" by simp
  have "split_on CHR ''/'' (''outputs'' @ CHR ''/'' # (m @ CHR ''/'' # p)) = ''outputs'' # m # split_on CHR ''/'' p"
    by (simp only: split_on_append [OF outputs] split_on_append [OF m(1)])
  then have "split_on CHR ''/'' (''outputs/'' @ m @ ''/'' @ p) = ''outputs'' # m # split_on CHR ''/'' p" by simp
  moreover have "filter (\<lambda>q. q \<noteq> [] \<and> q \<noteq> ''.'') (split_on CHR ''/'' p) = split_on CHR ''/'' p"
    using parts by (simp add: filter_id_conv)
  ultimately have "source_parts (''outputs/'' @ m @ ''/'' @ p) = ''outputs'' # m # split_on CHR ''/'' p"
    using m by (simp add: source_parts_def path_parts_def is_absolute_def starts_with_def)
  moreover have "0 < length (split_on CHR ''/'' p)" by simp
  ultimately show ?thesis using assms(1) m parts by (auto simp: capture_parts_ok_def list_all_iff Suc_le_eq simp del: length_greater_0_conv)
qed

text \<open>
  C37. A candidate that the BFF finds in an answer, or that a user asks for, is what the Manager and the capture command
  accept as a path, provided that it has no character NUL and at most 8192 characters, and that the byte limit of the BFF
  is between 1 byte and the 10 GiB of the Manager: the claims that the BFF signs for its capture then give a publish request for exactly this file in the
  output directory of the message. The ids of the intent are those that the BFF makes and checks. The BFF itself
  does not check these three conditions; what breaks them is refused by the Manager.
\<close>

theorem candidate_captured:
  assumes candidate: "p \<in> set (sandbox_candidates output (pi_message it)) \<or> candidate_relative v (pi_message it) = Inr p"
    and it: "pi_path it = p" "valid_message_id (pi_message it)" "prefixed_hex ''resp_'' 32 (pi_response it)"
      "length (pi_id it) \<le> 248"
    and path: "CHR 0x00 \<notin> set p" "length p \<le> 8192"
    and limit: "0 < br_max_file (bf_settings cfg)" "br_max_file (bf_settings cfg) \<le> max_artifact_bytes"
  shows "\<exists>rq. publish_request mcfg (granted_claims ''artifact_publish'' ttl now nonce (publish_claims cfg it [])) ''artifact_publish'' sid = Inr rq
    \<and> rq_key rq = ''artifact_publish:publish:'' @ pi_id it
    \<and> jget (rq_input rq) ''workspace_path'' = JStr (''outputs/'' @ pi_message it @ ''/'' @ p)
    \<and> source_parts (''outputs/'' @ pi_message it @ ''/'' @ p) = ''outputs'' # pi_message it # split_on CHR ''/'' p
    \<and> capture_parts_ok (source_parts (''outputs/'' @ pi_message it @ ''/'' @ p))"
proof -
  have plain: "p \<noteq> []" "plain_parts p"
    using candidate sandbox_candidates_plain candidate_relative_plain by blast+
  have "\<not> starts_with ''/'' p"
    using plain by (cases p) (auto simp: starts_with_def plain_parts_def)
  then have "safe_output_relative p = Inr p"
    using plain(2) path(1)
    by (auto simp: safe_output_relative_def plain_parts_def list_all_iff list_ex_iff require_def join_split_on)
  moreover have "length (pi_response it) = 37" using it(3) by (simp add: prefixed_hex_def)
  moreover have "length (pi_message it) \<le> 128" "pi_message it \<noteq> []" using it(2) by (auto simp: valid_message_id_def)
  ultimately show ?thesis
    using plain(1) it path limit output_parts [OF it(2) plain(2)]
    by (auto simp: publish_request_def message_id_claim_def required_claim_def idempotency_claim_def upload_target_def
        publish_claims_get require_def)
qed

section \<open>Samples\<close>

definition contract_bff :: bff_cfg where
  "contract_bff =
     \<lparr>bf_settings = \<lparr>br_enabled = True, br_adapter_url = ''http://a'', br_adapter_key = [], br_secret = ''key'', br_artifact_url = ''http://s'',
        br_artifact_key = [], br_grant_ttl = 120, br_terminal_ttl = 7200, br_max_file = 100, br_reconcile = 15, br_retry_limit = 8\<rparr>,
      bf_env = sample_env, bf_str = (\<lambda>v. case v of JStr s \<Rightarrow> s | _ \<Rightarrow> [])\<rparr>"

definition wanted_intent :: publish_intent where
  "wanted_intent = new_intent 1 ''intent_1'' ''c'' ''u'' ''w'' ''m1'' ''resp_0123456789abcdef0123456789abcdef'' ''a/b.txt''"

theorem candidate_captured_witness:
  "\<exists>rq. publish_request sample_cfg (granted_claims ''artifact_publish'' 120 1 ''n'' (publish_claims contract_bff wanted_intent [])) ''artifact_publish'' ''s'' = Inr rq
    \<and> jget (rq_input rq) ''workspace_path'' = JStr ''outputs/m1/a/b.txt''"
proof -
  have found: "''a/b.txt'' \<in> set (sandbox_candidates ''See sandbox:/workspace/outputs/m1/a/b.txt, done'' (pi_message wanted_intent))"
    by code_simp
  have it: "pi_path wanted_intent = ''a/b.txt''" "valid_message_id (pi_message wanted_intent)"
    "prefixed_hex ''resp_'' 32 (pi_response wanted_intent)" "length (pi_id wanted_intent) \<le> 248"
    "CHR 0x00 \<notin> set ''a/b.txt''" "length ''a/b.txt'' \<le> 8192" "0 < br_max_file (bf_settings contract_bff)"
    "br_max_file (bf_settings contract_bff) \<le> max_artifact_bytes" "pi_message wanted_intent = ''m1''"
    by code_simp+
  from candidate_captured [OF disjI1 [OF found] it(1-8), of sample_cfg 120 1 "''n''" "''s''"] show ?thesis by (auto simp: it(9))
qed

text \<open>A file whose name Windows would not take.\<close>

definition odd_descriptor :: obj where
  "odd_descriptor = [(''artifact_id'', JStr ''artifact_0123456789abcdef0123456789abcdef''), (''filename'', JStr ''../.a:b.txt''),
     (''size'', JInt 5), (''sha256'', JStr ''0123456789abcdef0123456789abcdef0123456789abcdef0123456789abcdef'')]"

definition odd_bff :: bff_cfg where
  "odd_bff = contract_bff\<lparr>bf_env := sample_env\<lparr>json_loads := (\<lambda>b. Some (JObj odd_descriptor))\<rparr>\<rparr>"

definition odd_item :: obj where
  "odd_item = checkout_item (JStr ''artifact_0123456789abcdef0123456789abcdef'') ''a_b.txt'' (JInt 5) 5
     (JStr ''0123456789abcdef0123456789abcdef0123456789abcdef0123456789abcdef'') (JStr ''http://artifacts/v1/x'') (JStr ''t'')"

definition odd_state :: bff where
  "odd_state = \<lparr>bs_db = empty_bff\<lparr>file_artifacts := [\<lparr>fa_file = ''f'', fa_artifact = ''a'', fa_owner = ''u'', fa_descriptor = ''d'', fa_created = 1\<rparr>]\<rparr>,
     bs_ready = True, bs_locks = [], bs_tasks = []\<rparr>"

definition odd_answers :: "(bff_error, bff_reply, bff) world_step list" where
  "odd_answers = map (\<lambda>r. \<lparr>wd_reply = Inr r, wd_others = (\<lambda>s. s)\<rparr>)
     [FileRow (Some (''u'', ''x'')), Turn 1 ''i'',
      Answered 200 (Some (JObj [(''url'', JStr ''http://artifacts/v1/x''), (''token'', JStr ''t'')])), Turn 1 ''i'']"

theorem checkout_accepted_witness:
  "\<exists>rq arts its. checkout_request sample_cfg (granted_claims ''artifact_checkout'' 120 1 ''n''
        (batch_claims ''c'' ''w'' None ''m1'' ''a1'' [odd_item])) ''artifact_checkout'' ''s'' = Inr rq
      \<and> jget (rq_claims rq) ''artifacts'' = JList (map JObj arts) \<and> public_artifacts [] [] arts = Inr its
      \<and> map (\<lambda>x. jget x ''filename'') arts = [JStr ''a_b.txt'']"
proof -
  let ?run = "run (attach_items odd_bff ''c'' \<lparr>us_id = ''u'', us_role = ''user''\<rparr> ''m1'' [] []
      [JObj [(''type'', JStr ''file''), (''id'', JStr ''f'')]]) odd_answers odd_state"
  obtain cs r t where run: "?run = (cs, r, t)" by (rule prod_cases3)
  have "fst (snd ?run) = Some (Inr [(odd_item, ''a_b.txt'')])" by code_simp
  then have run: "?run = (cs, Some (Inr [(odd_item, ''a_b.txt'')]), t)" using run by simp
  have "is_http_url (bracket_ok sample_cfg) ''http://artifacts/v1/x'' = Some True" by code_simp
  moreover have "starts_with (transfer_base sample_cfg @ ''/'') ''http://artifacts/v1/x''" by code_simp
  ultimately have url: "validate_transfer_url sample_cfg ''http://artifacts/v1/x'' = Inr ()"
    by (simp add: validate_transfer_url_def require_def)
  have hex: "prefixed_hex ''artifact_'' 32 ''artifact_0123456789abcdef0123456789abcdef''"
    "prefixed_hex [] 64 (lower ''0123456789abcdef0123456789abcdef0123456789abcdef0123456789abcdef'')" by code_simp+
  have "service_item sample_cfg odd_item"
    unfolding service_item_def odd_item_def checkout_item_def using hex url by (simp add: jget_def)
  moreover have "valid_message_id ''m1''" "valid_message_id ''a1''" by code_simp+
  ultimately show ?thesis
    using checkout_accepted [OF run, of sample_cfg "''a1''" 120 1 "''n''" "''w''" None "''s''"]
    by (auto simp: odd_bff_def contract_bff_def)
qed

end
