(* ===== verification/Spec2Isabelle.thy ===== *)
theory Spec2Isabelle
  imports State_Safety Manager_Flows Containers_Safety Artifact_Safety Artifact_App Response_Safety Stream_Replay Mcp_Safety
    Driver_Safety Adapter_Http Storage_Safety Storage_Retirement Bff_Publishing Bff_Access Bff_Contracts
begin

text \<open>
  litellm-gateway: a verification development of the Python code.

  \<^bold>\<open>The program.\<close> Open WebUI sends the chats of its users as Responses requests to the Responses adapter
  (\<open>src/src/codex_responses_adapter\<close>), which lets a Codex app-server answer them. Each app-server runs in a Sandbox of its
  own, behind a Sandbox Worker (\<open>src/src/sandbox_worker\<close>). The Sandbox Manager (\<open>src/src/sandbox_manager\<close>) creates
  the Sandboxes and owns the Workspaces, volumes that are checkpointed to an object store; work on files inside a Workspace is done by
  one-shot operation containers, which run the storage commands (\<open>src/src/storage_ops\<close>). Files travel through the
  Artifact service (\<open>src/src/artifact_service\<close>). The Agent BFF (\<open>src/deploy/open-webui/agent_open_webui\<close>) runs inside
  Open WebUI: it signs the grants with which a chat may attach files, use its Workspace and publish results. Grants
  (\<open>src/src/sandbox_api/grants.py\<close>) are the language in which these programs trust each other.

  \<^bold>\<open>Conventions\<close> (\<open>Prelude\<close>). JSON values are a datatype, dictionaries are association lists in the order of Python, a
  \<open>str\<close> is a \<open>string\<close> whose characters are the code points below 256. Text with other code points is not modelled: U+2028
  and U+2029, which \<open>str.splitlines\<close> takes for line ends, occur in no text of the model, which matters for \<open>split_lines\<close>
  and the claim on server-sent events. Errors are values of a sum; every raise is a branch. Clocks, fresh ids, HMAC,
  hashes, \<open>json.dumps\<close> and \<open>json.loads\<close> are parameters; where a proof needs a law of one (such as that printed JSON reads
  back) the law is a hypothesis of the theorem or a field of \<open>grant_env\<close>.

  \<^bold>\<open>Concurrency.\<close> Everything a coroutine does between two awaits is one step. The Manager is a set of segments, each a
  function on its state (\<open>Manager\<close>, \<open>Manager_Sandboxes\<close>), interleaved by the step relation of \<open>Manager_Invariant\<close>. The adapter,
  the BFF and the storage commands are programs (\<open>Programs\<close>): values of a datatype whose constructors read and write the
  state or await a call. \<open>run\<close> gives a program a list of answers with what the others did meanwhile, so a theorem about
  \<open>run\<close> holds for all answers and all interference; a list that ends early is a process that was killed.
  \<open>Programs\<close> also has the rules for them (\<open>yields\<close>, \<open>keeps\<close>, \<open>awaits\<close>, \<open>guarantees\<close>).

  \<^bold>\<open>The theories, by component.\<close>

  \<^item> Grants and encodings: \<open>Codec\<close> (UTF-8, base64; locale \<open>codec\<close>), \<open>Grants\<close> (issue and verify; locale \<open>nonce_ledger\<close>, which the
    nonce tables of the Manager and of the BFF interpret), \<open>Urls\<close>.
  \<^item> The Manager's store, \<open>state.py\<close>: \<open>State\<close> (five tables, every method, errors that roll back), \<open>State_Invariants\<close> (keys, references,
    heads, one writer per Workspace), \<open>State_Safety\<close> (locale \<open>exclusive_lock\<close> interpreted by \<open>claim_workspace\<close> and \<open>finish_sandbox\<close>;
    a revision is committed with everything that belongs to it or not at all; a deletion removes every row of the Workspace and nothing of others).
  \<^item> The Manager, \<open>docker_backend.py\<close>: \<open>Manager_Requests\<close> (authorization and the checks of operation requests), \<open>Manager\<close> and
    \<open>Manager_Sandboxes\<close> (the coroutines), \<open>Manager_Authorization\<close>, \<open>Manager_Operations\<close> (what a request may name, which requests
    schedule a task), \<open>Manager_Invariant\<close> (the store stays consistent under any interleaving, any outcome of Docker and
    crashes), \<open>Manager_Flows\<close> (checkpoints, startup recovery, a race of creation and cleanup). \<open>Containers\<close> and \<open>Containers_Safety\<close>:
    what a Sandbox or an operation container may see and do, the removal of containers, the policy for the object store.
  \<^item> The storage commands, \<open>cli.py\<close>: \<open>File_System\<close> (a table of nodes; each system call may fail), \<open>Storage_Ops\<close> (every command),
    \<open>Staging\<close>, \<open>Checkout\<close>, \<open>Storage_Safety\<close> (a batch appears as a whole or not at all, wherever the process is killed),
    \<open>Storage_Retirement\<close> (the retirement of a repository against an S3 store whose listings and deletions may fail, be refused or lose their
    answers, while others put objects there).
  \<^item> The Artifact service: \<open>Artifact_Store\<close> (uploads in parts and the commit protocol), \<open>Artifact_App\<close> (capabilities), \<open>Artifact_Safety\<close>
    (the parts against a reference; the commit under any interleaving of uploads that have staging keys of their own and without deletions;
    what goes wrong when two runs share a staging key).
  \<^item> The Worker: \<open>Event_History\<close> (locale \<open>event_history\<close>: a reader that keeps up misses nothing; interpreted by the log of the Worker and
    the history of MCP Apps), \<open>Worker\<close> (the JSON-RPC session, its questions and its events), \<open>Sse\<close> (server-sent events from the Worker
    to the adapter).
  \<^item> The adapter: \<open>Responses\<close> and \<open>Response_Events\<close> (the record of a response and the builder of its events), \<open>Response_Safety\<close> (the builder
    raises nothing, numbers its events, ends once; \<open>response_stream\<close> is the builder alone), \<open>Adapter_Errors\<close>, \<open>Adapter_Input\<close>, \<open>Mcp_Apps\<close>, \<open>Mcp_Safety\<close>,
    \<open>Sandbox_Client\<close>, \<open>Adapter_Store\<close>, \<open>Adapter_Service\<close>, \<open>Adapter_Operations\<close>, \<open>Adapter_Driver\<close> (\<open>service.py\<close>, start to end of a turn),
    \<open>Adapter_Safety\<close> (failed starts, sessions of MCP Apps), \<open>Driver_Safety\<close> (the driver loses no event of the Worker),
    \<open>Stream_Replay\<close> (the published stream: the service binds MCP Apps into the events of the builder before it publishes them; a client
    can rebuild the output from what is published), \<open>Adapter_Pages\<close> (pages of MCP Apps and their content security policy, with the way
    a browser reads such a header as the specification), \<open>Adapter_Http\<close>.
  \<^item> The BFF: \<open>Bff_Database\<close>, \<open>Bff_Names\<close>, \<open>Bff_Settings\<close>, \<open>Bff_Workspace\<close>, \<open>Bff_Requests\<close> (its tables, names, settings and coroutines),
    \<open>Bff_Intents\<close> (locale \<open>changes\<close> and its extension \<open>db_changes\<close>: what others may do to the tables), \<open>Bff_Publishing\<close> (the life of a publish
    intent), \<open>Bff_Access\<close> (which files a user may attach; terminal grants), \<open>Bff_Contracts\<close> (what the BFF signs against
    what the Manager and the storage commands accept).

  \<^bold>\<open>Abstract specifications.\<close> The exclusive lock, the nonce ledger, the codec and the event history are locales, stated for
  any provider and interpreted on the definitions of the code. \<open>Artifact_Safety\<close> compares the streaming upload with cutting
  the whole body, \<open>Worker\<close> a reader with the numbered list of everything published, \<open>Driver_Safety\<close> the driver with a
  fold over a slice of the Worker's events, \<open>Stream_Replay\<close> a client with the record, \<open>Checkout\<close> a run of system calls with one
  atomic change of a directory.

  \<^bold>\<open>Bounds and fuel.\<close> Loops that wait for someone else take fuel, and running out is the program \<open>Stuck\<close>, which gives no result:
  \<open>wait_operation\<close> and its kin (one unit for each poll; the code has a deadline, so polls are bounded by the clock that the
  world gives), \<open>drive_loop\<close> (one for each event or lost stream), \<open>maintain_sandbox_lease\<close> (one for each renewal), the readers of files
  (one for each chunk), \<open>retire_loop\<close> (one for each round; \<open>Storage_Retirement\<close> proves how many are enough). Theorems about
  programs that return hold for every fuel. Startup recovery, the callback of a turn and everything else recursive terminate
  without fuel.

  \<^bold>\<open>What is not modelled.\<close> FastAPI, httpx, boto3, the Docker client, SQLite and restic appear as the answers of their calls. Left out are
  process start and shutdown, argument parsers, logging, the standard error reader of the Worker, the routes of the
  Manager, the generators that write a response stream to HTTP, the byte streams of uploads in the BFF, and
  \<open>responses.py\<close> of the BFF, which patches classes of Open WebUI; further the TypeScript host, patches, scripts and container files.

  \<^bold>\<open>What the proofs showed.\<close> Some properties hold only under a condition that the code does not check, or fail. Each is
  proved as a theorem or lemma next to the property it limits: grants that are accepted twice in their last second, a creation that
  races local cleanup, uploads that share a staging key, a second message that replaces the first, a line end U+0085 that cuts an event,
  tools of an app that a terminal event misses (\<open>terminal_event_misses_tools\<close>) and a deadline that loses it
  (\<open>deadline_loses_terminal_event\<close>), a place of the semaphore that a second cancellation keeps, a comma that opens a
  second policy (\<open>comma_lifts_form_action\<close>), a name that the manifest of a batch replaces, regenerated answers whose checkout conflicts, and
  a failed emission that undoes a publication.
\<close>

end
